(* ===== verification/Prelude.thy ===== *)
theory Prelude
  imports Main "HOL-Library.Product_Lexorder"
begin

section \<open>Shared vocabulary of the development\<close>

text \<open>
  Actions with state and errors (the shape of every Go function that takes a context
  and returns an error), the table primitives that the repository layer's SQL is
  written with, and the generic lemmas the component theories share.

  \<^item> A Go function \<open>f(ctx, ...) (T, error)\<close> is an action: it maps the state to
    an error or a value together with the state it leaves behind.
  \<^item> A database table is the list of its rows.  \<open>upd_where\<close>,
    \<open>count_where\<close>, \<open>first_by\<close> and \<open>select_by\<close> are the
    \<open>UPDATE ... WHERE\<close>, \<open>RowsAffected\<close>, GORM's \<open>First\<close> (ordered by the primary
    key) and \<open>ORDER BY ... LIMIT\<close> of the code.
  \<^item> Instants and durations are integers in nanoseconds, the unit of Go's \<open>time.Duration\<close>;
    that the database keeps microseconds is not modelled.
\<close>

named_theorems act_simps "unfolding of the action combinators"
named_theorems tbl_simps "rewrite rules of the table primitives"

type_synonym time = int
type_synonym duration = int
type_synonym row_id = nat
type_synonym ('s, 'e, 'a) act = "'s \<Rightarrow> ('e + 'a) \<times> 's"

subsection \<open>Actions\<close>

definition ret :: "'a \<Rightarrow> ('s, 'e, 'a) act" where
  "ret x = (\<lambda>s. (Inr x, s))"

definition fail :: "'e \<Rightarrow> ('s, 'e, 'a) act" where
  "fail e = (\<lambda>s. (Inl e, s))"

definition bind :: "('s, 'e, 'a) act \<Rightarrow> ('a \<Rightarrow> ('s, 'e, 'b) act) \<Rightarrow> ('s, 'e, 'b) act" where
  "bind m f = (\<lambda>s. case m s of (Inl e, t) \<Rightarrow> (Inl e, t) | (Inr x, t) \<Rightarrow> f x t)"

definition seq :: "('s, 'e, 'a) act \<Rightarrow> ('s, 'e, 'b) act \<Rightarrow> ('s, 'e, 'b) act" where
  "seq m n = bind m (\<lambda>_. n)"

definition map_err :: "('e \<Rightarrow> 'f) \<Rightarrow> ('s, 'e, 'a) act \<Rightarrow> ('s, 'f, 'a) act" where
  "map_err h m = (\<lambda>s. case m s of (Inl e, t) \<Rightarrow> (Inl (h e), t) | (Inr x, t) \<Rightarrow> (Inr x, t))"

text \<open>\<open>attempt\<close> hands the error to the caller as a value, for the branches on \<open>errors.Is\<close>.\<close>

definition attempt :: "('s, 'e, 'a) act \<Rightarrow> ('s, 'f, 'e + 'a) act" where
  "attempt m = (\<lambda>s. case m s of (r, t) \<Rightarrow> (Inr r, t))"

definition guard :: "bool \<Rightarrow> 'e \<Rightarrow> ('s, 'e, unit) act" where
  "guard b e = (if b then ret () else fail e)"

definition lift_result :: "'e + 'a \<Rightarrow> ('s, 'e, 'a) act" where
  "lift_result r = (\<lambda>s. (r, s))"

fun map_act :: "('x \<Rightarrow> ('s, 'e, 'a) act) \<Rightarrow> 'x list \<Rightarrow> ('s, 'e, 'a list) act" where
  "map_act f [] = ret []"
| "map_act f (x # xs) = bind (f x) (\<lambda>y. bind (map_act f xs) (\<lambda>ys. ret (y # ys)))"

lemma act_run [act_simps]:
  "ret x s = (Inr x, s)"
  "fail e s = (Inl e, s)"
  "lift_result r s = (r, s)"
  "seq m n = bind m (\<lambda>_. n)"
  "guard b e s = (if b then (Inr (), s) else (Inl e, s))"
  by (simp_all add: ret_def fail_def lift_result_def seq_def guard_def)

lemma bind_run [act_simps]:
  "bind m f s = (case m s of (Inl e, t) \<Rightarrow> (Inl e, t) | (Inr x, t) \<Rightarrow> f x t)"
  by (simp add: bind_def)

lemma map_err_run [act_simps]:
  "map_err h m s = (case m s of (Inl e, t) \<Rightarrow> (Inl (h e), t) | (Inr x, t) \<Rightarrow> (Inr x, t))"
  by (simp add: map_err_def)

lemma attempt_run [act_simps]: "attempt m s = (Inr (fst (m s)), snd (m s))"
  by (simp add: attempt_def split: prod.splits)

lemma bind_ret_left: "bind (ret x) f = f x"
  by (simp add: bind_def ret_def)

lemma bind_ret_right: "bind m ret = m"
  by (rule ext) (simp add: bind_def ret_def split: prod.splits sum.splits)

lemma bind_assoc: "bind (bind m f) g = bind m (\<lambda>x. bind (f x) g)"
  by (rule ext) (simp add: bind_def split: prod.splits sum.splits)

lemma bind_Inr_iff:
  "bind m f s = (Inr y, u) \<longleftrightarrow> (\<exists>x t. m s = (Inr x, t) \<and> f x t = (Inr y, u))"
  by (auto simp: bind_def split: prod.splits sum.splits)

lemma bind_InrE:
  assumes "bind m f s = (Inr y, u)"
  obtains x t where "m s = (Inr x, t)" "f x t = (Inr y, u)"
  using assms by (auto simp: bind_Inr_iff)

lemma map_err_Inr_iff: "map_err h m s = (Inr y, u) \<longleftrightarrow> m s = (Inr y, u)"
  by (auto simp: map_err_def split: prod.splits sum.splits)

lemma map_err_snd [simp]: "snd (map_err h m s) = snd (m s)"
  by (simp add: map_err_def split: prod.splits sum.splits)

text \<open>
  An invariant that every part of a composed action keeps is kept by the whole, on the
  error path as on the success path.
\<close>

definition keeps :: "('s \<Rightarrow> bool) \<Rightarrow> ('s, 'e, 'a) act \<Rightarrow> bool" where
  "keeps I m \<longleftrightarrow> (\<forall>s. I s \<longrightarrow> I (snd (m s)))"

lemma keepsD: "keeps I m \<Longrightarrow> I s \<Longrightarrow> I (snd (m s))"
  by (simp add: keeps_def)

lemma keeps_ret [intro!]: "keeps I (ret x)"
  by (simp add: keeps_def ret_def)

lemma keeps_fail [intro!]: "keeps I (fail e)"
  by (simp add: keeps_def fail_def)

lemma keeps_lift_result [intro!]: "keeps I (lift_result r)"
  by (simp add: keeps_def lift_result_def)

lemma keeps_guard [intro!]: "keeps I (guard b e)"
  by (simp add: keeps_def guard_def ret_def fail_def)

lemma keeps_bind: "keeps I m \<Longrightarrow> (\<And>x. keeps I (f x)) \<Longrightarrow> keeps I (bind m f)"
  unfolding keeps_def bind_run
  by (clarsimp split: prod.split sum.split) (metis snd_conv)

lemma keeps_seq: "keeps I m \<Longrightarrow> keeps I n \<Longrightarrow> keeps I (seq m n)"
  by (simp add: seq_def keeps_bind)

lemma keeps_map_err [intro!]: "keeps I m \<Longrightarrow> keeps I (map_err h m)"
  by (simp add: keeps_def)

lemma keeps_attempt [intro!]: "keeps I m \<Longrightarrow> keeps I (attempt m)"
  by (simp add: keeps_def attempt_run)

lemma keeps_map_act: "(\<And>x. keeps I (f x)) \<Longrightarrow> keeps I (map_act f xs)"
  by (induction xs) (auto intro!: keeps_bind)

lemma act_ok: "\<not> isl (fst r) \<Longrightarrow> r = (Inr (projr (fst r)), snd r)"
  by (cases r) (auto simp: isl_def split: sum.splits elim: sum.exhaust_sel)

text \<open>
  Partial correctness with an error postcondition.  \<open>triple P m Q E\<close>: started in a state
  with \<open>P\<close>, a value \<open>x\<close> leaves a state with \<open>Q x\<close> and an error \<open>e\<close> one with \<open>E e\<close>.
  Actions are total functions, so nothing is hidden by non-termination.
\<close>

definition triple ::
  "('s \<Rightarrow> bool) \<Rightarrow> ('s, 'e, 'a) act \<Rightarrow> ('a \<Rightarrow> 's \<Rightarrow> bool) \<Rightarrow> ('e \<Rightarrow> 's \<Rightarrow> bool) \<Rightarrow> bool" where
  "triple P m Q E \<longleftrightarrow> (\<forall>s. P s \<longrightarrow> (case m s of (Inl e, t) \<Rightarrow> E e t | (Inr x, t) \<Rightarrow> Q x t))"

lemma tripleI:
  assumes "\<And>s x t. P s \<Longrightarrow> m s = (Inr x, t) \<Longrightarrow> Q x t" "\<And>s e t. P s \<Longrightarrow> m s = (Inl e, t) \<Longrightarrow> E e t"
  shows "triple P m Q E"
  unfolding triple_def using assms by (auto split: prod.split sum.split)

lemma triple_Inr: "triple P m Q E \<Longrightarrow> P s \<Longrightarrow> m s = (Inr x, t) \<Longrightarrow> Q x t"
  unfolding triple_def by (erule allE[of _ s]) simp

lemma triple_Inl: "triple P m Q E \<Longrightarrow> P s \<Longrightarrow> m s = (Inl e, t) \<Longrightarrow> E e t"
  unfolding triple_def by (erule allE[of _ s]) simp

lemma triple_ret: "(\<And>s. P s \<Longrightarrow> Q x s) \<Longrightarrow> triple P (ret x) Q E"
  by (simp add: triple_def ret_def)

lemma triple_fail: "(\<And>s. P s \<Longrightarrow> E e s) \<Longrightarrow> triple P (fail e) Q E"
  by (simp add: triple_def fail_def)

lemma triple_lift_result:
  "(\<And>s x. P s \<Longrightarrow> r = Inr x \<Longrightarrow> Q x s) \<Longrightarrow> (\<And>s e. P s \<Longrightarrow> r = Inl e \<Longrightarrow> E e s) \<Longrightarrow>
   triple P (lift_result r) Q E"
  by (cases r) (simp_all add: triple_def lift_result_def)

lemma triple_bind:
  assumes m: "triple P m R E" and f: "\<And>x. triple (R x) (f x) Q E"
  shows "triple P (bind m f) Q E"
proof (rule tripleI)
  fix s x t assume "P s" "bind m f s = (Inr x, t)"
  then show "Q x t" by (elim bind_InrE) (blast intro: triple_Inr[OF m] triple_Inr[OF f])
next
  fix s e t assume P: "P s" and b: "bind m f s = (Inl e, t)"
  then consider "m s = (Inl e, t)" | y u where "m s = (Inr y, u)" "f y u = (Inl e, t)"
    by (auto simp: bind_def split: prod.splits sum.splits)
  then show "E e t" using P by cases (blast intro: triple_Inl[OF m] triple_Inr[OF m] triple_Inl[OF f])+
qed

lemma triple_conseq:
  assumes "triple P' m Q' E'" "\<And>s. P s \<Longrightarrow> P' s" "\<And>x s. Q' x s \<Longrightarrow> Q x s" "\<And>e s. E' e s \<Longrightarrow> E e s"
  shows "triple P m Q E"
  by (rule tripleI) (blast intro: assms(2-4) triple_Inr[OF assms(1)] triple_Inl[OF assms(1)])+

lemma triple_if: "(b \<Longrightarrow> triple P m Q E) \<Longrightarrow> (\<not> b \<Longrightarrow> triple P n Q E) \<Longrightarrow> triple P (if b then m else n) Q E"
  by simp

lemma triple_pure: "(b \<Longrightarrow> triple P m Q E) \<Longrightarrow> triple (\<lambda>s. P s \<and> b) m Q E"
  by (auto simp: triple_def)

lemma triple_safe:
  assumes "triple P m (\<lambda>_. I) (\<lambda>e t. I t \<and> F e)" "P s"
  shows "I (snd (m s)) \<and> (\<forall>e. fst (m s) = Inl e \<longrightarrow> F e)"
proof (cases "m s")
  case (Pair r t)
  then show ?thesis using triple_Inr[OF assms] triple_Inl[OF assms] by (cases r) auto
qed

lemma map_err_Inl_iff: "map_err h m s = (Inl f, u) \<longleftrightarrow> (\<exists>e. m s = (Inl e, u) \<and> f = h e)"
  by (auto simp: map_err_def split: prod.splits sum.splits)

lemma triple_map_err: "triple P m Q (\<lambda>e. E (h e)) \<Longrightarrow> triple P (map_err h m) Q E"
  by (rule tripleI) (auto simp: map_err_Inr_iff map_err_Inl_iff dest: triple_Inr triple_Inl)

subsection \<open>Tables\<close>

definition upd_where :: "('r \<Rightarrow> bool) \<Rightarrow> ('r \<Rightarrow> 'r) \<Rightarrow> 'r list \<Rightarrow> 'r list" where
  "upd_where p f t = map (\<lambda>r. if p r then f r else r) t"

definition count_where :: "('r \<Rightarrow> bool) \<Rightarrow> 'r list \<Rightarrow> nat" where
  "count_where p t = length (filter p t)"

definition select_by :: "('r \<Rightarrow> 'k::linorder) \<Rightarrow> ('r \<Rightarrow> bool) \<Rightarrow> nat \<Rightarrow> 'r list \<Rightarrow> 'r list" where
  "select_by key p n t = take n (sort_key key (filter p t))"

definition first_by :: "('r \<Rightarrow> 'k::linorder) \<Rightarrow> ('r \<Rightarrow> bool) \<Rightarrow> 'r list \<Rightarrow> 'r option" where
  "first_by key p t = (case sort_key key (filter p t) of [] \<Rightarrow> None | r # _ \<Rightarrow> Some r)"

text \<open>The identity column: the next value is above every value handed out so far.\<close>

definition next_id :: "('r \<Rightarrow> row_id) \<Rightarrow> 'r list \<Rightarrow> row_id" where
  "next_id idf t = Suc (fold max (map idf t) 0)"

lemma fold_max_ge: "x \<in> set xs \<or> x \<le> m \<Longrightarrow> x \<le> fold max xs (m::nat)"
proof (induction xs arbitrary: m)
  case (Cons y ys)
  from Cons.prems have "x \<in> set ys \<or> x \<le> max y m" by (auto simp: le_max_iff_disj)
  then have "x \<le> fold max ys (max y m)" by (rule Cons.IH)
  then show ?case by simp
qed simp

lemma next_id_fresh: "r \<in> set t \<Longrightarrow> idf r < next_id idf t"
  by (simp add: next_id_def less_Suc_eq_le fold_max_ge)

lemma next_id_notin: "next_id idf t \<notin> idf ` set t"
  by (metis imageE less_irrefl next_id_fresh)

lemma next_id_pos [simp]: "0 < next_id idf t"
  by (simp add: next_id_def)

lemma upd_where_simps [tbl_simps]:
  "upd_where p f [] = []"
  "upd_where p f (r # t) = (if p r then f r else r) # upd_where p f t"
  "upd_where p f (t @ u) = upd_where p f t @ upd_where p f u"
  by (simp_all add: upd_where_def)

lemma set_upd_where: "set (upd_where p f t) = (\<lambda>r. if p r then f r else r) ` set t"
  by (simp add: upd_where_def)

lemma length_upd_where [simp]: "length (upd_where p f t) = length t"
  by (simp add: upd_where_def)

lemma upd_where_ids: "(\<And>r. p r \<Longrightarrow> idf (f r) = idf r) \<Longrightarrow> map idf (upd_where p f t) = map idf t"
  by (auto simp: upd_where_def)

lemma upd_where_unmatched: "(\<And>r. r \<in> set t \<Longrightarrow> \<not> p r) \<Longrightarrow> upd_where p f t = t"
  by (simp add: upd_where_def map_idI)

lemma in_upd_whereE:
  assumes "r \<in> set (upd_where p f t)"
  obtains (changed) r0 where "r0 \<in> set t" "p r0" "r = f r0"
    | (same) "r \<in> set t" "\<not> p r"
  using assms by (auto simp: set_upd_where split: if_splits)

lemma in_upd_where_iff:
  "r \<in> set (upd_where p f t) \<longleftrightarrow> (\<exists>r0\<in>set t. p r0 \<and> r = f r0) \<or> (r \<in> set t \<and> \<not> p r)"
  unfolding set_upd_where image_iff by (metis (mono_tags))

lemma upd_where_all: "list_all P t \<Longrightarrow> (\<And>r. P r \<Longrightarrow> p r \<Longrightarrow> P (f r)) \<Longrightarrow> list_all P (upd_where p f t)"
  by (auto simp: list_all_iff set_upd_where)

lemma count_where_0: "count_where p t = 0 \<longleftrightarrow> (\<forall>r\<in>set t. \<not> p r)"
  by (auto simp: count_where_def filter_empty_conv)

lemma count_where_key:
  assumes "distinct (map idf t)" and "\<And>r. p r \<Longrightarrow> idf r = k"
  shows "count_where p t \<le> 1"
proof -
  have "distinct (map idf (filter p t))" using assms(1) by (simp add: distinct_map_filter)
  moreover have "set (map idf (filter p t)) \<subseteq> {k}" using assms(2) by auto
  ultimately have "length (map idf (filter p t)) \<le> card {k}"
    by (metis card_mono distinct_card finite.emptyI finite.insertI)
  then show ?thesis by (simp add: count_where_def)
qed

lemma count_where_1_iff:
  assumes "distinct (map idf t)" and "\<And>r. p r \<Longrightarrow> idf r = k"
  shows "count_where p t = 1 \<longleftrightarrow> (\<exists>r\<in>set t. p r)"
proof -
  have "count_where p t \<le> 1" by (rule count_where_key[OF assms])
  then have "count_where p t = 1 \<longleftrightarrow> count_where p t \<noteq> 0" by linarith
  then show ?thesis by (simp add: count_where_0)
qed

lemma set_select_by: "set (select_by key p n t) \<subseteq> {r \<in> set t. p r}"
  using set_take_subset[of n "sort_key key (filter p t)"] by (auto simp: select_by_def)

lemma length_select_by: "length (select_by key p n t) \<le> n"
  by (simp add: select_by_def)

lemma select_by_ids: "distinct (map idf t) \<Longrightarrow> distinct (map idf (select_by key p n t))"
proof -
  assume "distinct (map idf t)"
  then have "distinct (map idf (sort_key key (filter p t)))"
    by (simp add: distinct_map inj_on_def)
  then show ?thesis by (simp add: select_by_def take_map flip: take_map)
qed

lemma select_by_sorted: "sorted (map key (select_by key p n t))"
  by (simp add: select_by_def take_map flip: take_map)

text \<open>Nothing that was passed over sorts before something that was taken.\<close>

lemma select_by_least:
  assumes "r \<in> set t" "p r" "r \<notin> set (select_by key p n t)" "q \<in> set (select_by key p n t)"
  shows "key q \<le> key r"
proof -
  let ?s = "sort_key key (filter p t)"
  have "r \<in> set ?s" using assms(1,2) by simp
  then have "r \<in> set (take n ?s) \<or> r \<in> set (drop n ?s)"
    by (metis Un_iff append_take_drop_id set_append)
  with assms(3) have r: "r \<in> set (drop n ?s)" by (simp add: select_by_def)
  have "sorted (map key (take n ?s @ drop n ?s))" by simp
  then have "\<forall>x\<in>set (take n ?s). \<forall>y\<in>set (drop n ?s). key x \<le> key y"
    by (simp only: map_append sorted_append) auto
  with r assms(4) show ?thesis by (simp add: select_by_def)
qed

text \<open>A selection shorter than its limit has taken everything.\<close>

lemma select_by_complete:
  assumes "length (select_by key p n t) < n"
  shows "set (select_by key p n t) = {r \<in> set t. p r}"
  using assms by (auto simp: select_by_def min_def split: if_splits)

lemma first_by_Some:
  assumes "first_by key p t = Some r"
  shows "r \<in> set t" "p r" "\<And>q. q \<in> set t \<Longrightarrow> p q \<Longrightarrow> key r \<le> key q"
proof -
  obtain rs where s: "sort_key key (filter p t) = r # rs"
    using assms by (auto simp: first_by_def split: list.splits)
  then have "r \<in> set (sort_key key (filter p t))" by simp
  then show "r \<in> set t" "p r" by simp_all
  have "sorted (map key (r # rs))" using s by (metis sorted_sort_key)
  moreover have "q \<in> set (r # rs)" if "q \<in> set t" "p q" for q
    using that arg_cong[OF s, of set] by auto
  ultimately show "\<And>q. q \<in> set t \<Longrightarrow> p q \<Longrightarrow> key r \<le> key q" by fastforce
qed

lemma first_by_None: "first_by key p t = None \<longleftrightarrow> (\<forall>r\<in>set t. \<not> p r)"
proof -
  have "first_by key p t = None \<longleftrightarrow> sort_key key (filter p t) = []"
    by (simp add: first_by_def split: list.splits)
  also have "\<dots> \<longleftrightarrow> filter p t = []" by (metis length_0_conv length_sort)
  finally show ?thesis by (simp add: filter_empty_conv)
qed

lemma first_by_unique:
  assumes "distinct (map idf t)" "r \<in> set t" "p r" "\<And>q. q \<in> set t \<Longrightarrow> p q \<Longrightarrow> idf q = idf r"
  shows "first_by key p t = Some r"
proof (cases "first_by key p t")
  case None
  then show ?thesis using assms(2,3) by (simp add: first_by_None)
next
  case (Some q)
  from first_by_Some[OF Some] assms(4) have "q \<in> set t" "idf q = idf r" by auto
  with assms(1,2) have "q = r" by (auto simp: distinct_map inj_on_def)
  with Some show ?thesis by simp
qed

text \<open>A change of the rows that neither the order nor the condition looks at.\<close>

lemma sort_key_map: "sort_key key (map g t) = map g (sort_key (\<lambda>r. key (g r)) t)"
proof (induction t)
  case (Cons r t)
  have "insort_key key (g r) (map g xs) = map g (insort_key (\<lambda>r. key (g r)) r xs)" for xs
    by (induction xs) auto
  with Cons show ?case by simp
qed simp

lemma first_by_map:
  assumes "\<And>r. key (g r) = key r" "\<And>r. p (g r) = p r"
  shows "first_by key p (map g t) = map_option g (first_by key p t)"
  using assms by (simp add: first_by_def filter_map o_def sort_key_map split: list.split)

lemma find_SomeD: "find p xs = Some x \<Longrightarrow> x \<in> set xs \<and> p x"
  by (auto simp: find_Some_iff)

subsection \<open>Go integers\<close>

text \<open>Two's complement wrap-around of a 64-bit and of a 32-bit signed result.\<close>

definition wrap64 :: "int \<Rightarrow> int" where
  "wrap64 x = (x + 2 ^ 63) mod 2 ^ 64 - 2 ^ 63"

lemma wrap64_id: "- (2 ^ 63) \<le> x \<Longrightarrow> x < 2 ^ 63 \<Longrightarrow> wrap64 x = x"
  by (simp add: wrap64_def)

lemma wrap64_range: "- (2 ^ 63) \<le> wrap64 x" "wrap64 x < 2 ^ 63"
  using pos_mod_bound[of "2 ^ 64" "x + 2 ^ 63"] pos_mod_sign[of "2 ^ 64" "x + 2 ^ 63"]
  by (auto simp: wrap64_def)

definition wrap32 :: "int \<Rightarrow> int" where
  "wrap32 x = (x + 2 ^ 31) mod 2 ^ 32 - 2 ^ 31"

lemma wrap32_id: "- (2 ^ 31) \<le> x \<Longrightarrow> x < 2 ^ 31 \<Longrightarrow> wrap32 x = x"
  by (simp add: wrap32_def)

text \<open>Dereferencing a \<open>*string\<close> with the empty string for nil.\<close>

definition value_or_empty :: "string option \<Rightarrow> string" where
  "value_or_empty v = (case v of None \<Rightarrow> [] | Some s \<Rightarrow> s)"

lemma value_or_empty_simps [simp]:
  "value_or_empty None = []" "value_or_empty (Some s) = s"
  by (simp_all add: value_or_empty_def)

lemma fold_max_int: "x \<in> set xs \<Longrightarrow> x \<le> fold max xs (m::int)" "m \<le> fold max xs (m::int)"
proof -
  have m: "m \<le> fold max xs m" for m :: int and xs
  proof (induction xs arbitrary: m)
    case (Cons y ys k)
    have "k \<le> max y k" by simp
    also have "\<dots> \<le> fold max ys (max y k)" by (rule Cons)
    finally show ?case by simp
  qed simp
  show "m \<le> fold max xs m" by (rule m)
  show "x \<in> set xs \<Longrightarrow> x \<le> fold max xs m"
  proof (induction xs arbitrary: m)
    case (Cons y ys)
    then show ?case using m[of "max y m" ys] by auto
  qed simp
qed

text \<open>The result of a run that is known to succeed.\<close>

lemma Inr_run: "\<not> isl (fst r) \<Longrightarrow> \<exists>x. r = (Inr x, snd r)"
  by (cases r; cases "fst r") auto

end
