(* ===== verification/Errors.thy ===== *)
theory Errors
  imports Prelude
begin

section \<open>Errors: business codes, error chains and the response envelope\<close>

text \<open>
  Models \<open>internal/apierr\<close> (the error codes, the constructors of the business error and
  the extraction of a business error from a Go error chain) and
  \<open>internal/pkg/envelope\<close> (the body rendered for an error).  The user-facing message
  texts are not modelled: nothing in the code branches on them.  The random \<open>ErrorID\<close> of
  a 500 is modelled by the fact that it is not empty, which is all the renderer looks at.
\<close>

datatype FieldCode =
    FieldRequired | FieldTooLong | FieldTooShort | FieldOutOfRange
  | FieldInvalidFormat | FieldInvalidEnum | FieldInvalidDomain | FieldConflict

datatype BizCode =
    BizInternal | BizNotFound | BizMethodNotAllowed | BizValidation | BizRateLimited
  | BizUnauthorized | BizServiceUnavailable
  | BizEmailTaken | BizUsernameChangeLimited | BizUsernameTaken | BizEmailDomainNotAllow
  | BizCredentialsInvalid | BizVerifyCodeInvalid | BizVerifyCodeTooMany | BizVerifyCodeBusy
  | BizAccountBanned | BizAccountDeleted | BizSessionRevoked | BizSessionNotFound
  | BizPermissionDenied | BizNotOwner
  | BizPostNotFound | BizPostNotPublished | BizPostDeleted | BizCommentNotFound
  | BizCommentDeleted | BizNotificationNotFound | BizContentUnderAudit | BizContentRejected
  | BizContentNotRestorable | BizModerationNotPending
  | BizDictItemNotFound | BizDictItemInUse | BizWindowNotInCanteen | BizSuggestionNotFound
  | BizSuggestionClosed | BizSuggestionParentPending | BizTagLimitExceeded | BizTagNotFound
  | BizTagNameConflict | BizTagMergeTargetInvalid
  | BizImageNotFound | BizImageNotOwned | BizImagePurposeWrong | BizImageNotApproved
  | BizUploadNotFound | BizUploadClosed | BizUploadIncomplete | BizUploadSizeMismatch
  | BizModerationCallbackInvalid
  | BizCannotFollowSelf | BizAlreadyExists | BizConflict

primrec biz_code_text :: "BizCode \<Rightarrow> string" where
  "biz_code_text BizInternal = ''internal_error''"
| "biz_code_text BizNotFound = ''not_found''"
| "biz_code_text BizMethodNotAllowed = ''method_not_allowed''"
| "biz_code_text BizValidation = ''validation_failed''"
| "biz_code_text BizRateLimited = ''rate_limited''"
| "biz_code_text BizUnauthorized = ''unauthorized''"
| "biz_code_text BizServiceUnavailable = ''service_unavailable''"
| "biz_code_text BizEmailTaken = ''email_taken''"
| "biz_code_text BizUsernameChangeLimited = ''username_change_limited''"
| "biz_code_text BizUsernameTaken = ''username_taken''"
| "biz_code_text BizEmailDomainNotAllow = ''email_domain_not_allow''"
| "biz_code_text BizCredentialsInvalid = ''credentials_invalid''"
| "biz_code_text BizVerifyCodeInvalid = ''verify_code_invalid''"
| "biz_code_text BizVerifyCodeTooMany = ''verify_code_too_many''"
| "biz_code_text BizVerifyCodeBusy = ''verify_code_busy''"
| "biz_code_text BizAccountBanned = ''account_banned''"
| "biz_code_text BizAccountDeleted = ''account_deleted''"
| "biz_code_text BizSessionRevoked = ''session_revoked''"
| "biz_code_text BizSessionNotFound = ''session_not_found''"
| "biz_code_text BizPermissionDenied = ''permission_denied''"
| "biz_code_text BizNotOwner = ''not_owner''"
| "biz_code_text BizPostNotFound = ''post_not_found''"
| "biz_code_text BizPostNotPublished = ''post_not_published''"
| "biz_code_text BizPostDeleted = ''post_deleted''"
| "biz_code_text BizCommentNotFound = ''comment_not_found''"
| "biz_code_text BizCommentDeleted = ''comment_deleted''"
| "biz_code_text BizNotificationNotFound = ''notification_not_found''"
| "biz_code_text BizContentUnderAudit = ''content_under_audit''"
| "biz_code_text BizContentRejected = ''content_rejected''"
| "biz_code_text BizContentNotRestorable = ''content_not_restorable''"
| "biz_code_text BizModerationNotPending = ''moderation_not_pending''"
| "biz_code_text BizDictItemNotFound = ''dict_item_not_found''"
| "biz_code_text BizDictItemInUse = ''dict_item_in_use''"
| "biz_code_text BizWindowNotInCanteen = ''window_not_in_canteen''"
| "biz_code_text BizSuggestionNotFound = ''suggestion_not_found''"
| "biz_code_text BizSuggestionClosed = ''suggestion_closed''"
| "biz_code_text BizSuggestionParentPending = ''suggestion_parent_pending''"
| "biz_code_text BizTagLimitExceeded = ''tag_limit_exceeded''"
| "biz_code_text BizTagNotFound = ''tag_not_found''"
| "biz_code_text BizTagNameConflict = ''tag_name_conflict''"
| "biz_code_text BizTagMergeTargetInvalid = ''tag_merge_target_invalid''"
| "biz_code_text BizImageNotFound = ''image_not_found''"
| "biz_code_text BizImageNotOwned = ''image_not_owned''"
| "biz_code_text BizImagePurposeWrong = ''image_purpose_wrong''"
| "biz_code_text BizImageNotApproved = ''image_not_approved''"
| "biz_code_text BizUploadNotFound = ''upload_not_found''"
| "biz_code_text BizUploadClosed = ''upload_closed''"
| "biz_code_text BizUploadIncomplete = ''upload_incomplete''"
| "biz_code_text BizUploadSizeMismatch = ''upload_size_mismatch''"
| "biz_code_text BizModerationCallbackInvalid = ''moderation_callback_invalid''"
| "biz_code_text BizCannotFollowSelf = ''cannot_follow_self''"
| "biz_code_text BizAlreadyExists = ''already_exists''"
| "biz_code_text BizConflict = ''conflict''"

definition all_biz_codes :: "BizCode list" where
  "all_biz_codes =
    [BizInternal, BizNotFound, BizMethodNotAllowed, BizValidation, BizRateLimited,
     BizUnauthorized, BizServiceUnavailable, BizEmailTaken, BizUsernameChangeLimited,
     BizUsernameTaken, BizEmailDomainNotAllow, BizCredentialsInvalid,
     BizVerifyCodeInvalid, BizVerifyCodeTooMany, BizVerifyCodeBusy, BizAccountBanned,
     BizAccountDeleted, BizSessionRevoked, BizSessionNotFound, BizPermissionDenied,
     BizNotOwner, BizPostNotFound, BizPostNotPublished, BizPostDeleted,
     BizCommentNotFound, BizCommentDeleted, BizNotificationNotFound, BizContentUnderAudit,
     BizContentRejected, BizContentNotRestorable, BizModerationNotPending,
     BizDictItemNotFound, BizDictItemInUse, BizWindowNotInCanteen, BizSuggestionNotFound,
     BizSuggestionClosed, BizSuggestionParentPending, BizTagLimitExceeded, BizTagNotFound,
     BizTagNameConflict, BizTagMergeTargetInvalid, BizImageNotFound, BizImageNotOwned,
     BizImagePurposeWrong, BizImageNotApproved, BizUploadNotFound, BizUploadClosed,
     BizUploadIncomplete, BizUploadSizeMismatch, BizModerationCallbackInvalid,
     BizCannotFollowSelf, BizAlreadyExists, BizConflict]"

text \<open>
  \<open>apierr.Error\<close>: \<open>None\<close> for the code is Go's empty string.  The repository errors are
  the sentinel values of \<open>repository/base.go\<close>, the two constraint violations the services
  tell apart by name, and any other database failure.
\<close>

record api_error =
  ae_status :: nat
  ae_code :: "BizCode option"
  ae_fields :: "(string \<times> FieldCode) list"
  ae_has_id :: bool

datatype repo_error =
    ErrNotFound
  | ErrAlreadyExists
  | UniqueViolation string
  | CheckViolation string
  | DbFailure
  | RepoPlain string

datatype go_error =
    ApiErr api_error "go_error option"
  | PersistedErr go_error
  | RateLimitErr nat go_error
  | RepoErr repo_error
  | PlainErr string

definition newf :: "nat \<Rightarrow> BizCode \<Rightarrow> go_error" where
  "newf status code =
     ApiErr \<lparr>ae_status = status, ae_code = Some code, ae_fields = [], ae_has_id = False\<rparr> None"

definition Unauthorized :: go_error where
  "Unauthorized = newf 401 BizUnauthorized"

definition code_or :: "BizCode option \<Rightarrow> BizCode \<Rightarrow> BizCode" where
  "code_or code dflt = (case code of None \<Rightarrow> dflt | Some c \<Rightarrow> c)"

definition BadRequest :: "BizCode option \<Rightarrow> go_error" where
  "BadRequest code = newf 400 (code_or code BizValidation)"

definition Forbidden :: "BizCode option \<Rightarrow> go_error" where
  "Forbidden code = newf 403 (code_or code BizPermissionDenied)"

definition NotFound :: "BizCode option \<Rightarrow> go_error" where
  "NotFound code = newf 404 (code_or code BizNotFound)"

definition Conflict :: "BizCode option \<Rightarrow> go_error" where
  "Conflict code = newf 409 (code_or code BizConflict)"

definition TooManyRequests :: "BizCode option \<Rightarrow> go_error" where
  "TooManyRequests code = newf 429 (code_or code BizRateLimited)"

definition ServiceUnavailable :: go_error where
  "ServiceUnavailable = newf 503 BizServiceUnavailable"

definition Invalid :: "(string \<times> FieldCode) list \<Rightarrow> go_error" where
  "Invalid fs = ApiErr \<lparr>ae_status = 422, ae_code = Some BizValidation,
     ae_fields = fs, ae_has_id = False\<rparr> None"

definition InvalidField :: "string \<Rightarrow> FieldCode \<Rightarrow> go_error" where
  "InvalidField field code = Invalid [(field, code)]"

definition internal_api :: api_error where
  "internal_api = \<lparr>ae_status = 500, ae_code = Some BizInternal, ae_fields = [], ae_has_id = True\<rparr>"

definition Internal :: "go_error \<Rightarrow> go_error" where
  "Internal cause = ApiErr internal_api (Some cause)"

fun WithCause :: "go_error \<Rightarrow> go_error \<Rightarrow> go_error" where
  "WithCause (ApiErr e _) cause = ApiErr e (Some cause)"
| "WithCause e _ = e"

text \<open>\<open>errors.As(err, &e)\<close> with the target type \<open>*apierr.Error\<close>: the first one in the chain.\<close>

fun errors_as_api :: "go_error \<Rightarrow> api_error option" where
  "errors_as_api (ApiErr e _) = Some e"
| "errors_as_api (PersistedErr e) = errors_as_api e"
| "errors_as_api (RateLimitErr _ e) = errors_as_api e"
| "errors_as_api (RepoErr _) = None"
| "errors_as_api (PlainErr _) = None"

text \<open>\<open>errors.As\<close> with the target \<open>*persistedError\<close>: it looks into the cause of a business error too.\<close>

fun ShouldCommitError :: "go_error \<Rightarrow> bool" where
  "ShouldCommitError (ApiErr _ None) = False"
| "ShouldCommitError (ApiErr _ (Some c)) = ShouldCommitError c"
| "ShouldCommitError (PersistedErr _) = True"
| "ShouldCommitError (RateLimitErr _ e) = ShouldCommitError e"
| "ShouldCommitError (RepoErr _) = False"
| "ShouldCommitError (PlainErr _) = False"

definition defaultBizCode :: "nat \<Rightarrow> BizCode" where
  "defaultBizCode status =
     (if status = 401 then BizUnauthorized
      else if status = 403 then BizPermissionDenied
      else if status = 404 then BizNotFound
      else if status = 409 then BizConflict
      else if status = 422 then BizValidation
      else if status = 503 then BizServiceUnavailable
      else if status \<ge> 500 then BizInternal
      else BizValidation)"

definition apierr_As :: "go_error \<Rightarrow> api_error" where
  "apierr_As err =
     (case errors_as_api err of
        Some e \<Rightarrow> (if ae_code e = None then e\<lparr>ae_code := Some (defaultBizCode (ae_status e))\<rparr> else e)
      | None \<Rightarrow> internal_api)"

text \<open>\<open>repository.ToAPIError\<close> for a non-nil error.\<close>

definition ToAPIError :: "BizCode \<Rightarrow> repo_error \<Rightarrow> go_error" where
  "ToAPIError code err = (if err = ErrNotFound then NotFound (Some code) else Internal (RepoErr err))"

definition internal_of :: "repo_error \<Rightarrow> go_error" where
  "internal_of err = Internal (RepoErr err)"

datatype envelope_data =
    ErrorData "(string \<times> FieldCode) list"
  | ErrorIDData
  | NullData

record envelope =
  env_code :: nat
  env_data :: envelope_data
  env_error_code :: "BizCode option"

definition FromError :: "api_error \<Rightarrow> nat \<times> envelope" where
  "FromError e = (ae_status e,
     \<lparr>env_code = ae_status e,
      env_data = (if ae_fields e \<noteq> [] then ErrorData (ae_fields e)
                  else if ae_has_id e then ErrorIDData else NullData),
      env_error_code = ae_code e\<rparr>)"

subsection \<open>Facts\<close>

lemma all_biz_codes_complete: "c \<in> set all_biz_codes"
  by (cases c) (simp_all add: all_biz_codes_def)

lemma biz_code_texts_distinct: "distinct (map biz_code_text all_biz_codes)"
  by code_simp

lemma biz_code_text_inj: "biz_code_text a = biz_code_text b \<Longrightarrow> a = b"
  using biz_code_texts_distinct all_biz_codes_complete by (auto simp: distinct_map inj_on_def)

lemma apierr_As_code: "ae_code (apierr_As err) \<noteq> None"
  by (simp add: apierr_As_def internal_api_def split: option.splits)

lemma apierr_As_internal: "errors_as_api err = None \<Longrightarrow> apierr_As err = internal_api"
  by (simp add: apierr_As_def)

lemma errors_as_api_constructors [simp]:
  "errors_as_api (newf st c) =
     Some \<lparr>ae_status = st, ae_code = Some c, ae_fields = [], ae_has_id = False\<rparr>"
  "errors_as_api (Internal e) = Some internal_api"
  "errors_as_api (WithCause e f) = errors_as_api e"
  by (simp_all add: newf_def Internal_def) (cases e; simp)

lemmas api_constructors = Unauthorized_def BadRequest_def Forbidden_def NotFound_def Conflict_def
  TooManyRequests_def ServiceUnavailable_def InvalidField_def Invalid_def newf_def
  code_or_def Internal_def internal_of_def ToAPIError_def

end
