(* ===== verification/Model.thy ===== *)
theory Model
  imports Errors
begin

section \<open>The data model\<close>

text \<open>
  Models \<open>internal/model\<close>: the enumerations, one record per table row, and the database
  as the record of its tables.  Enumerations that the code receives from outside as free
  strings (verdicts, statuses) have a last constructor for any other string.

  The database record also carries the script of infrastructure failures: \<open>db_fault n\<close>
  says whether the \<open>n\<close>-th statement fails.  Every repository operation consumes one
  index per statement it sends, so that each \<open>err != nil\<close> branch of the code is a branch
  of the model.  \<open>db_lower\<close> and \<open>db_name_fold\<close> are the server's \<open>lower(x)\<close> and
  \<open>lower(normalize(x, NFKC))\<close>, which depend on its collation, and \<open>db_collate\<close> gives the
  collation's sort key of a text, whose bytes decide \<open>ORDER BY\<close>.
\<close>

datatype UserRole = UserRoleUser | UserRoleDictReviewer | UserRoleModerator | UserRoleSuperAdmin

datatype Gender = GenderMale | GenderFemale | GenderOther | GenderUnknown string

datatype ModerationStatus =
  ModPending | ModPass | ModReview | ModBlock | ModOther string

datatype ModerationVerdict =
  VerdictPass | VerdictReview | VerdictBlock | VerdictOther string

datatype ModerationField = FieldName | FieldBio | FieldTitle | FieldContent

datatype ModerationScene = SceneText | SceneImage

datatype ImagePurpose = PurposePost | PurposeAvatar

datatype ImageStatus = ImgPending | ImgReady | ImgRetired

datatype PostType = TypeShare | TypeSeeking | TypeOther string

datatype ShareType = ShareRecommend | ShareWarning | ShareOther string

datatype PostStatus = PostDraft | PostPending | PostApproved | PostRejected

datatype PostCategory = CategoryFood | CategoryRecipe | CategoryOther string

datatype DeleteReason = DeletedByAuthor | DeletedByAdmin | DeletedByModeration

datatype FlavorStance = StanceHas | StancePrefer | StanceAvoid

datatype NotificationType =
  NotifyLikePost | NotifyLikeComment | NotifyComment | NotifyReply | NotifyMention | NotifyFollow

datatype SuggestionKind = KindFlavor | KindCuisine | KindCanteen | KindCanteenWindow

datatype SuggestionStatus = SuggestionPending | SuggestionApproved | SuggestionRejected

datatype VerificationPurpose = PurposeRegistration | PurposePasswordReset

datatype EmailDeliveryState =
  EmailPending | EmailSending | EmailSent | EmailCanceled | EmailDeadLetter

datatype ImageAccessOutboxState =
    ImageAccessPendingACL | ImageAccessPendingSubmit | ImageAccessSubmitting
  | ImageAccessSubmitted | ImageAccessSucceeded | ImageAccessDeadLetter

datatype ImageModerationRetryState = RetryPending | RetryDeadLetter

record user =
  u_id :: row_id
  u_email :: string
  u_password_hash :: string
  u_name :: string
  u_gender :: "Gender option"
  u_bio :: "string option"
  u_avatar_id :: "row_id option"
  u_roles :: "UserRole list option"
  u_ban_permanent :: bool
  u_banned_until :: "time option"
  u_ban_reason :: "string option"
  u_banned_by :: "row_id option"
  u_deleted_at :: "time option"
  u_created_at :: time
  u_updated_at :: time

record name_claim =
  nc_user_id :: row_id
  nc_name :: string
  nc_created_at :: time

record name_change =
  nch_id :: row_id
  nch_user_id :: row_id
  nch_old_name :: string
  nch_new_name :: string
  nch_changed_at :: time

record role_binding =
  rb_user_id :: row_id
  rb_role :: UserRole

record verification_code =
  vc_id :: row_id
  vc_email :: string
  vc_purpose :: VerificationPurpose
  vc_digest :: string
  vc_expires_at :: time
  vc_last_sent_at :: "time option"
  vc_window_started_at :: time
  vc_send_count :: int
  vc_failed_attempts :: int
  vc_consumed_at :: "time option"
  vc_created_at :: time
  vc_updated_at :: time

record session =
  s_id :: row_id
  s_user_id :: row_id
  s_refresh_digest :: string
  s_device_label :: "string option"
  s_user_agent :: "string option"
  s_ip :: "string option"
  s_created_at :: time
  s_last_seen_at :: time
  s_expires_at :: time
  s_revoked_at :: "time option"

record email_delivery =
  ed_id :: row_id
  ed_challenge_id :: row_id
  ed_email :: string
  ed_purpose :: VerificationPurpose
  ed_code_digest :: string
  ed_code :: "string option"
  ed_state :: EmailDeliveryState
  ed_attempts :: int
  ed_next_attempt_at :: "time option"
  ed_lease_token :: "string option"
  ed_lease_until :: "time option"
  ed_last_error_code :: "string option"
  ed_sent_at :: "time option"
  ed_canceled_at :: "time option"
  ed_dead_lettered_at :: "time option"
  ed_created_at :: time
  ed_updated_at :: time

record image_asset =
  img_id :: row_id
  img_uploader_id :: "row_id option"
  img_purpose :: ImagePurpose
  img_object_key :: string
  img_public_url :: string
  img_content_type :: string
  img_size :: "int option"
  img_status :: ImageStatus
  img_moderation :: ModerationStatus
  img_created_at :: time
  img_updated_at :: time

record post_image =
  pi_post_id :: row_id
  pi_position :: int
  pi_image_id :: row_id

record post =
  p_id :: row_id
  p_author_id :: row_id
  p_post_type :: PostType
  p_share_type :: "ShareType option"
  p_status :: PostStatus
  p_category :: PostCategory
  p_title :: string
  p_content :: string
  p_current_revision :: int
  p_canteen_id :: "row_id option"
  p_window_id :: "row_id option"
  p_cuisine_id :: "row_id option"
  p_price :: "int option"
  p_budget_min :: "int option"
  p_budget_max :: "int option"
  p_like_count :: int
  p_favorite_count :: int
  p_comment_count :: int
  p_view_count :: int
  p_deleted_at :: "time option"
  p_deleted_reason :: "DeleteReason option"
  p_deleted_by :: "row_id option"
  p_created_at :: time
  p_updated_at :: time

record moderation_record =
  mr_id :: row_id
  mr_post_id :: "row_id option"
  mr_comment_id :: "row_id option"
  mr_image_id :: "row_id option"
  mr_tag_id :: "row_id option"
  mr_user_id :: "row_id option"
  mr_field :: "ModerationField option"
  mr_username_candidate :: "string option"
  mr_username_revision :: "nat option"
  mr_content_revision :: "int option"
  mr_scene :: ModerationScene
  mr_provider :: string
  mr_provider_job_id :: "string option"
  mr_verdict :: ModerationVerdict
  mr_labels :: "string list"
  mr_score :: "int option"
  mr_raw_response :: "string option"
  mr_reviewer_id :: "row_id option"
  mr_reviewed_at :: "time option"
  mr_supersedes_id :: "row_id option"
  mr_created_at :: time

record access_intent =
  ai_id :: row_id
  ai_image_id :: row_id
  ai_source_record_id :: row_id
  ai_desired_public :: bool
  ai_created_at :: time

record access_delivery =
  ad_image_id :: row_id
  ad_intent_id :: row_id
  ad_desired_public :: bool
  ad_purge_required :: bool
  ad_generation :: int
  ad_state :: ImageAccessOutboxState
  ad_acl_attempts :: int
  ad_submit_attempts :: int
  ad_poll_attempts :: int
  ad_unknown_checks :: int
  ad_provider_job_id :: "string option"
  ad_submission_started_at :: "time option"
  ad_next_attempt_at :: "time option"
  ad_lease_token :: "string option"
  ad_lease_until :: "time option"
  ad_last_error_code :: "string option"
  ad_completed_at :: "time option"
  ad_dead_lettered_at :: "time option"
  ad_created_at :: time
  ad_updated_at :: time

record moderation_retry =
  rt_image_id :: row_id
  rt_state :: ImageModerationRetryState
  rt_attempts :: int
  rt_next_attempt_at :: "time option"
  rt_lease_token :: "string option"
  rt_lease_until :: "time option"
  rt_last_error_code :: string
  rt_dead_lettered_at :: "time option"
  rt_created_at :: time
  rt_updated_at :: time

text \<open>The dictionaries a post refers to, and its tags.\<close>

record canteen =
  ct_id :: row_id
  ct_code :: string
  ct_name :: string
  ct_campus :: string
  ct_sort_order :: int
  ct_is_active :: bool
  ct_created_at :: time
  ct_updated_at :: time

record canteen_window =
  wn_id :: row_id
  wn_canteen_id :: row_id
  wn_name :: string
  wn_floor :: "string option"
  wn_sort_order :: int
  wn_is_active :: bool
  wn_created_at :: time
  wn_updated_at :: time

record cuisine =
  cs_id :: row_id
  cs_name :: string
  cs_sort_order :: int
  cs_is_active :: bool
  cs_created_at :: time
  cs_updated_at :: time

record flavor =
  fl_id :: row_id
  fl_name :: string
  fl_sort_order :: int
  fl_is_active :: bool
  fl_created_at :: time
  fl_updated_at :: time

record tag =
  tg_id :: row_id
  tg_name :: string
  tg_created_at :: time
  tg_updated_at :: time
  tg_moderation :: ModerationStatus
  tg_deleted_at :: "time option"

record dictionary_suggestion =
  ds_id :: row_id
  ds_kind :: SuggestionKind
  ds_proposed_name :: string
  ds_proposer_id :: row_id
  ds_post_id :: "row_id option"
  ds_flavor_stance :: "FlavorStance option"
  ds_parent_canteen_id :: "row_id option"
  ds_parent_suggestion_id :: "row_id option"
  ds_status :: SuggestionStatus
  ds_reviewer_id :: "row_id option"
  ds_reviewed_at :: "time option"
  ds_review_note :: "string option"
  ds_resulting_flavor_id :: "row_id option"
  ds_resulting_cuisine_id :: "row_id option"
  ds_resulting_canteen_id :: "row_id option"
  ds_resulting_window_id :: "row_id option"
  ds_created_at :: time
  ds_updated_at :: time

record post_tag =
  ptg_post_id :: row_id
  ptg_tag_id :: row_id

record post_flavor =
  pfl_post_id :: row_id
  pfl_flavor_id :: row_id
  pfl_stance :: FlavorStance
  pfl_post_type :: PostType

text \<open>
  Versions.  The column \<open>snapshot\<close> holds the JSON text of a \<open>postSnapshot\<close>; the model keeps the
  value itself.
\<close>

record postSnapshot =
  ss_post_type :: PostType
  ss_share_type :: "ShareType option"
  ss_title :: string
  ss_content :: string
  ss_category :: PostCategory
  ss_canteen_id :: "row_id option"
  ss_canteen_window_id :: "row_id option"
  ss_cuisine_id :: "row_id option"
  ss_price :: "int option"
  ss_budget_min :: "int option"
  ss_budget_max :: "int option"
  ss_tags :: "string list"
  ss_flavors :: "(string \<times> FlavorStance) list"
  ss_images :: "string list"

record post_history =
  ph_id :: row_id
  ph_post_id :: row_id
  ph_revision :: int
  ph_edited_by :: row_id
  ph_edited_at :: time
  ph_snapshot :: postSnapshot
  ph_edit_reason :: "string option"

text \<open>Interactions.  \<open>EffectiveRootID\<close> and \<open>RootPostIDForAuthorCheck\<close> are generated columns.\<close>

record comment =
  cm_id :: row_id
  cm_post_id :: row_id
  cm_author_id :: row_id
  cm_parent_id :: "row_id option"
  cm_root_id :: "row_id option"
  cm_reply_to_user_id :: row_id
  cm_content :: string
  cm_current_revision :: int
  cm_moderation :: ModerationStatus
  cm_like_count :: int
  cm_reply_count :: int
  cm_deleted_at :: "time option"
  cm_deleted_reason :: "DeleteReason option"
  cm_deleted_by :: "row_id option"
  cm_created_at :: time
  cm_updated_at :: time

record comment_mention =
  cmm_comment_id :: row_id
  cmm_user_id :: row_id

record comment_history =
  chs_id :: row_id
  chs_comment_id :: row_id
  chs_revision :: int
  chs_edited_by :: row_id
  chs_edited_at :: time
  chs_content :: string

record post_like =
  pl_user_id :: row_id
  pl_post_id :: row_id
  pl_created_at :: time

record favorite =
  fv_user_id :: row_id
  fv_post_id :: row_id
  fv_created_at :: time

record comment_like =
  ck_user_id :: row_id
  ck_comment_id :: row_id
  ck_created_at :: time

record follow =
  fw_follower_id :: row_id
  fw_following_id :: row_id
  fw_created_at :: time

record notification =
  nt_id :: row_id
  nt_recipient_id :: row_id
  nt_sender_id :: row_id
  nt_type :: NotificationType
  nt_post_id :: "row_id option"
  nt_comment_id :: "row_id option"
  nt_content :: "string option"
  nt_is_read :: bool
  nt_created_at :: time
  nt_updated_at :: time

record db =
  users :: "user list"
  name_claims :: "name_claim list"
  name_changes :: "name_change list"
  role_bindings :: "role_binding list"
  codes :: "verification_code list"
  sessions :: "session list"
  email_deliveries :: "email_delivery list"
  images :: "image_asset list"
  post_images :: "post_image list"
  posts :: "post list"
  moderation_records :: "moderation_record list"
  access_intents :: "access_intent list"
  access_deliveries :: "access_delivery list"
  moderation_retries :: "moderation_retry list"
  canteens :: "canteen list"
  canteen_windows :: "canteen_window list"
  cuisines :: "cuisine list"
  flavors :: "flavor list"
  tags :: "tag list"
  dictionary_suggestions :: "dictionary_suggestion list"
  post_tags :: "post_tag list"
  post_flavors :: "post_flavor list"
  post_histories :: "post_history list"
  comments :: "comment list"
  comment_mentions :: "comment_mention list"
  comment_histories :: "comment_history list"
  post_likes :: "post_like list"
  favorites :: "favorite list"
  comment_likes :: "comment_like list"
  follows :: "follow list"
  notifications :: "notification list"
  db_lower :: "string \<Rightarrow> string"
  db_name_fold :: "string \<Rightarrow> string"
  db_collate :: "string \<Rightarrow> string"
  db_fault :: "nat \<Rightarrow> bool"
  db_stmts :: nat

definition empty_db :: db where
  "empty_db = \<lparr>users = [], name_claims = [], name_changes = [], role_bindings = [], codes = [],
     sessions = [], email_deliveries = [], images = [], post_images = [], posts = [],
     moderation_records = [], access_intents = [], access_deliveries = [],
     moderation_retries = [], canteens = [], canteen_windows = [], cuisines = [], flavors = [], tags = [],
     dictionary_suggestions = [], post_tags = [], post_flavors = [], post_histories = [],
     comments = [], comment_mentions = [], comment_histories = [], post_likes = [], favorites = [], comment_likes = [],
     follows = [], notifications = [], db_lower = id, db_name_fold = id, db_collate = id, db_fault = (\<lambda>_. False), db_stmts = 0\<rparr>"

text \<open>One statement: it fails when the script says so, otherwise the body runs.\<close>

definition stmt :: "(db, repo_error, 'a) act \<Rightarrow> (db, repo_error, 'a) act" where
  "stmt body = (\<lambda>s. if db_fault s (db_stmts s) then (Inl DbFailure, s\<lparr>db_stmts := Suc (db_stmts s)\<rparr>)
                    else body (s\<lparr>db_stmts := Suc (db_stmts s)\<rparr>))"

definition query :: "(db \<Rightarrow> 'a) \<Rightarrow> (db, repo_error, 'a) act" where
  "query f = stmt (\<lambda>s. (Inr (f s), s))"

text \<open>\<open>First\<close>: \<open>gorm.ErrRecordNotFound\<close>, normalised by the repository, when nothing matches.\<close>

definition query_first :: "(db \<Rightarrow> 'a option) \<Rightarrow> (db, repo_error, 'a) act" where
  "query_first f = stmt (\<lambda>s. (case f s of None \<Rightarrow> Inl ErrNotFound | Some x \<Rightarrow> Inr x, s))"

definition execute :: "(db \<Rightarrow> 'a \<times> db) \<Rightarrow> (db, repo_error, 'a) act" where
  "execute f = stmt (\<lambda>s. case f s of (x, t) \<Rightarrow> (Inr x, t))"

text \<open>
  A statement on a table with \<open>CHECK\<close> constraints: the server rejects it when a row of the
  resulting table violates one.
\<close>

definition checked :: "string \<Rightarrow> (db \<Rightarrow> bool) \<Rightarrow> (db \<Rightarrow> 'a \<times> db) \<Rightarrow> (db, repo_error, 'a) act" where
  "checked name ok f = stmt (\<lambda>s. case f s of (x, t) \<Rightarrow>
     if ok t then (Inr x, t) else (Inl (CheckViolation name), s))"

definition no_faults :: "db \<Rightarrow> bool" where
  "no_faults s \<longleftrightarrow> db_fault s = (\<lambda>_. False)"

lemma stmt_run [act_simps]:
  "stmt body s = (if db_fault s (db_stmts s) then (Inl DbFailure, s\<lparr>db_stmts := Suc (db_stmts s)\<rparr>)
                  else body (s\<lparr>db_stmts := Suc (db_stmts s)\<rparr>))"
  by (simp add: stmt_def)

lemma query_run [act_simps]:
  "query f s = (if db_fault s (db_stmts s) then (Inl DbFailure, s\<lparr>db_stmts := Suc (db_stmts s)\<rparr>)
     else (Inr (f (s\<lparr>db_stmts := Suc (db_stmts s)\<rparr>)), s\<lparr>db_stmts := Suc (db_stmts s)\<rparr>))"
  by (simp add: query_def stmt_def)

lemma query_first_run [act_simps]:
  "query_first f s = (if db_fault s (db_stmts s) then (Inl DbFailure, s\<lparr>db_stmts := Suc (db_stmts s)\<rparr>)
     else (case f (s\<lparr>db_stmts := Suc (db_stmts s)\<rparr>) of None \<Rightarrow> Inl ErrNotFound | Some x \<Rightarrow> Inr x,
           s\<lparr>db_stmts := Suc (db_stmts s)\<rparr>))"
  by (simp add: query_first_def stmt_def)

lemma execute_run [act_simps]:
  "execute f s = (if db_fault s (db_stmts s) then (Inl DbFailure, s\<lparr>db_stmts := Suc (db_stmts s)\<rparr>)
     else (Inr (fst (f (s\<lparr>db_stmts := Suc (db_stmts s)\<rparr>))), snd (f (s\<lparr>db_stmts := Suc (db_stmts s)\<rparr>))))"
  by (simp add: execute_def stmt_def split: prod.splits)

lemma checked_run [act_simps]:
  "checked name ok f s = (if db_fault s (db_stmts s) then (Inl DbFailure, s\<lparr>db_stmts := Suc (db_stmts s)\<rparr>)
     else let s' = s\<lparr>db_stmts := Suc (db_stmts s)\<rparr> in
       if ok (snd (f s')) then (Inr (fst (f s')), snd (f s')) else (Inl (CheckViolation name), s'))"
  by (simp add: checked_def stmt_def Let_def split: prod.splits)

text \<open>Invariants that do not read the statement counter are kept by statements whose body keeps them.\<close>

definition stmt_blind :: "(db \<Rightarrow> bool) \<Rightarrow> bool" where
  "stmt_blind I \<longleftrightarrow> (\<forall>s n. I (s\<lparr>db_stmts := n\<rparr>) = I s)"

lemma stmt_blindD: "stmt_blind I \<Longrightarrow> I (s\<lparr>db_stmts := n\<rparr>) = I s"
  by (simp add: stmt_blind_def)

lemma keeps_query: "stmt_blind I \<Longrightarrow> keeps I (query f)"
  by (simp add: keeps_def query_run stmt_blindD)

lemma keeps_query_first: "stmt_blind I \<Longrightarrow> keeps I (query_first f)"
  by (simp add: keeps_def query_first_run stmt_blindD)

lemma keeps_execute:
  assumes "stmt_blind I" and "\<And>s. I s \<Longrightarrow> I (snd (f s))"
  shows "keeps I (execute f)"
  using assms by (simp add: keeps_def execute_run stmt_blindD)

lemma keeps_checked:
  assumes "stmt_blind I" and "\<And>s. I s \<Longrightarrow> ok (snd (f s)) \<Longrightarrow> I (snd (f s))"
  shows "keeps I (checked name ok f)"
  using assms by (simp add: keeps_def checked_run stmt_blindD Let_def)

lemma triple_checked:
  assumes "\<And>s n. P s \<Longrightarrow> P (s\<lparr>db_stmts := n\<rparr>)" and "\<And>s. P s \<Longrightarrow> ok (snd (f s)) \<and> Q (fst (f s)) (snd (f s))"
  shows "triple P (checked name ok f) Q (\<lambda>e d. e = DbFailure)"
  unfolding triple_def
proof (intro allI impI)
  fix s assume "P s"
  with assms(2)[OF assms(1)] show "case checked name ok f s of (Inl e, t) \<Rightarrow> e = DbFailure | (Inr x, t) \<Rightarrow> Q x t"
    by (simp add: checked_run Let_def)
qed

lemma triple_checked_inv:
  assumes "stmt_blind I" and "\<And>s. I s \<Longrightarrow> ok (snd (f s)) \<and> I (snd (f s))" and "\<And>s. I s \<Longrightarrow> Q (fst (f s))"
  shows "triple I (checked name ok f) (\<lambda>x d. I d \<and> Q x) (\<lambda>e d. e = DbFailure)"
  by (rule triple_checked) (use assms in \<open>auto simp: stmt_blindD\<close>)

lemma execute_Inr_iff:
  "execute f s = (Inr x, t) \<longleftrightarrow>
     \<not> db_fault s (db_stmts s) \<and> f (s\<lparr>db_stmts := Suc (db_stmts s)\<rparr>) = (x, t)"
  by (auto simp: execute_run prod_eq_iff)

end
