(* ===== verification/Authz.thy ===== *)
theory Authz
  imports Model
begin

section \<open>Roles and capabilities\<close>

text \<open>
  Models \<open>internal/authz\<close> and the capability gate of \<open>internal/middleware/auth.go\<close>: the
  role table, the union over the roles bound to an account, and which roles are stored.
\<close>

datatype Capability =
    CapUseApp | CapReviewDictionarySuggestion | CapManageDictionary | CapReviewContent
  | CapManageContent | CapViewUserEvidence | CapBanUser | CapListUsers
  | CapManageUserRoles | CapListAdmins

fun roleCapabilities :: "UserRole \<Rightarrow> Capability list" where
  "roleCapabilities UserRoleUser = [CapUseApp]"
| "roleCapabilities UserRoleDictReviewer =
     [CapUseApp, CapReviewDictionarySuggestion, CapManageDictionary]"
| "roleCapabilities UserRoleModerator =
     [CapUseApp, CapReviewContent, CapManageContent, CapViewUserEvidence, CapBanUser]"
| "roleCapabilities UserRoleSuperAdmin =
     [CapUseApp, CapReviewDictionarySuggestion, CapManageDictionary, CapReviewContent,
      CapManageContent, CapViewUserEvidence, CapBanUser, CapListUsers, CapManageUserRoles,
      CapListAdmins]"

fun capability_in :: "Capability \<Rightarrow> Capability list \<Rightarrow> bool" where
  "capability_in c [] = False"
| "capability_in c (d # ds) = (if d = c then True else capability_in c ds)"

definition roleHasCapability :: "UserRole \<Rightarrow> Capability \<Rightarrow> bool" where
  "roleHasCapability role capability = capability_in capability (roleCapabilities role)"

fun any_role_has :: "UserRole list \<Rightarrow> Capability \<Rightarrow> bool" where
  "any_role_has [] c = False"
| "any_role_has (r # rs) c = (if roleHasCapability r c then True else any_role_has rs c)"

definition HasCapability :: "UserRole list \<Rightarrow> Capability \<Rightarrow> bool" where
  "HasCapability roles capability =
     (if roles = [] then roleHasCapability UserRoleUser capability
      else any_role_has roles capability)"

definition IsManagedRole :: "UserRole \<Rightarrow> bool" where
  "IsManagedRole role \<longleftrightarrow>
     role = UserRoleDictReviewer \<or> role = UserRoleModerator \<or> role = UserRoleSuperAdmin"

text \<open>
  \<open>RequireCapability\<close>: the principal (absent when the request was not authenticated) must
  hold the capability, otherwise the request fails with 401 or 403.  \<open>Inr ()\<close> is \<open>c.Next\<close>.
\<close>

definition RequireCapability :: "Capability \<Rightarrow> UserRole list option \<Rightarrow> go_error + unit" where
  "RequireCapability capability principal_roles =
     (case principal_roles of
        None \<Rightarrow> Inl Unauthorized
      | Some roles \<Rightarrow>
          if HasCapability roles capability then Inr ()
          else Inl (Forbidden (Some BizPermissionDenied)))"

subsection \<open>Facts\<close>

lemma capability_in_set: "capability_in c cs \<longleftrightarrow> c \<in> set cs"
  by (induction cs) auto

lemma roleHasCapability_iff: "roleHasCapability r c \<longleftrightarrow> c \<in> set (roleCapabilities r)"
  by (simp add: roleHasCapability_def capability_in_set)

lemma any_role_has_iff: "any_role_has rs c \<longleftrightarrow> (\<exists>r\<in>set rs. c \<in> set (roleCapabilities r))"
  by (induction rs) (auto simp: roleHasCapability_iff)

lemma HasCapability_union:
  "HasCapability roles c \<longleftrightarrow>
     (\<exists>r \<in> (if roles = [] then {UserRoleUser} else set roles). c \<in> set (roleCapabilities r))"
  by (simp add: HasCapability_def roleHasCapability_iff any_role_has_iff)

lemma super_admin_all: "c \<in> set (roleCapabilities UserRoleSuperAdmin)"
  by (cases c) simp_all

lemma role_only_super:
  "c \<in> {CapListUsers, CapManageUserRoles, CapListAdmins} \<Longrightarrow>
     c \<in> set (roleCapabilities r) \<longleftrightarrow> r = UserRoleSuperAdmin"
  by (cases r) auto

text \<open>
  Administering accounts.  Listing users, listing administrators and changing roles is
  possible exactly for an account one of whose roles is \<open>super_admin\<close>; an account without a
  bound role is an ordinary user, and adding a managed role to a non-empty binding never takes
  a capability away.
\<close>

theorem HasCapability_administration:
  "(c \<in> {CapListUsers, CapManageUserRoles, CapListAdmins} \<longrightarrow>
      (HasCapability roles c \<longleftrightarrow> UserRoleSuperAdmin \<in> set roles)) \<and>
   (HasCapability [] c \<longleftrightarrow> c = CapUseApp) \<and>
   (HasCapability roles c \<longrightarrow> HasCapability (role # roles) c) \<and>
   (HasCapability roles CapUseApp)"
proof (intro conjI impI)
  assume c: "c \<in> {CapListUsers, CapManageUserRoles, CapListAdmins}"
  show "HasCapability roles c \<longleftrightarrow> UserRoleSuperAdmin \<in> set roles"
    using role_only_super[OF c] by (auto simp: HasCapability_union)
next
  show "HasCapability [] c \<longleftrightarrow> c = CapUseApp" by (simp add: HasCapability_union)
next
  have use: "CapUseApp \<in> set (roleCapabilities r)" for r by (cases r) simp_all
  show "HasCapability (role # roles) c" if "HasCapability roles c"
    using that use by (auto simp: HasCapability_union split: if_splits)
  show "HasCapability roles CapUseApp"
    using use by (cases roles) (auto simp: HasCapability_union)
qed

theorem HasCapability_administration_witness:
  "CapBanUser \<notin> {CapListUsers} \<and> HasCapability [UserRoleModerator] CapBanUser \<and>
   \<not> HasCapability [UserRoleModerator] CapManageUserRoles \<and>
   HasCapability [UserRoleUser, UserRoleModerator] CapBanUser"
  using HasCapability_administration[of CapManageUserRoles "[UserRoleModerator]" UserRoleUser]
    HasCapability_administration[of CapBanUser "[UserRoleModerator]" UserRoleUser]
  by (simp add: HasCapability_def roleHasCapability_def)

end
