(* ===== verification/Uow.thy ===== *)
theory Uow
  imports Model
begin

section \<open>Transactions: the unit of work, its queues, and background transactions\<close>

text \<open>
  Models \<open>internal/infra/db\<close> (\<open>BeforeCommit\<close>, \<open>AfterCommit\<close>, \<open>RunInTx\<close>) and
  \<open>internal/middleware/uow.go\<close> with the error marks of \<open>internal/httpx/errors.go\<close> and the
  renderer of \<open>internal/middleware/errors.go\<close>.

  \<^item> \<open>req\<close> is what a request's context carries: the transaction's view of the
    database, the queue of actions to run before the commit, the queue of side effects to
    run after it (\<open>None\<close> where the context has no such queue, as in \<open>RunInTx\<close>), and the
    side effects already sent because there was no queue.
  \<^item> A handler ends with a response or with a panic.
  \<^item> A commit may succeed, fail, or fail after the server applied it (a lost reply).

  Background workers run several transactions, between which other sessions commit.
  \<open>world\<close> holds the committed database, the script \<open>w_env\<close> of what other sessions do before
  the worker's \<open>n\<close>-th transaction, the clock readings, the transactions that fail (with
  nothing applied, \<open>w_tx_fault\<close>, or applied with the reply lost, \<open>w_tx_lost\<close>), and the log of
  calls to external services.
\<close>

type_synonym before_action = "(db, go_error, unit) act"

record 'fx req =
  rq_db :: db
  rq_before :: "before_action list"
  rq_after :: "'fx list option"
  rq_sent :: "'fx list"

record response =
  rs_status :: nat
  rs_error :: "go_error option option"
  rs_commit_error :: bool

datatype handler_end = Panicked | Returned response

datatype commit_result = CommitOk | CommitFailed go_error bool

text \<open>A repository action inside a request, with its error as the service sees it.\<close>

definition repo :: "(db, repo_error, 'a) act \<Rightarrow> ('fx req, repo_error, 'a) act" where
  "repo m = (\<lambda>q. case m (rq_db q) of (r, d) \<Rightarrow> (r, q\<lparr>rq_db := d\<rparr>))"

definition BeforeCommit :: "before_action \<Rightarrow> ('fx req, go_error, unit) act" where
  "BeforeCommit callback = (\<lambda>q. (Inr (), q\<lparr>rq_before := rq_before q @ [callback]\<rparr>))"

definition AfterCommit :: "'fx \<Rightarrow> ('fx req, go_error, bool) act" where
  "AfterCommit callback = (\<lambda>q. case rq_after q of
      None \<Rightarrow> (Inr False, q)
    | Some fxs \<Rightarrow> (Inr True, q\<lparr>rq_after := Some (fxs @ [callback])\<rparr>))"

fun BeforeCommitQueue_Run :: "before_action list \<Rightarrow> (db, go_error, unit) act" where
  "BeforeCommitQueue_Run [] = ret ()"
| "BeforeCommitQueue_Run (callback # rest) = seq callback (BeforeCommitQueue_Run rest)"

text \<open>
  \<open>AfterCommitQueue.Run\<close>: every callback runs, in order; the panics of single callbacks are
  collected.  \<open>panics fx\<close> says whether the callback panics.
\<close>

fun AfterCommitQueue_Run :: "('fx \<Rightarrow> bool) \<Rightarrow> 'fx list \<Rightarrow> 'fx list \<times> 'fx list" where
  "AfterCommitQueue_Run panics [] = ([], [])"
| "AfterCommitQueue_Run panics (fx # rest) =
     (case AfterCommitQueue_Run panics rest of (finished, recovered) \<Rightarrow>
        (fx # finished, if panics fx then fx # recovered else recovered))"

text \<open>A rollback restores the tables; statements already sent stay sent.\<close>

definition rollback :: "db \<Rightarrow> db \<Rightarrow> db" where
  "rollback before now = before\<lparr>db_stmts := db_stmts now\<rparr>"

definition HasError :: "response \<Rightarrow> bool" where
  "HasError r \<longleftrightarrow> rs_error r \<noteq> None"

definition httpx_Fail :: "go_error \<Rightarrow> response \<Rightarrow> response" where
  "httpx_Fail err r = r\<lparr>rs_error := Some (Some err)\<rparr>"

definition CommitError :: "response \<Rightarrow> response" where
  "CommitError r = r\<lparr>rs_commit_error := True\<rparr>"

definition shouldCommitError :: "response \<Rightarrow> bool" where
  "shouldCommitError r =
     (if \<not> rs_commit_error r then False
      else if rs_status r \<ge> 500 then False
      else case rs_error r of
          Some None \<Rightarrow> False
        | Some (Some err) \<Rightarrow> (let st = ae_status (apierr_As err) in 400 \<le> st \<and> st < 500)
        | None \<Rightarrow> 400 \<le> rs_status r \<and> rs_status r < 500)"

record 'fx uow_out =
  uo_db :: db
  uo_end :: handler_end
  uo_ran :: "'fx list"
  uo_panics :: "'fx list"

definition rolled_back :: "db \<Rightarrow> handler_end \<Rightarrow> 'fx uow_out" where
  "rolled_back d e = \<lparr>uo_db = d, uo_end = e, uo_ran = [], uo_panics = []\<rparr>"

definition UnitOfWork ::
  "go_error option \<Rightarrow> commit_result \<Rightarrow> ('fx \<Rightarrow> bool) \<Rightarrow> response \<Rightarrow>
   ('fx req \<Rightarrow> handler_end \<times> 'fx req) \<Rightarrow> db \<Rightarrow> 'fx uow_out" where
  "UnitOfWork beginErr commitRes panics r0 next d =
     (case beginErr of
        Some err \<Rightarrow> rolled_back d (Returned (httpx_Fail err r0))
      | None \<Rightarrow>
        (case next \<lparr>rq_db = d, rq_before = [], rq_after = Some [], rq_sent = []\<rparr> of
           (Panicked, q) \<Rightarrow> rolled_back (rollback d (rq_db q)) Panicked
         | (Returned r, q) \<Rightarrow>
             if (HasError r \<or> rs_status r \<ge> 400) \<and> \<not> shouldCommitError r
             then rolled_back (rollback d (rq_db q)) (Returned r)
             else (case BeforeCommitQueue_Run (rq_before q) (rq_db q) of
                 (Inl err, d') \<Rightarrow> rolled_back (rollback d d') (Returned (httpx_Fail err r))
               | (Inr _, d') \<Rightarrow>
                   (case commitRes of
                      CommitFailed err applied \<Rightarrow>
                        rolled_back (if applied then d' else rollback d d') (Returned (httpx_Fail err r))
                    | CommitOk \<Rightarrow>
                        (case AfterCommitQueue_Run panics (case rq_after q of None \<Rightarrow> [] | Some fxs \<Rightarrow> fxs) of
                           (finished, recovered) \<Rightarrow>
                             \<lparr>uo_db = d', uo_end = Returned r, uo_ran = finished, uo_panics = recovered\<rparr>)))))"

text \<open>
  What the client receives: \<open>ErrorHandler\<close> replaces the response by the rendered error when
  one was reported, \<open>Recovery\<close> turns a panic into a 500.
\<close>

definition ErrorHandler :: "handler_end \<Rightarrow> nat \<times> envelope option" where
  "ErrorHandler e = (case e of
      Panicked \<Rightarrow> (500, Some (snd (FromError internal_api)))
    | Returned r \<Rightarrow> (case rs_error r of
          Some (Some err) \<Rightarrow> (case FromError (apierr_As err) of (st, body) \<Rightarrow> (st, Some body))
        | _ \<Rightarrow> (rs_status r, None)))"

subsection \<open>Background transactions\<close>

record 'c world =
  w_db :: db
  w_env :: "nat \<Rightarrow> db \<Rightarrow> db"
  w_txs :: nat
  w_tx_fault :: "nat \<Rightarrow> bool"
  w_tx_lost :: "nat \<Rightarrow> bool"
  w_clock :: "nat \<Rightarrow> time"
  w_ticks :: nat
  w_log :: "'c list"

definition clock_now :: "('c world, 'e, time) act" where
  "clock_now = (\<lambda>w. (Inr (w_clock w (w_ticks w)), w\<lparr>w_ticks := Suc (w_ticks w)\<rparr>))"

text \<open>An external call: the answer may depend on how many calls were made before.\<close>

definition ext_call :: "'c \<Rightarrow> (nat \<Rightarrow> 'r) \<Rightarrow> ('c world, 'e, 'r) act" where
  "ext_call c answer = (\<lambda>w. (Inr (answer (length (w_log w))), w\<lparr>w_log := w_log w @ [c]\<rparr>))"

text \<open>
  \<open>RunInTx\<close>: the context it builds has a queue of before-commit actions but none for side
  effects, so what the body sends goes out at once, whether or not the transaction commits.
\<close>

definition RunInTx :: "('c req, go_error, 'a) act \<Rightarrow> ('c world, go_error, 'a) act" where
  "RunInTx fn = (\<lambda>w.
     let d = w_env w (w_txs w) (w_db w);
         w' = w\<lparr>w_db := d, w_txs := Suc (w_txs w)\<rparr>
     in if w_tx_fault w (w_txs w) then (Inl (RepoErr DbFailure), w')
        else (case fn \<lparr>rq_db = d, rq_before = [], rq_after = None, rq_sent = []\<rparr> of
            (Inl err, q) \<Rightarrow> (Inl err, w'\<lparr>w_db := rollback d (rq_db q), w_log := w_log w @ rq_sent q\<rparr>)
          | (Inr x, q) \<Rightarrow>
              (case BeforeCommitQueue_Run (rq_before q) (rq_db q) of
                 (Inl err, d') \<Rightarrow> (Inl err, w'\<lparr>w_db := rollback d d', w_log := w_log w @ rq_sent q\<rparr>)
               | (Inr _, d') \<Rightarrow>
                   (if w_tx_lost w (w_txs w) then Inl (RepoErr DbFailure) else Inr x,
                    w'\<lparr>w_db := d', w_log := w_log w @ rq_sent q\<rparr>))))"

text \<open>The same for a worker whose log records more than the side effects of the body.\<close>

definition with_log :: "'c world \<Rightarrow> 'd list \<Rightarrow> 'd world" where
  "with_log w l = \<lparr>w_db = w_db w, w_env = w_env w, w_txs = w_txs w, w_tx_fault = w_tx_fault w, w_tx_lost = w_tx_lost w,
     w_clock = w_clock w, w_ticks = w_ticks w, w_log = l\<rparr>"

definition RunInTx_with :: "('c \<Rightarrow> 'd) \<Rightarrow> ('c req, go_error, 'a) act \<Rightarrow> ('d world, go_error, 'a) act" where
  "RunInTx_with emb fn = (\<lambda>w. case RunInTx fn (with_log w []) of
     (r, w') \<Rightarrow> (r, with_log w' (w_log w @ map emb (w_log w'))))"

text \<open>A background transaction around one repository action.\<close>

definition in_tx :: "(db, repo_error, 'a) act \<Rightarrow> ('c world, go_error, 'a) act" where
  "in_tx m = RunInTx (map_err RepoErr (repo m))"

subsection \<open>Facts\<close>

lemma AfterCommitQueue_Run_all:
  "AfterCommitQueue_Run panics fxs = (fxs, filter panics fxs)"
  by (induction fxs) simp_all

lemma rollback_simps [simp]:
  "db_stmts (rollback d d') = db_stmts d'"
  "(rollback d d')\<lparr>db_stmts := db_stmts d\<rparr> = d"
  by (simp_all add: rollback_def)

lemma repo_run [act_simps]: "repo m q = (fst (m (rq_db q)), q\<lparr>rq_db := snd (m (rq_db q))\<rparr>)"
  by (simp add: repo_def split: prod.splits)

lemma RunInTx_keeps:
  assumes blind: "stmt_blind I"
    and env: "\<And>n d. I d \<Longrightarrow> I (w_env w n d)"
    and fn: "\<And>q. I (rq_db q) \<Longrightarrow> rq_before q = [] \<Longrightarrow>
               I (rq_db (snd (fn q))) \<and> rq_before (snd (fn q)) = []"
    and inv: "I (w_db w)"
  shows "I (w_db (snd (RunInTx fn w)))"
proof -
  let ?q0 = "\<lparr>rq_db = w_env w (w_txs w) (w_db w), rq_before = [], rq_after = None, rq_sent = []\<rparr>"
  have d: "I (w_env w (w_txs w) (w_db w))" by (rule env[OF inv])
  then have q: "I (rq_db (snd (fn ?q0)))" "rq_before (snd (fn ?q0)) = []" using fn[of ?q0] by simp_all
  show ?thesis
    using d q blind
    by (auto simp: RunInTx_def Let_def rollback_def stmt_blindD ret_def split: prod.splits sum.splits)
qed

lemma RunInTx_frame:
  "w_env (snd (RunInTx fn w)) = w_env w"
  "w_clock (snd (RunInTx fn w)) = w_clock w"
  "w_ticks (snd (RunInTx fn w)) = w_ticks w"
  "w_txs (snd (RunInTx fn w)) = Suc (w_txs w)"
  by (auto simp: RunInTx_def Let_def split: prod.splits sum.splits)

lemma in_tx_run [act_simps]:
  "in_tx m w =
    (let d = w_env w (w_txs w) (w_db w); w' = w\<lparr>w_db := d, w_txs := Suc (w_txs w)\<rparr>
     in if w_tx_fault w (w_txs w) then (Inl (RepoErr DbFailure), w')
        else (case m d of
            (Inl e, d') \<Rightarrow> (Inl (RepoErr e), w'\<lparr>w_db := rollback d d'\<rparr>)
          | (Inr x, d') \<Rightarrow> (if w_tx_lost w (w_txs w) then Inl (RepoErr DbFailure) else Inr x,
                           w'\<lparr>w_db := d'\<rparr>)))"
  by (simp add: in_tx_def RunInTx_def Let_def map_err_def repo_def ret_def split: prod.splits sum.splits)

lemma in_tx_Inr:
  assumes "in_tx m w = (Inr x, w')"
  shows "m (w_env w (w_txs w) (w_db w)) = (Inr x, w_db w')" "w_log w' = w_log w"
    "w_env w' = w_env w" "w_clock w' = w_clock w" "w_ticks w' = w_ticks w"
  using assms by (auto simp: in_tx_run Let_def split: if_splits prod.splits sum.splits)

lemma in_tx_log: "w_log (snd (in_tx m w)) = w_log w"
  by (auto simp: in_tx_run Let_def split: prod.splits sum.splits)

text \<open>An invariant of the database that the other sessions respect.\<close>

definition world_inv :: "(db \<Rightarrow> bool) \<Rightarrow> 'c world \<Rightarrow> bool" where
  "world_inv I w \<longleftrightarrow> (\<forall>n d. I d \<longrightarrow> I (w_env w n d)) \<and> I (w_db w)"

definition not_check_violation :: "go_error \<Rightarrow> bool" where
  "not_check_violation e \<longleftrightarrow> (\<forall>name. e \<noteq> RepoErr (CheckViolation name))"

text \<open>A transaction whose body queues no before-commit action.\<close>

lemma triple_RunInTx_with:
  assumes blind: "stmt_blind I" and db: "E (RepoErr DbFailure)"
    and fn: "triple (\<lambda>q. I (rq_db q) \<and> rq_before q = []) fn (\<lambda>x q. I (rq_db q) \<and> rq_before q = []) (\<lambda>e q. E e)"
  shows "triple (world_inv I) (RunInTx_with emb fn) (\<lambda>x. world_inv I) (\<lambda>e w. world_inv I w \<and> E e)"
  unfolding triple_def
proof (intro allI impI)
  fix w :: "'c world" assume w: "world_inv I w"
  let ?d = "w_env w (w_txs w) (w_db w)"
  let ?q = "\<lparr>rq_db = ?d, rq_before = [], rq_after = None, rq_sent = []\<rparr>"
  have d: "I ?d" using w by (simp add: world_inv_def)
  show "case RunInTx_with emb fn w of (Inl e, t) \<Rightarrow> world_inv I t \<and> E e | (Inr x, t) \<Rightarrow> world_inv I t"
  proof (cases "fn ?q")
    case (Pair r q)
    show ?thesis
    proof (cases r)
      case (Inl e)
      have "E e" using triple_Inl[OF fn, of ?q e q] Pair Inl d by simp
      then show ?thesis
        using w d db blind Pair Inl by (simp add: RunInTx_with_def RunInTx_def with_log_def Let_def world_inv_def rollback_def stmt_blindD)
    next
      case (Inr x)
      have "I (rq_db q) \<and> rq_before q = []" using triple_Inr[OF fn, of ?q x q] Pair Inr d by simp
      then show ?thesis
        using w d db Pair Inr by (simp add: RunInTx_with_def RunInTx_def with_log_def Let_def world_inv_def ret_def)
    qed
  qed
qed

lemma triple_in_tx:
  assumes blind: "stmt_blind I" and m: "triple I m (\<lambda>x d. I d \<and> Q x) (\<lambda>e d. E (RepoErr e))"
    and db: "E (RepoErr DbFailure)"
  shows "triple (world_inv I) (in_tx m) (\<lambda>x w. world_inv I w \<and> Q x) (\<lambda>e w. world_inv I w \<and> E e)"
  unfolding triple_def
proof (intro allI impI)
  fix w :: "'c world" assume w: "world_inv I w"
  let ?d = "w_env w (w_txs w) (w_db w)"
  have d: "I ?d" using w by (simp add: world_inv_def)
  show "case in_tx m w of (Inl e, t) \<Rightarrow> world_inv I t \<and> E e | (Inr x, t) \<Rightarrow> world_inv I t \<and> Q x"
  proof (cases "m ?d")
    case (Pair r d')
    show ?thesis
    proof (cases r)
      case (Inl e)
      with triple_Inl[OF m d] Pair show ?thesis
        using w d db blind by (simp add: in_tx_run Let_def world_inv_def rollback_def stmt_blindD)
    next
      case (Inr x)
      with triple_Inr[OF m d] Pair show ?thesis
        using w d db by (simp add: in_tx_run Let_def world_inv_def)
    qed
  qed
qed

lemma triple_clock_now: "triple (world_inv I) clock_now (\<lambda>x. world_inv I) E"
  by (simp add: triple_def clock_now_def world_inv_def)

lemma triple_ext_call: "triple (world_inv I) (ext_call c answer) (\<lambda>x. world_inv I) E"
  by (simp add: triple_def ext_call_def world_inv_def)

text \<open>
  The same with a changing assertion: \<open>rely\<close> is what is assumed of the other sessions, under
  which the precondition is stable; \<open>J\<close> is what remains true also when the transaction fails.
\<close>

lemma triple_in_tx_rely:
  assumes m: "triple P m Q (\<lambda>e t. Er (RepoErr e))"
    and stable: "\<And>env n d. rely env \<Longrightarrow> P d \<Longrightarrow> P (env n d)"
    and J: "stmt_blind J" "\<And>d. P d \<Longrightarrow> J d" "\<And>x d. Q x d \<Longrightarrow> J d" and db: "Er (RepoErr DbFailure)"
  shows "triple (\<lambda>w. rely (w_env w) \<and> P (w_db w)) (in_tx m) (\<lambda>x w. rely (w_env w) \<and> Q x (w_db w))
           (\<lambda>e w. rely (w_env w) \<and> J (w_db w) \<and> Er e)"
  unfolding triple_def
proof (intro allI impI)
  fix w :: "'c world" assume w: "rely (w_env w) \<and> P (w_db w)"
  let ?d = "w_env w (w_txs w) (w_db w)"
  have d: "P ?d" using w stable by simp
  show "case in_tx m w of (Inl e, t) \<Rightarrow> rely (w_env t) \<and> J (w_db t) \<and> Er e
      | (Inr x, t) \<Rightarrow> rely (w_env t) \<and> Q x (w_db t)"
  proof (cases "m ?d")
    case (Pair r d')
    show ?thesis
    proof (cases r)
      case (Inl e)
      with triple_Inl[OF m d] Pair show ?thesis
        using w d db J by (simp add: in_tx_run Let_def rollback_def stmt_blindD)
    next
      case (Inr x)
      with triple_Inr[OF m d] Pair show ?thesis
        using w d db J(2,3) by (auto simp: in_tx_run Let_def)
    qed
  qed
qed

lemma triple_clock_now_w: "(\<And>w n. P w \<Longrightarrow> P (w\<lparr>w_ticks := n\<rparr>)) \<Longrightarrow> triple P clock_now (\<lambda>x. P) E"
  by (simp add: triple_def clock_now_def)

lemma triple_ext_call_w: "(\<And>w l. P w \<Longrightarrow> P (w\<lparr>w_log := l\<rparr>)) \<Longrightarrow> triple P (ext_call c answer) (\<lambda>x. P) E"
  by (simp add: triple_def ext_call_def)

text \<open>How far the database may move: a preorder that the other sessions' commits respect.\<close>

definition world_moves :: "(db \<Rightarrow> db \<Rightarrow> bool) \<Rightarrow> 'c world \<Rightarrow> 'c world \<Rightarrow> bool" where
  "world_moves R w w' \<longleftrightarrow> w_env w' = w_env w \<and> ((\<forall>n d. R d (w_env w n d)) \<longrightarrow> R (w_db w) (w_db w'))"

definition moves :: "('s \<Rightarrow> 's \<Rightarrow> bool) \<Rightarrow> ('s, 'e, 'a) act \<Rightarrow> bool" where
  "moves R m \<longleftrightarrow> (\<forall>s. R s (snd (m s)))"

lemma world_moves_refl: "reflp R \<Longrightarrow> reflp (world_moves R)"
  by (simp add: reflp_def world_moves_def)

lemma world_moves_trans: "transp R \<Longrightarrow> transp (world_moves R)"
  unfolding transp_def world_moves_def by metis

lemma moves_ret: "reflp R \<Longrightarrow> moves R (ret x)"
  by (simp add: moves_def ret_def reflp_def)

lemma moves_fail: "reflp R \<Longrightarrow> moves R (fail x)"
  by (simp add: moves_def fail_def reflp_def)

lemma moves_lift_result: "reflp R \<Longrightarrow> moves R (lift_result r)"
  by (simp add: moves_def lift_result_def reflp_def)

lemma moves_bind:
  assumes R: "transp R" and m: "moves R m" and f: "\<And>x. moves R (f x)"
  shows "moves R (bind m f)"
  unfolding moves_def
proof
  fix s
  show "R s (snd (bind m f s))"
  proof (cases "m s")
    case (Pair r t)
    then have "R s t" using m by (metis moves_def snd_conv)
    moreover have "R t (snd (f x t))" for x using f by (simp add: moves_def)
    ultimately show ?thesis
      using Pair R by (cases r) (auto simp: bind_run dest: transpD)
  qed
qed

lemma moves_map_err: "moves R m \<Longrightarrow> moves R (map_err h m)"
  by (simp add: moves_def)

lemma moves_clock_now: "reflp R \<Longrightarrow> moves (world_moves R) clock_now"
  by (simp add: moves_def clock_now_def world_moves_def reflp_def)

lemma moves_ext_call: "reflp R \<Longrightarrow> moves (world_moves R) (ext_call c answer)"
  by (simp add: moves_def ext_call_def world_moves_def reflp_def)

lemma moves_in_tx:
  assumes R: "reflp R" "transp R" and m: "moves R m"
    and blind: "\<And>d d' n. R d d' \<Longrightarrow> R d (d'\<lparr>db_stmts := n\<rparr>)"
  shows "moves (world_moves R) (in_tx m)"
  unfolding moves_def world_moves_def
proof (intro allI conjI impI)
  fix w :: "'c world"
  show "w_env (snd (in_tx m w)) = w_env w"
    by (auto simp: in_tx_run Let_def split: prod.splits sum.splits)
  assume env: "\<forall>n d. R d (w_env w n d)"
  let ?d = "w_env w (w_txs w) (w_db w)"
  have 1: "R (w_db w) ?d" using env by simp
  have 2: "R ?d (snd (m ?d))" using m by (simp add: moves_def)
  show "R (w_db w) (w_db (snd (in_tx m w)))"
    using 1 transpD[OF R(2) 1 2] blind
    by (auto simp: in_tx_run Let_def rollback_def split: prod.splits sum.splits)
qed

subsection \<open>Atomicity of a request\<close>

definition same_tables :: "db \<Rightarrow> db \<Rightarrow> bool" where
  "same_tables d d' \<longleftrightarrow> d'\<lparr>db_stmts := db_stmts d\<rparr> = d"

lemma same_tables_refl [simp]: "same_tables d d"
  by (simp add: same_tables_def)

lemma same_tables_rollback [simp]: "same_tables d (rollback d d')"
  by (simp add: same_tables_def)

lemma same_tables_iff: "same_tables d d' \<longleftrightarrow> (\<exists>n. d' = d\<lparr>db_stmts := n\<rparr>)"
proof
  assume eq: "same_tables d d'"
  have "d' = (d'\<lparr>db_stmts := db_stmts d\<rparr>)\<lparr>db_stmts := db_stmts d'\<rparr>" by simp
  with eq have "d' = d\<lparr>db_stmts := db_stmts d'\<rparr>" by (simp only: same_tables_def)
  then show "\<exists>n. d' = d\<lparr>db_stmts := n\<rparr>" by blast
next
  assume "\<exists>n. d' = d\<lparr>db_stmts := n\<rparr>"
  then show "same_tables d d'" by (auto simp: same_tables_def)
qed

lemma same_tables_trans: "same_tables a b \<Longrightarrow> same_tables b c \<Longrightarrow> same_tables a c"
  by (auto simp: same_tables_iff)

abbreviation fresh_req :: "db \<Rightarrow> 'fx req" where
  "fresh_req d \<equiv> \<lparr>rq_db = d, rq_before = [], rq_after = Some [], rq_sent = []\<rparr>"

text \<open>A reported error is well formed when it renders as an error status.\<close>

definition renders_error :: "go_error \<Rightarrow> bool" where
  "renders_error err \<longleftrightarrow> 400 \<le> ae_status (apierr_As err)"

definition well_reported :: "response \<Rightarrow> bool" where
  "well_reported r \<longleftrightarrow> (case rs_error r of None \<Rightarrow> True | Some None \<Rightarrow> False | Some (Some e) \<Rightarrow> renders_error e)"

lemma renders_error_plain: "errors_as_api err = None \<Longrightarrow> renders_error err"
  by (simp add: renders_error_def apierr_As_internal internal_api_def)

text \<open>
  C1: what a request leaves in the database.  If the tables differ afterwards, then the
  handler returned normally, either without an error and with a status below 400 or after
  explicitly asking to keep a 4xx, every before-commit action succeeded, and the commit was
  applied; the tables are then exactly what those actions left.  Side effects run only after a
  commit that reported success, and then all of them run, in the order they were registered,
  even when some of them panic.
\<close>

theorem UnitOfWork_atomic:
  fixes handler :: "'fx req \<Rightarrow> handler_end \<times> 'fx req"
    and commitRes :: commit_result and panics :: "'fx \<Rightarrow> bool" and start :: response and d :: db
  defines "out \<equiv> UnitOfWork None commitRes panics start handler d"
  shows "(\<not> same_tables d (uo_db out) \<longrightarrow>
            (\<exists>r q. handler (fresh_req d) = (Returned r, q) \<and>
                   (\<not> HasError r \<and> rs_status r < 400 \<or> shouldCommitError r) \<and>
                   BeforeCommitQueue_Run (rq_before q) (rq_db q) = (Inr (), uo_db out) \<and>
                   (commitRes = CommitOk \<or> (\<exists>e. commitRes = CommitFailed e True)))) \<and>
         (uo_ran out \<noteq> [] \<longrightarrow>
            commitRes = CommitOk \<and>
            (\<exists>r q. handler (fresh_req d) = (Returned r, q) \<and> rq_after q = Some (uo_ran out) \<and>
                   uo_panics out = filter panics (uo_ran out) \<and>
                   BeforeCommitQueue_Run (rq_before q) (rq_db q) = (Inr (), uo_db out)))"
  unfolding out_def
  by (auto simp: UnitOfWork_def rolled_back_def AfterCommitQueue_Run_all not_le
      split: handler_end.splits prod.splits sum.splits commit_result.splits if_splits option.splits)

theorem UnitOfWork_atomic_witness:
  "let handler = (\<lambda>q. (Returned \<lparr>rs_status = 200, rs_error = None, rs_commit_error = False\<rparr>,
                      q\<lparr>rq_db := (rq_db q)\<lparr>name_claims := [\<lparr>nc_user_id = 1, nc_name = ''a'', nc_created_at = 0\<rparr>]\<rparr>,
                        rq_after := Some [''mail'']\<rparr>));
       out = UnitOfWork None CommitOk (\<lambda>_. True) \<lparr>rs_status = 200, rs_error = None, rs_commit_error = False\<rparr>
               handler empty_db
   in \<not> same_tables empty_db (uo_db out) \<and> uo_ran out = [''mail''] \<and> uo_panics out = [''mail''] \<and>
      (\<exists>r q. handler (fresh_req empty_db) = (Returned r, q) \<and> rq_after q = Some (uo_ran out))"
proof -
  let ?h = "\<lambda>q. (Returned \<lparr>rs_status = 200, rs_error = None, rs_commit_error = False\<rparr>,
                 q\<lparr>rq_db := (rq_db q)\<lparr>name_claims := [\<lparr>nc_user_id = 1, nc_name = ''a'', nc_created_at = 0\<rparr>]\<rparr>,
                   rq_after := Some [''mail'']\<rparr>)"
  show ?thesis
    using UnitOfWork_atomic[where commitRes = CommitOk and panics = "\<lambda>_. True" and handler = ?h and d = empty_db
        and start = "\<lparr>rs_status = 200, rs_error = None, rs_commit_error = False\<rparr>"]
    by (simp add: Let_def UnitOfWork_def HasError_def ret_def same_tables_def empty_db_def)
qed

text \<open>
  A 4xx that the handler kept on purpose: it asked for the commit, and what the client receives
  is a 4xx (the rendered error when one was reported, the status otherwise).  This is the
  contract of \<open>CommitError\<close>, stated without \<open>shouldCommitError\<close>.
\<close>

definition kept_4xx :: "response \<Rightarrow> bool" where
  "kept_4xx r \<longleftrightarrow> rs_commit_error r \<and> 400 \<le> fst (ErrorHandler (Returned r)) \<and>
                fst (ErrorHandler (Returned r)) < 500"

lemma shouldCommitError_kept: "shouldCommitError r \<Longrightarrow> kept_4xx r"
  by (auto simp: shouldCommitError_def kept_4xx_def ErrorHandler_def FromError_def Let_def
      split: if_splits option.splits)

text \<open>
  C2: the answer tells the truth about the state.  When every error the handler reports, every
  error of a before-commit action and the commit error render as error statuses, a client that
  sees a status below 400 knows its writes are committed.  A client that sees an error knows that
  nothing was written, with two exceptions: the handler asked to keep its writes and the answer
  is that very response, a 4xx and never a 5xx; or the commit of a response that was to be
  committed (a success or such a kept 4xx) was applied without the server being told.
\<close>

theorem UnitOfWork_answer_matches_state:
  fixes handler :: "'fx req \<Rightarrow> handler_end \<times> 'fx req"
    and commitRes :: commit_result and panics :: "'fx \<Rightarrow> bool" and start :: response and d :: db
  assumes handler: "\<And>r q. handler (fresh_req d) = (Returned r, q) \<Longrightarrow> well_reported r"
    and before: "\<And>r q e d'. handler (fresh_req d) = (Returned r, q) \<Longrightarrow>
                   BeforeCommitQueue_Run (rq_before q) (rq_db q) = (Inl e, d') \<Longrightarrow> renders_error e"
    and commit: "\<And>e a. commitRes = CommitFailed e a \<Longrightarrow> renders_error e"
  defines "out \<equiv> UnitOfWork None commitRes panics start handler d"
  shows "(fst (ErrorHandler (uo_end out)) < 400 \<longrightarrow>
            commitRes = CommitOk \<and>
            (\<exists>r q. handler (fresh_req d) = (Returned r, q) \<and>
                   BeforeCommitQueue_Run (rq_before q) (rq_db q) = (Inr (), uo_db out))) \<and>
         (400 \<le> fst (ErrorHandler (uo_end out)) \<longrightarrow>
            same_tables d (uo_db out) \<or>
            (\<exists>r q. handler (fresh_req d) = (Returned r, q) \<and> kept_4xx r \<and>
                   uo_end out = Returned r \<and> commitRes = CommitOk \<and>
                   BeforeCommitQueue_Run (rq_before q) (rq_db q) = (Inr (), uo_db out)) \<or>
            (\<exists>r q e. handler (fresh_req d) = (Returned r, q) \<and> commitRes = CommitFailed e True \<and>
                   (\<not> HasError r \<and> rs_status r < 400 \<or> kept_4xx r) \<and>
                   BeforeCommitQueue_Run (rq_before q) (rq_db q) = (Inr (), uo_db out)))"
proof (cases "handler (fresh_req d)")
  case (Pair e q)
  show ?thesis
  proof (cases e)
    case Panicked
    with Pair show ?thesis by (simp add: out_def UnitOfWork_def rolled_back_def ErrorHandler_def)
  next
    case (Returned r)
    note run = Pair[unfolded Returned]
    have status: "400 \<le> fst (ErrorHandler (Returned r)) \<longleftrightarrow> HasError r \<or> 400 \<le> rs_status r"
      using handler[OF run]
      by (auto simp: well_reported_def HasError_def renders_error_def ErrorHandler_def FromError_def
          split: option.splits)
    have failed: "fst (ErrorHandler (Returned (httpx_Fail err r))) = ae_status (apierr_As err)" for err
      by (simp add: httpx_Fail_def ErrorHandler_def FromError_def)
    show ?thesis
      using before[OF run] commit run status shouldCommitError_kept[of r]
      by (auto simp: out_def UnitOfWork_def rolled_back_def not_le AfterCommitQueue_Run_all failed renders_error_def
          split: prod.splits sum.splits commit_result.splits if_splits)
  qed
qed

theorem UnitOfWork_answer_matches_state_witness:
  "let handler = (\<lambda>q. (Returned \<lparr>rs_status = 200, rs_error = Some (Some (NotFound None)), rs_commit_error = False\<rparr>,
                      q\<lparr>rq_db := (rq_db q)\<lparr>name_claims := [\<lparr>nc_user_id = 1, nc_name = ''a'', nc_created_at = 0\<rparr>]\<rparr>\<rparr>));
       out = UnitOfWork None CommitOk (\<lambda>_. False) \<lparr>rs_status = 200, rs_error = None, rs_commit_error = False\<rparr>
               handler empty_db :: unit uow_out
   in fst (ErrorHandler (uo_end out)) = 404 \<and> same_tables empty_db (uo_db out)"
proof -
  let ?h = "(\<lambda>q. (Returned \<lparr>rs_status = 200, rs_error = Some (Some (NotFound None)), rs_commit_error = False\<rparr>,
                 q\<lparr>rq_db := (rq_db q)\<lparr>name_claims := [\<lparr>nc_user_id = 1, nc_name = ''a'', nc_created_at = 0\<rparr>]\<rparr>\<rparr>))
             :: unit req \<Rightarrow> handler_end \<times> unit req"
  let ?r0 = "\<lparr>rs_status = 200, rs_error = None, rs_commit_error = False\<rparr>"
  have st: "fst (ErrorHandler (uo_end (UnitOfWork None CommitOk (\<lambda>_. False) ?r0 ?h empty_db))) = 404"
    by (simp add: UnitOfWork_def HasError_def shouldCommitError_def rolled_back_def ErrorHandler_def
        FromError_def apierr_As_def NotFound_def code_or_def)
  have "same_tables empty_db (uo_db (UnitOfWork None CommitOk (\<lambda>_. False) ?r0 ?h empty_db))"
    using UnitOfWork_answer_matches_state[where handler = ?h and d = empty_db and commitRes = CommitOk
        and panics = "\<lambda>_. False" and start = ?r0] st
    by (simp add: well_reported_def renders_error_def apierr_As_def NotFound_def code_or_def ret_def kept_4xx_def)
  with st show ?thesis by (simp add: Let_def)
qed

end
