(* ===== verification/Lease_Queue.thy ===== *)
theory Lease_Queue
  imports Uow
begin

section \<open>Leased queues\<close>

text \<open>
  The three durable queues of the program (verification mail, image access, image review
  retries) are claimed by the same SQL pattern: \<open>SELECT ... FOR UPDATE SKIP LOCKED LIMIT n\<close>,
  an \<open>UPDATE\<close> that writes a lease token and its end, and later writes fenced by that token.
  \<open>claim_due\<close> and \<open>fenced_update\<close> are that pattern; the locale \<open>lease_queue\<close> states what a
  table must provide for it, and proves once what the workers rely on: bounded batches,
  exclusive leases, fairness by due time, and that a worker which lost its lease can no longer
  change the row.
\<close>

text \<open>
  \<open>claim_due key idf due grant locked now until token n table\<close>: \<open>locked\<close> are the rows that
  concurrent transactions hold.  The result is the claimed rows as \<open>RETURNING\<close> yields them, in
  the order of \<open>key\<close>, and the new table.
\<close>

definition claim_due ::
  "('r \<Rightarrow> 'k::linorder) \<Rightarrow> ('r \<Rightarrow> row_id) \<Rightarrow> (time \<Rightarrow> 'r \<Rightarrow> bool) \<Rightarrow>
   (string \<Rightarrow> time \<Rightarrow> time \<Rightarrow> 'r \<Rightarrow> 'r) \<Rightarrow> (row_id \<Rightarrow> bool) \<Rightarrow>
   time \<Rightarrow> time \<Rightarrow> string \<Rightarrow> nat \<Rightarrow> 'r list \<Rightarrow> 'r list \<times> 'r list" where
  "claim_due key idf due grant locked now until token n t =
     (let ids = map idf (select_by key (\<lambda>r. due now r \<and> \<not> locked (idf r)) n t);
          t' = upd_where (\<lambda>r. idf r \<in> set ids) (grant token now until) t
      in (sort_key key (filter (\<lambda>r. idf r \<in> set ids) t'), t'))"

definition fenced_update :: "('r \<Rightarrow> bool) \<Rightarrow> ('r \<Rightarrow> 'r) \<Rightarrow> 'r list \<Rightarrow> bool \<times> 'r list" where
  "fenced_update fence f t = (count_where fence t = 1, upd_where fence f t)"

lemma claim_dueD:
  assumes "claim_due key idf due grant locked now until tok n t = (cs, t')"
  defines "sel \<equiv> select_by key (\<lambda>r. due now r \<and> \<not> locked (idf r)) n t"
  shows "set cs = {r \<in> set t'. idf r \<in> idf ` set sel}"
    and "t' = upd_where (\<lambda>r. idf r \<in> idf ` set sel) (grant tok now until) t"
    and "cs = sort_key key (filter (\<lambda>r. idf r \<in> idf ` set sel) t')"
  using assms by (auto simp: claim_due_def Let_def)

locale lease_queue =
  fixes key :: "'r \<Rightarrow> 'k::linorder"
    and idf :: "'r \<Rightarrow> row_id"
    and due :: "time \<Rightarrow> 'r \<Rightarrow> bool"
    and grant :: "string \<Rightarrow> time \<Rightarrow> time \<Rightarrow> 'r \<Rightarrow> 'r"
    and lease_token :: "'r \<Rightarrow> string option"
    and lease_until :: "'r \<Rightarrow> time option"
  assumes grant_id: "idf (grant tok now until r) = idf r"
    and grant_key: "key (grant tok now until r) = key r"
    and grant_token: "lease_token (grant tok now until r) = Some tok"
    and grant_until: "lease_until (grant tok now until r) = Some until"
    and due_not_leased: "due now r \<Longrightarrow> lease_until r = Some u \<Longrightarrow> u \<le> now"
begin

lemma claim_table_ids:
  "claim_due key idf due grant locked now until tok n t = (cs, t') \<Longrightarrow> map idf t' = map idf t"
  by (auto simp: claim_due_def Let_def grant_id intro!: upd_where_ids)

lemma claimed_rows:
  assumes "claim_due key idf due grant locked now until tok n t = (cs, t')" and "c \<in> set cs"
  shows "c \<in> set t'" "lease_token c = Some tok" "lease_until c = Some until"
    and "\<exists>r\<in>set t. c = grant tok now until r \<and> idf r = idf c"
proof -
  note cs = claim_dueD(1)[OF assms(1)] and t' = claim_dueD(2)[OF assms(1)]
  from assms(2) cs have c: "c \<in> set t'"
    "idf c \<in> idf ` set (select_by key (\<lambda>r. due now r \<and> \<not> locked (idf r)) n t)" by auto
  then show "c \<in> set t'" by simp
  from c(1) t' show "lease_token c = Some tok" "lease_until c = Some until"
    "\<exists>r\<in>set t. c = grant tok now until r \<and> idf r = idf c"
    using c(2) by (auto simp: in_upd_where_iff grant_token grant_until grant_id)
qed

lemma claimed_was_due:
  assumes "claim_due key idf due grant locked now until tok n t = (cs, t')" and "c \<in> set cs"
  shows "\<exists>r\<in>set t. idf r = idf c \<and> due now r \<and> \<not> locked (idf r)"
proof -
  let ?sel = "select_by key (\<lambda>r. due now r \<and> \<not> locked (idf r)) n t"
  from claim_dueD(1)[OF assms(1)] assms(2) have "idf c \<in> idf ` set ?sel" by auto
  then show ?thesis using set_select_by[of key "\<lambda>r. due now r \<and> \<not> locked (idf r)" n t] by auto
qed

lemma claim_bounded:
  assumes "claim_due key idf due grant locked now until tok n t = (cs, t')" and "distinct (map idf t)"
  shows "length cs \<le> n" "distinct (map idf cs)"
proof -
  let ?ids = "map idf (select_by key (\<lambda>r. due now r \<and> \<not> locked (idf r)) n t)"
  from claim_dueD(3)[OF assms(1)] have cs: "cs = sort_key key (filter (\<lambda>r. idf r \<in> set ?ids) t')"
    by simp
  have d: "distinct (map idf t')" using assms claim_table_ids by metis
  then show dist: "distinct (map idf cs)"
    unfolding cs by (simp add: distinct_map inj_on_def)
  have "set (map idf cs) \<subseteq> set ?ids" unfolding cs by auto
  then have "length (map idf cs) \<le> length ?ids"
    using dist by (metis card_length card_mono distinct_card finite_set order_trans)
  then show "length cs \<le> n" using length_select_by[of key _ n t] by (simp add: order_trans)
qed

lemma claim_others_unchanged:
  assumes "claim_due key idf due grant locked now until tok n t = (cs, t')"
    and "r \<in> set t" "idf r \<notin> idf ` set cs"
  shows "r \<in> set t'"
proof -
  let ?ids = "map idf (select_by key (\<lambda>r. due now r \<and> \<not> locked (idf r)) n t)"
  from claim_dueD(1,2)[OF assms(1)] have cs: "set cs = {r \<in> set t'. idf r \<in> set ?ids}"
    and t': "t' = upd_where (\<lambda>r. idf r \<in> set ?ids) (grant tok now until) t"
    by simp_all
  have "idf r \<notin> set ?ids"
  proof
    assume "idf r \<in> set ?ids"
    then have "grant tok now until r \<in> set cs"
      using assms(2) unfolding cs t' by (auto simp: in_upd_where_iff grant_id)
    then have "idf r \<in> idf ` set cs" by (metis grant_id imageI)
    with assms(3) show False by contradiction
  qed
  with assms(2) show ?thesis unfolding t' by (auto simp: in_upd_where_iff)
qed

text \<open>While a lease runs, no other claim takes the row.\<close>

lemma claim_exclusive:
  assumes first: "claim_due key idf due grant locked now until tok n t = (cs, t')"
    and second: "claim_due key idf due grant locked2 now2 until2 tok2 m t' = (cs2, t2)"
    and live: "now2 < until"
  shows "idf ` set cs \<inter> idf ` set cs2 = {}"
proof -
  have "False" if "c \<in> set cs" "c2 \<in> set cs2" "idf c = idf c2" for c c2
  proof -
    from claimed_was_due[OF second that(2)] that(3)
    obtain r where r: "r \<in> set t'" "idf r = idf c" "due now2 r" by auto
    have "lease_until r = Some until"
    proof -
      let ?ids = "map idf (select_by key (\<lambda>r. due now r \<and> \<not> locked (idf r)) n t)"
      from claim_dueD(1,2)[OF first] that(1) have "idf r \<in> set ?ids" and
        t': "t' = upd_where (\<lambda>r. idf r \<in> set ?ids) (grant tok now until) t"
        using r(2) by auto
      with r(1) show ?thesis by (auto simp: in_upd_where_iff grant_until grant_id)
    qed
    from due_not_leased[OF r(3) this] live show False by simp
  qed
  then show ?thesis by auto
qed

text \<open>The earliest due rows go first, and a batch that is not full took every row it could.\<close>

lemma claim_fair:
  assumes "claim_due key idf due grant locked now until tok n t = (cs, t')"
    and "r \<in> set t" "due now r" "\<not> locked (idf r)" "idf r \<notin> idf ` set cs"
    and c: "c \<in> set cs" and dist: "distinct (map idf t)"
  shows "key c \<le> key r"
proof -
  let ?p = "\<lambda>r. due now r \<and> \<not> locked (idf r)"
  let ?sel = "select_by key ?p n t"
  note cs = claim_dueD(1)[OF assms(1)] and t' = claim_dueD(2)[OF assms(1)]
  have "r \<notin> set ?sel"
  proof
    assume "r \<in> set ?sel"
    then have "grant tok now until r \<in> set cs"
      using assms(2) unfolding cs t' by (auto simp: in_upd_where_iff grant_id)
    with assms(5) show False by (metis grant_id imageI)
  qed
  moreover obtain q where q: "q \<in> set ?sel" "idf q = idf c" using c cs by auto
  moreover from claimed_rows(4)[OF assms(1) c] obtain q' where
    q': "q' \<in> set t" "c = grant tok now until q'" "idf q' = idf c" by blast
  moreover have "q = q'"
    using q q' dist set_select_by[of key ?p n t] by (auto simp: distinct_map inj_on_def)
  ultimately have "key q' \<le> key r"
    using select_by_least[of r t ?p key n q] assms(2-4) by auto
  with q' show ?thesis by (simp add: grant_key)
qed

lemma claim_complete:
  assumes "claim_due key idf due grant locked now until tok n t = (cs, t')"
    and "length cs < n" and "r \<in> set t" "due now r" "\<not> locked (idf r)" and dist: "distinct (map idf t)"
  shows "idf r \<in> idf ` set cs"
proof -
  let ?p = "\<lambda>r. due now r \<and> \<not> locked (idf r)"
  let ?sel = "select_by key ?p n t"
  note cs = claim_dueD(1)[OF assms(1)] and t' = claim_dueD(2)[OF assms(1)]
  have sel_cs: "idf ` set ?sel \<subseteq> idf ` set cs"
  proof
    fix i assume i: "i \<in> idf ` set ?sel"
    then obtain q where q: "q \<in> set ?sel" "i = idf q" by auto
    then have "q \<in> set t" using set_select_by[of key ?p n t] by auto
    then have "grant tok now until q \<in> set cs"
      using q unfolding cs t' by (auto simp: in_upd_where_iff grant_id)
    then show "i \<in> idf ` set cs" using q(2) by (metis grant_id imageI)
  qed
  have "length ?sel = card (idf ` set ?sel)"
    using distinct_card[OF select_by_ids[OF dist, of key ?p n]] by simp
  also have "\<dots> \<le> card (idf ` set cs)" by (rule card_mono[OF _ sel_cs]) simp
  also have "\<dots> \<le> length cs" using card_length[of "map idf cs"] by simp
  finally have "length ?sel < n" using assms(2) by simp
  then have "set ?sel = {r \<in> set t. ?p r}" by (rule select_by_complete)
  with assms(3-5) have "r \<in> set ?sel" by simp
  then show ?thesis using sel_cs by (meson imageI subsetD)
qed

text \<open>
  Fencing: a write guarded by a token that the row no longer carries changes nothing and says
  so.  In particular, once another worker has claimed the row, the first one is shut out.
\<close>

lemma stale_write:
  assumes "\<And>r. fence r \<Longrightarrow> idf r = i \<and> lease_token r = Some tok"
    and "\<And>r. r \<in> set t \<Longrightarrow> idf r = i \<Longrightarrow> lease_token r \<noteq> Some tok"
  shows "fenced_update fence f t = (False, t)"
proof -
  have none: "\<not> fence r" if "r \<in> set t" for r using assms that by blast
  then have "count_where fence t = 0" by (simp add: count_where_0)
  with none show ?thesis by (simp add: fenced_update_def upd_where_unmatched)
qed

lemma reclaimed_write_is_stale:
  assumes claim: "claim_due key idf due grant locked now until tok2 n t = (cs, t')"
    and i: "i \<in> idf ` set cs" and other: "tok \<noteq> tok2"
    and fence: "\<And>r. fence r \<Longrightarrow> idf r = i \<and> lease_token r = Some tok"
  shows "fenced_update fence f t' = (False, t')"
proof (rule stale_write[OF fence])
  let ?ids = "map idf (select_by key (\<lambda>r. due now r \<and> \<not> locked (idf r)) n t)"
  fix r assume r: "r \<in> set t'" "idf r = i"
  from claim_dueD(1,2)[OF claim] i have "i \<in> set ?ids"
    and t': "t' = upd_where (\<lambda>r. idf r \<in> set ?ids) (grant tok2 now until) t"
    by auto
  with r have "lease_token r = Some tok2" by (auto simp: in_upd_where_iff grant_token grant_id)
  with other show "lease_token r \<noteq> Some tok" by simp
qed

end

lemma fenced_update_ids:
  "(\<And>r. fence r \<Longrightarrow> idf (f r) = idf r) \<Longrightarrow> map idf (snd (fenced_update fence f t)) = map idf t"
  by (simp add: fenced_update_def upd_where_ids)

lemma fenced_update_not: "\<not> fst (fenced_update fence f t) \<Longrightarrow> distinct (map idf t) \<Longrightarrow>
    (\<And>r. fence r \<Longrightarrow> idf r = i) \<Longrightarrow> snd (fenced_update fence f t) = t"
  using count_where_1_iff[of idf t fence i]
  by (auto simp: fenced_update_def intro!: upd_where_unmatched)

text \<open>\<open>claim_due\<close> grants only rows that were due, so what holds of every row and of a granted due row holds afterwards.\<close>

lemma claim_due_all:
  assumes "list_all P t" "\<And>r. P r \<Longrightarrow> due now r \<Longrightarrow> P (grant tok now until r)" "distinct (map idf t)"
  shows "list_all P (snd (claim_due key idf due grant locked now until tok n t))"
proof -
  let ?p = "\<lambda>r. due now r \<and> \<not> locked (idf r)"
  have "due now r" if "r \<in> set t" "idf r \<in> idf ` set (select_by key ?p n t)" for r
  proof -
    from that(2) obtain q where q: "q \<in> set (select_by key ?p n t)" "idf q = idf r" by auto
    then have "q \<in> set t" "due now q" using set_select_by[of key ?p n t] by auto
    with assms(3) that(1) q(2) show ?thesis by (auto simp: distinct_map inj_on_def)
  qed
  with assms(1,2) show ?thesis
    by (auto simp: claim_due_def Let_def list_all_iff set_upd_where)
qed

lemma upd_where_related:
  assumes "R r r" "p r \<Longrightarrow> R r (f r)" "r \<in> set t"
  shows "\<exists>r'\<in>set (upd_where p f t). R r r'"
proof
  show "(if p r then f r else r) \<in> set (upd_where p f t)" using assms(3) by (simp add: upd_where_def)
  show "R r (if p r then f r else r)" using assms(1,2) by simp
qed

text \<open>A relation between rows that a granted due row satisfies holds between the tables.\<close>

lemma claim_due_related:
  assumes "\<And>r. R r r" "\<And>r. r \<in> set t \<Longrightarrow> due now r \<Longrightarrow> R r (grant tok now until r)" "distinct (map idf t)"
    and "r \<in> set t"
  shows "\<exists>r'\<in>set (snd (claim_due key idf due grant locked now until tok n t)). R r r'"
proof -
  let ?p = "\<lambda>r. due now r \<and> \<not> locked (idf r)"
  have "due now r" if "idf r \<in> idf ` set (select_by key ?p n t)"
  proof -
    from that obtain q where q: "q \<in> set (select_by key ?p n t)" "idf q = idf r" by auto
    then have "q \<in> set t" "due now q" using set_select_by[of key ?p n t] by auto
    with assms(3,4) q(2) show ?thesis by (auto simp: distinct_map inj_on_def)
  qed
  then show ?thesis
    unfolding claim_due_def Let_def snd_conv
    by (intro upd_where_related) (use assms in auto)
qed

lemma claim_due_ids:
  "(\<And>r. idf (grant tok now until r) = idf r) \<Longrightarrow>
   map idf (snd (claim_due key idf due grant locked now until tok n t)) = map idf t"
  by (simp add: claim_due_def Let_def upd_where_ids)

end
