(* ===== verification/Backoff.thy ===== *)
theory Backoff
  imports Prelude
begin

section \<open>Retry delays\<close>

text \<open>
  Models the two exponential back-off loops of the workers: \<open>retryDelay\<close> of
  \<open>internal/service/email_delivery.go\<close> and \<open>retryBackoff\<close> of
  \<open>internal/service/image_access_worker.go\<close> (also used by the image review retries).  The
  doubling is that of a 64-bit duration; the theorems show where it cannot wrap and that the
  loops compute the capped power of two.
\<close>

definition seconds :: "int \<Rightarrow> duration" where "seconds n = n * 1000000000"
definition minutes :: "int \<Rightarrow> duration" where "minutes n = seconds (60 * n)"
definition hours :: "int \<Rightarrow> duration" where "hours n = minutes (60 * n)"

lemmas duration_defs = seconds_def minutes_def hours_def

text \<open>The loop of \<open>retryDelay\<close>; the first argument counts the iterations \<open>index < attempts\<close> still allows.\<close>

fun retryDelay_loop :: "nat \<Rightarrow> duration \<Rightarrow> duration" where
  "retryDelay_loop 0 delay = delay"
| "retryDelay_loop (Suc k) delay =
     (if delay < hours 24 then retryDelay_loop k (wrap64 (delay * 2)) else delay)"

definition retryDelay :: "duration \<Rightarrow> int \<Rightarrow> duration" where
  "retryDelay base attempts =
     (let delay = retryDelay_loop (nat (attempts - 1)) base
      in if delay > hours 24 then hours 24 else delay)"

fun retryBackoff_loop :: "nat \<Rightarrow> duration \<Rightarrow> duration \<Rightarrow> duration" where
  "retryBackoff_loop 0 delay maximum = min delay maximum"
| "retryBackoff_loop (Suc k) delay maximum =
     (if delay < maximum
      then (let doubled = wrap64 (delay * 2)
            in if doubled \<ge> maximum then maximum else retryBackoff_loop k doubled maximum)
      else min delay maximum)"

definition retryBackoff :: "int \<Rightarrow> duration \<Rightarrow> duration \<Rightarrow> duration" where
  "retryBackoff attempts base maximum =
     (let attempts = (if attempts < 1 then 1 else attempts)
      in retryBackoff_loop (nat (attempts - 1)) base maximum)"

lemma double_below: "0 < d \<Longrightarrow> d < m \<Longrightarrow> m \<le> 2 ^ 62 \<Longrightarrow> wrap64 (d * 2) = d * 2"
  by (rule wrap64_id) auto

lemma hours24_small: "hours 24 \<le> 2 ^ 62"
  by (simp add: duration_defs)

lemma cap_reached: "0 < (d::int) \<Longrightarrow> m \<le> d \<Longrightarrow> min m (d * 2 ^ k) = m"
  by (metis min_absorb1 mult.right_neutral mult_le_cancel_left_pos one_le_numeral one_le_power order_trans)

lemma retryDelay_loop_power:
  "0 < d \<Longrightarrow> min (hours 24) (retryDelay_loop k d) = min (hours 24) (d * 2 ^ k)"
proof (induction k arbitrary: d)
  case (Suc k)
  show ?case
  proof (cases "d < hours 24")
    case True
    with Suc.prems have "wrap64 (d * 2) = d * 2" by (rule double_below[OF _ _ hours24_small])
    with True Suc.prems Suc.IH[of "d * 2"] show ?thesis by (simp add: ac_simps)
  next
    case False
    then show ?thesis using cap_reached[of d "hours 24" "Suc k"] Suc.prems by simp
  qed
qed simp

lemma retryBackoff_loop_power:
  "0 < d \<Longrightarrow> m \<le> 2 ^ 62 \<Longrightarrow> retryBackoff_loop k d m = min m (d * 2 ^ k)"
proof (induction k arbitrary: d)
  case (Suc k)
  show ?case
  proof (cases "d < m")
    case True
    have w: "wrap64 (d * 2) = d * 2" by (rule double_below[OF Suc.prems(1) True Suc.prems(2)])
    show ?thesis
    proof (cases "d * 2 \<ge> m")
      case True
      then show ?thesis using w \<open>d < m\<close> cap_reached[of "d * 2" m k] Suc.prems by (simp add: ac_simps)
    next
      case False
      then show ?thesis using w \<open>d < m\<close> Suc.IH[of "d * 2"] Suc.prems by (simp add: ac_simps)
    qed
  next
    case False
    then show ?thesis using cap_reached[of d m "Suc k"] Suc.prems(1) by (simp add: min.commute)
  qed
qed (simp add: min.commute)

text \<open>
  C12: both delay loops compute the doubled base, capped.  For a positive base (and, for the
  image workers, a cap that leaves room for one doubling) no doubling wraps around, the delay
  is exactly the power of two times the base or the cap, and it is positive and bounded.
\<close>

theorem backoff_closed_form:
  assumes "0 < base" and "0 < maximum" and "maximum \<le> 2 ^ 62"
  shows "retryDelay base attempts = min (hours 24) (base * 2 ^ nat (attempts - 1)) \<and>
         retryBackoff attempts base maximum = min maximum (base * 2 ^ nat (attempts - 1)) \<and>
         0 < retryBackoff attempts base maximum \<and> retryBackoff attempts base maximum \<le> maximum"
proof -
  have "retryDelay base attempts = min (hours 24) (base * 2 ^ nat (attempts - 1))"
    using retryDelay_loop_power[OF assms(1), of "nat (attempts - 1)"]
    by (auto simp: retryDelay_def Let_def min_def split: if_splits)
  moreover have "retryBackoff attempts base maximum = min maximum (base * 2 ^ nat (attempts - 1))"
    using retryBackoff_loop_power[OF assms(1,3)] by (auto simp: retryBackoff_def Let_def)
  ultimately show ?thesis using assms by simp
qed

theorem backoff_closed_form_witness:
  "retryDelay (seconds 30) 3 = seconds 120 \<and> retryBackoff 20 (seconds 30) (minutes 30) = minutes 30"
  using backoff_closed_form[of "seconds 30" 1 3] backoff_closed_form[of "seconds 30" "minutes 30" 20]
  by (simp add: duration_defs)

lemma retryDelay_pos: "0 < base \<Longrightarrow> 0 < retryDelay base attempts"
  using retryDelay_loop_power[of base "nat (attempts - 1)"]
  by (auto simp: retryDelay_def Let_def min_def duration_defs split: if_splits)

lemma retryBackoff_range:
  "0 < base \<Longrightarrow> 0 < maximum \<Longrightarrow> maximum \<le> 2 ^ 62 \<Longrightarrow>
     0 < retryBackoff attempts base maximum \<and> retryBackoff attempts base maximum \<le> maximum"
  using retryBackoff_loop_power[of base maximum]
  by (auto simp: retryBackoff_def Let_def)

end
