(* ===== verification/Go_Encoding.thy ===== *)
theory Go_Encoding
  imports Prelude "HOL-Library.Word"
begin

section \<open>Byte encodings of the Go standard library\<close>

text \<open>
  \<open>encoding/hex\<close> as the code uses it for lease tokens and digests: bytes are \<open>8 word\<close>.
\<close>

type_synonym byte = "8 word"

definition hex_digit :: "nat \<Rightarrow> char" where
  "hex_digit n = ''0123456789abcdef'' ! n"

definition hex_byte :: "byte \<Rightarrow> string" where
  "hex_byte b = [hex_digit (unat b div 16), hex_digit (unat b mod 16)]"

definition hex_encode :: "byte list \<Rightarrow> string" where
  "hex_encode bs = concat (map hex_byte bs)"

lemma length_hex_encode [simp]: "length (hex_encode bs) = 2 * length bs"
  by (induction bs) (simp_all add: hex_encode_def hex_byte_def)

lemma hex_digit_inj: "inj_on hex_digit {..<16}"
proof -
  have "distinct (map hex_digit [0..<16])" by code_simp
  then show ?thesis by (simp add: distinct_map lessThan_atLeast0)
qed

lemma hex_byte_inj: "hex_byte b = hex_byte c \<Longrightarrow> b = c"
proof -
  assume eq: "hex_byte b = hex_byte c"
  have lt: "unat x div 16 < 16" "unat x mod 16 < 16" for x :: byte
    using unsigned_less[of x, where ?'a = nat] by simp_all
  from eq have "unat b div 16 = unat c div 16" "unat b mod 16 = unat c mod 16"
    using lt hex_digit_inj by (auto simp: hex_byte_def inj_on_def)
  then have "unat b = unat c" by (metis div_mult_mod_eq)
  then show "b = c" by (rule unsigned_word_eqI)
qed

lemma hex_encode_inj: "hex_encode bs = hex_encode cs \<Longrightarrow> bs = cs"
proof (induction bs arbitrary: cs)
  case Nil
  then have "length (hex_encode cs) = 0" by (metis length_hex_encode list.size(3) mult_zero_right)
  then show ?case by simp
next
  case (Cons b bs)
  from arg_cong[OF Cons.prems, of length] obtain c cs' where cs: "cs = c # cs'" by (cases cs) auto
  from Cons.prems have "hex_byte b = hex_byte c" "hex_encode bs = hex_encode cs'"
    unfolding cs by (simp_all add: hex_encode_def hex_byte_def)
  with Cons.IH show ?case unfolding cs by (simp add: hex_byte_inj)
qed

end
