(* ===== verification/Email_Outbox.thy ===== *)
theory Email_Outbox
  imports Lease_Queue Backoff Go_Encoding
begin

section \<open>The verification mail outbox\<close>

text \<open>
  Models \<open>internal/repository/email_delivery.go\<close> (the outbox statements),
  \<open>internal/service/email_delivery.go\<close> (the worker) and the table's constraints of
  \<open>migrations/00020_verification_email_delivery_outbox.sql\<close>.

  A row is pending, then claimed by a worker (sending), then sent, canceled, dead-lettered or
  pending again.  A worker claims a batch in one transaction, and for each claimed row
  re-reads it in a second transaction, calls the mail provider outside any transaction, and
  records the outcome in a third, fenced by its lease token.
\<close>

subsection \<open>The table\<close>

definition is_digit :: "char \<Rightarrow> bool" where
  "is_digit c \<longleftrightarrow> (48::nat) \<le> of_char c \<and> of_char c \<le> (57::nat)"

definition is_verification_code :: "string \<Rightarrow> bool" where
  "is_verification_code s \<longleftrightarrow> length s = 6 \<and> list_all is_digit s"

definition email_terminal :: "EmailDeliveryState \<Rightarrow> bool" where
  "email_terminal st \<longleftrightarrow> st = EmailSent \<or> st = EmailCanceled \<or> st = EmailDeadLetter"

definition email_check :: "email_delivery \<Rightarrow> bool" where
  "email_check d \<longleftrightarrow>
     length (ed_code_digest d) = 64 \<and>
     (case ed_code d of None \<Rightarrow> True | Some c \<Rightarrow> is_verification_code c) \<and>
     0 \<le> ed_attempts d \<and>
     (ed_lease_token d = None) = (ed_lease_until d = None) \<and>
     (case ed_lease_token d of None \<Rightarrow> True | Some tok \<Rightarrow> 16 \<le> length tok \<and> length tok \<le> 64) \<and>
     (case ed_last_error_code d of None \<Rightarrow> True
        | Some e \<Rightarrow> e \<in> {''stale_challenge'', ''provider_error'', ''delivery_exhausted''}) \<and>
     (ed_state d = EmailSent) = (ed_sent_at d \<noteq> None) \<and>
     (ed_state d = EmailCanceled) = (ed_canceled_at d \<noteq> None) \<and>
     (ed_state d = EmailDeadLetter) = (ed_dead_lettered_at d \<noteq> None) \<and>
     email_terminal (ed_state d) = (ed_next_attempt_at d = None)"

definition email_table_ok :: "db \<Rightarrow> bool" where
  "email_table_ok s \<longleftrightarrow> list_all email_check (email_deliveries s)"

subsection \<open>The repository\<close>

text \<open>\<open>JOIN email_verification_codes ON c.id = d.challenge_id\<close>.\<close>

definition challenge_of :: "db \<Rightarrow> email_delivery \<Rightarrow> verification_code option" where
  "challenge_of s d = find (\<lambda>c. vc_id c = ed_challenge_id d) (codes s)"

text \<open>The \<open>CASE\<close> expression of \<open>ClaimDue\<close> and \<open>RefreshClaim\<close>.\<close>

definition current_code_digest :: "db \<Rightarrow> time \<Rightarrow> email_delivery \<Rightarrow> string" where
  "current_code_digest s now d = (case challenge_of s d of
      None \<Rightarrow> []
    | Some c \<Rightarrow>
        if vc_digest c = ed_code_digest d \<and> vc_consumed_at c = None \<and> now < vc_expires_at c \<and>
           vc_failed_attempts c < 5 \<and>
           (ed_purpose d \<noteq> PurposePasswordReset \<or>
            (\<exists>u\<in>set (users s). db_lower s (u_email u) = db_lower s (ed_email d) \<and> u_deleted_at u = None))
        then vc_digest c else [])"

definition code_invalid :: "db \<Rightarrow> time \<Rightarrow> email_delivery \<Rightarrow> bool" where
  "code_invalid s now d = (case challenge_of s d of
      None \<Rightarrow> False
    | Some c \<Rightarrow> vc_expires_at c \<le> now \<or> vc_consumed_at c \<noteq> None \<or>
               vc_digest c \<noteq> ed_code_digest d \<or> vc_failed_attempts c \<ge> 5)"

definition ClearInvalidCodes :: "(row_id \<Rightarrow> bool) \<Rightarrow> time \<Rightarrow> nat \<Rightarrow> (db, repo_error, unit) act" where
  "ClearInvalidCodes locked now limit = checked ''email_deliveries'' email_table_ok (\<lambda>s.
     let expired = map ed_id (select_by ed_id
           (\<lambda>d. ed_code d \<noteq> None \<and> code_invalid s now d \<and> \<not> locked (ed_id d)) limit (email_deliveries s))
     in ((), s\<lparr>email_deliveries :=
               upd_where (\<lambda>d. ed_id d \<in> set expired) (\<lambda>d. d\<lparr>ed_code := None\<rparr>) (email_deliveries s)\<rparr>))"

definition Email_Enqueue ::
  "verification_code \<Rightarrow> string \<Rightarrow> VerificationPurpose \<Rightarrow> string \<Rightarrow> string \<Rightarrow> time \<Rightarrow>
   (db, repo_error, row_id) act" where
  "Email_Enqueue challenge email purpose codeDigest code now =
     checked ''email_deliveries'' email_table_ok (\<lambda>s.
       let i = next_id ed_id (email_deliveries s)
       in (i, s\<lparr>email_deliveries := email_deliveries s @
            [\<lparr>ed_id = i, ed_challenge_id = vc_id challenge, ed_email = email, ed_purpose = purpose,
              ed_code_digest = codeDigest, ed_code = Some code, ed_state = EmailPending,
              ed_attempts = 0, ed_next_attempt_at = Some now, ed_lease_token = None,
              ed_lease_until = None, ed_last_error_code = None, ed_sent_at = None,
              ed_canceled_at = None, ed_dead_lettered_at = None, ed_created_at = now,
              ed_updated_at = now\<rparr>]\<rparr>))"

definition email_key :: "email_delivery \<Rightarrow> time \<times> row_id" where
  "email_key d = (case ed_next_attempt_at d of None \<Rightarrow> 0 | Some t \<Rightarrow> t, ed_id d)"

definition email_due :: "time \<Rightarrow> email_delivery \<Rightarrow> bool" where
  "email_due now d \<longleftrightarrow> (ed_state d = EmailPending \<or> ed_state d = EmailSending) \<and>
     (case ed_next_attempt_at d of None \<Rightarrow> False | Some t \<Rightarrow> t \<le> now) \<and>
     (case ed_lease_until d of None \<Rightarrow> True | Some u \<Rightarrow> u \<le> now)"

definition email_grant :: "string \<Rightarrow> time \<Rightarrow> time \<Rightarrow> email_delivery \<Rightarrow> email_delivery" where
  "email_grant token now until d = d\<lparr>ed_state := EmailSending, ed_lease_token := Some token,
     ed_lease_until := Some until, ed_updated_at := now\<rparr>"

type_synonym email_claim = "email_delivery \<times> string"

definition Email_ClaimDue ::
  "(row_id \<Rightarrow> bool) \<Rightarrow> time \<Rightarrow> time \<Rightarrow> string \<Rightarrow> int \<Rightarrow> (db, repo_error, email_claim list) act" where
  "Email_ClaimDue locked now leaseUntil leaseToken limit =
     (if limit \<le> 0 \<or> limit > 1000 then fail (RepoPlain ''claim limit must be between 1 and 1000'')
      else checked ''email_deliveries'' email_table_ok (\<lambda>s.
        case claim_due email_key ed_id email_due email_grant locked now leaseUntil leaseToken (nat limit)
               (email_deliveries s) of
          (claimed, t) \<Rightarrow> (map (\<lambda>d. (d, current_code_digest s now d)) claimed, s\<lparr>email_deliveries := t\<rparr>)))"

definition RefreshClaim :: "email_claim \<Rightarrow> time \<Rightarrow> (db, repo_error, email_claim option) act" where
  "RefreshClaim claim now = query (\<lambda>s.
     map_option (\<lambda>d. (d, current_code_digest s now d))
       (find (\<lambda>d. ed_id d = ed_id (fst claim) \<and> ed_state d = EmailSending \<and>
                  ed_lease_token d = Some (value_or_empty (ed_lease_token (fst claim))) \<and>
                  (case ed_lease_until d of None \<Rightarrow> False | Some u \<Rightarrow> now < u))
             (email_deliveries s)))"

text \<open>The columns the worker writes; \<open>UpdateClaim\<close> takes them as a \<open>map[string]any\<close>.\<close>

datatype email_set =
    SetEdState EmailDeliveryState
  | SetEdAttempts int
  | SetEdNext "time option"
  | SetEdLeaseToken "string option"
  | SetEdLeaseUntil "time option"
  | SetEdError "string option"
  | SetEdSentAt "time option"
  | SetEdCanceledAt "time option"
  | SetEdDeadAt "time option"
  | SetEdUpdated time
  | SetEdCode "string option"

fun email_assign :: "email_set \<Rightarrow> email_delivery \<Rightarrow> email_delivery" where
  "email_assign (SetEdState v) d = d\<lparr>ed_state := v\<rparr>"
| "email_assign (SetEdAttempts v) d = d\<lparr>ed_attempts := v\<rparr>"
| "email_assign (SetEdNext v) d = d\<lparr>ed_next_attempt_at := v\<rparr>"
| "email_assign (SetEdLeaseToken v) d = d\<lparr>ed_lease_token := v\<rparr>"
| "email_assign (SetEdLeaseUntil v) d = d\<lparr>ed_lease_until := v\<rparr>"
| "email_assign (SetEdError v) d = d\<lparr>ed_last_error_code := v\<rparr>"
| "email_assign (SetEdSentAt v) d = d\<lparr>ed_sent_at := v\<rparr>"
| "email_assign (SetEdCanceledAt v) d = d\<lparr>ed_canceled_at := v\<rparr>"
| "email_assign (SetEdDeadAt v) d = d\<lparr>ed_dead_lettered_at := v\<rparr>"
| "email_assign (SetEdUpdated v) d = d\<lparr>ed_updated_at := v\<rparr>"
| "email_assign (SetEdCode v) d = d\<lparr>ed_code := v\<rparr>"

definition email_fence :: "email_claim \<Rightarrow> email_delivery \<Rightarrow> bool" where
  "email_fence claim d \<longleftrightarrow> ed_id d = ed_id (fst claim) \<and> ed_state d = EmailSending \<and>
     ed_lease_token d = Some (value_or_empty (ed_lease_token (fst claim)))"

definition Email_UpdateClaim :: "email_claim \<Rightarrow> email_set list \<Rightarrow> (db, repo_error, bool) act" where
  "Email_UpdateClaim claim updates =
     (if updates = [] then fail (RepoPlain ''claim update is empty'')
      else checked ''email_deliveries'' email_table_ok (\<lambda>s.
        case fenced_update (email_fence claim) (fold email_assign updates) (email_deliveries s) of
          (updated, t) \<Rightarrow> (updated, s\<lparr>email_deliveries := t\<rparr>)))"

subsection \<open>The worker\<close>

record email_opts =
  eo_batch_size :: int
  eo_lease :: duration
  eo_timeout :: duration
  eo_max_attempts :: int
  eo_retry_delay :: duration

definition NewVerificationEmailDeliveryWorker :: "email_opts \<Rightarrow> email_opts" where
  "NewVerificationEmailDeliveryWorker o' =
     \<lparr>eo_batch_size = (if eo_batch_size o' \<le> 0 \<or> eo_batch_size o' > 100 then 4 else eo_batch_size o'),
      eo_lease = (if eo_lease o' \<le> 0 then minutes 1 else eo_lease o'),
      eo_timeout = (if eo_timeout o' \<le> 0 then seconds 10 else eo_timeout o'),
      eo_max_attempts = (if eo_max_attempts o' \<le> 0 then 8 else eo_max_attempts o'),
      eo_retry_delay = (if eo_retry_delay o' \<le> 0 then seconds 30 else eo_retry_delay o')\<rparr>"

text \<open>The mail provider: the answer to the \<open>n\<close>-th call, \<open>None\<close> for success.\<close>

record email_sender =
  send_registration :: "nat \<Rightarrow> string \<Rightarrow> string \<Rightarrow> go_error option"
  send_password_reset :: "nat \<Rightarrow> string \<Rightarrow> string \<Rightarrow> go_error option"

datatype email_call = SendRegistrationCode string string | SendPasswordResetCode string string

definition sendVerificationEmail ::
  "email_sender \<Rightarrow> VerificationPurpose \<Rightarrow> string \<Rightarrow> string \<Rightarrow>
   (email_call world, go_error, go_error option) act" where
  "sendVerificationEmail sender purpose email code = (case purpose of
      PurposeRegistration \<Rightarrow>
        ext_call (SendRegistrationCode email code) (\<lambda>n. send_registration sender n email code)
    | PurposePasswordReset \<Rightarrow>
        ext_call (SendPasswordResetCode email code) (\<lambda>n. send_password_reset sender n email code))"

definition email_updateClaim :: "email_claim \<Rightarrow> email_set list \<Rightarrow> (email_call world, go_error, bool) act" where
  "email_updateClaim claim updates = in_tx (Email_UpdateClaim claim updates)"

text \<open>\<open>leaseToken\<close>: 24 random bytes in hexadecimal; \<open>cryptorand.Read\<close> may fail.\<close>

definition leaseToken :: "go_error + byte list \<Rightarrow> go_error + string" where
  "leaseToken random = map_sum id hex_encode random"

definition cancel_sets :: "time \<Rightarrow> email_set list" where
  "cancel_sets now = [SetEdState EmailCanceled, SetEdLeaseToken None, SetEdLeaseUntil None,
     SetEdNext None, SetEdError (Some ''stale_challenge''), SetEdCanceledAt (Some now),
     SetEdUpdated now, SetEdCode None]"

definition sent_sets :: "time \<Rightarrow> email_set list" where
  "sent_sets now = [SetEdState EmailSent, SetEdLeaseToken None, SetEdLeaseUntil None,
     SetEdNext None, SetEdError None, SetEdSentAt (Some now), SetEdUpdated now]"

definition retry_sets :: "email_opts \<Rightarrow> time \<Rightarrow> int \<Rightarrow> email_set list" where
  "retry_sets opts now attempts = [SetEdState EmailPending, SetEdAttempts attempts,
     SetEdNext (Some (now + retryDelay (eo_retry_delay opts) attempts)), SetEdLeaseToken None,
     SetEdLeaseUntil None, SetEdError (Some ''provider_error''), SetEdUpdated now]"

definition dead_sets :: "email_claim \<Rightarrow> time \<Rightarrow> string \<Rightarrow> email_set list" where
  "dead_sets claim now errorCode = [SetEdState EmailDeadLetter, SetEdAttempts (wrap32 (ed_attempts (fst claim) + 1)),
     SetEdNext None, SetEdLeaseToken None, SetEdLeaseUntil None, SetEdError (Some errorCode),
     SetEdDeadAt (Some now), SetEdUpdated now, SetEdCode None]"

definition email_deadLetter :: "email_claim \<Rightarrow> time \<Rightarrow> string \<Rightarrow> (email_call world, go_error, bool) act" where
  "email_deadLetter claim now errorCode = email_updateClaim claim (dead_sets claim now errorCode)"

datatype email_outcome = EmSkipped | EmCanceled | EmSent | EmDead | EmRescheduled

definition settle :: "email_outcome \<Rightarrow> (email_call world, go_error, bool) act \<Rightarrow>
    (email_call world, go_error, email_outcome) act" where
  "settle oc m = bind m (\<lambda>updated. ret (if updated then oc else EmSkipped))"

text \<open>One iteration of the loop of \<open>RunBatch\<close>: the part after the row was re-read, and the whole.\<close>

definition deliver_current ::
  "email_opts \<Rightarrow> email_sender \<Rightarrow> time \<Rightarrow> email_claim \<Rightarrow> (email_call world, go_error, email_outcome) act" where
  "deliver_current opts sender now claim =
     (if ed_code (fst claim) = None \<or> snd claim = [] \<or> snd claim \<noteq> ed_code_digest (fst claim)
      then settle EmCanceled (email_updateClaim claim (cancel_sets now))
      else
        bind (sendVerificationEmail sender (ed_purpose (fst claim)) (ed_email (fst claim))
                (value_or_empty (ed_code (fst claim)))) (\<lambda>deliveryErr.
        if deliveryErr = None then settle EmSent (email_updateClaim claim (sent_sets now))
        else
          let attempts = wrap32 (ed_attempts (fst claim) + 1)
          in if attempts \<ge> wrap32 (eo_max_attempts opts)
             then settle EmDead (email_deadLetter claim now ''delivery_exhausted'')
             else settle EmRescheduled (email_updateClaim claim (retry_sets opts now attempts))))"

definition deliver_claim ::
  "email_opts \<Rightarrow> email_sender \<Rightarrow> email_claim \<Rightarrow> (email_call world, go_error, email_outcome) act" where
  "deliver_claim opts sender claim0 =
     bind clock_now (\<lambda>now.
     bind (in_tx (RefreshClaim claim0 now)) (\<lambda>current.
     case current of None \<Rightarrow> ret EmSkipped | Some claim \<Rightarrow> deliver_current opts sender now claim))"

record email_result =
  er_claimed :: nat
  er_sent :: nat
  er_canceled :: nat
  er_rescheduled :: nat
  er_dead :: nat

fun email_tally :: "email_outcome \<Rightarrow> email_result \<Rightarrow> email_result" where
  "email_tally EmSkipped r = r"
| "email_tally EmCanceled r = r\<lparr>er_canceled := Suc (er_canceled r)\<rparr>"
| "email_tally EmSent r = r\<lparr>er_sent := Suc (er_sent r)\<rparr>"
| "email_tally EmDead r = r\<lparr>er_dead := Suc (er_dead r)\<rparr>"
| "email_tally EmRescheduled r = r\<lparr>er_rescheduled := Suc (er_rescheduled r)\<rparr>"

text \<open>An error stops the batch; the counts so far are returned with it.\<close>

fun deliver_claims ::
  "email_opts \<Rightarrow> email_sender \<Rightarrow> email_claim list \<Rightarrow> email_result \<Rightarrow>
   (email_call world, go_error \<times> email_result, email_result) act" where
  "deliver_claims opts sender [] result = ret result"
| "deliver_claims opts sender (claim # rest) result =
     bind (map_err (\<lambda>e. (e, result)) (deliver_claim opts sender claim))
       (\<lambda>oc. deliver_claims opts sender rest (email_tally oc result))"

definition no_email_result :: email_result where
  "no_email_result = \<lparr>er_claimed = 0, er_sent = 0, er_canceled = 0, er_rescheduled = 0, er_dead = 0\<rparr>"

definition Email_RunBatch ::
  "email_opts \<Rightarrow> email_sender \<Rightarrow> (row_id \<Rightarrow> bool) \<Rightarrow> go_error + byte list \<Rightarrow>
   (email_call world, go_error \<times> email_result, email_result) act" where
  "Email_RunBatch opts sender locked random =
     bind (map_err (\<lambda>e. (e, no_email_result))
       (bind clock_now (\<lambda>now. bind (lift_result (leaseToken random)) (\<lambda>token.
         in_tx (seq (ClearInvalidCodes locked now (nat (eo_batch_size opts * 10)))
                       (Email_ClaimDue locked now (now + eo_lease opts) token (eo_batch_size opts)))))))
       (\<lambda>claims. deliver_claims opts sender claims (no_email_result\<lparr>er_claimed := length claims\<rparr>))"

subsection \<open>Claims\<close>

interpretation email_q: lease_queue email_key ed_id email_due email_grant ed_lease_token ed_lease_until
  by unfold_locales (auto simp: email_grant_def email_key_def email_due_def)

lemma current_code_digest_stmts [simp]:
  "current_code_digest (s\<lparr>db_stmts := n\<rparr>) now d = current_code_digest s now d"
  by (simp add: current_code_digest_def challenge_of_def split: option.split)

lemma Email_ClaimDue_Inr:
  assumes "Email_ClaimDue locked now until tok limit s = (Inr cs, s')"
  shows "0 < limit" "limit \<le> 1000"
    "claim_due email_key ed_id email_due email_grant locked now until tok (nat limit) (email_deliveries s)
       = (map fst cs, email_deliveries s')"
    "\<And>c. c \<in> set cs \<Longrightarrow> snd c = current_code_digest s now (fst c)"
    "codes s' = codes s" "users s' = users s" "db_lower s' = db_lower s"
  using assms
  by (auto simp: Email_ClaimDue_def act_simps Let_def comp_def split: if_splits prod.splits)

text \<open>
  C8: the outbox hands a row to one worker at a time.  What a successful \<open>ClaimDue\<close> returns was
  due and not locked, carries the caller's token and lease, is at most \<open>limit\<close> distinct rows,
  and leaves out no due row that would sort before a claimed one; a second claim that runs
  before the first lease ends takes none of those rows; and once a row has been claimed again
  with another token, the first worker's update changes nothing and reports that it did not
  apply.
\<close>

theorem Email_ClaimDue_exclusive:
  assumes first: "Email_ClaimDue locked now until tok limit s = (Inr cs, s')"
    and ids: "distinct (map ed_id (email_deliveries s))"
  shows "length cs \<le> nat limit \<and> distinct (map (ed_id \<circ> fst) cs) \<and>
    (\<forall>c\<in>set cs. ed_lease_token (fst c) = Some tok \<and> ed_lease_until (fst c) = Some until \<and>
        (\<exists>r\<in>set (email_deliveries s). ed_id r = ed_id (fst c) \<and> email_due now r \<and> \<not> locked (ed_id r)) \<and>
        (\<forall>r\<in>set (email_deliveries s). email_due now r \<and> \<not> locked (ed_id r) \<and>
            ed_id r \<notin> set (map (ed_id \<circ> fst) cs) \<longrightarrow> email_key (fst c) \<le> email_key r)) \<and>
    (\<forall>locked2 now2 until2 tok2 limit2 cs2 s2.
        Email_ClaimDue locked2 now2 until2 tok2 limit2 s' = (Inr cs2, s2) \<and> now2 < until \<longrightarrow>
        set (map (ed_id \<circ> fst) cs) \<inter> set (map (ed_id \<circ> fst) cs2) = {}) \<and>
    (\<forall>locked2 now2 until2 tok2 limit2 cs2 s2.
        Email_ClaimDue locked2 now2 until2 tok2 limit2 s' = (Inr cs2, s2) \<and> tok2 \<noteq> tok \<longrightarrow>
        (\<forall>c\<in>set cs. ed_id (fst c) \<in> set (map (ed_id \<circ> fst) cs2) \<longrightarrow>
           fenced_update (email_fence c) f (email_deliveries s2) = (False, email_deliveries s2)))"
proof (intro conjI ballI allI impI)
  note cl = Email_ClaimDue_Inr(3)[OF first]
  show "length cs \<le> nat limit" "distinct (map (ed_id \<circ> fst) cs)"
    using email_q.claim_bounded[OF cl ids] by simp_all
  fix c assume c: "c \<in> set cs"
  then have m: "fst c \<in> set (map fst cs)" by simp
  show "ed_lease_token (fst c) = Some tok" "ed_lease_until (fst c) = Some until"
    using email_q.claimed_rows(2,3)[OF cl m] .
  show "\<exists>r\<in>set (email_deliveries s). ed_id r = ed_id (fst c) \<and> email_due now r \<and> \<not> locked (ed_id r)"
    by (rule email_q.claimed_was_due[OF cl m])
  fix r assume "r \<in> set (email_deliveries s)" "email_due now r \<and> \<not> locked (ed_id r) \<and>
            ed_id r \<notin> set (map (ed_id \<circ> fst) cs)"
  then show "email_key (fst c) \<le> email_key r"
    using email_q.claim_fair[OF cl _ _ _ _ m ids, of r] by auto
next
  note cl = Email_ClaimDue_Inr(3)[OF first]
  fix locked2 now2 until2 tok2 limit2 cs2 s2
  assume second: "Email_ClaimDue locked2 now2 until2 tok2 limit2 s' = (Inr cs2, s2) \<and> now2 < until"
  show "set (map (ed_id \<circ> fst) cs) \<inter> set (map (ed_id \<circ> fst) cs2) = {}"
    using email_q.claim_exclusive[OF cl Email_ClaimDue_Inr(3)[OF conjunct1[OF second]]] second
    by (simp add: image_comp)
next
  note cl = Email_ClaimDue_Inr(3)[OF first]
  fix locked2 now2 until2 tok2 limit2 cs2 s2 c
  assume second: "Email_ClaimDue locked2 now2 until2 tok2 limit2 s' = (Inr cs2, s2) \<and> tok2 \<noteq> tok"
    and c: "c \<in> set cs" and again: "ed_id (fst c) \<in> set (map (ed_id \<circ> fst) cs2)"
  from c have "fst c \<in> set (map fst cs)" by simp
  then have tok: "ed_lease_token (fst c) = Some tok" by (rule email_q.claimed_rows(2)[OF cl])
  note cl2 = Email_ClaimDue_Inr(3)[OF conjunct1[OF second]]
  show "fenced_update (email_fence c) f (email_deliveries s2) = (False, email_deliveries s2)"
    by (rule email_q.reclaimed_write_is_stale[OF cl2, where i = "ed_id (fst c)" and tok = tok])
      (use again second tok in \<open>auto simp: email_fence_def\<close>)
qed

subsection \<open>What is sent\<close>

lemma settle_log: "w_log (snd (settle oc (email_updateClaim claim updates) w)) = w_log w"
  using in_tx_log[of "Email_UpdateClaim claim updates" w]
  by (auto simp: settle_def email_updateClaim_def act_simps split: prod.splits sum.splits)

lemma current_code_digestD:
  assumes "current_code_digest s now d \<noteq> []"
  obtains c where "c \<in> set (codes s)" "vc_id c = ed_challenge_id d" "vc_digest c = ed_code_digest d"
    "vc_consumed_at c = None" "now < vc_expires_at c" "vc_failed_attempts c < 5"
    "ed_purpose d = PurposePasswordReset \<Longrightarrow>
       \<exists>u\<in>set (users s). db_lower s (u_email u) = db_lower s (ed_email d) \<and> u_deleted_at u = None"
  using assms
  by (auto simp: current_code_digest_def challenge_of_def dest!: find_SomeD split: option.splits if_splits)

lemma RefreshClaim_Some:
  assumes "RefreshClaim claim now s = (Inr (Some c), t)"
  shows "fst c \<in> set (email_deliveries s)" "ed_id (fst c) = ed_id (fst claim)"
    "ed_state (fst c) = EmailSending"
    "ed_lease_token (fst c) = Some (value_or_empty (ed_lease_token (fst claim)))"
    "\<exists>u. ed_lease_until (fst c) = Some u \<and> now < u"
    "snd c = current_code_digest s now (fst c)"
  using assms
  by (auto simp: RefreshClaim_def act_simps dest!: find_SomeD split: if_splits option.splits)

definition mail_for :: "email_delivery \<Rightarrow> string \<Rightarrow> email_call" where
  "mail_for d code = (case ed_purpose d of
      PurposeRegistration \<Rightarrow> SendRegistrationCode (ed_email d) code
    | PurposePasswordReset \<Rightarrow> SendPasswordResetCode (ed_email d) code)"

text \<open>The row, as the worker re-reads it, may be mailed: leased to the caller, code still usable.\<close>

definition may_mail :: "db \<Rightarrow> time \<Rightarrow> email_claim \<Rightarrow> email_delivery \<Rightarrow> bool" where
  "may_mail s now claim d \<longleftrightarrow> d \<in> set (email_deliveries s) \<and> ed_id d = ed_id (fst claim) \<and>
     ed_state d = EmailSending \<and>
     ed_lease_token d = Some (value_or_empty (ed_lease_token (fst claim))) \<and>
     (\<exists>u. ed_lease_until d = Some u \<and> now < u) \<and>
     (\<exists>c\<in>set (codes s). vc_id c = ed_challenge_id d \<and> vc_digest c = ed_code_digest d \<and>
         vc_consumed_at c = None \<and> now < vc_expires_at c \<and> vc_failed_attempts c < 5) \<and>
     (ed_purpose d = PurposePasswordReset \<longrightarrow>
        (\<exists>u\<in>set (users s). db_lower s (u_email u) = db_lower s (ed_email d) \<and> u_deleted_at u = None))"

lemma may_mailI:
  assumes r: "RefreshClaim claim now s = (Inr (Some c), t)"
    and d: "snd c \<noteq> []"
  shows "may_mail s now claim (fst c)"
  unfolding may_mail_def
  using RefreshClaim_Some[OF r] current_code_digestD[of s now "fst c"] d
  by (metis (no_types, lifting))

lemma deliver_claim_log:
  "w_log (snd (deliver_claim opts sender claim w)) = w_log w \<or>
   (\<exists>d code. may_mail (w_env w (w_txs w) (w_db w)) (w_clock w (w_ticks w)) claim d \<and>
      ed_code d = Some code \<and>
      w_log (snd (deliver_claim opts sender claim w)) = w_log w @ [mail_for d code])"
proof -
  let ?now = "w_clock w (w_ticks w)"
  let ?w1 = "w\<lparr>w_ticks := Suc (w_ticks w)\<rparr>"
  obtain r w2 where tx: "in_tx (RefreshClaim claim ?now) ?w1 = (r, w2)" by fastforce
  have log2: "w_log w2 = w_log w" using in_tx_log[of "RefreshClaim claim ?now" ?w1] tx by simp
  show ?thesis
  proof (cases "\<exists>c. r = Inr (Some c) \<and> ed_code (fst c) \<noteq> None \<and> snd c \<noteq> [] \<and> snd c = ed_code_digest (fst c)")
    case True
    then obtain c code where c: "r = Inr (Some c)" "ed_code (fst c) = Some code" "snd c \<noteq> []"
      "snd c = ed_code_digest (fst c)" by auto
    have "may_mail (w_env w (w_txs w) (w_db w)) ?now claim (fst c)"
      by (rule may_mailI[OF _ c(3)]) (use in_tx_Inr(1)[OF tx[unfolded c(1)]] in simp)
    moreover have "w_log (snd (deliver_claim opts sender claim w)) = w_log w @ [mail_for (fst c) code]"
      using tx c log2
      by (simp add: deliver_claim_def deliver_current_def bind_run clock_now_def sendVerificationEmail_def ext_call_def
          mail_for_def settle_log email_deadLetter_def Let_def split: VerificationPurpose.splits)
    ultimately show ?thesis using c(2) by blast
  next
    case False
    then have "w_log (snd (deliver_claim opts sender claim w)) = w_log w2"
      using tx by (auto simp: deliver_claim_def deliver_current_def bind_run clock_now_def settle_log act_simps
          split: sum.splits option.splits)
    then show ?thesis using log2 by simp
  qed
qed

text \<open>
  C9: a code is mailed only while it can still be used.  Whenever processing one claimed row
  reaches the provider, it does so exactly once, with the address, purpose and code of that
  row, and at that moment the row was held under the worker's own unexpired lease, the
  challenge still had this very code, unconsumed, unexpired and with fewer than five wrong
  guesses, and for a password reset the account still existed.
\<close>

theorem deliver_claim_sends_only_usable_codes:
  assumes "deliver_claim opts sender claim w = (r, w')" and "w_log w' \<noteq> w_log w"
  shows "\<exists>d code. may_mail (w_env w (w_txs w) (w_db w)) (w_clock w (w_ticks w)) claim d \<and>
      ed_code d = Some code \<and> w_log w' = w_log w @ [mail_for d code]"
  using deliver_claim_log[of opts sender claim w] assms by simp

subsection \<open>The constraints of the table\<close>

definition email_row_ok :: "email_delivery \<Rightarrow> bool" where
  "email_row_ok d \<longleftrightarrow> email_check d \<and> (email_terminal (ed_state d) \<or> ed_attempts d < 2 ^ 31 - 1)"

definition email_inv :: "db \<Rightarrow> bool" where
  "email_inv s \<longleftrightarrow> list_all email_row_ok (email_deliveries s) \<and> distinct (map ed_id (email_deliveries s))"

definition opts_ok :: "email_opts \<Rightarrow> bool" where
  "opts_ok opts \<longleftrightarrow> 0 < eo_max_attempts opts \<and> eo_max_attempts opts < 2 ^ 31"

lemma email_inv_blind: "stmt_blind email_inv"
  by (simp add: stmt_blind_def email_inv_def)

lemma email_inv_table_ok: "email_inv s \<Longrightarrow> email_table_ok s"
  by (auto simp: email_inv_def email_table_ok_def email_row_ok_def list_all_iff)

lemma email_row_ok_clear: "email_row_ok d \<Longrightarrow> email_row_ok (d\<lparr>ed_code := None\<rparr>)"
  by (auto simp: email_row_ok_def email_check_def)

lemma email_row_ok_grant:
  "email_row_ok d \<Longrightarrow> ed_state d = EmailPending \<or> ed_state d = EmailSending \<Longrightarrow>
   16 \<le> length tok \<Longrightarrow> length tok \<le> 64 \<Longrightarrow> email_row_ok (email_grant tok now until d)"
  by (erule disjE; simp add: email_row_ok_def email_check_def email_grant_def email_terminal_def)

lemma email_row_ok_cancel:
  "email_row_ok d \<Longrightarrow> ed_state d = EmailSending \<Longrightarrow> email_row_ok (fold email_assign (cancel_sets now) d)"
  by (simp add: email_row_ok_def email_check_def cancel_sets_def email_terminal_def)

lemma email_row_ok_sent:
  "email_row_ok d \<Longrightarrow> ed_state d = EmailSending \<Longrightarrow> email_row_ok (fold email_assign (sent_sets now) d)"
  by (simp add: email_row_ok_def email_check_def sent_sets_def email_terminal_def)

lemma email_row_ok_retry:
  "email_row_ok d \<Longrightarrow> ed_state d = EmailSending \<Longrightarrow> 0 \<le> a \<Longrightarrow> a < 2 ^ 31 - 1 \<Longrightarrow>
   email_row_ok (fold email_assign (retry_sets opts now a) d)"
  by (simp add: email_row_ok_def email_check_def retry_sets_def email_terminal_def)

lemma email_row_ok_dead:
  "email_row_ok d \<Longrightarrow> ed_state d = EmailSending \<Longrightarrow> 0 \<le> ed_attempts (fst claim) \<Longrightarrow>
   ed_attempts (fst claim) < 2 ^ 31 - 1 \<Longrightarrow>
   email_row_ok (fold email_assign (dead_sets claim now ''delivery_exhausted'') d)"
  by (simp add: email_row_ok_def email_check_def dead_sets_def email_terminal_def wrap32_id)

lemma email_assign_id [simp]: "ed_id (fold email_assign us d) = ed_id d"
proof (induction us arbitrary: d)
  case (Cons u us)
  have "ed_id (email_assign u d) = ed_id d" by (cases u) simp_all
  with Cons show ?case by simp
qed simp

lemma email_grant_id [simp]: "ed_id (email_grant tok now until d) = ed_id d"
  by (simp add: email_grant_def)

lemma Email_UpdateClaim_triple:
  assumes "updates \<noteq> []" and "\<And>d. email_row_ok d \<Longrightarrow> ed_state d = EmailSending \<Longrightarrow> email_row_ok (fold email_assign updates d)"
  shows "triple email_inv (Email_UpdateClaim claim updates) (\<lambda>x d. email_inv d \<and> True) (\<lambda>e d. e = DbFailure)"
proof -
  have "email_inv (s\<lparr>email_deliveries := snd (fenced_update (email_fence claim) (fold email_assign updates) (email_deliveries s))\<rparr>)"
    if "email_inv s" for s
    using that assms(2) unfolding email_inv_def fenced_update_def
    by (auto simp: email_fence_def upd_where_ids intro!: upd_where_all)
  then show ?thesis
    unfolding Email_UpdateClaim_def using assms(1)
    by (simp add: case_prod_beta)
      (rule triple_checked_inv[OF email_inv_blind, where Q = "\<lambda>_. True", simplified], simp add: email_inv_table_ok)
qed

lemma email_updateClaim_triple:
  assumes "updates \<noteq> []" and "\<And>d. email_row_ok d \<Longrightarrow> ed_state d = EmailSending \<Longrightarrow> email_row_ok (fold email_assign updates d)"
  shows "triple (world_inv email_inv) (settle oc (email_updateClaim claim updates))
           (\<lambda>x. world_inv email_inv) (\<lambda>e w. world_inv email_inv w \<and> not_check_violation e)"
  unfolding settle_def email_updateClaim_def
  by (rule triple_bind, rule triple_in_tx[OF email_inv_blind, where E = not_check_violation and Q = "\<lambda>_. True"],
      rule triple_conseq[OF Email_UpdateClaim_triple[OF assms]])
    (auto simp: not_check_violation_def intro: triple_ret)

lemma sets_nonempty: "cancel_sets now \<noteq> []" "sent_sets now \<noteq> []" "retry_sets opts now a \<noteq> []"
  "dead_sets claim now e \<noteq> []"
  by (simp_all add: cancel_sets_def sent_sets_def retry_sets_def dead_sets_def)

lemma RefreshClaim_triple:
  "triple email_inv (RefreshClaim claim now)
     (\<lambda>x d. email_inv d \<and> (\<forall>c. x = Some c \<longrightarrow> 0 \<le> ed_attempts (fst c) \<and> ed_attempts (fst c) < 2 ^ 31 - 1))
     (\<lambda>e d. e = DbFailure)"
proof (rule tripleI)
  fix s x t assume s: "email_inv s" and r: "RefreshClaim claim now s = (Inr x, t)"
  have "email_inv t" using r s stmt_blindD[OF email_inv_blind]
    by (auto simp: RefreshClaim_def query_run split: if_splits)
  moreover have "0 \<le> ed_attempts (fst c) \<and> ed_attempts (fst c) < 2 ^ 31 - 1" if "x = Some c" for c
    using RefreshClaim_Some[OF r[unfolded that]] s
    by (auto simp: email_inv_def list_all_iff email_row_ok_def email_check_def email_terminal_def)
  ultimately show "email_inv t \<and> (\<forall>c. x = Some c \<longrightarrow> 0 \<le> ed_attempts (fst c) \<and> ed_attempts (fst c) < 2 ^ 31 - 1)"
    by blast
next
  fix s e t assume "RefreshClaim claim now s = (Inl e, t)"
  then show "e = DbFailure" by (simp add: RefreshClaim_def query_run split: if_splits)
qed

lemma deliver_current_triple:
  assumes "opts_ok opts" and a: "0 \<le> ed_attempts (fst c)" "ed_attempts (fst c) < 2 ^ 31 - 1"
  shows "triple (world_inv email_inv) (deliver_current opts sender now c)
           (\<lambda>x. world_inv email_inv) (\<lambda>e w. world_inv email_inv w \<and> not_check_violation e)"
proof -
  let ?E = "\<lambda>e w. world_inv email_inv w \<and> not_check_violation e"
  have send: "triple (world_inv email_inv) (sendVerificationEmail sender p e code) (\<lambda>x. world_inv email_inv) ?E"
    for p e code by (cases p) (simp_all add: sendVerificationEmail_def triple_ext_call)
  have max: "wrap32 (eo_max_attempts opts) = eo_max_attempts opts" "eo_max_attempts opts \<le> 2 ^ 31 - 1"
    using assms(1) by (simp_all add: opts_ok_def wrap32_id)
  have w: "wrap32 (ed_attempts (fst c) + 1) = ed_attempts (fst c) + 1" using a by (simp add: wrap32_id)
  show ?thesis
    unfolding deliver_current_def Let_def w max(1) email_deadLetter_def
    by (intro triple_if triple_bind[OF send] email_updateClaim_triple sets_nonempty email_row_ok_cancel
        email_row_ok_sent email_row_ok_retry email_row_ok_dead) (use a max in auto)
qed

lemma deliver_claim_triple:
  assumes "opts_ok opts"
  shows "triple (world_inv email_inv) (deliver_claim opts sender claim)
           (\<lambda>x. world_inv email_inv) (\<lambda>e w. world_inv email_inv w \<and> not_check_violation e)"
  unfolding deliver_claim_def
proof (rule triple_bind[OF triple_clock_now], rule triple_bind)
  fix now
  show "triple (world_inv email_inv) (in_tx (RefreshClaim claim now))
     (\<lambda>x w. world_inv email_inv w \<and>
        (\<forall>c. x = Some c \<longrightarrow> 0 \<le> ed_attempts (fst c) \<and> ed_attempts (fst c) < 2 ^ 31 - 1))
     (\<lambda>e w. world_inv email_inv w \<and> not_check_violation e)"
    by (rule triple_in_tx[OF email_inv_blind], rule triple_conseq[OF RefreshClaim_triple])
      (auto simp: not_check_violation_def)
  fix current :: "email_claim option"
  show "triple (\<lambda>w. world_inv email_inv w \<and>
            (\<forall>c. current = Some c \<longrightarrow> 0 \<le> ed_attempts (fst c) \<and> ed_attempts (fst c) < 2 ^ 31 - 1))
     (case current of None \<Rightarrow> ret EmSkipped | Some claim \<Rightarrow> deliver_current opts sender now claim)
     (\<lambda>x. world_inv email_inv) (\<lambda>e w. world_inv email_inv w \<and> not_check_violation e)"
    using deliver_current_triple[OF assms]
    by (cases current) (auto simp: triple_def ret_def)
qed

lemma ClearInvalidCodes_triple:
  "triple email_inv (ClearInvalidCodes locked now n) (\<lambda>x d. email_inv d \<and> True) (\<lambda>e d. e = DbFailure)"
  unfolding ClearInvalidCodes_def
proof (rule triple_checked_inv[OF email_inv_blind])
  fix s assume "email_inv s"
  then have "email_inv (s\<lparr>email_deliveries := upd_where p (\<lambda>d. d\<lparr>ed_code := None\<rparr>) (email_deliveries s)\<rparr>)" for p
    by (auto simp: email_inv_def upd_where_ids intro!: upd_where_all email_row_ok_clear)
  then show "email_table_ok (snd (let expired = map ed_id (select_by ed_id
           (\<lambda>d. ed_code d \<noteq> None \<and> code_invalid s now d \<and> \<not> locked (ed_id d)) n (email_deliveries s))
     in ((), s\<lparr>email_deliveries :=
               upd_where (\<lambda>d. ed_id d \<in> set expired) (\<lambda>d. d\<lparr>ed_code := None\<rparr>) (email_deliveries s)\<rparr>))) \<and>
     email_inv (snd (let expired = map ed_id (select_by ed_id
           (\<lambda>d. ed_code d \<noteq> None \<and> code_invalid s now d \<and> \<not> locked (ed_id d)) n (email_deliveries s))
     in ((), s\<lparr>email_deliveries :=
               upd_where (\<lambda>d. ed_id d \<in> set expired) (\<lambda>d. d\<lparr>ed_code := None\<rparr>) (email_deliveries s)\<rparr>)))"
    by (simp add: Let_def email_inv_table_ok)
qed simp

lemma Email_ClaimDue_triple:
  assumes "16 \<le> length tok" "length tok \<le> 64"
  shows "triple email_inv (Email_ClaimDue locked now until tok limit) (\<lambda>x d. email_inv d \<and> True)
     (\<lambda>e d. e = DbFailure \<or> (\<exists>m. e = RepoPlain m))"
proof (cases "limit \<le> 0 \<or> limit > 1000")
  case True
  then show ?thesis by (auto simp: Email_ClaimDue_def intro: triple_fail)
next
  case False
  have inv: "email_inv (s\<lparr>email_deliveries := snd (claim_due email_key ed_id email_due email_grant locked now until tok
      (nat limit) (email_deliveries s))\<rparr>)" if "email_inv s" for s
    using that assms
    by (auto simp: email_inv_def claim_due_ids email_due_def intro!: claim_due_all email_row_ok_grant)
  show ?thesis
    using False unfolding Email_ClaimDue_def
    by (simp add: case_prod_beta, intro triple_conseq[OF triple_checked_inv[OF email_inv_blind]])
      (auto simp: inv email_inv_table_ok)
qed

lemma deliver_claims_triple:
  assumes "opts_ok opts"
  shows "triple (world_inv email_inv) (deliver_claims opts sender claims result)
           (\<lambda>x. world_inv email_inv) (\<lambda>e w. world_inv email_inv w \<and> not_check_violation (fst e))"
proof (induction claims arbitrary: result)
  case Nil
  then show ?case by (simp add: triple_ret)
next
  case (Cons c cs)
  show ?case
    by simp (rule triple_bind[OF triple_map_err Cons], simp add: deliver_claim_triple[OF assms])
qed

text \<open>
  C10: no statement of the mail worker can violate a constraint of its table.  Started with a
  table whose rows satisfy the constraints and whose attempt counters are below the 32-bit
  limit, whatever other sessions commit in between (as long as they keep the same invariant)
  and whatever statements and transactions fail, a batch keeps the invariant and its error, if
  any, is never a constraint violation.
\<close>

theorem Email_RunBatch_respects_constraints:
  assumes "world_inv email_inv w" and "opts_ok opts" and "\<And>bs. random = Inr bs \<Longrightarrow> length bs = 24"
    and "\<And>e. random = Inl e \<Longrightarrow> not_check_violation e"
  shows "world_inv email_inv (snd (Email_RunBatch opts sender locked random w)) \<and>
         (\<forall>e. fst (Email_RunBatch opts sender locked random w) = Inl e \<longrightarrow> not_check_violation (fst e))"
proof -
  let ?E = "\<lambda>e w. world_inv email_inv w \<and> not_check_violation e"
  have claim: "triple (world_inv email_inv)
      (in_tx (seq (ClearInvalidCodes locked now n) (Email_ClaimDue locked now until tok limit)))
      (\<lambda>x w. world_inv email_inv w \<and> True) ?E" if "16 \<le> length tok" "length tok \<le> 64" for now n until tok limit
    unfolding seq_def
    by (rule triple_in_tx[OF email_inv_blind], rule triple_bind[OF triple_conseq[OF ClearInvalidCodes_triple]
          triple_conseq[OF Email_ClaimDue_triple[OF that]]])
      (auto simp: not_check_violation_def)
  have token: "16 \<le> length tok \<and> length tok \<le> 64" if "leaseToken random = Inr tok" for tok
    using that assms(3) by (cases random) (auto simp: leaseToken_def)
  have "triple (world_inv email_inv) (Email_RunBatch opts sender locked random)
      (\<lambda>x. world_inv email_inv) (\<lambda>e. ?E (fst e))"
    unfolding Email_RunBatch_def
  proof (intro triple_bind[OF triple_map_err deliver_claims_triple[OF assms(2)]], simp only: fst_conv,
      rule triple_bind[OF triple_clock_now], rule triple_bind)
    show "triple (world_inv email_inv) (lift_result (leaseToken random))
        (\<lambda>tok w. world_inv email_inv w \<and> leaseToken random = Inr tok) ?E"
      by (rule triple_lift_result) (use assms(4) in \<open>cases random; auto simp: leaseToken_def\<close>)+
    show "triple (\<lambda>w. world_inv email_inv w \<and> leaseToken random = Inr tok)
        (in_tx (seq (ClearInvalidCodes locked now (nat (eo_batch_size opts * 10)))
           (Email_ClaimDue locked now (now + eo_lease opts) tok (eo_batch_size opts))))
        (\<lambda>_. world_inv email_inv) ?E" for tok now
      by (rule triple_pure, rule triple_conseq[OF claim]) (use token[of tok] in auto)
  qed
  then show ?thesis by (rule triple_safe[where F = "\<lambda>e. not_check_violation (fst e)"]) (rule assms(1))
qed

subsection \<open>The life of a row\<close>

text \<open>
  The abstract machine of one outbox row.  \<open>maxAttempts\<close> is the worker's budget.  A retry
  records fewer than \<open>maxAttempts\<close> failures; a row that reaches the budget is dead-lettered.
\<close>

inductive email_step :: "int \<Rightarrow> email_delivery \<Rightarrow> email_delivery \<Rightarrow> bool" for maxAttempts where
  step_clear: "email_step maxAttempts d (d\<lparr>ed_code := None\<rparr>)"
| step_claim: "ed_state d = EmailPending \<or> ed_state d = EmailSending \<Longrightarrow>
     email_step maxAttempts d (d\<lparr>ed_state := EmailSending, ed_lease_token := Some tok,
        ed_lease_until := Some until, ed_updated_at := now\<rparr>)"
| step_cancel: "ed_state d = EmailSending \<Longrightarrow>
     email_step maxAttempts d (d\<lparr>ed_state := EmailCanceled, ed_lease_token := None, ed_lease_until := None,
        ed_next_attempt_at := None, ed_last_error_code := Some ''stale_challenge'',
        ed_canceled_at := Some now, ed_updated_at := now, ed_code := None\<rparr>)"
| step_sent: "ed_state d = EmailSending \<Longrightarrow>
     email_step maxAttempts d (d\<lparr>ed_state := EmailSent, ed_lease_token := None, ed_lease_until := None,
        ed_next_attempt_at := None, ed_last_error_code := None, ed_sent_at := Some now,
        ed_updated_at := now\<rparr>)"
| step_retry: "ed_state d = EmailSending \<Longrightarrow> a < maxAttempts \<Longrightarrow>
     email_step maxAttempts d (d\<lparr>ed_state := EmailPending, ed_attempts := a, ed_next_attempt_at := Some next,
        ed_lease_token := None, ed_lease_until := None, ed_last_error_code := Some ''provider_error'',
        ed_updated_at := now\<rparr>)"
| step_dead: "ed_state d = EmailSending \<Longrightarrow> maxAttempts \<le> a \<Longrightarrow>
     email_step maxAttempts d (d\<lparr>ed_state := EmailDeadLetter, ed_attempts := a, ed_next_attempt_at := None,
        ed_lease_token := None, ed_lease_until := None, ed_last_error_code := Some ''delivery_exhausted'',
        ed_dead_lettered_at := Some now, ed_updated_at := now, ed_code := None\<rparr>)"

lemma email_step_identity:
  "email_step m d d' \<Longrightarrow> ed_id d' = ed_id d \<and> ed_challenge_id d' = ed_challenge_id d \<and>
     ed_email d' = ed_email d \<and> ed_purpose d' = ed_purpose d \<and> ed_code_digest d' = ed_code_digest d \<and>
     (ed_code d' = ed_code d \<or> ed_code d' = None)"
  by (induction rule: email_step.induct) simp_all

lemma email_step_terminal:
  "email_step m d d' \<Longrightarrow> email_terminal (ed_state d) \<Longrightarrow> d' = d\<lparr>ed_code := None\<rparr>"
  by (induction rule: email_step.induct) (auto simp: email_terminal_def)

lemma email_steps_identity:
  "(email_step m)\<^sup>*\<^sup>* d d' \<Longrightarrow> ed_id d' = ed_id d \<and> ed_challenge_id d' = ed_challenge_id d \<and>
     ed_email d' = ed_email d \<and> ed_purpose d' = ed_purpose d \<and> ed_code_digest d' = ed_code_digest d \<and>
     (ed_code d' = ed_code d \<or> ed_code d' = None)"
  by (induction rule: rtranclp_induct) (auto dest: email_step_identity)

lemma email_steps_terminal:
  "(email_step m)\<^sup>*\<^sup>* d d' \<Longrightarrow> email_terminal (ed_state d) \<Longrightarrow> d' = d \<or> d' = d\<lparr>ed_code := None\<rparr>"
  by (induction rule: rtranclp_induct) (auto dest!: email_step_terminal)

lemma email_steps_budget:
  "(email_step m)\<^sup>*\<^sup>* d d' \<Longrightarrow> ed_attempts d < m \<Longrightarrow>
     ed_attempts d' < m \<or> ed_state d' = EmailDeadLetter"
proof (induction rule: rtranclp_induct)
  case (step y z)
  from step.hyps(2) step.IH[OF step.prems] show ?case by (cases rule: email_step.cases) auto
qed simp

text \<open>How the whole table may move: no row is lost and every row makes steps of the machine.\<close>

definition email_evolves :: "int \<Rightarrow> db \<Rightarrow> db \<Rightarrow> bool" where
  "email_evolves m s s' \<longleftrightarrow> (distinct (map ed_id (email_deliveries s)) \<longrightarrow>
     distinct (map ed_id (email_deliveries s')) \<and>
     (\<forall>d\<in>set (email_deliveries s). \<exists>d'\<in>set (email_deliveries s'). (email_step m)\<^sup>*\<^sup>* d d'))"

lemma email_evolves_refl: "reflp (email_evolves m)"
  by (auto simp: reflp_def email_evolves_def)

lemma email_evolves_trans: "transp (email_evolves m)"
  unfolding transp_def email_evolves_def by (meson rtranclp_trans)

lemma email_evolves_tables:
  "email_deliveries s' = email_deliveries s \<Longrightarrow> email_evolves m s s'"
  by (auto simp: email_evolves_def)

lemma moves_checked_email:
  assumes "\<And>s. email_evolves m s (snd (f s))"
  shows "moves (email_evolves m) (checked name ok f)"
proof -
  have "email_evolves m s t = email_evolves m (s\<lparr>db_stmts := n\<rparr>) t" for s t n by (simp add: email_evolves_def)
  then show ?thesis using assms
    by (auto simp: moves_def checked_run Let_def email_evolves_tables)
qed

lemma ClearInvalidCodes_moves: "moves (email_evolves m) (ClearInvalidCodes locked now n)"
  unfolding ClearInvalidCodes_def Let_def
  by (rule moves_checked_email)
    (auto simp: email_evolves_def upd_where_ids intro!: upd_where_related r_into_rtranclp step_clear)

lemma Email_ClaimDue_moves: "moves (email_evolves m) (Email_ClaimDue locked now until tok limit)"
proof -
  have "email_evolves m s (s\<lparr>email_deliveries := snd (claim_due email_key ed_id email_due email_grant locked now until tok
      (nat limit) (email_deliveries s))\<rparr>)" for s
    unfolding email_evolves_def
    by (auto simp: claim_due_ids email_due_def email_grant_def intro!: claim_due_related r_into_rtranclp step_claim)
  then show ?thesis
    by (auto simp: Email_ClaimDue_def case_prod_beta intro!: moves_checked_email moves_fail[OF email_evolves_refl])
qed

lemma RefreshClaim_moves: "moves (email_evolves m) (RefreshClaim claim now)"
  by (simp add: moves_def RefreshClaim_def query_run email_evolves_tables)

lemma Email_UpdateClaim_moves:
  assumes "\<And>d. ed_state d = EmailSending \<Longrightarrow> email_step m d (fold email_assign updates d)"
  shows "moves (email_evolves m) (Email_UpdateClaim claim updates)"
proof -
  have "email_evolves m s (s\<lparr>email_deliveries := snd (fenced_update (email_fence claim) (fold email_assign updates)
      (email_deliveries s))\<rparr>)" for s
    using assms unfolding email_evolves_def fenced_update_def
    by (auto simp: upd_where_ids email_fence_def intro!: upd_where_related r_into_rtranclp)
  then show ?thesis
    by (auto simp: Email_UpdateClaim_def case_prod_beta intro!: moves_checked_email moves_fail[OF email_evolves_refl])
qed

lemma email_sets_step:
  assumes "ed_state d = EmailSending"
  shows "email_step m d (fold email_assign (cancel_sets now) d)"
    and "email_step m d (fold email_assign (sent_sets now) d)"
    and "a < m \<Longrightarrow> email_step m d (fold email_assign (retry_sets opts now a) d)"
    and "m \<le> wrap32 (ed_attempts (fst claim) + 1) \<Longrightarrow>
         email_step m d (fold email_assign (dead_sets claim now ''delivery_exhausted'') d)"
  unfolding cancel_sets_def sent_sets_def retry_sets_def dead_sets_def fold_simps id_apply comp_apply email_assign.simps
  by (rule step_cancel[OF assms], rule step_sent[OF assms], rule step_retry[OF assms], assumption,
      rule step_dead[OF assms])

lemma email_updateClaim_moves:
  assumes "\<And>d. ed_state d = EmailSending \<Longrightarrow> email_step m d (fold email_assign updates d)"
  shows "moves (world_moves (email_evolves m)) (settle oc (email_updateClaim claim updates))"
  unfolding settle_def email_updateClaim_def
  by (intro moves_bind moves_in_tx moves_ret world_moves_trans world_moves_refl email_evolves_refl
      email_evolves_trans Email_UpdateClaim_moves assms) (simp_all add: email_evolves_def)

lemma deliver_claim_moves:
  "moves (world_moves (email_evolves (wrap32 (eo_max_attempts opts)))) (deliver_claim opts sender claim)"
proof -
  let ?R = "email_evolves (wrap32 (eo_max_attempts opts))"
  note facts = moves_bind moves_ret world_moves_trans world_moves_refl email_evolves_refl email_evolves_trans
    moves_clock_now
  have send: "moves (world_moves ?R) (sendVerificationEmail sender p e code)" for p e code
    by (cases p) (simp_all add: sendVerificationEmail_def moves_ext_call email_evolves_refl)
  have refresh: "moves (world_moves ?R) (in_tx (RefreshClaim claim now))" for now
    by (rule moves_in_tx[OF email_evolves_refl email_evolves_trans RefreshClaim_moves])
      (simp add: email_evolves_def)
  have current: "moves (world_moves ?R) (deliver_current opts sender now c)" for now c
    unfolding deliver_current_def email_deadLetter_def Let_def
    by (auto intro!: facts send email_updateClaim_moves email_sets_step)
  show ?thesis
    unfolding deliver_claim_def
    by (auto intro!: facts refresh current split: option.split)
qed

lemma deliver_claims_moves:
  "moves (world_moves (email_evolves (wrap32 (eo_max_attempts opts)))) (deliver_claims opts sender claims result)"
  by (induction claims arbitrary: result)
    (auto intro!: moves_bind moves_map_err moves_ret world_moves_trans world_moves_refl email_evolves_refl
      email_evolves_trans deliver_claim_moves)

lemma Email_RunBatch_moves:
  "moves (world_moves (email_evolves (wrap32 (eo_max_attempts opts)))) (Email_RunBatch opts sender locked random)"
proof -
  let ?R = "email_evolves (wrap32 (eo_max_attempts opts))"
  have claim: "moves (world_moves ?R) (in_tx (seq (ClearInvalidCodes locked now n)
      (Email_ClaimDue locked now until tok limit)))" for now n until tok limit
    unfolding seq_def
    by (intro moves_in_tx moves_bind email_evolves_refl email_evolves_trans ClearInvalidCodes_moves Email_ClaimDue_moves)
      (simp add: email_evolves_def)
  show ?thesis
    unfolding Email_RunBatch_def
    by (intro moves_bind moves_map_err moves_lift_result moves_clock_now world_moves_trans world_moves_refl
        email_evolves_refl email_evolves_trans deliver_claims_moves claim)
qed

text \<open>
  C11: a batch of the worker refines the life cycle of the outbox rows.  If the commits of other
  sessions do, then so does the batch, also when it stops with an error or loses the reply of
  a commit: no row disappears; each row has only made steps of the machine, so its addressee,
  purpose and code digest never change and its code is at most erased; a row that was sent,
  canceled or dead-lettered keeps every column except that its code may be erased; and a row
  within the budget of recorded failures stays within it or ends as a dead letter.
\<close>

theorem Email_RunBatch_refines_lifecycle:
  fixes w :: "email_call world" and opts :: email_opts
  defines "m \<equiv> wrap32 (eo_max_attempts opts)"
  assumes env: "\<And>n d. email_evolves m d (w_env w n d)"
    and ids: "distinct (map ed_id (email_deliveries (w_db w)))"
    and d: "d \<in> set (email_deliveries (w_db w))"
  shows "\<exists>d'\<in>set (email_deliveries (w_db (snd (Email_RunBatch opts sender locked random w)))).
      (email_step m)\<^sup>*\<^sup>* d d' \<and> ed_id d' = ed_id d \<and> ed_email d' = ed_email d \<and>
      ed_purpose d' = ed_purpose d \<and> ed_code_digest d' = ed_code_digest d \<and>
      (ed_code d' = ed_code d \<or> ed_code d' = None) \<and>
      (email_terminal (ed_state d) \<longrightarrow> d' = d \<or> d' = d\<lparr>ed_code := None\<rparr>) \<and>
      (ed_attempts d < m \<longrightarrow> ed_attempts d' < m \<or> ed_state d' = EmailDeadLetter)"
proof -
  have "email_evolves m (w_db w) (w_db (snd (Email_RunBatch opts sender locked random w)))"
    using Email_RunBatch_moves[of opts sender locked random] env by (simp add: m_def moves_def world_moves_def)
  then obtain d' where "d' \<in> set (email_deliveries (w_db (snd (Email_RunBatch opts sender locked random w))))"
    "(email_step m)\<^sup>*\<^sup>* d d'" using ids d by (auto simp: email_evolves_def)
  then show ?thesis
    using email_steps_identity email_steps_terminal email_steps_budget by blast
qed

subsection \<open>Concrete runs\<close>

text \<open>One usable registration code, waiting in the outbox; the first call of the provider fails, the others succeed.\<close>

definition sample_delivery :: "row_id \<Rightarrow> email_delivery" where
  "sample_delivery i = \<lparr>ed_id = i, ed_challenge_id = 1, ed_email = ''a@b.cn'', ed_purpose = PurposeRegistration,
     ed_code_digest = replicate 64 (CHR ''0''), ed_code = Some ''123456'', ed_state = EmailPending,
     ed_attempts = 0, ed_next_attempt_at = Some (int i), ed_lease_token = None, ed_lease_until = None,
     ed_last_error_code = None, ed_sent_at = None, ed_canceled_at = None, ed_dead_lettered_at = None,
     ed_created_at = 0, ed_updated_at = 0\<rparr>"

definition sample_code :: verification_code where
  "sample_code = \<lparr>vc_id = 1, vc_email = ''a@b.cn'', vc_purpose = PurposeRegistration,
     vc_digest = replicate 64 (CHR ''0''), vc_expires_at = 1000, vc_last_sent_at = Some 0,
     vc_window_started_at = 0, vc_send_count = 1, vc_failed_attempts = 0, vc_consumed_at = None,
     vc_created_at = 0, vc_updated_at = 0\<rparr>"

definition sample_db :: db where
  "sample_db = empty_db\<lparr>email_deliveries := [sample_delivery 1, sample_delivery 2], codes := [sample_code]\<rparr>"

definition sample_world :: "email_call world" where
  "sample_world = \<lparr>w_db = sample_db, w_env = (\<lambda>_ d. d), w_txs = 0, w_tx_fault = (\<lambda>_. False),
     w_tx_lost = (\<lambda>_. False), w_clock = int, w_ticks = 10, w_log = []\<rparr>"

definition sample_sender :: email_sender where
  "sample_sender = \<lparr>send_registration = (\<lambda>n _ _. if n = 0 then Some (PlainErr ''smtp'') else None),
     send_password_reset = (\<lambda>_ _ _. None)\<rparr>"

definition sample_opts :: email_opts where
  "sample_opts = NewVerificationEmailDeliveryWorker
     \<lparr>eo_batch_size = 0, eo_lease = 0, eo_timeout = 0, eo_max_attempts = 0, eo_retry_delay = 0\<rparr>"

lemmas sample_email_defs = sample_delivery_def sample_code_def sample_db_def sample_world_def
  sample_sender_def sample_opts_def empty_db_def

abbreviation "sample_token \<equiv> ''0123456789abcdef''"

theorem Email_ClaimDue_exclusive_witness:
  "let (r, s') = Email_ClaimDue (\<lambda>_. False) 10 100 sample_token 1 sample_db;
       (r2, s2) = Email_ClaimDue (\<lambda>_. False) 50 200 ''fedcba9876543210'' 2 s'
   in \<not> isl r \<and> \<not> isl r2 \<and> map (ed_id \<circ> fst) (projr r) = [1] \<and> map (ed_id \<circ> fst) (projr r2) = [2] \<and>
      set (map (ed_id \<circ> fst) (projr r)) \<inter> set (map (ed_id \<circ> fst) (projr r2)) = {}"
proof -
  let ?run = "Email_ClaimDue (\<lambda>_. False) 10 100 sample_token 1 sample_db"
  let ?run2 = "Email_ClaimDue (\<lambda>_. False) 50 200 ''fedcba9876543210'' 2 (snd ?run)"
  have ok: "\<not> isl (fst ?run)" by code_simp
  have ok2: "\<not> isl (fst ?run2)" by code_simp
  have ids: "map (ed_id \<circ> fst) (projr (fst ?run)) = [1]" by code_simp
  have ids2: "map (ed_id \<circ> fst) (projr (fst ?run2)) = [2]" by code_simp
  have d: "distinct (map ed_id (email_deliveries sample_db))" and live: "(50::int) < 100" by code_simp+
  have "set (map (ed_id \<circ> fst) (projr (fst ?run))) \<inter> set (map (ed_id \<circ> fst) (projr (fst ?run2))) = {}"
    using Email_ClaimDue_exclusive[OF act_ok[OF ok] d] act_ok[OF ok2] live by blast
  then show ?thesis unfolding Let_def case_prod_beta by (intro conjI ok ok2 ids ids2)
qed

theorem deliver_claim_sends_only_usable_codes_witness:
  "let claim = (email_grant sample_token 10 100 (sample_delivery 1), []);
       w = sample_world\<lparr>w_db := sample_db\<lparr>email_deliveries := [fst claim]\<rparr>\<rparr>;
       w' = snd (deliver_claim sample_opts sample_sender claim w)
   in w_log w' = [SendRegistrationCode ''a@b.cn'' ''123456''] \<and> w_log w' \<noteq> w_log w \<and>
      (\<exists>d code. may_mail (w_env w (w_txs w) (w_db w)) (w_clock w (w_ticks w)) claim d \<and>
         ed_code d = Some code \<and> w_log w' = w_log w @ [mail_for d code])"
proof -
  let ?claim = "(email_grant sample_token 10 100 (sample_delivery 1), []) :: email_claim"
  let ?w = "sample_world\<lparr>w_db := sample_db\<lparr>email_deliveries := [fst ?claim]\<rparr>\<rparr>"
  have sent: "w_log (snd (deliver_claim sample_opts sample_sender ?claim ?w)) =
      [SendRegistrationCode ''a@b.cn'' ''123456'']"
    and before: "w_log ?w = []" by code_simp+
  then have "w_log (snd (deliver_claim sample_opts sample_sender ?claim ?w)) \<noteq> w_log ?w" by simp
  from deliver_claim_sends_only_usable_codes[OF surjective_pairing this] this sent
  show ?thesis unfolding Let_def by blast
qed

lemma sample_opts_ok: "opts_ok sample_opts"
  by code_simp

lemma sample_world_inv: "world_inv email_inv sample_world"
  unfolding world_inv_def
proof
  show "\<forall>n d. email_inv d \<longrightarrow> email_inv (w_env sample_world n d)" by (simp add: sample_world_def)
  show "email_inv (w_db sample_world)" by code_simp
qed

abbreviation sample_random :: "go_error + byte list" where
  "sample_random \<equiv> Inr (replicate 24 0)"

theorem Email_RunBatch_respects_constraints_witness:
  "let run = Email_RunBatch sample_opts sample_sender (\<lambda>_. False) sample_random sample_world
   in world_inv email_inv (snd run) \<and> \<not> isl (fst run) \<and>
      er_claimed (projr (fst run)) = 2 \<and> er_sent (projr (fst run)) = 1 \<and> er_rescheduled (projr (fst run)) = 1"
proof -
  let ?run = "Email_RunBatch sample_opts sample_sender (\<lambda>_. False) sample_random sample_world"
  have "world_inv email_inv (snd ?run)"
    using Email_RunBatch_respects_constraints[OF sample_world_inv sample_opts_ok, of sample_random] by simp
  moreover have "map_sum (\<lambda>_. ()) (\<lambda>r. (er_claimed r, er_sent r, er_rescheduled r)) (fst ?run) = Inr (2, 1, 1)"
    by code_simp
  ultimately show ?thesis by (cases "fst ?run") (simp_all add: Let_def)
qed

theorem Email_RunBatch_refines_lifecycle_witness:
  "\<exists>d'\<in>set (email_deliveries (w_db (snd (Email_RunBatch sample_opts sample_sender (\<lambda>_. False) sample_random sample_world)))).
     ed_id d' = 1 \<and> (email_step (wrap32 (eo_max_attempts sample_opts)))\<^sup>*\<^sup>* (sample_delivery 1) d'"
proof -
  have d: "distinct (map ed_id (email_deliveries (w_db sample_world)))" by code_simp
  have m: "sample_delivery 1 \<in> set (email_deliveries (w_db sample_world))" "ed_id (sample_delivery 1) = 1"
    by (simp_all add: sample_email_defs)
  have env: "email_evolves k e (w_env sample_world n e)" for k e n
    using email_evolves_refl by (simp add: sample_world_def reflp_def)
  show ?thesis
    using Email_RunBatch_refines_lifecycle[where w = sample_world and opts = sample_opts, OF env d m(1)] m(2)
    by metis
qed

end
