(* ===== verification/Image_Access.thy ===== *)
theory Image_Access
  imports Lease_Queue Backoff Go_Encoding
begin

section \<open>The image access outbox\<close>

text \<open>
  Models \<open>internal/repository/image_access.go\<close>, \<open>internal/service/image_access_worker.go\<close>,
  \<open>internal/service/image_access_controller.go\<close>, the purge task types of
  \<open>internal/service/moderation_ports.go\<close>, and the constraints of
  \<open>migrations/00012_image_access_outbox.sql\<close>.

  Every review result of an image asks for the object to be public or private.  The request is
  recorded once per review record (\<open>access_intents\<close>) and projected onto the image's delivery
  row, whose generation grows with each new request.  A worker leases due rows, sets the object's
  access, submits a cache purge, and polls it to its end; every write is fenced by image,
  generation and lease token.

  \<open>RunBatch\<close> processes its claims in concurrent goroutines.  Each claim is processed here by
  \<open>processClaim\<close> against an environment that may commit anything between two of its
  transactions; the batch collects the outcomes in the order of the claims.
\<close>

subsection \<open>The table\<close>

definition access_terminal :: "ImageAccessOutboxState \<Rightarrow> bool" where
  "access_terminal st \<longleftrightarrow> st = ImageAccessSucceeded \<or> st = ImageAccessDeadLetter"

definition access_error_codes :: "string list" where
  "access_error_codes =
    [''acl_retryable'', ''acl_exhausted'', ''submit_retryable'', ''submit_unknown'', ''submit_permanent'',
     ''submit_exhausted'', ''discover_retryable'', ''discover_permanent'', ''discover_exhausted'',
     ''poll_retryable'', ''poll_permanent'', ''provider_failed'', ''provider_timeout'',
     ''provider_canceled'', ''provider_pending_timeout'', ''poll_exhausted'']"

definition access_code_ok :: "string \<Rightarrow> bool" where
  "access_code_ok code = List.member access_error_codes code"

definition access_check :: "access_delivery \<Rightarrow> bool" where
  "access_check d \<longleftrightarrow>
     0 < ad_generation d \<and> 0 \<le> ad_acl_attempts d \<and> 0 \<le> ad_submit_attempts d \<and>
     0 \<le> ad_poll_attempts d \<and> 0 \<le> ad_unknown_checks d \<and>
     (ad_lease_token d = None) = (ad_lease_until d = None) \<and>
     (case ad_lease_token d of None \<Rightarrow> True | Some tok \<Rightarrow> 16 \<le> length tok \<and> length tok \<le> 64) \<and>
     (case ad_provider_job_id d of None \<Rightarrow> True | Some j \<Rightarrow> 1 \<le> length j \<and> length j \<le> 128) \<and>
     (case ad_last_error_code d of None \<Rightarrow> True | Some e \<Rightarrow> access_code_ok e) \<and>
     (ad_state d = ImageAccessSubmitting \<longrightarrow> ad_submission_started_at d \<noteq> None) \<and>
     (ad_state d = ImageAccessSubmitted \<longrightarrow> ad_provider_job_id d \<noteq> None \<and> ad_submission_started_at d \<noteq> None) \<and>
     (ad_state d = ImageAccessSucceeded \<longrightarrow> ad_completed_at d \<noteq> None) \<and>
     (ad_state d = ImageAccessDeadLetter \<longrightarrow> ad_dead_lettered_at d \<noteq> None) \<and>
     (ad_purge_required d \<or> ad_state d = ImageAccessPendingACL \<or> access_terminal (ad_state d)) \<and>
     access_terminal (ad_state d) = (ad_next_attempt_at d = None)"

definition access_table_ok :: "db \<Rightarrow> bool" where
  "access_table_ok s \<longleftrightarrow> list_all access_check (access_deliveries s)"

subsection \<open>The repository\<close>

text \<open>The trigger on \<open>image_access_intents\<close>: the request must match the verdict of its review record.\<close>

definition intent_valid :: "db \<Rightarrow> row_id \<Rightarrow> row_id \<Rightarrow> bool \<Rightarrow> bool" where
  "intent_valid s img source desiredPublic \<longleftrightarrow>
     (\<exists>r\<in>set (moderation_records s). mr_id r = source \<and> mr_image_id r = Some img \<and>
        desiredPublic = (mr_verdict r = VerdictPass))"

definition new_delivery :: "row_id \<Rightarrow> row_id \<Rightarrow> bool \<Rightarrow> bool \<Rightarrow> time \<Rightarrow> access_delivery" where
  "new_delivery img intent desiredPublic purgeRequired now =
     \<lparr>ad_image_id = img, ad_intent_id = intent, ad_desired_public = desiredPublic,
      ad_purge_required = purgeRequired, ad_generation = 1, ad_state = ImageAccessPendingACL,
      ad_acl_attempts = 0, ad_submit_attempts = 0, ad_poll_attempts = 0, ad_unknown_checks = 0,
      ad_provider_job_id = None, ad_submission_started_at = None, ad_next_attempt_at = Some now,
      ad_lease_token = None, ad_lease_until = None, ad_last_error_code = None, ad_completed_at = None,
      ad_dead_lettered_at = None, ad_created_at = now, ad_updated_at = now\<rparr>"

text \<open>The \<open>ON CONFLICT (image_asset_id) DO UPDATE\<close> branch: the lease is not touched.\<close>

definition renew_delivery ::
  "row_id \<Rightarrow> bool \<Rightarrow> bool \<Rightarrow> time \<Rightarrow> access_delivery \<Rightarrow> access_delivery" where
  "renew_delivery intent desiredPublic purgeRequired now d = d\<lparr>
      ad_intent_id := intent, ad_desired_public := desiredPublic, ad_purge_required := purgeRequired,
      ad_generation := ad_generation d + 1, ad_state := ImageAccessPendingACL, ad_acl_attempts := 0,
      ad_submit_attempts := 0, ad_poll_attempts := 0, ad_unknown_checks := 0,
      ad_provider_job_id := None, ad_submission_started_at := None, ad_next_attempt_at := Some now,
      ad_last_error_code := None, ad_completed_at := None, ad_dead_lettered_at := None,
      ad_updated_at := now\<rparr>"

definition Access_Enqueue ::
  "row_id \<Rightarrow> row_id \<Rightarrow> bool \<Rightarrow> bool \<Rightarrow> time \<Rightarrow> (db, repo_error, bool) act" where
  "Access_Enqueue img source desiredPublic purgeRequired now = stmt (\<lambda>s.
     if \<exists>i\<in>set (access_intents s). ai_source_record_id i = source then (Inr False, s)
     else if \<not> intent_valid s img source desiredPublic then (Inl (CheckViolation ''image_access_intents''), s)
     else
       let intent = next_id ai_id (access_intents s);
           deliveries = access_deliveries s;
           s' = s\<lparr>access_intents := access_intents s @
                   [\<lparr>ai_id = intent, ai_image_id = img, ai_source_record_id = source,
                     ai_desired_public = desiredPublic, ai_created_at = now\<rparr>],
                  access_deliveries :=
                    (if \<exists>d\<in>set deliveries. ad_image_id d = img
                     then upd_where (\<lambda>d. ad_image_id d = img)
                            (renew_delivery intent desiredPublic purgeRequired now) deliveries
                     else deliveries @ [new_delivery img intent desiredPublic purgeRequired now])\<rparr>
       in if access_table_ok s' then (Inr True, s') else (Inl (CheckViolation ''image_access_deliveries''), s))"

definition access_key :: "access_delivery \<Rightarrow> time \<times> row_id" where
  "access_key d = (case ad_next_attempt_at d of None \<Rightarrow> 0 | Some t \<Rightarrow> t, ad_image_id d)"

definition access_due :: "time \<Rightarrow> access_delivery \<Rightarrow> bool" where
  "access_due now d \<longleftrightarrow> \<not> access_terminal (ad_state d) \<and>
     (case ad_next_attempt_at d of None \<Rightarrow> False | Some t \<Rightarrow> t \<le> now) \<and>
     (case ad_lease_until d of None \<Rightarrow> True | Some u \<Rightarrow> u \<le> now)"

definition access_grant :: "string \<Rightarrow> time \<Rightarrow> time \<Rightarrow> access_delivery \<Rightarrow> access_delivery" where
  "access_grant token now until d =
     d\<lparr>ad_lease_token := Some token, ad_lease_until := Some until, ad_updated_at := now\<rparr>"

record access_claim =
  cl_row :: access_delivery
  cl_object_key :: string
  cl_public_url :: string

definition with_asset :: "db \<Rightarrow> access_delivery \<Rightarrow> access_claim option" where
  "with_asset s d = map_option
     (\<lambda>a. \<lparr>cl_row = d, cl_object_key = img_object_key a, cl_public_url = img_public_url a\<rparr>)
     (find (\<lambda>a. img_id a = ad_image_id d) (images s))"

definition Access_ClaimDue ::
  "(row_id \<Rightarrow> bool) \<Rightarrow> time \<Rightarrow> time \<Rightarrow> string \<Rightarrow> int \<Rightarrow> (db, repo_error, access_claim list) act" where
  "Access_ClaimDue locked now leaseUntil leaseToken limit =
     (if limit \<le> 0 \<or> limit > 1000 then fail (RepoPlain ''claim limit must be between 1 and 1000'')
      else checked ''image_access_deliveries'' access_table_ok (\<lambda>s.
        case claim_due access_key ad_image_id access_due access_grant locked now leaseUntil leaseToken
               (nat limit) (access_deliveries s) of
          (claimed, t) \<Rightarrow> (List.map_filter (with_asset s) claimed, s\<lparr>access_deliveries := t\<rparr>)))"

datatype access_set =
    SetAdState ImageAccessOutboxState
  | SetAdAcl int
  | SetAdSubmit int
  | SetAdPoll int
  | SetAdUnknown int
  | SetAdJob "string option"
  | SetAdStarted "time option"
  | SetAdNext "time option"
  | SetAdLeaseToken "string option"
  | SetAdLeaseUntil "time option"
  | SetAdError "string option"
  | SetAdCompleted "time option"
  | SetAdDeadAt "time option"
  | SetAdUpdated time

fun access_assign :: "access_set \<Rightarrow> access_delivery \<Rightarrow> access_delivery" where
  "access_assign (SetAdState v) d = d\<lparr>ad_state := v\<rparr>"
| "access_assign (SetAdAcl v) d = d\<lparr>ad_acl_attempts := v\<rparr>"
| "access_assign (SetAdSubmit v) d = d\<lparr>ad_submit_attempts := v\<rparr>"
| "access_assign (SetAdPoll v) d = d\<lparr>ad_poll_attempts := v\<rparr>"
| "access_assign (SetAdUnknown v) d = d\<lparr>ad_unknown_checks := v\<rparr>"
| "access_assign (SetAdJob v) d = d\<lparr>ad_provider_job_id := v\<rparr>"
| "access_assign (SetAdStarted v) d = d\<lparr>ad_submission_started_at := v\<rparr>"
| "access_assign (SetAdNext v) d = d\<lparr>ad_next_attempt_at := v\<rparr>"
| "access_assign (SetAdLeaseToken v) d = d\<lparr>ad_lease_token := v\<rparr>"
| "access_assign (SetAdLeaseUntil v) d = d\<lparr>ad_lease_until := v\<rparr>"
| "access_assign (SetAdError v) d = d\<lparr>ad_last_error_code := v\<rparr>"
| "access_assign (SetAdCompleted v) d = d\<lparr>ad_completed_at := v\<rparr>"
| "access_assign (SetAdDeadAt v) d = d\<lparr>ad_dead_lettered_at := v\<rparr>"
| "access_assign (SetAdUpdated v) d = d\<lparr>ad_updated_at := v\<rparr>"

definition access_fence :: "access_claim \<Rightarrow> access_delivery \<Rightarrow> bool" where
  "access_fence claim d \<longleftrightarrow> ad_image_id d = ad_image_id (cl_row claim) \<and>
     ad_generation d = ad_generation (cl_row claim) \<and>
     ad_lease_token d = Some (value_or_empty (ad_lease_token (cl_row claim)))"

definition Access_UpdateClaim :: "access_claim \<Rightarrow> access_set list \<Rightarrow> (db, repo_error, bool) act" where
  "Access_UpdateClaim claim updates =
     (if updates = [] then fail (RepoPlain ''claim update is empty'')
      else checked ''image_access_deliveries'' access_table_ok (\<lambda>s.
        case fenced_update (access_fence claim) (fold access_assign updates) (access_deliveries s) of
          (updated, t) \<Rightarrow> (updated, s\<lparr>access_deliveries := t\<rparr>)))"

definition ReleaseSuperseded :: "row_id \<Rightarrow> string \<Rightarrow> time \<Rightarrow> (db, repo_error, unit) act" where
  "ReleaseSuperseded img leaseToken now = checked ''image_access_deliveries'' access_table_ok (\<lambda>s.
     ((), s\<lparr>access_deliveries :=
             upd_where (\<lambda>d. ad_image_id d = img \<and> ad_lease_token d = Some leaseToken)
               (\<lambda>d. d\<lparr>ad_lease_token := None, ad_lease_until := None, ad_next_attempt_at := Some now,
                      ad_updated_at := now\<rparr>) (access_deliveries s)\<rparr>))"

definition CountByState :: "(db, repo_error, ImageAccessOutboxState \<Rightarrow> nat) act" where
  "CountByState = query (\<lambda>s st. count_where (\<lambda>d. ad_state d = st) (access_deliveries s))"

subsection \<open>The controller\<close>

record ImageAccessChange =
  iac_image_id :: row_id
  iac_source_record_id :: row_id
  iac_public :: bool
  iac_purge_required :: bool

definition Controller_Apply :: "ImageAccessChange \<Rightarrow> time \<Rightarrow> (db, repo_error, unit) act" where
  "Controller_Apply change now =
     (if iac_image_id change = 0 \<or> iac_source_record_id change = 0
      then fail (RepoPlain ''image access intent requires asset and moderation record'')
      else seq (Access_Enqueue (iac_image_id change) (iac_source_record_id change) (iac_public change)
                  (iac_purge_required change) now) (ret ()))"

subsection \<open>The purge provider and the object store\<close>

datatype ImageCachePurgeTaskState =
    PurgeProcessing | PurgeSuccess | PurgeFailed | PurgeTimeout | PurgeCanceled | PurgeProtocolUnknown
  | PurgeOther string

record ImageCachePurgeSubmission =
  ps_job_id :: string
  ps_partial :: bool

record ImageCachePurgeRecovery =
  pr_found :: bool
  pr_effect_succeeded :: bool
  pr_ambiguous :: bool
  pr_job_id :: string
  pr_state :: ImageCachePurgeTaskState

datatype ImageCachePurgeErrorKind = PurgeErrorUnknown | PurgeErrorRetryable | PurgeErrorPermanent

datatype purge_error = Classified ImageCachePurgeErrorKind | Unclassified

fun ClassifyImageCachePurgeError :: "purge_error \<Rightarrow> ImageCachePurgeErrorKind" where
  "ClassifyImageCachePurgeError (Classified kind) = kind"
| "ClassifyImageCachePurgeError Unclassified = PurgeErrorPermanent"

record access_services =
  set_public :: "nat \<Rightarrow> string \<Rightarrow> bool \<Rightarrow> go_error option"
  purge_submit :: "nat \<Rightarrow> string \<Rightarrow> purge_error + ImageCachePurgeSubmission"
  purge_recover :: "nat \<Rightarrow> string \<Rightarrow> time \<Rightarrow> time \<Rightarrow> purge_error + ImageCachePurgeRecovery"
  purge_describe :: "nat \<Rightarrow> string \<Rightarrow> string \<Rightarrow> purge_error + ImageCachePurgeTaskState"

datatype access_call =
    CallSetPublic string bool
  | CallSubmit string
  | CallRecover string time time
  | CallDescribe string string

subsection \<open>The worker\<close>

record access_opts =
  ao_batch_size :: int
  ao_lease :: duration
  ao_acl_timeout :: duration
  ao_unknown_grace :: duration
  ao_pending_timeout :: duration
  ao_max_acl :: int
  ao_max_submissions :: int
  ao_max_poll_failures :: int
  ao_max_unknown_checks :: int

definition withImageAccessWorkerDefaults :: "access_opts \<Rightarrow> access_opts" where
  "withImageAccessWorkerDefaults o' =
     \<lparr>ao_batch_size = (if ao_batch_size o' \<le> 0 \<or> ao_batch_size o' > 4 then 4 else ao_batch_size o'),
      ao_lease = (if ao_lease o' \<le> 0 then seconds 60 else ao_lease o'),
      ao_acl_timeout = (if ao_acl_timeout o' \<le> 0 then seconds 15 else ao_acl_timeout o'),
      ao_unknown_grace = (if ao_unknown_grace o' \<le> 0 then seconds 90 else ao_unknown_grace o'),
      ao_pending_timeout = (if ao_pending_timeout o' \<le> 0 then minutes 10 else ao_pending_timeout o'),
      ao_max_acl = (if ao_max_acl o' \<le> 0 then 8 else ao_max_acl o'),
      ao_max_submissions = (if ao_max_submissions o' \<le> 0 then 3 else ao_max_submissions o'),
      ao_max_poll_failures = (if ao_max_poll_failures o' \<le> 0 then 8 else ao_max_poll_failures o'),
      ao_max_unknown_checks = (if ao_max_unknown_checks o' \<le> 0 then 12 else ao_max_unknown_checks o')\<rparr>"

datatype imageAccessOutcome =
  ImageAccessRescheduledOutcome | ImageAccessSucceededOutcome | ImageAccessDeadOutcome
  | ImageAccessSupersededOutcome

text \<open>Functions that return an outcome beside an error: the error carries both.\<close>

type_synonym access_err = "imageAccessOutcome \<times> go_error"
type_synonym 'a access_act = "(access_call world, access_err, 'a) act"

definition access_update :: "access_claim \<Rightarrow> access_set list \<Rightarrow> bool access_act" where
  "access_update claim updates =
     map_err (\<lambda>e. (ImageAccessRescheduledOutcome, e)) (in_tx (Access_UpdateClaim claim updates))"

text \<open>
  \<open>updateOutcome\<close> after an update that did not apply.  The clock is read as the first thing
  inside the releasing transaction.  A failed release returns its error, with the same outcome.
\<close>

definition updateOutcome :: "access_claim \<Rightarrow> bool \<Rightarrow> imageAccessOutcome access_act" where
  "updateOutcome claim updated =
     (if updated then ret ImageAccessRescheduledOutcome
      else bind clock_now (\<lambda>now.
        seq (map_err (\<lambda>e. (ImageAccessSupersededOutcome, e))
              (in_tx (ReleaseSuperseded (ad_image_id (cl_row claim))
                 (value_or_empty (ad_lease_token (cl_row claim))) now)))
            (ret ImageAccessSupersededOutcome)))"

definition update_then ::
  "access_claim \<Rightarrow> access_set list \<Rightarrow> imageAccessOutcome access_act \<Rightarrow> imageAccessOutcome access_act" where
  "update_then claim updates k =
     bind (access_update claim updates) (\<lambda>updated. if updated then k else updateOutcome claim False)"

definition schedule_sets ::
  "ImageAccessOutboxState \<Rightarrow> time \<Rightarrow> string option \<Rightarrow> time \<Rightarrow> access_set list \<Rightarrow> access_set list" where
  "schedule_sets st next errorCode now extra =
     [SetAdState st, SetAdNext (Some next), SetAdLeaseToken None, SetAdLeaseUntil None,
      SetAdError errorCode, SetAdUpdated now] @ extra"

definition schedule ::
  "access_claim \<Rightarrow> ImageAccessOutboxState \<Rightarrow> time \<Rightarrow> string option \<Rightarrow> access_set list \<Rightarrow>
   imageAccessOutcome access_act" where
  "schedule claim st next errorCode extra = bind clock_now (\<lambda>now.
     update_then claim (schedule_sets st next errorCode now extra) (ret ImageAccessRescheduledOutcome))"

definition succeed_sets :: "time \<Rightarrow> access_set list" where
  "succeed_sets now = [SetAdState ImageAccessSucceeded, SetAdNext None, SetAdLeaseToken None,
     SetAdLeaseUntil None, SetAdError None, SetAdCompleted (Some now), SetAdDeadAt None, SetAdUpdated now]"

definition succeed :: "access_claim \<Rightarrow> imageAccessOutcome access_act" where
  "succeed claim = bind clock_now (\<lambda>now.
     update_then claim (succeed_sets now) (ret ImageAccessSucceededOutcome))"

definition access_dead_sets :: "string \<Rightarrow> time \<Rightarrow> access_set list" where
  "access_dead_sets code now = [SetAdState ImageAccessDeadLetter, SetAdNext None, SetAdLeaseToken None,
     SetAdLeaseUntil None, SetAdError (Some code), SetAdCompleted None, SetAdDeadAt (Some now),
     SetAdUpdated now]"

definition dead :: "access_claim \<Rightarrow> string \<Rightarrow> imageAccessOutcome access_act" where
  "dead claim code = bind clock_now (\<lambda>now.
     update_then claim (access_dead_sets code now) (ret ImageAccessDeadOutcome))"

definition providerStateCode :: "ImageCachePurgeTaskState \<Rightarrow> string" where
  "providerStateCode st = (case st of PurgeTimeout \<Rightarrow> ''provider_timeout''
     | PurgeCanceled \<Rightarrow> ''provider_canceled'' | _ \<Rightarrow> ''provider_failed'')"

definition terminalPurgeState :: "ImageCachePurgeTaskState \<Rightarrow> bool" where
  "terminalPurgeState st \<longleftrightarrow> st = PurgeFailed \<or> st = PurgeTimeout \<or> st = PurgeCanceled"

definition retrySubmission :: "access_opts \<Rightarrow> access_claim \<Rightarrow> string \<Rightarrow> imageAccessOutcome access_act" where
  "retrySubmission opts claim code =
     (if ad_submit_attempts (cl_row claim) \<ge> ao_max_submissions opts then dead claim ''submit_exhausted''
      else bind clock_now (\<lambda>now.
        schedule claim ImageAccessPendingSubmit
          (now + retryBackoff (ad_submit_attempts (cl_row claim)) (seconds 10) (minutes 5)) (Some code)
          [SetAdJob None, SetAdStarted None, SetAdPoll 0, SetAdUnknown 0]))"

definition scheduleUnknown :: "access_opts \<Rightarrow> access_claim \<Rightarrow> string \<Rightarrow> imageAccessOutcome access_act" where
  "scheduleUnknown opts claim code =
     (let checks = ad_unknown_checks (cl_row claim) + 1
      in if checks \<ge> ao_max_unknown_checks opts then dead claim ''discover_exhausted''
         else bind clock_now (\<lambda>now.
           schedule claim ImageAccessSubmitting (now + retryBackoff checks (seconds 5) (seconds 15)) (Some code)
             [SetAdUnknown checks]))"

definition submitting_sets :: "access_claim \<Rightarrow> time \<Rightarrow> access_set list" where
  "submitting_sets claim startedAt =
     [SetAdState ImageAccessSubmitting, SetAdSubmit (ad_submit_attempts (cl_row claim) + 1),
      SetAdStarted (Some startedAt), SetAdNext (Some (startedAt + seconds 5)), SetAdError None,
      SetAdUpdated startedAt]"

text \<open>\<open>submit\<close> after the provider answered; \<open>claim\<close> carries the in-memory changes already.\<close>

definition submit_answer ::
  "access_claim \<Rightarrow> purge_error + ImageCachePurgeSubmission \<Rightarrow> imageAccessOutcome access_act" where
  "submit_answer claim answer = (case answer of
      Inl err \<Rightarrow>
        (let kind = ClassifyImageCachePurgeError err
         in if kind = PurgeErrorPermanent then dead claim ''submit_permanent''
            else bind clock_now (\<lambda>now. schedule claim ImageAccessSubmitting (now + seconds 5)
              (Some (if kind = PurgeErrorRetryable then ''submit_retryable'' else ''submit_unknown'')) []))
    | Inr submission \<Rightarrow>
        (if ps_job_id submission = []
         then bind clock_now (\<lambda>now. schedule claim ImageAccessSubmitting (now + seconds 5)
                (Some ''submit_unknown'') [])
         else bind clock_now (\<lambda>now. schedule claim ImageAccessSubmitted (now + seconds 2)
                (if ps_partial submission then Some ''provider_failed'' else None)
                [SetAdJob (Some (ps_job_id submission))])))"

definition submit :: "access_opts \<Rightarrow> access_services \<Rightarrow> access_claim \<Rightarrow> imageAccessOutcome access_act" where
  "submit opts svc claim =
     (if ad_submit_attempts (cl_row claim) \<ge> ao_max_submissions opts then dead claim ''submit_exhausted''
      else bind clock_now (\<lambda>startedAt.
        update_then claim (submitting_sets claim startedAt)
          (let claim' = claim\<lparr>cl_row := (cl_row claim)\<lparr>ad_state := ImageAccessSubmitting,
                 ad_submit_attempts := ad_submit_attempts (cl_row claim) + 1,
                 ad_submission_started_at := Some startedAt\<rparr>\<rparr>
           in bind (ext_call (CallSubmit (cl_public_url claim)) (\<lambda>n. purge_submit svc n (cl_public_url claim)))
                (submit_answer claim'))))"

definition applyACL :: "access_opts \<Rightarrow> access_services \<Rightarrow> access_claim \<Rightarrow> imageAccessOutcome access_act" where
  "applyACL opts svc claim =
     (let r = cl_row claim
      in bind (ext_call (CallSetPublic (cl_object_key claim) (ad_desired_public r))
                (\<lambda>n. set_public svc n (cl_object_key claim) (ad_desired_public r))) (\<lambda>err.
         if err \<noteq> None
         then (let attempts = ad_acl_attempts r + 1
               in if attempts \<ge> ao_max_acl opts then dead claim ''acl_exhausted''
                  else bind clock_now (\<lambda>now. schedule claim ImageAccessPendingACL
                         (now + retryBackoff attempts (seconds 1) (minutes 5)) (Some ''acl_retryable'')
                         [SetAdAcl attempts]))
         else if \<not> ad_purge_required r then succeed claim
         else bind clock_now (\<lambda>nextAt. bind clock_now (\<lambda>updatedAt.
                update_then claim
                  [SetAdState ImageAccessPendingSubmit, SetAdNext (Some nextAt), SetAdError None,
                   SetAdUpdated updatedAt]
                  (submit opts svc (claim\<lparr>cl_row := r\<lparr>ad_state := ImageAccessPendingSubmit\<rparr>\<rparr>))))))"

definition recovered_job ::
  "access_opts \<Rightarrow> access_claim \<Rightarrow> ImageCachePurgeRecovery \<Rightarrow> imageAccessOutcome access_act" where
  "recovered_job opts claim recovery = (case pr_state recovery of
      PurgeSuccess \<Rightarrow> succeed claim
    | PurgeFailed \<Rightarrow> retrySubmission opts claim (providerStateCode (pr_state recovery))
    | PurgeTimeout \<Rightarrow> retrySubmission opts claim (providerStateCode (pr_state recovery))
    | PurgeCanceled \<Rightarrow> retrySubmission opts claim (providerStateCode (pr_state recovery))
    | _ \<Rightarrow> bind clock_now (\<lambda>now. schedule claim ImageAccessSubmitted (now + seconds 2) None
             [SetAdJob (Some (pr_job_id recovery))]))"

definition recover_answer ::
  "access_opts \<Rightarrow> access_claim \<Rightarrow> time \<Rightarrow> ImageCachePurgeRecovery \<Rightarrow> imageAccessOutcome access_act" where
  "recover_answer opts claim startedAt recovery =
     (if pr_effect_succeeded recovery then succeed claim
      else if pr_found recovery \<and> pr_job_id recovery \<noteq> [] then recovered_job opts claim recovery
      else bind clock_now (\<lambda>now.
        let age = now - startedAt
        in if pr_found recovery \<and> terminalPurgeState (pr_state recovery)
           then retrySubmission opts claim (providerStateCode (pr_state recovery))
           else if pr_ambiguous recovery \<and> age < ao_unknown_grace opts
           then scheduleUnknown opts claim ''discover_retryable''
           else if age \<ge> ao_unknown_grace opts
           then (if value_or_empty (ad_last_error_code (cl_row claim)) = ''submit_retryable'' \<and>
                    ad_submit_attempts (cl_row claim) < ao_max_submissions opts \<and> \<not> pr_ambiguous recovery
                 then retrySubmission opts claim ''submit_retryable''
                 else dead claim ''discover_exhausted'')
           else scheduleUnknown opts claim ''submit_unknown''))"

definition recoverSubmission ::
  "access_opts \<Rightarrow> access_services \<Rightarrow> access_claim \<Rightarrow> imageAccessOutcome access_act" where
  "recoverSubmission opts svc claim = (case ad_submission_started_at (cl_row claim) of
      None \<Rightarrow> dead claim ''discover_permanent''
    | Some startedAt \<Rightarrow>
        bind clock_now (\<lambda>endedAt.
        bind (ext_call (CallRecover (cl_public_url claim) startedAt endedAt)
                (\<lambda>n. purge_recover svc n (cl_public_url claim) startedAt endedAt)) (\<lambda>answer.
        case answer of
          Inl err \<Rightarrow> (if ClassifyImageCachePurgeError err = PurgeErrorPermanent
                      then dead claim ''discover_permanent''
                      else scheduleUnknown opts claim ''discover_retryable'')
        | Inr recovery \<Rightarrow> recover_answer opts claim startedAt recovery)))"

definition poll_answer ::
  "access_opts \<Rightarrow> access_claim \<Rightarrow> time \<Rightarrow> purge_error + ImageCachePurgeTaskState \<Rightarrow>
   imageAccessOutcome access_act" where
  "poll_answer opts claim startedAt answer =
     (let attempts = ad_poll_attempts (cl_row claim) + 1 in
      case answer of
        Inl err \<Rightarrow>
          (if ClassifyImageCachePurgeError err = PurgeErrorPermanent then dead claim ''poll_permanent''
           else if attempts \<ge> ao_max_poll_failures opts then dead claim ''poll_exhausted''
           else bind clock_now (\<lambda>now. schedule claim ImageAccessSubmitted
                  (now + retryBackoff attempts (seconds 2) (seconds 30)) (Some ''poll_retryable'')
                  [SetAdPoll attempts]))
      | Inr st \<Rightarrow>
          (if st = PurgeSuccess then succeed claim
           else if terminalPurgeState st then retrySubmission opts claim (providerStateCode st)
           else if st = PurgeProcessing \<or> st = PurgeProtocolUnknown
           then bind clock_now (\<lambda>now.
                  if now - startedAt \<ge> ao_pending_timeout opts
                  then retrySubmission opts claim ''provider_pending_timeout''
                  else bind clock_now (\<lambda>now2. schedule claim ImageAccessSubmitted
                         (now2 + retryBackoff attempts (seconds 2) (seconds 30)) None [SetAdPoll attempts]))
           else dead claim ''poll_permanent''))"

definition poll :: "access_opts \<Rightarrow> access_services \<Rightarrow> access_claim \<Rightarrow> imageAccessOutcome access_act" where
  "poll opts svc claim =
     (case (ad_provider_job_id (cl_row claim), ad_submission_started_at (cl_row claim)) of
        (Some job, Some startedAt) \<Rightarrow>
          bind (ext_call (CallDescribe (cl_public_url claim) job)
                  (\<lambda>n. purge_describe svc n (cl_public_url claim) job))
            (poll_answer opts claim startedAt)
      | _ \<Rightarrow> dead claim ''poll_permanent'')"

definition processClaim ::
  "access_opts \<Rightarrow> access_services \<Rightarrow> access_claim \<Rightarrow> imageAccessOutcome access_act" where
  "processClaim opts svc claim = (case ad_state (cl_row claim) of
      ImageAccessPendingACL \<Rightarrow> applyACL opts svc claim
    | ImageAccessPendingSubmit \<Rightarrow> submit opts svc claim
    | ImageAccessSubmitting \<Rightarrow> recoverSubmission opts svc claim
    | ImageAccessSubmitted \<Rightarrow> poll opts svc claim
    | _ \<Rightarrow> dead claim ''poll_permanent'')"

record access_result =
  ar_claimed :: nat
  ar_succeeded :: nat
  ar_rescheduled :: nat
  ar_dead :: nat
  ar_superseded :: nat

fun access_tally :: "imageAccessOutcome \<Rightarrow> access_result \<Rightarrow> access_result" where
  "access_tally ImageAccessSucceededOutcome r = r\<lparr>ar_succeeded := Suc (ar_succeeded r)\<rparr>"
| "access_tally ImageAccessDeadOutcome r = r\<lparr>ar_dead := Suc (ar_dead r)\<rparr>"
| "access_tally ImageAccessSupersededOutcome r = r\<lparr>ar_superseded := Suc (ar_superseded r)\<rparr>"
| "access_tally ImageAccessRescheduledOutcome r = r\<lparr>ar_rescheduled := Suc (ar_rescheduled r)\<rparr>"

fun process_claims ::
  "access_opts \<Rightarrow> access_services \<Rightarrow> access_claim list \<Rightarrow> access_result \<Rightarrow> go_error list \<Rightarrow>
   (access_call world, go_error, access_result \<times> go_error list) act" where
  "process_claims opts svc [] result errs = ret (result, errs)"
| "process_claims opts svc (claim # rest) result errs =
     bind (attempt (processClaim opts svc claim)) (\<lambda>answer. case answer of
         Inl (outcome, err) \<Rightarrow> process_claims opts svc rest (access_tally outcome result) (errs @ [err])
       | Inr outcome \<Rightarrow> process_claims opts svc rest (access_tally outcome result) errs)"

definition newImageAccessLeaseToken :: "go_error + byte list \<Rightarrow> go_error + string" where
  "newImageAccessLeaseToken random = map_sum id hex_encode random"

text \<open>An error before the claims were handed out, or the counts with the joined errors.\<close>

definition Access_RunBatch ::
  "access_opts \<Rightarrow> access_services \<Rightarrow> (row_id \<Rightarrow> bool) \<Rightarrow> go_error + byte list \<Rightarrow>
   (access_call world, go_error, access_result \<times> go_error list) act" where
  "Access_RunBatch opts svc locked random =
     bind clock_now (\<lambda>now. bind (lift_result (newImageAccessLeaseToken random)) (\<lambda>token.
     bind (in_tx (Access_ClaimDue locked now (now + ao_lease opts) token (ao_batch_size opts))) (\<lambda>claims.
       process_claims opts svc claims
         \<lparr>ar_claimed = length claims, ar_succeeded = 0, ar_rescheduled = 0, ar_dead = 0, ar_superseded = 0\<rparr> [])))"

subsection \<open>Claims and generations\<close>

interpretation access_q: lease_queue access_key ad_image_id access_due access_grant ad_lease_token ad_lease_until
  by unfold_locales (auto simp: access_grant_def access_key_def access_due_def)

lemma access_assign_id [simp]: "ad_image_id (fold access_assign us d) = ad_image_id d"
proof (induction us arbitrary: d)
  case (Cons u us)
  have "ad_image_id (access_assign u d) = ad_image_id d" by (cases u) simp_all
  with Cons show ?case by simp
qed simp

lemma access_fence_id: "access_fence claim d \<Longrightarrow> ad_image_id d = ad_image_id (cl_row claim)"
  by (simp add: access_fence_def)

subsection \<open>Ownership of a claimed row\<close>

text \<open>
  What a worker may rely on.  The row it claimed, identified by image, generation and token, is
  \<open>r\<close> as long as it matches; other sessions never change such a row (a new request changes its
  generation), and they keep the table's constraints.
\<close>

definition access_row_ok :: "access_delivery \<Rightarrow> bool" where
  "access_row_ok d \<longleftrightarrow> access_check d \<and> (access_terminal (ad_state d) \<longrightarrow> ad_lease_token d = None)"

definition access_inv :: "db \<Rightarrow> bool" where
  "access_inv s \<longleftrightarrow> distinct (map ad_image_id (access_deliveries s)) \<and> list_all access_row_ok (access_deliveries s)"

definition owns :: "access_claim \<Rightarrow> access_delivery \<Rightarrow> db \<Rightarrow> bool" where
  "owns claim r s \<longleftrightarrow> access_inv s \<and> (\<forall>d\<in>set (access_deliveries s). access_fence claim d \<longrightarrow> d = r)"

definition access_rely :: "access_claim \<Rightarrow> (nat \<Rightarrow> db \<Rightarrow> db) \<Rightarrow> bool" where
  "access_rely claim env \<longleftrightarrow> (\<forall>n d. access_inv d \<longrightarrow> access_inv (env n d)) \<and>
     (\<forall>n d r. owns claim r d \<longrightarrow> owns claim r (env n d))"

definition owned :: "access_claim \<Rightarrow> access_delivery \<Rightarrow> access_call world \<Rightarrow> bool" where
  "owned claim r w \<longleftrightarrow> access_rely claim (w_env w) \<and> owns claim r (w_db w)"

definition access_safe :: "access_claim \<Rightarrow> access_err \<Rightarrow> access_call world \<Rightarrow> bool" where
  "access_safe claim e w \<longleftrightarrow> access_rely claim (w_env w) \<and> access_inv (w_db w) \<and>
     (\<forall>name. snd e \<noteq> RepoErr (CheckViolation name))"

lemma access_inv_blind: "stmt_blind access_inv"
  by (simp add: stmt_blind_def access_inv_def)

lemma owns_stmts [simp]: "owns claim r (s\<lparr>db_stmts := n\<rparr>) = owns claim r s"
  by (simp add: owns_def access_inv_def)

lemma access_inv_table_ok: "access_inv s \<Longrightarrow> access_table_ok s"
  by (auto simp: access_inv_def access_table_ok_def access_row_ok_def list_all_iff)

lemma owned_frame [simp]:
  "owned claim r (w\<lparr>w_ticks := n\<rparr>) = owned claim r w" "owned claim r (w\<lparr>w_log := l\<rparr>) = owned claim r w"
  by (simp_all add: owned_def)

lemma owned_clock: "triple (owned claim r) clock_now (\<lambda>x. owned claim r) E"
  by (rule triple_clock_now_w) simp

lemma owned_call: "triple (owned claim r) (ext_call c answer) (\<lambda>x. owned claim r) E"
  by (rule triple_ext_call_w) simp

text \<open>A fenced update of an owned row either writes exactly that row or finds that it is no longer there.\<close>

definition written :: "access_claim \<Rightarrow> access_delivery \<Rightarrow> db \<Rightarrow> bool" where
  "written claim r s \<longleftrightarrow> owns claim r s \<and> r \<in> set (access_deliveries s)"

definition lost :: "access_claim \<Rightarrow> db \<Rightarrow> bool" where
  "lost claim s \<longleftrightarrow> access_inv s \<and> (\<forall>d\<in>set (access_deliveries s). \<not> access_fence claim d)"

lemma owned_update_db:
  assumes s: "owns claim r s" and ok: "access_row_ok (fold access_assign us r)"
  defines "out \<equiv> fenced_update (access_fence claim) (fold access_assign us) (access_deliveries s)"
  shows "fst out \<Longrightarrow> written claim (fold access_assign us r) (s\<lparr>access_deliveries := snd out\<rparr>)"
    and "\<not> fst out \<Longrightarrow> lost claim (s\<lparr>access_deliveries := snd out\<rparr>)"
proof -
  let ?t = "access_deliveries s" and ?f = "access_fence claim" and ?g = "fold access_assign us"
  have dist: "distinct (map ad_image_id ?t)" using s by (simp add: owns_def access_inv_def)
  have all: "list_all access_row_ok ?t" using s by (simp add: owns_def access_inv_def)
  have r: "d = r" if "d \<in> set ?t" "?f d" for d using s that by (simp add: owns_def)
  have ids: "map ad_image_id (upd_where ?f ?g ?t) = map ad_image_id ?t" by (rule upd_where_ids) simp
  have one: "count_where ?f ?t = 1 \<longleftrightarrow> (\<exists>d\<in>set ?t. ?f d)"
    by (rule count_where_1_iff[OF dist]) (rule access_fence_id)
  have new: "access_row_ok d" if "d \<in> set (upd_where ?f ?g ?t)" for d
    using that all ok r by (auto simp: in_upd_where_iff list_all_iff)
  have inv: "access_inv (s\<lparr>access_deliveries := snd out\<rparr>)"
    using dist new by (simp add: out_def fenced_update_def access_inv_def ids list_all_iff)
  show "written claim (?g r) (s\<lparr>access_deliveries := snd out\<rparr>)" if "fst out"
  proof -
    from that one obtain d where "d \<in> set ?t" "?f d" by (auto simp: out_def fenced_update_def)
    with r have "r \<in> set ?t" "?f r" by auto
    then have "?g r \<in> set (upd_where ?f ?g ?t)" by (auto simp: in_upd_where_iff)
    moreover have "d = ?g r" if "d \<in> set (upd_where ?f ?g ?t)" "?f d" for d
      using that r by (auto simp: in_upd_where_iff)
    ultimately show ?thesis using inv by (simp add: written_def owns_def out_def fenced_update_def)
  qed
  show "lost claim (s\<lparr>access_deliveries := snd out\<rparr>)" if "\<not> fst out"
  proof -
    from that one have none: "\<forall>d\<in>set ?t. \<not> ?f d" by (auto simp: out_def fenced_update_def)
    then have "upd_where ?f ?g ?t = ?t" by (simp add: upd_where_unmatched)
    with none inv show ?thesis by (simp add: lost_def out_def fenced_update_def)
  qed
qed

lemma Access_UpdateClaim_triple:
  assumes "us \<noteq> []" and ok: "access_row_ok (fold access_assign us r)"
  shows "triple (owns claim r) (Access_UpdateClaim claim us)
     (\<lambda>b s. if b then written claim (fold access_assign us r) s else lost claim s) (\<lambda>e s. e = DbFailure)"
proof -
  have tbl: "access_table_ok u" if "written claim (fold access_assign us r) u \<or> lost claim u" for u
    using that by (auto simp: written_def lost_def owns_def access_inv_table_ok)
  let ?out = "\<lambda>s. fenced_update (access_fence claim) (fold access_assign us) (access_deliveries s)"
  have "triple (owns claim r)
     (checked ''image_access_deliveries'' access_table_ok (\<lambda>s. (fst (?out s), s\<lparr>access_deliveries := snd (?out s)\<rparr>)))
     (\<lambda>b s. if b then written claim (fold access_assign us r) s else lost claim s) (\<lambda>e s. e = DbFailure)"
  proof (rule triple_checked)
    fix s assume "owns claim r s"
    note db = owned_update_db[OF this ok]
    show "access_table_ok (snd (fst (?out s), s\<lparr>access_deliveries := snd (?out s)\<rparr>)) \<and>
      (if fst (fst (?out s), s\<lparr>access_deliveries := snd (?out s)\<rparr>)
       then written claim (fold access_assign us r) (snd (fst (?out s), s\<lparr>access_deliveries := snd (?out s)\<rparr>))
       else lost claim (snd (fst (?out s), s\<lparr>access_deliveries := snd (?out s)\<rparr>)))"
      unfolding fst_conv snd_conv
      by (cases "fst (?out s)", rule conjI, rule tbl, rule disjI1, erule db(1), simp only: if_True, erule db(1),
          rule conjI, rule tbl, rule disjI2, erule db(2), simp only: if_False, erule db(2))
  qed simp
  then show ?thesis using assms(1) by (simp add: Access_UpdateClaim_def case_prod_beta)
qed

lemma access_update_triple:
  assumes "us \<noteq> []" and "access_row_ok (fold access_assign us r)"
  shows "triple (owned claim r) (access_update claim us)
     (\<lambda>b w. access_rely claim (w_env w) \<and>
        (if b then written claim (fold access_assign us r) (w_db w) else lost claim (w_db w)))
     (access_safe claim)"
proof -
  let ?Er = "\<lambda>e. \<forall>name. e \<noteq> RepoErr (CheckViolation name)"
  have "triple (owns claim r) (Access_UpdateClaim claim us)
     (\<lambda>b s. if b then written claim (fold access_assign us r) s else lost claim s) (\<lambda>e s. ?Er (RepoErr e))"
    by (rule triple_conseq[OF Access_UpdateClaim_triple[OF assms]]) auto
  then have "triple (\<lambda>w. access_rely claim (w_env w) \<and> owns claim r (w_db w)) (in_tx (Access_UpdateClaim claim us))
      (\<lambda>b w. access_rely claim (w_env w) \<and>
        (if b then written claim (fold access_assign us r) (w_db w) else lost claim (w_db w)))
      (\<lambda>e w. access_rely claim (w_env w) \<and> access_inv (w_db w) \<and> ?Er e)"
  proof (rule triple_in_tx_rely)
    show "owns claim r (env n d)" if "access_rely claim env" "owns claim r d" for env n d
      using that by (simp add: access_rely_def)
    show "access_inv d" if "if b then written claim (fold access_assign us r) d else lost claim d" for b d
      using that by (cases b) (simp_all add: written_def owns_def lost_def)
  qed (simp_all add: access_inv_blind owns_def)
  then show ?thesis
    unfolding access_update_def owned_def by (rule triple_map_err[OF triple_conseq]) (simp_all add: access_safe_def)
qed

definition released :: "access_claim \<Rightarrow> db \<Rightarrow> bool" where
  "released claim s \<longleftrightarrow> access_inv s \<and> (\<forall>d\<in>set (access_deliveries s).
     ad_image_id d = ad_image_id (cl_row claim) \<longrightarrow>
     ad_lease_token d \<noteq> Some (value_or_empty (ad_lease_token (cl_row claim))))"

lemma ReleaseSuperseded_triple:
  "triple access_inv (ReleaseSuperseded (ad_image_id (cl_row claim)) (value_or_empty (ad_lease_token (cl_row claim))) now)
     (\<lambda>_. released claim) (\<lambda>e s. e = DbFailure)"
proof -
  let ?p = "\<lambda>d. ad_image_id d = ad_image_id (cl_row claim) \<and>
              ad_lease_token d = Some (value_or_empty (ad_lease_token (cl_row claim)))"
  let ?f = "\<lambda>d. d\<lparr>ad_lease_token := None, ad_lease_until := None, ad_next_attempt_at := Some now, ad_updated_at := now\<rparr>"
  have row: "access_row_ok (?f d)" if "access_row_ok d" "?p d" for d
    using that by (auto simp: access_row_ok_def access_check_def)
  have rel: "released claim (s\<lparr>access_deliveries := upd_where ?p ?f (access_deliveries s)\<rparr>)" if "access_inv s" for s
  proof -
    have "map ad_image_id (upd_where ?p ?f (access_deliveries s)) = map ad_image_id (access_deliveries s)"
      by (rule upd_where_ids) simp
    moreover have "list_all access_row_ok (upd_where ?p ?f (access_deliveries s))"
      using that row by (intro upd_where_all) (auto simp: access_inv_def)
    ultimately show ?thesis using that by (auto simp: released_def access_inv_def in_upd_where_iff)
  qed
  then have "access_table_ok (s\<lparr>access_deliveries := upd_where ?p ?f (access_deliveries s)\<rparr>)" if "access_inv s" for s
    using that by (simp add: released_def access_inv_table_ok)
  with rel show ?thesis
    unfolding ReleaseSuperseded_def using stmt_blindD[OF access_inv_blind] by (intro triple_checked) simp_all
qed

text \<open>What an outcome says about the row the worker started from.\<close>

definition outcome_row :: "access_opts \<Rightarrow> access_delivery \<Rightarrow> imageAccessOutcome \<Rightarrow> access_delivery \<Rightarrow> bool" where
  "outcome_row opts r0 oc d \<longleftrightarrow>
     ad_image_id d = ad_image_id r0 \<and> ad_generation d = ad_generation r0 \<and> ad_intent_id d = ad_intent_id r0 \<and>
     ad_desired_public d = ad_desired_public r0 \<and> ad_purge_required d = ad_purge_required r0 \<and>
     ad_lease_token d = None \<and> ad_lease_until d = None \<and>
     (oc = ImageAccessSucceededOutcome) = (ad_state d = ImageAccessSucceeded) \<and>
     (oc = ImageAccessDeadOutcome) = (ad_state d = ImageAccessDeadLetter) \<and>
     (oc = ImageAccessRescheduledOutcome) = (ad_next_attempt_at d \<noteq> None) \<and>
     ad_submit_attempts r0 \<le> ad_submit_attempts d \<and>
     ad_submit_attempts d \<le> max (ad_submit_attempts r0) (ao_max_submissions opts)"

definition access_done :: "access_opts \<Rightarrow> access_claim \<Rightarrow> access_delivery \<Rightarrow> imageAccessOutcome \<Rightarrow> access_call world \<Rightarrow> bool" where
  "access_done opts claim r0 oc w \<longleftrightarrow> access_rely claim (w_env w) \<and> access_inv (w_db w) \<and>
     (if oc = ImageAccessSupersededOutcome then released claim (w_db w)
      else \<exists>d\<in>set (access_deliveries (w_db w)). outcome_row opts r0 oc d)"

lemma updateOutcome_triple:
  "triple (\<lambda>w. access_rely claim (w_env w) \<and> lost claim (w_db w)) (updateOutcome claim False)
     (access_done opts claim r0) (access_safe claim)"
proof -
  have tx: "triple (\<lambda>w. access_rely claim (w_env w) \<and> access_inv (w_db w))
     (in_tx (ReleaseSuperseded (ad_image_id (cl_row claim)) (value_or_empty (ad_lease_token (cl_row claim))) now))
     (\<lambda>x w. access_rely claim (w_env w) \<and> released claim (w_db w))
     (\<lambda>e w. access_rely claim (w_env w) \<and> access_inv (w_db w) \<and> (\<forall>name. e \<noteq> RepoErr (CheckViolation name)))" for now
    by (rule triple_in_tx_rely, rule triple_conseq[OF ReleaseSuperseded_triple])
      (auto simp: access_rely_def access_inv_blind released_def)
  show ?thesis
    unfolding updateOutcome_def seq_def
  proof (simp, rule triple_bind[where R = "\<lambda>_ w. access_rely claim (w_env w) \<and> access_inv (w_db w)"])
    show "triple (\<lambda>w. access_rely claim (w_env w) \<and> lost claim (w_db w)) clock_now
       (\<lambda>_ w. access_rely claim (w_env w) \<and> access_inv (w_db w)) (access_safe claim)"
      by (auto simp: triple_def clock_now_def lost_def)
    show "triple (\<lambda>w. access_rely claim (w_env w) \<and> access_inv (w_db w))
       (bind (map_err (Pair ImageAccessSupersededOutcome) (in_tx (ReleaseSuperseded (ad_image_id (cl_row claim))
           (value_or_empty (ad_lease_token (cl_row claim))) now))) (\<lambda>_. ret ImageAccessSupersededOutcome))
       (access_done opts claim r0) (access_safe claim)" for now
      by (rule triple_bind[where R = "\<lambda>_ w. access_rely claim (w_env w) \<and> released claim (w_db w)"],
          rule triple_map_err[OF triple_conseq[OF tx]])
        (auto simp: access_safe_def access_done_def released_def intro!: triple_ret)
  qed
qed

lemma update_then_triple:
  assumes "us \<noteq> []" "access_row_ok (fold access_assign us r)"
    and k: "triple (\<lambda>w. access_rely claim (w_env w) \<and> written claim (fold access_assign us r) (w_db w)) k
              (access_done opts claim r0) (access_safe claim)"
  shows "triple (owned claim r) (update_then claim us k) (access_done opts claim r0) (access_safe claim)"
  unfolding update_then_def
proof (rule triple_bind[OF access_update_triple[OF assms(1,2)]])
  fix b show "triple (\<lambda>w. access_rely claim (w_env w) \<and>
        (if b then written claim (fold access_assign us r) (w_db w) else lost claim (w_db w)))
      (if b then k else updateOutcome claim False) (access_done opts claim r0) (access_safe claim)"
    using k updateOutcome_triple by (cases b) simp_all
qed

lemma update_ret_triple:
  assumes "us \<noteq> []" "access_row_ok (fold access_assign us r)" "outcome_row opts r0 oc (fold access_assign us r)"
    "oc \<noteq> ImageAccessSupersededOutcome"
  shows "triple (owned claim r) (update_then claim us (ret oc)) (access_done opts claim r0) (access_safe claim)"
  by (rule update_then_triple[OF assms(1,2)], rule triple_ret)
    (use assms(3,4) in \<open>auto simp: access_done_def written_def owns_def\<close>)

subsection \<open>Every path of the worker\<close>

text \<open>In-memory changes of the claim do not change what it is fenced by.\<close>

definition same_lease :: "access_claim \<Rightarrow> access_claim \<Rightarrow> bool" where
  "same_lease c c' \<longleftrightarrow> ad_image_id (cl_row c') = ad_image_id (cl_row c) \<and>
     ad_generation (cl_row c') = ad_generation (cl_row c) \<and> ad_lease_token (cl_row c') = ad_lease_token (cl_row c)"

lemma same_lease_transfer:
  assumes "same_lease c c'"
    and "triple (owned c' r) m (access_done opts c' r0) (access_safe c')"
  shows "triple (owned c r) m (access_done opts c r0) (access_safe c)"
proof -
  have f: "access_fence c' = access_fence c"
    using assms(1) by (auto simp: same_lease_def access_fence_def fun_eq_iff)
  have o: "owns c' = owns c" by (simp add: owns_def f fun_eq_iff)
  have "access_rely c' = access_rely c" by (simp add: access_rely_def o fun_eq_iff)
  moreover have "released c' = released c" using assms(1) by (simp add: released_def same_lease_def fun_eq_iff)
  ultimately have "owned c' = owned c" "access_done opts c' = access_done opts c" "access_safe c' = access_safe c"
    using o by (simp_all add: owned_def access_done_def access_safe_def fun_eq_iff)
  with assms(2) show ?thesis by simp
qed

text \<open>\<open>r\<close> is a later version of the row \<open>r0\<close> that was claimed.\<close>

definition tracks :: "access_opts \<Rightarrow> access_delivery \<Rightarrow> access_delivery \<Rightarrow> bool" where
  "tracks opts r0 r \<longleftrightarrow> ad_image_id r = ad_image_id r0 \<and> ad_generation r = ad_generation r0 \<and>
     ad_intent_id r = ad_intent_id r0 \<and> ad_desired_public r = ad_desired_public r0 \<and>
     ad_purge_required r = ad_purge_required r0 \<and> ad_submit_attempts r0 \<le> ad_submit_attempts r \<and>
     ad_submit_attempts r \<le> max (ad_submit_attempts r0) (ao_max_submissions opts)"

lemma tracks_refl: "tracks opts r r"
  by (simp add: tracks_def)

lemma dead_triple:
  assumes "access_row_ok r" "tracks opts r0 r" "access_code_ok code"
  shows "triple (owned claim r) (dead claim code) (access_done opts claim r0) (access_safe claim)"
  unfolding dead_def
  by (rule triple_bind[OF owned_clock], rule update_ret_triple)
    (use assms in \<open>auto simp: access_dead_sets_def access_row_ok_def access_check_def access_terminal_def outcome_row_def tracks_def\<close>)

lemma succeed_triple:
  assumes "access_row_ok r" "tracks opts r0 r"
  shows "triple (owned claim r) (succeed claim) (access_done opts claim r0) (access_safe claim)"
  unfolding succeed_def
  by (rule triple_bind[OF owned_clock], rule update_ret_triple)
    (use assms in \<open>auto simp: succeed_sets_def access_row_ok_def access_check_def access_terminal_def outcome_row_def tracks_def\<close>)

lemma schedule_triple:
  assumes "\<And>now. access_row_ok (fold access_assign (schedule_sets st next code now extra) r)"
    and "\<And>now. outcome_row opts r0 ImageAccessRescheduledOutcome (fold access_assign (schedule_sets st next code now extra) r)"
  shows "triple (owned claim r) (schedule claim st next code extra) (access_done opts claim r0) (access_safe claim)"
  unfolding schedule_def
  by (rule triple_bind[OF owned_clock], rule update_ret_triple) (use assms in \<open>auto simp: schedule_sets_def\<close>)

lemma codes_member [simp]:
  "access_code_ok ''acl_retryable''" "access_code_ok ''acl_exhausted''"
  "access_code_ok ''submit_retryable''" "access_code_ok ''submit_unknown''"
  "access_code_ok ''submit_permanent''" "access_code_ok ''submit_exhausted''"
  "access_code_ok ''discover_retryable''" "access_code_ok ''discover_permanent''"
  "access_code_ok ''discover_exhausted''" "access_code_ok ''poll_retryable''"
  "access_code_ok ''poll_permanent''" "access_code_ok ''provider_failed''"
  "access_code_ok ''provider_pending_timeout''" "access_code_ok ''poll_exhausted''"
  "access_code_ok (providerStateCode st)"
  by (simp_all add: access_code_ok_def access_error_codes_def providerStateCode_def split: ImageCachePurgeTaskState.split)

lemmas schedule_facts = schedule_sets_def access_row_ok_def access_check_def access_terminal_def
  outcome_row_def tracks_def

text \<open>The constraints that concern columns the worker leaves alone.\<close>

lemma access_row_okD:
  assumes "access_row_ok r"
  shows "0 < ad_generation r" "0 \<le> ad_acl_attempts r" "0 \<le> ad_submit_attempts r" "0 \<le> ad_poll_attempts r"
    "0 \<le> ad_unknown_checks r"
    "case ad_provider_job_id r of None \<Rightarrow> True | Some j \<Rightarrow> 1 \<le> length j \<and> length j \<le> 128"
  using assms by (simp_all add: access_row_ok_def access_check_def)

lemma retrySubmission_triple:
  assumes "access_row_ok r" "tracks opts r0 r" "ad_purge_required r" "access_code_ok code"
  shows "triple (owned claim r) (retrySubmission opts claim code) (access_done opts claim r0) (access_safe claim)"
  unfolding retrySubmission_def
  by (intro triple_if triple_bind[OF owned_clock] schedule_triple dead_triple[OF assms(1,2)])
    (use access_row_okD[OF assms(1)] assms(2-4) in \<open>simp_all add: schedule_facts\<close>)

lemma scheduleUnknown_triple:
  assumes "access_row_ok r" "tracks opts r0 r" "ad_purge_required r" "access_code_ok code"
    "ad_submission_started_at r \<noteq> None" "ad_unknown_checks (cl_row claim) = ad_unknown_checks r"
  shows "triple (owned claim r) (scheduleUnknown opts claim code) (access_done opts claim r0) (access_safe claim)"
  unfolding scheduleUnknown_def Let_def
  by (intro triple_if triple_bind[OF owned_clock] schedule_triple dead_triple[OF assms(1,2)])
    (use access_row_okD[OF assms(1)] assms(2-6) in \<open>simp_all add: schedule_facts\<close>)

text \<open>Job ids that the provider hands out fit the column.\<close>

definition job_ids_fit :: "access_services \<Rightarrow> bool" where
  "job_ids_fit svc \<longleftrightarrow>
     (\<forall>n url sub. purge_submit svc n url = Inr sub \<longrightarrow> length (ps_job_id sub) \<le> 128) \<and>
     (\<forall>n url t1 t2 rec. purge_recover svc n url t1 t2 = Inr rec \<longrightarrow> length (pr_job_id rec) \<le> 128)"

lemma submit_answer_triple:
  assumes "access_row_ok r" "tracks opts r0 r" "ad_purge_required r" "ad_submission_started_at r \<noteq> None"
    "\<And>sub. answer = Inr sub \<Longrightarrow> length (ps_job_id sub) \<le> 128"
  shows "triple (owned claim r) (submit_answer claim answer) (access_done opts claim r0) (access_safe claim)"
proof (cases answer)
  case (Inl err)
  show ?thesis
    unfolding Inl submit_answer_def sum.case Let_def
    by (intro triple_if triple_bind[OF owned_clock] schedule_triple dead_triple[OF assms(1,2)])
      (use access_row_okD[OF assms(1)] assms(2-4) in \<open>simp_all add: schedule_facts\<close>)
next
  case (Inr sub)
  have "ps_job_id sub \<noteq> [] \<Longrightarrow> Suc 0 \<le> length (ps_job_id sub)" by (cases "ps_job_id sub") simp_all
  then show ?thesis
    unfolding Inr submit_answer_def sum.case
    by (intro triple_if triple_bind[OF owned_clock] schedule_triple)
      (use access_row_okD[OF assms(1)] assms(2-4) assms(5)[OF Inr] in \<open>simp_all add: schedule_facts\<close>)
qed

lemma submit_triple:
  assumes r: "access_row_ok r" "tracks opts r0 r" "ad_purge_required r"
    and a: "ad_submit_attempts (cl_row claim) = ad_submit_attempts r" and jobs: "job_ids_fit svc"
  shows "triple (owned claim r) (submit opts svc claim) (access_done opts claim r0) (access_safe claim)"
  unfolding submit_def
proof (intro triple_if dead_triple[OF r(1,2)] triple_bind[OF owned_clock] update_then_triple)
  fix startedAt
  let ?r1 = "fold access_assign (submitting_sets claim startedAt) r"
  let ?claim' = "claim\<lparr>cl_row := (cl_row claim)\<lparr>ad_state := ImageAccessSubmitting,
     ad_submit_attempts := ad_submit_attempts (cl_row claim) + 1, ad_submission_started_at := Some startedAt\<rparr>\<rparr>"
  assume below: "\<not> ao_max_submissions opts \<le> ad_submit_attempts (cl_row claim)"
  show "submitting_sets claim startedAt \<noteq> []" by (simp add: submitting_sets_def)
  show ok: "access_row_ok ?r1"
    using access_row_okD[OF r(1)] r(3) a r(1)
    by (auto simp: submitting_sets_def access_row_ok_def access_check_def access_terminal_def)
  have tr: "tracks opts r0 ?r1" using r(2) a below by (simp add: submitting_sets_def tracks_def)
  have more: "ad_purge_required ?r1" "ad_submission_started_at ?r1 \<noteq> None"
    using r(3) by (simp_all add: submitting_sets_def)
  have "triple (owned claim ?r1) (bind (ext_call (CallSubmit (cl_public_url claim))
        (\<lambda>n. purge_submit svc n (cl_public_url claim))) (submit_answer ?claim'))
      (access_done opts claim r0) (access_safe claim)"
  proof (rule triple_bind)
    show "triple (owned claim ?r1) (ext_call (CallSubmit (cl_public_url claim))
        (\<lambda>n. purge_submit svc n (cl_public_url claim)))
      (\<lambda>answer w. owned claim ?r1 w \<and> (\<forall>sub. answer = Inr sub \<longrightarrow> length (ps_job_id sub) \<le> 128)) (access_safe claim)"
      using jobs by (auto simp: triple_def ext_call_def job_ids_fit_def)
    show "triple (\<lambda>w. owned claim ?r1 w \<and> (\<forall>sub. answer = Inr sub \<longrightarrow> length (ps_job_id sub) \<le> 128))
      (submit_answer ?claim' answer) (access_done opts claim r0) (access_safe claim)" for answer
      by (rule triple_pure, rule same_lease_transfer[of _ ?claim'])
        (auto simp: same_lease_def intro!: submit_answer_triple[OF ok tr more])
  qed
  then show "triple (\<lambda>w. access_rely claim (w_env w) \<and> written claim ?r1 (w_db w))
     (let claim' = ?claim' in bind (ext_call (CallSubmit (cl_public_url claim))
        (\<lambda>n. purge_submit svc n (cl_public_url claim))) (submit_answer claim'))
     (access_done opts claim r0) (access_safe claim)"
    unfolding Let_def by (rule triple_conseq) (simp_all add: owned_def written_def)
qed simp

lemma applyACL_triple:
  assumes r: "access_row_ok (cl_row claim)" and jobs: "job_ids_fit svc"
  shows "triple (owned claim (cl_row claim)) (applyACL opts svc claim)
           (access_done opts claim (cl_row claim)) (access_safe claim)"
  unfolding applyACL_def Let_def
proof (intro triple_bind[OF owned_call] triple_if dead_triple[OF r tracks_refl] succeed_triple[OF r tracks_refl]
    triple_bind[OF owned_clock] update_then_triple)
  let ?r = "cl_row claim"
  show "triple (owned claim ?r) (schedule claim ImageAccessPendingACL at (Some ''acl_retryable'')
      [SetAdAcl (ad_acl_attempts ?r + 1)]) (access_done opts claim ?r) (access_safe claim)" for at
    by (rule schedule_triple) (use access_row_okD[OF r] in \<open>simp_all add: schedule_facts\<close>)
  fix nextAt updatedAt assume purge: "\<not> \<not> ad_purge_required ?r"
  let ?us = "[SetAdState ImageAccessPendingSubmit, SetAdNext (Some nextAt), SetAdError None, SetAdUpdated updatedAt]"
  let ?claim' = "claim\<lparr>cl_row := ?r\<lparr>ad_state := ImageAccessPendingSubmit\<rparr>\<rparr>"
  show ok: "access_row_ok (fold access_assign ?us ?r)"
    using r purge by (auto simp: access_row_ok_def access_check_def access_terminal_def)
  have "triple (owned ?claim' (fold access_assign ?us ?r)) (submit opts svc ?claim')
          (access_done opts ?claim' ?r) (access_safe ?claim')"
    by (rule submit_triple[OF ok _ _ _ jobs]) (use purge in \<open>simp_all add: tracks_def\<close>)
  then have "triple (owned claim (fold access_assign ?us ?r)) (submit opts svc ?claim')
          (access_done opts claim ?r) (access_safe claim)"
    by (rule same_lease_transfer[rotated]) (simp add: same_lease_def)
  then show "triple (\<lambda>w. access_rely claim (w_env w) \<and> written claim (fold access_assign ?us ?r) (w_db w))
      (submit opts svc ?claim') (access_done opts claim ?r) (access_safe claim)"
    by (rule triple_conseq) (simp_all add: owned_def written_def)
qed simp_all

lemma recovered_job_triple:
  assumes "access_row_ok r" "tracks opts r0 r" "ad_purge_required r" "ad_submission_started_at r \<noteq> None"
    "pr_job_id recovery \<noteq> []" "length (pr_job_id recovery) \<le> 128"
  shows "triple (owned claim r) (recovered_job opts claim recovery) (access_done opts claim r0) (access_safe claim)"
proof -
  have one: "Suc 0 \<le> length (pr_job_id recovery)" using assms(5) by (cases "pr_job_id recovery") simp_all
  have sched: "triple (owned claim r) (schedule claim ImageAccessSubmitted at None [SetAdJob (Some (pr_job_id recovery))])
      (access_done opts claim r0) (access_safe claim)" for at
    by (rule schedule_triple) (use access_row_okD[OF assms(1)] one assms(2-6) in \<open>simp_all add: schedule_facts\<close>)
  show ?thesis
    unfolding recovered_job_def
    by (auto split: ImageCachePurgeTaskState.split
        intro!: succeed_triple[OF assms(1,2)] retrySubmission_triple[OF assms(1-3)] triple_bind[OF owned_clock] sched)
qed

lemma recover_answer_triple:
  assumes "access_row_ok r" "tracks opts r0 r" "ad_purge_required r" "ad_submission_started_at r \<noteq> None"
    "ad_unknown_checks (cl_row claim) = ad_unknown_checks r" "length (pr_job_id recovery) \<le> 128"
  shows "triple (owned claim r) (recover_answer opts claim startedAt recovery) (access_done opts claim r0) (access_safe claim)"
  unfolding recover_answer_def Let_def
  by (intro triple_if succeed_triple[OF assms(1,2)] recovered_job_triple[OF assms(1-4)] triple_bind[OF owned_clock]
      retrySubmission_triple[OF assms(1-3)] scheduleUnknown_triple[OF assms(1-3)] dead_triple[OF assms(1,2)])
    (use assms in simp_all)

lemma recoverSubmission_triple:
  assumes r: "access_row_ok (cl_row claim)" and st: "ad_state (cl_row claim) = ImageAccessSubmitting"
    and jobs: "job_ids_fit svc"
  shows "triple (owned claim (cl_row claim)) (recoverSubmission opts svc claim)
           (access_done opts claim (cl_row claim)) (access_safe claim)"
proof -
  let ?r = "cl_row claim"
  from r st obtain startedAt where started: "ad_submission_started_at ?r = Some startedAt" and purge: "ad_purge_required ?r"
    by (auto simp: access_row_ok_def access_check_def access_terminal_def)
  note facts = r tracks_refl purge
  have "triple (owned claim ?r) (bind (ext_call c (\<lambda>n. purge_recover svc n (cl_public_url claim) startedAt endedAt))
     (\<lambda>answer. case answer of
          Inl err \<Rightarrow> (if ClassifyImageCachePurgeError err = PurgeErrorPermanent
                      then dead claim ''discover_permanent''
                      else scheduleUnknown opts claim ''discover_retryable'')
        | Inr recovery \<Rightarrow> recover_answer opts claim startedAt recovery))
     (access_done opts claim ?r) (access_safe claim)" for c endedAt
  proof (rule triple_bind)
    show "triple (owned claim ?r) (ext_call c (\<lambda>n. purge_recover svc n (cl_public_url claim) startedAt endedAt))
      (\<lambda>answer w. owned claim ?r w \<and> (\<forall>rec. answer = Inr rec \<longrightarrow> length (pr_job_id rec) \<le> 128)) (access_safe claim)"
      using jobs by (auto simp: triple_def ext_call_def job_ids_fit_def)
    show "triple (\<lambda>w. owned claim ?r w \<and> (\<forall>rec. answer = Inr rec \<longrightarrow> length (pr_job_id rec) \<le> 128))
      (case answer of
          Inl err \<Rightarrow> (if ClassifyImageCachePurgeError err = PurgeErrorPermanent
                      then dead claim ''discover_permanent''
                      else scheduleUnknown opts claim ''discover_retryable'')
        | Inr recovery \<Rightarrow> recover_answer opts claim startedAt recovery)
      (access_done opts claim ?r) (access_safe claim)" for answer
      by (rule triple_pure, cases answer)
        (auto simp: started intro!: dead_triple[OF r tracks_refl] scheduleUnknown_triple[OF facts] recover_answer_triple[OF facts])
  qed
  then show ?thesis
    unfolding recoverSubmission_def started option.case by (intro triple_bind[OF owned_clock])
qed

lemma poll_answer_triple:
  assumes "access_row_ok r" "tracks opts r0 r" "ad_purge_required r" "ad_submission_started_at r \<noteq> None"
    "ad_provider_job_id r \<noteq> None" "ad_poll_attempts (cl_row claim) = ad_poll_attempts r"
  shows "triple (owned claim r) (poll_answer opts claim startedAt answer) (access_done opts claim r0) (access_safe claim)"
proof -
  have sched: "triple (owned claim r) (schedule claim ImageAccessSubmitted at code [SetAdPoll (ad_poll_attempts (cl_row claim) + 1)])
      (access_done opts claim r0) (access_safe claim)" if "\<And>c. code = Some c \<Longrightarrow> access_code_ok c" for at code
    by (rule schedule_triple)
      (use access_row_okD[OF assms(1)] that assms(2-6) in \<open>cases code; simp add: schedule_facts\<close>)+
  note paths = triple_if dead_triple[OF assms(1,2)] succeed_triple[OF assms(1,2)]
    retrySubmission_triple[OF assms(1-3)] triple_bind[OF owned_clock] sched
  show ?thesis
  proof (cases answer)
    case (Inl err)
    show ?thesis unfolding poll_answer_def Let_def Inl sum.case by (intro paths) auto
  next
    case (Inr st)
    show ?thesis unfolding poll_answer_def Let_def Inr sum.case by (intro paths) simp_all
  qed
qed

lemma poll_triple:
  assumes r: "access_row_ok (cl_row claim)" and st: "ad_state (cl_row claim) = ImageAccessSubmitted"
  shows "triple (owned claim (cl_row claim)) (poll opts svc claim)
           (access_done opts claim (cl_row claim)) (access_safe claim)"
proof -
  let ?r = "cl_row claim"
  from r st obtain startedAt job where started: "ad_submission_started_at ?r = Some startedAt"
    and job: "ad_provider_job_id ?r = Some job" and purge: "ad_purge_required ?r"
    by (auto simp: access_row_ok_def access_check_def access_terminal_def)
  show ?thesis
    unfolding poll_def started job prod.case option.case
    by (intro triple_bind[OF owned_call] poll_answer_triple[OF r tracks_refl purge]) (simp_all add: started job)
qed

lemma processClaim_triple:
  assumes r: "access_row_ok (cl_row claim)" and jobs: "job_ids_fit svc"
  shows "triple (owned claim (cl_row claim)) (processClaim opts svc claim)
           (access_done opts claim (cl_row claim)) (access_safe claim)"
proof (cases "ad_state (cl_row claim)")
  case ImageAccessPendingSubmit
  then have "ad_purge_required (cl_row claim)" using r by (auto simp: access_row_ok_def access_check_def access_terminal_def)
  with ImageAccessPendingSubmit show ?thesis
    by (simp add: processClaim_def submit_triple[OF r tracks_refl _ refl jobs])
qed (simp_all add: processClaim_def applyACL_triple[OF r jobs] recoverSubmission_triple[OF r _ jobs] poll_triple[OF r]
    dead_triple[OF r tracks_refl])

text \<open>
  C17: processing one claimed image row is safe under every interleaving and every failure.
  Suppose the row was claimed as it stands, the purge provider's job ids fit their column, and
  other sessions keep the table's constraints and leave rows under this worker's lease alone
  (a new request for the image may still replace the row by bumping its generation).  Then the
  table's constraints hold afterwards and no statement ever violates one, whatever the object
  store, the purge provider, the statements and the commits answer.  When processing reports an
  outcome other than superseded, the row has released its lease, still belongs to the same
  request and generation, is in the state the outcome names, and its number of purge
  submissions has not passed the limit; when it reports superseded, the image's row no longer
  carries this worker's lease.
\<close>

theorem processClaim_safe:
  assumes "access_rely claim (w_env w)" "owns claim (cl_row claim) (w_db w)"
    and "access_row_ok (cl_row claim)" "job_ids_fit svc"
  shows "access_inv (w_db (snd (processClaim opts svc claim w))) \<and>
    (\<forall>oc e. fst (processClaim opts svc claim w) = Inl (oc, e) \<longrightarrow> (\<forall>name. e \<noteq> RepoErr (CheckViolation name))) \<and>
    (\<forall>oc. fst (processClaim opts svc claim w) = Inr oc \<longrightarrow>
       (if oc = ImageAccessSupersededOutcome then released claim (w_db (snd (processClaim opts svc claim w)))
        else \<exists>d\<in>set (access_deliveries (w_db (snd (processClaim opts svc claim w)))).
               outcome_row opts (cl_row claim) oc d))"
proof -
  obtain r w' where run: "processClaim opts svc claim w = (r, w')" by fastforce
  have own: "owned claim (cl_row claim) w" using assms(1,2) by (simp add: owned_def)
  note tr = processClaim_triple[OF assms(3,4), of opts]
  show ?thesis
  proof (cases r)
    case (Inl e)
    from triple_Inl[OF tr own run[unfolded Inl]] show ?thesis using run Inl by (auto simp: access_safe_def)
  next
    case (Inr oc)
    from triple_Inr[OF tr own run[unfolded Inr]] show ?thesis using run Inr by (auto simp: access_done_def)
  qed
qed

subsection \<open>New requests\<close>

lemma renew_fields [simp]:
  "ad_image_id (renew_delivery i pub purge now d) = ad_image_id d"
  "ad_generation (renew_delivery i pub purge now d) = ad_generation d + 1"
  "ad_lease_token (renew_delivery i pub purge now d) = ad_lease_token d"
  by (simp_all add: renew_delivery_def)

lemma renew_row_ok: "access_row_ok d \<Longrightarrow> access_row_ok (renew_delivery i pub purge now d)"
  by (simp add: access_row_ok_def access_check_def access_terminal_def renew_delivery_def)

lemma new_row_ok: "access_row_ok (new_delivery i j pub purge now)"
  by (simp add: access_row_ok_def access_check_def access_terminal_def new_delivery_def)

text \<open>What the statement does on success; \<open>img\<close> is the image, \<open>source\<close> the review record.\<close>

lemma Access_Enqueue_new:
  assumes run: "Access_Enqueue img source pub purge now s = (Inr True, s')" and inv: "access_inv s"
  shows "access_inv s'"
    and "\<exists>i. access_intents s' = access_intents s @ [i] \<and> ai_source_record_id i = source \<and> ai_image_id i = img \<and>
             ai_desired_public i = pub"
    and "\<exists>d\<in>set (access_deliveries s'). ad_image_id d = img \<and> ad_state d = ImageAccessPendingACL \<and>
             ad_desired_public d = pub \<and> ad_next_attempt_at d = Some now"
    and "\<And>d d0. d \<in> set (access_deliveries s') \<Longrightarrow> ad_image_id d = img \<Longrightarrow> d0 \<in> set (access_deliveries s) \<Longrightarrow>
             ad_image_id d0 = img \<Longrightarrow> ad_generation d = ad_generation d0 + 1"
proof -
  let ?t = "access_deliveries s" and ?i = "next_id ai_id (access_intents s)"
  let ?t' = "if \<exists>d\<in>set ?t. ad_image_id d = img
             then upd_where (\<lambda>d. ad_image_id d = img) (renew_delivery ?i pub purge now) ?t
             else ?t @ [new_delivery img ?i pub purge now]"
  from run have t': "access_deliveries s' = ?t'"
    and i': "access_intents s' = access_intents s @ [\<lparr>ai_id = ?i, ai_image_id = img, ai_source_record_id = source,
                     ai_desired_public = pub, ai_created_at = now\<rparr>]"
    by (auto simp: Access_Enqueue_def stmt_run Let_def split: if_splits)
  from i' show "\<exists>i. access_intents s' = access_intents s @ [i] \<and> ai_source_record_id i = source \<and> ai_image_id i = img \<and>
             ai_desired_public i = pub" by simp
  have dist: "distinct (map ad_image_id ?t)" and ok: "list_all access_row_ok ?t" using inv by (simp_all add: access_inv_def)
  have "distinct (map ad_image_id ?t')" using dist by (auto simp: upd_where_ids new_delivery_def)
  moreover have "list_all access_row_ok ?t'" using ok by (auto simp: new_row_ok intro!: upd_where_all renew_row_ok)
  ultimately show "access_inv s'" by (simp only: access_inv_def t' simp_thms)
  have mem: "\<exists>d\<in>set ?t'. ad_image_id d = img \<and> ad_state d = ImageAccessPendingACL \<and>
             ad_desired_public d = pub \<and> ad_next_attempt_at d = Some now"
  proof (cases "\<exists>d\<in>set ?t. ad_image_id d = img")
    case True
    then obtain d where "d \<in> set ?t" "ad_image_id d = img" by blast
    then have "renew_delivery ?i pub purge now d \<in> set ?t'" using True by (auto simp: in_upd_where_iff)
    then show ?thesis
      by (rule bexI[rotated]) (use \<open>ad_image_id d = img\<close> in \<open>simp add: renew_delivery_def\<close>)
  qed (simp add: new_delivery_def)
  then show "\<exists>d\<in>set (access_deliveries s'). ad_image_id d = img \<and> ad_state d = ImageAccessPendingACL \<and>
             ad_desired_public d = pub \<and> ad_next_attempt_at d = Some now" unfolding t' .
  fix d d0 assume d: "d \<in> set (access_deliveries s')" "ad_image_id d = img" and d0: "d0 \<in> set ?t" "ad_image_id d0 = img"
  from d d0 obtain d1 where "d1 \<in> set ?t" "ad_image_id d1 = img" "d = renew_delivery ?i pub purge now d1"
    unfolding t' by (auto simp: in_upd_where_iff split: if_splits)
  moreover from this d0 dist have "d1 = d0" by (auto simp: distinct_map inj_on_def)
  ultimately show "ad_generation d = ad_generation d0 + 1" by simp
qed

text \<open>
  A new review result wins over a worker that is still busy with the old one.  Enqueuing the
  result of a review record that was not seen before keeps the table's constraints, records
  the request once, and leaves the image's row waiting for the new access state with the next
  generation, due at once; any later write of a worker that claimed the previous generation
  changes nothing and reports that it did not apply.  Enqueuing the same review record again
  changes neither table, so a repeated callback cannot reset a delivery.
\<close>

theorem Access_Enqueue_supersedes:
  assumes run: "Access_Enqueue img source pub purge now s = (Inr True, s')" and inv: "access_inv s"
    and old: "d0 \<in> set (access_deliveries s)" "ad_image_id d0 = img"
    and claim: "ad_image_id (cl_row claim) = img" "ad_generation (cl_row claim) \<le> ad_generation d0"
  shows "access_inv s' \<and>
    (\<exists>d\<in>set (access_deliveries s'). ad_image_id d = img \<and> ad_generation d = ad_generation d0 + 1 \<and>
        ad_state d = ImageAccessPendingACL \<and> ad_desired_public d = pub \<and> ad_next_attempt_at d = Some now) \<and>
    fenced_update (access_fence claim) f (access_deliveries s') = (False, access_deliveries s') \<and>
    (\<forall>pub2 purge2 now2 r s2. Access_Enqueue img source pub2 purge2 now2 s' = (r, s2) \<longrightarrow>
       (r = Inr False \<or> r = Inl DbFailure) \<and> access_deliveries s2 = access_deliveries s' \<and>
       access_intents s2 = access_intents s')"
proof (intro conjI allI impI)
  note new = Access_Enqueue_new[OF run inv]
  show "access_inv s'" by (rule new(1))
  show "\<exists>d\<in>set (access_deliveries s'). ad_image_id d = img \<and> ad_generation d = ad_generation d0 + 1 \<and>
        ad_state d = ImageAccessPendingACL \<and> ad_desired_public d = pub \<and> ad_next_attempt_at d = Some now"
    using new(3) new(4) old by blast
  have "\<not> access_fence claim d" if "d \<in> set (access_deliveries s')" for d
    using new(4)[OF that _ old] claim by (auto simp: access_fence_def)
  then show "fenced_update (access_fence claim) f (access_deliveries s') = (False, access_deliveries s')"
    using count_where_0[of "access_fence claim" "access_deliveries s'"]
    by (simp add: fenced_update_def upd_where_unmatched)
  fix pub2 purge2 now2 r s2 assume again: "Access_Enqueue img source pub2 purge2 now2 s' = (r, s2)"
  have seen: "\<exists>i\<in>set (access_intents s'). ai_source_record_id i = source" using new(2) by auto
  show "r = Inr False \<or> r = Inl DbFailure" "access_deliveries s2 = access_deliveries s'"
    "access_intents s2 = access_intents s'"
    using again seen by (auto simp: Access_Enqueue_def stmt_run split: if_splits)
qed

subsection \<open>Effects and their confirmation\<close>

lemma update_then_Inr:
  assumes "update_then claim us k w = (Inr oc, w')"
  obtains (applied) w1 where "access_update claim us w = (Inr True, w1)" "k w1 = (Inr oc, w')"
    | (stale) "oc = ImageAccessSupersededOutcome"
  using assms
  by (auto simp: update_then_def updateOutcome_def seq_def ret_def elim!: bind_InrE split: if_splits)

lemma leaf_outcomes:
  "dead claim code w = (Inr oc, w') \<Longrightarrow> oc = ImageAccessDeadOutcome \<or> oc = ImageAccessSupersededOutcome"
  "schedule claim st at err extra w = (Inr oc, w') \<Longrightarrow>
     oc = ImageAccessRescheduledOutcome \<or> oc = ImageAccessSupersededOutcome"
  "retrySubmission opts claim code w = (Inr oc, w') \<Longrightarrow> oc \<noteq> ImageAccessSucceededOutcome"
  "scheduleUnknown opts claim code w = (Inr oc, w') \<Longrightarrow> oc \<noteq> ImageAccessSucceededOutcome"
proof -
  show d: "dead claim code w = (Inr oc, w') \<Longrightarrow> oc = ImageAccessDeadOutcome \<or> oc = ImageAccessSupersededOutcome"
    for claim code w oc w' by (auto simp: dead_def ret_def elim!: bind_InrE update_then_Inr)
  show s: "schedule claim st at err extra w = (Inr oc, w') \<Longrightarrow>
     oc = ImageAccessRescheduledOutcome \<or> oc = ImageAccessSupersededOutcome" for claim st at err extra w oc w'
    by (auto simp: schedule_def ret_def elim!: bind_InrE update_then_Inr)
  show "retrySubmission opts claim code w = (Inr oc, w') \<Longrightarrow> oc \<noteq> ImageAccessSucceededOutcome"
    by (auto simp: retrySubmission_def split: if_splits elim!: bind_InrE dest!: d s)
  show "scheduleUnknown opts claim code w = (Inr oc, w') \<Longrightarrow> oc \<noteq> ImageAccessSucceededOutcome"
    by (auto simp: scheduleUnknown_def Let_def split: if_splits elim!: bind_InrE dest!: d s)
qed

lemma submit_not_success: "submit opts svc claim w = (Inr oc, w') \<Longrightarrow> oc \<noteq> ImageAccessSucceededOutcome"
  by (auto simp: submit_def submit_answer_def Let_def split: if_splits sum.splits
      elim!: bind_InrE update_then_Inr dest!: leaf_outcomes)

lemma succeed_log: "succeed claim u = (Inr ImageAccessSucceededOutcome, u') \<Longrightarrow> w_log u' = w_log u"
  by (auto simp: succeed_def ret_def clock_now_def access_update_def map_err_Inr_iff
      elim!: bind_InrE update_then_Inr dest!: in_tx_Inr(2))

lemma applyACL_success:
  assumes "applyACL opts svc claim w = (Inr ImageAccessSucceededOutcome, w')"
  shows "\<not> ad_purge_required (cl_row claim)"
    "w_log w' = w_log w @ [CallSetPublic (cl_object_key claim) (ad_desired_public (cl_row claim))]"
    "set_public svc (length (w_log w)) (cl_object_key claim) (ad_desired_public (cl_row claim)) = None"
  using assms
  by (auto simp: applyACL_def Let_def ext_call_def split: if_splits
      elim!: bind_InrE update_then_Inr dest!: leaf_outcomes submit_not_success succeed_log)

lemma recover_answer_success:
  assumes "recover_answer opts claim started rec w = (Inr ImageAccessSucceededOutcome, w')"
  shows "w_log w' = w_log w \<and>
    (pr_effect_succeeded rec \<or> pr_found rec \<and> pr_job_id rec \<noteq> [] \<and> pr_state rec = PurgeSuccess)"
  using assms
  by (auto simp: recover_answer_def recovered_job_def Let_def split: if_splits ImageCachePurgeTaskState.splits
      elim!: bind_InrE dest!: leaf_outcomes succeed_log)

lemma recoverSubmission_success:
  assumes "recoverSubmission opts svc claim w = (Inr ImageAccessSucceededOutcome, w')"
  shows "\<exists>started ended rec. ad_submission_started_at (cl_row claim) = Some started \<and>
       w_log w' = w_log w @ [CallRecover (cl_public_url claim) started ended] \<and>
       purge_recover svc (length (w_log w)) (cl_public_url claim) started ended = Inr rec \<and>
       (pr_effect_succeeded rec \<or> pr_found rec \<and> pr_job_id rec \<noteq> [] \<and> pr_state rec = PurgeSuccess)"
  using assms
  by (auto simp: recoverSubmission_def clock_now_def ext_call_def split: option.splits sum.splits if_splits
      elim!: bind_InrE dest!: leaf_outcomes recover_answer_success)

lemma poll_success:
  assumes "poll opts svc claim w = (Inr ImageAccessSucceededOutcome, w')"
  shows "\<exists>job. ad_provider_job_id (cl_row claim) = Some job \<and>
       w_log w' = w_log w @ [CallDescribe (cl_public_url claim) job] \<and>
       purge_describe svc (length (w_log w)) (cl_public_url claim) job = Inr PurgeSuccess"
  using assms
  by (auto simp: poll_def poll_answer_def Let_def ext_call_def clock_now_def split: option.splits sum.splits if_splits
      elim!: bind_InrE dest!: leaf_outcomes succeed_log)

lemma processClaim_success_calls:
  assumes run: "processClaim opts svc claim w = (Inr ImageAccessSucceededOutcome, w')"
  shows "let r = cl_row claim; url = cl_public_url claim; n = length (w_log w) in
    (ad_state r = ImageAccessPendingACL \<and> \<not> ad_purge_required r \<and>
       w_log w' = w_log w @ [CallSetPublic (cl_object_key claim) (ad_desired_public r)] \<and>
       set_public svc n (cl_object_key claim) (ad_desired_public r) = None) \<or>
    (\<exists>started ended rec. ad_state r = ImageAccessSubmitting \<and> ad_submission_started_at r = Some started \<and>
       w_log w' = w_log w @ [CallRecover url started ended] \<and>
       purge_recover svc n url started ended = Inr rec \<and>
       (pr_effect_succeeded rec \<or> pr_found rec \<and> pr_job_id rec \<noteq> [] \<and> pr_state rec = PurgeSuccess)) \<or>
    (\<exists>job. ad_state r = ImageAccessSubmitted \<and> ad_provider_job_id r = Some job \<and>
       w_log w' = w_log w @ [CallDescribe url job] \<and> purge_describe svc n url job = Inr PurgeSuccess)"
proof (cases "ad_state (cl_row claim)")
  case ImageAccessPendingACL
  with run have "applyACL opts svc claim w = (Inr ImageAccessSucceededOutcome, w')" by (simp add: processClaim_def)
  from applyACL_success[OF this] ImageAccessPendingACL show ?thesis by (simp add: Let_def)
next
  case ImageAccessSubmitting
  with run have "recoverSubmission opts svc claim w = (Inr ImageAccessSucceededOutcome, w')" by (simp add: processClaim_def)
  from recoverSubmission_success[OF this] ImageAccessSubmitting show ?thesis unfolding Let_def by blast
next
  case ImageAccessSubmitted
  with run have "poll opts svc claim w = (Inr ImageAccessSucceededOutcome, w')" by (simp add: processClaim_def)
  from poll_success[OF this] ImageAccessSubmitted show ?thesis unfolding Let_def by blast
qed (use run in \<open>auto simp: processClaim_def dest!: leaf_outcomes submit_not_success\<close>)

text \<open>Parts of the worker that make no external call.\<close>

abbreviation same_log :: "access_call world \<Rightarrow> access_call world \<Rightarrow> bool" where
  "same_log w w' \<equiv> w_log w' = w_log w"

lemma same_log_preorder: "reflp same_log" "transp same_log"
  by (simp_all add: reflp_def transp_def)

lemma silent_clock: "moves same_log clock_now"
  by (simp add: moves_def clock_now_def)

lemma silent_in_tx: "moves same_log (in_tx m)"
  by (simp add: moves_def in_tx_log)

lemmas silent = moves_bind[OF same_log_preorder(2)] moves_ret[OF same_log_preorder(1)] moves_map_err silent_clock silent_in_tx

lemma silent_update_then: "moves same_log k \<Longrightarrow> moves same_log (update_then claim us k)"
  unfolding update_then_def updateOutcome_def access_update_def seq_def by (auto intro!: silent)

lemma silent_leaves:
  "moves same_log (dead claim code)" "moves same_log (schedule claim st at err extra)" "moves same_log (succeed claim)"
  unfolding dead_def schedule_def succeed_def by (auto intro!: silent silent_update_then)

lemma silent_branches:
  "moves same_log (retrySubmission opts claim code)" "moves same_log (scheduleUnknown opts claim code)"
  unfolding retrySubmission_def scheduleUnknown_def Let_def by (auto intro!: silent silent_leaves)

lemma silent_answers:
  "moves same_log (submit_answer claim answer)" "moves same_log (poll_answer opts claim started panswer)"
  "moves same_log (recover_answer opts claim started rec)"
  unfolding submit_answer_def poll_answer_def recover_answer_def recovered_job_def Let_def
  by (auto intro!: silent silent_leaves silent_branches split: sum.split ImageCachePurgeTaskState.split)

lemma movesD: "moves same_log m \<Longrightarrow> m w = (r, w') \<Longrightarrow> w_log w' = w_log w"
  unfolding moves_def by (metis snd_conv)

subsection \<open>What the outside world confirmed\<close>

text \<open>
  The log of external calls, with the answer that each call got (answers are indexed by the
  number of earlier calls).  The object store accepted the wanted access of an object; the purge
  provider confirmed the effect of a purge or reported a purge job of the address as successful.
\<close>

fun acl_answer_accepts :: "access_services \<Rightarrow> string \<Rightarrow> bool \<Rightarrow> nat \<times> access_call \<Rightarrow> bool" where
  "acl_answer_accepts svc key pub (n, CallSetPublic k b) \<longleftrightarrow> k = key \<and> b = pub \<and> set_public svc n k b = None"
| "acl_answer_accepts svc key pub (n, c) \<longleftrightarrow> False"

fun purge_answer_confirms :: "access_services \<Rightarrow> string \<Rightarrow> nat \<times> access_call \<Rightarrow> bool" where
  "purge_answer_confirms svc url (n, CallRecover u started ended) \<longleftrightarrow> u = url \<and>
     (case purge_recover svc n u started ended of
        Inr rec \<Rightarrow> pr_effect_succeeded rec \<or> pr_found rec \<and> pr_job_id rec \<noteq> [] \<and> pr_state rec = PurgeSuccess
      | Inl _ \<Rightarrow> False)"
| "purge_answer_confirms svc url (n, CallDescribe u job) \<longleftrightarrow> u = url \<and> purge_describe svc n u job = Inr PurgeSuccess"
| "purge_answer_confirms svc url (n, c) \<longleftrightarrow> False"

definition acl_accepted :: "access_services \<Rightarrow> string \<Rightarrow> bool \<Rightarrow> access_call list \<Rightarrow> bool" where
  "acl_accepted svc key pub calls \<longleftrightarrow> list_ex (acl_answer_accepts svc key pub) (List.enumerate 0 calls)"

definition purge_confirmed :: "access_services \<Rightarrow> string \<Rightarrow> access_call list \<Rightarrow> bool" where
  "purge_confirmed svc url calls \<longleftrightarrow> list_ex (purge_answer_confirms svc url) (List.enumerate 0 calls)"

text \<open>
  What the state of a delivery row promises: every state that lies behind the access change is
  reached only after the object store accepted it, and a success that needed a purge only after
  the purge was confirmed as well.
\<close>

definition confirmed :: "access_services \<Rightarrow> access_claim \<Rightarrow> access_call list \<Rightarrow> ImageAccessOutboxState \<Rightarrow> bool" where
  "confirmed svc claim calls st \<longleftrightarrow>
     (st \<in> {ImageAccessPendingSubmit, ImageAccessSubmitting, ImageAccessSubmitted, ImageAccessSucceeded} \<longrightarrow>
        acl_accepted svc (cl_object_key claim) (ad_desired_public (cl_row claim)) calls) \<and>
     (st = ImageAccessSucceeded \<and> ad_purge_required (cl_row claim) \<longrightarrow>
        purge_confirmed svc (cl_public_url claim) calls)"

lemma accepted_append:
  "acl_accepted svc key pub (l @ [c]) \<longleftrightarrow> acl_accepted svc key pub l \<or> acl_answer_accepts svc key pub (length l, c)"
  "purge_confirmed svc url (l @ [c]) \<longleftrightarrow> purge_confirmed svc url l \<or> purge_answer_confirms svc url (length l, c)"
  by (auto simp: acl_accepted_def purge_confirmed_def enumerate_append_eq)

lemma accepted_grows:
  "acl_accepted svc key pub l \<Longrightarrow> acl_accepted svc key pub (l @ l')"
  "purge_confirmed svc url l \<Longrightarrow> purge_confirmed svc url (l @ l')"
  by (simp_all add: acl_accepted_def purge_confirmed_def enumerate_append_eq)

text \<open>A new or renewed request promises nothing; a later claim of a row inherits what was confirmed for it.\<close>

lemma confirmed_new: "confirmed svc claim calls ImageAccessPendingACL"
  by (simp add: confirmed_def)

lemma confirmed_grows: "confirmed svc claim l st \<Longrightarrow> confirmed svc claim (l @ l') st"
  by (auto simp: confirmed_def accepted_grows)

lemma confirmed_next_claim:
  assumes "outcome_row opts (cl_row claim) oc d" "confirmed svc claim calls (ad_state d)"
  shows "confirmed svc (claim\<lparr>cl_row := access_grant tok now until d\<rparr>) calls (ad_state (access_grant tok now until d))"
  using assms by (auto simp: confirmed_def outcome_row_def access_grant_def)

text \<open>The worker only appends to the log.\<close>

abbreviation log_grows :: "access_call world \<Rightarrow> access_call world \<Rightarrow> bool" where
  "log_grows w w' \<equiv> \<exists>l. w_log w' = w_log w @ l"

lemma log_grows_preorder: "reflp log_grows" "transp log_grows"
  by (auto simp: reflp_def transp_def)

lemma moves_log_silent: "moves same_log m \<Longrightarrow> moves log_grows m"
  by (simp add: moves_def)

lemmas growing = moves_bind[OF log_grows_preorder(2)] moves_log_silent silent_leaves silent_branches silent_answers
  silent_clock

lemma grows_call: "moves log_grows (ext_call c answer)"
  by (simp add: moves_def ext_call_def)

lemma grows_update_then:
  assumes "moves log_grows k" shows "moves log_grows (update_then claim us k)"
proof -
  have "moves same_log (access_update claim us)" "moves same_log (updateOutcome claim False)"
    unfolding access_update_def updateOutcome_def seq_def by (auto intro!: silent)
  then show ?thesis
    using assms unfolding update_then_def
    by (intro moves_bind[OF log_grows_preorder(2)]) (auto intro: moves_log_silent)
qed

lemma grows_submit: "moves log_grows (submit opts svc claim)"
  unfolding submit_def Let_def by (auto intro!: growing(1) grows_call grows_update_then) (auto intro!: growing(2-))

lemma grows_processClaim: "moves log_grows (processClaim opts svc claim)"
proof -
  have "moves log_grows (applyACL opts svc claim)"
    unfolding applyACL_def Let_def
    by (auto intro!: growing(1) grows_call grows_update_then grows_submit) (auto intro!: growing(2-))
  moreover have "moves log_grows (recoverSubmission opts svc claim)" "moves log_grows (poll opts svc claim)"
    unfolding recoverSubmission_def poll_def
    by (auto intro!: growing(1) grows_call split: option.split sum.split) (auto intro!: growing(2-))
  ultimately show ?thesis
    unfolding processClaim_def
    by (auto intro!: grows_submit split: ImageAccessOutboxState.split) (auto intro!: growing(2-))
qed

text \<open>
  The branch in which the object store refused: whatever happens to the update, a row that is
  still under the worker's lease is the row that was claimed, and a row that the update reached
  waits for the next attempt or is dead.
\<close>

lemma unleased_update_triple:
  assumes us: "us \<noteq> []" "access_row_ok (fold access_assign us r)" "ad_lease_token (fold access_assign us r) = None"
  shows "triple (owned claim r) (update_then claim us (ret oc)) (\<lambda>_. owned claim r) (\<lambda>_. owned claim r)"
proof -
  have tx: "triple (\<lambda>w. access_rely claim (w_env w) \<and> owns claim r (w_db w)) (in_tx m)
      (\<lambda>x w. access_rely claim (w_env w) \<and> owns claim r (w_db w)) (\<lambda>e w. access_rely claim (w_env w) \<and> owns claim r (w_db w) \<and> True)"
    if "triple (owns claim r) m (\<lambda>_. owns claim r) (\<lambda>e s. True)" for m :: "(db, repo_error, 'x) act"
  proof (rule triple_in_tx_rely[OF that])
    show "stmt_blind (owns claim r)" by (simp add: stmt_blind_def)
  qed (simp_all add: access_rely_def)
  have up: "triple (owns claim r) (Access_UpdateClaim claim us) (\<lambda>_. owns claim r) (\<lambda>e s. True)"
    by (rule triple_conseq[OF Access_UpdateClaim_triple[OF us(1,2)]])
      (use us(3) in \<open>auto simp: written_def lost_def owns_def access_fence_def split: if_splits\<close>)
  have rel: "triple (owns claim r) (ReleaseSuperseded (ad_image_id (cl_row claim))
      (value_or_empty (ad_lease_token (cl_row claim))) now) (\<lambda>_. owns claim r) (\<lambda>e s. True)" for now
    by (rule triple_conseq[OF ReleaseSuperseded_triple]) (auto simp: owns_def released_def access_fence_def)
  have own: "owned claim r = (\<lambda>w. access_rely claim (w_env w) \<and> owns claim r (w_db w))"
    by (simp add: owned_def fun_eq_iff)
  have a: "triple (owned claim r) (access_update claim us) (\<lambda>_. owned claim r) (\<lambda>_. owned claim r)"
    unfolding access_update_def own by (rule triple_map_err) (use tx[OF up] in simp)
  have b: "triple (owned claim r) (map_err (Pair ImageAccessSupersededOutcome) (in_tx (ReleaseSuperseded
       (ad_image_id (cl_row claim)) (value_or_empty (ad_lease_token (cl_row claim))) now)))
       (\<lambda>_. owned claim r) (\<lambda>_. owned claim r)" for now
    unfolding own by (rule triple_map_err) (use tx[OF rel] in simp)
  show ?thesis
    unfolding update_then_def updateOutcome_def seq_def
    by (intro triple_bind[OF a] triple_if triple_ret triple_bind[OF owned_clock] triple_bind[OF b]) simp_all
qed

lemma Access_UpdateClaim_Inr:
  assumes "Access_UpdateClaim claim us s = (Inr b, s')"
  shows "b = (count_where (access_fence claim) (access_deliveries s) = 1)"
    "access_deliveries s' = upd_where (access_fence claim) (fold access_assign us) (access_deliveries s)"
  using assms by (auto simp: Access_UpdateClaim_def act_simps Let_def fenced_update_def split: if_splits)

text \<open>An update that applied wrote the row under the lease.\<close>

lemma access_update_applied:
  assumes "access_update claim us w = (Inr True, w1)"
  shows "\<exists>d. access_fence claim d \<and> fold access_assign us d \<in> set (access_deliveries (w_db w1))"
proof -
  let ?s = "w_env w (w_txs w) (w_db w)"
  from assms have "Access_UpdateClaim claim us ?s = (Inr True, w_db w1)"
    by (auto simp: access_update_def map_err_Inr_iff dest: in_tx_Inr(1))
  from Access_UpdateClaim_Inr[OF this] show ?thesis
    using count_where_0[of "access_fence claim" "access_deliveries ?s"] by (auto simp: in_upd_where_iff)
qed

lemma update_ret_row:
  assumes "update_then claim us (ret oc) w = (Inr oc', w')" "oc' \<noteq> ImageAccessSupersededOutcome"
    and "access_inv (w_db w')" "\<And>d. ad_image_id (fold access_assign us d) = ad_image_id d"
    and "d \<in> set (access_deliveries (w_db w'))" "ad_image_id d = ad_image_id (cl_row claim)"
  shows "\<exists>d0. d = fold access_assign us d0"
proof -
  from assms(1,2) have "access_update claim us w = (Inr True, w')"
    by (auto simp: ret_def elim!: update_then_Inr)
  then obtain d0 where d0: "access_fence claim d0" "fold access_assign us d0 \<in> set (access_deliveries (w_db w'))"
    using access_update_applied by blast
  moreover have "ad_image_id (fold access_assign us d0) = ad_image_id d"
    using assms(4,6) access_fence_id[OF d0(1)] by simp
  moreover have "inj_on ad_image_id (set (access_deliveries (w_db w')))"
    using assms(3) by (simp add: access_inv_def distinct_map)
  ultimately have "fold access_assign us d0 = d"
    using d0(2) assms(5) by (meson inj_onD)
  then show ?thesis by blast
qed

lemma acl_sets_id [simp]: "ad_image_id (fold access_assign (schedule_sets st at code now extra) d) = ad_image_id d"
  by (rule access_assign_id)

text \<open>
  The paths on which nothing was confirmed: the object store refused, or the claimed row was
  terminal.  They end in one update that gives up the lease and keeps the row before the access
  change or ends it dead.
\<close>

definition gives_up :: "access_claim \<Rightarrow> access_call world \<Rightarrow> (access_err + imageAccessOutcome) \<times> access_call world \<Rightarrow> bool" where
  "gives_up claim w out \<longleftrightarrow> (\<exists>us oc w1. out = update_then claim us (ret oc) w1 \<and>
     w_env w1 = w_env w \<and> w_db w1 = w_db w \<and> us \<noteq> [] \<and> access_row_ok (fold access_assign us (cl_row claim)) \<and>
     ad_lease_token (fold access_assign us (cl_row claim)) = None \<and>
     (\<forall>d. ad_state (fold access_assign us d) \<in> {ImageAccessPendingACL, ImageAccessDeadLetter}))"

lemma dead_gives_up:
  assumes "access_row_ok (cl_row claim)" "access_code_ok code" "w_env w1 = w_env w" "w_db w1 = w_db w"
  shows "gives_up claim w (dead claim code w1)"
  unfolding gives_up_def
  by (rule exI[of _ "access_dead_sets code (w_clock w1 (w_ticks w1))"], rule exI[of _ ImageAccessDeadOutcome],
      rule exI[of _ "w1\<lparr>w_ticks := Suc (w_ticks w1)\<rparr>"])
    (use assms in \<open>auto simp: dead_def bind_run clock_now_def access_dead_sets_def
       access_row_ok_def access_check_def access_terminal_def\<close>)

lemma applyACL_refused:
  assumes "set_public svc (length (w_log w)) (cl_object_key claim) (ad_desired_public (cl_row claim)) \<noteq> None"
    and ok: "access_row_ok (cl_row claim)"
  shows "gives_up claim w (applyACL opts svc claim w)"
proof -
  let ?r = "cl_row claim"
  let ?w = "w\<lparr>w_log := w_log w @ [CallSetPublic (cl_object_key claim) (ad_desired_public ?r)]\<rparr>"
  show ?thesis
  proof (cases "ad_acl_attempts ?r + 1 \<ge> ao_max_acl opts")
    case True
    then have "applyACL opts svc claim w = dead claim ''acl_exhausted'' ?w"
      using assms by (auto simp: applyACL_def Let_def bind_run ext_call_def)
    then show ?thesis using dead_gives_up[OF ok, of "''acl_exhausted''" ?w w] by simp
  next
    case False
    let ?at = "w_clock w (w_ticks w) + retryBackoff (ad_acl_attempts ?r + 1) (seconds 1) (minutes 5)"
    let ?us = "schedule_sets ImageAccessPendingACL ?at (Some ''acl_retryable'') (w_clock w (Suc (w_ticks w)))
                 [SetAdAcl (ad_acl_attempts ?r + 1)]"
    have "applyACL opts svc claim w =
        update_then claim ?us (ret ImageAccessRescheduledOutcome) (?w\<lparr>w_ticks := Suc (Suc (w_ticks w))\<rparr>)"
      using assms False by (auto simp: applyACL_def Let_def bind_run ext_call_def schedule_def clock_now_def)
    moreover have "access_row_ok (fold access_assign ?us ?r)"
      using access_row_okD[OF ok] by (simp add: schedule_facts)
    ultimately show ?thesis
      unfolding gives_up_def
      by (intro exI[of _ ?us] exI[of _ ImageAccessRescheduledOutcome]
          exI[of _ "?w\<lparr>w_ticks := Suc (Suc (w_ticks w))\<rparr>"]) (simp add: schedule_sets_def)
  qed
qed

lemma gives_up_confirmed:
  assumes rely: "access_rely claim (w_env w)" and own: "owns claim (cl_row claim) (w_db w)"
    and up: "gives_up claim w out" and inv: "access_inv (w_db (snd out))"
  shows "\<forall>d\<in>set (access_deliveries (w_db (snd out))). access_fence claim d \<longrightarrow> d = cl_row claim"
    and "fst out = Inr oc \<Longrightarrow> oc \<noteq> ImageAccessSupersededOutcome \<Longrightarrow>
      d \<in> set (access_deliveries (w_db (snd out))) \<Longrightarrow> ad_image_id d = ad_image_id (cl_row claim) \<Longrightarrow>
      ad_state d \<in> {ImageAccessPendingACL, ImageAccessDeadLetter}"
proof -
  from up obtain us oc0 w1 where out: "out = update_then claim us (ret oc0) w1"
    and w1: "w_env w1 = w_env w" "w_db w1 = w_db w" and us: "us \<noteq> []" "access_row_ok (fold access_assign us (cl_row claim))"
      "ad_lease_token (fold access_assign us (cl_row claim)) = None"
    and st: "\<And>d. ad_state (fold access_assign us d) \<in> {ImageAccessPendingACL, ImageAccessDeadLetter}"
    unfolding gives_up_def by blast
  note tr = unleased_update_triple[OF us, where oc = oc0]
  have w: "owned claim (cl_row claim) w1" using rely own w1 by (simp add: owned_def)
  obtain x w' where run: "update_then claim us (ret oc0) w1 = (x, w')" by fastforce
  have "owned claim (cl_row claim) w'"
    by (cases x) (use triple_Inl[OF tr w] triple_Inr[OF tr w] run in auto)
  then show "\<forall>d\<in>set (access_deliveries (w_db (snd out))). access_fence claim d \<longrightarrow> d = cl_row claim"
    by (simp add: out run owned_def owns_def)
  show "ad_state d \<in> {ImageAccessPendingACL, ImageAccessDeadLetter}"
    if "fst out = Inr oc" "oc \<noteq> ImageAccessSupersededOutcome" "d \<in> set (access_deliveries (w_db (snd out)))"
      "ad_image_id d = ad_image_id (cl_row claim)"
    using update_ret_row[of claim us oc0 w1 oc w' d] that inv st by (auto simp: out run)
qed

lemma call_first:
  assumes "\<And>x. moves log_grows (k x)"
  shows "\<exists>l. w_log (snd (bind (ext_call c answer) k w)) = (w_log w @ [c]) @ l"
  using assms[of "answer (length (w_log w))", unfolded moves_def, rule_format, of "w\<lparr>w_log := w_log w @ [c]\<rparr>"]
  by (auto simp: bind_run ext_call_def)

lemma applyACL_log:
  "\<exists>l. w_log (snd (applyACL opts svc claim w)) =
     (w_log w @ [CallSetPublic (cl_object_key claim) (ad_desired_public (cl_row claim))]) @ l"
  unfolding applyACL_def Let_def
  by (rule call_first) (auto intro!: growing(1) grows_update_then grows_submit intro: growing(2-))

text \<open>
  C18: nothing is reported done, and no state is entered that promises it, before the outside
  world confirmed it.  Suppose, beside what C17 assumes, that the state of the claimed row was
  confirmed by the calls logged before (a new request promises nothing, and the conclusion
  restores the hypothesis for the next claim of the row).  Then, whatever the services, the other
  sessions and the database answer: every row still under the worker's lease is confirmed by the
  calls logged now; for every outcome but superseded so is the row the outcome is about, so the
  delivery got past the access change only because the object store accepted the wanted access;
  and a reported success means that the object store accepted the wanted access of this object and,
  where a purge was asked for, that the purge provider confirmed the purge of its address.  The
  confirming call is the last external call of the run: the access change itself when no purge
  was asked for, the recovery of the recorded submission, or the query of the recorded job.
\<close>

theorem processClaim_success_confirmed:
  fixes opts :: access_opts and svc :: access_services and claim :: access_claim and w :: "access_call world"
  assumes rely: "access_rely claim (w_env w)" and own: "owns claim (cl_row claim) (w_db w)"
    and row: "access_row_ok (cl_row claim)" and jobs: "job_ids_fit svc"
    and before: "confirmed svc claim (w_log w) (ad_state (cl_row claim))"
  defines "out \<equiv> processClaim opts svc claim w"
  shows "(\<forall>d\<in>set (access_deliveries (w_db (snd out))).
            access_fence claim d \<longrightarrow> confirmed svc claim (w_log (snd out)) (ad_state d)) \<and>
     (\<forall>oc. fst out = Inr oc \<and> oc \<noteq> ImageAccessSupersededOutcome \<longrightarrow>
        (\<exists>d\<in>set (access_deliveries (w_db (snd out))).
           outcome_row opts (cl_row claim) oc d \<and> confirmed svc claim (w_log (snd out)) (ad_state d))) \<and>
     (fst out = Inr ImageAccessSucceededOutcome \<longrightarrow>
        acl_accepted svc (cl_object_key claim) (ad_desired_public (cl_row claim)) (w_log (snd out)) \<and>
        (ad_purge_required (cl_row claim) \<longrightarrow> purge_confirmed svc (cl_public_url claim) (w_log (snd out))) \<and>
        (let r = cl_row claim; url = cl_public_url claim; n = length (w_log w); calls = w_log (snd out) in
          (ad_state r = ImageAccessPendingACL \<and> \<not> ad_purge_required r \<and>
             calls = w_log w @ [CallSetPublic (cl_object_key claim) (ad_desired_public r)] \<and>
             set_public svc n (cl_object_key claim) (ad_desired_public r) = None) \<or>
          (\<exists>started ended rec. ad_state r = ImageAccessSubmitting \<and> ad_submission_started_at r = Some started \<and>
             calls = w_log w @ [CallRecover url started ended] \<and>
             purge_recover svc n url started ended = Inr rec \<and>
             (pr_effect_succeeded rec \<or> pr_found rec \<and> pr_job_id rec \<noteq> [] \<and> pr_state rec = PurgeSuccess)) \<or>
          (\<exists>job. ad_state r = ImageAccessSubmitted \<and> ad_provider_job_id r = Some job \<and>
             calls = w_log w @ [CallDescribe url job] \<and> purge_describe svc n url job = Inr PurgeSuccess)))"
proof -
  let ?r = "cl_row claim" and ?calls = "w_log (snd out)" and ?rows = "access_deliveries (w_db (snd out))"
  let ?acl = "acl_accepted svc (cl_object_key claim) (ad_desired_public ?r)"
  note safe = processClaim_safe[OF rely own row jobs, of opts, folded out_def]
  have inv: "access_inv (w_db (snd out))" using safe by blast
  obtain l where l: "?calls = w_log w @ l"
    using grows_processClaim[of opts svc claim] by (auto simp: moves_def out_def)
  have claimed: "confirmed svc claim ?calls (ad_state ?r)" unfolding l by (rule confirmed_grows[OF before])
  have outcome: "\<exists>d\<in>set ?rows. outcome_row opts ?r oc d" if "fst out = Inr oc" "oc \<noteq> ImageAccessSupersededOutcome" for oc
    using safe that by auto
  have paths: "gives_up claim w out \<or> ?acl ?calls"
  proof (cases "ad_state ?r")
    case ImageAccessPendingACL
    then have run: "out = applyACL opts svc claim w" by (simp add: out_def processClaim_def)
    show ?thesis
    proof (cases "set_public svc (length (w_log w)) (cl_object_key claim) (ad_desired_public ?r)")
      case None
      obtain l' where "?calls = (w_log w @ [CallSetPublic (cl_object_key claim) (ad_desired_public ?r)]) @ l'"
        using applyACL_log[of opts svc claim w] by (auto simp: run)
      moreover have "?acl (w_log w @ [CallSetPublic (cl_object_key claim) (ad_desired_public ?r)])"
        using None by (simp add: accepted_append)
      ultimately show ?thesis by (simp only: accepted_grows simp_thms)
    qed (use applyACL_refused[OF _ row] run in simp)
  next
    case ImageAccessDeadLetter
    then show ?thesis using dead_gives_up[OF row, of "''poll_permanent''" w w] by (simp add: out_def processClaim_def)
  qed (use claimed in \<open>simp_all add: confirmed_def\<close>)
  have success: "?acl ?calls \<and> (ad_purge_required ?r \<longrightarrow> purge_confirmed svc (cl_public_url claim) ?calls)"
    if oc: "fst out = Inr ImageAccessSucceededOutcome"
  proof -
    have run: "processClaim opts svc claim w = (Inr ImageAccessSucceededOutcome, snd out)"
      using oc by (simp add: out_def prod_eq_iff)
    obtain d where d: "d \<in> set ?rows" "outcome_row opts ?r ImageAccessSucceededOutcome d" using outcome[OF oc] by auto
    have "\<not> gives_up claim w out"
      using gives_up_confirmed(2)[OF rely own _ inv oc _ d(1)] d(2) by (auto simp: outcome_row_def)
    then have "?acl ?calls" using paths by blast
    moreover have "ad_purge_required ?r \<longrightarrow> purge_confirmed svc (cl_public_url claim) ?calls"
      using processClaim_success_calls[OF run] by (auto simp: Let_def accepted_append)
    ultimately show ?thesis by blast
  qed
  have fenced: "confirmed svc claim ?calls (ad_state d)" if d: "d \<in> set ?rows" "access_fence claim d" for d
  proof (cases "gives_up claim w out")
    case True
    then show ?thesis using gives_up_confirmed(1)[OF rely own True inv] d claimed by auto
  next
    case False
    have "ad_state d \<noteq> ImageAccessSucceeded"
      using inv d by (auto simp: access_inv_def list_all_iff access_row_ok_def access_fence_def access_terminal_def)
    then show ?thesis using paths False by (simp add: confirmed_def)
  qed
  have done': "confirmed svc claim ?calls (ad_state d)"
    if d: "d \<in> set ?rows" "outcome_row opts ?r oc d" and oc: "fst out = Inr oc" "oc \<noteq> ImageAccessSupersededOutcome" for oc d
  proof (cases "gives_up claim w out")
    case True
    then have "ad_state d \<in> {ImageAccessPendingACL, ImageAccessDeadLetter}"
      using gives_up_confirmed(2)[OF rely own True inv oc d(1)] d(2) by (simp add: outcome_row_def)
    then show ?thesis by (auto simp: confirmed_def)
  next
    case False
    then have "?acl ?calls" using paths by blast
    moreover have "ad_state d = ImageAccessSucceeded \<Longrightarrow> oc = ImageAccessSucceededOutcome"
      using d(2) by (simp add: outcome_row_def)
    ultimately show ?thesis using success oc(1) by (auto simp: confirmed_def)
  qed
  show ?thesis
  proof (intro conjI ballI allI impI)
    fix d assume "d \<in> set ?rows" "access_fence claim d"
    then show "confirmed svc claim ?calls (ad_state d)" by (rule fenced)
  next
    fix oc assume oc: "fst out = Inr oc \<and> oc \<noteq> ImageAccessSupersededOutcome"
    then obtain d where "d \<in> set ?rows" "outcome_row opts ?r oc d" using outcome by blast
    with done' oc show "\<exists>d\<in>set ?rows. outcome_row opts ?r oc d \<and> confirmed svc claim ?calls (ad_state d)" by blast
  next
    assume oc: "fst out = Inr ImageAccessSucceededOutcome"
    show "?acl ?calls" using success[OF oc] by blast
    show "purge_confirmed svc (cl_public_url claim) ?calls" if "ad_purge_required ?r" using success[OF oc] that by blast
    have "processClaim opts svc claim w = (Inr ImageAccessSucceededOutcome, snd out)"
      using oc by (simp add: out_def prod_eq_iff)
    from processClaim_success_calls[OF this] show "let r = cl_row claim; url = cl_public_url claim; n = length (w_log w);
          calls = w_log (snd out) in
          (ad_state r = ImageAccessPendingACL \<and> \<not> ad_purge_required r \<and>
             calls = w_log w @ [CallSetPublic (cl_object_key claim) (ad_desired_public r)] \<and>
             set_public svc n (cl_object_key claim) (ad_desired_public r) = None) \<or>
          (\<exists>started ended rec. ad_state r = ImageAccessSubmitting \<and> ad_submission_started_at r = Some started \<and>
             calls = w_log w @ [CallRecover url started ended] \<and>
             purge_recover svc n url started ended = Inr rec \<and>
             (pr_effect_succeeded rec \<or> pr_found rec \<and> pr_job_id rec \<noteq> [] \<and> pr_state rec = PurgeSuccess)) \<or>
          (\<exists>job. ad_state r = ImageAccessSubmitted \<and> ad_provider_job_id r = Some job \<and>
             calls = w_log w @ [CallDescribe url job] \<and> purge_describe svc n url job = Inr PurgeSuccess)"
      by (simp add: Let_def)
  qed
qed

text \<open>A committed submitting row: what a restart needs to find out about the submission.\<close>

definition submission_recorded :: "access_claim \<Rightarrow> time \<Rightarrow> db \<Rightarrow> bool" where
  "submission_recorded claim startedAt s \<longleftrightarrow> (\<exists>d\<in>set (access_deliveries s).
     access_fence claim d \<and> ad_state d = ImageAccessSubmitting \<and>
     ad_submit_attempts d = ad_submit_attempts (cl_row claim) + 1 \<and> ad_submission_started_at d = Some startedAt)"

lemma submitting_update_recorded:
  assumes "access_update claim (submitting_sets claim t) w = (Inr True, w1)"
  shows "submission_recorded claim t (w_db w1)"
proof -
  obtain d where "access_fence claim d" "fold access_assign (submitting_sets claim t) d \<in> set (access_deliveries (w_db w1))"
    using access_update_applied[OF assms] by blast
  then show ?thesis
    unfolding submission_recorded_def by (intro bexI) (auto simp: submitting_sets_def access_fence_def)
qed

text \<open>
  Where a run stands when it is about to submit: at its start for a row that waits for its
  submission, and otherwise right after the object store accepted the access change and the move
  of the row to that state was committed.
\<close>

definition submission_point :: "access_services \<Rightarrow> access_claim \<Rightarrow> access_call world \<Rightarrow> access_claim \<Rightarrow> access_call world \<Rightarrow> bool" where
  "submission_point svc claim w c w0 \<longleftrightarrow>
     ad_state (cl_row claim) = ImageAccessPendingSubmit \<and> c = claim \<and> w0 = w \<or>
     ad_state (cl_row claim) = ImageAccessPendingACL \<and> ad_purge_required (cl_row claim) \<and>
     set_public svc (length (w_log w)) (cl_object_key claim) (ad_desired_public (cl_row claim)) = None \<and>
     c = claim\<lparr>cl_row := (cl_row claim)\<lparr>ad_state := ImageAccessPendingSubmit\<rparr>\<rparr> \<and>
     access_update claim
       [SetAdState ImageAccessPendingSubmit, SetAdNext (Some (w_clock w (w_ticks w))), SetAdError None,
        SetAdUpdated (w_clock w (Suc (w_ticks w)))]
       (w\<lparr>w_log := w_log w @ [CallSetPublic (cl_object_key claim) (ad_desired_public (cl_row claim))],
          w_ticks := Suc (Suc (w_ticks w))\<rparr>) = (Inr True, w0)"

text \<open>From there: the update of the row commits, and only then the provider is called, once.\<close>

definition submits_from :: "access_opts \<Rightarrow> access_services \<Rightarrow> access_claim \<Rightarrow> access_call world \<Rightarrow> access_call world \<Rightarrow>
    (access_err + imageAccessOutcome) \<times> access_call world \<Rightarrow> bool" where
  "submits_from opts svc c w0 w1 out \<longleftrightarrow>
     ad_submit_attempts (cl_row c) < ao_max_submissions opts \<and>
     access_update c (submitting_sets c (w_clock w0 (w_ticks w0))) (w0\<lparr>w_ticks := Suc (w_ticks w0)\<rparr>) = (Inr True, w1) \<and>
     out = bind (ext_call (CallSubmit (cl_public_url c)) (\<lambda>n. purge_submit svc n (cl_public_url c)))
             (submit_answer (c\<lparr>cl_row := (cl_row c)\<lparr>ad_state := ImageAccessSubmitting,
                ad_submit_attempts := ad_submit_attempts (cl_row c) + 1,
                ad_submission_started_at := Some (w_clock w0 (w_ticks w0))\<rparr>\<rparr>)) w1"

lemma update_log: "access_update claim us w = (r, w') \<Longrightarrow> w_log w' = w_log w"
  unfolding access_update_def by (rule movesD[OF moves_map_err[OF silent_in_tx]])

lemma not_updated_log:
  assumes "access_update claim us w = (r, w1)" "r \<noteq> Inr True"
  shows "w_log (snd (update_then claim us k w)) = w_log w"
proof -
  have "moves same_log (updateOutcome claim False)"
    unfolding updateOutcome_def seq_def by (auto intro!: silent)
  then show ?thesis
    using assms update_log[OF assms(1)] by (cases r) (auto simp: update_then_def bind_run moves_def)
qed

lemma submit_calls:
  "w_log (snd (submit opts svc claim w)) = w_log w \<or> (\<exists>w1. submits_from opts svc claim w w1 (submit opts svc claim w))"
proof (cases "ad_submit_attempts (cl_row claim) \<ge> ao_max_submissions opts")
  case True
  then show ?thesis using silent_leaves(1) by (simp add: submit_def moves_def)
next
  case False
  let ?us = "submitting_sets claim (w_clock w (w_ticks w))" and ?w = "w\<lparr>w_ticks := Suc (w_ticks w)\<rparr>"
  obtain r w1 where up: "access_update claim ?us ?w = (r, w1)" by fastforce
  show ?thesis
  proof (cases "r = Inr True")
    case True
    then have "submits_from opts svc claim w w1 (submit opts svc claim w)"
      using False up by (simp add: submits_from_def submit_def bind_run clock_now_def update_then_def Let_def)
    then show ?thesis by blast
  next
    case changed: False
    then show ?thesis
      using False not_updated_log[OF up changed] by (simp add: submit_def bind_run clock_now_def Let_def)
  qed
qed

lemma applyACL_calls:
  assumes st: "ad_state (cl_row claim) = ImageAccessPendingACL"
  shows "w_log (snd (applyACL opts svc claim w)) =
       w_log w @ [CallSetPublic (cl_object_key claim) (ad_desired_public (cl_row claim))] \<or>
     (\<exists>c w0 w1. submission_point svc claim w c w0 \<and> submits_from opts svc c w0 w1 (applyACL opts svc claim w))"
proof -
  let ?r = "cl_row claim" and ?call = "CallSetPublic (cl_object_key claim) (ad_desired_public (cl_row claim))"
  let ?c = "claim\<lparr>cl_row := ?r\<lparr>ad_state := ImageAccessPendingSubmit\<rparr>\<rparr>"
  let ?us = "[SetAdState ImageAccessPendingSubmit, SetAdNext (Some (w_clock w (w_ticks w))), SetAdError None,
              SetAdUpdated (w_clock w (Suc (w_ticks w)))]"
  let ?w = "w\<lparr>w_log := w_log w @ [?call], w_ticks := Suc (Suc (w_ticks w))\<rparr>"
  show ?thesis
  proof (cases "set_public svc (length (w_log w)) (cl_object_key claim) (ad_desired_public ?r) = None \<and> ad_purge_required ?r")
    case True
    then have run: "applyACL opts svc claim w = update_then claim ?us (submit opts svc ?c) ?w"
      by (simp add: applyACL_def Let_def bind_run ext_call_def clock_now_def)
    obtain r w0 where up: "access_update claim ?us ?w = (r, w0)" by fastforce
    show ?thesis
    proof (cases "r = Inr True")
      case True
      then have sub: "applyACL opts svc claim w = submit opts svc ?c w0" using run up by (simp add: bind_run update_then_def)
      have "submission_point svc claim w ?c w0"
        using st up True \<open>_ \<and> ad_purge_required ?r\<close> by (simp add: submission_point_def)
      with submit_calls[of opts svc ?c w0] update_log[OF up] show ?thesis unfolding sub by auto
    next
      case False
      from not_updated_log[OF up False] show ?thesis by (simp add: run)
    qed
  next
    case False
    then show ?thesis
      using silent_leaves by (auto simp: applyACL_def Let_def bind_run ext_call_def moves_def clock_now_def)
  qed
qed

lemma processClaim_calls:
  assumes "CallSubmit url \<in> set (drop (length (w_log w)) (w_log (snd (processClaim opts svc claim w))))"
  obtains c w0 w1 where "submission_point svc claim w c w0" "submits_from opts svc c w0 w1 (processClaim opts svc claim w)"
proof -
  have dead: "w_log (snd (dead claim code w)) = w_log w" for code using silent_leaves(1) by (simp add: moves_def)
  show ?thesis
  proof (cases "ad_state (cl_row claim)")
    case ImageAccessPendingACL
    then show ?thesis using that applyACL_calls[of claim opts svc w] assms by (auto simp: processClaim_def)
  next
    case ImageAccessPendingSubmit
    then show ?thesis using that[of claim w] submit_calls[of opts svc claim w] assms
      by (auto simp: processClaim_def submission_point_def)
  next
    case ImageAccessSubmitting
    have "CallSubmit url \<notin> set (drop (length (w_log w)) (w_log (snd (recoverSubmission opts svc claim w))))"
      using silent_answers(3) silent_branches(2) silent_leaves(1)
      by (auto simp: recoverSubmission_def bind_run clock_now_def ext_call_def moves_def split: option.split sum.split)
    then show ?thesis using assms ImageAccessSubmitting by (simp add: processClaim_def)
  next
    case ImageAccessSubmitted
    have "CallSubmit url \<notin> set (drop (length (w_log w)) (w_log (snd (poll opts svc claim w))))"
      using silent_answers(2) silent_leaves(1)
      by (auto simp: poll_def bind_run ext_call_def moves_def split: option.split)
    then show ?thesis using assms ImageAccessSubmitted by (simp add: processClaim_def)
  qed (use assms dead in \<open>simp_all add: processClaim_def\<close>)
qed

text \<open>
  C19: a cache purge is never submitted without a durable trace, and never more often than
  allowed.  Whenever processing a claim submits a purge, it is for the claim's own URL, and the
  number of earlier submissions of this generation was below the limit.  The run first came, by
  its own steps from its own start, to the point where it submits (\<open>c\<close>, \<open>w0\<close>): its start, or
  the committed move of the row after the object store accepted the access change.  From there
  the next step was the update that records the submission, and it committed and reported
  success, in the world \<open>w1\<close>: the row under this worker's lease was then in the submitting state,
  with the submission counted and the time of the attempt, from which a later worker can
  reconcile a lost answer.  The run continued from \<open>w1\<close> with the call.  It is the only submission
  of the run and its last external call, and before it there was at most the access change.
\<close>

theorem purge_submission_write_ahead:
  assumes "CallSubmit url \<in> set (drop (length (w_log w)) (w_log (snd (processClaim opts svc claim w))))"
  shows "url = cl_public_url claim \<and> ad_submit_attempts (cl_row claim) < ao_max_submissions opts \<and>
    (\<exists>c w0 w1. submission_point svc claim w c w0 \<and>
       access_update c (submitting_sets c (w_clock w0 (w_ticks w0))) (w0\<lparr>w_ticks := Suc (w_ticks w0)\<rparr>) = (Inr True, w1) \<and>
       submission_recorded claim (w_clock w0 (w_ticks w0)) (w_db w1) \<and>
       processClaim opts svc claim w =
         bind (ext_call (CallSubmit url) (\<lambda>n. purge_submit svc n url))
           (submit_answer (c\<lparr>cl_row := (cl_row c)\<lparr>ad_state := ImageAccessSubmitting,
              ad_submit_attempts := ad_submit_attempts (cl_row c) + 1,
              ad_submission_started_at := Some (w_clock w0 (w_ticks w0))\<rparr>\<rparr>)) w1) \<and>
    (let acl = (if ad_state (cl_row claim) = ImageAccessPendingACL
                then [CallSetPublic (cl_object_key claim) (ad_desired_public (cl_row claim))] else [])
     in w_log (snd (processClaim opts svc claim w)) = w_log w @ acl @ [CallSubmit url])"
proof -
  let ?run = "processClaim opts svc claim w"
  obtain c w0 w1 where p: "submission_point svc claim w c w0" and s: "submits_from opts svc c w0 w1 ?run"
    by (rule processClaim_calls[OF assms])
  let ?t = "w_clock w0 (w_ticks w0)"
  from p have c: "cl_public_url c = cl_public_url claim" "ad_submit_attempts (cl_row c) = ad_submit_attempts (cl_row claim)"
    and fence: "access_fence c = access_fence claim"
    by (auto simp: submission_point_def access_fence_def fun_eq_iff)
  from p have log0: "w_log w0 = w_log w @ (if ad_state (cl_row claim) = ImageAccessPendingACL
      then [CallSetPublic (cl_object_key claim) (ad_desired_public (cl_row claim))] else [])"
    by (auto simp: submission_point_def dest: update_log)
  from s have up: "access_update c (submitting_sets c ?t) (w0\<lparr>w_ticks := Suc (w_ticks w0)\<rparr>) = (Inr True, w1)"
    by (simp add: submits_from_def)
  have log1: "w_log w1 = w_log w0" using update_log[OF up] by simp
  have log: "w_log (snd ?run) = w_log w1 @ [CallSubmit (cl_public_url claim)]"
    using s silent_answers(1) by (auto simp: submits_from_def bind_run ext_call_def moves_def c)
  have url: "url = cl_public_url claim"
    using assms unfolding log log1 log0 by (auto split: if_splits)
  have rec: "submission_recorded claim ?t (w_db w1)"
    using submitting_update_recorded[OF up] by (simp add: submission_recorded_def fence c)
  have run: "?run = bind (ext_call (CallSubmit url) (\<lambda>n. purge_submit svc n url))
           (submit_answer (c\<lparr>cl_row := (cl_row c)\<lparr>ad_state := ImageAccessSubmitting,
              ad_submit_attempts := ad_submit_attempts (cl_row c) + 1,
              ad_submission_started_at := Some ?t\<rparr>\<rparr>)) w1"
    and limit: "ad_submit_attempts (cl_row claim) < ao_max_submissions opts"
    using s by (simp_all add: submits_from_def c url)
  show ?thesis
    by (intro conjI exI[of _ c] exI[of _ w0] exI[of _ w1] url limit p up rec run) (simp add: log log1 log0 url)
qed

subsection \<open>Concrete runs\<close>

abbreviation "sample_lease \<equiv> ''0123456789abcdef''"

definition sample_image :: image_asset where
  "sample_image = \<lparr>img_id = 1, img_uploader_id = Some 1, img_purpose = PurposePost, img_object_key = ''k1'',
     img_public_url = ''https://img/k1'', img_content_type = ''image/png'', img_size = Some 10, img_status = ImgReady,
     img_moderation = ModPass, img_created_at = 0, img_updated_at = 0\<rparr>"

definition sample_record :: "row_id \<Rightarrow> moderation_record" where
  "sample_record i = \<lparr>mr_id = i, mr_post_id = None, mr_comment_id = None, mr_image_id = Some 1, mr_tag_id = None,
     mr_user_id = None, mr_field = None, mr_username_candidate = None, mr_username_revision = None,
     mr_content_revision = None, mr_scene = SceneImage, mr_provider = ''ims'', mr_provider_job_id = None,
     mr_verdict = VerdictPass, mr_labels = [], mr_score = None, mr_raw_response = None, mr_reviewer_id = None,
     mr_reviewed_at = None, mr_supersedes_id = None, mr_created_at = 0\<rparr>"

definition access_db :: db where
  "access_db = empty_db\<lparr>images := [sample_image], moderation_records := [sample_record 1, sample_record 2]\<rparr>"

text \<open>One request, claimed by a worker.\<close>

definition requested_db :: "bool \<Rightarrow> db" where
  "requested_db purge = snd (Access_Enqueue 1 1 True purge 0 access_db)"

definition sample_claim :: "bool \<Rightarrow> access_claim" where
  "sample_claim purge = \<lparr>cl_row = access_grant sample_lease 5 (seconds 60) (new_delivery 1 1 True purge 0),
     cl_object_key = ''k1'', cl_public_url = ''https://img/k1''\<rparr>"

definition claimed_world :: "bool \<Rightarrow> access_call world" where
  "claimed_world purge = \<lparr>w_db = (requested_db purge)\<lparr>access_deliveries := [cl_row (sample_claim purge)]\<rparr>,
     w_env = (\<lambda>_ d. d), w_txs = 0, w_tx_fault = (\<lambda>_. False), w_tx_lost = (\<lambda>_. False),
     w_clock = (\<lambda>n. seconds (15 * int n)), w_ticks = 1, w_log = []\<rparr>"

definition sample_services :: access_services where
  "sample_services = \<lparr>set_public = (\<lambda>_ _ _. None),
     purge_submit = (\<lambda>_ _. Inr \<lparr>ps_job_id = ''job-1'', ps_partial = False\<rparr>),
     purge_recover = (\<lambda>_ _ _ _. Inl Unclassified),
     purge_describe = (\<lambda>n _ _. if n = 9 then Inl (Classified PurgeErrorRetryable) else Inr PurgeProcessing)\<rparr>"

definition default_access_opts :: access_opts where
  "default_access_opts = withImageAccessWorkerDefaults
     \<lparr>ao_batch_size = 0, ao_lease = 0, ao_acl_timeout = 0, ao_unknown_grace = 0, ao_pending_timeout = 0,
      ao_max_acl = 0, ao_max_submissions = 0, ao_max_poll_failures = 0, ao_max_unknown_checks = 0\<rparr>"

theorem processClaim_safe_witness:
  "let claim = sample_claim True; w = claimed_world True; run = processClaim default_access_opts sample_services claim w
   in fst run = Inr ImageAccessRescheduledOutcome \<and>
      (\<exists>d\<in>set (access_deliveries (w_db (snd run))).
         outcome_row default_access_opts (cl_row claim) ImageAccessRescheduledOutcome d)"
proof -
  let ?claim = "sample_claim True" and ?w = "claimed_world True"
  have rely: "access_rely ?claim (w_env ?w)" by (simp add: access_rely_def claimed_world_def)
  have inv: "access_inv (w_db ?w)" and row: "access_row_ok (cl_row ?claim)" by code_simp+
  have own: "owns ?claim (cl_row ?claim) (w_db ?w)" using inv by (simp add: owns_def claimed_world_def)
  have jobs: "job_ids_fit sample_services" by (simp add: job_ids_fit_def sample_services_def)
  have out: "fst (processClaim default_access_opts sample_services ?claim ?w) = Inr ImageAccessRescheduledOutcome"
    by code_simp
  show ?thesis
    using processClaim_safe[OF rely own row jobs, of default_access_opts] out by (simp add: Let_def)
qed

theorem processClaim_success_confirmed_witness:
  "let claim = sample_claim False; w = claimed_world False; run = processClaim default_access_opts sample_services claim w
   in fst run = Inr ImageAccessSucceededOutcome \<and> acl_accepted sample_services ''k1'' True (w_log (snd run)) \<and>
      (\<exists>d\<in>set (access_deliveries (w_db (snd run))).
         outcome_row default_access_opts (cl_row claim) ImageAccessSucceededOutcome d)"
proof -
  let ?claim = "sample_claim False" and ?w = "claimed_world False"
  let ?run = "processClaim default_access_opts sample_services ?claim ?w"
  have out: "fst ?run = Inr ImageAccessSucceededOutcome" by code_simp
  have rely: "access_rely ?claim (w_env ?w)" by (simp add: access_rely_def claimed_world_def)
  have inv: "access_inv (w_db ?w)" and row: "access_row_ok (cl_row ?claim)" by code_simp+
  have own: "owns ?claim (cl_row ?claim) (w_db ?w)" using inv by (simp add: owns_def claimed_world_def)
  have jobs: "job_ids_fit sample_services" by (simp add: job_ids_fit_def sample_services_def)
  have before: "confirmed sample_services ?claim (w_log ?w) (ad_state (cl_row ?claim))" by code_simp
  have st: "cl_object_key ?claim = ''k1''" "ad_desired_public (cl_row ?claim) = True" by code_simp+
  show ?thesis
    using processClaim_success_confirmed[OF rely own row jobs before, of default_access_opts] out
    unfolding Let_def st by blast
qed

theorem purge_submission_write_ahead_witness:
  "let claim = sample_claim True; w = claimed_world True; run = processClaim default_access_opts sample_services claim w
   in w_log (snd run) = [CallSetPublic ''k1'' True, CallSubmit ''https://img/k1''] \<and>
      (\<exists>c w0 w1. submission_point sample_services claim w c w0 \<and>
         access_update c (submitting_sets c (w_clock w0 (w_ticks w0))) (w0\<lparr>w_ticks := Suc (w_ticks w0)\<rparr>) = (Inr True, w1) \<and>
         submission_recorded claim (w_clock w0 (w_ticks w0)) (w_db w1))"
proof -
  let ?claim = "sample_claim True" and ?w = "claimed_world True"
  let ?run = "processClaim default_access_opts sample_services ?claim ?w"
  have log: "w_log (snd ?run) = [CallSetPublic ''k1'' True, CallSubmit ''https://img/k1'']" and w: "w_log ?w = []"
    by code_simp+
  then have "CallSubmit ''https://img/k1'' \<in> set (drop (length (w_log ?w)) (w_log (snd ?run)))" by simp
  from purge_submission_write_ahead[OF this] log show ?thesis unfolding Let_def by blast
qed

theorem Access_Enqueue_supersedes_witness:
  "let s = w_db (claimed_world True); run = Access_Enqueue 1 2 True False 50 s; claim = sample_claim True
   in fst run = Inr True \<and>
      (\<exists>d\<in>set (access_deliveries (snd run)). ad_image_id d = 1 \<and> ad_generation d = 2 \<and> ad_state d = ImageAccessPendingACL) \<and>
      fenced_update (access_fence claim) (\<lambda>d. d\<lparr>ad_state := ImageAccessSucceeded\<rparr>) (access_deliveries (snd run)) =
        (False, access_deliveries (snd run))"
proof -
  let ?s = "w_db (claimed_world True)" and ?claim = "sample_claim True"
  let ?run = "Access_Enqueue 1 2 True False 50 ?s"
  have out: "fst ?run = Inr True" and inv: "access_inv ?s" by code_simp+
  have run: "?run = (Inr True, snd ?run)" using out by (simp add: prod_eq_iff)
  have d0: "cl_row ?claim \<in> set (access_deliveries ?s)" by (simp add: claimed_world_def)
  have id: "ad_image_id (cl_row ?claim) = 1" and gen: "ad_generation (cl_row ?claim) = 1" by code_simp+
  from Access_Enqueue_supersedes[OF run inv d0 id id order.refl, of "\<lambda>d. d\<lparr>ad_state := ImageAccessSucceeded\<rparr>"]
  show ?thesis using out by (auto simp: Let_def gen)
qed

text \<open>
  The budget of poll failures is also spent by ordinary polls: a query that answers "still
  processing" counts in the same column as a failed one, without an error being recorded, and
  the first transient failure after \<open>MaxPollFailures - 1\<close> such answers ends the delivery as
  exhausted although only one query has failed.
\<close>

theorem poll_budget_spent_by_processing:
  assumes "ad_state (cl_row claim) = ImageAccessSubmitted" "ad_provider_job_id (cl_row claim) = Some job"
    "ad_submission_started_at (cl_row claim) = Some startedAt"
  shows "(purge_describe svc (length (w_log w)) (cl_public_url claim) job = Inr PurgeProcessing \<and>
          w_clock w (w_ticks w) - startedAt < ao_pending_timeout opts \<longrightarrow>
          (\<exists>at. processClaim opts svc claim w =
             schedule claim ImageAccessSubmitted at None [SetAdPoll (ad_poll_attempts (cl_row claim) + 1)]
               (w\<lparr>w_log := w_log w @ [CallDescribe (cl_public_url claim) job], w_ticks := Suc (Suc (w_ticks w))\<rparr>))) \<and>
         (purge_describe svc (length (w_log w)) (cl_public_url claim) job = Inl (Classified PurgeErrorRetryable) \<and>
          ad_poll_attempts (cl_row claim) + 1 \<ge> ao_max_poll_failures opts \<longrightarrow>
          processClaim opts svc claim w = dead claim ''poll_exhausted''
            (w\<lparr>w_log := w_log w @ [CallDescribe (cl_public_url claim) job]\<rparr>))"
  using assms
  by (auto simp: processClaim_def poll_def poll_answer_def Let_def bind_run ext_call_def clock_now_def
      terminalPurgeState_def)

end
