(* ===== verification/Retry_Store.thy ===== *)
theory Retry_Store
  imports Lease_Queue Backoff
begin

section \<open>The queue of image reviews to be retried\<close>

text \<open>
  Models \<open>internal/repository/image_moderation_retry.go\<close> and the constraints of
  \<open>migrations/00016_image_moderation_retry.sql\<close>: images whose first submission to the review
  provider failed wait here, one row per image, until a worker gets them accepted, their result
  arrives, or the attempts are exhausted.
\<close>

definition retry_codes :: "string list" where
  "retry_codes = [''submit_failed'', ''invalid_submission'', ''submit_exhausted'']"

definition retry_check :: "moderation_retry \<Rightarrow> bool" where
  "retry_check r \<longleftrightarrow> 0 < rt_attempts r \<and> List.member retry_codes (rt_last_error_code r) \<and>
     (rt_lease_token r = None) = (rt_lease_until r = None) \<and>
     (case rt_lease_token r of None \<Rightarrow> True | Some tok \<Rightarrow> 16 \<le> length tok \<and> length tok \<le> 64) \<and>
     (rt_state r = RetryDeadLetter) = (rt_next_attempt_at r = None) \<and>
     (rt_state r = RetryDeadLetter) = (rt_dead_lettered_at r \<noteq> None) \<and>
     (rt_state r = RetryPending \<or> rt_lease_token r = None)"

definition retry_table_ok :: "db \<Rightarrow> bool" where
  "retry_table_ok s \<longleftrightarrow> list_all retry_check (moderation_retries s)"

definition Retry_Enqueue :: "row_id \<Rightarrow> time \<Rightarrow> string \<Rightarrow> time \<Rightarrow> (db, repo_error, unit) act" where
  "Retry_Enqueue img nextAttemptAt errorCode now = checked ''image_moderation_retries'' retry_table_ok (\<lambda>s.
     if \<exists>r\<in>set (moderation_retries s). rt_image_id r = img then ((), s)
     else ((), s\<lparr>moderation_retries := moderation_retries s @
            [\<lparr>rt_image_id = img, rt_state = RetryPending, rt_attempts = 1, rt_next_attempt_at = Some nextAttemptAt,
              rt_lease_token = None, rt_lease_until = None, rt_last_error_code = errorCode,
              rt_dead_lettered_at = None, rt_created_at = now, rt_updated_at = now\<rparr>]\<rparr>))"

definition retry_key :: "moderation_retry \<Rightarrow> time \<times> row_id" where
  "retry_key r = (case rt_next_attempt_at r of None \<Rightarrow> 0 | Some t \<Rightarrow> t, rt_image_id r)"

definition retry_due :: "time \<Rightarrow> moderation_retry \<Rightarrow> bool" where
  "retry_due now r \<longleftrightarrow> rt_state r = RetryPending \<and>
     (case rt_next_attempt_at r of None \<Rightarrow> False | Some t \<Rightarrow> t \<le> now) \<and>
     (case rt_lease_until r of None \<Rightarrow> True | Some u \<Rightarrow> u \<le> now)"

definition retry_grant :: "string \<Rightarrow> time \<Rightarrow> time \<Rightarrow> moderation_retry \<Rightarrow> moderation_retry" where
  "retry_grant token now until r = r\<lparr>rt_lease_token := Some token, rt_lease_until := Some until, rt_updated_at := now\<rparr>"

record retry_claim =
  rc_row :: moderation_retry
  rc_object_key :: string
  rc_moderation :: ModerationStatus

definition retry_with_asset :: "db \<Rightarrow> moderation_retry \<Rightarrow> retry_claim option" where
  "retry_with_asset s r = map_option
     (\<lambda>a. \<lparr>rc_row = r, rc_object_key = img_object_key a, rc_moderation = img_moderation a\<rparr>)
     (find (\<lambda>a. img_id a = rt_image_id r) (images s))"

definition Retry_ClaimDue ::
  "(row_id \<Rightarrow> bool) \<Rightarrow> time \<Rightarrow> time \<Rightarrow> string \<Rightarrow> int \<Rightarrow> (db, repo_error, retry_claim list) act" where
  "Retry_ClaimDue locked now leaseUntil leaseToken limit =
     (if limit \<le> 0 \<or> limit > 100 then fail (RepoPlain ''claim limit must be between 1 and 100'')
      else checked ''image_moderation_retries'' retry_table_ok (\<lambda>s.
        case claim_due retry_key rt_image_id retry_due retry_grant locked now leaseUntil leaseToken
               (nat limit) (moderation_retries s) of
          (claimed, t) \<Rightarrow> (List.map_filter (retry_with_asset s) claimed, s\<lparr>moderation_retries := t\<rparr>)))"

definition retry_fence :: "retry_claim \<Rightarrow> moderation_retry \<Rightarrow> bool" where
  "retry_fence claim r \<longleftrightarrow> rt_image_id r = rt_image_id (rc_row claim) \<and> rt_state r = RetryPending \<and>
     rt_lease_token r = Some (value_or_empty (rt_lease_token (rc_row claim)))"

definition RescheduleClaim ::
  "retry_claim \<Rightarrow> int \<Rightarrow> time \<Rightarrow> string \<Rightarrow> time \<Rightarrow> (db, repo_error, bool) act" where
  "RescheduleClaim claim attempts nextAttemptAt errorCode now =
     checked ''image_moderation_retries'' retry_table_ok (\<lambda>s.
       case fenced_update (retry_fence claim)
              (\<lambda>r. r\<lparr>rt_attempts := attempts, rt_next_attempt_at := Some nextAttemptAt, rt_lease_token := None,
                     rt_lease_until := None, rt_last_error_code := errorCode, rt_updated_at := now\<rparr>)
              (moderation_retries s) of
         (updated, t) \<Rightarrow> (updated, s\<lparr>moderation_retries := t\<rparr>))"

definition DeadLetterClaim :: "retry_claim \<Rightarrow> int \<Rightarrow> time \<Rightarrow> (db, repo_error, bool) act" where
  "DeadLetterClaim claim attempts now =
     checked ''image_moderation_retries'' retry_table_ok (\<lambda>s.
       case fenced_update (retry_fence claim)
              (\<lambda>r. r\<lparr>rt_state := RetryDeadLetter, rt_attempts := attempts, rt_next_attempt_at := None,
                     rt_lease_token := None, rt_lease_until := None, rt_last_error_code := ''submit_exhausted'',
                     rt_dead_lettered_at := Some now, rt_updated_at := now\<rparr>)
              (moderation_retries s) of
         (updated, t) \<Rightarrow> (updated, s\<lparr>moderation_retries := t\<rparr>))"

definition DeleteClaim :: "retry_claim \<Rightarrow> (db, repo_error, bool) act" where
  "DeleteClaim claim = execute (\<lambda>s.
     (count_where (retry_fence claim) (moderation_retries s) = 1,
      s\<lparr>moderation_retries := filter (\<lambda>r. \<not> retry_fence claim r) (moderation_retries s)\<rparr>))"

definition DeleteForAsset :: "row_id \<Rightarrow> (db, repo_error, unit) act" where
  "DeleteForAsset img = execute (\<lambda>s.
     ((), s\<lparr>moderation_retries := filter (\<lambda>r. rt_image_id r \<noteq> img) (moderation_retries s)\<rparr>))"

definition Retry_CountByState :: "(db, repo_error, ImageModerationRetryState \<Rightarrow> nat) act" where
  "Retry_CountByState = query (\<lambda>s st. count_where (\<lambda>r. rt_state r = st) (moderation_retries s))"

interpretation retry_q: lease_queue retry_key rt_image_id retry_due retry_grant rt_lease_token rt_lease_until
  by unfold_locales (auto simp: retry_grant_def retry_key_def retry_due_def)

end
