(* ===== verification/Go_Strings.thy ===== *)
theory Go_Strings
  imports Prelude
begin

section \<open>Go strings\<close>

text \<open>
  The parts of Go's \<open>strings\<close>, \<open>unicode\<close> and \<open>unicode/utf8\<close> that the code uses for
  trimming and counting.  A Go string is a sequence of bytes, here a \<open>char list\<close>;
  \<open>DecodeRune\<close> yields the code point and its width, and the replacement rune with width 1
  for a byte that starts no valid encoding.  All functions are total and terminate because
  every decoding step consumes at least one byte.
\<close>

type_synonym rune = int

definition rune_error :: rune where
  "rune_error = 65533"

definition byte_of :: "char \<Rightarrow> int" where
  "byte_of c = of_char c"

definition is_cont :: "int \<Rightarrow> bool" where
  "is_cont b \<longleftrightarrow> 128 \<le> b \<and> b < 192"

definition decode2 :: "int \<Rightarrow> int \<Rightarrow> (rune \<times> nat) option" where
  "decode2 b0 b1 = (if 194 \<le> b0 \<and> b0 < 224 \<and> is_cont b1
     then Some ((b0 - 192) * 64 + (b1 - 128), 2) else None)"

definition decode3 :: "int \<Rightarrow> int \<Rightarrow> int \<Rightarrow> (rune \<times> nat) option" where
  "decode3 b0 b1 b2 =
     (let r = (b0 - 224) * 4096 + (b1 - 128) * 64 + (b2 - 128)
      in if 224 \<le> b0 \<and> b0 < 240 \<and> is_cont b1 \<and> is_cont b2 \<and> 2048 \<le> r \<and> \<not> (55296 \<le> r \<and> r < 57344)
         then Some (r, 3) else None)"

definition decode4 :: "int \<Rightarrow> int \<Rightarrow> int \<Rightarrow> int \<Rightarrow> (rune \<times> nat) option" where
  "decode4 b0 b1 b2 b3 =
     (let r = (b0 - 240) * 262144 + (b1 - 128) * 4096 + (b2 - 128) * 64 + (b3 - 128)
      in if 240 \<le> b0 \<and> b0 < 245 \<and> is_cont b1 \<and> is_cont b2 \<and> is_cont b3 \<and> 65536 \<le> r \<and> r < 1114112
         then Some (r, 4) else None)"

definition or_error :: "(rune \<times> nat) option \<Rightarrow> rune \<times> nat" where
  "or_error v = (case v of None \<Rightarrow> (rune_error, 1) | Some p \<Rightarrow> p)"

fun DecodeRune :: "string \<Rightarrow> rune \<times> nat" where
  "DecodeRune [] = (rune_error, 0)"
| "DecodeRune (c # s) =
     (let b0 = byte_of c in
      if b0 < 128 then (b0, 1)
      else case s of
          [] \<Rightarrow> (rune_error, 1)
        | c1 # s1 \<Rightarrow>
            (case decode2 b0 (byte_of c1) of Some p \<Rightarrow> p | None \<Rightarrow>
             (case s1 of
                [] \<Rightarrow> (rune_error, 1)
              | c2 # s2 \<Rightarrow>
                  (case decode3 b0 (byte_of c1) (byte_of c2) of Some p \<Rightarrow> p | None \<Rightarrow>
                   (case s2 of
                      [] \<Rightarrow> (rune_error, 1)
                    | c3 # _ \<Rightarrow> or_error (decode4 b0 (byte_of c1) (byte_of c2) (byte_of c3)))))))"

lemma DecodeRune_width: "s \<noteq> [] \<Longrightarrow> 0 < snd (DecodeRune s) \<and> snd (DecodeRune s) \<le> length s"
  by (cases s)
    (auto simp: Let_def decode2_def decode3_def decode4_def or_error_def split: list.split option.split)

text \<open>\<open>utf8.RuneCountInString\<close> and the range loop over a string.\<close>

function runes :: "string \<Rightarrow> rune list" where
  "runes s = (if s = [] then [] else fst (DecodeRune s) # runes (drop (snd (DecodeRune s)) s))"
  by pat_completeness auto
termination
  by (relation "measure length") (use DecodeRune_width in auto)

declare runes.simps [simp del]

definition RuneCount :: "string \<Rightarrow> nat" where
  "RuneCount s = length (runes s)"

lemma runes_Nil [simp]: "runes [] = []"
  by (simp add: runes.simps)

lemma RuneCount_le: "RuneCount s \<le> length s"
  unfolding RuneCount_def
proof (induction s rule: runes.induct)
  case (1 s)
  show ?case
  proof (cases "s = []")
    case False
    with 1 have "length (runes (drop (snd (DecodeRune s)) s)) \<le> length s - snd (DecodeRune s)" by simp
    with DecodeRune_width[OF False] have "Suc (length (runes (drop (snd (DecodeRune s)) s))) \<le> length s" by linarith
    with False show ?thesis by (subst runes.simps) simp
  qed simp
qed

text \<open>\<open>unicode.IsSpace\<close>.\<close>

definition IsSpace :: "rune \<Rightarrow> bool" where
  "IsSpace r \<longleftrightarrow> 9 \<le> r \<and> r \<le> 13 \<or> r = 32 \<or> r = 133 \<or> r = 160 \<or> r = 5760 \<or>
     8192 \<le> r \<and> r \<le> 8202 \<or> r = 8232 \<or> r = 8233 \<or> r = 8239 \<or> r = 8287 \<or> r = 12288"

function TrimLeftSpace :: "string \<Rightarrow> string" where
  "TrimLeftSpace s = (if s \<noteq> [] \<and> IsSpace (fst (DecodeRune s)) then TrimLeftSpace (drop (snd (DecodeRune s)) s) else s)"
  by pat_completeness auto
termination
  by (relation "measure length") (use DecodeRune_width in auto)

declare TrimLeftSpace.simps [simp del]

text \<open>
  \<open>utf8.DecodeLastRuneInString\<close>: the nearest of the last four bytes that can start a rune
  is decoded; if that rune does not end the string, the last byte stands alone.
\<close>

definition rune_start :: "char \<Rightarrow> bool" where
  "rune_start c \<longleftrightarrow> \<not> is_cont (byte_of c)"

definition last_start :: "string \<Rightarrow> nat" where
  "last_start s =
     (let back = takeWhile (\<lambda>c. \<not> rune_start c) (take 4 (rev s))
      in if length back < min 4 (length s) then length s - Suc (length back) else length s - min 4 (length s))"

definition DecodeLastRune :: "string \<Rightarrow> rune \<times> nat" where
  "DecodeLastRune s =
     (if s = [] then (rune_error, 0)
      else let start = last_start s; (r, n) = DecodeRune (drop start s)
           in if start + n = length s then (r, n) else (rune_error, 1))"

function TrimRightSpace :: "string \<Rightarrow> string" where
  "TrimRightSpace s = (if s \<noteq> [] \<and> IsSpace (fst (DecodeLastRune s))
     then TrimRightSpace (take (length s - max 1 (snd (DecodeLastRune s))) s) else s)"
  by pat_completeness auto
termination
  by (relation "measure length") auto

declare TrimRightSpace.simps [simp del]

definition TrimSpace :: "string \<Rightarrow> string" where
  "TrimSpace s = TrimRightSpace (TrimLeftSpace s)"

lemma TrimLeftSpace_Nil [simp]: "TrimLeftSpace [] = []"
  by (simp add: TrimLeftSpace.simps)

lemma TrimRightSpace_Nil [simp]: "TrimRightSpace [] = []"
  by (simp add: TrimRightSpace.simps)

lemma TrimSpace_Nil [simp]: "TrimSpace [] = []"
  by (simp add: TrimSpace_def)

text \<open>Trimming twice is trimming once: what is trimmed from the right cannot bring a space to the front.\<close>

lemma DecodeRune_append:
  assumes "fst (DecodeRune s) \<noteq> rune_error"
  shows "DecodeRune (s @ t) = DecodeRune s"
proof -
  consider "s = []" | c where "s = [c]" | c c1 where "s = [c, c1]" | c c1 c2 where "s = [c, c1, c2]"
    | c c1 c2 c3 u where "s = c # c1 # c2 # c3 # u"
    by (metis list.exhaust)
  then show ?thesis
    using assms by cases (auto simp: Let_def split: option.splits if_splits)
qed

lemma IsSpace_no_error: "IsSpace r \<Longrightarrow> r \<noteq> rune_error"
  by (auto simp: IsSpace_def rune_error_def)

lemma TrimLeftSpace_head: "TrimLeftSpace s = [] \<or> \<not> IsSpace (fst (DecodeRune (TrimLeftSpace s)))"
proof (induction s rule: TrimLeftSpace.induct)
  case (1 s)
  then show ?case by (subst (1 2) TrimLeftSpace.simps) simp
qed

lemma TrimRightSpace_prefix: "\<exists>t. s = TrimRightSpace s @ t"
proof (induction s rule: TrimRightSpace.induct)
  case (1 s)
  show ?case
  proof (cases "s \<noteq> [] \<and> IsSpace (fst (DecodeLastRune s))")
    case True
    let ?n = "length s - max 1 (snd (DecodeLastRune s))"
    obtain t where "take ?n s = TrimRightSpace (take ?n s) @ t" using 1 True by blast
    then have "s = TrimRightSpace (take ?n s) @ t @ drop ?n s" by (metis append.assoc append_take_drop_id)
    moreover have "TrimRightSpace s = TrimRightSpace (take ?n s)" using True by (subst TrimRightSpace.simps) simp
    ultimately show ?thesis by metis
  next
    case False
    then show ?thesis by (subst TrimRightSpace.simps) auto
  qed
qed

lemma TrimRightSpace_idem [simp]: "TrimRightSpace (TrimRightSpace s) = TrimRightSpace s"
proof (induction s rule: TrimRightSpace.induct)
  case (1 s)
  show ?case
  proof (cases "s \<noteq> [] \<and> IsSpace (fst (DecodeLastRune s))")
    case True
    have "TrimRightSpace s = TrimRightSpace (take (length s - max 1 (snd (DecodeLastRune s))) s)"
      using True by (subst TrimRightSpace.simps) simp
    with 1 True show ?thesis by simp
  next
    case False
    then have "TrimRightSpace s = s" by (subst TrimRightSpace.simps) auto
    then show ?thesis by simp
  qed
qed

lemma TrimSpace_idem [simp]: "TrimSpace (TrimSpace s) = TrimSpace s"
proof -
  let ?u = "TrimLeftSpace s"
  obtain t where t: "?u = TrimRightSpace ?u @ t" using TrimRightSpace_prefix by blast
  have "\<not> IsSpace (fst (DecodeRune (TrimRightSpace ?u)))" if "TrimRightSpace ?u \<noteq> []"
  proof
    assume sp: "IsSpace (fst (DecodeRune (TrimRightSpace ?u)))"
    then have "DecodeRune ?u = DecodeRune (TrimRightSpace ?u)"
      using DecodeRune_append[OF IsSpace_no_error[OF sp], of t] t by simp
    with sp TrimLeftSpace_head[of s] t that show False by auto
  qed
  then have "TrimLeftSpace (TrimRightSpace ?u) = TrimRightSpace ?u" by (subst TrimLeftSpace.simps) auto
  then show ?thesis by (simp add: TrimSpace_def)
qed

text \<open>\<open>strings.HasPrefix\<close> and \<open>strings.HasSuffix\<close>.\<close>

definition HasPrefix :: "string \<Rightarrow> string \<Rightarrow> bool" where
  "HasPrefix s p \<longleftrightarrow> take (length p) s = p"

definition HasSuffix :: "string \<Rightarrow> string \<Rightarrow> bool" where
  "HasSuffix s p \<longleftrightarrow> length p \<le> length s \<and> drop (length s - length p) s = p"

lemma trim_examples:
  "TrimSpace '' a b '' = ''a b''" "TrimSpace ''  '' = []" "RuneCount ''abc'' = 3"
  by code_simp+

end
