(* ===== verification/Moderation.thy ===== *)
theory Moderation
  imports Image_Access Retry_Store Go_Strings
begin

section \<open>Content review: results, posts and manual decisions\<close>

text \<open>
  Models the statements of \<open>internal/repository/moderation.go\<close>, the image result path of
  \<open>internal/service/moderation_callback.go\<close>, the aggregation of \<open>internal/service/post_write.go\<close>,
  the alert decorator of \<open>internal/infra/alerting/after_commit.go\<close>, and the constraints and
  triggers of \<open>moderation_records\<close> that these paths depend on.

  A review record is never changed; a manual decision is a new record that supersedes one
  machine record.  A post's status is recomputed from the review state of its images and the
  latest verdict on its current text revision.
\<close>

subsection \<open>Verdicts and statuses\<close>

text \<open>The conversion \<open>model.ModerationStatus(verdict)\<close> keeps the string.\<close>

fun status_of_verdict :: "ModerationVerdict \<Rightarrow> ModerationStatus" where
  "status_of_verdict VerdictPass = ModPass"
| "status_of_verdict VerdictReview = ModReview"
| "status_of_verdict VerdictBlock = ModBlock"
| "status_of_verdict (VerdictOther s) = (if s = ''pending'' then ModPending else ModOther s)"

abbreviation "provider_manual \<equiv> ''manual''"

subsection \<open>The reviewed records\<close>

definition not_blank :: "string \<Rightarrow> bool" where
  "not_blank s \<longleftrightarrow> list_ex (\<lambda>c. c \<noteq> CHR '' '') s"

definition count_targets :: "moderation_record \<Rightarrow> nat" where
  "count_targets r = length (filter id [mr_post_id r \<noteq> None, mr_comment_id r \<noteq> None, mr_image_id r \<noteq> None,
     mr_tag_id r \<noteq> None, mr_user_id r \<noteq> None])"

text \<open>
  The constraints of the table in their latest form.  Scores are in hundredths.  The normal form
  of a username candidate is the business of the code that records one and is not repeated here,
  and so are the maximal lengths of the text columns.
\<close>

definition record_check :: "moderation_record \<Rightarrow> bool" where
  "record_check r \<longleftrightarrow> count_targets r = 1 \<and>
     (mr_verdict r = VerdictPass \<or> mr_verdict r = VerdictReview \<or> mr_verdict r = VerdictBlock) \<and>
     (mr_image_id r \<noteq> None) = (mr_scene r = SceneImage) \<and>
     (mr_user_id r = None \<or> mr_field r = Some FieldName \<or> mr_field r = Some FieldBio) \<and>
     (mr_post_id r = None \<or> mr_field r = None \<or> mr_field r = Some FieldTitle \<or> mr_field r = Some FieldContent) \<and>
     not_blank (mr_provider r) \<and> (case mr_provider_job_id r of None \<Rightarrow> True | Some j \<Rightarrow> not_blank j) \<and>
     (if mr_provider r = provider_manual then mr_reviewer_id r \<noteq> None \<and> mr_provider_job_id r = None
      else if mr_provider r = ''admin_restore'' \<or> mr_provider r = ''admin_post_delete''
      then mr_provider_job_id r = None
      else mr_reviewer_id r = None \<and> mr_reviewed_at r = None) \<and>
     (case mr_score r of None \<Rightarrow> True | Some v \<Rightarrow> 0 \<le> v \<and> v \<le> 10000) \<and>
     (mr_reviewer_id r = None) = (mr_reviewed_at r = None) \<and>
     ((mr_content_revision r = None) = (mr_post_id r = None \<and> mr_comment_id r = None)) \<and>
     (case mr_content_revision r of None \<Rightarrow> True | Some n \<Rightarrow> 1 \<le> n) \<and>
     (mr_username_candidate r = None) = (mr_username_revision r = None) \<and>
     (mr_username_candidate r = None \<or> mr_user_id r \<noteq> None \<and> mr_field r = Some FieldName)"

text \<open>The two insert triggers: a manual record, and only one, supersedes a machine record of the same object.\<close>

definition review_trigger :: "db \<Rightarrow> moderation_record \<Rightarrow> bool" where
  "review_trigger s r \<longleftrightarrow> (mr_provider r = provider_manual) = (mr_supersedes_id r \<noteq> None) \<and>
     (case mr_supersedes_id r of None \<Rightarrow> True | Some i \<Rightarrow>
        (case find (\<lambda>t. mr_id t = i) (moderation_records s) of
           None \<Rightarrow> False
         | Some t \<Rightarrow> mr_provider t \<noteq> provider_manual \<and>
             (mr_verdict t = VerdictReview \<or> mr_verdict t = VerdictBlock) \<and>
             (mr_post_id r, mr_comment_id r, mr_image_id r, mr_tag_id r, mr_user_id r, mr_scene r, mr_field r,
              mr_content_revision r, mr_username_candidate r, mr_username_revision r) =
             (mr_post_id t, mr_comment_id t, mr_image_id t, mr_tag_id t, mr_user_id t, mr_scene t, mr_field t,
              mr_content_revision t, mr_username_candidate t, mr_username_revision t)))"

text \<open>An insert into \<open>moderation_records\<close>, with the id column filled in.\<close>

definition insert_record :: "moderation_record \<Rightarrow> db \<Rightarrow> db" where
  "insert_record r s = s\<lparr>moderation_records := moderation_records s @
     [r\<lparr>mr_id := next_id mr_id (moderation_records s)\<rparr>]\<rparr>"

definition same_job :: "moderation_record \<Rightarrow> moderation_record \<Rightarrow> bool" where
  "same_job r t \<longleftrightarrow> mr_provider_job_id r \<noteq> None \<and> mr_provider t = mr_provider r \<and>
     mr_provider_job_id t = mr_provider_job_id r"

text \<open>\<open>ON CONFLICT (provider, provider_job_id) DO NOTHING\<close>: the id of the new record, or nothing.\<close>

definition CreateMachineRecordIfNew :: "moderation_record \<Rightarrow> (db, repo_error, row_id option) act" where
  "CreateMachineRecordIfNew r = stmt (\<lambda>s.
     if \<not> review_trigger s r then (Inl (RepoPlain ''restrict_violation''), s)
     else if \<not> record_check r then (Inl (CheckViolation ''moderation_records''), s)
     else if list_ex (same_job r) (moderation_records s) then (Inr None, s)
     else (Inr (Some (next_id mr_id (moderation_records s))), insert_record r s))"

definition CreateManualRecord :: "moderation_record \<Rightarrow> (db, repo_error, row_id) act" where
  "CreateManualRecord r = stmt (\<lambda>s.
     if \<not> review_trigger s r then (Inl (RepoPlain ''restrict_violation''), s)
     else if \<not> record_check r then (Inl (CheckViolation ''moderation_records''), s)
     else if mr_supersedes_id r \<noteq> None \<and> list_ex (\<lambda>t. mr_supersedes_id t = mr_supersedes_id r) (moderation_records s)
     then (Inl (UniqueViolation ''uq_mr_supersedes''), s)
     else if list_ex (same_job r) (moderation_records s) then (Inl (UniqueViolation ''uq_mr_provider_job''), s)
     else (Inr (next_id mr_id (moderation_records s)), insert_record r s))"

definition FindMachineRecordByProviderJobID :: "string \<Rightarrow> string \<Rightarrow> (db, repo_error, moderation_record) act" where
  "FindMachineRecordByProviderJobID provider jobID = query_first (\<lambda>s.
     first_by mr_id (\<lambda>r. mr_provider r = provider \<and> mr_provider_job_id r = Some jobID) (moderation_records s))"

subsection \<open>Posts and their images\<close>

definition post_pending :: "post \<Rightarrow> bool" where
  "post_pending p \<longleftrightarrow> p_status p = PostPending \<and> p_deleted_at p = None"

definition LockPostForReview :: "row_id \<Rightarrow> (db, repo_error, post) act" where
  "LockPostForReview postID = query_first (\<lambda>s. first_by p_id (\<lambda>p. p_id p = postID) (posts s))"

text \<open>\<open>post_images JOIN image_assets\<close> for one post.\<close>

definition images_of_post :: "db \<Rightarrow> row_id \<Rightarrow> image_asset list" where
  "images_of_post s postID = [a. l \<leftarrow> post_images s, pi_post_id l = postID, a \<leftarrow> images s, img_id a = pi_image_id l]"

definition LockImagesForPost :: "row_id \<Rightarrow> (db, repo_error, image_asset list) act" where
  "LockImagesForPost postID = query (\<lambda>s. sort_key img_id (images_of_post s postID))"

text \<open>The latest record on the post's current revision: \<open>ORDER BY created_at DESC, id DESC\<close>.\<close>

definition newest_first :: "moderation_record \<Rightarrow> int \<times> int" where
  "newest_first r = (- mr_created_at r, - int (mr_id r))"

definition current_post_record :: "db \<Rightarrow> row_id \<Rightarrow> int \<Rightarrow> moderation_record option" where
  "current_post_record s postID revision =
     first_by newest_first (\<lambda>r. mr_post_id r = Some postID \<and> mr_content_revision r = Some revision) (moderation_records s)"

definition LatestPostModeration :: "row_id \<Rightarrow> (db, repo_error, moderation_record) act" where
  "LatestPostModeration postID = query_first (\<lambda>s.
     case find (\<lambda>p. p_id p = postID) (posts s) of None \<Rightarrow> None
     | Some p \<Rightarrow> current_post_record s postID (p_current_revision p))"

definition PendingPostIDsForImages :: "row_id list \<Rightarrow> (db, repo_error, row_id list) act" where
  "PendingPostIDsForImages imageIDs =
     (if imageIDs = [] then ret []
      else query (\<lambda>s. sort (remdups
        [p_id p. p \<leftarrow> posts s, post_pending p, l \<leftarrow> post_images s, pi_post_id l = p_id p \<and> pi_image_id l \<in> set imageIDs])))"

definition LockPendingPostsForImage :: "row_id \<Rightarrow> (db, repo_error, row_id list) act" where
  "LockPendingPostsForImage imageID = query (\<lambda>s. sort
     [p_id p. p \<leftarrow> posts s, post_pending p, l \<leftarrow> post_images s, pi_post_id l = p_id p \<and> pi_image_id l = imageID])"

definition uniqueModerationIDs :: "row_id list \<Rightarrow> row_id list" where
  "uniqueModerationIDs values = sort (remdups (filter (\<lambda>v. v \<noteq> 0) values))"

definition LockImagesForPosts :: "row_id \<Rightarrow> row_id list \<Rightarrow> (db, repo_error, image_asset list) act" where
  "LockImagesForPosts imageID postIDs =
     bind (if postIDs = [] then ret []
           else query (\<lambda>s. [pi_image_id l. l \<leftarrow> post_images s, pi_post_id l \<in> set postIDs])) (\<lambda>related.
     let imageIDs = uniqueModerationIDs (imageID # related)
     in query (\<lambda>s. sort_key img_id (filter (\<lambda>a. img_id a \<in> set imageIDs) (images s))))"

definition UpdateImageModeration :: "row_id \<Rightarrow> ModerationStatus \<Rightarrow> (db, repo_error, unit) act" where
  "UpdateImageModeration imageID status = stmt (\<lambda>s.
     if count_where (\<lambda>a. img_id a = imageID) (images s) = 0 then (Inl ErrNotFound, s)
     else (Inr (), s\<lparr>images := upd_where (\<lambda>a. img_id a = imageID) (\<lambda>a. a\<lparr>img_moderation := status\<rparr>) (images s)\<rparr>))"

text \<open>The row conditions of the two statements of \<open>ReconcilePendingPosts\<close>.\<close>

definition latest_verdict :: "db \<Rightarrow> post \<Rightarrow> ModerationVerdict option" where
  "latest_verdict s p = map_option mr_verdict (current_post_record s (p_id p) (p_current_revision p))"

definition reconcilable :: "row_id list \<Rightarrow> post \<Rightarrow> bool" where
  "reconcilable postIDs p \<longleftrightarrow> p_id p \<in> set postIDs \<and> (p_status p = PostPending \<or> p_status p = PostRejected) \<and>
     p_deleted_at p = None"

definition must_reject :: "db \<Rightarrow> post \<Rightarrow> bool" where
  "must_reject s p \<longleftrightarrow> list_ex (\<lambda>a. img_moderation a = ModBlock) (images_of_post s (p_id p)) \<or>
     latest_verdict s p = Some VerdictBlock"

definition may_publish :: "db \<Rightarrow> post \<Rightarrow> bool" where
  "may_publish s p \<longleftrightarrow> \<not> list_ex (\<lambda>a. img_moderation a \<noteq> ModPass) (images_of_post s (p_id p)) \<and>
     latest_verdict s p = Some VerdictPass"

definition set_post_status :: "(db \<Rightarrow> post \<Rightarrow> bool) \<Rightarrow> PostStatus \<Rightarrow> (db, repo_error, nat) act" where
  "set_post_status cond status = execute (\<lambda>s.
     (count_where (cond s) (posts s), s\<lparr>posts := upd_where (cond s) (\<lambda>p. p\<lparr>p_status := status\<rparr>) (posts s)\<rparr>))"

record PostModerationTransitions =
  pt_approved :: nat
  pt_rejected :: nat

definition ReconcilePendingPosts :: "row_id list \<Rightarrow> (db, repo_error, PostModerationTransitions) act" where
  "ReconcilePendingPosts postIDs0 =
     (if postIDs0 = [] then ret \<lparr>pt_approved = 0, pt_rejected = 0\<rparr>
      else let postIDs = uniqueModerationIDs postIDs0 in
        bind (set_post_status (\<lambda>s p. reconcilable postIDs p \<and> must_reject s p) PostRejected) (\<lambda>rejected.
        bind (set_post_status (\<lambda>s p. reconcilable postIDs p \<and> may_publish s p) PostApproved) (\<lambda>approved.
          ret \<lparr>pt_approved = approved, pt_rejected = rejected\<rparr>)))"

definition imagesContainModeration :: "image_asset list \<Rightarrow> ModerationStatus \<Rightarrow> bool" where
  "imagesContainModeration imgs status = list_ex (\<lambda>a. img_moderation a = status) imgs"

definition aggregatePostModeration :: "ModerationVerdict \<Rightarrow> image_asset list \<Rightarrow> go_error + PostStatus" where
  "aggregatePostModeration textVerdict imgs =
     (if textVerdict = VerdictBlock \<or> imagesContainModeration imgs ModBlock then Inr PostRejected
      else if textVerdict = VerdictReview \<or> imagesContainModeration imgs ModReview \<or>
              imagesContainModeration imgs ModPending then Inr PostPending
      else if textVerdict \<noteq> VerdictPass then Inl (Internal (PlainErr ''unknown verdict''))
      else Inr PostApproved)"

subsection \<open>Alerts\<close>

datatype ModerationTarget = TargetPost | TargetComment | TargetImage | TargetTag | TargetUser | TargetNone

record ModerationAlert =
  al_target :: ModerationTarget
  al_target_id :: row_id
  al_field :: "ModerationField option"
  al_provider :: string
  al_job_id :: "string option"
  al_verdict :: ModerationVerdict
  al_labels :: "string list"

type_synonym 'a mod_act = "(ModerationAlert req, go_error, 'a) act"

text \<open>\<open>afterCommitAlerter.Alert\<close>: queued when the context has a queue, sent at once otherwise.\<close>

definition Alert :: "ModerationAlert \<Rightarrow> unit mod_act" where
  "Alert alert = bind (AfterCommit alert) (\<lambda>queued.
     if queued then ret () else (\<lambda>q. (Inr (), q\<lparr>rq_sent := rq_sent q @ [alert]\<rparr>)))"

definition moderationRecordTarget :: "moderation_record \<Rightarrow> ModerationTarget \<times> row_id" where
  "moderationRecordTarget r =
     (case mr_post_id r of Some i \<Rightarrow> (TargetPost, i) | None \<Rightarrow>
     (case mr_comment_id r of Some i \<Rightarrow> (TargetComment, i) | None \<Rightarrow>
     (case mr_image_id r of Some i \<Rightarrow> (TargetImage, i) | None \<Rightarrow>
     (case mr_tag_id r of Some i \<Rightarrow> (TargetTag, i) | None \<Rightarrow>
     (case mr_user_id r of Some i \<Rightarrow> (TargetUser, i) | None \<Rightarrow> (TargetNone, 0))))))"

definition manualReviewAlert :: "moderation_record \<Rightarrow> ModerationVerdict \<Rightarrow> string list \<Rightarrow> ModerationAlert" where
  "manualReviewAlert original verdict labels =
     (case moderationRecordTarget original of (target, targetID) \<Rightarrow>
        \<lparr>al_target = target, al_target_id = targetID, al_field = mr_field original, al_provider = provider_manual,
         al_job_id = None, al_verdict = verdict, al_labels = labels\<rparr>)"

subsection \<open>Results of image reviews\<close>

record ImageModerationCallback =
  cb_image_id :: row_id
  cb_object_key :: string
  cb_provider :: string
  cb_job_id :: string
  cb_verdict :: ModerationVerdict
  cb_labels :: "string list"
  cb_score :: "int option"
  cb_raw :: "string option"

record ImageModerationApplyResult =
  res_duplicate :: bool
  res_approved :: nat
  res_rejected :: nat

definition svc :: "(repo_error \<Rightarrow> go_error) \<Rightarrow> (db, repo_error, 'a) act \<Rightarrow> 'a mod_act" where
  "svc h m = map_err h (repo m)"

definition validateImageCallback :: "ImageModerationCallback \<Rightarrow> bool \<Rightarrow> go_error option" where
  "validateImageCallback cb requireJobID =
     (if cb_image_id cb = 0 \<or> TrimSpace (cb_provider cb) = [] then Some (BadRequest (Some BizModerationCallbackInvalid))
      else if requireJobID \<and> TrimSpace (cb_job_id cb) = [] then Some (BadRequest (Some BizModerationCallbackInvalid))
      else if cb_verdict cb \<noteq> VerdictPass \<and> cb_verdict cb \<noteq> VerdictReview \<and> cb_verdict cb \<noteq> VerdictBlock
      then Some (BadRequest (Some BizModerationCallbackInvalid))
      else None)"

definition IsPurgedImageURL :: "string \<Rightarrow> bool" where
  "IsPurgedImageURL v \<longleftrightarrow> HasPrefix v ''urn:danshi:image-asset:'' \<and> HasSuffix v '':retired''"

fun validateCallbackAsset :: "ImageModerationCallback \<Rightarrow> image_asset list \<Rightarrow> go_error + image_asset" where
  "validateCallbackAsset cb [] = Inl (NotFound (Some BizImageNotFound))"
| "validateCallbackAsset cb (a # rest) =
     (if img_id a \<noteq> cb_image_id cb then validateCallbackAsset cb rest
      else if cb_object_key cb \<noteq> [] \<and> cb_object_key cb \<noteq> img_object_key a
      then Inl (Conflict (Some BizModerationCallbackInvalid))
      else if img_public_url a = [] \<or> IsPurgedImageURL (img_public_url a)
      then Inl (Conflict (Some BizModerationCallbackInvalid))
      else Inr a)"

definition imageAccessPurgeRequired :: "bool \<Rightarrow> ModerationStatus \<Rightarrow> bool" where
  "imageAccessPurgeRequired public previous \<longleftrightarrow> \<not> public \<or> previous = ModBlock \<or> previous = ModReview"

text \<open>\<open>asset\<close> is the row as it was locked, before the new status is written.\<close>

definition applyImageAccess ::
  "image_asset option \<Rightarrow> row_id \<Rightarrow> ModerationVerdict \<Rightarrow> time \<Rightarrow> (db, repo_error, unit) act" where
  "applyImageAccess asset source verdict now = (case asset of None \<Rightarrow> ret ()
     | Some a \<Rightarrow> (let public = (verdict = VerdictPass) in
         Controller_Apply \<lparr>iac_image_id = img_id a, iac_source_record_id = source, iac_public = public,
           iac_purge_required = imageAccessPurgeRequired public (img_moderation a)\<rparr> now))"

definition reconcileImageAccess :: "image_asset option \<Rightarrow> row_id \<Rightarrow> time \<Rightarrow> (db, repo_error, unit) act" where
  "reconcileImageAccess asset source now = (case asset of None \<Rightarrow> ret ()
     | Some a \<Rightarrow> (let public = (img_moderation a = ModPass) in
         Controller_Apply \<lparr>iac_image_id = img_id a, iac_source_record_id = source, iac_public = public,
           iac_purge_required = imageAccessPurgeRequired public (img_moderation a)\<rparr> now))"

definition imageModerationRecord :: "ImageModerationCallback \<Rightarrow> time \<Rightarrow> moderation_record" where
  "imageModerationRecord cb now =
     \<lparr>mr_id = 0, mr_post_id = None, mr_comment_id = None, mr_image_id = Some (cb_image_id cb), mr_tag_id = None,
      mr_user_id = None, mr_field = None, mr_username_candidate = None, mr_username_revision = None,
      mr_content_revision = None, mr_scene = SceneImage, mr_provider = cb_provider cb,
      mr_provider_job_id = (if cb_job_id cb \<noteq> [] then Some (cb_job_id cb) else None),
      mr_verdict = cb_verdict cb, mr_labels = cb_labels cb, mr_score = cb_score cb, mr_raw_response = cb_raw cb,
      mr_reviewer_id = None, mr_reviewed_at = None, mr_supersedes_id = None, mr_created_at = now\<rparr>"

definition reconcileDuplicateImageResult ::
  "ImageModerationCallback \<Rightarrow> image_asset \<Rightarrow> time \<Rightarrow> ImageModerationApplyResult mod_act" where
  "reconcileDuplicateImageResult cb asset now =
     bind (svc internal_of (FindMachineRecordByProviderJobID (cb_provider cb) (cb_job_id cb))) (\<lambda>existing.
     if mr_image_id existing \<noteq> Some (cb_image_id cb) then fail (Conflict (Some BizModerationCallbackInvalid))
     else seq (svc internal_of (reconcileImageAccess (Some asset) (mr_id existing) now))
         (seq (svc internal_of (DeleteForAsset (cb_image_id cb)))
              (ret \<lparr>res_duplicate = True, res_approved = 0, res_rejected = 0\<rparr>)))"

definition result_alert :: "ImageModerationCallback \<Rightarrow> ModerationAlert" where
  "result_alert cb = \<lparr>al_target = TargetImage, al_target_id = cb_image_id cb, al_field = None,
     al_provider = cb_provider cb, al_job_id = Some (cb_job_id cb), al_verdict = cb_verdict cb,
     al_labels = cb_labels cb\<rparr>"

text \<open>\<open>now1\<close> and \<open>now2\<close> are the clock readings of the record and of the access request.\<close>

definition record_image_result ::
  "ImageModerationCallback \<Rightarrow> row_id list \<Rightarrow> image_asset \<Rightarrow> row_id \<Rightarrow> time \<Rightarrow> ImageModerationApplyResult mod_act" where
  "record_image_result cb postIDs asset recordID now2 =
     seq (svc (ToAPIError BizImageNotFound) (UpdateImageModeration (cb_image_id cb) (status_of_verdict (cb_verdict cb))))
     (bind (svc internal_of (ReconcilePendingPosts postIDs)) (\<lambda>transitions.
      seq (if cb_verdict cb \<noteq> VerdictPass then Alert (result_alert cb) else ret ())
     (seq (svc internal_of (applyImageAccess (Some asset) recordID (cb_verdict cb) now2))
     (seq (svc internal_of (DeleteForAsset (cb_image_id cb)))
          (ret \<lparr>res_duplicate = False, res_approved = pt_approved transitions,
                res_rejected = pt_rejected transitions\<rparr>)))))"

definition applyImageResult ::
  "ImageModerationCallback \<Rightarrow> bool \<Rightarrow> time \<Rightarrow> time \<Rightarrow> ImageModerationApplyResult mod_act" where
  "applyImageResult cb requireJobID now1 now2 = (case validateImageCallback cb requireJobID of
      Some err \<Rightarrow> fail err
    | None \<Rightarrow>
        bind (svc internal_of (LockPendingPostsForImage (cb_image_id cb))) (\<lambda>postIDs.
        bind (svc internal_of (LockImagesForPosts (cb_image_id cb) postIDs)) (\<lambda>assets.
        bind (lift_result (validateCallbackAsset cb assets)) (\<lambda>asset.
        bind (svc internal_of (CreateMachineRecordIfNew (imageModerationRecord cb now1))) (\<lambda>created.
        case created of
          None \<Rightarrow> reconcileDuplicateImageResult cb asset now2
        | Some recordID \<Rightarrow> record_image_result cb postIDs asset recordID now2)))))"

definition ApplyImageCallback :: "ImageModerationCallback \<Rightarrow> time \<Rightarrow> time \<Rightarrow> ImageModerationApplyResult mod_act" where
  "ApplyImageCallback cb now1 now2 = applyImageResult cb True now1 now2"

definition ApplyImageResult :: "ImageModerationCallback \<Rightarrow> time \<Rightarrow> time \<Rightarrow> ImageModerationApplyResult mod_act" where
  "ApplyImageResult cb now1 now2 = applyImageResult cb False now1 now2"

subsection \<open>The aggregation\<close>

text \<open>What the two statements decide for one post.\<close>

definition decide :: "db \<Rightarrow> post \<Rightarrow> PostStatus" where
  "decide s p = (if must_reject s p then PostRejected else if may_publish s p then PostApproved else p_status p)"

definition reconciled :: "db \<Rightarrow> row_id list \<Rightarrow> post \<Rightarrow> post" where
  "reconciled s ids p = (if reconcilable ids p then p\<lparr>p_status := decide s p\<rparr> else p)"

text \<open>The tables the conditions read.\<close>

definition same_reviews :: "db \<Rightarrow> db \<Rightarrow> bool" where
  "same_reviews s t \<longleftrightarrow> images t = images s \<and> post_images t = post_images s \<and>
     moderation_records t = moderation_records s"

lemma same_reviews_reads:
  assumes "same_reviews s t"
  shows "images_of_post t i = images_of_post s i" "current_post_record t i r = current_post_record s i r"
    "latest_verdict t p = latest_verdict s p"
proof -
  have e: "images t = images s" "post_images t = post_images s" "moderation_records t = moderation_records s"
    using assms by (simp_all add: same_reviews_def)
  show "images_of_post t i = images_of_post s i" by (simp only: images_of_post_def e)
  show "current_post_record t i r = current_post_record s i r" "latest_verdict t p = latest_verdict s p"
    by (simp_all only: current_post_record_def latest_verdict_def e)
qed

lemma same_reviews_conditions:
  assumes "same_reviews s t" "p_id q = p_id p" "p_current_revision q = p_current_revision p"
  shows "must_reject t q = must_reject s p" "may_publish t q = may_publish s p"
  using same_reviews_reads[OF assms(1)] assms(2,3)
  by (simp_all add: must_reject_def may_publish_def latest_verdict_def)

lemma reject_not_publish: "must_reject s p \<Longrightarrow> \<not> may_publish s p"
  by (auto simp: must_reject_def may_publish_def list_ex_iff)

lemma set_post_status_Inr:
  assumes "set_post_status cond st s = (Inr n, s')"
  shows "\<exists>s0. posts s0 = posts s \<and> same_reviews s s0 \<and> n = count_where (cond s0) (posts s) \<and>
     s' = s0\<lparr>posts := upd_where (cond s0) (\<lambda>p. p\<lparr>p_status := st\<rparr>) (posts s)\<rparr>"
  by (rule exI[of _ "s\<lparr>db_stmts := Suc (db_stmts s)\<rparr>"])
    (use assms in \<open>auto simp: set_post_status_def execute_run same_reviews_def split: if_splits\<close>)

lemma set_post_status_frame:
  assumes "set_post_status cond st s = (r, s')"
  shows "same_reviews s s'" "access_intents s' = access_intents s" "access_deliveries s' = access_deliveries s"
    "moderation_retries s' = moderation_retries s"
  using assms by (auto simp: set_post_status_def execute_run same_reviews_def split: if_splits)

lemma ReconcilePendingPosts_Inr:
  assumes run: "ReconcilePendingPosts ids s = (Inr tr, s')"
  shows "posts s' = map (reconciled s (uniqueModerationIDs ids)) (posts s) \<and> same_reviews s s' \<and>
    access_intents s' = access_intents s \<and> access_deliveries s' = access_deliveries s \<and>
    moderation_retries s' = moderation_retries s"
proof (cases "ids = []")
  case True
  then have "uniqueModerationIDs ids = []" by (simp add: uniqueModerationIDs_def)
  then have "map (reconciled s (uniqueModerationIDs ids)) (posts s) = posts s"
    by (simp add: reconciled_def reconcilable_def map_idI)
  moreover have "s' = s" using run True by (simp add: ReconcilePendingPosts_def ret_def)
  ultimately show ?thesis by (simp add: same_reviews_def)
next
  case False
  let ?ids = "uniqueModerationIDs ids"
  let ?rej = "\<lambda>s p. reconcilable ?ids p \<and> must_reject s p" and ?app = "\<lambda>s p. reconcilable ?ids p \<and> may_publish s p"
  from run False obtain n1 s1 n2 s2 where
    r1: "set_post_status ?rej PostRejected s = (Inr n1, s1)" and r2: "set_post_status ?app PostApproved s1 = (Inr n2, s2)"
    and s': "s' = s2"
    by (auto simp: ReconcilePendingPosts_def Let_def ret_def elim!: bind_InrE)
  from set_post_status_Inr[OF r1] obtain a where a: "posts a = posts s" "same_reviews s a"
    "s1 = a\<lparr>posts := upd_where (?rej a) (\<lambda>p. p\<lparr>p_status := PostRejected\<rparr>) (posts s)\<rparr>" by blast
  from set_post_status_Inr[OF r2] obtain b where b: "posts b = posts s1" "same_reviews s1 b"
    "s2 = b\<lparr>posts := upd_where (?app b) (\<lambda>p. p\<lparr>p_status := PostApproved\<rparr>) (posts s1)\<rparr>" by blast
  have sb: "same_reviews s b" using a(2,3) b(2) by (simp add: same_reviews_def)
  have "(if ?app b (if ?rej a p then p\<lparr>p_status := PostRejected\<rparr> else p)
         then (if ?rej a p then p\<lparr>p_status := PostRejected\<rparr> else p)\<lparr>p_status := PostApproved\<rparr>
         else (if ?rej a p then p\<lparr>p_status := PostRejected\<rparr> else p)) = reconciled s ?ids p" for p
    using same_reviews_conditions[OF a(2), of p p] same_reviews_conditions[OF sb, of p p]
      same_reviews_conditions[OF sb, of "p\<lparr>p_status := PostRejected\<rparr>" p] reject_not_publish[of s p]
    by (auto simp: reconciled_def decide_def reconcilable_def)
  then have "posts s2 = map (reconciled s ?ids) (posts s)"
    using a(3) b(3) by (simp add: upd_where_def comp_def)
  then show ?thesis
    using s' set_post_status_frame[OF r1] set_post_status_frame[OF r2] by (simp add: same_reviews_def)
qed

text \<open>The four image states and three verdicts that the database admits.\<close>

definition known_status :: "ModerationStatus \<Rightarrow> bool" where
  "known_status st \<longleftrightarrow> st = ModPending \<or> st = ModPass \<or> st = ModReview \<or> st = ModBlock"

lemma decide_aggregate:
  assumes v: "latest_verdict s p = Some v" and known: "\<forall>a\<in>set (images_of_post s (p_id p)). known_status (img_moderation a)"
  shows "decide s p = (case aggregatePostModeration v (images_of_post s (p_id p)) of
      Inr PostRejected \<Rightarrow> PostRejected | Inr PostApproved \<Rightarrow> PostApproved | _ \<Rightarrow> p_status p)"
proof -
  have has: "list_ex (\<lambda>a. img_moderation a \<noteq> ModPass) xs" if "imagesContainModeration xs st" "st \<noteq> ModPass" for xs st
    using that by (induction xs) (auto simp: imagesContainModeration_def)
  have "list_ex (\<lambda>a. img_moderation a \<noteq> ModPass) (images_of_post s (p_id p)) \<Longrightarrow>
      imagesContainModeration (images_of_post s (p_id p)) ModBlock \<or>
      imagesContainModeration (images_of_post s (p_id p)) ModReview \<or>
      imagesContainModeration (images_of_post s (p_id p)) ModPending"
    using known by (auto simp: imagesContainModeration_def list_ex_iff known_status_def)
  then have "list_ex (\<lambda>a. img_moderation a \<noteq> ModPass) (images_of_post s (p_id p)) \<longleftrightarrow>
      imagesContainModeration (images_of_post s (p_id p)) ModBlock \<or>
      imagesContainModeration (images_of_post s (p_id p)) ModReview \<or>
      imagesContainModeration (images_of_post s (p_id p)) ModPending"
    using has[of "images_of_post s (p_id p)"] by blast
  then show ?thesis
    using v by (auto simp: decide_def must_reject_def may_publish_def aggregatePostModeration_def
        imagesContainModeration_def)
qed

text \<open>
  C16: recomputing posts in the database agrees with the rule used when a post is written.  A
  successful \<open>ReconcilePendingPosts\<close> changes nothing but post statuses, and only of the listed,
  undeleted, pending or rejected posts.  Such a post with a reviewed current revision, whose
  images are all in a state the database admits, gets exactly the status that
  \<open>aggregatePostModeration\<close> computes for its latest text verdict and its images, except that
  "pending" leaves it as it was: block wins over everything, review or an unfinished image
  holds it back, and it is published only when text and all images passed.
\<close>

theorem ReconcilePendingPosts_aggregates:
  assumes run: "ReconcilePendingPosts ids s = (Inr tr, s')"
  shows "length (posts s') = length (posts s) \<and> images s' = images s \<and> post_images s' = post_images s \<and>
    moderation_records s' = moderation_records s \<and>
    (\<forall>i<length (posts s). let p = posts s ! i; p' = posts s' ! i; imgs = images_of_post s (p_id p) in
       p' = p\<lparr>p_status := p_status p'\<rparr> \<and>
       (\<not> (p_id p \<in> set ids \<and> p_id p \<noteq> 0 \<and> (p_status p = PostPending \<or> p_status p = PostRejected) \<and> p_deleted_at p = None) \<longrightarrow>
          p' = p) \<and>
       (p' \<noteq> p \<and> p_status p' = PostApproved \<longrightarrow>
          latest_verdict s p = Some VerdictPass \<and> (\<forall>a\<in>set imgs. img_moderation a = ModPass)) \<and>
       (\<forall>v. p_id p \<in> set ids \<and> p_id p \<noteq> 0 \<and> (p_status p = PostPending \<or> p_status p = PostRejected) \<and> p_deleted_at p = None \<and>
            latest_verdict s p = Some v \<and> (\<forall>a\<in>set imgs. known_status (img_moderation a)) \<longrightarrow>
          p_status p' = (case aggregatePostModeration v imgs of
             Inr PostRejected \<Rightarrow> PostRejected | Inr PostApproved \<Rightarrow> PostApproved | _ \<Rightarrow> p_status p)))"
proof -
  note r = ReconcilePendingPosts_Inr[OF run]
  have member: "reconcilable (uniqueModerationIDs ids) p \<longleftrightarrow>
      p_id p \<in> set ids \<and> p_id p \<noteq> 0 \<and> (p_status p = PostPending \<or> p_status p = PostRejected) \<and> p_deleted_at p = None" for p
    by (auto simp: reconcilable_def uniqueModerationIDs_def)
  show ?thesis
    using r decide_aggregate
    by (auto simp: same_reviews_def Let_def reconciled_def member decide_def may_publish_def list_ex_iff)
qed

subsection \<open>What each operation leaves alone\<close>

lemma svc_Inr_iff:
  "svc h m q = (Inr x, q') \<longleftrightarrow> m (rq_db q) = (Inr x, rq_db q') \<and> q' = q\<lparr>rq_db := rq_db q'\<rparr>"
  by (cases "m (rq_db q)") (auto simp: svc_def map_err_Inr_iff repo_def)

lemmas svc_InrD = svc_Inr_iff[THEN iffD1, THEN conjunct1]

lemma svc_run: "svc h m q = (case m (rq_db q) of (Inl e, d) \<Rightarrow> (Inl (h e), q\<lparr>rq_db := d\<rparr>) | (Inr x, d) \<Rightarrow> (Inr x, q\<lparr>rq_db := d\<rparr>))"
  by (simp add: svc_def map_err_def repo_def split: prod.splits sum.splits)

text \<open>Tables that only the access outbox, only the retry queue, and only posts and reviews use.\<close>

definition same_outbox :: "db \<Rightarrow> db \<Rightarrow> bool" where
  "same_outbox s t \<longleftrightarrow> access_intents t = access_intents s \<and> access_deliveries t = access_deliveries s"

lemma query_tables:
  "query f s = (r, s') \<Longrightarrow> s' = s\<lparr>db_stmts := Suc (db_stmts s)\<rparr>"
  "query_first g s = (r', s') \<Longrightarrow> s' = s\<lparr>db_stmts := Suc (db_stmts s)\<rparr>"
  by (auto simp: query_run query_first_run split: if_splits)

lemma Access_Enqueue_frame:
  "Access_Enqueue img source pub purge now s = (r, s') \<Longrightarrow>
     same_reviews s s' \<and> posts s' = posts s \<and> moderation_retries s' = moderation_retries s"
  by (auto simp: Access_Enqueue_def stmt_run Let_def same_reviews_def split: if_splits)

lemma Controller_Apply_Inr:
  assumes "Controller_Apply change now s = (Inr u, s')"
  shows "iac_image_id change \<noteq> 0" "iac_source_record_id change \<noteq> 0"
    "\<exists>b. Access_Enqueue (iac_image_id change) (iac_source_record_id change) (iac_public change)
        (iac_purge_required change) now s = (Inr b, s')"
  using assms by (auto simp: Controller_Apply_def seq_def ret_def fail_def elim!: bind_InrE split: if_splits)

text \<open>A review record that has been projected is known to the outbox.\<close>

definition intent_known :: "db \<Rightarrow> row_id \<Rightarrow> bool" where
  "intent_known s source \<longleftrightarrow> (\<exists>i\<in>set (access_intents s). ai_source_record_id i = source)"

lemma Access_Enqueue_known:
  "Access_Enqueue img source pub purge now s = (Inr b, s') \<Longrightarrow> intent_known s' source"
  by (auto simp: Access_Enqueue_def stmt_run Let_def intent_known_def split: if_splits)

lemma applyImageAccess_Inr:
  assumes "applyImageAccess (Some a) source verdict now s = (Inr u, s')"
  shows "same_reviews s s'" "posts s' = posts s" "moderation_retries s' = moderation_retries s" "intent_known s' source"
proof -
  from assms have "Controller_Apply \<lparr>iac_image_id = img_id a, iac_source_record_id = source, iac_public = (verdict = VerdictPass),
      iac_purge_required = imageAccessPurgeRequired (verdict = VerdictPass) (img_moderation a)\<rparr> now s = (Inr u, s')"
    by (simp add: applyImageAccess_def Let_def)
  from Controller_Apply_Inr(3)[OF this]
  obtain b where "Access_Enqueue (img_id a) source (verdict = VerdictPass)
      (imageAccessPurgeRequired (verdict = VerdictPass) (img_moderation a)) now s = (Inr b, s')" by auto
  from Access_Enqueue_frame[OF this] Access_Enqueue_known[OF this]
  show "same_reviews s s'" "posts s' = posts s" "moderation_retries s' = moderation_retries s" "intent_known s' source" by auto
qed

lemma CreateMachineRecordIfNew_new:
  assumes "CreateMachineRecordIfNew r s = (Inr (Some i), s')"
  shows "i = next_id mr_id (moderation_records s)"
    "moderation_records s' = moderation_records s @ [r\<lparr>mr_id := i\<rparr>]"
    "images s' = images s" "post_images s' = post_images s" "posts s' = posts s"
    "\<not> list_ex (same_job r) (moderation_records s)" "record_check r" "review_trigger s r"
proof -
  let ?s = "s\<lparr>db_stmts := Suc (db_stmts s)\<rparr>"
  have trig: "review_trigger ?s r = review_trigger s r" by (simp add: review_trigger_def cong: option.case_cong)
  show "i = next_id mr_id (moderation_records s)"
    "moderation_records s' = moderation_records s @ [r\<lparr>mr_id := i\<rparr>]"
    "images s' = images s" "post_images s' = post_images s" "posts s' = posts s"
    "\<not> list_ex (same_job r) (moderation_records s)" "record_check r" "review_trigger s r"
    using assms trig by (auto simp: CreateMachineRecordIfNew_def stmt_run insert_record_def split: if_splits)
qed

lemma UpdateImageModeration_Inr:
  assumes "UpdateImageModeration i st s = (Inr u, s')"
  shows "images s' = upd_where (\<lambda>a. img_id a = i) (\<lambda>a. a\<lparr>img_moderation := st\<rparr>) (images s)"
    "post_images s' = post_images s" "posts s' = posts s" "moderation_records s' = moderation_records s"
  using assms by (auto simp: UpdateImageModeration_def stmt_run split: if_splits)

lemma DeleteForAsset_Inr:
  assumes "DeleteForAsset i s = (Inr u, s')"
  shows "same_reviews s s'" "posts s' = posts s" "same_outbox s s'"
    "moderation_retries s' = filter (\<lambda>r. rt_image_id r \<noteq> i) (moderation_retries s)"
  using assms by (auto simp: DeleteForAsset_def execute_run same_reviews_def same_outbox_def split: if_splits)

lemma Alert_Inr:
  "Alert al q = (Inr u, q') \<Longrightarrow> rq_db q' = rq_db q \<and> rq_before q' = rq_before q"
  by (auto simp: Alert_def AfterCommit_def bind_run ret_def split: option.splits)

lemma reconciled_same_reviews: "same_reviews s t \<Longrightarrow> reconciled t ids = reconciled s ids"
  using same_reviews_conditions by (auto simp: reconciled_def decide_def fun_eq_iff)

lemma record_image_result_Inr:
  assumes "record_image_result cb ids asset i now q = (Inr res, q')"
  shows "\<not> res_duplicate res"
    "images (rq_db q') = upd_where (\<lambda>a. img_id a = cb_image_id cb)
       (\<lambda>a. a\<lparr>img_moderation := status_of_verdict (cb_verdict cb)\<rparr>) (images (rq_db q))"
    "post_images (rq_db q') = post_images (rq_db q)"
    "moderation_records (rq_db q') = moderation_records (rq_db q)"
    "posts (rq_db q') = map (reconciled (rq_db q') (uniqueModerationIDs ids)) (posts (rq_db q))"
    "intent_known (rq_db q') i" "\<forall>r\<in>set (moderation_retries (rq_db q')). rt_image_id r \<noteq> cb_image_id cb"
proof -
  from assms obtain q1 tr q2 q3 q4 q5 u1 u3 u4 u5 where
    r1: "svc (ToAPIError BizImageNotFound) (UpdateImageModeration (cb_image_id cb) (status_of_verdict (cb_verdict cb))) q = (Inr u1, q1)" and
    r2: "svc internal_of (ReconcilePendingPosts ids) q1 = (Inr tr, q2)" and
    r3: "(if cb_verdict cb \<noteq> VerdictPass then Alert (result_alert cb) else ret ()) q2 = (Inr u3, q3)" and
    r4: "svc internal_of (applyImageAccess (Some asset) i (cb_verdict cb) now) q3 = (Inr u4, q4)" and
    r5: "svc internal_of (DeleteForAsset (cb_image_id cb)) q4 = (Inr u5, q5)" and
    r6: "(ret \<lparr>res_duplicate = False, res_approved = pt_approved tr, res_rejected = pt_rejected tr\<rparr> ::
           ImageModerationApplyResult mod_act) q5 = (Inr res, q')"
    unfolding record_image_result_def seq_def by (elim bind_InrE)
  note 1 = svc_InrD[OF r1] and 2 = svc_InrD[OF r2] and 4 = svc_InrD[OF r4] and 5 = svc_InrD[OF r5]
  have res: "\<not> res_duplicate res" "q5 = q'" using r6 by (auto simp: ret_def)
  have 3: "rq_db q3 = rq_db q2" using r3 by (auto simp: ret_def split: if_splits dest!: Alert_Inr)
  note u = UpdateImageModeration_Inr[OF 1] and rp = ReconcilePendingPosts_Inr[OF 2]
    and ac = applyImageAccess_Inr[OF 4] and de = DeleteForAsset_Inr[OF 5[unfolded res(2)]]
  have sr: "same_reviews (rq_db q1) (rq_db q')" using rp ac(1) de(1) 3 by (auto simp: same_reviews_def)
  show "\<not> res_duplicate res" by (rule res(1))
  show "images (rq_db q') = upd_where (\<lambda>a. img_id a = cb_image_id cb)
       (\<lambda>a. a\<lparr>img_moderation := status_of_verdict (cb_verdict cb)\<rparr>) (images (rq_db q))"
    "post_images (rq_db q') = post_images (rq_db q)" "moderation_records (rq_db q') = moderation_records (rq_db q)"
    using sr u by (auto simp: same_reviews_def)
  show "posts (rq_db q') = map (reconciled (rq_db q') (uniqueModerationIDs ids)) (posts (rq_db q))"
    using rp u(3) ac(2) de(2) 3 reconciled_same_reviews[OF sr] by simp
  show "intent_known (rq_db q') i" using ac(4) de(3) by (simp add: intent_known_def same_outbox_def)
  show "\<forall>r\<in>set (moderation_retries (rq_db q')). rt_image_id r \<noteq> cb_image_id cb" using de(4) by simp
qed

lemma query_Inr:
  assumes "query f s = (Inr x, s')"
  shows "s' = s\<lparr>db_stmts := Suc (db_stmts s)\<rparr>" "x = f (s\<lparr>db_stmts := Suc (db_stmts s)\<rparr>)"
  using assms by (auto simp: query_run split: if_splits)

lemma bump_reads [simp]:
  "images_of_post (s\<lparr>db_stmts := n\<rparr>) = images_of_post s"
  "current_post_record (s\<lparr>db_stmts := n\<rparr>) = current_post_record s"
  "latest_verdict (s\<lparr>db_stmts := n\<rparr>) = latest_verdict s"
proof -
  have "same_reviews s (s\<lparr>db_stmts := n\<rparr>)" by (simp add: same_reviews_def)
  from same_reviews_reads[OF this]
  show "images_of_post (s\<lparr>db_stmts := n\<rparr>) = images_of_post s"
    "current_post_record (s\<lparr>db_stmts := n\<rparr>) = current_post_record s"
    "latest_verdict (s\<lparr>db_stmts := n\<rparr>) = latest_verdict s"
    by (simp_all add: fun_eq_iff)
qed

definition uses_image :: "db \<Rightarrow> post \<Rightarrow> row_id \<Rightarrow> bool" where
  "uses_image s p i \<longleftrightarrow> (\<exists>l\<in>set (post_images s). pi_post_id l = p_id p \<and> pi_image_id l = i)"

lemma LockPendingPostsForImage_Inr:
  assumes "LockPendingPostsForImage i s = (Inr ids, s')"
  shows "s' = s\<lparr>db_stmts := Suc (db_stmts s)\<rparr>"
    "set ids = {p_id p | p. p \<in> set (posts s) \<and> post_pending p \<and> uses_image s p i}"
  using query_Inr[OF assms[unfolded LockPendingPostsForImage_def]]
  by (auto simp: uses_image_def)

lemma LockImagesForPosts_Inr:
  assumes "LockImagesForPosts i ids s = (Inr imgs, s')"
  shows "same_tables s s'" "set imgs \<subseteq> set (images s)"
proof -
  let ?rel = "\<lambda>s. [pi_image_id l. l \<leftarrow> post_images s, pi_post_id l \<in> set ids]"
  from assms obtain rel s1 where
    1: "(if ids = [] then ret [] else query ?rel) s = (Inr rel, s1)" and
    2: "query (\<lambda>s. sort_key img_id (filter (\<lambda>a. img_id a \<in> set (uniqueModerationIDs (i # rel))) (images s))) s1 = (Inr imgs, s')"
    unfolding LockImagesForPosts_def Let_def by (elim bind_InrE)
  have s1: "same_tables s s1" "images s1 = images s"
    using 1 same_tables_refl[of s] by (auto simp: ret_def query_run same_tables_def split: if_splits)
  show "same_tables s s'" using s1(1) query_Inr(1)[OF 2] by (auto simp: same_tables_iff)
  show "set imgs \<subseteq> set (images s)" using query_Inr(2)[OF 2] s1(2) by auto
qed

lemma validateCallbackAsset_Inr:
  assumes "validateCallbackAsset cb imgs = Inr a"
  shows "a \<in> set imgs" "img_id a = cb_image_id cb" "img_public_url a \<noteq> []" "\<not> IsPurgedImageURL (img_public_url a)"
    "cb_object_key cb = [] \<or> cb_object_key cb = img_object_key a"
  using assms by (induction imgs) (auto split: if_splits)

text \<open>The guards of \<open>applyImageResult\<close>, and the branch it takes.\<close>

lemma applyImageResult_Inr:
  assumes "applyImageResult cb need now1 now2 q = (Inr res, q')"
  obtains ids q1 asset created q2 where
    "validateImageCallback cb need = None"
    "set ids = {p_id p | p. p \<in> set (posts (rq_db q)) \<and> post_pending p \<and> uses_image (rq_db q) p (cb_image_id cb)}"
    "same_tables (rq_db q) (rq_db q1)" "q1 = q\<lparr>rq_db := rq_db q1\<rparr>"
    "asset \<in> set (images (rq_db q))" "img_id asset = cb_image_id cb" "img_public_url asset \<noteq> []"
    "\<not> IsPurgedImageURL (img_public_url asset)" "cb_object_key cb = [] \<or> cb_object_key cb = img_object_key asset"
    "CreateMachineRecordIfNew (imageModerationRecord cb now1) (rq_db q1) = (Inr created, rq_db q2)"
    "q2 = q1\<lparr>rq_db := rq_db q2\<rparr>"
    "(case created of None \<Rightarrow> reconcileDuplicateImageResult cb asset now2
      | Some i \<Rightarrow> record_image_result cb ids asset i now2) q2 = (Inr res, q')"
proof -
  from assms have valid: "validateImageCallback cb need = None"
    by (auto simp: applyImageResult_def fail_def split: option.splits)
  from assms obtain ids qa imgs qb asset qc created q2 where
    1: "svc internal_of (LockPendingPostsForImage (cb_image_id cb)) q = (Inr ids, qa)" and
    2: "svc internal_of (LockImagesForPosts (cb_image_id cb) ids) qa = (Inr imgs, qb)" and
    3: "(lift_result (validateCallbackAsset cb imgs) :: image_asset mod_act) qb = (Inr asset, qc)" and
    4: "svc internal_of (CreateMachineRecordIfNew (imageModerationRecord cb now1)) qc = (Inr created, q2)" and
    5: "(case created of None \<Rightarrow> reconcileDuplicateImageResult cb asset now2
      | Some i \<Rightarrow> record_image_result cb ids asset i now2) q2 = (Inr res, q')"
    unfolding applyImageResult_def valid option.case by (elim bind_InrE)
  have qc: "qc = qb" and asset: "validateCallbackAsset cb imgs = Inr asset"
    using 3 by (auto simp: lift_result_def ret_def fail_def split: sum.splits)
  note pp = LockPendingPostsForImage_Inr[OF svc_InrD[OF 1]] and li = LockImagesForPosts_Inr[OF svc_InrD[OF 2]]
  have same: "same_tables (rq_db q) (rq_db qb)" using pp(1) li(1) by (auto simp: same_tables_iff)
  have shape: "qb = q\<lparr>rq_db := rq_db qb\<rparr>" using 1 2 by (simp add: svc_Inr_iff) (metis req.surjective req.update_convs(1))
  have "asset \<in> set (images (rq_db q))"
    using validateCallbackAsset_Inr(1)[OF asset] li(2) pp(1) by auto
  then show ?thesis
    using that[OF valid pp(2) same shape _ _ _ _ _ svc_InrD[OF 4[unfolded qc]] _ 5] validateCallbackAsset_Inr[OF asset]
      4[unfolded qc svc_Inr_iff] by blast
qed

lemma reconcileDuplicate_Inr:
  assumes "reconcileDuplicateImageResult cb asset now q = (Inr res, q')"
  obtains r where "res_duplicate res"
    "first_by mr_id (\<lambda>r. mr_provider r = cb_provider cb \<and> mr_provider_job_id r = Some (cb_job_id cb))
       (moderation_records (rq_db q)) = Some r"
    "mr_image_id r = Some (cb_image_id cb)" "mr_id r \<noteq> 0" "intent_known (rq_db q') (mr_id r)"
    "same_reviews (rq_db q) (rq_db q')" "posts (rq_db q') = posts (rq_db q)"
    "rq_after q' = rq_after q" "rq_sent q' = rq_sent q"
    "\<forall>r\<in>set (moderation_retries (rq_db q')). rt_image_id r \<noteq> cb_image_id cb"
proof -
  from assms obtain r q1 where
    1: "svc internal_of (FindMachineRecordByProviderJobID (cb_provider cb) (cb_job_id cb)) q = (Inr r, q1)" and
    k: "(if mr_image_id r \<noteq> Some (cb_image_id cb) then fail (Conflict (Some BizModerationCallbackInvalid))
      else seq (svc internal_of (reconcileImageAccess (Some asset) (mr_id r) now))
         (seq (svc internal_of (DeleteForAsset (cb_image_id cb)))
              (ret \<lparr>res_duplicate = True, res_approved = 0, res_rejected = 0\<rparr>))) q1 = (Inr res, q')"
    unfolding reconcileDuplicateImageResult_def by (elim bind_InrE)
  have img: "mr_image_id r = Some (cb_image_id cb)" using k by (auto simp: fail_def split: if_splits)
  from k img obtain u q2 v q3 where
    2: "svc internal_of (reconcileImageAccess (Some asset) (mr_id r) now) q1 = (Inr u, q2)" and
    3: "svc internal_of (DeleteForAsset (cb_image_id cb)) q2 = (Inr v, q3)" and
    4: "(ret \<lparr>res_duplicate = True, res_approved = 0, res_rejected = 0\<rparr> :: ImageModerationApplyResult mod_act) q3 = (Inr res, q')"
    unfolding seq_def by (simp only: not_True_eq_False if_False simp_thms) (elim bind_InrE)
  have f: "rq_db q1 = (rq_db q)\<lparr>db_stmts := Suc (db_stmts (rq_db q))\<rparr>"
    "first_by mr_id (\<lambda>r. mr_provider r = cb_provider cb \<and> mr_provider_job_id r = Some (cb_job_id cb))
       (moderation_records (rq_db q)) = Some r"
    using svc_InrD[OF 1] by (auto simp: FindMachineRecordByProviderJobID_def query_first_run split: if_splits option.splits)
  from svc_InrD[OF 2] have "Controller_Apply \<lparr>iac_image_id = img_id asset, iac_source_record_id = mr_id r,
      iac_public = (img_moderation asset = ModPass),
      iac_purge_required = imageAccessPurgeRequired (img_moderation asset = ModPass) (img_moderation asset)\<rparr> now (rq_db q1) = (Inr u, rq_db q2)"
    by (simp add: reconcileImageAccess_def Let_def)
  note ctl = Controller_Apply_Inr[OF this]
  then obtain b where e: "Access_Enqueue (img_id asset) (mr_id r) (img_moderation asset = ModPass)
      (imageAccessPurgeRequired (img_moderation asset = ModPass) (img_moderation asset)) now (rq_db q1) = (Inr b, rq_db q2)"
    by auto
  note fr = Access_Enqueue_frame[OF e] and de = DeleteForAsset_Inr[OF svc_InrD[OF 3]]
  have fin: "q3 = q'" "res_duplicate res" using 4 by (auto simp: ret_def)
  have "intent_known (rq_db q') (mr_id r)"
    using Access_Enqueue_known[OF e] de(3) fin(1) by (simp add: intent_known_def same_outbox_def)
  moreover have "same_reviews (rq_db q) (rq_db q')" "posts (rq_db q') = posts (rq_db q)"
    using f(1) fr de(1,2) fin(1) by (simp_all add: same_reviews_def)
  moreover have "rq_after q' = rq_after q" "rq_sent q' = rq_sent q"
    using 1 2 3 fin(1) unfolding svc_Inr_iff by (metis req.select_convs req.surjective req.update_convs(1))+
  ultimately show ?thesis
    using that[OF fin(2) f(2) img] ctl(2) de(4) fin(1) by simp
qed

text \<open>
  C13: what a new image verdict does.  When \<open>applyImageResult\<close> succeeds with a verdict it has not
  seen, exactly one review record is added, under a fresh id that the access outbox now knows;
  the image takes the verdict as its status, and no retry of the image is left.  Posts keep
  everything but their status, only pending, undeleted posts that show the image can change, a
  blocked image rejects every one of them, and a post is published only if the verdict is a
  pass, the latest verdict on its text is a pass, and all its images have passed.
\<close>

theorem applyImageResult_fresh:
  assumes run: "applyImageResult cb need now1 now2 q = (Inr res, q')" and fresh: "\<not> res_duplicate res"
    and key: "distinct (map p_id (posts (rq_db q)))" "0 \<notin> p_id ` set (posts (rq_db q))"
  shows "(\<exists>i. moderation_records (rq_db q') = moderation_records (rq_db q) @ [(imageModerationRecord cb now1)\<lparr>mr_id := i\<rparr>] \<and>
       i \<notin> mr_id ` set (moderation_records (rq_db q)) \<and> intent_known (rq_db q') i) \<and>
    images (rq_db q') = upd_where (\<lambda>a. img_id a = cb_image_id cb)
       (\<lambda>a. a\<lparr>img_moderation := status_of_verdict (cb_verdict cb)\<rparr>) (images (rq_db q)) \<and>
    (\<forall>r\<in>set (moderation_retries (rq_db q')). rt_image_id r \<noteq> cb_image_id cb) \<and>
    length (posts (rq_db q')) = length (posts (rq_db q)) \<and>
    (\<forall>k<length (posts (rq_db q)). let p = posts (rq_db q) ! k; p' = posts (rq_db q') ! k in
       p' = p\<lparr>p_status := p_status p'\<rparr> \<and>
       (p' \<noteq> p \<longrightarrow> post_pending p \<and> uses_image (rq_db q) p (cb_image_id cb)) \<and>
       (post_pending p \<and> uses_image (rq_db q) p (cb_image_id cb) \<and> cb_verdict cb = VerdictBlock \<longrightarrow>
          p_status p' = PostRejected) \<and>
       (p' \<noteq> p \<and> p_status p' = PostApproved \<longrightarrow> cb_verdict cb = VerdictPass \<and>
          latest_verdict (rq_db q') p = Some VerdictPass \<and>
          (\<forall>a\<in>set (images_of_post (rq_db q') (p_id p)). img_moderation a = ModPass)))"
proof -
  let ?d = "rq_db q" and ?d' = "rq_db q'" and ?i = "cb_image_id cb"
  obtain ids q1 asset created q2 where valid: "validateImageCallback cb need = None" and
    ids: "set ids = {p_id p | p. p \<in> set (posts ?d) \<and> post_pending p \<and> uses_image ?d p ?i}" and
    same: "same_tables ?d (rq_db q1)" "q1 = q\<lparr>rq_db := rq_db q1\<rparr>" and
    asset: "asset \<in> set (images ?d)" "img_id asset = ?i" "img_public_url asset \<noteq> []" "\<not> IsPurgedImageURL (img_public_url asset)"
      "cb_object_key cb = [] \<or> cb_object_key cb = img_object_key asset" and
    cr: "CreateMachineRecordIfNew (imageModerationRecord cb now1) (rq_db q1) = (Inr created, rq_db q2)" and
    q2: "q2 = q1\<lparr>rq_db := rq_db q2\<rparr>" and
    k: "(case created of None \<Rightarrow> reconcileDuplicateImageResult cb asset now2
      | Some i \<Rightarrow> record_image_result cb ids asset i now2) q2 = (Inr res, q')"
    by (rule applyImageResult_Inr[OF run])
  obtain rid where created: "created = Some rid"
    using k fresh by (cases created) (auto elim!: reconcileDuplicate_Inr)
  have d1: "moderation_records (rq_db q1) = moderation_records ?d" "images (rq_db q1) = images ?d"
    "post_images (rq_db q1) = post_images ?d" "posts (rq_db q1) = posts ?d"
    using same(1) by (auto simp: same_tables_iff)
  note new = CreateMachineRecordIfNew_new[OF cr[unfolded created]]
  note rec = record_image_result_Inr[OF k[unfolded created option.case]]
  have imgs: "images ?d' = upd_where (\<lambda>a. img_id a = ?i)
       (\<lambda>a. a\<lparr>img_moderation := status_of_verdict (cb_verdict cb)\<rparr>) (images ?d)"
    and links: "post_images ?d' = post_images ?d"
    using rec(2,3) new(3,4) d1 by simp_all
  have posts: "posts ?d' = map (reconciled ?d' (uniqueModerationIDs ids)) (posts ?d)"
    using rec(5) new(5) d1(4) by simp
  have member: "reconcilable (uniqueModerationIDs ids) p \<Longrightarrow> post_pending p \<and> uses_image ?d p ?i"
    if "p \<in> set (posts ?d)" for p
    using ids that key by (auto simp: reconcilable_def uniqueModerationIDs_def distinct_map inj_on_def)
  have shown: "\<exists>a\<in>set (images_of_post ?d' (p_id p)). img_moderation a = status_of_verdict (cb_verdict cb)"
    if "uses_image ?d p ?i" for p
  proof -
    have "asset\<lparr>img_moderation := status_of_verdict (cb_verdict cb)\<rparr> \<in> set (images ?d')"
      unfolding imgs set_upd_where using asset by (auto intro!: rev_image_eqI[of asset])
    moreover from that obtain l where "l \<in> set (post_images ?d')" "pi_post_id l = p_id p" "pi_image_id l = ?i"
      by (auto simp: uses_image_def links)
    ultimately show ?thesis using asset(2) by (force simp: images_of_post_def)
  qed
  have st: "status_of_verdict v = ModBlock \<longleftrightarrow> v = VerdictBlock" "status_of_verdict v = ModPass \<longleftrightarrow> v = VerdictPass" for v
    by (cases v; simp)+
  have new_record: "moderation_records ?d' = moderation_records ?d @ [(imageModerationRecord cb now1)\<lparr>mr_id := rid\<rparr>]"
    "rid \<notin> mr_id ` set (moderation_records ?d)" "intent_known ?d' rid"
    using rec(4,6) new(1,2) d1(1) next_id_notin[of mr_id "moderation_records ?d"] by simp_all
  have "let p' = posts ?d' ! k in p' = p\<lparr>p_status := p_status p'\<rparr> \<and>
       (p' \<noteq> p \<longrightarrow> post_pending p \<and> uses_image ?d p ?i) \<and>
       (post_pending p \<and> uses_image ?d p ?i \<and> cb_verdict cb = VerdictBlock \<longrightarrow> p_status p' = PostRejected) \<and>
       (p' \<noteq> p \<and> p_status p' = PostApproved \<longrightarrow> cb_verdict cb = VerdictPass \<and> latest_verdict ?d' p = Some VerdictPass \<and>
          (\<forall>a\<in>set (images_of_post ?d' (p_id p)). img_moderation a = ModPass))"
    if k: "k < length (posts ?d)" "p = posts ?d ! k" for k p
  proof -
    have p: "p \<in> set (posts ?d)" "posts ?d' ! k = reconciled ?d' (uniqueModerationIDs ids) p" using k posts by auto
    show ?thesis
    proof (cases "reconcilable (uniqueModerationIDs ids) p")
      case True
      note m = member[OF p(1) True]
      have pend: "p_status p = PostPending" using m by (simp add: post_pending_def)
      have block: "must_reject ?d' p" if "cb_verdict cb = VerdictBlock"
        using shown[of p] m that by (auto simp: must_reject_def list_ex_iff)
      have pass: "cb_verdict cb = VerdictPass \<and> latest_verdict ?d' p = Some VerdictPass \<and>
          (\<forall>a\<in>set (images_of_post ?d' (p_id p)). img_moderation a = ModPass)" if "may_publish ?d' p"
        using shown[of p] m that st(2)[of "cb_verdict cb"] by (auto simp: may_publish_def list_ex_iff)
      show ?thesis using True m block pass pend unfolding p(2) Let_def
        by (auto simp: reconciled_def decide_def)
    next
      case False
      have "\<not> (post_pending p \<and> uses_image ?d p ?i)"
        using False p(1) ids key(2) by (auto simp: reconcilable_def uniqueModerationIDs_def post_pending_def image_iff)
      then show ?thesis using False unfolding p(2) Let_def by (auto simp: reconciled_def)
    qed
  qed
  then show ?thesis using new_record imgs rec(7) posts unfolding Let_def by simp blast
qed

subsection \<open>Redelivery of a result\<close>

definition of_job :: "ImageModerationCallback \<Rightarrow> moderation_record \<Rightarrow> bool" where
  "of_job cb r \<longleftrightarrow> mr_provider r = cb_provider cb \<and> mr_provider_job_id r = Some (cb_job_id cb)"

lemma same_job_iff: "cb_job_id cb \<noteq> [] \<Longrightarrow> same_job (imageModerationRecord cb now) r \<longleftrightarrow> of_job cb r"
  by (auto simp: same_job_def of_job_def imageModerationRecord_def)

text \<open>The state in which a result has been taken in completely.\<close>

definition settled :: "ImageModerationCallback \<Rightarrow> db \<Rightarrow> bool" where
  "settled cb s \<longleftrightarrow> distinct (map img_id (images s)) \<and>
     (\<exists>a\<in>set (images s). img_id a = cb_image_id cb \<and> (cb_object_key cb = [] \<or> cb_object_key cb = img_object_key a) \<and>
        img_public_url a \<noteq> [] \<and> \<not> IsPurgedImageURL (img_public_url a)) \<and>
     (\<exists>r. first_by mr_id (of_job cb) (moderation_records s) = Some r \<and> mr_image_id r = Some (cb_image_id cb) \<and>
        mr_id r \<noteq> 0 \<and> intent_known s (mr_id r)) \<and>
     (\<forall>r\<in>set (moderation_retries s). rt_image_id r \<noteq> cb_image_id cb)"

lemma settled_same_tables: "same_tables s t \<Longrightarrow> settled cb t \<longleftrightarrow> settled cb s"
  unfolding same_tables_iff settled_def intent_known_def by (elim exE) simp

lemma bind_ok: "m s = (Inr x, t) \<Longrightarrow> bind m f s = f x t"
  by (simp add: bind_run)

lemma validateCallbackAsset_find:
  "validateCallbackAsset cb imgs = Inr a" if "a \<in> set imgs" "\<forall>b\<in>set imgs. img_id b = img_id a \<longrightarrow> b = a"
    "img_id a = cb_image_id cb" "cb_object_key cb = [] \<or> cb_object_key cb = img_object_key a"
    "img_public_url a \<noteq> []" "\<not> IsPurgedImageURL (img_public_url a)"
  using that
proof (induction imgs)
  case (Cons b rest)
  show ?case
  proof (cases "b = a")
    case False
    have "img_id b \<noteq> cb_image_id cb" using False Cons.prems(2,3) by (metis list.set_intros(1))
    moreover have "validateCallbackAsset cb rest = Inr a"
    proof (rule Cons.IH[OF _ _ that(3-6)])
      show "a \<in> set rest" using False Cons.prems(1) by simp
      show "\<forall>b\<in>set rest. img_id b = img_id a \<longrightarrow> b = a" using Cons.prems(2) by (meson list.set_intros(2))
    qed
    ultimately show ?thesis by simp
  qed (use that(3-6) in simp)
qed simp

lemma LockImagesForPosts_run:
  assumes "no_faults s" "i \<noteq> 0" "a \<in> set (images s)" "img_id a = i"
  obtains imgs s' where "LockImagesForPosts i ids s = (Inr imgs, s')" "a \<in> set imgs" "set imgs \<subseteq> set (images s)"
    "same_tables s s'" "no_faults s'"
proof -
  have nf: "\<not> db_fault s n" for n using assms(1) by (simp add: no_faults_def)
  let ?rel = "\<lambda>s. [pi_image_id l. l \<leftarrow> post_images s, pi_post_id l \<in> set ids]"
  obtain rel s1 where 1: "(if ids = [] then ret [] else query ?rel) s = (Inr rel, s1)" "images s1 = images s" "no_faults s1"
    using assms(1) by (cases "ids = []") (simp_all add: ret_def query_run nf no_faults_def)
  let ?imgs = "sort_key img_id (filter (\<lambda>a. img_id a \<in> set (uniqueModerationIDs (i # rel))) (images s))"
  let ?s' = "s1\<lparr>db_stmts := Suc (db_stmts s1)\<rparr>"
  have run: "LockImagesForPosts i ids s = (Inr ?imgs, ?s')"
    unfolding LockImagesForPosts_def Let_def by (rule trans[OF bind_ok], rule 1(1)) (use 1(2,3) in \<open>simp add: query_run no_faults_def\<close>)
  have a: "a \<in> set ?imgs" using assms(2-4) by (simp add: uniqueModerationIDs_def)
  have n: "no_faults ?s'" using 1(3) by (simp add: no_faults_def)
  show ?thesis using that[OF run a LockImagesForPosts_Inr(2)[OF run] LockImagesForPosts_Inr(1)[OF run] n] .
qed

lemma settled_duplicate:
  assumes st: "settled cb (rq_db q)" and valid: "validateImageCallback cb True = None" and nf: "no_faults (rq_db q)"
    and chk: "record_check (imageModerationRecord cb now1)" and prov: "cb_provider cb \<noteq> provider_manual"
  shows "\<exists>q'. applyImageResult cb True now1 now2 q = (Inr \<lparr>res_duplicate = True, res_approved = 0, res_rejected = 0\<rparr>, q') \<and>
    same_tables (rq_db q) (rq_db q') \<and> q' = q\<lparr>rq_db := rq_db q'\<rparr>"
proof -
  let ?i = "cb_image_id cb"
  have i: "?i \<noteq> 0" and job: "cb_job_id cb \<noteq> []"
    using valid by (auto simp: validateImageCallback_def TrimSpace_def split: if_splits)
  from st obtain a where a: "a \<in> set (images (rq_db q))" "img_id a = ?i" "cb_object_key cb = [] \<or> cb_object_key cb = img_object_key a"
    "img_public_url a \<noteq> []" "\<not> IsPurgedImageURL (img_public_url a)" by (auto simp: settled_def)
  from st have uniq: "b \<in> set (images (rq_db q)) \<Longrightarrow> img_id b = img_id a \<Longrightarrow> b = a" for b
    using a(1) by (auto simp: settled_def distinct_map inj_on_def)
  let ?d1 = "(rq_db q)\<lparr>db_stmts := Suc (db_stmts (rq_db q))\<rparr>"
  obtain ids where 1: "LockPendingPostsForImage ?i (rq_db q) = (Inr ids, ?d1)"
    using nf by (simp add: LockPendingPostsForImage_def query_run no_faults_def)
  have d1: "no_faults ?d1" "a \<in> set (images ?d1)" "same_tables (rq_db q) ?d1"
    using nf a(1) by (auto simp: no_faults_def same_tables_iff)
  obtain imgs d2 where 2: "LockImagesForPosts ?i ids ?d1 = (Inr imgs, d2)" and
    imgs: "a \<in> set imgs" "set imgs \<subseteq> set (images ?d1)" and d2: "same_tables ?d1 d2" "no_faults d2"
    by (rule LockImagesForPosts_run[OF d1(1) i d1(2) a(2)])
  have 3: "validateCallbackAsset cb imgs = Inr a"
    using imgs uniq by (intro validateCallbackAsset_find[OF imgs(1) _ a(2-5)]) (simp add: subset_iff)
  have st2: "settled cb d2" using st settled_same_tables[OF d2(1)] settled_same_tables[OF d1(3)] by blast
  then obtain r where r: "first_by mr_id (of_job cb) (moderation_records d2) = Some r" "mr_image_id r = Some ?i"
    "mr_id r \<noteq> 0" "intent_known d2 (mr_id r)" and retr: "\<forall>r\<in>set (moderation_retries d2). rt_image_id r \<noteq> ?i"
    by (auto simp: settled_def)
  let ?bump = "\<lambda>n. d2\<lparr>db_stmts := n + db_stmts d2\<rparr>"
  have "list_ex (same_job (imageModerationRecord cb now1)) (moderation_records d2)"
    using first_by_Some[OF r(1)] same_job_iff[OF job] by (auto simp: list_ex_iff)
  then have 4: "CreateMachineRecordIfNew (imageModerationRecord cb now1) d2 = (Inr None, ?bump 1)"
    using d2(2) chk prov by (simp add: CreateMachineRecordIfNew_def stmt_run no_faults_def review_trigger_def
        imageModerationRecord_def)
  have 5: "FindMachineRecordByProviderJobID (cb_provider cb) (cb_job_id cb) (?bump 1) = (Inr r, ?bump 2)"
    using d2(2) r(1) by (simp add: FindMachineRecordByProviderJobID_def query_first_run no_faults_def of_job_def[abs_def])
  have 6: "reconcileImageAccess (Some a) (mr_id r) now2 (?bump 2) = (Inr (), ?bump 3)"
    using d2(2) r(3,4) a(2) i by (simp add: reconcileImageAccess_def Let_def Controller_Apply_def seq_def bind_run
        Access_Enqueue_def stmt_run no_faults_def ret_def intent_known_def)
  have "filter (\<lambda>r. rt_image_id r \<noteq> ?i) (moderation_retries d2) = moderation_retries d2"
    using retr by (simp add: filter_id_conv)
  then have 7: "DeleteForAsset ?i (?bump 3) = (Inr (), ?bump 4)"
    using d2(2) by (simp add: DeleteForAsset_def execute_run no_faults_def)
  have "applyImageResult cb True now1 now2 q =
      (Inr \<lparr>res_duplicate = True, res_approved = 0, res_rejected = 0\<rparr>, q\<lparr>rq_db := ?bump 4\<rparr>)"
    using r(2) by (simp add: applyImageResult_def valid bind_run svc_run 1 2 3 4[simplified] 5[simplified] 6[simplified] 7[simplified]
        lift_result_def reconcileDuplicateImageResult_def seq_def ret_def)
  moreover have "same_tables (rq_db q) (?bump 4)" using d2(1) by (auto simp: same_tables_iff)
  ultimately show ?thesis by simp
qed

lemma CreateMachineRecordIfNew_guard:
  assumes "CreateMachineRecordIfNew (imageModerationRecord cb now) s = (Inr c, s')"
  shows "record_check (imageModerationRecord cb now')" "cb_provider cb \<noteq> provider_manual"
    "c = None \<Longrightarrow> same_tables s s'"
  using assms by (auto simp: CreateMachineRecordIfNew_def stmt_run review_trigger_def imageModerationRecord_def
      record_check_def count_targets_def same_tables_iff split: if_splits)

lemma first_by_appended:
  assumes "\<forall>r\<in>set xs. \<not> p r" "p x"
  shows "first_by k p (xs @ [x]) = Some x"
  using assms by (simp add: first_by_def filter_False)

lemma applyImageResult_settles:
  assumes run: "applyImageResult cb True now1 now2 q = (Inr res, q')"
    and key: "distinct (map img_id (images (rq_db q)))"
  shows "settled cb (rq_db q') \<and> record_check (imageModerationRecord cb now) \<and> cb_provider cb \<noteq> provider_manual \<and>
    validateImageCallback cb True = None"
proof -
  let ?d = "rq_db q" and ?d' = "rq_db q'" and ?i = "cb_image_id cb"
  obtain ids q1 asset created q2 where valid: "validateImageCallback cb True = None" and
    ids: "set ids = {p_id p | p. p \<in> set (posts ?d) \<and> post_pending p \<and> uses_image ?d p ?i}" and
    same: "same_tables ?d (rq_db q1)" "q1 = q\<lparr>rq_db := rq_db q1\<rparr>" and
    asset: "asset \<in> set (images ?d)" "img_id asset = ?i" "img_public_url asset \<noteq> []" "\<not> IsPurgedImageURL (img_public_url asset)"
      "cb_object_key cb = [] \<or> cb_object_key cb = img_object_key asset" and
    cr: "CreateMachineRecordIfNew (imageModerationRecord cb now1) (rq_db q1) = (Inr created, rq_db q2)" and
    q2: "q2 = q1\<lparr>rq_db := rq_db q2\<rparr>" and
    k: "(case created of None \<Rightarrow> reconcileDuplicateImageResult cb asset now2
      | Some i \<Rightarrow> record_image_result cb ids asset i now2) q2 = (Inr res, q')"
    by (rule applyImageResult_Inr[OF run])
  note g = CreateMachineRecordIfNew_guard[OF cr]
  have job: "cb_job_id cb \<noteq> []" using valid by (auto simp: validateImageCallback_def split: if_splits)
  have d1: "images (rq_db q1) = images ?d" using same(1) by (auto simp: same_tables_iff)
  have "settled cb ?d'"
  proof (cases created)
    case None
    obtain r where r: "first_by mr_id (of_job cb) (moderation_records (rq_db q2)) = Some r"
      "mr_image_id r = Some ?i" "mr_id r \<noteq> 0" "intent_known ?d' (mr_id r)" "same_reviews (rq_db q2) ?d'"
      "\<forall>r\<in>set (moderation_retries ?d'). rt_image_id r \<noteq> ?i"
      using k[unfolded None option.case] by (elim reconcileDuplicate_Inr) (unfold of_job_def, blast)
    have "images ?d' = images ?d" using r(5) g(3)[OF None] d1 by (auto simp: same_reviews_def same_tables_iff)
    then show ?thesis using r asset key by (auto simp: settled_def same_reviews_def)
  next
    case (Some rid)
    note new = CreateMachineRecordIfNew_new[OF cr[unfolded Some]]
    note rec = record_image_result_Inr[OF k[unfolded Some option.case]]
    let ?f = "\<lambda>a. a\<lparr>img_moderation := status_of_verdict (cb_verdict cb)\<rparr>"
    let ?r = "(imageModerationRecord cb now1)\<lparr>mr_id := rid\<rparr>"
    have imgs: "images ?d' = upd_where (\<lambda>a. img_id a = ?i) ?f (images ?d)" using rec(2) new(3) d1 by simp
    have "?f asset \<in> set (images ?d')" unfolding imgs set_upd_where using asset(1,2) by (auto intro!: rev_image_eqI[of asset])
    moreover have "distinct (map img_id (images ?d'))" unfolding imgs using key by (subst upd_where_ids) simp_all
    moreover have "first_by mr_id (of_job cb) (moderation_records ?d') = Some ?r"
      unfolding rec(4) new(2) using new(6) same_job_iff[OF job, of now1] job
      by (intro first_by_appended) (auto simp: list_ex_iff of_job_def imageModerationRecord_def)
    moreover have "rid \<noteq> 0" using new(1) by simp
    ultimately show ?thesis using rec(6,7) asset unfolding settled_def
      by (auto simp: imageModerationRecord_def intro!: bexI[of _ "?f asset"])
  qed
  with g(1,2) valid show ?thesis by blast
qed

text \<open>
  C14: a callback may be delivered again.  After \<open>ApplyImageCallback\<close> has succeeded, a second
  delivery of the same callback, in a later request that finds the same tables and whose
  statements do not fail, succeeds as a duplicate, leaves every table as it is and sends and
  queues no further alert, whatever the times of the two deliveries.
\<close>

theorem ApplyImageCallback_idempotent:
  assumes first: "ApplyImageCallback cb now1 now2 q = (Inr res, q')"
    and key: "distinct (map img_id (images (rq_db q)))"
    and later: "same_tables (rq_db q') (rq_db r)" "no_faults (rq_db r)"
  shows "\<exists>r'. ApplyImageCallback cb now3 now4 r = (Inr \<lparr>res_duplicate = True, res_approved = 0, res_rejected = 0\<rparr>, r') \<and>
    same_tables (rq_db r) (rq_db r') \<and> rq_before r' = rq_before r \<and> rq_after r' = rq_after r \<and> rq_sent r' = rq_sent r"
proof -
  note a = applyImageResult_settles[OF first[unfolded ApplyImageCallback_def] key, of now3]
  then have "settled cb (rq_db r)" using settled_same_tables[OF later(1)] by blast
  from settled_duplicate[OF this _ later(2)] a
  obtain r' where r': "applyImageResult cb True now3 now4 r = (Inr \<lparr>res_duplicate = True, res_approved = 0, res_rejected = 0\<rparr>, r')"
    "same_tables (rq_db r) (rq_db r')" "r' = r\<lparr>rq_db := rq_db r'\<rparr>" by blast
  have "rq_before r' = rq_before r" "rq_after r' = rq_after r" "rq_sent r' = rq_sent r"
    by (subst r'(3), simp)+
  with r'(1,2) show ?thesis unfolding ApplyImageCallback_def by blast
qed

subsection \<open>Concrete instances\<close>

definition review_post :: "row_id \<Rightarrow> PostStatus \<Rightarrow> post" where
  "review_post i st = \<lparr>p_id = i, p_author_id = 1, p_post_type = TypeShare, p_share_type = None, p_status = st,
     p_category = CategoryFood, p_title = ''t'', p_content = ''c'', p_current_revision = 1, p_canteen_id = None,
     p_window_id = None, p_cuisine_id = None, p_price = None, p_budget_min = None, p_budget_max = None,
     p_like_count = 0, p_favorite_count = 0, p_comment_count = 0, p_view_count = 0,
     p_deleted_at = None, p_deleted_reason = None, p_deleted_by = None, p_created_at = 0, p_updated_at = 0\<rparr>"

definition text_record :: "row_id \<Rightarrow> row_id \<Rightarrow> ModerationVerdict \<Rightarrow> moderation_record" where
  "text_record i pid v = \<lparr>mr_id = i, mr_post_id = Some pid, mr_comment_id = None, mr_image_id = None, mr_tag_id = None,
     mr_user_id = None, mr_field = None, mr_username_candidate = None, mr_username_revision = None,
     mr_content_revision = Some 1, mr_scene = SceneText, mr_provider = ''tms'', mr_provider_job_id = None,
     mr_verdict = v, mr_labels = [], mr_score = None, mr_raw_response = None, mr_reviewer_id = None,
     mr_reviewed_at = None, mr_supersedes_id = None, mr_created_at = 1\<rparr>"

text \<open>Two pending posts, one with a reviewed text and an image under review, and one whose text failed.\<close>

definition review_db :: db where
  "review_db = empty_db\<lparr>images := [sample_image\<lparr>img_moderation := ModPending\<rparr>],
     posts := [review_post 1 PostPending, review_post 2 PostPending],
     post_images := [\<lparr>pi_post_id = 1, pi_position = 0, pi_image_id = 1\<rparr>],
     moderation_records := [text_record 1 1 VerdictPass, text_record 2 2 VerdictReview]\<rparr>"

definition pass_callback :: ImageModerationCallback where
  "pass_callback = \<lparr>cb_image_id = 1, cb_object_key = ''k1'', cb_provider = ''ims'', cb_job_id = ''j1'', cb_verdict = VerdictPass,
     cb_labels = [], cb_score = None, cb_raw = None\<rparr>"

definition blocked_db :: db where
  "blocked_db = review_db\<lparr>images := [sample_image\<lparr>img_moderation := ModBlock\<rparr>]\<rparr>"

theorem ReconcilePendingPosts_aggregates_witness:
  "let run = ReconcilePendingPosts [1] blocked_db; s' = snd run
   in fst run = Inr \<lparr>pt_approved = 0, pt_rejected = 1\<rparr> \<and> images s' = images blocked_db \<and>
      p_status (posts s' ! 0) = PostRejected \<and> posts s' ! 1 = posts blocked_db ! 1"
proof -
  let ?run = "ReconcilePendingPosts [1] blocked_db"
  have out: "fst ?run = Inr \<lparr>pt_approved = 0, pt_rejected = 1\<rparr>" and st: "p_status (posts (snd ?run) ! 0) = PostRejected"
    and len: "1 < length (posts blocked_db)" and id: "p_id (posts blocked_db ! 1) \<notin> set [1]"
    by code_simp+
  have run: "?run = (Inr \<lparr>pt_approved = 0, pt_rejected = 1\<rparr>, snd ?run)" using out by (simp add: prod_eq_iff)
  note t = ReconcilePendingPosts_aggregates[OF run]
  have "posts (snd ?run) ! 1 = posts blocked_db ! 1"
    using t[THEN conjunct2, THEN conjunct2, THEN conjunct2, THEN conjunct2, THEN spec, THEN mp, OF len, unfolded Let_def,
        THEN conjunct2, THEN conjunct1] id by blast
  with out st t show ?thesis by (simp only: Let_def simp_thms)
qed

theorem applyImageResult_fresh_witness:
  "let run = applyImageResult pass_callback True 5 6 (fresh_req review_db); s' = rq_db (snd run)
   in fst run = Inr \<lparr>res_duplicate = False, res_approved = 1, res_rejected = 0\<rparr> \<and>
      p_status (posts s' ! 0) = PostApproved \<and> posts s' ! 1 = posts review_db ! 1 \<and>
      (\<forall>a\<in>set (images_of_post s' 1). img_moderation a = ModPass)"
proof -
  let ?q = "fresh_req review_db :: ModerationAlert req"
  let ?run = "applyImageResult pass_callback True 5 6 ?q"
  have out: "fst ?run = Inr \<lparr>res_duplicate = False, res_approved = 1, res_rejected = 0\<rparr>" by code_simp
  have st: "p_status (posts (rq_db (snd ?run)) ! 0) = PostApproved" "p_status (posts review_db ! 0) = PostPending"
    "p_id (posts review_db ! 0) = 1" by code_simp+
  have keys: "distinct (map p_id (posts review_db))" "0 \<notin> p_id ` set (posts review_db)" by code_simp+
  have len: "0 < length (posts review_db)" "1 < length (posts review_db)" by code_simp+
  have unused: "\<not> uses_image review_db (posts review_db ! 1) (cb_image_id pass_callback)" by code_simp
  have run: "?run = (Inr \<lparr>res_duplicate = False, res_approved = 1, res_rejected = 0\<rparr>, snd ?run)" using out by (simp add: prod_eq_iff)
  have db: "rq_db ?q = review_db" by simp
  note t = applyImageResult_fresh[OF run, unfolded db, OF _ keys, THEN conjunct2, THEN conjunct2, THEN conjunct2, THEN conjunct2,
      THEN spec, THEN mp, unfolded Let_def]
  have "posts (rq_db (snd ?run)) ! 1 = posts review_db ! 1"
    using t[OF _ len(2), THEN conjunct2, THEN conjunct1] unused by auto
  moreover have "posts (rq_db (snd ?run)) ! 0 \<noteq> posts review_db ! 0" using st(1,2) by auto
  with t[OF _ len(1), THEN conjunct2, THEN conjunct2, THEN conjunct2] st
  have "\<forall>a\<in>set (images_of_post (rq_db (snd ?run)) 1). img_moderation a = ModPass" by simp
  ultimately show ?thesis using out st(1) by (simp add: Let_def)
qed

theorem ApplyImageCallback_idempotent_witness:
  "let q' = snd (ApplyImageCallback pass_callback 5 6 (fresh_req review_db))
   in \<exists>r'. ApplyImageCallback pass_callback 70 80 (fresh_req (rq_db q')) =
        (Inr \<lparr>res_duplicate = True, res_approved = 0, res_rejected = 0\<rparr>, r') \<and> same_tables (rq_db q') (rq_db r')"
proof -
  let ?q = "fresh_req review_db :: ModerationAlert req"
  let ?run = "ApplyImageCallback pass_callback 5 6 ?q"
  let ?r = "fresh_req (rq_db (snd ?run)) :: ModerationAlert req"
  have out: "fst ?run = Inr \<lparr>res_duplicate = False, res_approved = 1, res_rejected = 0\<rparr>" by code_simp
  have keys: "distinct (map img_id (images review_db))" by code_simp
  have "db_fault (rq_db (snd ?run)) n = False" for n by code_simp
  then have nf: "no_faults (rq_db ?r)" by (simp add: no_faults_def fun_eq_iff)
  have run: "?run = (Inr \<lparr>res_duplicate = False, res_approved = 1, res_rejected = 0\<rparr>, snd ?run)" using out by (simp add: prod_eq_iff)
  have "same_tables (rq_db (snd ?run)) (rq_db ?r)" by simp
  from ApplyImageCallback_idempotent[OF run _ this nf, of 70 80] keys show ?thesis by (auto simp: Let_def)
qed

end
