(* ===== verification/Retry_Worker.thy ===== *)
theory Retry_Worker
  imports Moderation
begin

section \<open>The worker that retries image reviews\<close>

text \<open>
  Models \<open>internal/service/image_moderation_retry_worker.go\<close>: a batch leases due rows of the
  retry queue, submits each image to the review provider, and deletes, reschedules or
  dead-letters the row under its lease.  A provider may answer at once, in which case the result
  is taken in by \<open>ApplyImageResult\<close> inside a transaction of its own.

  The provider is the parameter \<open>moderator\<close>: its answer to the \<open>n\<close>-th outside call.  Claims are
  processed by concurrent goroutines; each is processed here against an environment that may
  commit anything between two of its transactions.
\<close>

record ImageModerationSubmission =
  sub_provider :: string
  sub_job_id :: "string option"
  sub_immediate :: "ImageModerationCallback option"

datatype retry_call = CallSubmitImage row_id string | CallAlert ModerationAlert

type_synonym image_moderator = "nat \<Rightarrow> row_id \<Rightarrow> string \<Rightarrow> go_error + ImageModerationSubmission"

record retry_opts =
  ro_batch_size :: int
  ro_lease :: duration
  ro_submit_timeout :: duration
  ro_max_attempts :: int
  ro_base_backoff :: duration
  ro_max_backoff :: duration

definition withImageModerationRetryDefaults :: "retry_opts \<Rightarrow> retry_opts" where
  "withImageModerationRetryDefaults o' =
     (let base = (if ro_base_backoff o' \<le> 0 then seconds 30 else ro_base_backoff o') in
     \<lparr>ro_batch_size = (if ro_batch_size o' \<le> 0 \<or> ro_batch_size o' > 100 then 4 else ro_batch_size o'),
      ro_lease = (if ro_lease o' \<le> 0 then seconds 45 else ro_lease o'),
      ro_submit_timeout = (if ro_submit_timeout o' \<le> 0 then seconds 15 else ro_submit_timeout o'),
      ro_max_attempts = (if ro_max_attempts o' \<le> 1 then 8 else ro_max_attempts o'),
      ro_base_backoff = base,
      ro_max_backoff = (if ro_max_backoff o' < base then minutes 30 else ro_max_backoff o')\<rparr>)"

datatype imageModerationRetryOutcome =
  RetryRescheduled | RetrySubmitted | RetryConcluded | RetryDead | RetrySuperseded

type_synonym retry_err = "imageModerationRetryOutcome \<times> go_error"
type_synonym 'a retry_act = "(retry_call world, retry_err, 'a) act"

text \<open>An error always comes with the outcome "rescheduled".\<close>

definition resched_err :: "(retry_call world, go_error, 'a) act \<Rightarrow> 'a retry_act" where
  "resched_err m = map_err (\<lambda>e. (RetryRescheduled, e)) m"

definition imageModerationRetryBackoff :: "int \<Rightarrow> duration \<Rightarrow> duration \<Rightarrow> duration" where
  "imageModerationRetryBackoff n base maximum = retryBackoff n base maximum"

definition initialImageModerationRetryAt :: "time \<Rightarrow> time" where
  "initialImageModerationRetryAt now = now + seconds 30"

definition newImageModerationRetryLeaseToken :: "go_error + byte list \<Rightarrow> go_error + string" where
  "newImageModerationRetryLeaseToken random = map_sum id hex_encode random"

text \<open>In the dead-letter branch the clock is read inside the transaction, before its statement.\<close>

definition failed :: "retry_opts \<Rightarrow> retry_claim \<Rightarrow> string \<Rightarrow> imageModerationRetryOutcome retry_act" where
  "failed opts claim errorCode =
     (let attempts = rt_attempts (rc_row claim) + 1 in
      if attempts \<ge> ro_max_attempts opts
      then bind clock_now (\<lambda>now.
           bind (resched_err (in_tx (DeadLetterClaim claim attempts now))) (\<lambda>updated.
             ret (if updated then RetryDead else RetrySuperseded)))
      else bind clock_now (\<lambda>now.
           bind (resched_err (in_tx (RescheduleClaim claim attempts
               (now + imageModerationRetryBackoff attempts (ro_base_backoff opts) (ro_max_backoff opts)) errorCode now))) (\<lambda>updated.
             ret (if updated then RetryRescheduled else RetrySuperseded))))"

definition deleteClaim :: "retry_claim \<Rightarrow> imageModerationRetryOutcome \<Rightarrow> imageModerationRetryOutcome retry_act" where
  "deleteClaim claim outcome =
     bind (resched_err (in_tx (DeleteClaim claim))) (\<lambda>deleted. ret (if deleted then outcome else RetrySuperseded))"

definition applyImmediate :: "retry_claim \<Rightarrow> ImageModerationCallback \<Rightarrow> imageModerationRetryOutcome retry_act" where
  "applyImmediate claim callback =
     (let cb = callback\<lparr>cb_image_id := rt_image_id (rc_row claim), cb_object_key := rc_object_key claim\<rparr> in
      bind clock_now (\<lambda>now1. bind clock_now (\<lambda>now2.
      seq (resched_err (RunInTx_with CallAlert (ApplyImageResult cb now1 now2))) (ret RetryConcluded))))"

definition retry_processClaim ::
  "retry_opts \<Rightarrow> image_moderator \<Rightarrow> retry_claim \<Rightarrow> imageModerationRetryOutcome retry_act" where
  "retry_processClaim opts moderator claim =
     (if rc_moderation claim \<noteq> ModPending then deleteClaim claim RetrySuperseded
      else bind (ext_call (CallSubmitImage (rt_image_id (rc_row claim)) (rc_object_key claim))
                  (\<lambda>n. moderator n (rt_image_id (rc_row claim)) (rc_object_key claim))) (\<lambda>answer.
        case answer of
          Inl _ \<Rightarrow> failed opts claim ''submit_failed''
        | Inr submission \<Rightarrow>
            (case sub_immediate submission of
               Some callback \<Rightarrow> applyImmediate claim callback
             | None \<Rightarrow>
                 if TrimSpace (sub_provider submission) = [] \<or> sub_job_id submission = None \<or>
                    TrimSpace (value_or_empty (sub_job_id submission)) = []
                 then failed opts claim ''invalid_submission''
                 else deleteClaim claim RetrySubmitted)))"

record retry_result =
  rr_claimed :: nat
  rr_submitted :: nat
  rr_concluded :: nat
  rr_rescheduled :: nat
  rr_dead :: nat
  rr_superseded :: nat

fun retry_tally :: "imageModerationRetryOutcome \<Rightarrow> retry_result \<Rightarrow> retry_result" where
  "retry_tally RetrySubmitted r = r\<lparr>rr_submitted := Suc (rr_submitted r)\<rparr>"
| "retry_tally RetryConcluded r = r\<lparr>rr_concluded := Suc (rr_concluded r)\<rparr>"
| "retry_tally RetryDead r = r\<lparr>rr_dead := Suc (rr_dead r)\<rparr>"
| "retry_tally RetrySuperseded r = r\<lparr>rr_superseded := Suc (rr_superseded r)\<rparr>"
| "retry_tally RetryRescheduled r = r\<lparr>rr_rescheduled := Suc (rr_rescheduled r)\<rparr>"

fun retry_claims ::
  "retry_opts \<Rightarrow> image_moderator \<Rightarrow> retry_claim list \<Rightarrow> retry_result \<Rightarrow> go_error list \<Rightarrow>
   (retry_call world, go_error, retry_result \<times> go_error list) act" where
  "retry_claims opts moderator [] result errs = ret (result, errs)"
| "retry_claims opts moderator (claim # rest) result errs =
     bind (attempt (retry_processClaim opts moderator claim)) (\<lambda>answer. case answer of
         Inl (outcome, err) \<Rightarrow> retry_claims opts moderator rest (retry_tally outcome result) (errs @ [err])
       | Inr outcome \<Rightarrow> retry_claims opts moderator rest (retry_tally outcome result) errs)"

definition Retry_RunBatch ::
  "retry_opts \<Rightarrow> image_moderator \<Rightarrow> (row_id \<Rightarrow> bool) \<Rightarrow> go_error + byte list \<Rightarrow>
   (retry_call world, go_error, retry_result \<times> go_error list) act" where
  "Retry_RunBatch opts moderator locked random =
     bind clock_now (\<lambda>now. bind (lift_result (newImageModerationRetryLeaseToken random)) (\<lambda>token.
     bind (in_tx (Retry_ClaimDue locked now (now + ro_lease opts) token (ro_batch_size opts))) (\<lambda>claims.
       retry_claims opts moderator claims
         \<lparr>rr_claimed = length claims, rr_submitted = 0, rr_concluded = 0, rr_rescheduled = 0, rr_dead = 0,
          rr_superseded = 0\<rparr> [])))"

subsection \<open>The invariant of the queue\<close>

text \<open>A waiting row has attempts left, and no row ever records more attempts than the budget.\<close>

definition retry_ok :: "int \<Rightarrow> moderation_retry \<Rightarrow> bool" where
  "retry_ok budget r \<longleftrightarrow> retry_check r \<and> rt_attempts r \<le> budget \<and> (rt_state r = RetryPending \<longrightarrow> rt_attempts r < budget)"

definition retry_inv :: "int \<Rightarrow> db \<Rightarrow> bool" where
  "retry_inv budget s \<longleftrightarrow> distinct (map rt_image_id (moderation_retries s)) \<and> list_all (retry_ok budget) (moderation_retries s)"

definition claim_ok :: "int \<Rightarrow> retry_claim \<Rightarrow> bool" where
  "claim_ok budget c \<longleftrightarrow> 0 < rt_attempts (rc_row c) \<and> rt_attempts (rc_row c) < budget"

lemma retry_inv_blind: "stmt_blind (retry_inv b)"
  by (simp add: stmt_blind_def retry_inv_def)

lemma retry_inv_table_ok: "retry_inv b s \<Longrightarrow> retry_table_ok s"
  by (auto simp: retry_inv_def retry_table_ok_def retry_ok_def list_all_iff)

lemma retry_inv_retries: "moderation_retries t = moderation_retries s \<Longrightarrow> retry_inv b t = retry_inv b s"
  by (simp add: retry_inv_def)

lemma retry_inv_filter: "retry_inv b s \<Longrightarrow> retry_inv b (s\<lparr>moderation_retries := filter p (moderation_retries s)\<rparr>)"
  by (auto simp: retry_inv_def list_all_iff distinct_map inj_on_def)

lemma retry_ok_fresh_row:
  "2 \<le> b \<Longrightarrow> List.member retry_codes code \<Longrightarrow>
   retry_ok b \<lparr>rt_image_id = i, rt_state = RetryPending, rt_attempts = 1, rt_next_attempt_at = Some t,
     rt_lease_token = None, rt_lease_until = None, rt_last_error_code = code,
     rt_dead_lettered_at = None, rt_created_at = now, rt_updated_at = now\<rparr>"
  by (simp add: retry_ok_def retry_check_def)

lemma Retry_Enqueue_triple:
  assumes "2 \<le> b" "List.member retry_codes code"
  shows "triple (retry_inv b) (Retry_Enqueue i t code now) (\<lambda>x d. retry_inv b d \<and> True) (\<lambda>e d. e = DbFailure)"
  unfolding Retry_Enqueue_def
proof (rule triple_checked_inv[OF retry_inv_blind])
  fix s assume s: "retry_inv b s"
  let ?f = "\<lambda>s. if \<exists>r\<in>set (moderation_retries s). rt_image_id r = i then ((), s)
     else ((), s\<lparr>moderation_retries := moderation_retries s @
            [\<lparr>rt_image_id = i, rt_state = RetryPending, rt_attempts = 1, rt_next_attempt_at = Some t,
              rt_lease_token = None, rt_lease_until = None, rt_last_error_code = code,
              rt_dead_lettered_at = None, rt_created_at = now, rt_updated_at = now\<rparr>]\<rparr>)"
  have "retry_inv b (snd (?f s))"
    using s retry_ok_fresh_row[OF assms] by (auto simp: retry_inv_def)
  then show "retry_table_ok (snd (?f s)) \<and> retry_inv b (snd (?f s))" using retry_inv_table_ok by blast
qed simp

lemma Retry_ClaimDue_triple:
  assumes "16 \<le> length tok" "length tok \<le> 64"
  shows "triple (retry_inv b) (Retry_ClaimDue locked now until tok limit)
     (\<lambda>cs d. retry_inv b d \<and> list_all (claim_ok b) cs) (\<lambda>e d. e = DbFailure \<or> (\<exists>m. e = RepoPlain m))"
proof -
  let ?run = "\<lambda>s. claim_due retry_key rt_image_id retry_due retry_grant locked now until tok (nat limit) (moderation_retries s)"
  let ?f = "\<lambda>s. (List.map_filter (retry_with_asset s) (fst (?run s)), s\<lparr>moderation_retries := snd (?run s)\<rparr>)"
  have grant: "retry_ok b (retry_grant tok now until r)" if "retry_ok b r" "retry_due now r" for r
    using that assms by (auto simp: retry_ok_def retry_check_def retry_grant_def retry_due_def)
  have keep: "retry_inv b (snd (?f s))" if "retry_inv b s" for s
  proof -
    have ids: "map rt_image_id (snd (?run s)) = map rt_image_id (moderation_retries s)"
      by (rule claim_due_ids) (simp add: retry_grant_def)
    have "list_all (retry_ok b) (snd (?run s))"
      by (rule claim_due_all) (use that grant in \<open>simp_all add: retry_inv_def\<close>)
    with that show ?thesis by (simp add: retry_inv_def ids)
  qed
  have claims: "list_all (claim_ok b) (fst (?f s))" if s: "retry_inv b s" for s
    unfolding list_all_iff
  proof
    fix c assume "c \<in> set (fst (?f s))"
    then obtain r where r: "r \<in> set (fst (?run s))" "retry_with_asset s r = Some c"
      by (auto simp: List.map_filter_def)
    then have row: "rc_row c = r" by (auto simp: retry_with_asset_def)
    have run: "?run s = (fst (?run s), snd (?run s))" by simp
    from retry_q.claimed_rows(4)[OF run r(1)] obtain q where
      q: "q \<in> set (moderation_retries s)" "r = retry_grant tok now until q" "rt_image_id q = rt_image_id r" by blast
    from retry_q.claimed_was_due[OF run r(1)] obtain q' where
      q': "q' \<in> set (moderation_retries s)" "rt_image_id q' = rt_image_id r" "retry_due now q'" by blast
    have "q = q'" using s q q' by (auto simp: retry_inv_def distinct_map inj_on_def)
    moreover have "retry_ok b q" using s q(1) by (simp add: retry_inv_def list_all_iff)
    ultimately show "claim_ok b c"
      using q(2) q'(3) by (simp add: claim_ok_def row retry_ok_def retry_check_def retry_due_def retry_grant_def)
  qed
  have "triple (retry_inv b) (checked ''image_moderation_retries'' retry_table_ok ?f)
     (\<lambda>cs d. retry_inv b d \<and> list_all (claim_ok b) cs) (\<lambda>e d. e = DbFailure)"
    by (rule triple_checked_inv[OF retry_inv_blind], rule conjI, rule retry_inv_table_ok[of b])
      (simp_all only: keep claims)
  then have "triple (retry_inv b) (checked ''image_moderation_retries'' retry_table_ok ?f)
     (\<lambda>cs d. retry_inv b d \<and> list_all (claim_ok b) cs) (\<lambda>e d. e = DbFailure \<or> (\<exists>m. e = RepoPlain m))"
    by (rule triple_conseq) auto
  then show ?thesis
    unfolding Retry_ClaimDue_def by (intro triple_if triple_fail) (simp_all add: case_prod_beta)
qed

lemma fenced_retry_triple:
  assumes "\<And>r. retry_ok b r \<Longrightarrow> retry_fence claim r \<Longrightarrow> retry_ok b (f r)" "\<And>r. rt_image_id (f r) = rt_image_id r"
  shows "triple (retry_inv b) (checked ''image_moderation_retries'' retry_table_ok (\<lambda>s.
       case fenced_update (retry_fence claim) f (moderation_retries s) of
         (updated, t) \<Rightarrow> (updated, s\<lparr>moderation_retries := t\<rparr>)))
     (\<lambda>x d. retry_inv b d \<and> True) (\<lambda>e d. e = DbFailure)"
proof (rule triple_checked_inv[OF retry_inv_blind])
  fix s assume s: "retry_inv b s"
  let ?t = "upd_where (retry_fence claim) f (moderation_retries s)"
  have "map rt_image_id ?t = map rt_image_id (moderation_retries s)" by (rule upd_where_ids) (rule assms(2))
  moreover have "list_all (retry_ok b) ?t" using s assms(1) by (intro upd_where_all) (auto simp: retry_inv_def)
  ultimately have "retry_inv b (s\<lparr>moderation_retries := ?t\<rparr>)" using s by (simp add: retry_inv_def)
  then show "retry_table_ok (snd (case fenced_update (retry_fence claim) f (moderation_retries s) of
        (updated, t) \<Rightarrow> (updated, s\<lparr>moderation_retries := t\<rparr>))) \<and>
     retry_inv b (snd (case fenced_update (retry_fence claim) f (moderation_retries s) of
        (updated, t) \<Rightarrow> (updated, s\<lparr>moderation_retries := t\<rparr>)))"
    by (simp add: fenced_update_def retry_inv_table_ok)
qed simp

definition retry_safe :: "int \<Rightarrow> go_error \<Rightarrow> retry_call world \<Rightarrow> bool" where
  "retry_safe b e w \<longleftrightarrow> world_inv (retry_inv b) w \<and> not_check_violation e"

lemma retry_tx_triples:
  assumes "0 < n" "n \<le> b"
  shows "n < b \<Longrightarrow> List.member retry_codes code \<Longrightarrow>
      triple (world_inv (retry_inv b)) (in_tx (RescheduleClaim claim n t code now)) (\<lambda>x w. world_inv (retry_inv b) w \<and> True) (retry_safe b)"
    and "triple (world_inv (retry_inv b)) (in_tx (DeadLetterClaim claim n now)) (\<lambda>x w. world_inv (retry_inv b) w \<and> True) (retry_safe b)"
    and "triple (world_inv (retry_inv b)) (in_tx (DeleteClaim claim)) (\<lambda>x w. world_inv (retry_inv b) w \<and> True) (retry_safe b)"
proof -
  have clean: "\<And>e. e = DbFailure \<Longrightarrow> not_check_violation (RepoErr e)" by (simp add: not_check_violation_def)
  show "triple (world_inv (retry_inv b)) (in_tx (RescheduleClaim claim n t code now)) (\<lambda>x w. world_inv (retry_inv b) w \<and> True) (retry_safe b)"
    if "n < b" "List.member retry_codes code"
    unfolding retry_safe_def RescheduleClaim_def
    by (rule triple_in_tx[OF retry_inv_blind], rule triple_conseq[OF fenced_retry_triple])
      (use that assms(1) clean in \<open>auto simp: retry_ok_def retry_check_def retry_fence_def\<close>)
  show "triple (world_inv (retry_inv b)) (in_tx (DeadLetterClaim claim n now)) (\<lambda>x w. world_inv (retry_inv b) w \<and> True) (retry_safe b)"
    unfolding retry_safe_def DeadLetterClaim_def
    by (rule triple_in_tx[OF retry_inv_blind], rule triple_conseq[OF fenced_retry_triple])
      (use assms clean in \<open>auto simp: retry_ok_def retry_check_def retry_fence_def retry_codes_def\<close>)
  have "triple (retry_inv b) (DeleteClaim claim) (\<lambda>x d. retry_inv b d \<and> True) (\<lambda>e d. not_check_violation (RepoErr e))"
    by (auto simp: triple_def DeleteClaim_def execute_run not_check_violation_def retry_inv_def list_all_iff
        distinct_map inj_on_def)
  then show "triple (world_inv (retry_inv b)) (in_tx (DeleteClaim claim)) (\<lambda>x w. world_inv (retry_inv b) w \<and> True) (retry_safe b)"
    unfolding retry_safe_def by (rule triple_in_tx[OF retry_inv_blind]) (simp add: clean)
qed

subsection \<open>Taking in a result keeps the queue's invariant\<close>

definition calm :: "int \<Rightarrow> ModerationAlert req \<Rightarrow> bool" where
  "calm b q \<longleftrightarrow> retry_inv b (rq_db q) \<and> rq_before q = []"

definition api_error :: "go_error \<Rightarrow> bool" where
  "api_error e \<longleftrightarrow> (\<exists>a c. e = ApiErr a c)"

lemma api_errors [simp]:
  "api_error (internal_of e)" "api_error (ToAPIError code e)" "api_error (BadRequest c)" "api_error (NotFound c)"
  "api_error (Conflict c)" "api_error (Internal x)"
  by (simp_all add: api_error_def internal_of_def ToAPIError_def BadRequest_def NotFound_def Conflict_def Internal_def newf_def)

lemma api_error_clean: "api_error e \<Longrightarrow> not_check_violation e"
  by (auto simp: api_error_def not_check_violation_def)

definition calm_act :: "int \<Rightarrow> 'a mod_act \<Rightarrow> bool" where
  "calm_act b m \<longleftrightarrow> triple (calm b) m (\<lambda>x. calm b) (\<lambda>e q. api_error e)"

lemma calm_svc: "keeps (retry_inv b) m \<Longrightarrow> (\<And>e. api_error (h e)) \<Longrightarrow> calm_act b (svc h m)"
  by (auto simp: calm_act_def triple_def svc_run keeps_def calm_def split: prod.splits sum.splits)

lemma calm_bind: "calm_act b m \<Longrightarrow> (\<And>x. calm_act b (f x)) \<Longrightarrow> calm_act b (bind m f)"
  unfolding calm_act_def by (rule triple_bind)

lemma calm_seq: "calm_act b m \<Longrightarrow> calm_act b n \<Longrightarrow> calm_act b (seq m n)"
  unfolding seq_def by (rule calm_bind)

lemma calm_base:
  "calm_act b (ret x)" "api_error e \<Longrightarrow> calm_act b (fail e)"
  "(\<And>e. r = Inl e \<Longrightarrow> api_error e) \<Longrightarrow> calm_act b (lift_result r)"
  by (auto simp: calm_act_def triple_def ret_def fail_def lift_result_def split: sum.splits)

lemma calm_if: "calm_act b m \<Longrightarrow> calm_act b n \<Longrightarrow> calm_act b (if c then m else n)"
  by simp

lemma calm_Alert: "calm_act b (Alert a)"
  by (auto simp: calm_act_def triple_def Alert_def AfterCommit_def bind_run ret_def calm_def split: option.splits)

lemma retries_kept:
  "keeps (retry_inv b) (query f)" "keeps (retry_inv b) (query_first g)"
  "keeps (retry_inv b) (CreateMachineRecordIfNew r)" "keeps (retry_inv b) (UpdateImageModeration i st)"
  "keeps (retry_inv b) (set_post_status cond pst)" "keeps (retry_inv b) (Access_Enqueue img source pub purge now)"
  "keeps (retry_inv b) (DeleteForAsset i)"
proof -
  show "keeps (retry_inv b) (query f)" "keeps (retry_inv b) (query_first g)"
    by (rule keeps_query keeps_query_first, rule retry_inv_blind)+
  show "keeps (retry_inv b) (CreateMachineRecordIfNew r)" "keeps (retry_inv b) (UpdateImageModeration i st)"
    "keeps (retry_inv b) (set_post_status cond pst)" "keeps (retry_inv b) (Access_Enqueue img source pub purge now)"
    by (simp_all add: keeps_def retry_inv_def CreateMachineRecordIfNew_def UpdateImageModeration_def set_post_status_def
        Access_Enqueue_def stmt_run execute_run insert_record_def Let_def)
  show "keeps (retry_inv b) (DeleteForAsset i)"
    unfolding DeleteForAsset_def by (rule keeps_execute[OF retry_inv_blind]) (simp add: retry_inv_filter)
qed

lemma retries_kept_derived:
  "keeps (retry_inv b) (LockPendingPostsForImage i)" "keeps (retry_inv b) (LockImagesForPosts i ids)"
  "keeps (retry_inv b) (FindMachineRecordByProviderJobID p j)" "keeps (retry_inv b) (ReconcilePendingPosts ids)"
  "keeps (retry_inv b) (applyImageAccess (Some a) src v now)" "keeps (retry_inv b) (reconcileImageAccess (Some a) src now)"
  unfolding LockPendingPostsForImage_def LockImagesForPosts_def FindMachineRecordByProviderJobID_def
    ReconcilePendingPosts_def applyImageAccess_def reconcileImageAccess_def Controller_Apply_def Let_def option.case
  by (auto intro!: keeps_bind keeps_seq retries_kept)

lemma validateCallbackAsset_api: "validateCallbackAsset cb imgs = Inl e \<Longrightarrow> api_error e"
  by (induction imgs) (auto split: if_splits)

lemma calm_applyImageResult: "calm_act b (applyImageResult cb need now1 now2)"
proof (cases "validateImageCallback cb need")
  case (Some e)
  then have "api_error e" by (auto simp: validateImageCallback_def split: if_splits)
  then show ?thesis by (simp add: applyImageResult_def Some calm_base)
next
  case None
  have rec: "calm_act b (record_image_result cb ids a i now2)" for ids a i
    unfolding record_image_result_def
    by (intro calm_seq calm_bind calm_svc calm_if calm_Alert calm_base retries_kept retries_kept_derived) simp_all
  have dup: "calm_act b (reconcileDuplicateImageResult cb a now2)" for a
    unfolding reconcileDuplicateImageResult_def
    by (intro calm_seq calm_bind calm_svc calm_if calm_base retries_kept retries_kept_derived) simp_all
  show ?thesis
    unfolding applyImageResult_def None option.case
    by (intro calm_bind calm_svc calm_base retries_kept retries_kept_derived)
      (auto simp: rec dup dest: validateCallbackAsset_api split: option.split)
qed

subsection \<open>A batch\<close>

lemma triple_attempt:
  assumes "triple P m Q E"
  shows "triple P (attempt m) (\<lambda>a w. case a of Inl e \<Rightarrow> E e w | Inr x \<Rightarrow> Q x w) F"
  unfolding triple_def
proof (intro allI impI)
  fix w assume "P w"
  with assms[unfolded triple_def, rule_format, of w]
  show "case attempt m w of (Inl e, t) \<Rightarrow> F e t | (Inr a, t) \<Rightarrow> (case a of Inl e \<Rightarrow> E e t | Inr x \<Rightarrow> Q x t)"
    by (cases "m w") (auto simp: attempt_run split: sum.splits)
qed

lemma resched_err_triple:
  "triple P m Q (retry_safe b) \<Longrightarrow> triple P (resched_err m) Q (\<lambda>e. retry_safe b (snd e))"
  unfolding resched_err_def by (rule triple_map_err) simp

lemma retry_leaf:
  assumes "triple (world_inv (retry_inv b)) m (\<lambda>x w. world_inv (retry_inv b) w \<and> True) (retry_safe b)"
  shows "triple (world_inv (retry_inv b)) (bind (resched_err m) (\<lambda>x. ret (f x))) (\<lambda>x. world_inv (retry_inv b)) (\<lambda>e. retry_safe b (snd e))"
  by (rule triple_bind[OF resched_err_triple[OF assms]], rule triple_ret) simp

lemma failed_triple:
  assumes "claim_ok (ro_max_attempts opts) claim" "List.member retry_codes code"
  shows "triple (world_inv (retry_inv (ro_max_attempts opts))) (failed opts claim code)
     (\<lambda>x. world_inv (retry_inv (ro_max_attempts opts))) (\<lambda>e. retry_safe (ro_max_attempts opts) (snd e))"
  unfolding failed_def Let_def
  by (intro triple_if triple_bind[OF triple_clock_now] retry_leaf retry_tx_triples)
    (use assms in \<open>simp_all add: claim_ok_def\<close>)

lemma retry_processClaim_triple:
  assumes ok: "claim_ok (ro_max_attempts opts) claim"
  shows "triple (world_inv (retry_inv (ro_max_attempts opts))) (retry_processClaim opts moderator claim)
     (\<lambda>x. world_inv (retry_inv (ro_max_attempts opts))) (\<lambda>e. retry_safe (ro_max_attempts opts) (snd e))"
proof -
  let ?b = "ro_max_attempts opts"
  have del: "triple (world_inv (retry_inv ?b)) (deleteClaim claim oc) (\<lambda>x. world_inv (retry_inv ?b)) (\<lambda>e. retry_safe ?b (snd e))" for oc
    unfolding deleteClaim_def
    by (rule retry_leaf, rule retry_tx_triples(3)[of "rt_attempts (rc_row claim)"]) (use ok in \<open>simp_all add: claim_ok_def\<close>)
  have tx: "triple (world_inv (retry_inv ?b)) (RunInTx_with CallAlert (ApplyImageResult cb n1 n2))
      (\<lambda>x. world_inv (retry_inv ?b)) (retry_safe ?b)" for cb n1 n2
    unfolding retry_safe_def
  proof (rule triple_RunInTx_with[OF retry_inv_blind])
    show "triple (\<lambda>q. retry_inv ?b (rq_db q) \<and> rq_before q = []) (ApplyImageResult cb n1 n2)
        (\<lambda>x q. retry_inv ?b (rq_db q) \<and> rq_before q = []) (\<lambda>e q. not_check_violation e)"
      using calm_applyImageResult[of ?b cb False n1 n2] unfolding calm_act_def calm_def ApplyImageResult_def
      by (rule triple_conseq) (simp_all add: api_error_clean)
  qed (simp add: not_check_violation_def)
  have imm: "triple (world_inv (retry_inv ?b)) (applyImmediate claim cb) (\<lambda>x. world_inv (retry_inv ?b)) (\<lambda>e. retry_safe ?b (snd e))" for cb
    unfolding applyImmediate_def Let_def seq_def
    by (intro triple_bind[OF triple_clock_now], rule triple_bind[OF resched_err_triple[OF tx]], rule triple_ret)
  have codes: "List.member retry_codes ''submit_failed''" "List.member retry_codes ''invalid_submission''"
    by (simp_all add: retry_codes_def)
  show ?thesis
    unfolding retry_processClaim_def
    by (intro triple_if triple_bind[OF triple_ext_call] del)
      (auto simp: imm del failed_triple[OF ok codes(1)] failed_triple[OF ok codes(2)] split: sum.split option.split)
qed

definition tallied :: "retry_result \<Rightarrow> nat" where
  "tallied r = rr_submitted r + rr_concluded r + rr_rescheduled r + rr_dead r + rr_superseded r"

lemma tallied_tally [simp]: "tallied (retry_tally oc r) = Suc (tallied r)" "rr_claimed (retry_tally oc r) = rr_claimed r"
  by (cases oc; simp add: tallied_def)+

lemma retry_claims_triple:
  assumes "list_all (claim_ok (ro_max_attempts opts)) claims" "list_all not_check_violation errs"
  shows "triple (world_inv (retry_inv (ro_max_attempts opts))) (retry_claims opts moderator claims result errs)
     (\<lambda>(r, es) w. world_inv (retry_inv (ro_max_attempts opts)) w \<and> list_all not_check_violation es \<and>
        tallied r = tallied result + length claims \<and> rr_claimed r = rr_claimed result) (retry_safe (ro_max_attempts opts))"
  using assms
proof (induction claims arbitrary: result errs)
  case Nil
  then show ?case by (simp add: triple_def ret_def)
next
  case (Cons c cs)
  let ?b = "ro_max_attempts opts"
  let ?Q = "\<lambda>result n (r, es) w. world_inv (retry_inv ?b) w \<and> list_all not_check_violation es \<and>
        tallied r = tallied result + n \<and> rr_claimed r = rr_claimed result"
  let ?next = "\<lambda>answer. case answer of
         Inl (outcome, err) \<Rightarrow> retry_claims opts moderator cs (retry_tally outcome result) (errs @ [err])
       | Inr outcome \<Rightarrow> retry_claims opts moderator cs (retry_tally outcome result) errs"
  have p: "triple (world_inv (retry_inv ?b)) (retry_processClaim opts moderator c)
     (\<lambda>x. world_inv (retry_inv ?b)) (\<lambda>e. retry_safe ?b (snd e))"
    using Cons.prems(1) by (intro retry_processClaim_triple) simp
  have "triple (world_inv (retry_inv ?b)) (bind (attempt (retry_processClaim opts moderator c)) ?next)
      (?Q result (length (c # cs))) (retry_safe ?b)"
  proof (rule triple_bind[where R = "\<lambda>a w. world_inv (retry_inv ?b) w \<and> (case a of Inl e \<Rightarrow> not_check_violation (snd e) | Inr _ \<Rightarrow> True)"])
    show "triple (world_inv (retry_inv ?b)) (attempt (retry_processClaim opts moderator c))
       (\<lambda>a w. world_inv (retry_inv ?b) w \<and> (case a of Inl e \<Rightarrow> not_check_violation (snd e) | Inr _ \<Rightarrow> True)) (retry_safe ?b)"
      by (rule triple_conseq[OF triple_attempt[OF p]]) (auto simp: retry_safe_def split: sum.splits)
    show "triple (\<lambda>w. world_inv (retry_inv ?b) w \<and> (case a of Inl e \<Rightarrow> not_check_violation (snd e) | Inr _ \<Rightarrow> True)) (?next a)
       (?Q result (length (c # cs))) (retry_safe ?b)" for a
    proof (cases a)
      case (Inl e)
      obtain oc err where e: "e = (oc, err)" by (cases e)
      show ?thesis unfolding Inl e
        by (simp, rule triple_pure, rule triple_conseq[OF Cons.IH[of "errs @ [err]" "retry_tally oc result"]])
          (use Cons.prems in auto)
    next
      case (Inr oc)
      show ?thesis unfolding Inr
        by (simp, rule triple_conseq[OF Cons.IH[of errs "retry_tally oc result"]]) (use Cons.prems in auto)
    qed
  qed
  then show ?case by simp
qed

text \<open>
  C20: retries are bounded, accounted for, and never violate a constraint.  In a queue in which
  every waiting row has attempts left, a batch of the worker, whatever other sessions commit in
  between (as long as they keep the same invariant), whatever fails and whatever the review
  provider answers, leaves such a queue: no row ever records more attempts than the budget and a
  row at the budget is out of the queue's way as a dead letter.  The batch counts every claimed
  row exactly once, and neither its error nor the errors of its rows are constraint violations.
\<close>

theorem Retry_RunBatch_bounded:
  assumes "world_inv (retry_inv (ro_max_attempts opts)) w" and "\<And>bs. random = Inr bs \<Longrightarrow> length bs = 16"
    and "\<And>e. random = Inl e \<Longrightarrow> not_check_violation e"
  shows "case Retry_RunBatch opts moderator locked random w of
      (Inl e, w') \<Rightarrow> world_inv (retry_inv (ro_max_attempts opts)) w' \<and> not_check_violation e
    | (Inr (r, es), w') \<Rightarrow> world_inv (retry_inv (ro_max_attempts opts)) w' \<and> list_all not_check_violation es \<and>
        rr_submitted r + rr_concluded r + rr_rescheduled r + rr_dead r + rr_superseded r = rr_claimed r"
proof -
  let ?b = "ro_max_attempts opts"
  have token: "16 \<le> length tok \<and> length tok \<le> 64" if "newImageModerationRetryLeaseToken random = Inr tok" for tok
    using that assms(2) by (cases random) (auto simp: newImageModerationRetryLeaseToken_def)
  have claim: "triple (world_inv (retry_inv ?b)) (in_tx (Retry_ClaimDue locked now until tok n))
      (\<lambda>cs w. world_inv (retry_inv ?b) w \<and> list_all (claim_ok ?b) cs) (retry_safe ?b)"
    if "16 \<le> length tok" "length tok \<le> 64" for now until tok n
    unfolding retry_safe_def
    by (rule triple_in_tx[OF retry_inv_blind], rule triple_conseq[OF Retry_ClaimDue_triple[OF that]])
      (auto simp: not_check_violation_def)
  have "triple (world_inv (retry_inv ?b)) (Retry_RunBatch opts moderator locked random)
      (\<lambda>(r, es) w. world_inv (retry_inv ?b) w \<and> list_all not_check_violation es \<and> tallied r = rr_claimed r) (retry_safe ?b)"
    unfolding Retry_RunBatch_def
  proof (rule triple_bind[OF triple_clock_now], rule triple_bind)
    show "triple (world_inv (retry_inv ?b)) (lift_result (newImageModerationRetryLeaseToken random))
        (\<lambda>tok w. world_inv (retry_inv ?b) w \<and> newImageModerationRetryLeaseToken random = Inr tok) (retry_safe ?b)"
      by (rule triple_lift_result) (use assms(3) in \<open>cases random; auto simp: newImageModerationRetryLeaseToken_def retry_safe_def\<close>)+
    show "triple (\<lambda>w. world_inv (retry_inv ?b) w \<and> newImageModerationRetryLeaseToken random = Inr tok)
       (bind (in_tx (Retry_ClaimDue locked now (now + ro_lease opts) tok (ro_batch_size opts))) (\<lambda>claims.
         retry_claims opts moderator claims \<lparr>rr_claimed = length claims, rr_submitted = 0, rr_concluded = 0,
           rr_rescheduled = 0, rr_dead = 0, rr_superseded = 0\<rparr> []))
       (\<lambda>(r, es) w. world_inv (retry_inv ?b) w \<and> list_all not_check_violation es \<and> tallied r = rr_claimed r) (retry_safe ?b)" for now tok
      by (rule triple_pure, rule triple_bind[OF claim], (drule token, simp)+, rule triple_pure,
          rule triple_conseq[OF retry_claims_triple]) (auto simp: tallied_def)
  qed
  from this[unfolded triple_def, rule_format, OF assms(1)] show ?thesis
    by (auto simp: tallied_def retry_safe_def split: prod.splits sum.splits)
qed

subsection \<open>Concrete runs\<close>

definition sample_retry_opts :: retry_opts where
  "sample_retry_opts = withImageModerationRetryDefaults
     \<lparr>ro_batch_size = 0, ro_lease = 0, ro_submit_timeout = 0, ro_max_attempts = 3, ro_base_backoff = 0, ro_max_backoff = 0\<rparr>"

text \<open>Image 1 waits for a retry; statement number \<open>bad\<close> fails.\<close>

definition retry_world :: "nat \<Rightarrow> retry_call world" where
  "retry_world bad = \<lparr>w_db = (snd (Retry_Enqueue 1 (initialImageModerationRetryAt 0) ''submit_failed'' 0 review_db))
       \<lparr>db_stmts := 0, db_fault := (\<lambda>n. n = bad)\<rparr>,
     w_env = (\<lambda>_ d. d), w_txs = 0, w_tx_fault = (\<lambda>_. False), w_tx_lost = (\<lambda>_. False),
     w_clock = (\<lambda>n. minutes (1 + int n)), w_ticks = 0, w_log = []\<rparr>"

definition blocking_moderator :: image_moderator where
  "blocking_moderator _ i key = Inr \<lparr>sub_provider = ''ims'', sub_job_id = None,
     sub_immediate = Some (pass_callback\<lparr>cb_verdict := VerdictBlock\<rparr>)\<rparr>"

definition failing_moderator :: image_moderator where
  "failing_moderator _ i key = Inl (PlainErr ''unavailable'')"

abbreviation retry_random :: "go_error + byte list" where
  "retry_random \<equiv> Inr (replicate 16 0)"

lemma retry_world_inv: "world_inv (retry_inv 3) (retry_world bad)"
  unfolding world_inv_def
proof
  show "\<forall>n d. retry_inv 3 d \<longrightarrow> retry_inv 3 (w_env (retry_world bad) n d)" by (simp add: retry_world_def)
  have "retry_inv 3 (snd (Retry_Enqueue 1 (initialImageModerationRetryAt 0) ''submit_failed'' 0 review_db))" by code_simp
  then show "retry_inv 3 (w_db (retry_world bad))" by (simp add: retry_world_def retry_inv_def)
qed

theorem Retry_RunBatch_bounded_witness:
  "let run = Retry_RunBatch sample_retry_opts failing_moderator (\<lambda>_. False) retry_random (retry_world 99)
   in \<not> isl (fst run) \<and> rr_claimed (fst (projr (fst run))) = 1 \<and> rr_rescheduled (fst (projr (fst run))) = 1 \<and>
      map rt_attempts (moderation_retries (w_db (snd run))) = [2] \<and> retry_inv 3 (w_db (snd run))"
proof -
  let ?run = "Retry_RunBatch sample_retry_opts failing_moderator (\<lambda>_. False) retry_random (retry_world 99)"
  have budget: "ro_max_attempts sample_retry_opts = 3" by code_simp
  have out: "\<not> isl (fst ?run)" "rr_claimed (fst (projr (fst ?run))) = 1" "rr_rescheduled (fst (projr (fst ?run))) = 1"
    "map rt_attempts (moderation_retries (w_db (snd ?run))) = [2]" by code_simp+
  have "world_inv (retry_inv 3) (snd ?run)"
    using Retry_RunBatch_bounded[of sample_retry_opts "retry_world 99" retry_random failing_moderator "\<lambda>_. False"]
    by (auto simp: budget retry_world_inv split: prod.splits sum.splits)
  with out show ?thesis by (simp add: Let_def world_inv_def)
qed

text \<open>
  The alert decorator promises that an alert raised inside a transaction is sent only after its
  commit.  \<open>RunInTx\<close> gives its body no queue for such effects, so here the alert about a blocked
  image goes out although the transaction then fails and nothing of the result is stored.
\<close>

lemma retry_alert_without_commit:
  "let run = Retry_RunBatch sample_retry_opts blocking_moderator (\<lambda>_. False) retry_random (retry_world 9)
   in length (w_log (snd run)) = 2 \<and>
      list_ex (\<lambda>c. case c of CallAlert a \<Rightarrow> al_verdict a = VerdictBlock | _ \<Rightarrow> False) (w_log (snd run)) \<and>
      map img_moderation (images (w_db (snd run))) = [ModPending] \<and>
      length (moderation_records (w_db (snd run))) = length (moderation_records review_db)"
  by code_simp

end
