(* ===== verification/Manual_Review.thy ===== *)
theory Manual_Review
  imports Moderation
begin

section \<open>Manual review of a whole post\<close>

text \<open>
  Models \<open>ManualReviewPost\<close> of \<open>internal/service/moderation_callback.go\<close> with the statements it
  uses.  One decision of a reviewer answers every machine verdict that is still open on the
  post's current text and on its images: each gets a manual record that supersedes it, the images
  take the verdict, and the post (with the other pending posts that show one of the images) is
  recomputed.
\<close>

subsection \<open>The code\<close>

text \<open>
  \<open>pendingModerationQuery\<close> restricted to the post or its images: machine records that did not
  pass, that nothing supersedes, and that are about the current revision.  The query's clause on
  comments is vacuous here, because a record has a single target.
\<close>

definition pending_review :: "db \<Rightarrow> moderation_record \<Rightarrow> bool" where
  "pending_review s r \<longleftrightarrow> (mr_verdict r = VerdictBlock \<or> mr_verdict r = VerdictReview) \<and>
     mr_provider r \<noteq> provider_manual \<and>
     \<not> list_ex (\<lambda>m. mr_supersedes_id m = Some (mr_id r)) (moderation_records s) \<and>
     (case mr_post_id r of None \<Rightarrow> True
      | Some i \<Rightarrow> (case find (\<lambda>p. p_id p = i) (posts s) of None \<Rightarrow> False
                   | Some p \<Rightarrow> mr_content_revision r = Some (p_current_revision p)))"

definition LockPendingReviewRecordsForPost :: "row_id \<Rightarrow> (db, repo_error, moderation_record list) act" where
  "LockPendingReviewRecordsForPost postID = query (\<lambda>s. sort_key mr_id (filter (\<lambda>r. pending_review s r \<and>
     (mr_post_id r = Some postID \<or>
      list_ex (\<lambda>l. pi_post_id l = postID \<and> mr_image_id r = Some (pi_image_id l)) (post_images s)))
     (moderation_records s)))"

record ManualPostReviewInput =
  mi_post_id :: row_id
  mi_reviewer_id :: row_id
  mi_verdict :: ModerationVerdict
  mi_raw :: "string option"

text \<open>\<open>json_valid\<close> stands for \<open>encoding/json.Valid\<close>.\<close>

definition validateManualPostReviewInput :: "(string \<Rightarrow> bool) \<Rightarrow> ManualPostReviewInput \<Rightarrow> go_error option" where
  "validateManualPostReviewInput json_valid input =
     (if mi_post_id input = 0 \<or> mi_reviewer_id input = 0 then Some (InvalidField ''post_id'' FieldInvalidFormat)
      else if mi_verdict input \<noteq> VerdictPass \<and> mi_verdict input \<noteq> VerdictBlock
      then Some (InvalidField ''status'' FieldInvalidEnum)
      else if value_or_empty (mi_raw input) \<noteq> [] \<and> \<not> json_valid (value_or_empty (mi_raw input))
      then Some (InvalidField ''feedback'' FieldInvalidFormat)
      else None)"

fun validatePostReviewAssets :: "image_asset list \<Rightarrow> go_error option" where
  "validatePostReviewAssets [] = None"
| "validatePostReviewAssets (a # rest) = (case img_moderation a of
      ModPass \<Rightarrow> validatePostReviewAssets rest
    | ModReview \<Rightarrow> validatePostReviewAssets rest
    | ModBlock \<Rightarrow> validatePostReviewAssets rest
    | ModPending \<Rightarrow> Some (Conflict (Some BizModerationNotPending))
    | ModOther _ \<Rightarrow> Some (Internal (PlainErr ''unknown image moderation'')))"

record postReviewSnapshot =
  sn_assets :: "image_asset list"
  sn_latest :: moderation_record
  sn_pending :: "moderation_record list"

definition snapshot_asset :: "postReviewSnapshot \<Rightarrow> row_id \<Rightarrow> image_asset option" where
  "snapshot_asset sn i = find (\<lambda>a. img_id a = i) (sn_assets sn)"

definition fail_if :: "go_error option \<Rightarrow> unit mod_act" where
  "fail_if e = (case e of None \<Rightarrow> ret () | Some err \<Rightarrow> fail err)"

definition lockPostReviewSnapshot :: "row_id \<Rightarrow> postReviewSnapshot mod_act" where
  "lockPostReviewSnapshot postID =
     bind (svc (ToAPIError BizPostNotFound) (LockPostForReview postID)) (\<lambda>post.
     if p_deleted_at post \<noteq> None then fail (NotFound (Some BizPostDeleted))
     else if p_status post \<noteq> PostPending \<and> p_status post \<noteq> PostRejected
     then fail (Conflict (Some BizModerationNotPending))
     else bind (svc internal_of (LockImagesForPost postID)) (\<lambda>assets.
       seq (fail_if (validatePostReviewAssets assets))
      (bind (svc (ToAPIError BizModerationNotPending) (LatestPostModeration postID)) (\<lambda>latest.
       bind (svc internal_of (LockPendingReviewRecordsForPost postID)) (\<lambda>pending.
       ret \<lparr>sn_assets = assets, sn_latest = latest, sn_pending = pending\<rparr>)))))"

definition validateMachineReviewRecord :: "moderation_record \<Rightarrow> go_error option" where
  "validateMachineReviewRecord r =
     (if mr_provider r = provider_manual \<or> (mr_verdict r \<noteq> VerdictReview \<and> mr_verdict r \<noteq> VerdictBlock)
      then Some (Conflict (Some BizConflict)) else None)"

definition postManualRecord :: "moderation_record \<Rightarrow> ManualPostReviewInput \<Rightarrow> time \<Rightarrow> moderation_record" where
  "postManualRecord original input now =
     \<lparr>mr_id = 0, mr_post_id = mr_post_id original, mr_comment_id = mr_comment_id original,
      mr_image_id = mr_image_id original, mr_tag_id = mr_tag_id original, mr_user_id = mr_user_id original,
      mr_field = mr_field original, mr_username_candidate = mr_username_candidate original,
      mr_username_revision = mr_username_revision original, mr_content_revision = mr_content_revision original,
      mr_scene = mr_scene original, mr_provider = provider_manual, mr_provider_job_id = None,
      mr_verdict = mi_verdict input, mr_labels = [], mr_score = None, mr_raw_response = mi_raw input,
      mr_reviewer_id = Some (mi_reviewer_id input), mr_reviewed_at = Some now,
      mr_supersedes_id = Some (mr_id original), mr_created_at = now\<rparr>"

text \<open>\<open>None\<close>: the record is about another text or an image that has moved on; skip it.\<close>

definition review_applies :: "postReviewSnapshot \<Rightarrow> moderation_record \<Rightarrow> bool" where
  "review_applies sn original \<longleftrightarrow>
     \<not> (mr_post_id original \<noteq> None \<and> mr_id original \<noteq> mr_id (sn_latest sn)) \<and>
     (case mr_image_id original of None \<Rightarrow> True
      | Some i \<Rightarrow> (case snapshot_asset sn i of None \<Rightarrow> False
                   | Some a \<Rightarrow> img_moderation a = status_of_verdict (mr_verdict original)))"

definition manual_record_error :: "repo_error \<Rightarrow> go_error" where
  "manual_record_error e = (if e = UniqueViolation ''uq_mr_supersedes'' then Conflict (Some BizConflict) else internal_of e)"

fun create_manual_records ::
  "ManualPostReviewInput \<Rightarrow> postReviewSnapshot \<Rightarrow> time \<Rightarrow> moderation_record list \<Rightarrow>
   (moderation_record \<times> moderation_record) list mod_act" where
  "create_manual_records input sn now [] = ret []"
| "create_manual_records input sn now (original # rest) =
     seq (fail_if (validateMachineReviewRecord original))
       (if \<not> review_applies sn original then create_manual_records input sn now rest
        else let r = postManualRecord original input now in
          bind (svc manual_record_error (CreateManualRecord r)) (\<lambda>i.
          bind (create_manual_records input sn now rest) (\<lambda>more. ret ((r\<lparr>mr_id := i\<rparr>, original) # more))))"

definition uniqueIDs :: "row_id list \<Rightarrow> row_id list" where
  "uniqueIDs values = rev (remdups (rev values))"

definition createPostManualRecords ::
  "ManualPostReviewInput \<Rightarrow> postReviewSnapshot \<Rightarrow> time \<Rightarrow> ((moderation_record \<times> moderation_record) list \<times> row_id list) mod_act" where
  "createPostManualRecords input sn now =
     bind (create_manual_records input sn now (sn_pending sn)) (\<lambda>made.
     if made = [] then fail (Conflict (Some BizModerationNotPending))
     else ret (made, uniqueIDs (List.map_filter (\<lambda>p. mr_image_id (snd p)) made)))"

fun each :: "('x \<Rightarrow> unit mod_act) \<Rightarrow> 'x list \<Rightarrow> unit mod_act" where
  "each f [] = ret ()"
| "each f (x # xs) = seq (f x) (each f xs)"

definition applyPostManualVerdict ::
  "ManualPostReviewInput \<Rightarrow> postReviewSnapshot \<Rightarrow> row_id list \<Rightarrow> moderation_record list \<Rightarrow> (row_id \<Rightarrow> time) \<Rightarrow>
   unit mod_act" where
  "applyPostManualVerdict input sn imageIDs records clock =
     seq (each (\<lambda>i. svc internal_of (UpdateImageModeration i (status_of_verdict (mi_verdict input)))) imageIDs)
    (bind (svc internal_of (PendingPostIDsForImages imageIDs)) (\<lambda>postIDs.
     seq (bind (svc internal_of (ReconcilePendingPosts (postIDs @ [mi_post_id input]))) (\<lambda>_. ret ()))
         (each (\<lambda>r. case mr_image_id r of None \<Rightarrow> ret ()
                | Some i \<Rightarrow> svc internal_of (applyImageAccess (snapshot_asset sn i) (mr_id r) (mi_verdict input) (clock (mr_id r))))
            records)))"

text \<open>\<open>now\<close> is the time of the manual records, \<open>clock i\<close> the one at which the access request of record \<open>i\<close> is made.\<close>

definition ManualReviewPost ::
  "(string \<Rightarrow> bool) \<Rightarrow> ManualPostReviewInput \<Rightarrow> time \<Rightarrow> (row_id \<Rightarrow> time) \<Rightarrow> moderation_record list mod_act" where
  "ManualReviewPost json_valid input now clock =
     seq (fail_if (validateManualPostReviewInput json_valid input))
    (bind (lockPostReviewSnapshot (mi_post_id input)) (\<lambda>sn.
     bind (createPostManualRecords input sn now) (\<lambda>(made, imageIDs).
     seq (applyPostManualVerdict input sn imageIDs (map fst made) clock)
    (seq (if mi_verdict input = VerdictBlock
          then each (\<lambda>(r, original). Alert (manualReviewAlert original (mi_verdict input) (mr_labels r))) made
          else ret ())
         (ret (map fst made))))))"

subsection \<open>The manual records\<close>

lemma CreateManualRecord_Inr:
  assumes "CreateManualRecord r s = (Inr i, s')"
  shows "i = next_id mr_id (moderation_records s)" "moderation_records s' = moderation_records s @ [r\<lparr>mr_id := i\<rparr>]"
    "images s' = images s" "post_images s' = post_images s" "posts s' = posts s"
    "mr_supersedes_id r = Some j \<Longrightarrow> \<forall>t\<in>set (moderation_records s). mr_supersedes_id t \<noteq> Some j"
  using assms by (auto simp: CreateManualRecord_def stmt_run insert_record_def list_ex_iff split: if_splits)

lemma fail_if_Inr: "fail_if e q = (Inr u, q') \<Longrightarrow> e = None \<and> q' = q"
  by (auto simp: fail_if_def ret_def fail_def split: option.splits)

text \<open>What the loop has made from the open records: manual records, each superseding another one.\<close>

definition answers :: "ManualPostReviewInput \<Rightarrow> time \<Rightarrow> moderation_record \<Rightarrow> moderation_record \<Rightarrow> bool" where
  "answers input now original r \<longleftrightarrow> r = (postManualRecord original input now)\<lparr>mr_id := mr_id r\<rparr>"

lemma answers_fields:
  assumes "answers input now t r"
  shows "mr_provider r = provider_manual" "mr_verdict r = mi_verdict input" "mr_reviewer_id r = Some (mi_reviewer_id input)"
    "mr_supersedes_id r = Some (mr_id t)" "mr_post_id r = mr_post_id t" "mr_image_id r = mr_image_id t"
    "mr_content_revision r = mr_content_revision t" "mr_created_at r = now"
  by (subst assms[unfolded answers_def], simp add: postManualRecord_def)+

lemma create_manual_records_Inr:
  assumes "create_manual_records input sn now os q = (Inr made, q')"
  shows "moderation_records (rq_db q') = moderation_records (rq_db q) @ map fst made \<and>
    images (rq_db q') = images (rq_db q) \<and> post_images (rq_db q') = post_images (rq_db q) \<and> posts (rq_db q') = posts (rq_db q) \<and>
    (\<forall>(r, t)\<in>set made. t \<in> set os \<and> review_applies sn t \<and> answers input now t r \<and>
       (\<forall>x\<in>set (moderation_records (rq_db q)). mr_supersedes_id x \<noteq> Some (mr_id t) \<and> mr_id x < mr_id r)) \<and>
    distinct (map (mr_supersedes_id \<circ> fst) made)"
  using assms
proof (induction os arbitrary: q made q')
  case Nil
  then show ?case by (simp add: ret_def)
next
  case (Cons t os)
  from Cons.prems obtain u q0 where "fail_if (validateMachineReviewRecord t) q = (Inr u, q0)" and
    k: "(if \<not> review_applies sn t then create_manual_records input sn now os
        else let r = postManualRecord t input now in
          bind (svc manual_record_error (CreateManualRecord r)) (\<lambda>i.
          bind (create_manual_records input sn now os) (\<lambda>more. ret ((r\<lparr>mr_id := i\<rparr>, t) # more)))) q0 = (Inr made, q')"
    unfolding create_manual_records.simps seq_def by (elim bind_InrE)
  then have q0: "q0 = q" by (simp add: fail_if_Inr)
  show ?case
  proof (cases "review_applies sn t")
    case False
    with k q0 Cons.IH[of q made] show ?thesis by auto
  next
    case True
    let ?r = "postManualRecord t input now"
    from k True q0 obtain i q1 more q2 where
      1: "svc manual_record_error (CreateManualRecord ?r) q = (Inr i, q1)" and
      2: "create_manual_records input sn now os q1 = (Inr more, q2)" and
      3: "(ret ((?r\<lparr>mr_id := i\<rparr>, t) # more) :: (moderation_record \<times> moderation_record) list mod_act) q2 = (Inr made, q')"
      by (simp only: Let_def not_True_eq_False if_False) (elim bind_InrE)
    have made: "made = (?r\<lparr>mr_id := i\<rparr>, t) # more" "q' = q2" using 3 by (auto simp: ret_def)
    note c = CreateManualRecord_Inr[OF svc_InrD[OF 1]] and ih = Cons.IH[OF 2]
    have sup: "mr_supersedes_id ?r = Some (mr_id t)" by (simp add: postManualRecord_def)
    have new: "\<forall>x\<in>set (moderation_records (rq_db q)). mr_supersedes_id x \<noteq> Some (mr_id t) \<and> mr_id x < i"
      using c(6)[OF sup] next_id_fresh[of _ "moderation_records (rq_db q)" mr_id] c(1) by simp
    have first: "answers input now t (?r\<lparr>mr_id := i\<rparr>)" by (simp add: answers_def)
    have rest: "\<forall>(r, o')\<in>set more. o' \<in> set os \<and> review_applies sn o' \<and> answers input now o' r \<and>
       (\<forall>x\<in>set (moderation_records (rq_db q1)). mr_supersedes_id x \<noteq> Some (mr_id o') \<and> mr_id x < mr_id r)"
      using ih by blast
    have "mr_supersedes_id ?r \<noteq> mr_supersedes_id r" if "(r, o') \<in> set more" for r o'
    proof -
      have "answers input now o' r" "mr_supersedes_id (?r\<lparr>mr_id := i\<rparr>) \<noteq> Some (mr_id o')" using rest that c(2) by auto
      then show ?thesis by (simp add: answers_fields(4))
    qed
    then have "mr_supersedes_id ?r \<notin> set (map (mr_supersedes_id \<circ> fst) more)" by force
    then show ?thesis
      using ih c new first rest True unfolding made by auto
  qed
qed

lemma each_Inr:
  assumes "each f xs q = (Inr u, q')" and "\<And>x q q' u. x \<in> set xs \<Longrightarrow> f x q = (Inr u, q') \<Longrightarrow> R q q'"
    and "\<And>q. R q q" "\<And>a b c. R a b \<Longrightarrow> R b c \<Longrightarrow> R a c"
  shows "R q q'"
  using assms(1,2)
proof (induction xs arbitrary: q u)
  case Nil
  then show ?case using assms(3) by (simp add: ret_def)
next
  case (Cons x xs)
  from Cons.prems(1) obtain v q1 where 1: "f x q = (Inr v, q1)" and 2: "each f xs q1 = (Inr u, q')"
    unfolding each.simps seq_def by (elim bind_InrE)
  have "R q q1" by (rule Cons.prems(2)[OF _ 1]) simp
  moreover have "R q1 q'" by (rule Cons.IH[OF 2], rule Cons.prems(2)) simp_all
  ultimately show ?case by (rule assms(4))
qed

definition marked :: "row_id list \<Rightarrow> ModerationStatus \<Rightarrow> image_asset list \<Rightarrow> image_asset list" where
  "marked ids st imgs = map (\<lambda>a. if img_id a \<in> set ids then a\<lparr>img_moderation := st\<rparr> else a) imgs"

lemma update_images_Inr:
  assumes "each (\<lambda>i. svc internal_of (UpdateImageModeration i st)) ids q = (Inr u, q')"
  shows "images (rq_db q') = marked ids st (images (rq_db q)) \<and> post_images (rq_db q') = post_images (rq_db q) \<and>
    posts (rq_db q') = posts (rq_db q) \<and> moderation_records (rq_db q') = moderation_records (rq_db q)"
  using assms
proof (induction ids arbitrary: q u)
  case Nil
  then show ?case by (simp add: ret_def marked_def)
next
  case (Cons i ids)
  from Cons.prems obtain v q1 where 1: "svc internal_of (UpdateImageModeration i st) q = (Inr v, q1)" and
    2: "each (\<lambda>i. svc internal_of (UpdateImageModeration i st)) ids q1 = (Inr u, q')"
    unfolding each.simps seq_def by (elim bind_InrE)
  note u = UpdateImageModeration_Inr[OF svc_InrD[OF 1]]
  have "marked ids st (images (rq_db q1)) = marked (i # ids) st (images (rq_db q))"
    unfolding u(1) by (simp add: marked_def upd_where_def)
  with Cons.IH[OF 2] u show ?case by simp
qed

definition keeps_reviews :: "ModerationAlert req \<Rightarrow> ModerationAlert req \<Rightarrow> bool" where
  "keeps_reviews q q' \<longleftrightarrow> same_reviews (rq_db q) (rq_db q') \<and> posts (rq_db q') = posts (rq_db q)"

lemma keeps_reviews_preorder: "keeps_reviews q q" "keeps_reviews a b \<Longrightarrow> keeps_reviews b c \<Longrightarrow> keeps_reviews a c"
  by (simp_all add: keeps_reviews_def same_reviews_def)

lemma applyImageAccess_keeps:
  assumes "svc h (applyImageAccess a src v now) q = (Inr u, q')"
  shows "keeps_reviews q q'"
proof (cases a)
  case None
  with assms show ?thesis by (auto simp: applyImageAccess_def svc_run ret_def keeps_reviews_def same_reviews_def)
next
  case (Some x)
  from applyImageAccess_Inr(1,2)[OF svc_InrD[OF assms[unfolded Some]]] show ?thesis by (simp add: keeps_reviews_def)
qed

lemma PendingPostIDsForImages_Inr:
  assumes "PendingPostIDsForImages ids s = (Inr pids, s')"
  shows "same_tables s s'"
    "set pids \<subseteq> {p_id p | p. p \<in> set (posts s) \<and> post_pending p \<and> (\<exists>i\<in>set ids. uses_image s p i)}"
proof -
  have "same_tables s s' \<and> set pids \<subseteq> {p_id p | p. p \<in> set (posts s) \<and> post_pending p \<and> (\<exists>i\<in>set ids. uses_image s p i)}"
  proof (cases "ids = []")
    case True
    with assms show ?thesis by (simp add: PendingPostIDsForImages_def ret_def)
  next
    case False
    note q = query_Inr[OF assms[unfolded PendingPostIDsForImages_def if_not_P[OF False]]]
    show ?thesis unfolding q by (auto simp: same_tables_iff uses_image_def)
  qed
  then show "same_tables s s'"
    "set pids \<subseteq> {p_id p | p. p \<in> set (posts s) \<and> post_pending p \<and> (\<exists>i\<in>set ids. uses_image s p i)}" by blast+
qed

lemma applyPostManualVerdict_Inr:
  assumes "applyPostManualVerdict input sn ids records clock q = (Inr u, q')"
  obtains pids where
    "images (rq_db q') = marked ids (status_of_verdict (mi_verdict input)) (images (rq_db q))"
    "post_images (rq_db q') = post_images (rq_db q)" "moderation_records (rq_db q') = moderation_records (rq_db q)"
    "posts (rq_db q') = map (reconciled (rq_db q') (uniqueModerationIDs (pids @ [mi_post_id input]))) (posts (rq_db q))"
    "set pids \<subseteq> {p_id p | p. p \<in> set (posts (rq_db q)) \<and> post_pending p \<and> (\<exists>i\<in>set ids. uses_image (rq_db q) p i)}"
proof -
  from assms obtain v1 q1 pids q2 tr q2' v2 q3 where
    1: "each (\<lambda>i. svc internal_of (UpdateImageModeration i (status_of_verdict (mi_verdict input)))) ids q = (Inr v1, q1)" and
    2: "svc internal_of (PendingPostIDsForImages ids) q1 = (Inr pids, q2)" and
    3: "svc internal_of (ReconcilePendingPosts (pids @ [mi_post_id input])) q2 = (Inr tr, q2')"
      "(ret () :: unit mod_act) q2' = (Inr v2, q3)" and
    4: "each (\<lambda>r. case mr_image_id r of None \<Rightarrow> ret ()
          | Some i \<Rightarrow> svc internal_of (applyImageAccess (snapshot_asset sn i) (mr_id r) (mi_verdict input) (clock (mr_id r))))
        records q3 = (Inr u, q')"
    unfolding applyPostManualVerdict_def seq_def by (elim bind_InrE)
  note im = update_images_Inr[OF 1]
  note pq = PendingPostIDsForImages_Inr[OF svc_InrD[OF 2]]
  have "ReconcilePendingPosts (pids @ [mi_post_id input]) (rq_db q2) = (Inr tr, rq_db q3)"
    using svc_InrD[OF 3(1)] 3(2) by (simp add: ret_def)
  note rp = ReconcilePendingPosts_Inr[OF this]
  have k: "keeps_reviews q3 q'"
  proof (rule each_Inr[OF 4])
    fix r a b v assume "(case mr_image_id r of None \<Rightarrow> ret ()
          | Some i \<Rightarrow> svc internal_of (applyImageAccess (snapshot_asset sn i) (mr_id r) (mi_verdict input) (clock (mr_id r)))) a = (Inr v, b)"
    then show "keeps_reviews a b"
      by (cases "mr_image_id r") (auto simp: ret_def keeps_reviews_preorder dest: applyImageAccess_keeps)
  qed (rule keeps_reviews_preorder; assumption?)+
  have q12: "images (rq_db q2) = images (rq_db q1)" "post_images (rq_db q2) = post_images (rq_db q1)"
    "moderation_records (rq_db q2) = moderation_records (rq_db q1)" "posts (rq_db q2) = posts (rq_db q1)"
    using pq(1) by (auto simp: same_tables_iff)
  have sr: "same_reviews (rq_db q2) (rq_db q')" using rp k by (simp add: keeps_reviews_def same_reviews_def)
  show ?thesis
  proof (rule that)
    show "posts (rq_db q') = map (reconciled (rq_db q') (uniqueModerationIDs (pids @ [mi_post_id input]))) (posts (rq_db q))"
      using rp k im q12 reconciled_same_reviews[OF sr] by (simp add: keeps_reviews_def)
    show "set pids \<subseteq> {p_id p | p. p \<in> set (posts (rq_db q)) \<and> post_pending p \<and> (\<exists>i\<in>set ids. uses_image (rq_db q) p i)}"
      using pq(2) im by (simp add: uses_image_def)
  qed (use sr im q12 in \<open>simp_all add: same_reviews_def\<close>)
qed

lemma query_first_Inr:
  assumes "query_first f s = (Inr x, s')"
  shows "s' = s\<lparr>db_stmts := Suc (db_stmts s)\<rparr>" "f (s\<lparr>db_stmts := Suc (db_stmts s)\<rparr>) = Some x"
  using assms by (auto simp: query_first_run split: if_splits option.splits)

lemma pending_review_same: "same_tables s t \<Longrightarrow> pending_review t r = pending_review s r"
  unfolding same_tables_iff pending_review_def by (elim exE) (simp split: option.split)

lemma images_of_post_same: "same_tables s t \<Longrightarrow> images_of_post t i = images_of_post s i"
  unfolding same_tables_iff by (elim exE) simp

definition about_post :: "db \<Rightarrow> row_id \<Rightarrow> moderation_record \<Rightarrow> bool" where
  "about_post s pid r \<longleftrightarrow> mr_post_id r = Some pid \<or>
     (\<exists>l\<in>set (post_images s). pi_post_id l = pid \<and> mr_image_id r = Some (pi_image_id l))"

lemma lockPostReviewSnapshot_Inr:
  assumes "lockPostReviewSnapshot pid q = (Inr sn, q')"
  shows "same_tables (rq_db q) (rq_db q')"
    "\<exists>p\<in>set (posts (rq_db q)). p_id p = pid \<and> p_deleted_at p = None \<and> (p_status p = PostPending \<or> p_status p = PostRejected)"
    "set (sn_assets sn) = set (images_of_post (rq_db q) pid)"
    "set (sn_pending sn) = {r \<in> set (moderation_records (rq_db q)). pending_review (rq_db q) r \<and> about_post (rq_db q) pid r}"
proof -
  from assms obtain p q1 where 1: "svc (ToAPIError BizPostNotFound) (LockPostForReview pid) q = (Inr p, q1)" and
    k: "(if p_deleted_at p \<noteq> None then fail (NotFound (Some BizPostDeleted))
     else if p_status p \<noteq> PostPending \<and> p_status p \<noteq> PostRejected
     then fail (Conflict (Some BizModerationNotPending))
     else bind (svc internal_of (LockImagesForPost pid)) (\<lambda>assets.
       seq (fail_if (validatePostReviewAssets assets))
      (bind (svc (ToAPIError BizModerationNotPending) (LatestPostModeration pid)) (\<lambda>latest.
       bind (svc internal_of (LockPendingReviewRecordsForPost pid)) (\<lambda>pending.
       ret \<lparr>sn_assets = assets, sn_latest = latest, sn_pending = pending\<rparr>))))) q1 = (Inr sn, q')"
    unfolding lockPostReviewSnapshot_def by (elim bind_InrE)
  have p: "p_deleted_at p = None" "p_status p = PostPending \<or> p_status p = PostRejected"
    using k by (auto simp: fail_def split: if_splits)
  from p have guard: "(p_deleted_at p \<noteq> None) = False" "(p_status p \<noteq> PostPending \<and> p_status p \<noteq> PostRejected) = False" by auto
  from k obtain assets q2 u q3 latest q4 pending q5 where
    2: "svc internal_of (LockImagesForPost pid) q1 = (Inr assets, q2)" and
    3: "fail_if (validatePostReviewAssets assets) q2 = (Inr u, q3)" and
    4: "svc (ToAPIError BizModerationNotPending) (LatestPostModeration pid) q3 = (Inr latest, q4)" and
    5: "svc internal_of (LockPendingReviewRecordsForPost pid) q4 = (Inr pending, q5)" and
    6: "(ret \<lparr>sn_assets = assets, sn_latest = latest, sn_pending = pending\<rparr> :: postReviewSnapshot mod_act) q5 = (Inr sn, q')"
    unfolding guard if_False seq_def by (elim bind_InrE)
  note l = query_first_Inr[OF svc_InrD[OF 1, unfolded LockPostForReview_def]]
    and i = query_Inr[OF svc_InrD[OF 2, unfolded LockImagesForPost_def]]
    and lm = query_first_Inr(1)[OF svc_InrD[OF 4, unfolded LatestPostModeration_def]]
    and pr = query_Inr[OF svc_InrD[OF 5, unfolded LockPendingReviewRecordsForPost_def]]
  have fin: "sn_assets sn = assets" "sn_pending sn = pending" "q5 = q'" "q3 = q2"
    using 6 fail_if_Inr[OF 3] by (auto simp: ret_def)
  have s1: "same_tables (rq_db q) (rq_db q1)" using l(1) by (auto simp: same_tables_iff)
  have s2: "same_tables (rq_db q1) (rq_db q2)" using i(1) by (auto simp: same_tables_iff)
  have s4: "same_tables (rq_db q2) (rq_db q4)" using lm fin(4) by (auto simp: same_tables_iff)
  have s5: "same_tables (rq_db q4) (rq_db q')" using pr(1) fin(3) by (auto simp: same_tables_iff)
  have s04: "same_tables (rq_db q) (rq_db q4)" using s1 s2 s4 same_tables_trans by metis
  show "same_tables (rq_db q) (rq_db q')" using s04 s5 same_tables_trans by metis
  show "\<exists>p\<in>set (posts (rq_db q)). p_id p = pid \<and> p_deleted_at p = None \<and> (p_status p = PostPending \<or> p_status p = PostRejected)"
    using first_by_Some[OF l(2)] p by auto
  show "set (sn_assets sn) = set (images_of_post (rq_db q) pid)"
    unfolding fin i(2) using images_of_post_same[OF s1] by simp
  have d4: "moderation_records (rq_db q4) = moderation_records (rq_db q)" "post_images (rq_db q4) = post_images (rq_db q)"
    using s04 by (auto simp: same_tables_iff)
  have "same_tables (rq_db q) ((rq_db q4)\<lparr>db_stmts := n\<rparr>)" for n
    using s04 by (auto simp: same_tables_iff)
  note pend = pending_review_same[OF this]
  show "set (sn_pending sn) = {r \<in> set (moderation_records (rq_db q)). pending_review (rq_db q) r \<and> about_post (rq_db q) pid r}"
    unfolding fin pr(2) by (auto simp: pend d4 about_post_def list_ex_iff)
qed

lemma createPostManualRecords_Inr:
  assumes "createPostManualRecords input sn now q = (Inr (made, ids), q')"
  shows "create_manual_records input sn now (sn_pending sn) q = (Inr made, q')" "made \<noteq> []"
    "set ids = {i. \<exists>p\<in>set made. mr_image_id (snd p) = Some i}"
proof -
  from assms obtain made' q1 where 1: "create_manual_records input sn now (sn_pending sn) q = (Inr made', q1)" and
    2: "(if made' = [] then fail (Conflict (Some BizModerationNotPending))
     else ret (made', uniqueIDs (List.map_filter (\<lambda>p. mr_image_id (snd p)) made'))) q1 = (Inr (made, ids), q')"
    unfolding createPostManualRecords_def by (elim bind_InrE)
  have e: "made' = made" "made \<noteq> []" "q1 = q'" "ids = uniqueIDs (List.map_filter (\<lambda>p. mr_image_id (snd p)) made)"
    using 2 by (auto simp: fail_def ret_def split: if_splits)
  show "create_manual_records input sn now (sn_pending sn) q = (Inr made, q')" "made \<noteq> []" using 1 e by simp_all
  show "set ids = {i. \<exists>p\<in>set made. mr_image_id (snd p) = Some i}"
    unfolding e(4) by (force simp: uniqueIDs_def List.map_filter_def)
qed

lemma ManualReviewPost_Inr:
  assumes "ManualReviewPost jv input now clock q = (Inr records, q')"
  obtains sn q1 made ids q2 u where
    "validateManualPostReviewInput jv input = None" "lockPostReviewSnapshot (mi_post_id input) q = (Inr sn, q1)"
    "create_manual_records input sn now (sn_pending sn) q1 = (Inr made, q2)" "made \<noteq> []"
    "set ids = {i. \<exists>p\<in>set made. mr_image_id (snd p) = Some i}" "records = map fst made"
    "\<exists>q3. applyPostManualVerdict input sn ids records clock q2 = (Inr u, q3) \<and> rq_db q' = rq_db q3"
proof -
  from assms obtain v q0 sn q1 mi q2 u q3 w q4 where
    0: "fail_if (validateManualPostReviewInput jv input) q = (Inr v, q0)" and
    1: "lockPostReviewSnapshot (mi_post_id input) q0 = (Inr sn, q1)" and
    2: "createPostManualRecords input sn now q1 = (Inr mi, q2)" and
    3: "applyPostManualVerdict input sn (snd mi) (map fst (fst mi)) clock q2 = (Inr u, q3)" and
    4: "(if mi_verdict input = VerdictBlock
          then each (\<lambda>(r, original). Alert (manualReviewAlert original (mi_verdict input) (mr_labels r))) (fst mi)
          else ret ()) q3 = (Inr w, q4)" and
    5: "(ret (map fst (fst mi)) :: moderation_record list mod_act) q4 = (Inr records, q')"
    unfolding ManualReviewPost_def seq_def case_prod_beta' by (elim bind_InrE)
  obtain made ids where mi: "mi = (made, ids)" by (cases mi)
  have q0: "q0 = q" "validateManualPostReviewInput jv input = None" using fail_if_Inr[OF 0] by auto
  have "rq_db q4 = rq_db q3"
  proof (cases "mi_verdict input = VerdictBlock")
    case True
    have "each (\<lambda>(r, original). Alert (manualReviewAlert original (mi_verdict input) (mr_labels r))) (fst mi) q3 = (Inr w, q4)"
      using 4 True by simp
    then show ?thesis by (rule each_Inr) (auto dest: Alert_Inr)
  qed (use 4 in \<open>simp add: ret_def\<close>)
  moreover have "q4 = q'" "records = map fst made" using 5 by (simp_all add: ret_def mi)
  ultimately have "\<exists>q3. applyPostManualVerdict input sn ids records clock q2 = (Inr u, q3) \<and> rq_db q' = rq_db q3"
    using 3 by (auto simp: mi)
  then show ?thesis
    using that[OF q0(2) 1[unfolded q0(1)] createPostManualRecords_Inr[OF 2[unfolded mi]]] \<open>records = map fst made\<close> by blast
qed

lemma newest_manual_wins:
  assumes r: "r \<in> set new" and p: "p r" and old: "\<forall>x\<in>set old. mr_created_at x \<le> now \<and> mr_id x < mr_id r"
    and new: "\<forall>x\<in>set new. mr_verdict x = v" and t: "mr_created_at r = now"
  shows "map_option mr_verdict (first_by newest_first p (old @ new)) = Some v"
proof (cases "first_by newest_first p (old @ new)")
  case None
  with r p show ?thesis by (auto simp: first_by_None)
next
  case (Some x)
  note x = first_by_Some[OF Some]
  have "x \<notin> set old"
  proof
    assume "x \<in> set old"
    with old t have "newest_first r < newest_first x" by (auto simp: newest_first_def less_prod_def)
    moreover have "newest_first x \<le> newest_first r" using x r p by auto
    ultimately show False by simp
  qed
  with x new have "mr_verdict x = v" by auto
  with Some show ?thesis by simp
qed

lemma find_key: "distinct (map f xs) \<Longrightarrow> x \<in> set xs \<Longrightarrow> find (\<lambda>y. f y = f x) xs = Some x"
  by (induction xs) (auto simp: image_iff)

text \<open>A blocking decision reaches the post through its text or through one of its images.\<close>

lemma block_rejects:
  assumes r: "r \<in> set records" "answers input now t r" "about_post d (p_id p) t" "pending_review d t"
      "\<And>i. mr_image_id t = Some i \<Longrightarrow> i \<in> img_id ` set (images d)"
    and p: "p \<in> set (posts d)" "distinct (map p_id (posts d))"
    and block: "mi_verdict input = VerdictBlock"
    and times: "\<forall>x\<in>set (moderation_records d). mr_created_at x \<le> now \<and> mr_id x < mr_id r"
    and verdicts: "\<forall>x\<in>set records. mr_verdict x = mi_verdict input"
    and d': "moderation_records d' = moderation_records d @ records" "post_images d' = post_images d"
      "\<forall>a\<in>set (images d). mr_image_id t = Some (img_id a) \<longrightarrow> a\<lparr>img_moderation := ModBlock\<rparr> \<in> set (images d')"
  shows "must_reject d' p"
proof (cases "mr_post_id t = Some (p_id p)")
  case True
  have "find (\<lambda>x. p_id x = p_id p) (posts d) = Some p"
    using p by (rule find_key[rotated])
  with r(4) True have rev: "mr_content_revision t = Some (p_current_revision p)" by (simp add: pending_review_def)
  have "latest_verdict d' p = Some VerdictBlock"
    unfolding latest_verdict_def current_post_record_def d'(1)
    by (rule newest_manual_wins[OF r(1)]) (use True rev answers_fields[OF r(2)] times verdicts block in auto)
  then show ?thesis by (simp add: must_reject_def)
next
  case False
  with r(3) obtain l where l: "l \<in> set (post_images d)" "pi_post_id l = p_id p" "mr_image_id t = Some (pi_image_id l)"
    by (auto simp: about_post_def)
  with r(5) obtain a where a: "a \<in> set (images d)" "img_id a = pi_image_id l" by auto
  with d'(3) l(3) have "a\<lparr>img_moderation := ModBlock\<rparr> \<in> set (images d')" by simp
  with l a d'(2) have "a\<lparr>img_moderation := ModBlock\<rparr> \<in> set (images_of_post d' (p_id p))"
    by (force simp: images_of_post_def)
  then show ?thesis by (auto simp: must_reject_def list_ex_iff intro!: bexI)
qed

text \<open>The effects of a successful review, before they are read post by post.\<close>

lemma ManualReviewPost_effects:
  assumes run: "ManualReviewPost jv input now clock q = (Inr records, q')"
    and key: "distinct (map p_id (posts (rq_db q)))"
    and times: "\<forall>r\<in>set (moderation_records (rq_db q)). mr_created_at r \<le> now"
  obtains pids where "mi_post_id input \<noteq> 0"
    "\<exists>p\<in>set (posts (rq_db q)). p_id p = mi_post_id input \<and> p_deleted_at p = None \<and> (p_status p = PostPending \<or> p_status p = PostRejected)"
    "records \<noteq> []" "moderation_records (rq_db q') = moderation_records (rq_db q) @ records"
    "distinct (map mr_supersedes_id records)"
    "\<forall>r\<in>set records. mr_provider r = provider_manual \<and> mr_verdict r = mi_verdict input \<and>
       mr_reviewer_id r = Some (mi_reviewer_id input) \<and>
       (\<exists>t\<in>set (moderation_records (rq_db q)). mr_supersedes_id r = Some (mr_id t) \<and> pending_review (rq_db q) t \<and>
          about_post (rq_db q) (mi_post_id input) t \<and> mr_post_id r = mr_post_id t \<and> mr_image_id r = mr_image_id t)"
    "images (rq_db q') = map (\<lambda>a. if \<exists>r\<in>set records. mr_image_id r = Some (img_id a)
       then a\<lparr>img_moderation := status_of_verdict (mi_verdict input)\<rparr> else a) (images (rq_db q))"
    "posts (rq_db q') = map (reconciled (rq_db q') (uniqueModerationIDs (pids @ [mi_post_id input]))) (posts (rq_db q))"
    "set pids \<subseteq> p_id ` {p \<in> set (posts (rq_db q)). post_pending p}"
    "\<And>p. p \<in> set (posts (rq_db q)) \<Longrightarrow> p_id p = mi_post_id input \<Longrightarrow> mi_verdict input = VerdictBlock \<Longrightarrow> must_reject (rq_db q') p"
proof -
  let ?d = "rq_db q" and ?d' = "rq_db q'" and ?pid = "mi_post_id input"
  obtain sn q1 made ids q2 u where valid: "validateManualPostReviewInput jv input = None" and
    1: "lockPostReviewSnapshot ?pid q = (Inr sn, q1)" and
    2: "create_manual_records input sn now (sn_pending sn) q1 = (Inr made, q2)" "made \<noteq> []" and
    ids: "set ids = {i. \<exists>p\<in>set made. mr_image_id (snd p) = Some i}" and recs: "records = map fst made" and
    3: "\<exists>q3. applyPostManualVerdict input sn ids records clock q2 = (Inr u, q3) \<and> rq_db q' = rq_db q3"
    by (rule ManualReviewPost_Inr[OF run])
  have pid: "?pid \<noteq> 0" using valid by (auto simp: validateManualPostReviewInput_def split: if_splits)
  note sn = lockPostReviewSnapshot_Inr[OF 1] and cr = create_manual_records_Inr[OF 2(1)]
  have d1: "moderation_records (rq_db q1) = moderation_records ?d" "images (rq_db q1) = images ?d"
    "post_images (rq_db q1) = post_images ?d" "posts (rq_db q1) = posts ?d"
    using sn(1) by (auto simp: same_tables_iff)
  have made: "t \<in> set (moderation_records ?d)" "pending_review ?d t" "about_post ?d ?pid t" "review_applies sn t"
    "answers input now t r" "\<forall>x\<in>set (moderation_records ?d). mr_id x < mr_id r" if "(r, t) \<in> set made" for r t
    using that cr sn(4) d1(1) by auto
  from 3 obtain q3 where 3: "applyPostManualVerdict input sn ids records clock q2 = (Inr u, q3)" and q3: "rq_db q' = rq_db q3" by blast
  from 3 obtain pids where imgs0: "images ?d' = marked ids (status_of_verdict (mi_verdict input)) (images (rq_db q2))" and
    links: "post_images ?d' = post_images (rq_db q2)" and log: "moderation_records ?d' = moderation_records (rq_db q2)" and
    posts0: "posts ?d' = map (reconciled ?d' (uniqueModerationIDs (pids @ [?pid]))) (posts (rq_db q2))" and
    pids: "set pids \<subseteq> {p_id p | p. p \<in> set (posts (rq_db q2)) \<and> post_pending p \<and> (\<exists>i\<in>set ids. uses_image (rq_db q2) p i)}"
    unfolding q3 by (rule applyPostManualVerdict_Inr)
  have img_of: "mr_image_id r = mr_image_id t" if "(r, t) \<in> set made" for r t
    using answers_fields(6)[OF made(5)[OF that]] .
  have ids': "i \<in> set ids \<longleftrightarrow> (\<exists>r\<in>set records. mr_image_id r = Some i)" for i
    unfolding ids recs using img_of by force
  have C1: "records \<noteq> []" "moderation_records ?d' = moderation_records ?d @ records" "distinct (map mr_supersedes_id records)"
    using 2(2) recs log cr d1(1) by (simp_all add: comp_def)
  have C2: "\<forall>r\<in>set records. mr_provider r = provider_manual \<and> mr_verdict r = mi_verdict input \<and>
       mr_reviewer_id r = Some (mi_reviewer_id input) \<and>
       (\<exists>t\<in>set (moderation_records ?d). mr_supersedes_id r = Some (mr_id t) \<and> pending_review ?d t \<and>
          about_post ?d ?pid t \<and> mr_post_id r = mr_post_id t \<and> mr_image_id r = mr_image_id t)"
  proof
    fix r assume "r \<in> set records"
    then obtain t where "(r, t) \<in> set made" by (auto simp: recs)
    note m = made[OF this] and f = answers_fields[OF made(5)[OF this]]
    from f m(1-3) show "mr_provider r = provider_manual \<and> mr_verdict r = mi_verdict input \<and>
       mr_reviewer_id r = Some (mi_reviewer_id input) \<and>
       (\<exists>t\<in>set (moderation_records ?d). mr_supersedes_id r = Some (mr_id t) \<and> pending_review ?d t \<and>
          about_post ?d ?pid t \<and> mr_post_id r = mr_post_id t \<and> mr_image_id r = mr_image_id t)" by blast
  qed
  have C3: "images ?d' = map (\<lambda>a. if \<exists>r\<in>set records. mr_image_id r = Some (img_id a)
       then a\<lparr>img_moderation := status_of_verdict (mi_verdict input)\<rparr> else a) (images ?d)"
    using imgs0 cr d1(2) by (simp add: marked_def ids')
  have posts: "posts ?d' = map (reconciled ?d' (uniqueModerationIDs (pids @ [?pid]))) (posts ?d)"
    using posts0 cr d1(4) by simp
  have block: "must_reject ?d' p" if p: "p \<in> set (posts ?d)" "p_id p = ?pid" and b: "mi_verdict input = VerdictBlock" for p
  proof -
    from 2(2) obtain r t where rt: "(r, t) \<in> set made" by (metis list.set_intros(1) neq_Nil_conv prod.exhaust)
    note m = made[OF rt]
    have r: "r \<in> set records" using rt by (force simp: recs)
    have asset: "i \<in> img_id ` set (images ?d)" if "mr_image_id t = Some i" for i
    proof -
      from m(4) that obtain a where "snapshot_asset sn i = Some a" by (auto simp: review_applies_def split: option.splits)
      then have "a \<in> set (images_of_post ?d ?pid)" "img_id a = i"
        using find_SomeD[of _ "sn_assets sn" a] sn(3) by (auto simp: snapshot_asset_def)
      then show ?thesis by (auto simp: images_of_post_def)
    qed
    have mark: "a\<lparr>img_moderation := ModBlock\<rparr> \<in> set (images ?d')" if "a \<in> set (images ?d)" "mr_image_id t = Some (img_id a)" for a
      unfolding C3 using that r img_of[OF rt] b by (auto intro!: rev_image_eqI[of a])
    show ?thesis
    proof (rule block_rejects[OF r m(5) _ m(2) asset p(1) key b _ _ C1(2)])
      show "about_post ?d (p_id p) t" using m(3) p(2) by simp
      show "\<forall>x\<in>set (moderation_records ?d). mr_created_at x \<le> now \<and> mr_id x < mr_id r" using times m(6) by blast
      show "\<forall>x\<in>set records. mr_verdict x = mi_verdict input" using C2 by blast
      show "post_images ?d' = post_images ?d" using links cr d1(3) by simp
      show "\<forall>a\<in>set (images ?d). mr_image_id t = Some (img_id a) \<longrightarrow> a\<lparr>img_moderation := ModBlock\<rparr> \<in> set (images ?d')"
        by (intro ballI impI mark)
    qed
  qed
  have "set pids \<subseteq> p_id ` {p \<in> set (posts ?d). post_pending p}" using pids cr d1(4) by auto
  with that[OF pid sn(2) C1 C2 C3 posts _ block] show ?thesis by blast
qed

text \<open>
  C15: what a manual decision on a post does.  When \<open>ManualReviewPost\<close> succeeds, it adds at least
  one record and nothing else to the review log; each is a manual record by the reviewer with the
  given verdict that supersedes a machine record which was open until then and concerns the
  post's current text or one of its images, and no two supersede the same one.  Exactly the
  images with such a record take the verdict.  Posts change in nothing but their status, and only
  the reviewed post or pending ones; the reviewed post gets the status computed from the new
  state, where a block always rejects it (provided the clock does not run behind the log), and
  any post is published only if its text and all its images have passed.
\<close>

theorem ManualReviewPost_decides:
  assumes run: "ManualReviewPost jv input now clock q = (Inr records, q')"
    and key: "distinct (map p_id (posts (rq_db q)))"
    and times: "\<forall>r\<in>set (moderation_records (rq_db q)). mr_created_at r \<le> now"
  shows "records \<noteq> [] \<and> moderation_records (rq_db q') = moderation_records (rq_db q) @ records \<and>
    distinct (map mr_supersedes_id records) \<and>
    (\<forall>r\<in>set records. mr_provider r = provider_manual \<and> mr_verdict r = mi_verdict input \<and>
       mr_reviewer_id r = Some (mi_reviewer_id input) \<and>
       (\<exists>t\<in>set (moderation_records (rq_db q)). mr_supersedes_id r = Some (mr_id t) \<and> pending_review (rq_db q) t \<and>
          about_post (rq_db q) (mi_post_id input) t \<and> mr_post_id r = mr_post_id t \<and> mr_image_id r = mr_image_id t)) \<and>
    images (rq_db q') = map (\<lambda>a. if \<exists>r\<in>set records. mr_image_id r = Some (img_id a)
       then a\<lparr>img_moderation := status_of_verdict (mi_verdict input)\<rparr> else a) (images (rq_db q)) \<and>
    length (posts (rq_db q')) = length (posts (rq_db q)) \<and>
    (\<forall>k<length (posts (rq_db q)). let p = posts (rq_db q) ! k; p' = posts (rq_db q') ! k in
       p' = p\<lparr>p_status := p_status p'\<rparr> \<and>
       (p' \<noteq> p \<longrightarrow> p_id p = mi_post_id input \<or> post_pending p) \<and>
       (p_id p = mi_post_id input \<longrightarrow> p_status p' = decide (rq_db q') p \<and>
          (mi_verdict input = VerdictBlock \<longrightarrow> p_status p' = PostRejected)) \<and>
       (p' \<noteq> p \<and> p_status p' = PostApproved \<longrightarrow> latest_verdict (rq_db q') p = Some VerdictPass \<and>
          (\<forall>a\<in>set (images_of_post (rq_db q') (p_id p)). img_moderation a = ModPass)))"
proof -
  let ?d = "rq_db q" and ?d' = "rq_db q'" and ?pid = "mi_post_id input"
  obtain pids where pid: "?pid \<noteq> 0" and
    post: "\<exists>p\<in>set (posts ?d). p_id p = ?pid \<and> p_deleted_at p = None \<and> (p_status p = PostPending \<or> p_status p = PostRejected)" and
    C1: "records \<noteq> []" "moderation_records ?d' = moderation_records ?d @ records" "distinct (map mr_supersedes_id records)" and
    C2: "\<forall>r\<in>set records. mr_provider r = provider_manual \<and> mr_verdict r = mi_verdict input \<and>
       mr_reviewer_id r = Some (mi_reviewer_id input) \<and>
       (\<exists>t\<in>set (moderation_records ?d). mr_supersedes_id r = Some (mr_id t) \<and> pending_review ?d t \<and>
          about_post ?d ?pid t \<and> mr_post_id r = mr_post_id t \<and> mr_image_id r = mr_image_id t)" and
    C3: "images ?d' = map (\<lambda>a. if \<exists>r\<in>set records. mr_image_id r = Some (img_id a)
       then a\<lparr>img_moderation := status_of_verdict (mi_verdict input)\<rparr> else a) (images ?d)" and
    posts: "posts ?d' = map (reconciled ?d' (uniqueModerationIDs (pids @ [?pid]))) (posts ?d)" and
    pids: "set pids \<subseteq> p_id ` {p \<in> set (posts ?d). post_pending p}" and
    block: "\<And>p. p \<in> set (posts ?d) \<Longrightarrow> p_id p = ?pid \<Longrightarrow> mi_verdict input = VerdictBlock \<Longrightarrow> must_reject ?d' p"
    using ManualReviewPost_effects[OF run key times] by blast
  have each_post: "let p' = posts ?d' ! k in p' = p\<lparr>p_status := p_status p'\<rparr> \<and>
       (p' \<noteq> p \<longrightarrow> p_id p = ?pid \<or> post_pending p) \<and>
       (p_id p = ?pid \<longrightarrow> p_status p' = decide ?d' p \<and> (mi_verdict input = VerdictBlock \<longrightarrow> p_status p' = PostRejected)) \<and>
       (p' \<noteq> p \<and> p_status p' = PostApproved \<longrightarrow> latest_verdict ?d' p = Some VerdictPass \<and>
          (\<forall>a\<in>set (images_of_post ?d' (p_id p)). img_moderation a = ModPass))"
    if k: "k < length (posts ?d)" "p = posts ?d ! k" for k p
  proof -
    have p: "p \<in> set (posts ?d)" "posts ?d' ! k = reconciled ?d' (uniqueModerationIDs (pids @ [?pid])) p" using k posts by auto
    have uniq: "x = p" if "x \<in> set (posts ?d)" "p_id x = p_id p" for x
      using key that p(1) by (auto simp: distinct_map inj_on_def)
    have own: "reconcilable (uniqueModerationIDs (pids @ [?pid])) p" if "p_id p = ?pid"
    proof -
      have "?pid \<in> set (uniqueModerationIDs (pids @ [?pid]))" using pid by (simp add: uniqueModerationIDs_def)
      moreover from post obtain x where x: "x \<in> set (posts ?d)" "p_id x = ?pid" "p_deleted_at x = None"
        "p_status x = PostPending \<or> p_status x = PostRejected" by blast
      moreover have "x = p" using uniq[of x] x that by simp
      ultimately show ?thesis by (simp add: reconcilable_def)
    qed
    have other: "p_id p = ?pid \<or> post_pending p" if "reconcilable (uniqueModerationIDs (pids @ [?pid])) p"
    proof -
      have "set (uniqueModerationIDs (pids @ [?pid])) \<subseteq> set pids \<union> {?pid}" by (auto simp: uniqueModerationIDs_def)
      with that have "p_id p = ?pid \<or> p_id p \<in> set pids" by (auto simp: reconcilable_def)
      moreover have "post_pending p" if "p_id p \<in> set pids"
      proof -
        from pids that obtain x where "x \<in> set (posts ?d)" "post_pending x" "p_id x = p_id p" by auto
        with uniq[of x] show ?thesis by simp
      qed
      ultimately show ?thesis by blast
    qed
    show ?thesis
      unfolding p(2) Let_def using own other block[OF p(1)]
      by (auto simp: reconciled_def decide_def may_publish_def list_ex_iff)
  qed
  have len: "length (posts ?d') = length (posts ?d)" by (simp add: posts)
  show ?thesis
    using C1 C2 C3 len each_post[OF _ refl] unfolding Let_def
    by (intro conjI allI impI) (assumption | blast)+
qed

definition block_input :: ManualPostReviewInput where
  "block_input = \<lparr>mi_post_id = 2, mi_reviewer_id = 9, mi_verdict = VerdictBlock, mi_raw = None\<rparr>"

theorem ManualReviewPost_decides_witness:
  "let run = ManualReviewPost (\<lambda>_. True) block_input 50 (\<lambda>_. 60) (fresh_req review_db)
   in \<not> isl (fst run) \<and> map mr_supersedes_id (projr (fst run)) = [Some 2] \<and>
      moderation_records (rq_db (snd run)) = moderation_records review_db @ projr (fst run) \<and>
      p_status (posts (rq_db (snd run)) ! 1) = PostRejected \<and> length (the (rq_after (snd run))) = 1"
proof -
  let ?q = "fresh_req review_db :: ModerationAlert req"
  let ?run = "ManualReviewPost (\<lambda>_. True) block_input 50 (\<lambda>_. 60) ?q"
  have out: "\<not> isl (fst ?run)" "map mr_supersedes_id (projr (fst ?run)) = [Some 2]" by code_simp+
  have alerts: "length (the (rq_after (snd ?run))) = 1" by code_simp
  have key: "distinct (map p_id (posts review_db))" and times: "\<forall>r\<in>set (moderation_records review_db). mr_created_at r \<le> 50"
    by code_simp+
  have k: "1 < length (posts review_db)" "p_id (posts review_db ! 1) = mi_post_id block_input" "mi_verdict block_input = VerdictBlock"
    by code_simp+
  have db: "rq_db ?q = review_db" by simp
  note t = ManualReviewPost_decides[OF act_ok[OF out(1)], unfolded db, OF key times]
  have log: "moderation_records (rq_db (snd ?run)) = moderation_records review_db @ projr (fst ?run)" using t by blast
  have "p_status (posts (rq_db (snd ?run)) ! 1) = PostRejected"
    using t[THEN conjunct2, THEN conjunct2, THEN conjunct2, THEN conjunct2, THEN conjunct2, THEN conjunct2,
        THEN spec, THEN mp, OF k(1), unfolded Let_def, THEN conjunct2, THEN conjunct2, THEN conjunct1] k(2,3) by blast
  with out log alerts show ?thesis by (simp add: Let_def)
qed

end
