(* ===== verification/Go_Text.thy ===== *)
theory Go_Text
  imports Go_Strings
begin

section \<open>Go text: UTF-8 encoding, splitting and decimal numbers\<close>

text \<open>
  The parts of \<open>strings\<close>, \<open>unicode/utf8\<close>, \<open>strconv\<close> and \<open>fmt\<close> that the account code uses:
  \<open>string([]rune)\<close>, \<open>strings.Cut\<close>, \<open>Count\<close>, \<open>Split\<close>, \<open>FieldsFunc\<close> and \<open>Join\<close> at a
  single byte, \<open>FormatInt\<close>, \<open>ParseInt\<close> and \<open>%06d\<close>.
\<close>

subsection \<open>Encoding runes\<close>

definition char_of_byte :: "int \<Rightarrow> char" where
  "char_of_byte b = char_of b"

definition valid_rune :: "rune \<Rightarrow> bool" where
  "valid_rune r \<longleftrightarrow> 0 \<le> r \<and> r < 1114112 \<and> \<not> (55296 \<le> r \<and> r < 57344)"

text \<open>\<open>utf8.AppendRune\<close>: an invalid rune is written as the replacement rune.\<close>

definition EncodeRune :: "rune \<Rightarrow> string" where
  "EncodeRune r0 =
     (let r = (if valid_rune r0 then r0 else rune_error) in
      map char_of_byte
       (if r < 128 then [r]
        else if r < 2048 then [192 + r div 64, 128 + r mod 64]
        else if r < 65536 then [224 + r div 4096, 128 + r div 64 mod 64, 128 + r mod 64]
        else [240 + r div 262144, 128 + r div 4096 mod 64, 128 + r div 64 mod 64, 128 + r mod 64]))"

definition string_of_runes :: "rune list \<Rightarrow> string" where
  "string_of_runes rs = concat (map EncodeRune rs)"

lemma byte_of_char [simp]: "0 \<le> b \<Longrightarrow> b < 256 \<Longrightarrow> byte_of (char_of_byte b) = b"
  by (simp add: byte_of_def char_of_byte_def)

lemma DecodeRune_ascii: "0 \<le> r \<Longrightarrow> r < 128 \<Longrightarrow> DecodeRune (char_of_byte r # t) = (r, 1)"
  by simp

lemma DecodeRune_2:
  assumes "128 \<le> r" "r < 2048"
  shows "DecodeRune (char_of_byte (192 + r div 64) # char_of_byte (128 + r mod 64) # t) = (r, 2)"
proof -
  have 1: "2 \<le> r div 64" "r div 64 < 32" using assms by auto
  have 2: "0 \<le> r mod 64" "r mod 64 < 64" by simp_all
  have r: "r div 64 * 64 + r mod 64 = r" by simp
  have "byte_of (char_of_byte (192 + r div 64)) = 192 + r div 64" using 1 by (intro byte_of_char) linarith+
  moreover have "byte_of (char_of_byte (128 + r mod 64)) = 128 + r mod 64" using 2 by (intro byte_of_char) linarith+
  ultimately show ?thesis using 1 2 r by (simp add: decode2_def is_cont_def)
qed

lemma DecodeRune_3:
  assumes "2048 \<le> r" "r < 65536" "valid_rune r"
  shows "DecodeRune (char_of_byte (224 + r div 4096) # char_of_byte (128 + r div 64 mod 64) #
           char_of_byte (128 + r mod 64) # t) = (r, 3)"
proof -
  have 1: "0 \<le> r div 4096" "r div 4096 < 16" using assms by auto
  have 2: "0 \<le> r mod 64" "r mod 64 < 64" "0 \<le> r div 64 mod 64" "r div 64 mod 64 < 64" by simp_all
  have r: "r div 4096 * 4096 + r div 64 mod 64 * 64 + r mod 64 = r"
  proof -
    have "r div 4096 = r div 64 div 64" by (simp add: zdiv_zmult2_eq[symmetric])
    then show ?thesis using div_mult_mod_eq[of "r div 64" 64] div_mult_mod_eq[of r 64] by linarith
  qed
  have b: "byte_of (char_of_byte (224 + r div 4096)) = 224 + r div 4096"
    "byte_of (char_of_byte (128 + r div 64 mod 64)) = 128 + r div 64 mod 64"
    "byte_of (char_of_byte (128 + r mod 64)) = 128 + r mod 64"
    using 1 2 by (intro byte_of_char; linarith)+
  have "decode2 (224 + r div 4096) b1 = None" for b1 using 1 by (simp add: decode2_def)
  moreover have "decode3 (224 + q) (128 + m) (128 + l) = Some (r, 3)"
    if "q * 4096 + m * 64 + l = r" "0 \<le> q" "q < 16" "0 \<le> m" "m < 64" "0 \<le> l" "l < 64" for q m l
    using that assms by (simp add: decode3_def is_cont_def valid_rune_def Let_def)
  note this[OF r 1 2(3,4,1,2)]
  ultimately show ?thesis using 1 b by simp
qed

lemma DecodeRune_from4:
  assumes "128 \<le> byte_of c0" "decode2 (byte_of c0) (byte_of c1) = None"
    "decode3 (byte_of c0) (byte_of c1) (byte_of c2) = None"
    "decode4 (byte_of c0) (byte_of c1) (byte_of c2) (byte_of c3) = Some p"
  shows "DecodeRune (c0 # c1 # c2 # c3 # t) = p"
  using assms by (simp add: or_error_def)

lemma DecodeRune_4:
  assumes "65536 \<le> r" "r < 1114112"
  shows "DecodeRune (char_of_byte (240 + r div 262144) # char_of_byte (128 + r div 4096 mod 64) #
           char_of_byte (128 + r div 64 mod 64) # char_of_byte (128 + r mod 64) # t) = (r, 4)"
proof -
  have 1: "0 \<le> r div 262144" "r div 262144 < 5" using assms by auto
  have 2: "0 \<le> r mod 64" "r mod 64 < 64" "0 \<le> r div 64 mod 64" "r div 64 mod 64 < 64"
    "0 \<le> r div 4096 mod 64" "r div 4096 mod 64 < 64" by simp_all
  have r: "r div 262144 * 262144 + r div 4096 mod 64 * 4096 + r div 64 mod 64 * 64 + r mod 64 = r"
  proof -
    have "r div 262144 = r div 4096 div 64" "r div 4096 = r div 64 div 64"
      by (simp_all add: zdiv_zmult2_eq[symmetric])
    then show ?thesis
      using div_mult_mod_eq[of "r div 4096" 64] div_mult_mod_eq[of "r div 64" 64] div_mult_mod_eq[of r 64]
      by linarith
  qed
  have b: "byte_of (char_of_byte (240 + r div 262144)) = 240 + r div 262144"
    "byte_of (char_of_byte (128 + r div 4096 mod 64)) = 128 + r div 4096 mod 64"
    "byte_of (char_of_byte (128 + r div 64 mod 64)) = 128 + r div 64 mod 64"
    "byte_of (char_of_byte (128 + r mod 64)) = 128 + r mod 64"
    using 1 2 by (intro byte_of_char; linarith)+
  have "decode2 (240 + r div 262144) b1 = None" "decode3 (240 + r div 262144) b1 b2 = None" for b1 b2
    using 1 by (simp_all add: decode2_def decode3_def Let_def)
  moreover have "decode4 (240 + q) (128 + k) (128 + m) (128 + l) = Some (r, 4)"
    if "q * 262144 + k * 4096 + m * 64 + l = r" "0 \<le> q" "q < 5" "0 \<le> k" "k < 64" "0 \<le> m" "m < 64" "0 \<le> l" "l < 64"
    for q k m l
    using that assms by (simp add: decode4_def is_cont_def Let_def)
  note this[OF r 1 2(5,6,3,4,1,2)]
  moreover have "128 \<le> 240 + r div 262144" using 1 by linarith
  ultimately show ?thesis by (intro DecodeRune_from4; unfold b)
qed

lemma DecodeRune_EncodeRune:
  assumes "valid_rune r"
  shows "DecodeRune (EncodeRune r @ t) = (r, length (EncodeRune r)) \<and> EncodeRune r \<noteq> []"
proof -
  consider "r < 128" | "128 \<le> r" "r < 2048" | "2048 \<le> r" "r < 65536" | "65536 \<le> r" by linarith
  then show ?thesis
  proof cases
    case 1
    then show ?thesis using assms DecodeRune_ascii[of r t] by (simp add: EncodeRune_def valid_rune_def)
  next
    case 2
    then show ?thesis using assms DecodeRune_2[OF 2, of t] by (simp add: EncodeRune_def del: DecodeRune.simps)
  next
    case 3
    then show ?thesis using assms DecodeRune_3[OF 3 assms, of t] by (simp add: EncodeRune_def del: DecodeRune.simps)
  next
    case 4
    then show ?thesis using assms DecodeRune_4[OF 4, of t]
      by (simp add: EncodeRune_def valid_rune_def del: DecodeRune.simps)
  qed
qed

text \<open>Decoding inverts encoding, and every decoded rune is valid.\<close>

lemma runes_string_of_runes: "list_all valid_rune rs \<Longrightarrow> runes (string_of_runes rs) = rs"
proof (induction rs)
  case (Cons r rs)
  let ?t = "concat (map EncodeRune rs)"
  from Cons.prems have d: "DecodeRune (EncodeRune r @ ?t) = (r, length (EncodeRune r))" "EncodeRune r \<noteq> []"
    using DecodeRune_EncodeRune by simp_all
  have "runes (EncodeRune r @ ?t) = r # runes ?t" using d by (subst runes.simps) simp
  with Cons show ?case by (simp add: string_of_runes_def)
qed (simp add: string_of_runes_def)

lemma byte_of_range: "0 \<le> byte_of c" "byte_of c < 256"
proof -
  have "byte_of c = byte_of c mod 256" by (simp add: byte_of_def)
  then show "0 \<le> byte_of c" "byte_of c < 256"
    using pos_mod_sign[of 256 "byte_of c"] pos_mod_bound[of 256 "byte_of c"] by linarith+
qed

lemma DecodeRune_valid: "valid_rune (fst (DecodeRune s))"
proof (cases s)
  case (Cons c t)
  then show ?thesis
    using byte_of_range
    by (auto simp: Let_def decode2_def decode3_def decode4_def is_cont_def or_error_def rune_error_def valid_rune_def
        split: list.split option.split if_splits)
qed (simp add: valid_rune_def rune_error_def)

lemma runes_valid: "list_all valid_rune (runes s)"
proof (induction s rule: runes.induct)
  case (1 s)
  then show ?case by (subst runes.simps) (simp add: DecodeRune_valid)
qed

text \<open>A rune below 128 is a single byte.\<close>

lemma decode_big:
  "decode2 b0 b1 = Some p \<Longrightarrow> 128 \<le> fst p"
  "decode3 b0 b1 b2 = Some p \<Longrightarrow> 128 \<le> fst p"
  "decode4 b0 b1 b2 b3 = Some p \<Longrightarrow> 128 \<le> fst p"
  by (auto simp: decode2_def decode3_def decode4_def is_cont_def Let_def split: if_splits)

lemma DecodeRune_small:
  assumes "fst (DecodeRune (c # s)) < 128"
  shows "DecodeRune (c # s) = (byte_of c, 1)"
proof (rule ccontr)
  assume "DecodeRune (c # s) \<noteq> (byte_of c, 1)"
  then have "128 \<le> fst (DecodeRune (c # s))"
    using decode_big by (auto simp: Let_def or_error_def rune_error_def split: list.splits option.splits if_splits)
  with assms show False by simp
qed

subsection \<open>Splitting at a byte\<close>

text \<open>\<open>strings.Cut(s, sep)\<close> for a one-byte separator.\<close>

definition Cut :: "string \<Rightarrow> char \<Rightarrow> string \<times> string \<times> bool" where
  "Cut s c = (let a = takeWhile (\<lambda>x. x \<noteq> c) s in
     if length a < length s then (a, drop (Suc (length a)) s, True) else (s, [], False))"

fun Split :: "char \<Rightarrow> string \<Rightarrow> string list" where
  "Split c [] = [[]]"
| "Split c (x # s) = (if x = c then [] # Split c s
     else case Split c s of [] \<Rightarrow> [[x]] | p # ps \<Rightarrow> (x # p) # ps)"

text \<open>\<open>strings.FieldsFunc\<close> with the predicate that recognises one byte: the non-empty pieces.\<close>

definition FieldsByte :: "char \<Rightarrow> string \<Rightarrow> string list" where
  "FieldsByte c s = filter (\<lambda>p. p \<noteq> []) (Split c s)"

fun Join :: "string \<Rightarrow> string list \<Rightarrow> string" where
  "Join sep [] = []"
| "Join sep [p] = p"
| "Join sep (p # q # ps) = p @ sep @ Join sep (q # ps)"

text \<open>\<open>strings.EqualFold\<close> against a lower-case ASCII word none of whose letters has a non-ASCII case variant.\<close>

definition ascii_lower :: "char \<Rightarrow> char" where
  "ascii_lower c = (if 65 \<le> byte_of c \<and> byte_of c \<le> 90 then char_of_byte (byte_of c + 32) else c)"

subsection \<open>Decimal numbers\<close>

definition digit_char :: "nat \<Rightarrow> char" where
  "digit_char d = char_of (48 + d)"

fun decimal :: "nat \<Rightarrow> string" where
  "decimal n = (if n < 10 then [digit_char n] else decimal (n div 10) @ [digit_char (n mod 10)])"

declare decimal.simps [simp del]

definition FormatInt :: "int \<Rightarrow> string" where
  "FormatInt i = (if i < 0 then CHR ''-'' # decimal (nat (- i)) else decimal (nat i))"

definition is_dec_digit :: "char \<Rightarrow> bool" where
  "is_dec_digit c \<longleftrightarrow> 48 \<le> byte_of c \<and> byte_of c \<le> 57"

definition digits_value :: "string \<Rightarrow> int" where
  "digits_value s = foldl (\<lambda>v c. 10 * v + (byte_of c - 48)) 0 s"

definition parse_uint :: "string \<Rightarrow> int option" where
  "parse_uint s = (if s = [] \<or> \<not> list_all is_dec_digit s then None else Some (digits_value s))"

text \<open>\<open>strconv.ParseInt(s, 10, 64)\<close>: \<open>None\<close> for a syntax or a range error.\<close>

definition ParseInt :: "string \<Rightarrow> int option" where
  "ParseInt s = (case s of [] \<Rightarrow> None
     | c # t \<Rightarrow>
        (let (neg, ds) = (if c = CHR ''-'' then (True, t) else if c = CHR ''+'' then (False, t) else (False, s))
         in case parse_uint ds of None \<Rightarrow> None
            | Some v \<Rightarrow> if neg then (if v \<le> 2 ^ 63 then Some (- v) else None)
                       else (if v < 2 ^ 63 then Some v else None)))"

text \<open>\<open>fmt.Sprintf("%06d", n)\<close> for a number that is not negative.\<close>

definition format_06d :: "nat \<Rightarrow> string" where
  "format_06d n = replicate (6 - length (decimal n)) (CHR ''0'') @ decimal n"

lemma byte_of_digit: "d < 10 \<Longrightarrow> byte_of (digit_char d) = 48 + int d"
proof -
  assume "d < 10"
  then have "(of_char (char_of (48 + d) :: char) :: nat) = 48 + d" by simp
  then have "int (of_char (char_of (48 + d) :: char)) = 48 + int d" by simp
  then show ?thesis by (simp only: byte_of_def digit_char_def of_nat_of_char)
qed

lemma decimal_digits: "list_all is_dec_digit (decimal n) \<and> decimal n \<noteq> []"
proof (induction n rule: decimal.induct)
  case (1 n)
  have digit: "d < 10 \<Longrightarrow> is_dec_digit (digit_char d)" for d by (simp add: is_dec_digit_def byte_of_digit)
  from 1 digit[of n] digit[of "n mod 10"] show ?case by (subst (1 2) decimal.simps) simp
qed

lemma digits_value_snoc: "digits_value (s @ [c]) = 10 * digits_value s + (byte_of c - 48)"
  by (simp add: digits_value_def)

lemma digits_value_decimal: "digits_value (decimal n) = int n"
proof (induction n rule: decimal.induct)
  case (1 n)
  show ?case
  proof (cases "n < 10")
    case True
    then show ?thesis by (subst decimal.simps) (simp add: digits_value_def byte_of_digit)
  next
    case False
    with 1 have "digits_value (decimal (n div 10) @ [digit_char (n mod 10)]) = 10 * int (n div 10) + int (n mod 10)"
      by (simp add: digits_value_snoc byte_of_digit)
    also have "\<dots> = int n" by (metis mult_div_mod_eq of_nat_add of_nat_mult of_nat_numeral)
    finally show ?thesis using False by (subst decimal.simps) simp
  qed
qed

lemma decimal_head: "hd (decimal n) \<noteq> CHR ''-'' \<and> hd (decimal n) \<noteq> CHR ''+''"
proof -
  have "is_dec_digit (hd (decimal n))" using decimal_digits[of n] by (metis list.pred_set hd_in_set)
  then show ?thesis by (auto simp: is_dec_digit_def byte_of_def)
qed

lemma ParseInt_FormatInt:
  assumes "0 \<le> i" "i < 2 ^ 63"
  shows "ParseInt (FormatInt i) = Some i"
proof -
  obtain c t where ct: "decimal (nat i) = c # t" using decimal_digits[of "nat i"] by (cases "decimal (nat i)") auto
  with decimal_head[of "nat i"] have "c \<noteq> CHR ''-''" "c \<noteq> CHR ''+''" by simp_all
  moreover have "parse_uint (c # t) = Some i"
    using decimal_digits[of "nat i"] digits_value_decimal[of "nat i"] assms
    unfolding ct by (simp add: parse_uint_def)
  ultimately show ?thesis using assms ct by (simp add: ParseInt_def FormatInt_def)
qed

lemma decimal_length: "n < 10 ^ Suc k \<Longrightarrow> length (decimal n) \<le> Suc k"
proof (induction k arbitrary: n)
  case 0
  then show ?case by (subst decimal.simps) simp
next
  case (Suc k)
  show ?case
  proof (cases "n < 10")
    case False
    have "n div 10 < 10 ^ Suc k" using Suc.prems by (simp add: less_mult_imp_div_less mult.commute)
    with Suc.IH[of "n div 10"] False show ?thesis by (subst decimal.simps) simp
  qed (subst decimal.simps, simp)
qed

lemma format_06d_code:
  assumes "n < 1000000"
  shows "length (format_06d n) = 6" "list_all is_dec_digit (format_06d n)"
proof -
  have "length (decimal n) \<le> 6" using decimal_length[of n 5] assms by simp
  then show "length (format_06d n) = 6" by (simp add: format_06d_def)
  show "list_all is_dec_digit (format_06d n)"
    using decimal_digits[of n] by (auto simp: format_06d_def list_all_iff is_dec_digit_def byte_of_def)
qed

lemma text_examples:
  "FormatInt (- 42) = ''-42''" "ParseInt ''+7'' = Some 7" "ParseInt ''7x'' = None" "format_06d 42 = ''000042''"
  "Cut ''a@b@c'' (CHR ''@'') = (''a'', ''b@c'', True)" "FieldsByte (CHR '' '') ''a  b '' = [''a'', ''b'']"
  "Join '' '' [''a'', ''b''] = ''a b''" "map ascii_lower ''BeaRer'' = ''bearer''"
  by code_simp+

end
