(* ===== verification/Auth_Input.thy ===== *)
theory Auth_Input
  imports Go_Text Go_Encoding Uow
begin

section \<open>Accounts: configuration, input checks and credentials\<close>

text \<open>
  Models \<open>internal/service/auth_validation.go\<close>, \<open>internal/pkg/usernamepolicy\<close>,
  \<open>internal/pkg/passwordx\<close>, \<open>internal/pkg/jwtx\<close>, the pure helpers of
  \<open>internal/service/auth.go\<close>, the header parsing of \<open>internal/middleware/auth.go\<close> and the
  settings of \<open>internal/config/config.go\<close> they read.

  \<open>auth_lib\<close> holds what these files call and do not define: HMAC-SHA256 and SHA-256, bcrypt,
  the JWT library with the algorithm fixed to HS256, \<open>mail.ParseAddress\<close>, the Unicode tables
  behind \<open>strings.ToLower\<close>, \<open>unicode.IsLetter\<close> and \<open>unicode.IsNumber\<close>, and NFKC.  The
  development's theorems hold for every such library except where they name a law.
  Random numbers and clock readings are arguments, an error where the source can fail.
\<close>

subsection \<open>Tokens and the library\<close>

record Claims =
  cl_subject :: string
  cl_issued_at :: time
  cl_expires_at :: time
  cl_type :: string
  cl_sid :: int

datatype jwt_outcome = JwtClaims Claims | JwtExpired | JwtInvalid

record auth_lib =
  lib_hmac_sha256 :: "string \<Rightarrow> string \<Rightarrow> byte list"
  lib_sha256 :: "string \<Rightarrow> byte list"
  lib_bcrypt_hash :: "string \<Rightarrow> string + string"
  lib_bcrypt_compare :: "string \<Rightarrow> string \<Rightarrow> bool"
  lib_jwt_sign :: "string \<Rightarrow> Claims \<Rightarrow> go_error + string"
  lib_jwt_parse :: "string \<Rightarrow> time \<Rightarrow> string \<Rightarrow> jwt_outcome"
  lib_parse_address :: "string \<Rightarrow> string option"
  lib_to_lower :: "string \<Rightarrow> string"
  lib_nfkc :: "string \<Rightarrow> string"
  lib_is_letter :: "rune \<Rightarrow> bool"
  lib_is_number :: "rune \<Rightarrow> bool"

record auth_cfg =
  cfg_jwt_secret :: string
  cfg_jwt_expire_minutes :: int
  cfg_jwt_refresh_expire_day :: int
  cfg_email_verification_required :: bool
  cfg_email_verification_secret :: string
  cfg_allowed_email_domains :: string

definition AccessTokenTTL :: "auth_cfg \<Rightarrow> duration" where
  "AccessTokenTTL c = wrap64 (cfg_jwt_expire_minutes c * 60000000000)"

definition RefreshTokenTTL :: "auth_cfg \<Rightarrow> duration" where
  "RefreshTokenTTL c = wrap64 (wrap64 (cfg_jwt_refresh_expire_day c * 24) * 3600000000000)"

definition splitCSV :: "string \<Rightarrow> string list" where
  "splitCSV s = filter (\<lambda>p. p \<noteq> []) (map TrimSpace (Split (CHR '','') s))"

definition EmailDomains :: "auth_lib \<Rightarrow> auth_cfg \<Rightarrow> string list" where
  "EmailDomains lib c = splitCSV (lib_to_lower lib (cfg_allowed_email_domains c))"

subsection \<open>Tokens: \<open>jwtx\<close>\<close>

definition TypeAccess :: string where
  "TypeAccess = ''access''"

definition TypeRefresh :: string where
  "TypeRefresh = ''refresh''"

abbreviation "ErrInvalid \<equiv> PlainErr ''jwtx.ErrInvalid''"
abbreviation "ErrExpired \<equiv> PlainErr ''jwtx.ErrExpired''"

definition Claims_UserID :: "Claims \<Rightarrow> int option" where
  "Claims_UserID c = ParseInt (cl_subject c)"

definition SignAt :: "auth_lib \<Rightarrow> string \<Rightarrow> int \<Rightarrow> int \<Rightarrow> string \<Rightarrow> time \<Rightarrow> duration \<Rightarrow> go_error + string" where
  "SignAt lib secret userID sessionID typ now ttl =
     lib_jwt_sign lib secret \<lparr>cl_subject = FormatInt userID, cl_issued_at = now, cl_expires_at = now + ttl,
       cl_type = typ, cl_sid = sessionID\<rparr>"

definition jwtx_Parse :: "auth_lib \<Rightarrow> string \<Rightarrow> time \<Rightarrow> string \<Rightarrow> string \<Rightarrow> go_error + Claims" where
  "jwtx_Parse lib secret now token want = (case lib_jwt_parse lib secret now token of
      JwtExpired \<Rightarrow> Inl ErrExpired
    | JwtInvalid \<Rightarrow> Inl ErrInvalid
    | JwtClaims c \<Rightarrow>
        if cl_type c \<noteq> want then Inl ErrInvalid
        else if cl_sid c \<le> 0 then Inl ErrInvalid
        else if Claims_UserID c = None then Inl ErrInvalid
        else Inr c)"

definition jwtx_Digest :: "auth_lib \<Rightarrow> string \<Rightarrow> string" where
  "jwtx_Digest lib token = hex_encode (lib_sha256 lib token)"

text \<open>\<open>claims.UserID()\<close> again, and both ids positive; the ids fit in \<open>uint64\<close>.\<close>

definition claimIDs :: "Claims \<Rightarrow> go_error + (row_id \<times> row_id)" where
  "claimIDs c = (case Claims_UserID c of
      None \<Rightarrow> Inl ErrInvalid
    | Some userID \<Rightarrow> if userID \<le> 0 \<or> cl_sid c \<le> 0 then Inl ErrInvalid else Inr (nat userID, nat (cl_sid c)))"

text \<open>
  What the JWT library documents: a token it signed parses under the same secret, with the
  same claims up to the precision of the dates (whole seconds), until it expires.
\<close>

definition seconds_of :: "time \<Rightarrow> time" where
  "seconds_of t = t div 1000000000 * 1000000000"

definition jwt_library :: "auth_lib \<Rightarrow> bool" where
  "jwt_library lib \<longleftrightarrow> (\<forall>secret c token now. lib_jwt_sign lib secret c = Inr token \<longrightarrow>
     now < seconds_of (cl_expires_at c) \<longrightarrow>
     lib_jwt_parse lib secret now token =
       JwtClaims (c\<lparr>cl_issued_at := seconds_of (cl_issued_at c), cl_expires_at := seconds_of (cl_expires_at c)\<rparr>))"

subsection \<open>Passwords: \<open>passwordx\<close>\<close>

definition MaxLen :: nat where
  "MaxLen = 72"

definition passwordx_Hash :: "auth_lib \<Rightarrow> string \<Rightarrow> go_error + string" where
  "passwordx_Hash lib plain =
     (if length plain > MaxLen then Inl (PlainErr ''password too long'')
      else map_sum PlainErr id (lib_bcrypt_hash lib plain))"

definition passwordx_Verify :: "auth_lib \<Rightarrow> string \<Rightarrow> string \<Rightarrow> bool" where
  "passwordx_Verify lib plain hashed \<longleftrightarrow> \<not> length plain > MaxLen \<and> lib_bcrypt_compare lib hashed plain"

subsection \<open>Usernames: \<open>usernamepolicy\<close>\<close>

definition usernamepolicy_Normalize :: "auth_lib \<Rightarrow> string \<Rightarrow> string" where
  "usernamepolicy_Normalize lib raw = Join '' '' (FieldsByte (CHR '' '') (TrimSpace (lib_nfkc lib raw)))"

definition allowed_rune :: "auth_lib \<Rightarrow> rune \<Rightarrow> bool" where
  "allowed_rune lib r \<longleftrightarrow> r = 32 \<or> r = 95 \<or> lib_is_letter lib r \<or> lib_is_number lib r"

definition ValidCharacters :: "auth_lib \<Rightarrow> string \<Rightarrow> bool" where
  "ValidCharacters lib value \<longleftrightarrow> list_all (allowed_rune lib) (runes value) \<and> value \<noteq> []"

subsection \<open>Input checks\<close>

definition normalizeEmail :: "auth_lib \<Rightarrow> string \<Rightarrow> go_error + string" where
  "normalizeEmail lib raw =
     (let email = lib_to_lower lib (TrimSpace raw) in
      case lib_parse_address lib email of
        None \<Rightarrow> Inl (InvalidField ''email'' FieldInvalidFormat)
      | Some address \<Rightarrow>
          if address \<noteq> email \<or> count_list email (CHR ''@'') \<noteq> 1 \<or> length email > 255
          then Inl (InvalidField ''email'' FieldInvalidFormat) else Inr email)"

definition emailDomain :: "string \<Rightarrow> string" where
  "emailDomain email = (case Cut email (CHR ''@'') of (_, domain, _) \<Rightarrow> domain)"

definition domainAllowed :: "auth_lib \<Rightarrow> auth_cfg \<Rightarrow> string \<Rightarrow> bool" where
  "domainAllowed lib c email = list_ex (\<lambda>a. emailDomain email = a) (EmailDomains lib c)"

definition validatePasswordField :: "string \<Rightarrow> string \<Rightarrow> bool \<Rightarrow> go_error option" where
  "validatePasswordField field password registering =
     (if password = [] then Some (InvalidField field FieldRequired)
      else if \<not> registering then None
      else let n = RuneCount password in
        if n < 8 then Some (InvalidField field FieldTooShort)
        else if n > 64 \<or> length password > MaxLen then Some (InvalidField field FieldTooLong)
        else None)"

definition validatePassword :: "string \<Rightarrow> bool \<Rightarrow> go_error option" where
  "validatePassword password registering = validatePasswordField ''password'' password registering"

definition reservedUsername :: "auth_lib \<Rightarrow> string \<Rightarrow> bool" where
  "reservedUsername lib name = list_ex (\<lambda>r. lib_to_lower lib name = r)
     [''admin'', ''administrator'', ''official'', ''support'', ''system'', ''security'', ''danshi'']"

definition normalizeUsername :: "auth_lib \<Rightarrow> string \<Rightarrow> go_error + string" where
  "normalizeUsername lib raw =
     (let name = usernamepolicy_Normalize lib raw; n = RuneCount name in
      if n = 0 then Inl (InvalidField ''username'' FieldRequired)
      else if n < 2 then Inl (InvalidField ''username'' FieldTooShort)
      else if n > 24 then Inl (InvalidField ''username'' FieldTooLong)
      else if \<not> ValidCharacters lib name then Inl (InvalidField ''username'' FieldInvalidFormat)
      else if reservedUsername lib name then Inl (InvalidField ''username'' FieldInvalidFormat)
      else Inr name)"

text \<open>The conversion \<open>model.Gender(s)\<close>.\<close>

definition gender_of :: "string \<Rightarrow> Gender" where
  "gender_of s = (if s = ''male'' then GenderMale else if s = ''female'' then GenderFemale
     else if s = ''other'' then GenderOther else GenderUnknown s)"

definition validGender :: "Gender \<Rightarrow> bool" where
  "validGender g \<longleftrightarrow> g = GenderMale \<or> g = GenderFemale \<or> g = GenderOther"

definition validateVerificationCode :: "string option \<Rightarrow> go_error option" where
  "validateVerificationCode code = (case code of
      None \<Rightarrow> Some (InvalidField ''verification_code'' FieldRequired)
    | Some c \<Rightarrow>
        if c = [] then Some (InvalidField ''verification_code'' FieldRequired)
        else if length c \<noteq> 6 then Some (InvalidField ''verification_code'' FieldInvalidFormat)
        else if list_ex (\<lambda>r. r < 48 \<or> r > 57) (runes c)
        then Some (InvalidField ''verification_code'' FieldInvalidFormat)
        else None)"

definition truncateRunes :: "string \<Rightarrow> nat \<Rightarrow> string" where
  "truncateRunes v limit =
     (let rs = runes v in string_of_runes (if length rs > limit then take limit rs else rs))"

definition optionalString :: "string \<Rightarrow> nat \<Rightarrow> string option" where
  "optionalString v0 limit = (let v = TrimSpace v0 in if v = [] then None else Some (truncateRunes v limit))"

record RegisterInput =
  ri_email :: string
  ri_password :: string
  ri_code :: "string option"
  ri_username :: "string option"
  ri_gender :: "string option"

definition normalizeRegister :: "auth_lib \<Rightarrow> RegisterInput \<Rightarrow> go_error + RegisterInput" where
  "normalizeRegister lib input =
     (case normalizeEmail lib (ri_email input) of
        Inl err \<Rightarrow> Inl err
      | Inr email \<Rightarrow>
         (case validatePassword (ri_password input) True of
            Some err \<Rightarrow> Inl err
          | None \<Rightarrow>
             (case ri_username input of
                None \<Rightarrow> Inl (InvalidField ''username'' FieldRequired)
              | Some raw \<Rightarrow>
                 (case normalizeUsername lib raw of
                    Inl err \<Rightarrow> Inl err
                  | Inr name \<Rightarrow>
                      if ri_gender input \<noteq> None \<and> \<not> validGender (gender_of (the (ri_gender input)))
                      then Inl (InvalidField ''gender'' FieldInvalidEnum)
                      else Inr (input\<lparr>ri_email := email, ri_username := Some name\<rparr>)))))"

text \<open>\<open>errMissingAuthorization\<close> and \<open>errMalformedAuthorization\<close> only show in the log.\<close>

definition bearerToken :: "string \<Rightarrow> go_error + string" where
  "bearerToken header0 =
     (let header = TrimSpace header0 in
      if header = [] then Inl (PlainErr ''authorization header missing'')
      else case Cut header (CHR '' '') of (scheme, token, found) \<Rightarrow>
        if \<not> found \<or> map ascii_lower scheme \<noteq> ''bearer'' then Inl (PlainErr ''authorization header malformed'')
        else if TrimSpace token = [] then Inl (PlainErr ''authorization header malformed'')
        else Inr (TrimSpace token))"

subsection \<open>Codes and digests\<close>

fun purpose_text :: "VerificationPurpose \<Rightarrow> string" where
  "purpose_text PurposeRegistration = ''registration''"
| "purpose_text PurposePasswordReset = ''password_reset''"

definition codeDigest :: "auth_lib \<Rightarrow> auth_cfg \<Rightarrow> VerificationPurpose \<Rightarrow> string \<Rightarrow> string \<Rightarrow> string" where
  "codeDigest lib c purpose email code = hex_encode (lib_hmac_sha256 lib (cfg_email_verification_secret c)
     (purpose_text purpose @ '':'' @ email @ '':'' @ code))"

text \<open>\<open>rnd\<close> is the outcome of \<open>cryptorand.Int\<close>, which draws from \<open>[0, 1000000)\<close>.\<close>

definition generateVerificationCode :: "go_error + nat \<Rightarrow> go_error + string" where
  "generateVerificationCode rnd = (case rnd of Inl err \<Rightarrow> Inl err | Inr n \<Rightarrow> Inr (format_06d n))"

text \<open>\<open>rnd\<close> is the outcome of reading 32 random bytes, as a string.\<close>

definition randomDigest :: "auth_lib \<Rightarrow> go_error + string \<Rightarrow> go_error + string" where
  "randomDigest lib rnd = (case rnd of Inl err \<Rightarrow> Inl err | Inr bytes \<Rightarrow> Inr (jwtx_Digest lib bytes))"

subsection \<open>Facts\<close>

lemma truncateRunes_runes: "runes (truncateRunes v n) = take n (runes v)"
proof -
  have "list_all valid_rune (take n (runes v))"
    using runes_valid[of v] by (auto simp: list_all_iff dest: in_set_takeD)
  then show ?thesis using runes_valid[of v] runes_string_of_runes
    by (simp add: truncateRunes_def Let_def)
qed

lemma optionalString_bound: "optionalString v n = Some s \<Longrightarrow> RuneCount s \<le> n"
  by (auto simp: optionalString_def Let_def RuneCount_def truncateRunes_runes split: if_splits)

text \<open>On digits, and on what the checks accept, a rune is a byte.\<close>

lemma runes_digits: "list_all is_dec_digit s \<Longrightarrow> runes s = map byte_of s"
proof (induction s)
  case (Cons c s)
  then have "DecodeRune (c # s) = (byte_of c, 1)" by (simp add: is_dec_digit_def Let_def)
  with Cons show ?case by (subst runes.simps) simp
qed simp

lemma digits_of_runes: "\<not> list_ex (\<lambda>r. r < 48 \<or> r > 57) (runes s) \<Longrightarrow> list_all is_dec_digit s"
proof (induction s rule: length_induct)
  case (1 s)
  show ?case
  proof (cases s)
    case (Cons c t)
    have eq: "runes s = fst (DecodeRune s) # runes (drop (snd (DecodeRune s)) s)"
      using Cons by (subst runes.simps) simp
    from "1.prems" have r: "48 \<le> fst (DecodeRune s)" "fst (DecodeRune s) \<le> 57"
      and rest: "\<not> list_ex (\<lambda>r. r < 48 \<or> r > 57) (runes (drop (snd (DecodeRune s)) s))"
      unfolding eq by auto
    have one: "byte_of c = fst (DecodeRune s)" "snd (DecodeRune s) = 1"
      using DecodeRune_small[of c t] r unfolding Cons by simp_all
    from rest have "\<not> list_ex (\<lambda>r. r < 48 \<or> r > 57) (runes (drop 1 s))" by (simp only: one(2) simp_thms)
    then have "\<not> list_ex (\<lambda>r. r < 48 \<or> r > 57) (runes t)" by (simp add: Cons)
    then have "list_all is_dec_digit t" using "1.IH" Cons by simp
    moreover have "is_dec_digit c" unfolding is_dec_digit_def one(1) using r by blast
    ultimately show ?thesis by (simp add: Cons)
  qed simp
qed

lemma validateVerificationCode_iff:
  "validateVerificationCode (Some c) = None \<longleftrightarrow> length c = 6 \<and> list_all is_dec_digit c"
proof -
  have "\<not> list_ex (\<lambda>r. r < 48 \<or> r > 57) (runes c) \<longleftrightarrow> list_all is_dec_digit c"
  proof
    assume all: "list_all is_dec_digit c"
    then show "\<not> list_ex (\<lambda>r. r < 48 \<or> r > 57) (runes c)"
      unfolding runes_digits[OF all] by (auto simp: list_all_iff list_ex_iff is_dec_digit_def)
  qed (rule digits_of_runes)
  then show ?thesis by (auto simp: validateVerificationCode_def)
qed

end
