(* ===== verification/Auth_Store.thy ===== *)
theory Auth_Store
  imports Auth_Input Moderation Email_Outbox
begin

section \<open>Accounts: users, verification codes and sessions in the database\<close>

text \<open>
  Models \<open>internal/repository/auth.go\<close>, the user statements of
  \<open>internal/repository/user_domain.go\<close> that signing up and in use, and the constraints and
  the trigger of \<open>users\<close>, \<open>user_name_claims\<close>, \<open>email_verification_codes\<close> and
  \<open>user_sessions\<close>.  That the server's idea of a well-formed name agrees with
  \<open>usernamepolicy\<close> is not modelled.
\<close>

subsection \<open>Users\<close>

text \<open>A row read back by GORM: \<open>Roles\<close> is not a column.\<close>

definition load_user :: "user \<Rightarrow> user" where
  "load_user u = u\<lparr>u_roles := None\<rparr>"

definition FindByEmail :: "string \<Rightarrow> bool \<Rightarrow> (db, repo_error, user) act" where
  "FindByEmail email includeDeleted = query_first (\<lambda>s. map_option load_user
     (first_by u_id (\<lambda>u. db_lower s (u_email u) = db_lower s email \<and> (includeDeleted \<or> u_deleted_at u = None)) (users s)))"

definition FindByUsername :: "string \<Rightarrow> (db, repo_error, user) act" where
  "FindByUsername name = query_first (\<lambda>s. map_option load_user
     (first_by u_id (\<lambda>u. db_name_fold s (u_name u) = db_name_fold s name \<and> u_deleted_at u = None) (users s)))"

definition LockByID :: "row_id \<Rightarrow> (db, repo_error, user) act" where
  "LockByID userID = query_first (\<lambda>s. map_option load_user
     (first_by u_id (\<lambda>u. u_id u = userID \<and> u_deleted_at u = None) (users s)))"

definition user_check :: "user \<Rightarrow> bool" where
  "user_check u \<longleftrightarrow> (case u_gender u of None \<Rightarrow> True | Some g \<Rightarrow> validGender g) \<and>
     CHR ''@'' \<in> set (u_email u) \<and> hd (u_email u) \<noteq> CHR ''@'' \<and>
     \<not> (u_ban_permanent u \<and> u_banned_until u \<noteq> None) \<and>
     (if u_ban_permanent u \<or> u_banned_until u \<noteq> None
      then (case u_ban_reason u of None \<Rightarrow> False | Some r \<Rightarrow> not_blank r)
      else u_ban_reason u = None \<and> u_banned_by u = None)"

text \<open>The trigger \<open>danshi_claim_user_name\<close>.\<close>

definition claim_trigger :: "user \<Rightarrow> db \<Rightarrow> repo_error + db" where
  "claim_trigger u s =
     (case find (\<lambda>c. db_name_fold s (nc_name c) = db_name_fold s (u_name u)) (name_claims s) of
        None \<Rightarrow> Inr (s\<lparr>name_claims := name_claims s @
                  [\<lparr>nc_user_id = u_id u, nc_name = u_name u, nc_created_at = u_created_at u\<rparr>]\<rparr>)
      | Some c \<Rightarrow> if nc_user_id c = u_id u then Inr s
                 else Inl (UniqueViolation ''uq_user_name_claims_name_lower''))"

text \<open>\<open>Create\<close> fills in the id and, through GORM, the two timestamps.\<close>

definition user_Create :: "user \<Rightarrow> time \<Rightarrow> (db, repo_error, user) act" where
  "user_Create user now = stmt (\<lambda>s.
     let u = user\<lparr>u_id := next_id u_id (users s), u_created_at := now, u_updated_at := now\<rparr>;
         s' = s\<lparr>users := users s @ [u]\<rparr>
     in if \<not> user_check u then (Inl (CheckViolation ''users''), s)
        else if list_ex (\<lambda>v. db_lower s (u_email v) = db_lower s (u_email u)) (users s)
        then (Inl (UniqueViolation ''uq_users_email_lower''), s)
        else if list_ex (\<lambda>v. db_name_fold s (u_name v) = db_name_fold s (u_name u)) (users s)
        then (Inl (UniqueViolation ''uq_users_name_lower''), s)
        else case claim_trigger u s' of Inl err \<Rightarrow> (Inl err, s) | Inr t \<Rightarrow> (Inr u, t))"

definition insert_claim :: "row_id \<Rightarrow> string \<Rightarrow> time \<Rightarrow> (db, repo_error, nat) act" where
  "insert_claim userID name now = stmt (\<lambda>s.
     if \<not> list_ex (\<lambda>u. u_id u = userID) (users s) then (Inl (RepoPlain ''foreign_key_violation''), s)
     else if list_ex (\<lambda>c. db_name_fold s (nc_name c) = db_name_fold s name) (name_claims s) then (Inr 0, s)
     else (Inr 1, s\<lparr>name_claims := name_claims s @ [\<lparr>nc_user_id = userID, nc_name = name, nc_created_at = now\<rparr>]\<rparr>))"

definition ClaimUsername :: "row_id \<Rightarrow> string \<Rightarrow> time \<Rightarrow> (db, repo_error, unit) act" where
  "ClaimUsername userID name now =
     bind (insert_claim userID name now) (\<lambda>rows.
     if rows = 1 then ret ()
     else bind (query (\<lambda>s. find (\<lambda>c. db_name_fold s (nc_name c) = db_name_fold s name) (name_claims s))) (\<lambda>owner.
       case owner of
         None \<Rightarrow> fail ErrNotFound
       | Some c \<Rightarrow> if nc_user_id c \<noteq> userID then fail ErrAlreadyExists else ret ()))"

definition UpdatePassword :: "row_id \<Rightarrow> string \<Rightarrow> (db, repo_error, unit) act" where
  "UpdatePassword userID hash = stmt (\<lambda>s.
     if count_where (\<lambda>u. u_id u = userID \<and> u_deleted_at u = None) (users s) = 0 then (Inl ErrNotFound, s)
     else (Inr (), s\<lparr>users := upd_where (\<lambda>u. u_id u = userID \<and> u_deleted_at u = None)
                      (\<lambda>u. u\<lparr>u_password_hash := hash\<rparr>) (users s)\<rparr>))"

text \<open>\<open>ORDER BY role\<close>: the stored names sort as \<open>dict_reviewer\<close>, \<open>moderator\<close>, \<open>super_admin\<close>, \<open>user\<close>.\<close>

fun role_rank :: "UserRole \<Rightarrow> nat" where
  "role_rank UserRoleDictReviewer = 0"
| "role_rank UserRoleModerator = 1"
| "role_rank UserRoleSuperAdmin = 2"
| "role_rank UserRoleUser = 3"

definition roles_of :: "db \<Rightarrow> row_id \<Rightarrow> UserRole list" where
  "roles_of s userID = sort_key role_rank (map rb_role (filter (\<lambda>b. rb_user_id b = userID) (role_bindings s)))"

definition FindRoles :: "row_id \<Rightarrow> (db, repo_error, UserRole list) act" where
  "FindRoles userID = query (\<lambda>s. roles_of s userID)"

definition FindAvatarURL :: "row_id \<Rightarrow> (db, repo_error, string option) act" where
  "FindAvatarURL userID = query (\<lambda>s.
     case find (\<lambda>u. u_id u = userID \<and> u_deleted_at u = None) (users s) of
       None \<Rightarrow> None
     | Some u \<Rightarrow> (case u_avatar_id u of None \<Rightarrow> None
         | Some a \<Rightarrow> map_option img_public_url (find (\<lambda>i. img_id i = a) (images s))))"

definition user_CreateModerationRecord :: "moderation_record \<Rightarrow> (db, repo_error, unit) act" where
  "user_CreateModerationRecord r = bind (CreateManualRecord r) (\<lambda>_. ret ())"

subsection \<open>Verification codes\<close>

definition zeroDigest :: string where
  "zeroDigest = replicate 64 (CHR ''0'')"

definition code_key :: "db \<Rightarrow> string \<Rightarrow> VerificationPurpose \<Rightarrow> verification_code \<Rightarrow> bool" where
  "code_key s email purpose c \<longleftrightarrow> db_lower s (vc_email c) = db_lower s email \<and> vc_purpose c = purpose"

definition new_code :: "row_id \<Rightarrow> string \<Rightarrow> VerificationPurpose \<Rightarrow> time \<Rightarrow> verification_code" where
  "new_code i email purpose now = \<lparr>vc_id = i, vc_email = email, vc_purpose = purpose, vc_digest = zeroDigest,
     vc_expires_at = now, vc_last_sent_at = None, vc_window_started_at = now, vc_send_count = 0,
     vc_failed_attempts = 0, vc_consumed_at = None, vc_created_at = now, vc_updated_at = now\<rparr>"

definition insert_code :: "string \<Rightarrow> VerificationPurpose \<Rightarrow> time \<Rightarrow> (db, repo_error, unit) act" where
  "insert_code email purpose now = execute (\<lambda>s. ((),
     if list_ex (code_key s email purpose) (codes s) then s
     else s\<lparr>codes := codes s @ [new_code (next_id vc_id (codes s)) email purpose now]\<rparr>))"

definition LockExisting :: "string \<Rightarrow> VerificationPurpose \<Rightarrow> (db, repo_error, verification_code) act" where
  "LockExisting email purpose = query_first (\<lambda>s. first_by vc_id (code_key s email purpose) (codes s))"

definition LockOrCreate :: "string \<Rightarrow> VerificationPurpose \<Rightarrow> time \<Rightarrow> (db, repo_error, verification_code) act" where
  "LockOrCreate email purpose now = seq (insert_code email purpose now)
     (query_first (\<lambda>s. first_by vc_id (code_key s email purpose) (codes s)))"

definition codes_ok :: "db \<Rightarrow> bool" where
  "codes_ok s \<longleftrightarrow> list_all (\<lambda>c. 0 \<le> vc_send_count c \<and> 0 \<le> vc_failed_attempts c) (codes s)"

definition save_code :: "verification_code \<Rightarrow> time \<Rightarrow> verification_code \<Rightarrow> verification_code" where
  "save_code challenge now c = c\<lparr>vc_digest := vc_digest challenge, vc_expires_at := vc_expires_at challenge,
     vc_last_sent_at := vc_last_sent_at challenge, vc_window_started_at := vc_window_started_at challenge,
     vc_send_count := vc_send_count challenge, vc_failed_attempts := vc_failed_attempts challenge,
     vc_consumed_at := vc_consumed_at challenge, vc_updated_at := now\<rparr>"

text \<open>Clear text codes in the mail queue that no longer match the challenge are erased with it.\<close>

definition stale_code :: "verification_code \<Rightarrow> time \<Rightarrow> email_delivery \<Rightarrow> bool" where
  "stale_code challenge now d \<longleftrightarrow> ed_challenge_id d = vc_id challenge \<and> ed_code d \<noteq> None \<and>
     \<not> (vc_consumed_at challenge = None \<and> now < vc_expires_at challenge \<and> vc_failed_attempts challenge < 5 \<and>
        ed_code_digest d = vc_digest challenge)"

definition SaveState :: "verification_code \<Rightarrow> time \<Rightarrow> (db, repo_error, unit) act" where
  "SaveState challenge now = seq
     (checked ''evc_counters_check'' codes_ok (\<lambda>s. ((),
        s\<lparr>codes := upd_where (\<lambda>c. vc_id c = vc_id challenge) (save_code challenge now) (codes s)\<rparr>)))
     (checked ''email_deliveries'' email_table_ok (\<lambda>s. ((),
        s\<lparr>email_deliveries := upd_where (stale_code challenge now) (\<lambda>d. d\<lparr>ed_code := None\<rparr>) (email_deliveries s)\<rparr>)))"

subsection \<open>Sessions\<close>

definition is_hex64 :: "string \<Rightarrow> bool" where
  "is_hex64 s \<longleftrightarrow> length s = 64 \<and> list_all (\<lambda>c. List.member ''0123456789abcdef'' c) s"

definition fits :: "nat \<Rightarrow> string option \<Rightarrow> bool" where
  "fits n v \<longleftrightarrow> (case v of None \<Rightarrow> True | Some x \<Rightarrow> RuneCount x \<le> n)"

definition session_check :: "session \<Rightarrow> bool" where
  "session_check r \<longleftrightarrow> is_hex64 (s_refresh_digest r) \<and> fits 100 (s_device_label r) \<and> fits 512 (s_user_agent r) \<and>
     fits 45 (s_ip r) \<and> s_created_at r < s_expires_at r \<and> s_created_at r \<le> s_last_seen_at r \<and>
     s_last_seen_at r \<le> s_expires_at r \<and>
     (case s_revoked_at r of None \<Rightarrow> True | Some t \<Rightarrow> s_created_at r \<le> t \<and> s_last_seen_at r \<le> t)"

definition sessions_ok :: "db \<Rightarrow> bool" where
  "sessions_ok s \<longleftrightarrow> list_all session_check (sessions s)"

definition session_Create :: "session \<Rightarrow> (db, repo_error, row_id) act" where
  "session_Create r0 = stmt (\<lambda>s.
     let r = r0\<lparr>s_id := next_id s_id (sessions s)\<rparr> in
     if \<not> session_check r then (Inl (CheckViolation ''user_sessions''), s)
     else if list_ex (\<lambda>t. s_refresh_digest t = s_refresh_digest r) (sessions s)
     then (Inl (UniqueViolation ''uq_user_sessions_digest''), s)
     else if \<not> list_ex (\<lambda>u. u_id u = s_user_id r) (users s) then (Inl (RepoPlain ''foreign_key_violation''), s)
     else (Inr (s_id r), s\<lparr>sessions := sessions s @ [r]\<rparr>))"

definition SetRefreshDigest :: "row_id \<Rightarrow> string \<Rightarrow> (db, repo_error, unit) act" where
  "SetRefreshDigest sessionID digest = stmt (\<lambda>s.
     if list_ex (\<lambda>t. s_id t \<noteq> sessionID \<and> s_refresh_digest t = digest) (sessions s) \<and>
        list_ex (\<lambda>t. s_id t = sessionID) (sessions s)
     then (Inl (UniqueViolation ''uq_user_sessions_digest''), s)
     else let s' = s\<lparr>sessions := upd_where (\<lambda>r. s_id r = sessionID) (\<lambda>r. r\<lparr>s_refresh_digest := digest\<rparr>) (sessions s)\<rparr>
       in if sessions_ok s' then (Inr (), s') else (Inl (CheckViolation ''user_sessions''), s))"

text \<open>\<open>now.Add(-threshold)\<close>.\<close>

definition Touch :: "row_id \<Rightarrow> time \<Rightarrow> duration \<Rightarrow> (db, repo_error, unit) act" where
  "Touch sessionID now threshold = checked ''user_sessions'' sessions_ok (\<lambda>s. ((),
     s\<lparr>sessions := upd_where
        (\<lambda>r. s_id r = sessionID \<and> s_revoked_at r = None \<and> now < s_expires_at r \<and> s_last_seen_at r \<le> now - threshold)
        (\<lambda>r. r\<lparr>s_last_seen_at := now\<rparr>) (sessions s)\<rparr>))"

definition revoked :: "time \<Rightarrow> session \<Rightarrow> session" where
  "revoked now r = r\<lparr>s_revoked_at := Some (max now (s_last_seen_at r))\<rparr>"

definition live :: "time \<Rightarrow> session \<Rightarrow> bool" where
  "live now r \<longleftrightarrow> s_revoked_at r = None \<and> now < s_expires_at r"

definition Revoke :: "row_id \<Rightarrow> row_id \<Rightarrow> time \<Rightarrow> (db, repo_error, unit) act" where
  "Revoke userID sessionID now =
     bind (checked ''user_sessions'' sessions_ok (\<lambda>s.
       let p = (\<lambda>r. s_id r = sessionID \<and> s_user_id r = userID \<and> live now r)
       in (count_where p (sessions s), s\<lparr>sessions := upd_where p (revoked now) (sessions s)\<rparr>))) (\<lambda>rows.
     if rows = 0 then fail ErrNotFound else ret ())"

definition RevokeAll :: "row_id \<Rightarrow> time \<Rightarrow> (db, repo_error, unit) act" where
  "RevokeAll userID now = checked ''user_sessions'' sessions_ok (\<lambda>s. ((),
     s\<lparr>sessions := upd_where (\<lambda>r. s_user_id r = userID \<and> s_revoked_at r = None) (revoked now) (sessions s)\<rparr>))"

definition seen_last_first :: "session \<Rightarrow> int \<times> int" where
  "seen_last_first r = (- s_last_seen_at r, - int (s_id r))"

definition ListActive :: "row_id \<Rightarrow> time \<Rightarrow> (db, repo_error, session list) act" where
  "ListActive userID now = query (\<lambda>s.
     sort_key seen_last_first (filter (\<lambda>r. s_user_id r = userID \<and> live now r) (sessions s)))"

record Identity =
  id_session :: session
  id_user :: user

text \<open>\<open>identityRow.identity\<close>: the session columns that were not selected stay at their zero values.\<close>

definition identity_row :: "db \<Rightarrow> session \<Rightarrow> user \<Rightarrow> Identity" where
  "identity_row s r u = \<lparr>
     id_session = \<lparr>s_id = s_id r, s_user_id = s_user_id r, s_refresh_digest = [], s_device_label = None,
       s_user_agent = None, s_ip = None, s_created_at = 0, s_last_seen_at = s_last_seen_at r,
       s_expires_at = s_expires_at r, s_revoked_at = s_revoked_at r\<rparr>,
     id_user = u\<lparr>u_roles := Some (roles_of s (u_id u))\<rparr>\<rparr>"

definition ban_active :: "user \<Rightarrow> time \<Rightarrow> bool" where
  "ban_active u now \<longleftrightarrow> u_ban_permanent u \<or> (case u_banned_until u of None \<Rightarrow> False | Some t \<Rightarrow> now < t)"

text \<open>The join: at most one row, both tables being joined on their keys.\<close>

definition identity_join :: "(session \<Rightarrow> bool) \<Rightarrow> time \<Rightarrow> db \<Rightarrow> (session \<times> user) list" where
  "identity_join p now s = [(r, u). r \<leftarrow> sessions s, p r \<and> live now r, u \<leftarrow> users s,
     u_id u = s_user_id r \<and> u_deleted_at u = None \<and> \<not> ban_active u now]"

definition find_identity :: "(session \<Rightarrow> bool) \<Rightarrow> time \<Rightarrow> db \<Rightarrow> Identity option" where
  "find_identity p now s = (case identity_join p now s of [] \<Rightarrow> None | (r, u) # _ \<Rightarrow> Some (identity_row s r u))"

definition FindActiveIdentity :: "row_id \<Rightarrow> row_id \<Rightarrow> time \<Rightarrow> (db, repo_error, Identity) act" where
  "FindActiveIdentity sessionID userID now =
     query_first (find_identity (\<lambda>r. s_id r = sessionID \<and> s_user_id r = userID) now)"

definition FindRefreshIdentity :: "row_id \<Rightarrow> row_id \<Rightarrow> string \<Rightarrow> time \<Rightarrow> (db, repo_error, Identity) act" where
  "FindRefreshIdentity sessionID userID digest now =
     query_first (find_identity (\<lambda>r. s_id r = sessionID \<and> s_user_id r = userID \<and> s_refresh_digest r = digest) now)"

end
