(* ===== verification/Service.thy ===== *)
theory Service
  imports Uow
begin

section \<open>Services calling repositories\<close>

text \<open>
  How the services of \<open>internal/service\<close> call a repository inside a request: a statement whose
  error is mapped to an error of the service, a lookup whose \<open>ErrNotFound\<close> is an answer, and a
  check that gives an optional error; with what each of them does to the request.
\<close>

definition db_call :: "(repo_error \<Rightarrow> go_error) \<Rightarrow> (db, repo_error, 'a) act \<Rightarrow> ('fx req, go_error, 'a) act" where
  "db_call h m = map_err h (repo m)"

definition found_or_none :: "(db, repo_error, 'a) act \<Rightarrow> ('fx req, go_error, 'a option) act" where
  "found_or_none m = bind (attempt (repo m)) (\<lambda>r. case r of
      Inr x \<Rightarrow> ret (Some x)
    | Inl err \<Rightarrow> if err = ErrNotFound then ret None else fail (internal_of err))"

definition opt_error :: "go_error option \<Rightarrow> ('fx req, go_error, unit) act" where
  "opt_error e = (case e of Some err \<Rightarrow> fail err | None \<Rightarrow> ret ())"

lemma db_call_run: "m (rq_db q) = (Inr x, d) \<Longrightarrow> db_call h m q = (Inr x, q\<lparr>rq_db := d\<rparr>)"
  by (simp add: db_call_def map_err_run repo_run)

lemma opt_error_Inr [simp]: "opt_error e q = (Inr x, q') \<longleftrightarrow> e = None \<and> q' = q"
  by (auto simp: opt_error_def fail_def ret_def split: option.splits)

lemma db_call_Inr_iff:
  "db_call h m q = (Inr x, q') \<longleftrightarrow> (\<exists>d. m (rq_db q) = (Inr x, d) \<and> q' = q\<lparr>rq_db := d\<rparr>)"
  by (cases "m (rq_db q)") (auto simp: db_call_def map_err_run repo_run split: sum.splits)

lemma db_call_Inl_iff:
  "db_call h m q = (Inl err, q') \<longleftrightarrow> (\<exists>e d. m (rq_db q) = (Inl e, d) \<and> err = h e \<and> q' = q\<lparr>rq_db := d\<rparr>)"
  by (cases "m (rq_db q)") (auto simp: db_call_def map_err_run repo_run split: sum.splits)

lemma found_or_none_Inr:
  "found_or_none m q = (Inr r, q') \<longleftrightarrow> (\<exists>d. q' = q\<lparr>rq_db := d\<rparr> \<and>
     (case r of Some x \<Rightarrow> m (rq_db q) = (Inr x, d) | None \<Rightarrow> m (rq_db q) = (Inl ErrNotFound, d)))"
  by (auto simp: found_or_none_def bind_run attempt_run repo_run ret_def fail_def
      split: sum.splits option.splits if_splits)
    (metis prod.collapse)+

lemma query_first_Inr_iff:
  "query_first f s = (Inr x, t) \<longleftrightarrow> \<not> db_fault s (db_stmts s) \<and>
     f (s\<lparr>db_stmts := Suc (db_stmts s)\<rparr>) = Some x \<and> t = s\<lparr>db_stmts := Suc (db_stmts s)\<rparr>"
  by (auto simp: query_first_run split: option.splits)

lemma query_first_not_found:
  "query_first f s = (Inl ErrNotFound, t) \<longleftrightarrow> \<not> db_fault s (db_stmts s) \<and>
     f (s\<lparr>db_stmts := Suc (db_stmts s)\<rparr>) = None \<and> t = s\<lparr>db_stmts := Suc (db_stmts s)\<rparr>"
  by (auto simp: query_first_run split: option.splits)

lemma checked_Inr_iff:
  "checked name ok f s = (Inr x, t) \<longleftrightarrow> \<not> db_fault s (db_stmts s) \<and>
     f (s\<lparr>db_stmts := Suc (db_stmts s)\<rparr>) = (x, t) \<and> ok t"
  by (auto simp: checked_run Let_def prod_eq_iff)

text \<open>Reading changes no table.\<close>

lemma query_first_same: "same_tables s (snd (query_first f s))"
  by (simp add: query_first_run same_tables_def)

definition reads :: "'fx req \<Rightarrow> 'fx req \<Rightarrow> bool" where
  "reads q q' \<longleftrightarrow> same_tables (rq_db q) (rq_db q') \<and> rq_before q' = rq_before q \<and> rq_after q' = rq_after q \<and>
     rq_sent q' = rq_sent q"

lemma reads_refl [simp]: "reads q q"
  by (simp add: reads_def)

lemma reads_trans: "reads a b \<Longrightarrow> reads b c \<Longrightarrow> reads a c"
  by (auto simp: reads_def intro: same_tables_trans)

lemma reads_same: "reads q q' \<Longrightarrow> same_tables (rq_db q) (rq_db q')"
  by (simp add: reads_def)

lemma found_or_none_reads:
  "found_or_none (query_first f) q = (r, q') \<Longrightarrow> reads q q'"
  using query_first_same[of "rq_db q" f]
  by (auto simp: reads_def found_or_none_def bind_run attempt_run repo_run ret_def fail_def split: sum.splits if_splits)

end
