(* ===== verification/Auth_Codes.thy ===== *)
theory Auth_Codes
  imports Auth_Store Service
begin

section \<open>Accounts: sending and consuming verification codes\<close>

text \<open>
  Models the verification code half of \<open>internal/service/auth.go\<close>, with the error answer of
  \<open>internal/handler/auth.go\<close> and the sender ports of \<open>internal/service/email.go\<close>.

  A challenge is one row per address and purpose.  Sending replaces its digest under a rate
  limit, consuming compares a digest under an attempt limit.  A wrong guess is an error that
  the unit of work commits, so that the attempt counter survives the failed request.
\<close>

subsection \<open>The service\<close>

text \<open>
  The sender port: \<open>None\<close> for nil, and for each optional method whether the sender has it and
  what it answers.
\<close>

record sender_port =
  sp_configured :: "bool option"
  sp_reset_configured :: "bool option"

definition UnavailableVerificationEmailSender :: sender_port where
  "UnavailableVerificationEmailSender = \<lparr>sp_configured = Some False, sp_reset_configured = None\<rparr>"

record ModerationRequest =
  mq_target :: ModerationTarget
  mq_field :: "ModerationField option"
  mq_text :: string

record ModerationResult =
  ms_provider :: string
  ms_job_id :: "string option"
  ms_verdict :: ModerationVerdict
  ms_labels :: "string list"
  ms_score :: "int option"
  ms_raw :: "string option"

type_synonym ContentModerator = "ModerationRequest \<Rightarrow> go_error + ModerationResult"

definition UnavailableContentModerator :: ContentModerator where
  "UnavailableContentModerator = (\<lambda>_. Inl (WithCause ServiceUnavailable
     (PlainErr ''content moderation provider is not configured'')))"

definition DirectPassContentModerator :: ContentModerator where
  "DirectPassContentModerator = (\<lambda>_. Inr \<lparr>ms_provider = ''dev_allow'', ms_job_id = None, ms_verdict = VerdictPass,
     ms_labels = [], ms_score = None, ms_raw = None\<rparr>)"

text \<open>\<open>as_deliveries\<close> says whether a delivery queue was injected.\<close>

record auth_service =
  as_cfg :: auth_cfg
  as_lib :: auth_lib
  as_sender :: "sender_port option"
  as_deliveries :: bool
  as_moderator :: ContentModerator

definition newAuthService ::
  "auth_cfg \<Rightarrow> auth_lib \<Rightarrow> sender_port option \<Rightarrow> bool \<Rightarrow> ContentModerator option \<Rightarrow> auth_service" where
  "newAuthService cfg lib sender queue moderator =
     \<lparr>as_cfg = cfg, as_lib = lib,
      as_sender = Some (case sender of None \<Rightarrow> UnavailableVerificationEmailSender | Some p \<Rightarrow> p),
      as_deliveries = queue,
      as_moderator = (case moderator of None \<Rightarrow> UnavailableContentModerator | Some m \<Rightarrow> m)\<rparr>"

definition emailSenderConfigured :: "sender_port option \<Rightarrow> bool" where
  "emailSenderConfigured sender = (case sender of None \<Rightarrow> False
     | Some p \<Rightarrow> (case sp_configured p of Some b \<Rightarrow> b | None \<Rightarrow> True))"

definition passwordResetSenderConfigured :: "sender_port option \<Rightarrow> bool" where
  "passwordResetSenderConfigured sender = (case sender of
      Some p \<Rightarrow> (case sp_reset_configured p of Some b \<Rightarrow> b | None \<Rightarrow> emailSenderConfigured sender)
    | None \<Rightarrow> emailSenderConfigured sender)"

text \<open>The only side effect after a commit is waking the mail worker.\<close>

datatype auth_fx = KickDelivery

type_synonym 'a auth_act = "(auth_fx req, go_error, 'a) act"

subsection \<open>The send rate\<close>

definition verificationCodeTTL :: duration where
  "verificationCodeTTL = 600000000000"

definition verificationSendCooldown :: duration where
  "verificationSendCooldown = 60000000000"

definition verificationSendWindow :: duration where
  "verificationSendWindow = 3600000000000"

definition maxSendsPerWindow :: int where
  "maxSendsPerWindow = 5"

definition maxFailedAttempts :: int where
  "maxFailedAttempts = 5"

definition rateLimitError :: "duration \<Rightarrow> go_error" where
  "rateLimitError remaining =
     RateLimitErr (nat (max 1 (- ((- remaining) div 1000000000)))) (TooManyRequests (Some BizVerifyCodeTooMany))"

definition enforceSendRate :: "verification_code \<Rightarrow> time \<Rightarrow> go_error + verification_code" where
  "enforceSendRate challenge now =
     (let remaining = (case vc_last_sent_at challenge of None \<Rightarrow> 0
                       | Some sent \<Rightarrow> verificationSendCooldown - (now - sent))
      in if remaining > 0 then Inl (rateLimitError remaining)
         else let c = (if now - vc_window_started_at challenge \<ge> verificationSendWindow
                       then challenge\<lparr>vc_window_started_at := now, vc_send_count := 0\<rparr> else challenge)
           in if vc_send_count c \<ge> maxSendsPerWindow
              then Inl (rateLimitError (verificationSendWindow - (now - vc_window_started_at c)))
              else Inr c)"

text \<open>What both senders write into the challenge; \<open>SendCount\<close> is an \<open>int32\<close>.\<close>

definition mark_sent :: "string \<Rightarrow> time \<Rightarrow> verification_code \<Rightarrow> verification_code" where
  "mark_sent digest now c = c\<lparr>vc_digest := digest, vc_expires_at := now + verificationCodeTTL,
     vc_last_sent_at := Some now, vc_send_count := wrap32 (vc_send_count c + 1), vc_failed_attempts := 0,
     vc_consumed_at := None\<rparr>"

definition enqueueVerificationEmail ::
  "auth_service \<Rightarrow> verification_code \<Rightarrow> string \<Rightarrow> VerificationPurpose \<Rightarrow> string \<Rightarrow> string \<Rightarrow> time \<Rightarrow> unit auth_act" where
  "enqueueVerificationEmail srv challenge email purpose digest code now =
     (if \<not> emailSenderConfigured (as_sender srv) \<or> \<not> as_deliveries srv then fail ServiceUnavailable
      else seq (db_call internal_of (Email_Enqueue challenge email purpose digest code now))
           (bind (AfterCommit KickDelivery) (\<lambda>_. ret ())))"

text \<open>\<open>rndCode\<close> and \<open>rndDigest\<close> are the outcomes of the two random sources; the address is already normal.\<close>

definition send_registration_code ::
  "auth_service \<Rightarrow> time \<Rightarrow> go_error + nat \<Rightarrow> go_error + string \<Rightarrow> string \<Rightarrow> unit auth_act" where
  "send_registration_code srv now rndCode rndDigest email =
     bind (found_or_none (FindByEmail email True)) (\<lambda>account.
     bind (db_call internal_of (LockOrCreate email PurposeRegistration now)) (\<lambda>challenge0.
     bind (lift_result (enforceSendRate challenge0 now)) (\<lambda>challenge.
     if account \<noteq> None then
       bind (lift_result (map_sum Internal id (randomDigest (as_lib srv) rndDigest))) (\<lambda>digest.
         db_call internal_of (SaveState (mark_sent digest now challenge) now))
     else
       bind (lift_result (map_sum Internal id (generateVerificationCode rndCode))) (\<lambda>code.
       let digest = codeDigest (as_lib srv) (as_cfg srv) PurposeRegistration email code;
           ch = mark_sent digest now challenge
       in seq (db_call internal_of (SaveState ch now))
              (enqueueVerificationEmail srv ch email PurposeRegistration digest code now)))))"

definition SendVerificationCode ::
  "auth_service \<Rightarrow> time \<Rightarrow> go_error + nat \<Rightarrow> go_error + string \<Rightarrow> string \<Rightarrow> unit auth_act" where
  "SendVerificationCode srv now rndCode rndDigest rawEmail =
     bind (lift_result (normalizeEmail (as_lib srv) rawEmail)) (\<lambda>email.
     if \<not> cfg_email_verification_required (as_cfg srv) then ret ()
     else if \<not> domainAllowed (as_lib srv) (as_cfg srv) email then ret ()
     else if \<not> emailSenderConfigured (as_sender srv) \<or> \<not> as_deliveries srv then fail ServiceUnavailable
     else send_registration_code srv now rndCode rndDigest email)"

text \<open>\<open>errors.As\<close> with the target \<open>*RateLimitError\<close>.\<close>

fun as_rate_limit :: "go_error \<Rightarrow> nat option" where
  "as_rate_limit (ApiErr _ None) = None"
| "as_rate_limit (ApiErr _ (Some c)) = as_rate_limit c"
| "as_rate_limit (PersistedErr e) = as_rate_limit e"
| "as_rate_limit (RateLimitErr n _) = Some n"
| "as_rate_limit (RepoErr _) = None"
| "as_rate_limit (PlainErr _) = None"

text \<open>The account a reset may go to: found, then locked and still there.\<close>

definition reset_account :: "string \<Rightarrow> user option auth_act" where
  "reset_account email = bind (found_or_none (FindByEmail email False)) (\<lambda>found.
     case found of None \<Rightarrow> ret None | Some u \<Rightarrow> found_or_none (LockByID (u_id u)))"

definition send_reset_code ::
  "auth_service \<Rightarrow> time \<Rightarrow> go_error + nat \<Rightarrow> go_error + string \<Rightarrow> string \<Rightarrow> user option \<Rightarrow> verification_code \<Rightarrow>
   unit auth_act" where
  "send_reset_code srv now rndCode rndDigest email account challenge =
     bind (lift_result (map_sum Internal id (generateVerificationCode rndCode))) (\<lambda>code.
     bind (lift_result (case account of
             Some _ \<Rightarrow> Inr (codeDigest (as_lib srv) (as_cfg srv) PurposePasswordReset email code)
           | None \<Rightarrow> map_sum Internal id (randomDigest (as_lib srv) rndDigest))) (\<lambda>digest.
     let ch = mark_sent digest now challenge in
     seq (db_call internal_of (SaveState ch now))
       (case account of None \<Rightarrow> ret ()
        | Some user \<Rightarrow> enqueueVerificationEmail srv ch (u_email user) PurposePasswordReset digest code now)))"

definition SendPasswordResetCode ::
  "auth_service \<Rightarrow> time \<Rightarrow> go_error + nat \<Rightarrow> go_error + string \<Rightarrow> string \<Rightarrow> unit auth_act" where
  "SendPasswordResetCode srv now rndCode rndDigest rawEmail =
     bind (lift_result (normalizeEmail (as_lib srv) rawEmail)) (\<lambda>email.
     if \<not> cfg_email_verification_required (as_cfg srv) then fail ServiceUnavailable
     else if \<not> passwordResetSenderConfigured (as_sender srv) \<or> \<not> as_deliveries srv then fail ServiceUnavailable
     else bind (reset_account email) (\<lambda>account.
       bind (db_call internal_of (LockOrCreate email PurposePasswordReset now)) (\<lambda>challenge0.
       case enforceSendRate challenge0 now of
         Inl err \<Rightarrow> if as_rate_limit err = None then fail err else ret ()
       | Inr challenge \<Rightarrow> send_reset_code srv now rndCode rndDigest email account challenge)))"

subsection \<open>Consuming a code\<close>

abbreviation code_refused :: go_error where
  "code_refused \<equiv> BadRequest (Some BizVerifyCodeInvalid)"

definition code_open :: "time \<Rightarrow> verification_code \<Rightarrow> bool" where
  "code_open now c \<longleftrightarrow> \<not> (vc_consumed_at c \<noteq> None \<or> \<not> now < vc_expires_at c \<or> vc_failed_attempts c \<ge> maxFailedAttempts)"

definition consumeVerification ::
  "auth_service \<Rightarrow> VerificationPurpose \<Rightarrow> string \<Rightarrow> string \<Rightarrow> time \<Rightarrow> unit auth_act" where
  "consumeVerification srv purpose email code now =
     bind (found_or_none (LockExisting email purpose)) (\<lambda>found.
     case found of None \<Rightarrow> fail code_refused
     | Some challenge \<Rightarrow>
        if \<not> code_open now challenge then fail code_refused
        else if vc_digest challenge \<noteq> codeDigest (as_lib srv) (as_cfg srv) purpose email code
        then seq (db_call internal_of
                   (SaveState (challenge\<lparr>vc_failed_attempts := wrap32 (vc_failed_attempts challenge + 1)\<rparr>) now))
                 (fail (PersistedErr code_refused))
        else db_call internal_of (SaveState (challenge\<lparr>vc_consumed_at := Some now\<rparr>) now))"

subsection \<open>The handlers\<close>

text \<open>\<open>failService\<close>: the \<open>Retry-After\<close> header and the marks on the response.\<close>

definition failService :: "go_error \<Rightarrow> response \<Rightarrow> nat option \<times> response" where
  "failService err r = (as_rate_limit err, httpx_Fail err (if ShouldCommitError err then CommitError r else r))"

abbreviation fresh_response :: response where
  "fresh_response \<equiv> \<lparr>rs_status = 200, rs_error = None, rs_commit_error = False\<rparr>"

text \<open>A handler of this package after binding: call the service, answer 200 or \<open>failService\<close>.\<close>

definition serve :: "'a auth_act \<Rightarrow> auth_fx req \<Rightarrow> handler_end \<times> auth_fx req" where
  "serve m q = (case m q of
      (Inr _, q') \<Rightarrow> (Returned fresh_response, q')
    | (Inl err, q') \<Rightarrow> (Returned (snd (failService err fresh_response)), q'))"

text \<open>A whole request; \<open>commitRes\<close> is how its commit ends, if it comes to that.\<close>

definition auth_request :: "commit_result \<Rightarrow> 'a auth_act \<Rightarrow> db \<Rightarrow> auth_fx uow_out" where
  "auth_request commitRes m d = UnitOfWork None commitRes (\<lambda>_. False) fresh_response (serve m) d"

subsection \<open>Facts: the rate limit\<close>

lemma rateLimitError_retry:
  assumes "rateLimitError remaining = RateLimitErr n e" "0 < remaining"
  shows "remaining \<le> int n * 1000000000" "1 \<le> n"
proof -
  let ?k = "- ((- remaining) div 1000000000)"
  have n: "int n = max 1 ?k" using assms(1) by (auto simp: rateLimitError_def)
  have "remaining \<le> ?k * 1000000000"
    using div_mult_mod_eq[of "- remaining" 1000000000] pos_mod_sign[of 1000000000 "- remaining"] by linarith
  then show "remaining \<le> int n * 1000000000" using n by (simp add: max_def split: if_splits)
  show "1 \<le> n" using n by linarith
qed

lemma enforceSendRate_Inr:
  assumes "enforceSendRate c now = Inr c'"
  shows "\<And>sent. vc_last_sent_at c = Some sent \<Longrightarrow> sent + verificationSendCooldown \<le> now"
    "vc_last_sent_at c' = vc_last_sent_at c" "vc_id c' = vc_id c"
    "if now - vc_window_started_at c \<ge> verificationSendWindow
     then vc_window_started_at c' = now \<and> vc_send_count c' = 0
     else vc_window_started_at c' = vc_window_started_at c \<and> vc_send_count c' = vc_send_count c"
    "vc_send_count c' < 5"
  using assms by (auto simp: enforceSendRate_def Let_def maxSendsPerWindow_def split: if_splits option.splits)

lemma enforceSendRate_Inl:
  assumes "enforceSendRate c now = Inl err"
  obtains (cooldown) sent where "vc_last_sent_at c = Some sent" "0 < verificationSendCooldown - (now - sent)"
      "err = rateLimitError (verificationSendCooldown - (now - sent))"
    | (full) "\<And>sent. vc_last_sent_at c = Some sent \<Longrightarrow> sent + verificationSendCooldown \<le> now"
      "0 < verificationSendWindow - (now - vc_window_started_at c)"
      "err = rateLimitError (verificationSendWindow - (now - vc_window_started_at c))"
  using assms
  by (auto simp: enforceSendRate_def Let_def maxSendsPerWindow_def split: if_splits option.splits)

text \<open>
  A client that waits as long as it is told gets through.  A refused send names a number of
  seconds, at least one; a client that waits that long can be refused once more, because the
  minute's pause and the hourly budget are reported one after the other, but after the second
  wait the send is accepted, whatever the challenge looked like.
\<close>

theorem enforceSendRate_retry_after:
  assumes "enforceSendRate c now = Inl (RateLimitErr n e)" and "now + int n * 1000000000 \<le> now1"
    and "enforceSendRate c now1 = Inl (RateLimitErr m e')" and "now1 + int m * 1000000000 \<le> now2"
  shows "1 \<le> n \<and> 1 \<le> m \<and> (\<exists>c'. enforceSendRate c now2 = Inr c')"
proof -
  have n1: "1 \<le> n" using assms(1) by (auto elim!: enforceSendRate_Inl dest: rateLimitError_retry(2)[OF sym])
  have m1: "1 \<le> m" using assms(3) by (auto elim!: enforceSendRate_Inl dest: rateLimitError_retry(2)[OF sym])
  from assms(3) have window: "vc_window_started_at c + verificationSendWindow \<le> now2 \<and>
      (\<forall>sent. vc_last_sent_at c = Some sent \<longrightarrow> sent + verificationSendCooldown \<le> now2)"
  proof (cases rule: enforceSendRate_Inl)
    case (cooldown sent)
    with assms(1) have "sent + verificationSendCooldown \<le> now1"
    proof (cases rule: enforceSendRate_Inl)
      case cooldown2: (cooldown sent')
      with cooldown have "verificationSendCooldown - (now - sent) \<le> int n * 1000000000"
        using rateLimitError_retry(1) by (metis option.inject)
      with assms(2) show ?thesis by linarith
    next
      case full
      then have "sent + verificationSendCooldown \<le> now" using cooldown(1) by blast
      with assms(2) show ?thesis by linarith
    qed
    with cooldown(2) show ?thesis by linarith
  next
    case full
    have "verificationSendWindow - (now1 - vc_window_started_at c) \<le> int m * 1000000000"
      using rateLimitError_retry(1)[OF full(3)[symmetric] full(2)] .
    with assms(4) full(1) m1 show ?thesis by fastforce
  qed
  then have "enforceSendRate c now2 = Inr (c\<lparr>vc_window_started_at := now2, vc_send_count := 0\<rparr>)"
    by (auto simp: enforceSendRate_def Let_def maxSendsPerWindow_def split: option.split)
  with n1 m1 show ?thesis by blast
qed

theorem enforceSendRate_retry_after_witness:
  "\<exists>c n m e e'. vc_send_count c = 5 \<and> enforceSendRate c 10000000000 = Inl (RateLimitErr n e) \<and> n = 50 \<and>
     enforceSendRate c 60000000000 = Inl (RateLimitErr m e') \<and> m = 3540 \<and>
     (\<exists>c'. enforceSendRate c 3600000000000 = Inr c')"
proof -
  let ?c = "(new_code 1 ''a@b'' PurposeRegistration 0)\<lparr>vc_last_sent_at := Some 0, vc_send_count := 5\<rparr>"
  let ?e = "TooManyRequests (Some BizVerifyCodeTooMany)"
  have 1: "enforceSendRate ?c 10000000000 = Inl (RateLimitErr 50 ?e)" by code_simp
  have 2: "enforceSendRate ?c 60000000000 = Inl (RateLimitErr 3540 ?e)" by code_simp
  have "\<exists>c'. enforceSendRate ?c 3600000000000 = Inr c'"
    using enforceSendRate_retry_after[OF 1 _ 2, of 3600000000000] by simp
  with 1 2 show ?thesis by (intro exI[of _ ?c] exI[of _ 50] exI[of _ 3540] exI[of _ ?e]) simp
qed

subsection \<open>Facts: what the operations do to a challenge\<close>

text \<open>The challenge of an address and purpose.\<close>

definition code_row :: "db \<Rightarrow> string \<Rightarrow> VerificationPurpose \<Rightarrow> verification_code option" where
  "code_row s email purpose = first_by vc_id (code_key s email purpose) (codes s)"

lemma code_row_stmts [simp]: "code_row (s\<lparr>db_stmts := n\<rparr>) email purpose = code_row s email purpose"
  by (simp add: code_row_def code_key_def[abs_def])

lemma code_row_deliveries [simp]: "code_row (s\<lparr>email_deliveries := n\<rparr>) email purpose = code_row s email purpose"
  by (simp add: code_row_def code_key_def[abs_def])

lemma code_row_same: "same_tables s t \<Longrightarrow> code_row t email purpose = code_row s email purpose"
  unfolding same_tables_iff by (elim exE) simp

lemma code_row_update:
  assumes "\<And>c. vc_id (f c) = vc_id c \<and> vc_email (f c) = vc_email c \<and> vc_purpose (f c) = vc_purpose c"
  shows "code_row (s\<lparr>codes := upd_where (\<lambda>c. vc_id c = k) f (codes s)\<rparr>) email purpose =
     map_option (\<lambda>c. if vc_id c = k then f c else c) (code_row s email purpose)"
proof -
  have "code_key (s\<lparr>codes := t\<rparr>) email purpose = code_key s email purpose" for t by (simp add: code_key_def[abs_def])
  then show ?thesis
    using assms by (simp add: code_row_def upd_where_def) (rule first_by_map, simp_all add: code_key_def)
qed

lemma LockOrCreate_Inr:
  assumes "LockOrCreate email purpose now s = (Inr c, t)"
  shows "code_row t email purpose = Some c" "email_deliveries t = email_deliveries s" "users t = users s"
    "c = (case code_row s email purpose of Some c' \<Rightarrow> c' | None \<Rightarrow> new_code (next_id vc_id (codes s)) email purpose now)"
proof -
  from assms obtain t' where ins: "insert_code email purpose now s = (Inr (), t')"
    and q: "query_first (\<lambda>s. first_by vc_id (code_key s email purpose) (codes s)) t' = (Inr c, t)"
    unfolding LockOrCreate_def seq_def by (elim bind_InrE) auto
  from q have t: "code_row t' email purpose = Some c" "t = t'\<lparr>db_stmts := Suc (db_stmts t')\<rparr>"
    by (auto simp: query_first_Inr_iff code_row_def code_key_def[abs_def])
  from ins have t': "t' = (if list_ex (code_key s email purpose) (codes s) then s\<lparr>db_stmts := Suc (db_stmts s)\<rparr>
      else s\<lparr>db_stmts := Suc (db_stmts s), codes := codes s @ [new_code (next_id vc_id (codes s)) email purpose now]\<rparr>)"
    by (auto simp: insert_code_def execute_Inr_iff code_key_def[abs_def] split: if_splits)
  show "code_row t email purpose = Some c" using t by simp
  show "email_deliveries t = email_deliveries s" "users t = users s" using t t' by simp_all
  show "c = (case code_row s email purpose of Some c' \<Rightarrow> c' | None \<Rightarrow> new_code (next_id vc_id (codes s)) email purpose now)"
  proof (cases "list_ex (code_key s email purpose) (codes s)")
    case True
    then have "code_row s email purpose = Some c" using t t' by simp
    then show ?thesis by simp
  next
    case False
    then have none: "filter (code_key s email purpose) (codes s) = []"
      by (auto simp: filter_empty_conv list_ex_iff)
    then have "code_row s email purpose = None" by (simp add: code_row_def first_by_def)
    moreover have "code_row t' email purpose = Some (new_code (next_id vc_id (codes s)) email purpose now)"
      using False none t' by (simp add: code_row_def first_by_def code_key_def[abs_def] new_code_def)
    ultimately show ?thesis using t by simp
  qed
qed

lemma SaveState_Inr:
  assumes "SaveState ch now s = (Inr u, t)"
  shows "code_row t email purpose = map_option (\<lambda>c. if vc_id c = vc_id ch then save_code ch now c else c)
      (code_row s email purpose)" "users t = users s" "db_lower t = db_lower s"
    "length (email_deliveries t) = length (email_deliveries s)"
  using assms unfolding SaveState_def seq_def
  by (elim bind_InrE, auto simp: checked_Inr_iff code_row_update save_code_def)+

subsection \<open>Facts: how often a mailbox is written to\<close>

definition send_state :: "db \<Rightarrow> string \<Rightarrow> VerificationPurpose \<Rightarrow> (time option \<times> time \<times> int) option" where
  "send_state d email purpose =
     map_option (\<lambda>c. (vc_last_sent_at c, vc_window_started_at c, vc_send_count c)) (code_row d email purpose)"

definition quiet :: "string \<Rightarrow> VerificationPurpose \<Rightarrow> db \<Rightarrow> db \<Rightarrow> bool" where
  "quiet email purpose d d' \<longleftrightarrow> send_state d' email purpose = send_state d email purpose \<and>
     length (email_deliveries d') = length (email_deliveries d)"

definition accepted :: "string \<Rightarrow> VerificationPurpose \<Rightarrow> time \<Rightarrow> db \<Rightarrow> db \<Rightarrow> bool" where
  "accepted email purpose now d d' \<longleftrightarrow> (\<exists>c0 c i.
     c0 = (case code_row d email purpose of Some c' \<Rightarrow> c' | None \<Rightarrow> new_code i email purpose now) \<and>
     enforceSendRate c0 now = Inr c \<and>
     send_state d' email purpose = Some (Some now, vc_window_started_at c, wrap32 (vc_send_count c + 1)) \<and>
     length (email_deliveries d') \<le> Suc (length (email_deliveries d)))"

lemma accepted_send:
  assumes "LockOrCreate email purpose now s = (Inr c0, t)" "enforceSendRate c0 now = Inr c"
    "SaveState (mark_sent digest now c) now t = (Inr u, t')"
  shows "send_state t' email purpose = Some (Some now, vc_window_started_at c, wrap32 (vc_send_count c + 1)) \<and>
     length (email_deliveries t') = length (email_deliveries s) \<and>
     (\<exists>i. c0 = (case code_row s email purpose of Some c' \<Rightarrow> c' | None \<Rightarrow> new_code i email purpose now))"
  using LockOrCreate_Inr[OF assms(1)] SaveState_Inr[OF assms(3)] enforceSendRate_Inr(3)[OF assms(2)]
  by (auto simp: send_state_def save_code_def mark_sent_def)

lemma enqueue_Inr:
  assumes "enqueueVerificationEmail srv ch email purpose digest code now q = (Inr u, q')"
  shows "code_row (rq_db q') e p = code_row (rq_db q) e p"
    "length (email_deliveries (rq_db q')) = Suc (length (email_deliveries (rq_db q)))"
    "emailSenderConfigured (as_sender srv) \<and> as_deliveries srv"
proof -
  have pre: "emailSenderConfigured (as_sender srv) \<and> as_deliveries srv"
    using assms by (auto simp: enqueueVerificationEmail_def fail_def split: if_splits)
  with assms obtain i q1 where e: "db_call internal_of (Email_Enqueue ch email purpose digest code now) q = (Inr i, q1)"
    and k: "rq_db q' = rq_db q1"
    unfolding enqueueVerificationEmail_def seq_def
    by (auto simp: AfterCommit_def ret_def split: option.splits elim!: bind_InrE)
  from e k pre show "code_row (rq_db q') e p = code_row (rq_db q) e p"
    "length (email_deliveries (rq_db q')) = Suc (length (email_deliveries (rq_db q)))"
    "emailSenderConfigured (as_sender srv) \<and> as_deliveries srv"
    by (auto simp: db_call_Inr_iff Email_Enqueue_def checked_Inr_iff Let_def)
qed

lemma lift_result_Inr [simp]: "lift_result r s = (Inr x, t) \<longleftrightarrow> r = Inr x \<and> t = s"
  by (auto simp: lift_result_def)

lemma quiet_same: "same_tables d d' \<Longrightarrow> quiet email purpose d d'"
  unfolding same_tables_iff quiet_def send_state_def by (elim exE) simp

lemma accepted_quiet_before:
  "same_tables d d1 \<Longrightarrow> accepted email purpose now d1 d' \<Longrightarrow> accepted email purpose now d d'"
proof -
  assume same: "same_tables d d1" and a: "accepted email purpose now d1 d'"
  have "code_row d1 email purpose = code_row d email purpose" by (rule code_row_same[OF same])
  moreover have "email_deliveries d1 = email_deliveries d" using same by (auto simp: same_tables_iff)
  ultimately show ?thesis using a by (simp only: accepted_def)
qed

lemma map_sum_Inr_iff [simp]: "map_sum f id r = Inr x \<longleftrightarrow> r = Inr x"
  by (cases r) simp_all

lemma send_registration_code_accepted:
  assumes "send_registration_code srv now rc rd email q = (Inr u, q')"
  shows "accepted email PurposeRegistration now (rq_db q) (rq_db q')"
proof -
  from assms obtain account q1 c0 q2 c where
    f: "found_or_none (FindByEmail email True) q = (Inr account, q1)"
    and l: "db_call internal_of (LockOrCreate email PurposeRegistration now) q1 = (Inr c0, q2)"
    and r: "enforceSendRate c0 now = Inr c"
    and b: "(if account \<noteq> None then
       bind (lift_result (map_sum Internal id (randomDigest (as_lib srv) rd))) (\<lambda>digest.
         db_call internal_of (SaveState (mark_sent digest now c) now))
     else
       bind (lift_result (map_sum Internal id (generateVerificationCode rc))) (\<lambda>code.
       let digest = codeDigest (as_lib srv) (as_cfg srv) PurposeRegistration email code;
           ch = mark_sent digest now c
       in seq (db_call internal_of (SaveState ch now))
              (enqueueVerificationEmail srv ch email PurposeRegistration digest code now))) q2 = (Inr u, q')"
    unfolding send_registration_code_def by (elim bind_InrE) (auto)
  have same: "same_tables (rq_db q) (rq_db q1)" using f unfolding FindByEmail_def by (intro reads_same found_or_none_reads)
  from l obtain d2 where l': "LockOrCreate email PurposeRegistration now (rq_db q1) = (Inr c0, d2)" "q2 = q1\<lparr>rq_db := d2\<rparr>"
    by (auto simp: db_call_Inr_iff)
  from b obtain digest d3 where sv: "SaveState (mark_sent digest now c) now d2 = (Inr (), d3)"
    and fin: "code_row (rq_db q') email PurposeRegistration = code_row d3 email PurposeRegistration"
      "length (email_deliveries (rq_db q')) \<le> Suc (length (email_deliveries d3))"
  proof (cases "account \<noteq> None")
    case True
    with b l' that show ?thesis by (auto simp: db_call_Inr_iff elim!: bind_InrE)
  next
    case False
    with b obtain code q3 where code: "generateVerificationCode rc = Inr code"
      and s: "db_call internal_of (SaveState (mark_sent (codeDigest (as_lib srv) (as_cfg srv) PurposeRegistration email code) now c) now) q2 = (Inr (), q3)"
      and e: "enqueueVerificationEmail srv (mark_sent (codeDigest (as_lib srv) (as_cfg srv) PurposeRegistration email code) now c) email
        PurposeRegistration (codeDigest (as_lib srv) (as_cfg srv) PurposeRegistration email code) code now q3 = (Inr u, q')"
      by (auto simp: Let_def seq_def elim!: bind_InrE)
    from s l' obtain d3 where "SaveState (mark_sent (codeDigest (as_lib srv) (as_cfg srv) PurposeRegistration email code) now c) now d2
        = (Inr (), d3)" "rq_db q3 = d3" by (auto simp: db_call_Inr_iff)
    with that enqueue_Inr[OF e] show ?thesis by auto
  qed
  from accepted_send[OF l'(1) r sv] fin r have "accepted email PurposeRegistration now (rq_db q1) (rq_db q')"
    unfolding accepted_def send_state_def by auto
  with same show ?thesis by (rule accepted_quiet_before)
qed

lemma SendVerificationCode_effect:
  assumes "SendVerificationCode srv now rc rd raw q = (Inr u, q')" "normalizeEmail (as_lib srv) raw = Inr email"
  shows "quiet email PurposeRegistration (rq_db q) (rq_db q') \<or>
    accepted email PurposeRegistration now (rq_db q) (rq_db q')"
  using assms send_registration_code_accepted[of srv now rc rd email q u q']
  by (auto simp: SendVerificationCode_def ret_def fail_def quiet_same elim!: bind_InrE split: if_splits)

lemma send_reset_code_effect:
  assumes l: "LockOrCreate email PurposePasswordReset now d = (Inr c0, rq_db q)" and r: "enforceSendRate c0 now = Inr c"
    and run: "send_reset_code srv now rc rd email account c q = (Inr u, q')"
  shows "accepted email PurposePasswordReset now d (rq_db q')"
proof -
  from run obtain code digest q1 where
    s: "db_call internal_of (SaveState (mark_sent digest now c) now) q = (Inr (), q1)"
    and e: "(case account of None \<Rightarrow> ret () | Some user \<Rightarrow> enqueueVerificationEmail srv (mark_sent digest now c)
          (u_email user) PurposePasswordReset digest code now) q1 = (Inr u, q')"
    unfolding send_reset_code_def Let_def seq_def by (elim bind_InrE) auto
  from s obtain d1 where sv: "SaveState (mark_sent digest now c) now (rq_db q) = (Inr (), d1)" "rq_db q1 = d1"
    by (auto simp: db_call_Inr_iff)
  have "code_row (rq_db q') email PurposePasswordReset = code_row d1 email PurposePasswordReset \<and>
      length (email_deliveries (rq_db q')) \<le> Suc (length (email_deliveries d1))"
    using e sv(2) by (auto simp: ret_def split: option.splits dest: enqueue_Inr)
  with accepted_send[OF l r sv(1)] r show ?thesis unfolding accepted_def send_state_def by auto
qed

lemma reset_account_reads:
  assumes "reset_account email q = (Inr account, q')"
  shows "reads q q'"
proof -
  from assms obtain found q1 where "found_or_none (FindByEmail email False) q = (Inr found, q1)"
    and 2: "(case found of None \<Rightarrow> ret None | Some u \<Rightarrow> found_or_none (LockByID (u_id u))) q1 = (Inr account, q')"
    unfolding reset_account_def by (elim bind_InrE)
  then have 1: "reads q q1" unfolding FindByEmail_def by (blast intro: found_or_none_reads)
  have "reads q1 q'"
  proof (cases found)
    case None
    with 2 show ?thesis by (simp add: ret_def)
  next
    case (Some u)
    with 2 show ?thesis unfolding LockByID_def by (auto intro: found_or_none_reads)
  qed
  with 1 show ?thesis by (rule reads_trans)
qed

lemma SendPasswordResetCode_effect:
  assumes "SendPasswordResetCode srv now rc rd raw q = (Inr u, q')" "normalizeEmail (as_lib srv) raw = Inr email"
  shows "quiet email PurposePasswordReset (rq_db q) (rq_db q') \<or>
    accepted email PurposePasswordReset now (rq_db q) (rq_db q')"
proof -
  from assms obtain account q1 c0 q2 where a: "reset_account email q = (Inr account, q1)"
    and l: "db_call internal_of (LockOrCreate email PurposePasswordReset now) q1 = (Inr c0, q2)"
    and b: "(case enforceSendRate c0 now of
         Inl err \<Rightarrow> if as_rate_limit err = None then fail err else ret ()
       | Inr challenge \<Rightarrow> send_reset_code srv now rc rd email account challenge) q2 = (Inr u, q')"
    unfolding SendPasswordResetCode_def
    by (auto simp: fail_def simp del: db_call_def split: if_splits elim!: bind_InrE)
  from l have l': "LockOrCreate email PurposePasswordReset now (rq_db q1) = (Inr c0, rq_db q2)"
    by (auto simp: db_call_Inr_iff)
  have same: "same_tables (rq_db q) (rq_db q1)" using a by (intro reads_same reset_account_reads)
  have "quiet email PurposePasswordReset (rq_db q1) (rq_db q') \<or> accepted email PurposePasswordReset now (rq_db q1) (rq_db q')"
  proof (cases "enforceSendRate c0 now")
    case (Inr c)
    with b send_reset_code_effect[OF l' Inr] show ?thesis by simp
  next
    case (Inl err)
    have row: "code_row (rq_db q1) email PurposePasswordReset = Some c0"
    proof (cases "code_row (rq_db q1) email PurposePasswordReset")
      case None
      then have "c0 = new_code (next_id vc_id (codes (rq_db q1))) email PurposePasswordReset now"
        using LockOrCreate_Inr(4)[OF l'] by simp
      with Inl show ?thesis
        by (simp add: enforceSendRate_def new_code_def verificationSendWindow_def maxSendsPerWindow_def)
    qed (use LockOrCreate_Inr(4)[OF l'] in simp)
    from b Inl have "q' = q2" by (auto simp: ret_def fail_def split: if_splits)
    with row LockOrCreate_Inr[OF l'] show ?thesis by (simp add: quiet_def send_state_def)
  qed
  with same show ?thesis
    using quiet_same[OF same] accepted_quiet_before[OF same] by (auto simp: quiet_def)
qed

text \<open>
  The history of one mailbox: the times of the accepted sends, newest first, and how many mails
  were queued.  Between the sends anything may happen that leaves the send counters alone:
  attempts to use the code, other addresses, the mail worker.
\<close>

definition mails_added :: "db \<Rightarrow> db \<Rightarrow> nat" where
  "mails_added d d' = length (email_deliveries d') - length (email_deliveries d)"

definition sends_added :: "string \<Rightarrow> VerificationPurpose \<Rightarrow> time \<Rightarrow> db \<Rightarrow> db \<Rightarrow> time list" where
  "sends_added email purpose now d d' =
     (if send_state d' email purpose = send_state d email purpose then [] else [now])"

inductive send_history :: "auth_service \<Rightarrow> string \<Rightarrow> VerificationPurpose \<Rightarrow> time list \<Rightarrow> nat \<Rightarrow> db \<Rightarrow> bool"
  for srv email purpose where
  start: "code_row d email purpose = None \<Longrightarrow> send_history srv email purpose [] 0 d"
| registration: "send_history srv email purpose ts n d \<Longrightarrow> purpose = PurposeRegistration \<Longrightarrow>
    normalizeEmail (as_lib srv) raw = Inr email \<Longrightarrow>
    SendVerificationCode srv now rc rd raw (fresh_req d) = (Inr (), q) \<Longrightarrow>
    send_history srv email purpose (sends_added email purpose now d (rq_db q) @ ts) (n + mails_added d (rq_db q)) (rq_db q)"
| reset: "send_history srv email purpose ts n d \<Longrightarrow> purpose = PurposePasswordReset \<Longrightarrow>
    normalizeEmail (as_lib srv) raw = Inr email \<Longrightarrow>
    SendPasswordResetCode srv now rc rd raw (fresh_req d) = (Inr (), q) \<Longrightarrow>
    send_history srv email purpose (sends_added email purpose now d (rq_db q) @ ts) (n + mails_added d (rq_db q)) (rq_db q)"
| other: "send_history srv email purpose ts n d \<Longrightarrow> send_state d' email purpose = send_state d email purpose \<Longrightarrow>
    send_history srv email purpose ts n d'"

text \<open>Times newest first: a minute between neighbours, an hour between a send and the tenth before it.\<close>

definition spaced :: "time list \<Rightarrow> bool" where
  "spaced ts \<longleftrightarrow> (\<forall>i. Suc i < length ts \<longrightarrow> ts ! Suc i + verificationSendCooldown \<le> ts ! i)"

definition hourly :: "time list \<Rightarrow> bool" where
  "hourly ts \<longleftrightarrow> (\<forall>i. i + 9 < length ts \<longrightarrow> ts ! (i + 9) + verificationSendWindow \<le> ts ! i)"

text \<open>
  The fixed windows into which sends fall, newest first: a window opens with a send and takes
  every further send within the hour after its start; the next send after that opens the next.
\<close>

fun windows :: "time list \<Rightarrow> time list" where
  "windows [] = []"
| "windows (t # ts) = (case windows ts of
      [] \<Rightarrow> [t]
    | w # ws \<Rightarrow> if t - w \<ge> verificationSendWindow then t # w # ws else w # w # ws)"

lemma windows_subset: "set (windows ts) \<subseteq> set ts"
  by (induction ts) (auto split: list.split)

lemma windows_Nil [simp]: "windows ts = [] \<longleftrightarrow> ts = []"
  by (cases ts) (auto split: list.split)

text \<open>
  \<open>k\<close> sends in the current window, which began with the oldest of them, and at most five in
  each window; the fifth send before the current window is at least an hour older than its start.
\<close>

definition rate_inv :: "time list \<Rightarrow> nat \<Rightarrow> bool" where
  "rate_inv ts k \<longleftrightarrow> 1 \<le> k \<and> k \<le> 5 \<and> k \<le> length ts \<and> spaced ts \<and> hourly ts \<and>
     hd (windows ts) = ts ! (k - 1) \<and> count_list (windows ts) (ts ! (k - 1)) = k \<and>
     (\<forall>v. count_list (windows ts) v \<le> 5) \<and>
     (k + 4 < length ts \<longrightarrow> ts ! (k + 4) + verificationSendWindow \<le> ts ! (k - 1))"

lemma spaced_antimono:
  assumes "spaced ts" "i \<le> j" "j < length ts"
  shows "ts ! j \<le> ts ! i"
  using assms(2,3)
proof (induction j rule: dec_induct)
  case (step j)
  then have "ts ! Suc j + verificationSendCooldown \<le> ts ! j" using assms(1) by (simp add: spaced_def)
  with step show ?case by (simp add: verificationSendCooldown_def)
qed simp

lemma spaced_Cons: "spaced ts \<Longrightarrow> (ts \<noteq> [] \<Longrightarrow> hd ts + verificationSendCooldown \<le> t) \<Longrightarrow> spaced (t # ts)"
  by (auto simp: spaced_def nth_Cons hd_conv_nth split: nat.split)

lemma hourly_Cons:
  "hourly ts \<Longrightarrow> (8 < length ts \<Longrightarrow> ts ! 8 + verificationSendWindow \<le> t) \<Longrightarrow> hourly (t # ts)"
  by (auto simp: hourly_def nth_Cons add.commute split: nat.split)

lemma rate_inv_first: "rate_inv [t] 1"
  by (simp add: rate_inv_def spaced_def hourly_def)

lemma rate_inv_window:
  assumes inv: "rate_inv ts k" and k: "k < 5" and t: "hd ts + verificationSendCooldown \<le> t"
    and w: "\<not> ts ! (k - 1) + verificationSendWindow \<le> t"
  shows "rate_inv (t # ts) (Suc k)"
proof -
  have sp: "spaced (t # ts)" using inv t by (auto simp: rate_inv_def intro: spaced_Cons)
  have hd: "ts ! (k - 1) \<le> t"
    using spaced_antimono[OF sp, of 0 k] inv by (auto simp: rate_inv_def nth_Cons' split: if_splits)
  have "ts ! 8 + verificationSendWindow \<le> t" if "8 < length ts"
    using spaced_antimono[of ts "k + 4" 8] inv k hd that by (simp add: rate_inv_def)
  then have "hourly (t # ts)" using inv by (auto simp: rate_inv_def intro: hourly_Cons)
  moreover have "windows (t # ts) = ts ! (k - 1) # windows ts"
    using inv w by (cases "windows ts") (auto simp: rate_inv_def)
  ultimately show ?thesis using sp inv k by (auto simp: rate_inv_def nth_Cons' add.commute)
qed

lemma rate_inv_restart:
  assumes inv: "rate_inv ts k" and t: "hd ts + verificationSendCooldown \<le> t"
    and w: "ts ! (k - 1) + verificationSendWindow \<le> t"
  shows "rate_inv (t # ts) 1"
proof -
  have sp: "spaced (t # ts)" using inv t by (auto simp: rate_inv_def intro: spaced_Cons)
  have old: "ts ! j + verificationSendWindow \<le> t" if "4 \<le> j" "j < length ts" for j
  proof -
    have "k - 1 \<le> j" "spaced ts" using inv that by (auto simp: rate_inv_def)
    with spaced_antimono that(2) have "ts ! j \<le> ts ! (k - 1)" by blast
    with w show ?thesis by linarith
  qed
  then have "hourly (t # ts)" using inv by (auto simp: rate_inv_def intro: hourly_Cons)
  moreover have "windows (t # ts) = t # windows ts"
    using inv w by (cases "windows ts") (auto simp: rate_inv_def)
  moreover have "t \<notin> set (windows ts)"
  proof
    assume "t \<in> set (windows ts)"
    then obtain j where "j < length ts" "ts ! j = t" using windows_subset by (metis in_set_conv_nth subsetD)
    moreover then have "hd ts = ts ! 0" by (cases ts) auto
    ultimately show False
      using spaced_antimono[of ts 0 j] inv t by (auto simp: rate_inv_def verificationSendCooldown_def)
  qed
  then have "count_list (windows ts) t = 0" by (simp add: count_list_0_iff)
  ultimately show ?thesis using sp old inv by (auto simp: rate_inv_def nth_Cons')
qed

definition history_inv :: "string \<Rightarrow> VerificationPurpose \<Rightarrow> time list \<Rightarrow> nat \<Rightarrow> db \<Rightarrow> bool" where
  "history_inv email purpose ts n d \<longleftrightarrow> n \<le> length ts \<and> (case send_state d email purpose of None \<Rightarrow> ts = []
     | Some (l, w, cnt) \<Rightarrow> ts \<noteq> [] \<and> l = Some (hd ts) \<and> (\<exists>k. cnt = int k \<and> rate_inv ts k \<and> w = ts ! (k - 1)))"

lemma history_accepted:
  assumes inv: "history_inv email purpose ts n d" and acc: "accepted email purpose now d d'"
  shows "history_inv email purpose (sends_added email purpose now d d' @ ts) (n + mails_added d d') d'"
proof -
  from acc obtain c0 c i where c0: "c0 = (case code_row d email purpose of Some c' \<Rightarrow> c' | None \<Rightarrow> new_code i email purpose now)"
    and r: "enforceSendRate c0 now = Inr c"
    and st: "send_state d' email purpose = Some (Some now, vc_window_started_at c, wrap32 (vc_send_count c + 1))"
    and m: "length (email_deliveries d') \<le> Suc (length (email_deliveries d))" by (auto simp: accepted_def)
  note e = enforceSendRate_Inr[OF r]
  have mails: "mails_added d d' \<le> 1" using m by (simp add: mails_added_def)
  show ?thesis
  proof (cases "code_row d email purpose")
    case None
    then have "ts = []" "n = 0" "send_state d email purpose = None" using inv by (auto simp: history_inv_def send_state_def)
    moreover have "vc_window_started_at c = now" "vc_send_count c = 0" using e(4) None c0 by (auto simp: new_code_def split: if_splits)
    ultimately show ?thesis using st mails rate_inv_first[of now]
      by (auto simp: history_inv_def sends_added_def wrap32_id intro!: exI[of _ "1::nat"])
  next
    case (Some c1)
    with c0 have "c0 = c1" by simp
    with inv Some obtain k where k: "ts \<noteq> []" "vc_last_sent_at c0 = Some (hd ts)" "vc_send_count c0 = int k" "rate_inv ts k"
      "vc_window_started_at c0 = ts ! (k - 1)" "n \<le> length ts" by (auto simp: history_inv_def send_state_def)
    have cool: "hd ts + verificationSendCooldown \<le> now" using e(1)[OF k(2)] .
    then have new: "sends_added email purpose now d d' = [now]"
      using st Some k(2) \<open>c0 = c1\<close> by (auto simp: sends_added_def send_state_def verificationSendCooldown_def)
    have "\<exists>k'. vc_send_count c + 1 = int k' \<and> rate_inv (now # ts) k' \<and> vc_window_started_at c = (now # ts) ! (k' - 1)"
    proof (cases "now - vc_window_started_at c0 \<ge> verificationSendWindow")
      case True
      with e(4) k rate_inv_restart[OF k(4) cool] show ?thesis by (intro exI[of _ 1]) auto
    next
      case False
      with k(5) have "\<not> ts ! (k - 1) + verificationSendWindow \<le> now" by simp
      with False e(4,5) k rate_inv_window[OF k(4) _ cool] show ?thesis
        by (intro exI[of _ "Suc k"]) (auto simp: rate_inv_def nth_Cons')
    qed
    moreover have "wrap32 (vc_send_count c + 1) = vc_send_count c + 1" if "vc_send_count c + 1 = int k'" for k'
      using that e(5) by (intro wrap32_id) auto
    ultimately show ?thesis using st new mails k(6) by (auto simp: history_inv_def)
  qed
qed

lemma history_quiet:
  "history_inv email purpose ts n d \<Longrightarrow> quiet email purpose d d' \<Longrightarrow>
   history_inv email purpose (sends_added email purpose now d d' @ ts) (n + mails_added d d') d'"
  by (simp add: history_inv_def quiet_def sends_added_def mails_added_def)

lemma send_history_inv: "send_history srv email purpose ts n d \<Longrightarrow> history_inv email purpose ts n d"
proof (induction rule: send_history.induct)
  case (start d)
  then show ?case by (simp add: history_inv_def send_state_def)
next
  case (registration ts n d raw now rc rd q)
  then show ?case using SendVerificationCode_effect history_accepted history_quiet by fastforce
next
  case (reset ts n d raw now rc rd q)
  then show ?case using SendPasswordResetCode_effect history_accepted history_quiet by fastforce
next
  case (other ts n d d')
  then show ?case by (simp add: history_inv_def)
qed

text \<open>
  C28: nobody's mailbox can be flooded.  Take any mailbox and purpose from before its first code
  on, and any interleaving of send requests for it with attempts to use the code and all other
  work of the system.  Two accepted sends are at least a minute apart.  The sends fall into fixed
  windows of an hour, each opened by a send, and no window holds more than five; the row of the
  challenge stores the time of the newest send, the start of its window and the number of sends
  in it.  As the windows are fixed and not sliding, an arbitrary hour may touch two of them: ten
  sends in a row span at least an hour, so any half-open hour holds at most nine.  No more mails
  are queued than sends were accepted.
\<close>

theorem send_rate_bounded:
  assumes "send_history srv email purpose ts n d"
  shows "(\<forall>i. Suc i < length ts \<longrightarrow> ts ! Suc i + verificationSendCooldown \<le> ts ! i) \<and>
         (\<forall>v. count_list (windows ts) v \<le> 5) \<and>
         send_state d email purpose = (case ts of [] \<Rightarrow> None
           | t # _ \<Rightarrow> Some (Some t, hd (windows ts), int (count_list (windows ts) (hd (windows ts))))) \<and>
         (\<forall>i. i + 9 < length ts \<longrightarrow> ts ! (i + 9) + verificationSendWindow \<le> ts ! i) \<and> n \<le> length ts"
proof -
  have inv: "history_inv email purpose ts n d" using assms by (rule send_history_inv)
  then have "spaced ts \<and> hourly ts \<and> (\<forall>v. count_list (windows ts) v \<le> 5)"
    by (auto simp: history_inv_def rate_inv_def spaced_def hourly_def split: option.splits)
  moreover have "send_state d email purpose = (case ts of [] \<Rightarrow> None
      | t # _ \<Rightarrow> Some (Some t, hd (windows ts), int (count_list (windows ts) (hd (windows ts)))))"
    using inv by (auto simp: history_inv_def rate_inv_def simp del: windows.simps split: option.splits list.splits prod.splits)
  moreover have "n \<le> length ts" using inv by (simp add: history_inv_def)
  ultimately show ?thesis unfolding spaced_def hourly_def by blast
qed

subsection \<open>A concrete service\<close>

text \<open>
  A library for evaluation: digests are the last bytes of the input, bcrypt keeps the password,
  and the JWT library knows the two tokens of session 1 of user 1 issued at time 0.
\<close>

definition sample_claims :: "string \<Rightarrow> Claims" where
  "sample_claims typ = \<lparr>cl_subject = ''1'', cl_issued_at = 0,
     cl_expires_at = (if typ = TypeAccess then 60000000000 else 86400000000000), cl_type = typ, cl_sid = 1\<rparr>"

definition sample_digest :: "string \<Rightarrow> byte list" where
  "sample_digest p = take 32 (map of_char (rev p) @ replicate 32 0)"

definition sample_lib :: auth_lib where
  "sample_lib = \<lparr>lib_hmac_sha256 = (\<lambda>_. sample_digest), lib_sha256 = sample_digest,
     lib_bcrypt_hash = Inr, lib_bcrypt_compare = (\<lambda>h p. h = p),
     lib_jwt_sign = (\<lambda>_ c. if c = sample_claims TypeAccess then Inr ''A''
       else if c = sample_claims TypeRefresh then Inr ''R'' else Inl (PlainErr ''sign'')),
     lib_jwt_parse = (\<lambda>_ now t.
       if t = ''A'' then (if now < 60000000000 then JwtClaims (sample_claims TypeAccess) else JwtExpired)
       else if t = ''R'' then (if now < 86400000000000 then JwtClaims (sample_claims TypeRefresh) else JwtExpired)
       else JwtInvalid),
     lib_parse_address = Some, lib_to_lower = id, lib_nfkc = id,
     lib_is_letter = (\<lambda>r. 97 \<le> r \<and> r \<le> 122), lib_is_number = (\<lambda>r. 48 \<le> r \<and> r \<le> 57)\<rparr>"

definition sample_cfg :: auth_cfg where
  "sample_cfg = \<lparr>cfg_jwt_secret = ''k'', cfg_jwt_expire_minutes = 1, cfg_jwt_refresh_expire_day = 1,
     cfg_email_verification_required = True, cfg_email_verification_secret = ''s'', cfg_allowed_email_domains = ''x, b''\<rparr>"

definition sample_service :: auth_service where
  "sample_service = newAuthService sample_cfg sample_lib (Some \<lparr>sp_configured = Some True, sp_reset_configured = Some True\<rparr>)
     True (Some DirectPassContentModerator)"

definition sample_send :: "time \<Rightarrow> nat \<Rightarrow> db \<Rightarrow> (go_error + unit) \<times> auth_fx req" where
  "sample_send now n d = SendVerificationCode sample_service now (Inr n) (Inr ''r'') '' a@b '' (fresh_req d)"

definition send_report :: "time \<Rightarrow> db \<Rightarrow> (go_error + unit) \<times> auth_fx req \<Rightarrow>
    (go_error + unit) \<times> time list \<times> nat \<times> (time option \<times> time \<times> int) option" where
  "send_report now d r = (fst r, sends_added ''a@b'' PurposeRegistration now d (rq_db (snd r)),
     mails_added d (rq_db (snd r)), send_state (rq_db (snd r)) ''a@b'' PurposeRegistration)"

lemma sample_history:
  assumes "send_history sample_service ''a@b'' PurposeRegistration ts n d"
    and "send_report now d (sample_send now k d) = (Inr (), [now], 1, st)"
  shows "send_history sample_service ''a@b'' PurposeRegistration (now # ts) (Suc n) (rq_db (snd (sample_send now k d)))"
proof -
  have n: "normalizeEmail (as_lib sample_service) '' a@b '' = Inr ''a@b''" by code_simp
  have "sample_send now k d = (Inr (), snd (sample_send now k d))"
    using assms(2) by (simp add: send_report_def prod_eq_iff)
  from send_history.registration[OF assms(1) refl n this[unfolded sample_send_def], folded sample_send_def]
  show ?thesis using assms(2) by (simp add: send_report_def)
qed

definition sample_code_db :: db where
  "sample_code_db = empty_db\<lparr>codes := [(new_code 1 ''a@b'' PurposeRegistration 0)\<lparr>vc_last_sent_at := Some 0, vc_send_count := 1\<rparr>]\<rparr>"

theorem send_rate_bounded_witness:
  "\<exists>d. send_history sample_service ''a@b'' PurposeRegistration [61000000000, 0] 2 d \<and>
     (0::int) + verificationSendCooldown \<le> 61000000000 \<and>
     send_state d ''a@b'' PurposeRegistration = Some (Some 61000000000, 0, 2)"
proof -
  have h0: "send_history sample_service ''a@b'' PurposeRegistration [] 0 empty_db"
    by (rule send_history.start) code_simp
  have r1: "send_report 0 empty_db (sample_send 0 1 empty_db) = (Inr (), [0], 1, Some (Some 0, 0, 1))" by code_simp
  have "send_state sample_code_db ''a@b'' PurposeRegistration = Some (Some 0, 0, 1)" by code_simp
  with r1 have st: "send_state sample_code_db ''a@b'' PurposeRegistration =
      send_state (rq_db (snd (sample_send 0 1 empty_db))) ''a@b'' PurposeRegistration"
    by (simp add: send_report_def)
  have h1: "send_history sample_service ''a@b'' PurposeRegistration [0] 1 sample_code_db"
    using send_history.other[OF sample_history[OF h0 r1] st] by simp
  have r2: "send_report 61000000000 sample_code_db (sample_send 61000000000 2 sample_code_db) =
      (Inr (), [61000000000], 1, Some (Some 61000000000, 0, 2))" by code_simp
  have h2: "send_history sample_service ''a@b'' PurposeRegistration [61000000000, 0] 2
      (rq_db (snd (sample_send 61000000000 2 sample_code_db)))"
    using sample_history[OF h1 r2] by (simp add: numeral_2_eq_2)
  have w: "windows [61000000000, 0] = [0, 0]" by code_simp
  from send_rate_bounded[OF h2] have "(0::int) + verificationSendCooldown \<le> 61000000000" by force
  moreover from send_rate_bounded[OF h2]
  have "send_state (rq_db (snd (sample_send 61000000000 2 sample_code_db))) ''a@b'' PurposeRegistration =
      Some (Some 61000000000, 0, 2)" by (simp add: w del: windows.simps)
  ultimately show ?thesis using h2 by blast
qed

end
