(* ===== verification/Auth.thy ===== *)
theory Auth
  imports Auth_Codes Authz
begin

section \<open>Accounts: registration, login and sessions\<close>

text \<open>
  Models the account and session half of \<open>internal/service/auth.go\<close>, the moderation helpers
  it shares with \<open>internal/service/user.go\<close> and \<open>post_write.go\<close>, and \<open>RequireAuth\<close> of
  \<open>internal/middleware/auth.go\<close>.

  A session row is the only thing that makes a token good: access and refresh tokens name a
  session, and every use looks the session up.  \<open>clk\<close> gives the readings of the clock in
  the order in which an operation takes them.
\<close>

subsection \<open>Inputs and results\<close>

record LoginInput =
  li_identifier :: string
  li_password :: string

record PasswordResetInput =
  pr_email :: string
  pr_code :: string
  pr_new_password :: string

record ClientInfo =
  ci_device_label :: string
  ci_user_agent :: string
  ci_ip :: string

record UserView =
  uv_id :: row_id
  uv_email :: string
  uv_username :: string
  uv_gender :: "Gender option"
  uv_bio :: "string option"
  uv_roles :: "UserRole list"
  uv_avatar_url :: "string option"

record AuthResult =
  ar_token :: string
  ar_refresh_token :: string
  ar_user :: UserView

record TokenResult =
  tr_token :: string
  tr_refresh_token :: string

record Principal =
  pp_user :: user
  pp_session_id :: row_id

record SessionView =
  sv_id :: row_id
  sv_device_label :: "string option"
  sv_user_agent :: "string option"
  sv_ip :: "string option"
  sv_created_at :: time
  sv_last_seen_at :: time
  sv_expires_at :: time
  sv_is_current :: bool

abbreviation "errInvalidCredentials \<equiv> PlainErr ''auth: invalid credentials''"
abbreviation "errInvalidSession \<equiv> PlainErr ''auth: invalid session''"

definition bad_credentials :: go_error where
  "bad_credentials = WithCause Unauthorized errInvalidCredentials"

definition bad_session :: go_error where
  "bad_session = WithCause Unauthorized errInvalidSession"

definition sessionTouchThreshold :: duration where
  "sessionTouchThreshold = 300000000000"

definition sessionLookupError :: "repo_error \<Rightarrow> go_error" where
  "sessionLookupError err = (if err = ErrNotFound then bad_session else internal_of err)"

definition banned :: "user \<Rightarrow> time \<Rightarrow> bool" where
  "banned user now \<longleftrightarrow> u_ban_permanent user \<or> (case u_banned_until user of None \<Rightarrow> False | Some t \<Rightarrow> now < t)"

definition bannedError :: "user \<Rightarrow> go_error" where
  "bannedError user = Forbidden (Some BizAccountBanned)"

definition genderValue :: "string option \<Rightarrow> Gender option" where
  "genderValue v = map_option gender_of v"

definition unknown_device :: string where
  "unknown_device = map char_of_byte [230, 156, 170, 231, 159, 165, 232, 174, 190, 229, 164, 135]"

definition newSession :: "row_id \<Rightarrow> ClientInfo \<Rightarrow> string \<Rightarrow> time \<Rightarrow> duration \<Rightarrow> session" where
  "newSession userID client digest now ttl =
     (let userAgent = optionalString (ci_user_agent client) 512;
          label0 = optionalString (ci_device_label client) 100;
          label1 = (if label0 = None then (case userAgent of None \<Rightarrow> None | Some ua \<Rightarrow> optionalString ua 100) else label0);
          label2 = (if label1 = None then Some unknown_device else label1)
      in \<lparr>s_id = 0, s_user_id = userID, s_refresh_digest = digest, s_device_label = label2,
          s_user_agent = userAgent, s_ip = optionalString (ci_ip client) 45, s_created_at = now,
          s_last_seen_at = now, s_expires_at = now + ttl, s_revoked_at = None\<rparr>)"

subsection \<open>Sessions\<close>

definition userView :: "user \<Rightarrow> UserView auth_act" where
  "userView user =
     bind (db_call internal_of (FindAvatarURL (u_id user))) (\<lambda>avatarURL.
     bind (case u_roles user of Some roles \<Rightarrow> ret roles
           | None \<Rightarrow> db_call internal_of (FindRoles (u_id user))) (\<lambda>roles.
     ret \<lparr>uv_id = u_id user, uv_email = u_email user, uv_username = u_name user, uv_gender = u_gender user,
          uv_bio = u_bio user, uv_roles = roles, uv_avatar_url = avatarURL\<rparr>))"

definition MaxInt64 :: int where
  "MaxInt64 = 9223372036854775807"

definition issueSession ::
  "auth_service \<Rightarrow> go_error + string \<Rightarrow> user \<Rightarrow> ClientInfo \<Rightarrow> time \<Rightarrow> AuthResult auth_act" where
  "issueSession srv rnd user client now =
     (let lib = as_lib srv; cfg = as_cfg srv; secret = cfg_jwt_secret cfg in
     bind (lift_result (map_sum Internal id (randomDigest lib rnd))) (\<lambda>placeholder.
     bind (db_call internal_of (session_Create
            (newSession (u_id user) client placeholder now (RefreshTokenTTL cfg)))) (\<lambda>sessionID.
     if int (u_id user) > MaxInt64 \<or> int sessionID > MaxInt64 then fail (Internal (PlainErr ''id out of range''))
     else bind (lift_result (map_sum Internal id
             (SignAt lib secret (int (u_id user)) (int sessionID) TypeRefresh now (RefreshTokenTTL cfg)))) (\<lambda>refresh.
     bind (lift_result (map_sum Internal id
             (SignAt lib secret (int (u_id user)) (int sessionID) TypeAccess now (AccessTokenTTL cfg)))) (\<lambda>access.
     seq (db_call internal_of (SetRefreshDigest sessionID (jwtx_Digest lib refresh)))
     (bind (userView user) (\<lambda>view.
        ret \<lparr>ar_token = access, ar_refresh_token = refresh, ar_user = view\<rparr>)))))))"

definition deferSessionTouch :: "row_id \<Rightarrow> time \<Rightarrow> unit auth_act" where
  "deferSessionTouch sessionID now = BeforeCommit (map_err RepoErr (Touch sessionID now sessionTouchThreshold))"

definition token_ids :: "auth_service \<Rightarrow> time \<Rightarrow> string \<Rightarrow> string \<Rightarrow> go_error + (row_id \<times> row_id)" where
  "token_ids srv now token typ =
     (case jwtx_Parse (as_lib srv) (cfg_jwt_secret (as_cfg srv)) now token typ of
        Inl err \<Rightarrow> Inl (WithCause Unauthorized err)
      | Inr claims \<Rightarrow> (case claimIDs claims of Inl err \<Rightarrow> Inl (WithCause Unauthorized err) | Inr ids \<Rightarrow> Inr ids))"

definition Refresh :: "auth_service \<Rightarrow> (nat \<Rightarrow> time) \<Rightarrow> string \<Rightarrow> TokenResult auth_act" where
  "Refresh srv clk refreshToken =
     (if TrimSpace refreshToken = [] then fail (WithCause Unauthorized ErrInvalid)
      else bind (lift_result (token_ids srv (clk 0) refreshToken TypeRefresh)) (\<lambda>(userID, sessionID).
      let now = clk 1 in
      bind (db_call sessionLookupError
             (FindRefreshIdentity sessionID userID (jwtx_Digest (as_lib srv) refreshToken) now)) (\<lambda>identity.
      bind (lift_result (map_sum Internal id
             (SignAt (as_lib srv) (cfg_jwt_secret (as_cfg srv)) (int (u_id (id_user identity)))
                (int (s_id (id_session identity))) TypeAccess now (AccessTokenTTL (as_cfg srv))))) (\<lambda>access.
      seq (deferSessionTouch sessionID now)
        (ret \<lparr>tr_token = access, tr_refresh_token = refreshToken\<rparr>)))))"

definition Authenticate :: "auth_service \<Rightarrow> (nat \<Rightarrow> time) \<Rightarrow> string \<Rightarrow> Principal auth_act" where
  "Authenticate srv clk accessToken =
     bind (lift_result (token_ids srv (clk 0) accessToken TypeAccess)) (\<lambda>(userID, sessionID).
     let now = clk 1 in
     bind (db_call sessionLookupError (FindActiveIdentity sessionID userID now)) (\<lambda>identity.
     seq (deferSessionTouch sessionID now)
       (ret \<lparr>pp_user = id_user identity, pp_session_id = s_id (id_session identity)\<rparr>)))"

definition RequireAuth :: "auth_service \<Rightarrow> (nat \<Rightarrow> time) \<Rightarrow> string \<Rightarrow> Principal auth_act" where
  "RequireAuth srv clk header = (case bearerToken header of
      Inl err \<Rightarrow> fail (WithCause Unauthorized err)
    | Inr token \<Rightarrow> Authenticate srv clk token)"

definition CurrentUser :: "Principal \<Rightarrow> UserView auth_act" where
  "CurrentUser pri = userView (pp_user pri)"

definition Logout :: "Principal \<Rightarrow> time \<Rightarrow> unit auth_act" where
  "Logout pri now =
     db_call (\<lambda>err. if err = ErrNotFound then bad_session else internal_of err)
       (Revoke (u_id (pp_user pri)) (pp_session_id pri) now)"

definition LogoutAll :: "Principal \<Rightarrow> time \<Rightarrow> unit auth_act" where
  "LogoutAll pri now = db_call internal_of (RevokeAll (u_id (pp_user pri)) now)"

definition session_view :: "row_id \<Rightarrow> session \<Rightarrow> SessionView" where
  "session_view current r = \<lparr>sv_id = s_id r, sv_device_label = s_device_label r, sv_user_agent = s_user_agent r,
     sv_ip = s_ip r, sv_created_at = s_created_at r, sv_last_seen_at = s_last_seen_at r,
     sv_expires_at = s_expires_at r, sv_is_current = (s_id r = current)\<rparr>"

definition Sessions :: "Principal \<Rightarrow> time \<Rightarrow> SessionView list auth_act" where
  "Sessions pri now =
     bind (db_call internal_of (ListActive (u_id (pp_user pri)) now)) (\<lambda>rows.
     ret (map (session_view (pp_session_id pri)) rows))"

definition KickSession :: "Principal \<Rightarrow> row_id \<Rightarrow> time \<Rightarrow> unit auth_act" where
  "KickSession pri sessionID now =
     db_call (\<lambda>err. if err = ErrNotFound then NotFound (Some BizSessionNotFound) else internal_of err)
       (Revoke (u_id (pp_user pri)) sessionID now)"

subsection \<open>Login\<close>

text \<open>A repository error is passed on as it is.\<close>

definition findLoginUser :: "auth_service \<Rightarrow> string \<Rightarrow> user auth_act" where
  "findLoginUser srv rawIdentifier =
     (let identifier = TrimSpace rawIdentifier in
      if identifier = [] then fail (InvalidField ''identifier'' FieldRequired)
      else if List.member identifier (CHR ''@'') then
        (case normalizeEmail (as_lib srv) identifier of
           Inl _ \<Rightarrow> fail (InvalidField ''identifier'' FieldInvalidFormat)
         | Inr email \<Rightarrow>
             if \<not> domainAllowed (as_lib srv) (as_cfg srv) email then fail bad_credentials
             else db_call RepoErr (FindByEmail email False))
      else (case normalizeUsername (as_lib srv) identifier of
           Inl _ \<Rightarrow> fail (InvalidField ''identifier'' FieldInvalidFormat)
         | Inr name \<Rightarrow> db_call RepoErr (FindByUsername name)))"

definition login_lookup_error :: "go_error \<Rightarrow> go_error" where
  "login_lookup_error err =
     (if errors_as_api err \<noteq> None then err
      else if err \<noteq> RepoErr ErrNotFound then Internal err
      else bad_credentials)"

definition credentials_db :: "(db, repo_error, 'a) act \<Rightarrow> 'a auth_act" where
  "credentials_db m = db_call (\<lambda>err. if err = ErrNotFound then bad_credentials else internal_of err) m"

definition Login :: "auth_service \<Rightarrow> (nat \<Rightarrow> time) \<Rightarrow> go_error + string \<Rightarrow> LoginInput \<Rightarrow> ClientInfo \<Rightarrow> AuthResult auth_act" where
  "Login srv clk rnd input client =
     (case validatePassword (li_password input) False of
        Some err \<Rightarrow> fail err
      | None \<Rightarrow>
         bind (map_err login_lookup_error (findLoginUser srv (li_identifier input))) (\<lambda>found.
         bind (credentials_db (LockByID (u_id found))) (\<lambda>user.
         bind (attempt (findLoginUser srv (li_identifier input))) (\<lambda>again.
         case again of
           Inl err \<Rightarrow> fail (if err = RepoErr ErrNotFound then bad_credentials else Internal err)
         | Inr current \<Rightarrow>
             if u_id current \<noteq> u_id user then fail bad_credentials
             else if \<not> passwordx_Verify (as_lib srv) (li_password input) (u_password_hash user) then fail bad_credentials
             else if banned user (clk 0) then fail (bannedError user)
             else issueSession srv rnd user client (clk 1)))))"

subsection \<open>Password reset\<close>

definition refused_db :: "(db, repo_error, 'a) act \<Rightarrow> 'a auth_act" where
  "refused_db m = db_call (\<lambda>err. if err = ErrNotFound then code_refused else internal_of err) m"

definition ResetPassword :: "auth_service \<Rightarrow> (nat \<Rightarrow> time) \<Rightarrow> PasswordResetInput \<Rightarrow> unit auth_act" where
  "ResetPassword srv clk input =
     bind (lift_result (normalizeEmail (as_lib srv) (pr_email input))) (\<lambda>email.
     seq (opt_error (validatePasswordField ''new_password'' (pr_new_password input) True))
     (seq (opt_error (validateVerificationCode (Some (pr_code input))))
     (bind (refused_db (FindByEmail email False)) (\<lambda>found.
      bind (refused_db (LockByID (u_id found))) (\<lambda>user.
      seq (consumeVerification srv PurposePasswordReset email (pr_code input) (clk 0))
      (bind (lift_result (map_sum Internal id (passwordx_Hash (as_lib srv) (pr_new_password input)))) (\<lambda>hash.
       seq (db_call internal_of (UpdatePassword (u_id user) hash))
           (db_call internal_of (RevokeAll (u_id user) (clk 1))))))))))"

subsection \<open>Registration\<close>

definition moderationRecordForUser :: "row_id \<Rightarrow> ModerationField \<Rightarrow> ModerationResult \<Rightarrow> time \<Rightarrow> moderation_record" where
  "moderationRecordForUser userID field result now =
     \<lparr>mr_id = 0, mr_post_id = None, mr_comment_id = None, mr_image_id = None, mr_tag_id = None,
      mr_user_id = Some userID, mr_field = Some field, mr_username_candidate = None, mr_username_revision = None,
      mr_content_revision = None, mr_scene = SceneText, mr_provider = ms_provider result,
      mr_provider_job_id = ms_job_id result, mr_verdict = ms_verdict result, mr_labels = ms_labels result,
      mr_score = ms_score result, mr_raw_response = ms_raw result, mr_reviewer_id = None, mr_reviewed_at = None,
      mr_supersedes_id = None, mr_created_at = now\<rparr>"

definition validateModerationResult :: "ModerationResult \<Rightarrow> go_error option" where
  "validateModerationResult r =
     (if TrimSpace (ms_provider r) = [] then Some (Internal (PlainErr ''empty provider''))
      else if ms_verdict r \<noteq> VerdictPass \<and> ms_verdict r \<noteq> VerdictReview \<and> ms_verdict r \<noteq> VerdictBlock
      then Some (Internal (PlainErr ''unknown verdict''))
      else None)"

definition moderationVerdictError :: "ModerationVerdict \<Rightarrow> go_error" where
  "moderationVerdictError verdict =
     (if verdict = VerdictReview then Conflict (Some BizContentUnderAudit) else Conflict (Some BizContentRejected))"

definition create_user_error :: "repo_error \<Rightarrow> go_error" where
  "create_user_error err =
     (if err = UniqueViolation ''uq_users_email_lower'' then Conflict (Some BizEmailTaken)
      else if err = UniqueViolation ''uq_users_name_lower'' \<or> err = UniqueViolation ''uq_user_name_claims_name_lower''
      then Conflict (Some BizUsernameTaken)
      else internal_of err)"

definition claim_name_error :: "repo_error \<Rightarrow> go_error" where
  "claim_name_error err =
     (if err = UniqueViolation ''uq_user_name_claims_name_lower'' \<or> err = UniqueViolation ''uq_users_name_lower'' \<or>
         err = ErrAlreadyExists
      then Conflict (Some BizUsernameTaken) else internal_of err)"

definition new_user :: "string \<Rightarrow> string \<Rightarrow> string \<Rightarrow> Gender option \<Rightarrow> user" where
  "new_user email hash name gender = \<lparr>u_id = 0, u_email = email, u_password_hash = hash, u_name = name,
     u_gender = gender, u_bio = None, u_avatar_id = None, u_roles = None, u_ban_permanent = False,
     u_banned_until = None, u_ban_reason = None, u_banned_by = None, u_deleted_at = None, u_created_at = 0,
     u_updated_at = 0\<rparr>"

definition review_username :: "auth_service \<Rightarrow> string \<Rightarrow> ModerationResult auth_act" where
  "review_username srv name =
     bind (lift_result (as_moderator srv \<lparr>mq_target = TargetUser, mq_field = Some FieldName, mq_text = name\<rparr>)) (\<lambda>r.
     seq (opt_error (validateModerationResult r))
       (if ms_verdict r \<noteq> VerdictPass then fail (moderationVerdictError (ms_verdict r)) else ret r))"

definition create_account ::
  "auth_service \<Rightarrow> (nat \<Rightarrow> time) \<Rightarrow> go_error + string \<Rightarrow> RegisterInput \<Rightarrow> ClientInfo \<Rightarrow> AuthResult auth_act" where
  "create_account srv clk rnd input client =
     bind (review_username srv (value_or_empty (ri_username input))) (\<lambda>review.
     bind (lift_result (map_sum Internal id (passwordx_Hash (as_lib srv) (ri_password input)))) (\<lambda>hash.
     bind (db_call create_user_error (user_Create
            (new_user (ri_email input) hash (value_or_empty (ri_username input)) (genderValue (ri_gender input))) (clk 1))) (\<lambda>user.
     seq (db_call claim_name_error (ClaimUsername (u_id user) (u_name user) (clk 2)))
     (seq (db_call internal_of (user_CreateModerationRecord
            (moderationRecordForUser (u_id user) FieldName review (clk 3))))
          (issueSession srv rnd user client (clk 4))))))"

definition Register ::
  "auth_service \<Rightarrow> (nat \<Rightarrow> time) \<Rightarrow> go_error + string \<Rightarrow> RegisterInput \<Rightarrow> ClientInfo \<Rightarrow> AuthResult auth_act" where
  "Register srv clk rnd input0 client =
     bind (lift_result (normalizeRegister (as_lib srv) input0)) (\<lambda>input.
     if \<not> domainAllowed (as_lib srv) (as_cfg srv) (ri_email input)
     then fail (InvalidField ''email'' FieldInvalidDomain)
     else seq (if cfg_email_verification_required (as_cfg srv) then opt_error (validateVerificationCode (ri_code input)) else ret ())
     (bind (found_or_none (FindByEmail (ri_email input) True)) (\<lambda>taken.
      if taken \<noteq> None then fail (Conflict (Some BizEmailTaken))
      else seq (if cfg_email_verification_required (as_cfg srv)
                then consumeVerification srv PurposeRegistration (ri_email input) (value_or_empty (ri_code input)) (clk 0)
                else ret ())
           (create_account srv clk rnd input client))))"

end
