(* ===== verification/Auth_Reset.thy ===== *)
theory Auth_Reset
  imports Auth
begin

section \<open>Password reset: guessing codes and what a reset changes\<close>

text \<open>
  Properties of \<open>AuthService.ResetPassword\<close> run as whole requests, that is, through
  \<open>failService\<close> and the unit of work: the attempt counter survives the failed request, which is
  what makes the attempt limit effective.
\<close>

subsection \<open>What a request leaves behind\<close>

text \<open>
  A driver error of the commit carries no API error, so it renders as a server error.
\<close>

definition driver_commit :: "commit_result \<Rightarrow> bool" where
  "driver_commit commitRes = (case commitRes of CommitOk \<Rightarrow> True | CommitFailed e _ \<Rightarrow> errors_as_api e = None)"

definition answer_status :: "'fx uow_out \<Rightarrow> nat" where
  "answer_status out = fst (ErrorHandler (uo_end out))"

text \<open>Database and answer of a request whose service call queues nothing for the commit.\<close>

lemma auth_request_Inr:
  assumes "m (fresh_req d) = (Inr x, q)" "rq_before q = []" "driver_commit commitRes"
  shows "uo_db (auth_request commitRes m d) = rq_db q \<and> (answer_status (auth_request commitRes m d) = 200 \<or> 500 \<le> answer_status (auth_request commitRes m d)) \<or>
    uo_db (auth_request commitRes m d) = rollback d (rq_db q) \<and> 500 \<le> answer_status (auth_request commitRes m d)"
  using assms
  by (auto simp: auth_request_def UnitOfWork_def serve_def HasError_def ret_def rolled_back_def httpx_Fail_def
      answer_status_def driver_commit_def ErrorHandler_def FromError_def apierr_As_internal internal_api_def
      split: prod.split commit_result.splits)

lemma auth_request_kept:
  assumes "m (fresh_req d) = (Inl e, q)" "rq_before q = []" "driver_commit commitRes"
    and "ShouldCommitError e" "ae_status (apierr_As e) = 400"
  shows "uo_db (auth_request commitRes m d) = rq_db q \<and> 400 \<le> answer_status (auth_request commitRes m d) \<or>
    uo_db (auth_request commitRes m d) = rollback d (rq_db q) \<and> 500 \<le> answer_status (auth_request commitRes m d)"
  using assms
  by (auto simp: auth_request_def UnitOfWork_def serve_def HasError_def shouldCommitError_def ret_def failService_def
      httpx_Fail_def CommitError_def rolled_back_def Let_def answer_status_def driver_commit_def ErrorHandler_def
      FromError_def apierr_As_internal internal_api_def split: prod.split commit_result.splits)

lemma auth_request_refused:
  assumes "m (fresh_req d) = (Inl e, q)" "\<not> ShouldCommitError e"
  shows "uo_db (auth_request commitRes m d) = rollback d (rq_db q)"
    "answer_status (auth_request commitRes m d) = ae_status (apierr_As e)"
  using assms
  by (simp_all add: auth_request_def UnitOfWork_def serve_def HasError_def shouldCommitError_def failService_def
      httpx_Fail_def rolled_back_def answer_status_def ErrorHandler_def FromError_def)

text \<open>
  The comparison that a reset makes, as the value of \<open>hmac.Equal\<close> in \<open>consumeVerification\<close>: the
  request passes its field checks, finds and locks the account, finds the challenge of the
  address, and the challenge is neither used, expired nor blocked.  Any other request compares
  nothing.  This looks at the stored digest only, not at what the request answers or keeps.
\<close>

definition reset_target :: "auth_service \<Rightarrow> PasswordResetInput \<Rightarrow> (string \<times> user) auth_act" where
  "reset_target srv input =
     bind (lift_result (normalizeEmail (as_lib srv) (pr_email input))) (\<lambda>email.
     seq (opt_error (validatePasswordField ''new_password'' (pr_new_password input) True))
     (seq (opt_error (validateVerificationCode (Some (pr_code input))))
     (bind (refused_db (FindByEmail email False)) (\<lambda>found.
      bind (refused_db (LockByID (u_id found))) (\<lambda>user. ret (email, user))))))"

definition reset_comparison ::
  "auth_service \<Rightarrow> (nat \<Rightarrow> time) \<Rightarrow> PasswordResetInput \<Rightarrow> db \<Rightarrow> bool option" where
  "reset_comparison srv clk input d = (case reset_target srv input (fresh_req d) of
      (Inl _, _) \<Rightarrow> None
    | (Inr (email, _), q) \<Rightarrow> (case fst (found_or_none (LockExisting email PurposePasswordReset) q) of
        Inr (Some c) \<Rightarrow> if code_open (clk 0) c
          then Some (vc_digest c = codeDigest (as_lib srv) (as_cfg srv) PurposePasswordReset email (pr_code input))
          else None
      | _ \<Rightarrow> None))"

text \<open>
  A sequence of resets, each with the end of its commit, its clock and its input, run as whole
  requests; of each the comparison it made and the status of its answer.
\<close>

type_synonym reset_try = "commit_result \<times> (nat \<Rightarrow> time) \<times> PasswordResetInput"

fun reset_requests :: "auth_service \<Rightarrow> reset_try list \<Rightarrow> db \<Rightarrow> (bool option \<times> nat) list \<times> db" where
  "reset_requests srv [] d = ([], d)"
| "reset_requests srv ((commitRes, clk, input) # rest) d =
     (let out = auth_request commitRes (ResetPassword srv clk input) d
      in case reset_requests srv rest (uo_db out) of
        (events, d') \<Rightarrow> ((reset_comparison srv clk input d, answer_status out) # events, d'))"

text \<open>A wrong code was compared and the answer is not a server error; the reset succeeded.\<close>

definition wrong_guess :: "bool option \<times> nat \<Rightarrow> bool" where
  "wrong_guess ev \<longleftrightarrow> fst ev = Some False \<and> snd ev < 500"

definition succeeded :: "bool option \<times> nat \<Rightarrow> bool" where
  "succeeded ev \<longleftrightarrow> snd ev < 400"

subsection \<open>One attempt\<close>

text \<open>Errors that the unit of work does not commit.\<close>

definition plain_failure :: "go_error \<Rightarrow> bool" where
  "plain_failure e \<longleftrightarrow> \<not> ShouldCommitError e \<and> renders_error e"

lemma plain_failures [simp]:
  "plain_failure (Internal (RepoErr e))" "plain_failure (internal_of e)" "plain_failure (Internal (PlainErr t))"
  "plain_failure (InvalidField f c)" "plain_failure code_refused"
  by (simp_all add: plain_failure_def renders_error_def apierr_As_def api_constructors internal_api_def)

definition code_after :: "verification_code option \<Rightarrow> time \<Rightarrow> verification_code \<Rightarrow> verification_code option" where
  "code_after row now ch = map_option (save_code ch now) row"

text \<open>The outcomes of \<open>consumeVerification\<close> on the challenge \<open>row\<close>.\<close>

definition consumed_by ::
  "auth_service \<Rightarrow> VerificationPurpose \<Rightarrow> string \<Rightarrow> string \<Rightarrow> time \<Rightarrow> verification_code option \<Rightarrow> go_error + unit \<Rightarrow>
   verification_code option \<Rightarrow> bool" where
  "consumed_by srv purpose email code now row r row' \<longleftrightarrow> (case r of
      Inr _ \<Rightarrow> \<exists>c. row = Some c \<and> code_open now c \<and> vc_digest c = codeDigest (as_lib srv) (as_cfg srv) purpose email code \<and>
               row' = Some (save_code (c\<lparr>vc_consumed_at := Some now\<rparr>) now c)
    | Inl e \<Rightarrow> ShouldCommitError e \<longrightarrow> e = PersistedErr code_refused \<and>
        (\<exists>c. row = Some c \<and> code_open now c \<and> vc_digest c \<noteq> codeDigest (as_lib srv) (as_cfg srv) purpose email code \<and>
             row' = Some (save_code (c\<lparr>vc_failed_attempts := wrap32 (vc_failed_attempts c + 1)\<rparr>) now c)))"

lemma consumed_by_plain: "plain_failure e \<Longrightarrow> consumed_by srv purpose email code now row (Inl e) row'"
  by (simp add: consumed_by_def plain_failure_def)

lemma SaveState_row:
  assumes "SaveState ch now s = (Inr u, t)" "code_row s email purpose = Some c" "vc_id ch = vc_id c"
  shows "code_row t email purpose = Some (save_code ch now c)"
  using SaveState_Inr(1)[OF assms(1)] assms(2,3) by simp

lemma SaveState_frame:
  "users (snd (SaveState ch now s)) = users s" "sessions (snd (SaveState ch now s)) = sessions s"
  "name_claims (snd (SaveState ch now s)) = name_claims s" "db_lower (snd (SaveState ch now s)) = db_lower s"
  "db_name_fold (snd (SaveState ch now s)) = db_name_fold s"
  by (auto simp: SaveState_def seq_def bind_run checked_run Let_def)

lemma db_call_frame:
  "rq_before (snd (db_call h m q)) = rq_before q" "rq_db (snd (db_call h m q)) = snd (m (rq_db q))"
  "rq_after (snd (db_call h m q)) = rq_after q" "rq_sent (snd (db_call h m q)) = rq_sent q"
  by (simp_all add: db_call_def repo_run)

lemma found_or_none_cases:
  assumes "found_or_none (query_first f) q = (r, q')"
  obtains (fault) e where "r = Inl (internal_of e)" "reads q q'"
    | (none) "r = Inr None" "f ((rq_db q)\<lparr>db_stmts := Suc (db_stmts (rq_db q))\<rparr>) = None" "reads q q'"
    | (some) x where "r = Inr (Some x)" "f ((rq_db q)\<lparr>db_stmts := Suc (db_stmts (rq_db q))\<rparr>) = Some x" "reads q q'"
  using assms found_or_none_reads[OF assms]
  by (auto simp: found_or_none_def bind_run attempt_run repo_run query_first_run ret_def fail_def
      split: if_splits option.splits)

lemma LockExisting_row: "LockExisting email purpose = query_first (\<lambda>s. code_row s email purpose)"
  by (simp add: LockExisting_def code_row_def)

lemma bind_Pair: "m s = (Inr x, t) \<Longrightarrow> bind m f s = f x t" "m s = (Inl e, t) \<Longrightarrow> bind m f s = (Inl e, t)"
  by (simp_all add: bind_run)

lemma reads_rows:
  assumes "reads q q'"
  shows "users (rq_db q') = users (rq_db q)" "sessions (rq_db q') = sessions (rq_db q)"
    "code_row (rq_db q') email purpose = code_row (rq_db q) email purpose" "rq_before q' = rq_before q"
  using assms code_row_same[of "rq_db q" "rq_db q'"] by (auto simp: reads_def same_tables_iff)

lemma consume_found:
  fixes q :: "auth_fx req"
  assumes row: "code_row (rq_db q) email purpose = Some c"
    and run: "(if \<not> code_open now c then fail code_refused
        else if vc_digest c \<noteq> codeDigest (as_lib srv) (as_cfg srv) purpose email code
        then seq (db_call internal_of (SaveState (c\<lparr>vc_failed_attempts := wrap32 (vc_failed_attempts c + 1)\<rparr>) now))
                 (fail (PersistedErr code_refused))
        else db_call internal_of (SaveState (c\<lparr>vc_consumed_at := Some now\<rparr>) now)) q = (r, q')"
  shows "rq_before q' = rq_before q \<and> users (rq_db q') = users (rq_db q) \<and> sessions (rq_db q') = sessions (rq_db q) \<and>
    consumed_by srv purpose email code now (Some c) r (code_row (rq_db q') email purpose)"
proof -
  let ?wrong = "c\<lparr>vc_failed_attempts := wrap32 (vc_failed_attempts c + 1)\<rparr>" and ?used = "c\<lparr>vc_consumed_at := Some now\<rparr>"
  let ?w = "db_call internal_of (SaveState ?wrong now) q :: (go_error + unit) \<times> auth_fx req"
    and ?u = "db_call internal_of (SaveState ?used now) q :: (go_error + unit) \<times> auth_fx req"
  have saved: "code_row (rq_db t) email purpose = Some (save_code ch now c)"
    if "db_call internal_of (SaveState ch now) q = (Inr u, t)" "vc_id ch = vc_id c" for ch u t
    using that SaveState_row[OF _ row] by (auto simp: db_call_Inr_iff)
  have err: "plain_failure e" if "db_call internal_of (SaveState ch now) q = (Inl e, t)" for ch e t
    using that by (auto simp: db_call_Inl_iff)
  consider (closed) "\<not> code_open now c" | (wrong) "code_open now c" "vc_digest c \<noteq> codeDigest (as_lib srv) (as_cfg srv) purpose email code"
    | (right) "code_open now c" "vc_digest c = codeDigest (as_lib srv) (as_cfg srv) purpose email code" by blast
  then show ?thesis
  proof cases
    case closed
    with run row show ?thesis by (auto simp: fail_def intro: consumed_by_plain)
  next
    case wrong
    with run have r: "bind (db_call internal_of (SaveState ?wrong now)) (\<lambda>_. fail (PersistedErr code_refused)) q = (r, q')"
      by (simp add: seq_def)
    have q': "q' = snd ?w" using r by (auto simp: bind_run fail_def split: prod.splits sum.splits)
    have "consumed_by srv purpose email code now (Some c) r (code_row (rq_db q') email purpose)"
    proof (cases "fst ?w")
      case (Inl e)
      then have w: "?w = (Inl e, snd ?w)" by (metis prod.collapse)
      with r have "r = Inl e" by (simp add: bind_Pair(2))
      with err[OF w] show ?thesis by (simp add: consumed_by_plain)
    next
      case (Inr u)
      then have w: "?w = (Inr u, snd ?w)" by (metis prod.collapse)
      with r have "r = Inl (PersistedErr code_refused)" by (simp add: bind_Pair(1) fail_def)
      with saved[OF w] wrong q' show ?thesis by (simp add: consumed_by_def)
    qed
    with q' show ?thesis by (simp add: db_call_frame SaveState_frame)
  next
    case right
    with run have r: "?u = (r, q')" by simp
    have "consumed_by srv purpose email code now (Some c) r (code_row (rq_db q') email purpose)"
    proof (cases r)
      case (Inl e)
      with err r show ?thesis by (simp add: consumed_by_plain)
    next
      case (Inr u)
      with saved[of ?used u q'] r right show ?thesis by (simp add: consumed_by_def)
    qed
    moreover have "q' = snd ?u" using r by simp
    ultimately show ?thesis by (simp add: db_call_frame SaveState_frame)
  qed
qed

lemma consumeVerification_effect:
  assumes "consumeVerification srv purpose email code now q = (r, q')"
  shows "rq_before q' = rq_before q \<and> users (rq_db q') = users (rq_db q) \<and> sessions (rq_db q') = sessions (rq_db q) \<and>
    consumed_by srv purpose email code now (code_row (rq_db q) email purpose) r (code_row (rq_db q') email purpose)"
proof (cases "found_or_none (LockExisting email purpose) q")
  case (Pair rf q1)
  from Pair[unfolded LockExisting_row] show ?thesis
  proof (cases rule: found_or_none_cases)
    case (fault e)
    with assms Pair show ?thesis
      by (auto simp: consumeVerification_def bind_Pair(2) reads_rows intro: consumed_by_plain)
  next
    case none
    with assms Pair show ?thesis
      by (auto simp: consumeVerification_def bind_Pair(1) reads_rows fail_def intro: consumed_by_plain)
  next
    case (some c)
    then have row: "code_row (rq_db q1) email purpose = Some c" by (simp add: reads_rows)
    from assms Pair some have run: "(if \<not> code_open now c then fail code_refused
        else if vc_digest c \<noteq> codeDigest (as_lib srv) (as_cfg srv) purpose email code
        then seq (db_call internal_of (SaveState (c\<lparr>vc_failed_attempts := wrap32 (vc_failed_attempts c + 1)\<rparr>) now))
                 (fail (PersistedErr code_refused))
        else db_call internal_of (SaveState (c\<lparr>vc_consumed_at := Some now\<rparr>) now)) q1 = (r, q')"
      by (simp add: consumeVerification_def bind_Pair(1) del: if_not_P)
    from consume_found[OF row run] some show ?thesis by (simp add: reads_rows)
  qed
qed

text \<open>What \<open>consumeVerification\<close> answers, by what it found and compared.\<close>

lemma consume_answers:
  assumes "consumeVerification srv purpose email code now q = (r, q')"
  shows "case fst (found_or_none (LockExisting email purpose) q) of
      Inl e \<Rightarrow> r = Inl e
    | Inr None \<Rightarrow> r = Inl code_refused
    | Inr (Some c) \<Rightarrow> if code_open now c
        then (if vc_digest c = codeDigest (as_lib srv) (as_cfg srv) purpose email code then r = Inr ()
              else r = Inl (PersistedErr code_refused)) \<or> (\<exists>e. r = Inl (internal_of e))
        else r = Inl code_refused"
proof (cases "found_or_none (LockExisting email purpose) q")
  case (Pair rf q1)
  show ?thesis
  proof (cases rf)
    case (Inr found)
    show ?thesis
    proof (cases found)
      case (Some c)
      have save: "(\<exists>u. fst (db_call internal_of m q1) = Inr u) \<or> (\<exists>e. fst (db_call internal_of m q1) = Inl (internal_of e))"
        for m :: "(db, repo_error, unit) act"
      proof (cases "fst (db_call internal_of m q1)")
        case (Inl e)
        then have "db_call internal_of m q1 = (Inl e, snd (db_call internal_of m q1))" by (metis prod.collapse)
        with Inl show ?thesis unfolding db_call_Inl_iff by blast
      qed simp
      show ?thesis
        using assms Pair Inr Some save[of "SaveState (c\<lparr>vc_failed_attempts := wrap32 (vc_failed_attempts c + 1)\<rparr>) now"]
          save[of "SaveState (c\<lparr>vc_consumed_at := Some now\<rparr>) now"]
        by (auto simp: consumeVerification_def bind_run seq_def fail_def split: sum.splits if_splits prod.splits)
    qed (use assms Pair Inr in \<open>simp add: consumeVerification_def bind_run fail_def\<close>)
  qed (use assms Pair in \<open>simp add: consumeVerification_def bind_run\<close>)
qed

lemma consume_renders:
  assumes "consumeVerification srv purpose email code now q = (Inl e, q')"
  shows "renders_error e"
proof -
  have found: "\<And>e. fst (found_or_none (LockExisting email purpose) q) = Inl e \<Longrightarrow> plain_failure e"
    unfolding LockExisting_row by (metis found_or_none_cases plain_failures(2) prod.collapse sum.inject(1) sum.distinct(1))
  have p: "renders_error (PersistedErr code_refused)" by (simp add: renders_error_def apierr_As_def api_constructors)
  have i: "renders_error (internal_of e)" "renders_error code_refused" for e
    using plain_failures(2,5) by (simp_all add: plain_failure_def)
  show ?thesis
    using consume_answers[OF assms] found p i
    by (auto simp: plain_failure_def split: sum.splits option.splits if_splits)
qed

text \<open>
  The assertions of a reset: before the code is checked only reads happened, afterwards only
  the challenge of this address was written; every error keeps to \<open>consumed_by\<close>.
\<close>

definition reset_done ::
  "auth_service \<Rightarrow> string \<Rightarrow> string \<Rightarrow> time \<Rightarrow> auth_fx req \<Rightarrow> go_error + unit \<Rightarrow> auth_fx req \<Rightarrow> bool" where
  "reset_done srv email code now q0 r q \<longleftrightarrow> rq_before q = rq_before q0 \<and> (\<forall>e. r = Inl e \<longrightarrow> renders_error e) \<and>
     consumed_by srv PurposePasswordReset email code now (code_row (rq_db q0) email PurposePasswordReset) r
       (code_row (rq_db q) email PurposePasswordReset)"

lemma reset_done_plain: "plain_failure e \<Longrightarrow> rq_before q = rq_before q0 \<Longrightarrow> reset_done srv email code now q0 (Inl e) q"
  by (simp add: reset_done_def consumed_by_plain plain_failure_def)

lemma reads_before: "reads q q' \<Longrightarrow> rq_before q' = rq_before q"
  by (simp add: reads_def)

lemma triple_plain_result:
  assumes "\<And>e. r = Inl e \<Longrightarrow> plain_failure e" "\<And>q. P q \<Longrightarrow> rq_before q = rq_before q0"
  shows "triple P (lift_result r) (\<lambda>x q. P q) (\<lambda>e. reset_done srv email code now q0 (Inl e))"
  by (rule triple_lift_result) (auto intro: reset_done_plain assms)

lemma triple_opt_error:
  assumes "\<And>e. r = Some e \<Longrightarrow> plain_failure e" "\<And>q. P q \<Longrightarrow> rq_before q = rq_before q0"
  shows "triple P (opt_error r) (\<lambda>x q. P q) (\<lambda>e. reset_done srv email code now q0 (Inl e))"
  using assms by (auto simp: opt_error_def triple_def ret_def fail_def intro: reset_done_plain split: option.split)

lemma triple_lookup:
  assumes "\<And>e. plain_failure (h e)"
  shows "triple (reads q0) (db_call h (query_first f)) (\<lambda>x q. reads q0 q) (\<lambda>e. reset_done srv email code now q0 (Inl e))"
proof (rule tripleI)
  fix q r q' assume q: "reads q0 q"
  have step: "reads q (snd (db_call h (query_first f) q))"
    using query_first_same[of "rq_db q" f] by (simp add: reads_def db_call_frame)
  { assume "db_call h (query_first f) q = (Inr r, q')"
    with q step show "reads q0 q'" by (metis reads_trans snd_conv) }
next
  fix q e q' assume q: "reads q0 q" and run: "db_call h (query_first f) q = (Inl e, q')"
  have "rq_before q' = rq_before q0" using db_call_frame(1)[of h "query_first f" q] run q by (simp add: reads_def)
  moreover have "plain_failure e" using run assms by (auto simp: db_call_Inl_iff)
  ultimately show "reset_done srv email code now q0 (Inl e) q'" by (simp add: reset_done_plain)
qed

lemma triple_write:
  assumes "\<And>e. plain_failure (h e)" "\<And>s. code_row (snd (m s)) email PurposePasswordReset = code_row s email PurposePasswordReset"
  shows "triple (reset_done srv email code now q0 (Inr ())) (db_call h m) (\<lambda>x. reset_done srv email code now q0 (Inr ()))
     (\<lambda>e. reset_done srv email code now q0 (Inl e))"
proof (rule tripleI)
  fix q x q' assume q: "reset_done srv email code now q0 (Inr ()) q" and run: "db_call h m q = (Inr x, q')"
  have "rq_before q' = rq_before q" "rq_db q' = snd (m (rq_db q))"
    using db_call_frame[of h m q] run by simp_all
  with q assms(2) show "reset_done srv email code now q0 (Inr ()) q'" by (simp add: reset_done_def)
next
  fix q e q' assume q: "reset_done srv email code now q0 (Inr ()) q" and run: "db_call h m q = (Inl e, q')"
  have "rq_before q' = rq_before q0" using db_call_frame(1)[of h m q] run q by (simp add: reset_done_def)
  moreover have "plain_failure e" using run assms by (auto simp: db_call_Inl_iff)
  ultimately show "reset_done srv email code now q0 (Inl e) q'" by (simp add: reset_done_plain)
qed

lemma triple_consume:
  "triple (reads q0) (consumeVerification srv PurposePasswordReset email code now)
     (\<lambda>x. reset_done srv email code now q0 (Inr ())) (\<lambda>e. reset_done srv email code now q0 (Inl e))"
proof (rule tripleI)
  fix q x q' assume "reads q0 q" "consumeVerification srv PurposePasswordReset email code now q = (Inr x, q')"
  then show "reset_done srv email code now q0 (Inr ()) q'"
    using consumeVerification_effect[of srv PurposePasswordReset email code now q "Inr x" q'] by (simp add: reset_done_def reads_rows)
next
  fix q e q' assume "reads q0 q" "consumeVerification srv PurposePasswordReset email code now q = (Inl e, q')"
  then show "reset_done srv email code now q0 (Inl e) q'"
    using consumeVerification_effect[of srv PurposePasswordReset email code now q "Inl e" q'] consume_renders
    by (auto simp: reset_done_def reads_rows)
qed

lemma code_row_users [simp]: "code_row (s\<lparr>users := x\<rparr>) email purpose = code_row s email purpose"
  by (simp add: code_row_def code_key_def[abs_def])

lemma code_row_sessions [simp]: "code_row (s\<lparr>sessions := x\<rparr>) email purpose = code_row s email purpose"
  by (simp add: code_row_def code_key_def[abs_def])

lemma account_writes_code_row:
  "code_row (snd (UpdatePassword u h s)) email purpose = code_row s email purpose"
  "code_row (snd (RevokeAll u now s)) email purpose = code_row s email purpose"
  by (simp_all add: UpdatePassword_def RevokeAll_def stmt_run checked_run Let_def)

lemma bind_lift_Inr: "bind (lift_result (Inr x)) f = f x"
  by (simp add: bind_def lift_result_def)

lemma normalizeEmail_plain: "normalizeEmail lib raw = Inl e \<Longrightarrow> plain_failure e"
  by (auto simp: normalizeEmail_def Let_def split: option.splits if_splits)

lemma validate_plain:
  "validatePasswordField f p b = Some e \<Longrightarrow> plain_failure e" "validateVerificationCode c = Some e \<Longrightarrow> plain_failure e"
  by (auto simp: validatePasswordField_def validateVerificationCode_def Let_def split: option.splits if_splits)

lemma passwordx_Hash_plain: "map_sum Internal id (passwordx_Hash lib p) = Inl e \<Longrightarrow> plain_failure e"
  by (cases "lib_bcrypt_hash lib p") (auto simp: passwordx_Hash_def split: if_splits)

lemma ResetPassword_effect:
  assumes norm: "normalizeEmail (as_lib srv) (pr_email input) = Inr email"
  shows "triple (reads q0) (ResetPassword srv clk input)
    (\<lambda>x. reset_done srv email (pr_code input) (clk 0) q0 (Inr ()))
    (\<lambda>e. reset_done srv email (pr_code input) (clk 0) q0 (Inl e))"
proof -
  let ?E = "\<lambda>e. reset_done srv email (pr_code input) (clk 0) q0 (Inl e)"
    and ?Q = "\<lambda>x. reset_done srv email (pr_code input) (clk 0) q0 (Inr ())"
  have refused: "plain_failure (if e = ErrNotFound then code_refused else internal_of e)" for e by simp
  have writing: "triple (?Q ()) (bind (lift_result (map_sum Internal id (passwordx_Hash (as_lib srv) (pr_new_password input))))
      (\<lambda>hash. bind (db_call internal_of (UpdatePassword i hash)) (\<lambda>_. db_call internal_of (RevokeAll i (clk 1))))) ?Q ?E" for i
    by (rule triple_bind[OF triple_plain_result triple_bind[OF triple_write triple_write]])
      (auto simp: account_writes_code_row reset_done_def dest: passwordx_Hash_plain)
  have locked: "triple (reads q0) (bind (db_call (\<lambda>e. if e = ErrNotFound then code_refused else internal_of e) (query_first f))
      (\<lambda>user. bind (consumeVerification srv PurposePasswordReset email (pr_code input) (clk 0)) (\<lambda>_.
        bind (lift_result (map_sum Internal id (passwordx_Hash (as_lib srv) (pr_new_password input))))
      (\<lambda>hash. bind (db_call internal_of (UpdatePassword (u_id user) hash)) (\<lambda>_.
          db_call internal_of (RevokeAll (u_id user) (clk 1))))))) ?Q ?E" for f
    by (rule triple_bind[OF triple_lookup[OF refused] triple_bind[OF triple_consume writing]])
  show ?thesis
    unfolding ResetPassword_def seq_def refused_db_def FindByEmail_def LockByID_def norm bind_lift_Inr
    by (rule triple_bind[OF triple_opt_error triple_bind[OF triple_opt_error triple_bind[OF triple_lookup[OF refused] locked]]])
      (auto dest: validate_plain reads_before)
qed

subsection \<open>A sequence of attempts\<close>

definition spent :: "verification_code \<Rightarrow> bool" where
  "spent c \<longleftrightarrow> vc_consumed_at c \<noteq> None \<or> vc_failed_attempts c \<ge> 5"

lemma ResetPassword_split:
  "ResetPassword srv clk input = bind (reset_target srv input) (\<lambda>(email, user).
     seq (consumeVerification srv PurposePasswordReset email (pr_code input) (clk 0))
      (bind (lift_result (map_sum Internal id (passwordx_Hash (as_lib srv) (pr_new_password input)))) (\<lambda>hash.
       seq (db_call internal_of (UpdatePassword (u_id user) hash))
           (db_call internal_of (RevokeAll (u_id user) (clk 1))))))"
  by (simp add: ResetPassword_def reset_target_def bind_assoc seq_def bind_ret_left)

lemma reset_target_effect:
  assumes "normalizeEmail (as_lib srv) (pr_email input) = Inr email"
  shows "triple (reads q0) (reset_target srv input) (\<lambda>x q. fst x = email \<and> reads q0 q) (\<lambda>e q. plain_failure e)"
proof -
  have look: "triple (reads q0) (refused_db (query_first f)) (\<lambda>x q. reads q0 q) (\<lambda>e q. plain_failure e)" for f
  proof (rule tripleI)
    fix q x q' assume "reads q0 q" "refused_db (query_first f) q = (Inr x, q')"
    moreover have "reads q (snd (refused_db (query_first f) q))"
      using query_first_same[of "rq_db q" f] by (simp add: reads_def refused_db_def db_call_frame)
    ultimately show "reads q0 q'" by (metis reads_trans snd_conv)
  qed (auto simp: refused_db_def db_call_Inl_iff)
  have opt: "triple (reads q0) (opt_error r) (\<lambda>x q. reads q0 q) (\<lambda>e q. plain_failure e)"
    if "\<And>e. r = Some e \<Longrightarrow> plain_failure e" for r
    using that by (auto simp: opt_error_def triple_def ret_def fail_def split: option.split)
  show ?thesis
    unfolding reset_target_def assms seq_def FindByEmail_def LockByID_def bind_lift_Inr
    by (rule triple_bind[OF opt triple_bind[OF opt triple_bind[OF look triple_bind[OF look triple_ret]]]])
      (auto dest: validate_plain)
qed

text \<open>One request: what it compared decides what it left and how it answered.\<close>

lemma reset_request_step:
  fixes srv clk input d commitRes
  defines "cmp \<equiv> reset_comparison srv clk input d"
    and "out \<equiv> auth_request commitRes (ResetPassword srv clk input) d"
  assumes norm: "normalizeEmail (as_lib srv) (pr_email input) = Inr email" and commit: "driver_commit commitRes"
    and row: "code_row d email PurposePasswordReset = Some c"
  shows "cmp = None \<Longrightarrow> 400 \<le> answer_status out \<and> code_row (uo_db out) email PurposePasswordReset = Some c"
    "cmp = Some b \<Longrightarrow> code_open (clk 0) c \<and>
       b = (vc_digest c = codeDigest (as_lib srv) (as_cfg srv) PurposePasswordReset email (pr_code input))"
    "cmp = Some False \<Longrightarrow> 400 \<le> answer_status out \<and>
       (500 \<le> answer_status out \<and> code_row (uo_db out) email PurposePasswordReset = Some c \<or>
        code_row (uo_db out) email PurposePasswordReset =
          Some (save_code (c\<lparr>vc_failed_attempts := wrap32 (vc_failed_attempts c + 1)\<rparr>) (clk 0) c))"
    "cmp = Some True \<Longrightarrow> 400 \<le> answer_status out \<and> code_row (uo_db out) email PurposePasswordReset = Some c \<or>
        code_row (uo_db out) email PurposePasswordReset =
          Some (save_code (c\<lparr>vc_consumed_at := Some (clk 0)\<rparr>) (clk 0) c)"
proof -
  let ?P = "PurposePasswordReset"
  let ?good = "vc_digest c = codeDigest (as_lib srv) (as_cfg srv) ?P email (pr_code input)"
  obtain r q where run: "ResetPassword srv clk input (fresh_req d) = (r, q)" by fastforce
  have outcome: "reset_done srv email (pr_code input) (clk 0) (fresh_req d) r q"
  proof (cases r)
    case (Inl e)
    with triple_Inl[OF ResetPassword_effect[OF norm] reads_refl run[unfolded Inl]] show ?thesis by simp
  next
    case (Inr u)
    with triple_Inr[OF ResetPassword_effect[OF norm] reads_refl run[unfolded Inr]] show ?thesis by simp
  qed
  then have q: "rq_before q = []" and by_code: "consumed_by srv ?P email (pr_code input) (clk 0) (Some c) r (code_row (rq_db q) email ?P)"
    and renders: "\<And>e. r = Inl e \<Longrightarrow> 400 \<le> ae_status (apierr_As e)"
    using row by (simp_all add: reset_done_def renders_error_def)
  obtain rt q1 where target: "reset_target srv input (fresh_req d) = (rt, q1)" by fastforce
  have facts: "(cmp = None \<longrightarrow> (\<exists>e. r = Inl e \<and> \<not> ShouldCommitError e)) \<and>
     (\<forall>b. cmp = Some b \<longrightarrow> code_open (clk 0) c \<and> b = ?good) \<and>
     (cmp = Some False \<longrightarrow> r = Inl (PersistedErr code_refused) \<or> (\<exists>e. r = Inl (internal_of e)))"
  proof (cases rt)
    case (Inl e)
    with triple_Inl[OF reset_target_effect[OF norm] reads_refl target[unfolded Inl]] run target show ?thesis
      by (auto simp: cmp_def reset_comparison_def ResetPassword_split bind_run plain_failure_def)
  next
    case (Inr x)
    obtain user where x: "x = (email, user)" and q1: "reads (fresh_req d) q1"
      using triple_Inr[OF reset_target_effect[OF norm] reads_refl target[unfolded Inr]] by (cases x) auto
    obtain rc q2 where consume: "consumeVerification srv ?P email (pr_code input) (clk 0) q1 = (rc, q2)" by fastforce
    note answers = consume_answers[OF consume]
    have failed: "r = Inl e" if "rc = Inl e" for e
      using run target consume that by (simp add: ResetPassword_split bind_run seq_def Inr x)
    have cmp: "cmp = (case fst (found_or_none (LockExisting email ?P) q1) of
        Inr (Some c') \<Rightarrow> if code_open (clk 0) c'
          then Some (vc_digest c' = codeDigest (as_lib srv) (as_cfg srv) ?P email (pr_code input)) else None
      | _ \<Rightarrow> None)" using target by (simp add: cmp_def reset_comparison_def Inr x)
    obtain rf q3 where find: "found_or_none (LockExisting email ?P) q1 = (rf, q3)" by fastforce
    from find[unfolded LockExisting_row] show ?thesis
    proof (cases rule: found_or_none_cases)
      case (fault e)
      with answers failed cmp find have "cmp = None" "r = Inl (internal_of e)" by simp_all
      then show ?thesis using plain_failures(2)[of e] by (simp add: plain_failure_def)
    next
      case none
      with answers failed cmp find have "cmp = None" "r = Inl code_refused" by simp_all
      then show ?thesis using plain_failures(5) by (simp add: plain_failure_def)
    next
      case (some c')
      have "code_row (rq_db q1) email ?P = Some c" using q1 row by (simp add: reads_rows)
      with some(2) have c': "c' = c" by simp
      show ?thesis
      proof (cases "code_open (clk 0) c")
        case True
        with answers cmp find some(1) c' have a: "cmp = Some ?good"
          "(if ?good then rc = Inr () else rc = Inl (PersistedErr code_refused)) \<or> (\<exists>e. rc = Inl (internal_of e))"
          by simp_all
        from a(2) failed have "\<not> ?good \<longrightarrow> r = Inl (PersistedErr code_refused) \<or> (\<exists>e. r = Inl (internal_of e))"
          by (auto split: if_splits)
        with a(1) True show ?thesis by auto
      next
        case False
        with answers failed cmp find some(1) c' have "cmp = None" "r = Inl code_refused" by simp_all
        then show ?thesis using plain_failures(5) by (simp add: plain_failure_def)
      qed
    qed
  qed
  have undone: "code_row (rollback d d') email ?P = Some c" for d' using row by (simp add: rollback_def)
  have plain: "400 \<le> answer_status out \<and> code_row (uo_db out) email ?P = Some c"
    if "r = Inl e" "\<not> ShouldCommitError e" for e
    using auth_request_refused[where m = "ResetPassword srv clk input" and d = d and commitRes = commitRes, OF run[unfolded that(1)] that(2)] renders[OF that(1)] undone
    by (simp add: out_def)
  show "400 \<le> answer_status out \<and> code_row (uo_db out) email ?P = Some c" if "cmp = None"
    using facts that plain by blast
  show "code_open (clk 0) c \<and> b = ?good" if "cmp = Some b" using facts that by blast
  show "400 \<le> answer_status out \<and> (500 \<le> answer_status out \<and> code_row (uo_db out) email ?P = Some c \<or>
      code_row (uo_db out) email ?P = Some (save_code (c\<lparr>vc_failed_attempts := wrap32 (vc_failed_attempts c + 1)\<rparr>) (clk 0) c))"
    if "cmp = Some False"
  proof -
    from facts that consider (kept) "r = Inl (PersistedErr code_refused)" | (fault) e where "r = Inl (internal_of e)" by blast
    then show ?thesis
    proof cases
      case kept
      have st: "ae_status (apierr_As (PersistedErr code_refused)) = 400" by (simp add: apierr_As_def api_constructors)
      from auth_request_kept[where m = "ResetPassword srv clk input" and d = d and commitRes = commitRes, OF run[unfolded kept] q commit _ st] undone by_code kept show ?thesis
        by (auto simp: out_def consumed_by_def)
    next
      case fault
      have "\<not> ShouldCommitError (internal_of e)" using plain_failures(2)[of e] by (simp add: plain_failure_def)
      from auth_request_refused[where m = "ResetPassword srv clk input" and d = d and commitRes = commitRes, OF run[unfolded fault] this] undone show ?thesis
        by (simp add: out_def apierr_As_def api_constructors internal_api_def)
    qed
  qed
  show "400 \<le> answer_status out \<and> code_row (uo_db out) email ?P = Some c \<or>
      code_row (uo_db out) email ?P = Some (save_code (c\<lparr>vc_consumed_at := Some (clk 0)\<rparr>) (clk 0) c)"
    if "cmp = Some True"
  proof (cases r)
    case (Inl e)
    have "\<not> ShouldCommitError e" using facts that by_code Inl by (auto simp: consumed_by_def)
    then show ?thesis using plain Inl by blast
  next
    case (Inr u)
    from auth_request_Inr[where m = "ResetPassword srv clk input" and d = d and commitRes = commitRes, OF run[unfolded Inr] q commit] undone by_code Inr show ?thesis
      by (auto simp: out_def consumed_by_def)
  qed
qed

definition few_guesses :: "verification_code \<Rightarrow> (string \<Rightarrow> bool) \<Rightarrow> string list \<Rightarrow> (bool option \<times> nat) list \<Rightarrow> bool" where
  "few_guesses c good ks events \<longleftrightarrow>
     length (filter wrong_guess events) \<le> nat (5 - vc_failed_attempts c) \<and> length (filter succeeded events) \<le> 1 \<and>
     (spent c \<longrightarrow> list_all (\<lambda>ev. fst ev = None \<and> \<not> succeeded ev) events) \<and>
     (\<forall>i < length events. succeeded (events ! i) \<longrightarrow> fst (events ! i) = Some True \<and> good (ks ! i) \<and>
        length (filter wrong_guess (take i events)) < nat (5 - vc_failed_attempts c) \<and>
        list_all (\<lambda>ev. fst ev = None) (drop (Suc i) events))"

lemma few_guesses_Nil: "few_guesses c good [] []"
  by (simp add: few_guesses_def)

lemma few_guesses_other:
  assumes "\<not> succeeded ev" "\<not> wrong_guess ev" "spent c \<Longrightarrow> fst ev = None" "few_guesses c good ks events"
  shows "few_guesses c good (k # ks) (ev # events)"
  using assms by (auto simp: few_guesses_def nth_Cons split: nat.split)

lemma few_guesses_used:
  assumes "fst ev = Some True" "good k" "\<not> spent c" "few_guesses c' good ks events" "spent c'"
  shows "few_guesses c good (k # ks) (ev # events)"
proof -
  have none: "list_all (\<lambda>ev. fst ev = None \<and> \<not> succeeded ev) events" using assms(4,5) by (simp add: few_guesses_def)
  then have "filter wrong_guess events = []" "filter succeeded events = []" "list_all (\<lambda>ev. fst ev = None) events"
    "\<And>i. i < length events \<Longrightarrow> \<not> succeeded (events ! i)"
    by (auto simp: filter_empty_conv list_all_iff wrong_guess_def)
  then show ?thesis using assms(1-3)
    by (auto simp: few_guesses_def spent_def wrong_guess_def nth_Cons split: nat.split)
qed

lemma few_guesses_wrong:
  assumes "\<not> succeeded ev" "\<not> spent c" "few_guesses c' good ks events" "vc_failed_attempts c' = vc_failed_attempts c + 1"
  shows "few_guesses c good (k # ks) (ev # events)"
proof -
  have n: "nat (5 - vc_failed_attempts c) = Suc (nat (5 - vc_failed_attempts c'))"
    using assms(2,4) unfolding spent_def by linarith
  show ?thesis using assms n by (fastforce simp: few_guesses_def nth_Cons split: nat.split)
qed

text \<open>Resets for one address, with its clock, whose commits end as a driver's commits end.\<close>

definition resets_of :: "auth_service \<Rightarrow> string \<Rightarrow> reset_try \<Rightarrow> bool" where
  "resets_of srv email t = (case t of (commitRes, clk, input) \<Rightarrow>
     normalizeEmail (as_lib srv) (pr_email input) = Inr email \<and> driver_commit commitRes)"

lemma reset_requests_guesses:
  assumes "list_all (resets_of srv email) tries"
    and "code_row d email PurposePasswordReset = Some c" "0 \<le> vc_failed_attempts c"
  shows "few_guesses c (\<lambda>code. vc_digest c = codeDigest (as_lib srv) (as_cfg srv) PurposePasswordReset email code)
    (map (\<lambda>t. pr_code (snd (snd t))) tries) (fst (reset_requests srv tries d))"
  using assms
proof (induction tries arbitrary: d c)
  case Nil
  then show ?case by (simp add: few_guesses_Nil)
next
  case (Cons t tries)
  obtain commitRes clk input where t: "t = (commitRes, clk, input)" by (cases t)
  let ?out = "auth_request commitRes (ResetPassword srv clk input) d" and ?cmp = "reset_comparison srv clk input d"
  let ?ev = "(?cmp, answer_status ?out)"
  have "normalizeEmail (as_lib srv) (pr_email input) = Inr email" "driver_commit commitRes"
    using Cons.prems(1) by (simp_all add: t resets_of_def)
  note step = reset_request_step[where clk = clk, OF this Cons.prems(2)]
  have eq: "fst (reset_requests srv (t # tries) d) = ?ev # fst (reset_requests srv tries (uo_db ?out))"
    by (simp add: t Let_def split: prod.split)
  have IH: "few_guesses c' (\<lambda>code. vc_digest c' = codeDigest (as_lib srv) (as_cfg srv) PurposePasswordReset email code)
      (map (\<lambda>t. pr_code (snd (snd t))) tries) (fst (reset_requests srv tries (uo_db ?out)))"
    if "code_row (uo_db ?out) email PurposePasswordReset = Some c'" "0 \<le> vc_failed_attempts c'" for c'
    by (rule Cons.IH) (use Cons.prems that in simp_all)
  have live: "\<not> spent c" if "?cmp = Some b" for b
    using step(2)[OF that] by (simp add: spent_def code_open_def maxFailedAttempts_def)
  have same: ?case if "\<not> succeeded ?ev" "\<not> wrong_guess ?ev" "code_row (uo_db ?out) email PurposePasswordReset = Some c"
  proof -
    have "fst ?ev = None" if "spent c" using live that by (cases ?cmp) auto
    from few_guesses_other[OF \<open>\<not> succeeded ?ev\<close> \<open>\<not> wrong_guess ?ev\<close> this IH[OF that(3) Cons.prems(3)]]
    show ?thesis unfolding eq unfolding list.map t snd_conv .
  qed
  consider (none) "?cmp = None" | (wrong) "?cmp = Some False" | (right) "?cmp = Some True" by (metis (full_types) option.exhaust)
  then show ?case
  proof cases
    case none
    with step(1) show ?thesis by (intro same) (auto simp: succeeded_def wrong_guess_def)
  next
    case wrong
    let ?c = "save_code (c\<lparr>vc_failed_attempts := wrap32 (vc_failed_attempts c + 1)\<rparr>) (clk 0) c"
    have fails: "\<not> succeeded ?ev" using step(3)[OF wrong] by (simp add: succeeded_def)
    from step(3)[OF wrong] consider (fault) "500 \<le> answer_status ?out" "code_row (uo_db ?out) email PurposePasswordReset = Some c"
      | (counted) "code_row (uo_db ?out) email PurposePasswordReset = Some ?c" by blast
    then show ?thesis
    proof cases
      case fault
      then show ?thesis using fails by (intro same) (simp_all add: wrong_guess_def)
    next
      case counted
      have dig: "vc_digest ?c = vc_digest c" "vc_failed_attempts ?c = vc_failed_attempts c + 1"
        using live[OF wrong] Cons.prems(3) by (simp_all add: spent_def save_code_def wrap32_id)
      then have "0 \<le> vc_failed_attempts ?c" using Cons.prems(3) by simp
      from few_guesses_wrong[OF fails live[OF wrong] IH[OF counted this, unfolded dig(1)] dig(2)]
      show ?thesis unfolding eq unfolding list.map t snd_conv .
    qed
  next
    case right
    let ?c = "save_code (c\<lparr>vc_consumed_at := Some (clk 0)\<rparr>) (clk 0) c"
    have good: "vc_digest c = codeDigest (as_lib srv) (as_cfg srv) PurposePasswordReset email (pr_code input)"
      using step(2)[OF right] by blast
    from step(4)[OF right] consider (fault) "400 \<le> answer_status ?out" "code_row (uo_db ?out) email PurposePasswordReset = Some c"
      | (used) "code_row (uo_db ?out) email PurposePasswordReset = Some ?c" by blast
    then show ?thesis
    proof cases
      case fault
      then show ?thesis using right by (intro same) (simp_all add: succeeded_def wrong_guess_def)
    next
      case used
      have sp: "spent ?c" by (simp add: spent_def save_code_def)
      have dig: "vc_digest ?c = vc_digest c" "vc_failed_attempts ?c = vc_failed_attempts c" by (simp_all add: save_code_def)
      have "fst ?ev = Some True" using right by simp
      from few_guesses_used[OF this good live[OF right] IH[OF used, unfolded dig, OF Cons.prems(3)] sp]
      show ?thesis unfolding eq unfolding list.map t snd_conv .
    qed
  qed
qed

text \<open>
  C26: a reset code cannot be guessed.  Whatever sequence of password resets is submitted for an
  address while its challenge is not replaced, as whole requests, with database failures anywhere
  in them and with commits that fail or whose reply is lost: at most one succeeds; at most five
  requests, less the attempts counted before, compared a wrong code with the stored digest and
  were answered with anything but a server error; the one that succeeds compared a code with the
  stored digest while that budget was not used up; and after it no request compares a code any
  more.  The wrong attempts count because the unit of work keeps the counter of a request it
  answers with 400.  A request that the database fails after the comparison answers 500; its
  attempt may be uncounted, so every further guess costs one such failure.
\<close>

theorem ResetPassword_guessing:
  assumes "list_all (resets_of srv email) tries"
    and "code_row d email PurposePasswordReset = Some c" and "0 \<le> vc_failed_attempts c"
    and "reset_requests srv tries d = (events, d')"
  shows "length events = length tries \<and>
    length (filter succeeded events) \<le> 1 \<and>
    length (filter wrong_guess events) \<le> nat (5 - vc_failed_attempts c) \<and>
    length (filter (\<lambda>ev. fst ev = Some False) events) \<le> 5 + length (filter (\<lambda>ev. 500 \<le> snd ev) events) \<and>
    (\<forall>i < length events. succeeded (events ! i) \<longrightarrow>
       fst (events ! i) = Some True \<and>
       vc_digest c = codeDigest (as_lib srv) (as_cfg srv) PurposePasswordReset email (pr_code (snd (snd (tries ! i)))) \<and>
       length (filter wrong_guess (take i events)) < nat (5 - vc_failed_attempts c) \<and>
       list_all (\<lambda>ev. fst ev = None) (drop (Suc i) events))"
proof -
  have len: "length (fst (reset_requests srv ts d)) = length ts" for ts d
    by (induction ts arbitrary: d) (auto simp: Let_def split: prod.split, metis fst_conv)
  have split_wrong: "length (filter (\<lambda>ev. fst ev = Some False) es) \<le> length (filter wrong_guess es) + length (filter (\<lambda>ev. 500 \<le> snd ev) es)"
    for es by (induction es) (auto simp: wrong_guess_def)
  have few: "few_guesses c (\<lambda>code. vc_digest c = codeDigest (as_lib srv) (as_cfg srv) PurposePasswordReset email code)
    (map (\<lambda>t. pr_code (snd (snd t))) tries) events"
    using reset_requests_guesses[OF assms(1-3)] assms(4) by simp
  have "length events = length tries" using len[of tries d] assms(4) by simp
  moreover have "length (filter (\<lambda>ev. fst ev = Some False) events) \<le> 5 + length (filter (\<lambda>ev. 500 \<le> snd ev) events)"
    using few split_wrong[of events] assms(3) by (auto simp: few_guesses_def)
  ultimately show ?thesis using few by (auto simp: few_guesses_def)
qed

definition sample_user :: user where
  "sample_user = (new_user ''a@b'' ''oldpassword'' ''ann'' None)\<lparr>u_id := 1\<rparr>"

definition reset_challenge :: verification_code where
  "reset_challenge = (new_code 1 ''a@b'' PurposePasswordReset 0)\<lparr>vc_expires_at := 600000000000,
     vc_digest := codeDigest sample_lib sample_cfg PurposePasswordReset ''a@b'' ''000042''\<rparr>"

definition reset_db :: db where
  "reset_db = empty_db\<lparr>users := [sample_user], codes := [reset_challenge]\<rparr>"

definition sample_attempt :: "string \<Rightarrow> reset_try" where
  "sample_attempt code = (CommitOk, \<lambda>n. int n, \<lparr>pr_email = ''a@b'', pr_code = code, pr_new_password = ''newpassword''\<rparr>)"

theorem ResetPassword_guessing_witness:
  "code_row reset_db ''a@b'' PurposePasswordReset = Some reset_challenge \<and>
   fst (reset_requests sample_service [sample_attempt ''000041'', sample_attempt ''000042'', sample_attempt ''000043''] reset_db) =
     [(Some False, 400), (Some True, 200), (None, 400)] \<and>
   length (filter wrong_guess (fst (reset_requests sample_service
     [sample_attempt ''000041'', sample_attempt ''000042'', sample_attempt ''000043''] reset_db))) \<le> 5"
proof -
  let ?tries = "[sample_attempt ''000041'', sample_attempt ''000042'', sample_attempt ''000043'']"
  have n: "list_all (resets_of sample_service ''a@b'') ?tries" by code_simp
  have row: "code_row reset_db ''a@b'' PurposePasswordReset = Some reset_challenge"
    by (simp add: code_row_def first_by_def code_key_def reset_db_def reset_challenge_def new_code_def empty_db_def)
  have pos: "vc_failed_attempts reset_challenge = 0" by (simp add: reset_challenge_def new_code_def)
  have events: "fst (reset_requests sample_service ?tries reset_db) = [(Some False, 400), (Some True, 200), (None, 400)]"
    by code_simp
  have "length (filter wrong_guess (fst (reset_requests sample_service ?tries reset_db))) \<le> 5"
    using ResetPassword_guessing[OF n row _ prod.collapse[symmetric]] pos by simp
  with row events show ?thesis by blast
qed

end
