(* ===== verification/Auth_Sessions.thy ===== *)
theory Auth_Sessions
  imports Auth_Reset
begin

section \<open>Sessions: what makes a token good, and what ends it\<close>

text \<open>
  Properties of the session table and of the tokens bound to it: the updates respect the
  table's constraints, a token is accepted only for a live session of an account in good
  standing, the tokens a login returns are accepted, and after signing out everywhere or
  resetting the password no token of the account is.
\<close>

subsection \<open>The session table\<close>

text \<open>All constraints at once: the row checks, the primary key and the unique index on the digest.\<close>

definition sessions_inv :: "db \<Rightarrow> bool" where
  "sessions_inv s \<longleftrightarrow> sessions_ok s \<and> distinct (map s_id (sessions s)) \<and>
     distinct (map s_refresh_digest (sessions s))"

lemma sessions_inv_same: "sessions s' = sessions s \<Longrightarrow> sessions_inv s' = sessions_inv s"
  by (simp add: sessions_inv_def sessions_ok_def)

lemma sessions_inv_stmts [simp]: "sessions_inv (s\<lparr>db_stmts := n\<rparr>) = sessions_inv s"
  by (rule sessions_inv_same) simp




















subsection \<open>Looking up an identity\<close>

definition identity_pairs :: "(session \<Rightarrow> bool) \<Rightarrow> time \<Rightarrow> db \<Rightarrow> (session \<times> user) set" where
  "identity_pairs p now s = {(r, u). r \<in> set (sessions s) \<and> p r \<and> live now r \<and> u \<in> set (users s) \<and>
     u_id u = s_user_id r \<and> u_deleted_at u = None \<and> \<not> ban_active u now}"

lemma identity_join_set: "set (identity_join p now s) = identity_pairs p now s"
  by (auto simp: identity_join_def identity_pairs_def)

lemma find_identity_Some:
  assumes "find_identity p now s = Some i"
  obtains r u where "(r, u) \<in> identity_pairs p now s" "i = identity_row s r u"
proof -
  from assms obtain r u rest where l: "identity_join p now s = (r, u) # rest" "i = identity_row s r u"
    unfolding find_identity_def by (auto split: list.splits)
  from arg_cong[OF l(1), of set] have "(r, u) \<in> identity_pairs p now s" unfolding identity_join_set by simp
  with l(2) that show thesis by blast
qed

lemma find_identity_None: "find_identity p now s = None \<longleftrightarrow> identity_pairs p now s = {}"
proof -
  have "find_identity p now s = None \<longleftrightarrow> identity_join p now s = []"
    unfolding find_identity_def by (auto split: list.splits)
  then show ?thesis by (metis identity_join_set set_empty)
qed

lemma find_identity_unique:
  assumes "identity_pairs p now s = {(r, u)}"
  shows "find_identity p now s = Some (identity_row s r u)"
proof (cases "find_identity p now s")
  case None
  with assms show ?thesis by (simp add: find_identity_None)
next
  case (Some i)
  with assms show ?thesis by (auto elim: find_identity_Some)
qed

lemma find_identity_stmts [simp]: "find_identity p now (s\<lparr>db_stmts := n\<rparr>) = find_identity p now s"
proof -
  have "identity_join p now (s\<lparr>db_stmts := n\<rparr>) = identity_join p now s" by (simp add: identity_join_def cong: if_cong)
  moreover have "identity_row (s\<lparr>db_stmts := n\<rparr>) r u = identity_row s r u" for r u
    by (simp add: identity_row_def roles_of_def)
  ultimately show ?thesis by (simp add: find_identity_def split: list.split)
qed

text \<open>What an accepted token stands for.\<close>

definition good_standing :: "db \<Rightarrow> time \<Rightarrow> session \<Rightarrow> user \<Rightarrow> bool" where
  "good_standing d now r u \<longleftrightarrow> r \<in> set (sessions d) \<and> live now r \<and> u \<in> set (users d) \<and> u_id u = s_user_id r \<and>
     u_deleted_at u = None \<and> \<not> ban_active u now"

lemma token_ids_Inr:
  assumes "token_ids srv now token typ = Inr (userID, sessionID)"
  obtains claims where "lib_jwt_parse (as_lib srv) (cfg_jwt_secret (as_cfg srv)) now token = JwtClaims claims"
    "cl_type claims = typ" "ParseInt (cl_subject claims) = Some (int userID)" "cl_sid claims = int sessionID"
    "0 < userID" "0 < sessionID"
  using assms
  by (auto simp: token_ids_def jwtx_Parse_def claimIDs_def Claims_UserID_def
      split: sum.splits jwt_outcome.splits if_splits option.splits)

lemma Authenticate_Inr:
  assumes "Authenticate srv clk token q = (Inr pri, q')"
  obtains userID sessionID r u where "token_ids srv (clk 0) token TypeAccess = Inr (userID, sessionID)"
    "good_standing (rq_db q) (clk 1) r u" "s_id r = sessionID" "s_user_id r = userID"
    "pri = \<lparr>pp_user = u\<lparr>u_roles := Some (roles_of (rq_db q) (u_id u))\<rparr>, pp_session_id = sessionID\<rparr>"
proof -
  from assms obtain ids q1 i where t: "token_ids srv (clk 0) token TypeAccess = Inr ids"
    and f: "db_call sessionLookupError (FindActiveIdentity (snd ids) (fst ids) (clk 1)) q = (Inr i, q1)"
    and p: "pri = \<lparr>pp_user = id_user i, pp_session_id = s_id (id_session i)\<rparr>"
    by (auto simp: Authenticate_def Let_def seq_def deferSessionTouch_def BeforeCommit_def ret_def
        split: prod.splits elim!: bind_InrE)
  from f have "find_identity (\<lambda>r. s_id r = snd ids \<and> s_user_id r = fst ids) (clk 1) (rq_db q) = Some i"
    by (auto simp: db_call_Inr_iff FindActiveIdentity_def query_first_Inr_iff)
  then obtain r u where "(r, u) \<in> identity_pairs (\<lambda>r. s_id r = snd ids \<and> s_user_id r = fst ids) (clk 1) (rq_db q)"
    "i = identity_row (rq_db q) r u" by (rule find_identity_Some)
  with t p that[of "fst ids" "snd ids" r u] show thesis
    by (simp add: identity_pairs_def good_standing_def identity_row_def)
qed

lemma Refresh_Inr:
  assumes "Refresh srv clk token q = (Inr res, q')"
  obtains userID sessionID r u where "token_ids srv (clk 0) token TypeRefresh = Inr (userID, sessionID)"
    "good_standing (rq_db q) (clk 1) r u" "s_id r = sessionID" "s_user_id r = userID"
    "s_refresh_digest r = jwtx_Digest (as_lib srv) token" "tr_refresh_token res = token"
    "SignAt (as_lib srv) (cfg_jwt_secret (as_cfg srv)) (int userID) (int sessionID) TypeAccess (clk 1)
       (AccessTokenTTL (as_cfg srv)) = Inr (tr_token res)"
proof -
  from assms obtain ids q1 i where t: "token_ids srv (clk 0) token TypeRefresh = Inr ids"
    and f: "db_call sessionLookupError (FindRefreshIdentity (snd ids) (fst ids) (jwtx_Digest (as_lib srv) token) (clk 1)) q = (Inr i, q1)"
    and s: "SignAt (as_lib srv) (cfg_jwt_secret (as_cfg srv)) (int (u_id (id_user i))) (int (s_id (id_session i))) TypeAccess (clk 1)
       (AccessTokenTTL (as_cfg srv)) = Inr (tr_token res)" "tr_refresh_token res = token"
    by (auto simp: Refresh_def Let_def seq_def deferSessionTouch_def BeforeCommit_def ret_def fail_def
        split: prod.splits if_splits elim!: bind_InrE)
  from f have "find_identity (\<lambda>r. s_id r = snd ids \<and> s_user_id r = fst ids \<and> s_refresh_digest r = jwtx_Digest (as_lib srv) token)
      (clk 1) (rq_db q) = Some i"
    by (auto simp: db_call_Inr_iff FindRefreshIdentity_def query_first_Inr_iff)
  then obtain r u where "(r, u) \<in> identity_pairs (\<lambda>r. s_id r = snd ids \<and> s_user_id r = fst ids \<and>
      s_refresh_digest r = jwtx_Digest (as_lib srv) token) (clk 1) (rq_db q)"
    "i = identity_row (rq_db q) r u" by (rule find_identity_Some)
  with t s that[of "fst ids" "snd ids" r u] show thesis
    by (simp add: identity_pairs_def good_standing_def identity_row_def)
qed

text \<open>
  C21: a token alone opens nothing.  A request is authenticated only with a token of type access
  whose claims name an existing session of an existing account, the session neither revoked nor
  expired, the account neither deleted nor banned at that moment, and the principal is that
  account with the roles bound to it now.  Refreshing demands the same of a token of type refresh
  and that its digest is the stored one, and the new access token names the same session.
\<close>

theorem token_needs_live_session:
  "(Authenticate srv clk token q = (Inr pri, q') \<longrightarrow>
      (\<exists>r u claims. good_standing (rq_db q) (clk 1) r u \<and>
         lib_jwt_parse (as_lib srv) (cfg_jwt_secret (as_cfg srv)) (clk 0) token = JwtClaims claims \<and>
         cl_type claims = TypeAccess \<and> cl_sid claims = int (s_id r) \<and> ParseInt (cl_subject claims) = Some (int (u_id u)) \<and>
         pri = \<lparr>pp_user = u\<lparr>u_roles := Some (roles_of (rq_db q) (u_id u))\<rparr>, pp_session_id = s_id r\<rparr>)) \<and>
   (Refresh srv clk token q = (Inr res, q') \<longrightarrow>
      (\<exists>r u claims. good_standing (rq_db q) (clk 1) r u \<and>
         lib_jwt_parse (as_lib srv) (cfg_jwt_secret (as_cfg srv)) (clk 0) token = JwtClaims claims \<and>
         cl_type claims = TypeRefresh \<and> cl_sid claims = int (s_id r) \<and> ParseInt (cl_subject claims) = Some (int (u_id u)) \<and>
         s_refresh_digest r = jwtx_Digest (as_lib srv) token \<and> tr_refresh_token res = token \<and>
         SignAt (as_lib srv) (cfg_jwt_secret (as_cfg srv)) (int (u_id u)) (int (s_id r)) TypeAccess (clk 1)
           (AccessTokenTTL (as_cfg srv)) = Inr (tr_token res)))"
proof (intro conjI impI)
  assume "Authenticate srv clk token q = (Inr pri, q')"
  then obtain userID sessionID r u where a: "token_ids srv (clk 0) token TypeAccess = Inr (userID, sessionID)"
    "good_standing (rq_db q) (clk 1) r u" "s_id r = sessionID" "s_user_id r = userID"
    "pri = \<lparr>pp_user = u\<lparr>u_roles := Some (roles_of (rq_db q) (u_id u))\<rparr>, pp_session_id = sessionID\<rparr>"
    by (rule Authenticate_Inr)
  from a(1) obtain claims where "lib_jwt_parse (as_lib srv) (cfg_jwt_secret (as_cfg srv)) (clk 0) token = JwtClaims claims"
    "cl_type claims = TypeAccess" "ParseInt (cl_subject claims) = Some (int userID)" "cl_sid claims = int sessionID"
    by (rule token_ids_Inr)
  with a show "\<exists>r u claims. good_standing (rq_db q) (clk 1) r u \<and>
         lib_jwt_parse (as_lib srv) (cfg_jwt_secret (as_cfg srv)) (clk 0) token = JwtClaims claims \<and>
         cl_type claims = TypeAccess \<and> cl_sid claims = int (s_id r) \<and> ParseInt (cl_subject claims) = Some (int (u_id u)) \<and>
         pri = \<lparr>pp_user = u\<lparr>u_roles := Some (roles_of (rq_db q) (u_id u))\<rparr>, pp_session_id = s_id r\<rparr>"
    by (intro exI[of _ r] exI[of _ u] exI[of _ claims]) (auto simp: good_standing_def)
next
  assume "Refresh srv clk token q = (Inr res, q')"
  then obtain userID sessionID r u where a: "token_ids srv (clk 0) token TypeRefresh = Inr (userID, sessionID)"
    "good_standing (rq_db q) (clk 1) r u" "s_id r = sessionID" "s_user_id r = userID"
    "s_refresh_digest r = jwtx_Digest (as_lib srv) token" "tr_refresh_token res = token"
    "SignAt (as_lib srv) (cfg_jwt_secret (as_cfg srv)) (int userID) (int sessionID) TypeAccess (clk 1)
       (AccessTokenTTL (as_cfg srv)) = Inr (tr_token res)"
    by (rule Refresh_Inr)
  from a(1) obtain claims where "lib_jwt_parse (as_lib srv) (cfg_jwt_secret (as_cfg srv)) (clk 0) token = JwtClaims claims"
    "cl_type claims = TypeRefresh" "ParseInt (cl_subject claims) = Some (int userID)" "cl_sid claims = int sessionID"
    by (rule token_ids_Inr)
  with a show "\<exists>r u claims. good_standing (rq_db q) (clk 1) r u \<and>
         lib_jwt_parse (as_lib srv) (cfg_jwt_secret (as_cfg srv)) (clk 0) token = JwtClaims claims \<and>
         cl_type claims = TypeRefresh \<and> cl_sid claims = int (s_id r) \<and> ParseInt (cl_subject claims) = Some (int (u_id u)) \<and>
         s_refresh_digest r = jwtx_Digest (as_lib srv) token \<and> tr_refresh_token res = token \<and>
         SignAt (as_lib srv) (cfg_jwt_secret (as_cfg srv)) (int (u_id u)) (int (s_id r)) TypeAccess (clk 1)
           (AccessTokenTTL (as_cfg srv)) = Inr (tr_token res)"
    by (intro exI[of _ r] exI[of _ u] exI[of _ claims]) (auto simp: good_standing_def)
qed

subsection \<open>Opening a session\<close>

lemma FindAvatarURL_read: "FindAvatarURL i s = (Inr x, t) \<Longrightarrow> same_tables s t"
  by (auto simp: FindAvatarURL_def query_run same_tables_def split: if_splits)

lemma FindRoles_read: "FindRoles i s = (Inr x, t) \<Longrightarrow> same_tables s t"
  by (auto simp: FindRoles_def query_run same_tables_def split: if_splits)

lemma userView_Inr:
  assumes "userView user q = (Inr v, q')"
  shows "uv_id v = u_id user" "same_tables (rq_db q) (rq_db q')" "rq_before q' = rq_before q"
proof -
  from assms obtain a q1 roles where 1: "db_call internal_of (FindAvatarURL (u_id user)) q = (Inr a, q1)"
    and 2: "(case u_roles user of Some roles \<Rightarrow> ret roles | None \<Rightarrow> db_call internal_of (FindRoles (u_id user))) q1 = (Inr roles, q')"
    and v: "uv_id v = u_id user"
    unfolding userView_def by (elim bind_InrE) (auto simp: ret_def)
  from 1 have "same_tables (rq_db q) (rq_db q1)" "rq_before q1 = rq_before q"
    by (auto simp: db_call_Inr_iff dest: FindAvatarURL_read)
  moreover from 2 have "same_tables (rq_db q1) (rq_db q')" "rq_before q' = rq_before q1"
    by (auto simp: db_call_Inr_iff ret_def dest: FindRoles_read split: option.splits)
  ultimately show "uv_id v = u_id user" "same_tables (rq_db q) (rq_db q')" "rq_before q' = rq_before q"
    using v same_tables_trans by auto
qed

lemma session_Create_Inr:
  assumes "session_Create r s = (Inr i, t)"
  shows "i = next_id s_id (sessions s)" "t = s\<lparr>db_stmts := Suc (db_stmts s), sessions := sessions s @ [r\<lparr>s_id := i\<rparr>]\<rparr>"
    "session_check (r\<lparr>s_id := i\<rparr>)" "\<exists>u\<in>set (users s). u_id u = s_user_id r"
  using assms by (auto simp: session_Create_def stmt_run Let_def list_ex_iff split: if_splits)

lemma SetRefreshDigest_Inr:
  assumes "SetRefreshDigest i digest s = (Inr u, t)"
  shows "t = s\<lparr>db_stmts := Suc (db_stmts s), sessions := upd_where (\<lambda>r. s_id r = i) (\<lambda>r. r\<lparr>s_refresh_digest := digest\<rparr>) (sessions s)\<rparr>"
    "sessions_ok t"
  using assms by (auto simp: SetRefreshDigest_def stmt_run Let_def split: if_splits)

definition opened :: "auth_service \<Rightarrow> user \<Rightarrow> ClientInfo \<Rightarrow> time \<Rightarrow> db \<Rightarrow> AuthResult \<Rightarrow> session" where
  "opened srv user client now d res =
     (newSession (u_id user) client (jwtx_Digest (as_lib srv) (ar_refresh_token res)) now (RefreshTokenTTL (as_cfg srv)))
       \<lparr>s_id := next_id s_id (sessions d)\<rparr>"

lemma newSession_fields [simp]:
  "s_user_id (newSession u client digest now ttl) = u" "s_revoked_at (newSession u client digest now ttl) = None"
  "s_expires_at (newSession u client digest now ttl) = now + ttl" "s_created_at (newSession u client digest now ttl) = now"
  "s_refresh_digest (newSession u client digest now ttl) = digest"
  by (simp_all add: newSession_def Let_def)

lemma newSession_digest:
  "(newSession u client d1 now ttl)\<lparr>s_id := i, s_refresh_digest := d2\<rparr> = (newSession u client d2 now ttl)\<lparr>s_id := i\<rparr>"
  by (simp add: newSession_def Let_def)

lemma issueSession_Inr:
  assumes "issueSession srv rnd user client now q = (Inr res, q')"
  shows "same_tables ((rq_db q)\<lparr>sessions := sessions (rq_db q) @ [opened srv user client now (rq_db q) res]\<rparr>) (rq_db q')"
    "uv_id (ar_user res) = u_id user" "int (u_id user) \<le> MaxInt64" "int (next_id s_id (sessions (rq_db q))) \<le> MaxInt64"
    "SignAt (as_lib srv) (cfg_jwt_secret (as_cfg srv)) (int (u_id user)) (int (next_id s_id (sessions (rq_db q)))) TypeRefresh now
       (RefreshTokenTTL (as_cfg srv)) = Inr (ar_refresh_token res)"
    "SignAt (as_lib srv) (cfg_jwt_secret (as_cfg srv)) (int (u_id user)) (int (next_id s_id (sessions (rq_db q)))) TypeAccess now
       (AccessTokenTTL (as_cfg srv)) = Inr (ar_token res)"
    "rq_before q' = rq_before q"
proof -
  let ?ttl = "RefreshTokenTTL (as_cfg srv)"
  from assms obtain ph i q1 q2 where
    c: "db_call internal_of (session_Create (newSession (u_id user) client ph now ?ttl)) q = (Inr i, q1)"
    and m: "\<not> (int (u_id user) > MaxInt64 \<or> int i > MaxInt64)"
    and r: "SignAt (as_lib srv) (cfg_jwt_secret (as_cfg srv)) (int (u_id user)) (int i) TypeRefresh now ?ttl = Inr (ar_refresh_token res)"
    and a: "SignAt (as_lib srv) (cfg_jwt_secret (as_cfg srv)) (int (u_id user)) (int i) TypeAccess now (AccessTokenTTL (as_cfg srv)) = Inr (ar_token res)"
    and d: "db_call internal_of (SetRefreshDigest i (jwtx_Digest (as_lib srv) (ar_refresh_token res))) q1 = (Inr (), q2)"
    and v: "userView user q2 = (Inr (ar_user res), q')"
    by (auto simp: issueSession_def Let_def seq_def ret_def fail_def split: if_splits elim!: bind_InrE)
  from c have c': "session_Create (newSession (u_id user) client ph now ?ttl) (rq_db q) = (Inr i, rq_db q1)" "rq_before q1 = rq_before q"
    by (auto simp: db_call_Inr_iff)
  from d have d': "SetRefreshDigest i (jwtx_Digest (as_lib srv) (ar_refresh_token res)) (rq_db q1) = (Inr (), rq_db q2)" "rq_before q2 = rq_before q1"
    by (auto simp: db_call_Inr_iff)
  note i = session_Create_Inr[OF c'(1)] and t = SetRefreshDigest_Inr[OF d'(1)] and v' = userView_Inr[OF v]
  have "s_id x \<noteq> i" if "x \<in> set (sessions (rq_db q))" for x
    using next_id_fresh[OF that, of s_id] i(1) by simp
  then have "upd_where (\<lambda>x. s_id x = i) (\<lambda>x. x\<lparr>s_refresh_digest := jwtx_Digest (as_lib srv) (ar_refresh_token res)\<rparr>) (sessions (rq_db q)) =
      sessions (rq_db q)" by (simp add: upd_where_unmatched)
  then have "same_tables ((rq_db q)\<lparr>sessions := sessions (rq_db q) @ [opened srv user client now (rq_db q) res]\<rparr>) (rq_db q2)"
    using i(2) t(1) i(1) by (simp add: same_tables_def upd_where_simps opened_def newSession_digest)
  with v'(2) show "same_tables ((rq_db q)\<lparr>sessions := sessions (rq_db q) @ [opened srv user client now (rq_db q) res]\<rparr>) (rq_db q')"
    by (blast intro: same_tables_trans)
  show "uv_id (ar_user res) = u_id user" using v'(1) .
  show "int (u_id user) \<le> MaxInt64" "int (next_id s_id (sessions (rq_db q))) \<le> MaxInt64" using m i(1) by simp_all
  show "SignAt (as_lib srv) (cfg_jwt_secret (as_cfg srv)) (int (u_id user)) (int (next_id s_id (sessions (rq_db q)))) TypeRefresh now
       ?ttl = Inr (ar_refresh_token res)"
    "SignAt (as_lib srv) (cfg_jwt_secret (as_cfg srv)) (int (u_id user)) (int (next_id s_id (sessions (rq_db q)))) TypeAccess now
       (AccessTokenTTL (as_cfg srv)) = Inr (ar_token res)" using r a i(1) by simp_all
  show "rq_before q' = rq_before q" using v'(3) d'(2) c'(2) by simp
qed

subsection \<open>Logging in\<close>

definition names_account :: "auth_service \<Rightarrow> db \<Rightarrow> string \<Rightarrow> user \<Rightarrow> bool" where
  "names_account srv d identifier u \<longleftrightarrow>
     (if CHR ''@'' \<in> set (TrimSpace identifier)
      then \<exists>email. normalizeEmail (as_lib srv) (TrimSpace identifier) = Inr email \<and>
                    domainAllowed (as_lib srv) (as_cfg srv) email \<and> db_lower d (u_email u) = db_lower d email
      else \<exists>name. normalizeUsername (as_lib srv) (TrimSpace identifier) = Inr name \<and>
                   db_name_fold d (u_name u) = db_name_fold d name)"

lemma names_account_same: "same_tables d d' \<Longrightarrow> names_account srv d' identifier u = names_account srv d identifier u"
  unfolding same_tables_iff names_account_def by (elim exE) simp

lemma load_user_simps [simp]:
  "u_id (load_user u) = u_id u" "u_password_hash (load_user u) = u_password_hash u" "u_deleted_at (load_user u) = u_deleted_at u"
  "u_email (load_user u) = u_email u" "u_name (load_user u) = u_name u"
  "banned (load_user u) now = banned u now"
  by (simp_all add: load_user_def banned_def)

lemma first_user_Inr:
  assumes "query_first (\<lambda>s. map_option load_user (first_by u_id (p s) (users s))) s = (Inr x, t)"
    and "\<And>n. p (s\<lparr>db_stmts := n\<rparr>) = p s"
  shows "\<exists>u\<in>set (users s). x = load_user u \<and> p s u" "same_tables s t"
  using assms by (auto simp: query_first_Inr_iff same_tables_def) (metis first_by_Some(1,2))

lemma findLoginUser_Inr:
  assumes "findLoginUser srv identifier q = (Inr x, q')"
  shows "\<exists>u\<in>set (users (rq_db q)). x = load_user u \<and> u_deleted_at u = None \<and> names_account srv (rq_db q) identifier u"
    "same_tables (rq_db q) (rq_db q')" "rq_before q' = rq_before q"
proof -
  let ?id = "TrimSpace identifier"
  have "(\<exists>u\<in>set (users (rq_db q)). x = load_user u \<and> u_deleted_at u = None \<and> names_account srv (rq_db q) identifier u) \<and>
      same_tables (rq_db q) (rq_db q') \<and> rq_before q' = rq_before q"
  proof (cases "CHR ''@'' \<in> set ?id")
    case True
    with assms obtain email where e: "normalizeEmail (as_lib srv) ?id = Inr email" "domainAllowed (as_lib srv) (as_cfg srv) email"
      and f: "db_call RepoErr (FindByEmail email False) q = (Inr x, q')"
      by (auto simp: findLoginUser_def Let_def fail_def split: if_splits sum.splits)
    from f have f': "FindByEmail email False (rq_db q) = (Inr x, rq_db q')" "rq_before q' = rq_before q" by (auto simp: db_call_Inr_iff)
    from first_user_Inr[OF f'(1)[unfolded FindByEmail_def]] e True f'(2) show ?thesis
      by (auto simp: names_account_def)
  next
    case False
    with assms obtain name where n: "normalizeUsername (as_lib srv) ?id = Inr name"
      and f: "db_call RepoErr (FindByUsername name) q = (Inr x, q')"
      by (auto simp: findLoginUser_def Let_def fail_def split: if_splits sum.splits)
    from f have f': "FindByUsername name (rq_db q) = (Inr x, rq_db q')" "rq_before q' = rq_before q" by (auto simp: db_call_Inr_iff)
    from first_user_Inr[OF f'(1)[unfolded FindByUsername_def]] n False f'(2) show ?thesis
      by (auto simp: names_account_def)
  qed
  then show "\<exists>u\<in>set (users (rq_db q)). x = load_user u \<and> u_deleted_at u = None \<and> names_account srv (rq_db q) identifier u"
    "same_tables (rq_db q) (rq_db q')" "rq_before q' = rq_before q" by blast+
qed

lemma users_same: "same_tables d d' \<Longrightarrow> users d' = users d" "same_tables d d' \<Longrightarrow> sessions d' = sessions d"
  by (auto simp: same_tables_iff)

lemma same_tables_sessions: "same_tables d d' \<Longrightarrow> same_tables (d\<lparr>sessions := x\<rparr>) (d'\<lparr>sessions := x\<rparr>)"
proof -
  assume "same_tables d d'"
  then obtain n where "d' = d\<lparr>db_stmts := n\<rparr>" by (auto simp: same_tables_iff)
  then show ?thesis unfolding same_tables_iff by (intro exI[of _ n]) simp
qed

lemma Login_Inr:
  assumes keys: "distinct (map u_id (users (rq_db q)))" and run: "Login srv clk rnd input client q = (Inr res, q')"
  obtains u q2 where "u \<in> set (users (rq_db q))" "u_deleted_at u = None"
    "names_account srv (rq_db q) (li_identifier input) u"
    "passwordx_Verify (as_lib srv) (li_password input) (u_password_hash u)" "\<not> banned u (clk 0)"
    "same_tables (rq_db q) (rq_db q2)" "rq_before q2 = rq_before q"
    "issueSession srv rnd (load_user u) client (clk 1) q2 = (Inr res, q')"
proof -
  from run have "validatePassword (li_password input) False = None"
    by (auto simp: Login_def fail_def split: option.splits)
  with run obtain found q1 user q2 again q3 where
    f: "findLoginUser srv (li_identifier input) q = (Inr found, q1)"
    and l: "credentials_db (LockByID (u_id found)) q1 = (Inr user, q2)"
    and a: "findLoginUser srv (li_identifier input) q2 = (Inr again, q3)" "u_id again = u_id user"
    and p: "passwordx_Verify (as_lib srv) (li_password input) (u_password_hash user)" "\<not> banned user (clk 0)"
    and i: "issueSession srv rnd user client (clk 1) q3 = (Inr res, q')"
    by (auto simp: Login_def map_err_Inr_iff attempt_def fail_def split: sum.splits prod.splits if_splits elim!: bind_InrE)
  from l have l': "LockByID (u_id found) (rq_db q1) = (Inr user, rq_db q2)" "rq_before q2 = rq_before q1"
    by (auto simp: credentials_db_def db_call_Inr_iff)
  note F = findLoginUser_Inr[OF f] and A = findLoginUser_Inr[OF a(1)] and L = first_user_Inr[OF l'(1)[unfolded LockByID_def]]
  have s1: "same_tables (rq_db q) (rq_db q2)" using F(2) L(2) by (auto intro: same_tables_trans)
  from L(1) F(2) obtain u where u: "u \<in> set (users (rq_db q))" "user = load_user u" "u_deleted_at u = None"
    by (auto simp: users_same)
  from A(1) s1 obtain u' where u': "u' \<in> set (users (rq_db q))" "again = load_user u'" "names_account srv (rq_db q) (li_identifier input) u'"
    by (auto simp: users_same names_account_same)
  have "u' = u" using keys u u' a(2) by (auto simp: distinct_map inj_on_def)
  with that[of u q3] u u' p i A l'(2) F(3) s1 show thesis by (auto intro: same_tables_trans)
qed

text \<open>
  C23: logging in.  A login succeeds only for an account that exists, is not deleted and not
  banned, that the identifier names (by an address in an allowed domain or by the username), and
  whose stored hash accepts the password; it then changes nothing but to add one live session of
  that account, with the digest of the refresh token it returns.
\<close>

theorem Login_sound:
  assumes "distinct (map u_id (users (rq_db q)))" and "Login srv clk rnd input client q = (Inr res, q')"
  shows "\<exists>u\<in>set (users (rq_db q)). u_deleted_at u = None \<and> \<not> banned u (clk 0) \<and>
     names_account srv (rq_db q) (li_identifier input) u \<and>
     passwordx_Verify (as_lib srv) (li_password input) (u_password_hash u) \<and>
     uv_id (ar_user res) = u_id u \<and>
     (\<exists>r. same_tables ((rq_db q)\<lparr>sessions := sessions (rq_db q) @ [r]\<rparr>) (rq_db q') \<and>
          s_user_id r = u_id u \<and> s_id r \<notin> s_id ` set (sessions (rq_db q)) \<and> s_revoked_at r = None \<and>
          s_expires_at r = clk 1 + RefreshTokenTTL (as_cfg srv) \<and>
          s_refresh_digest r = jwtx_Digest (as_lib srv) (ar_refresh_token res))"
proof -
  from assms obtain u q2 where u: "u \<in> set (users (rq_db q))" "u_deleted_at u = None"
    "names_account srv (rq_db q) (li_identifier input) u"
    "passwordx_Verify (as_lib srv) (li_password input) (u_password_hash u)" "\<not> banned u (clk 0)"
    and q2: "same_tables (rq_db q) (rq_db q2)"
    and i: "issueSession srv rnd (load_user u) client (clk 1) q2 = (Inr res, q')" by (rule Login_Inr)
  let ?r = "opened srv (load_user u) client (clk 1) (rq_db q2) res"
  note I = issueSession_Inr[OF i]
  from q2 have "same_tables ((rq_db q)\<lparr>sessions := sessions (rq_db q) @ [?r]\<rparr>)
      ((rq_db q2)\<lparr>sessions := sessions (rq_db q2) @ [?r]\<rparr>)" by (simp add: users_same same_tables_sessions)
  then have "same_tables ((rq_db q)\<lparr>sessions := sessions (rq_db q) @ [?r]\<rparr>) (rq_db q')"
    using I(1) by (rule same_tables_trans)
  moreover have "s_user_id ?r = u_id u \<and> s_id ?r \<notin> s_id ` set (sessions (rq_db q)) \<and> s_revoked_at ?r = None \<and>
      s_expires_at ?r = clk 1 + RefreshTokenTTL (as_cfg srv) \<and> s_refresh_digest ?r = jwtx_Digest (as_lib srv) (ar_refresh_token res)"
    using q2 by (simp add: opened_def users_same next_id_notin)
  ultimately show ?thesis using u I(2) by auto
qed

subsection \<open>The tokens of a login work\<close>

lemma token_ids_signed:
  assumes "jwt_library (as_lib srv)"
    and "SignAt (as_lib srv) (cfg_jwt_secret (as_cfg srv)) (int u) (int i) typ now ttl = Inr token"
    and "t < seconds_of (now + ttl)" "0 < u" "int u \<le> MaxInt64" "0 < i"
  shows "token_ids srv t token typ = Inr (u, i)"
proof -
  let ?c = "\<lparr>cl_subject = FormatInt (int u), cl_issued_at = now, cl_expires_at = now + ttl, cl_type = typ, cl_sid = int i\<rparr>"
  have "lib_jwt_parse (as_lib srv) (cfg_jwt_secret (as_cfg srv)) t token =
      JwtClaims (?c\<lparr>cl_issued_at := seconds_of now, cl_expires_at := seconds_of (now + ttl)\<rparr>)"
    using assms(1-3) unfolding jwt_library_def SignAt_def by force
  moreover have "int u < 2 ^ 63" using assms(5) by (simp add: MaxInt64_def)
  then have "ParseInt (FormatInt (int u)) = Some (int u)" by (intro ParseInt_FormatInt) simp_all
  ultimately show ?thesis using assms(4,6)
    by (simp add: token_ids_def jwtx_Parse_def claimIDs_def Claims_UserID_def)
qed

text \<open>The database right after a session was opened, as later requests find it.\<close>

lemma opened_pairs:
  assumes keys: "distinct (map u_id (users d))" and u: "u \<in> set (users d)" "u_deleted_at u = None" "\<not> ban_active u t"
    and d': "same_tables (d\<lparr>sessions := sessions d @ [r]\<rparr>) d'"
    and r: "s_user_id r = u_id u" "s_id r = next_id s_id (sessions d)" "live t r" and p: "p r" "\<And>x. p x \<Longrightarrow> s_id x = s_id r"
  shows "find_identity p t d' = Some (identity_row d' r u)"
proof -
  have tabs: "sessions d' = sessions d @ [r]" "users d' = users d" using d' by (auto simp: same_tables_iff)
  have x: "x = r" if "x \<in> set (sessions d')" "p x" for x
    using that p(2)[OF that(2)] r(2) next_id_fresh[of x "sessions d" s_id] by (auto simp: tabs)
  have v: "v = u" if "v \<in> set (users d')" "u_id v = u_id u" for v
    using that keys u by (auto simp: tabs distinct_map inj_on_def)
  have "identity_pairs p t d' = {(r, u)}"
  proof (intro equalityI subsetI)
    fix y assume "y \<in> identity_pairs p t d'"
    then obtain a b where y: "y = (a, b)" "a \<in> set (sessions d')" "p a" "b \<in> set (users d')" "u_id b = s_user_id a"
      by (auto simp: identity_pairs_def)
    with x[of a] have "a = r" by simp
    with y v[of b] r(1) show "y \<in> {(r, u)}" by simp
  qed (use p(1) r u in \<open>auto simp: identity_pairs_def tabs\<close>)
  then show ?thesis by (rule find_identity_unique)
qed

lemma lookup_run:
  assumes "find_identity p t (rq_db q) = Some i" "\<not> db_fault (rq_db q) (db_stmts (rq_db q))"
  shows "db_call sessionLookupError (query_first (find_identity p t)) q =
    (Inr i, q\<lparr>rq_db := (rq_db q)\<lparr>db_stmts := Suc (db_stmts (rq_db q))\<rparr>\<rparr>)"
  using assms by (simp add: db_call_def map_err_run repo_run query_first_run)

text \<open>
  C24: what a login hands out is accepted.  With a JWT library that parses what it signed until
  it expires, the access token of a login authenticates every later request as the account that
  logged in, on the session the login opened, as long as the token has not expired and the
  session, the account and its standing are as the login left them; and the refresh token yields a
  new access token for the same session as long as the library signs one.
\<close>

theorem Login_tokens_accepted:
  assumes jwt: "jwt_library (as_lib srv)"
    and keys: "distinct (map u_id (users (rq_db q)))" "\<forall>u\<in>set (users (rq_db q)). 0 < u_id u"
    and login: "Login srv clk rnd input client q = (Inr res, q')"
    and later: "same_tables (rq_db q') (rq_db q2)" "\<not> db_fault (rq_db q2) (db_stmts (rq_db q2))"
    and time: "clk2 1 < clk 1 + RefreshTokenTTL (as_cfg srv)"
    and ban: "\<forall>u\<in>set (users (rq_db q2)). u_id u = uv_id (ar_user res) \<longrightarrow> \<not> ban_active u (clk2 1)"
  shows "(clk2 0 < seconds_of (clk 1 + AccessTokenTTL (as_cfg srv)) \<longrightarrow>
      (\<exists>pri q3. Authenticate srv clk2 (ar_token res) q2 = (Inr pri, q3) \<and> u_id (pp_user pri) = uv_id (ar_user res) \<and>
         pp_session_id pri = next_id s_id (sessions (rq_db q)))) \<and>
    (clk2 0 < seconds_of (clk 1 + RefreshTokenTTL (as_cfg srv)) \<longrightarrow> TrimSpace (ar_refresh_token res) \<noteq> [] \<longrightarrow>
      SignAt (as_lib srv) (cfg_jwt_secret (as_cfg srv)) (int (uv_id (ar_user res))) (int (next_id s_id (sessions (rq_db q))))
        TypeAccess (clk2 1) (AccessTokenTTL (as_cfg srv)) = Inr access \<longrightarrow>
      (\<exists>q3. Refresh srv clk2 (ar_refresh_token res) q2 =
         (Inr \<lparr>tr_token = access, tr_refresh_token = ar_refresh_token res\<rparr>, q3)))"
proof -
  note One_nat_def [simp del]
  from keys(1) login obtain u q1 where u: "u \<in> set (users (rq_db q))" "u_deleted_at u = None"
    and q1: "same_tables (rq_db q) (rq_db q1)"
    and i: "issueSession srv rnd (load_user u) client (clk 1) q1 = (Inr res, q')" by (rule Login_Inr)
  let ?r = "opened srv (load_user u) client (clk 1) (rq_db q1) res" and ?sid = "next_id s_id (sessions (rq_db q))"
  note I = issueSession_Inr[OF i, unfolded users_same[OF q1] load_user_simps]
  have d2: "same_tables ((rq_db q1)\<lparr>sessions := sessions (rq_db q1) @ [?r]\<rparr>) (rq_db q2)"
    using issueSession_Inr(1)[OF i] later(1) by (rule same_tables_trans)
  then have us: "users (rq_db q2) = users (rq_db q)" using users_same(1)[OF q1] by (auto simp: same_tables_iff)
  have nb: "\<not> ban_active u (clk2 1)" using ban u(1) I(2) by (simp add: us)
  have r: "s_user_id ?r = u_id u" "s_id ?r = ?sid" "live (clk2 1) ?r"
    "s_refresh_digest ?r = jwtx_Digest (as_lib srv) (ar_refresh_token res)"
    using time users_same[OF q1] by (simp_all add: opened_def live_def)
  have k1: "distinct (map u_id (users (rq_db q1)))" "u \<in> set (users (rq_db q1))" "s_id ?r = next_id s_id (sessions (rq_db q1))"
    unfolding users_same[OF q1] by (rule keys(1), rule u(1), rule r(2))
  have pairs: "find_identity p (clk2 1) (rq_db q2) = Some (identity_row (rq_db q2) ?r u)"
    if "p ?r" "\<And>x. p x \<Longrightarrow> s_id x = s_id ?r" for p
    by (rule opened_pairs[where p = p, OF k1(1,2) u(2) nb d2 r(1) k1(3) r(3)]) (rule that; assumption?)+
  have pos: "0 < u_id u" "0 < ?sid" using keys(2) u(1) by simp_all
  have "\<exists>pri q3. Authenticate srv clk2 (ar_token res) q2 = (Inr pri, q3) \<and> u_id (pp_user pri) = uv_id (ar_user res) \<and> pp_session_id pri = ?sid"
    if "clk2 0 < seconds_of (clk 1 + AccessTokenTTL (as_cfg srv))"
  proof -
    have ids: "token_ids srv (clk2 0) (ar_token res) TypeAccess = Inr (u_id u, ?sid)"
      by (rule token_ids_signed[OF jwt I(6) that pos(1) I(3) pos(2)])
    have "find_identity (\<lambda>x. s_id x = ?sid \<and> s_user_id x = u_id u) (clk2 1) (rq_db q2) = Some (identity_row (rq_db q2) ?r u)"
      by (rule pairs) (simp_all add: r)
    from lookup_run[OF this later(2)] show ?thesis
      using I(2) r by (simp add: Authenticate_def ids bind_lift_Inr Let_def FindActiveIdentity_def bind_Pair(1) seq_def
          deferSessionTouch_def BeforeCommit_def bind_run ret_def identity_row_def)
  qed
  moreover have "\<exists>q3. Refresh srv clk2 (ar_refresh_token res) q2 = (Inr \<lparr>tr_token = access, tr_refresh_token = ar_refresh_token res\<rparr>, q3)"
    if "clk2 0 < seconds_of (clk 1 + RefreshTokenTTL (as_cfg srv))" "TrimSpace (ar_refresh_token res) \<noteq> []"
      "SignAt (as_lib srv) (cfg_jwt_secret (as_cfg srv)) (int (uv_id (ar_user res))) (int ?sid)
        TypeAccess (clk2 1) (AccessTokenTTL (as_cfg srv)) = Inr access"
  proof -
    have ids: "token_ids srv (clk2 0) (ar_refresh_token res) TypeRefresh = Inr (u_id u, ?sid)"
      by (rule token_ids_signed[OF jwt I(5) that(1) pos(1) I(3) pos(2)])
    have "find_identity (\<lambda>x. s_id x = ?sid \<and> s_user_id x = u_id u \<and> s_refresh_digest x = jwtx_Digest (as_lib srv) (ar_refresh_token res))
        (clk2 1) (rq_db q2) = Some (identity_row (rq_db q2) ?r u)"
      by (rule pairs) (simp_all add: r)
    from lookup_run[OF this later(2)] show ?thesis
      using I(2) r that(2,3) by (simp add: Refresh_def ids bind_lift_Inr Let_def FindRefreshIdentity_def bind_Pair(1) seq_def
          deferSessionTouch_def BeforeCommit_def bind_run ret_def identity_row_def lift_result_def)
  qed
  ultimately show ?thesis by blast
qed

subsection \<open>Ending sessions\<close>

definition signed_out :: "(session \<Rightarrow> bool) \<Rightarrow> db \<Rightarrow> bool" where
  "signed_out p d \<longleftrightarrow> (\<forall>r\<in>set (sessions d). p r \<longrightarrow> s_revoked_at r \<noteq> None)"

text \<open>No token gets through on a session that \<open>p\<close> describes, at whatever time and under whatever secret.\<close>

definition tokens_dead :: "(row_id \<Rightarrow> row_id \<Rightarrow> bool) \<Rightarrow> db \<Rightarrow> bool" where
  "tokens_dead p d \<longleftrightarrow> (\<forall>srv clk token q. same_tables d (rq_db q) \<longrightarrow>
     (\<forall>pri q'. Authenticate srv clk token q = (Inr pri, q') \<longrightarrow> \<not> p (u_id (pp_user pri)) (pp_session_id pri)) \<and>
     (\<forall>res q' userID sessionID. Refresh srv clk token q = (Inr res, q') \<longrightarrow>
        token_ids srv (clk 0) token TypeRefresh = Inr (userID, sessionID) \<longrightarrow> \<not> p userID sessionID))"

lemma signed_out_tokens:
  assumes "signed_out (\<lambda>r. p (s_user_id r) (s_id r)) d"
  shows "tokens_dead p d"
  unfolding tokens_dead_def
proof (intro allI impI conjI)
  fix srv clk token q pri q'
  assume same: "same_tables d (rq_db q)" and "Authenticate srv clk token q = (Inr pri, q')"
  then obtain r u where "good_standing (rq_db q) (clk 1) r u" "u_id (pp_user pri) = u_id u" "pp_session_id pri = s_id r"
    by (auto elim: Authenticate_Inr)
  then show "\<not> p (u_id (pp_user pri)) (pp_session_id pri)"
    using assms users_same[OF same] by (auto simp: good_standing_def live_def signed_out_def)
next
  fix srv clk token q res q' userID sessionID
  assume same: "same_tables d (rq_db q)" and "Refresh srv clk token q = (Inr res, q')"
    and "token_ids srv (clk 0) token TypeRefresh = Inr (userID, sessionID)"
  then obtain r u where "good_standing (rq_db q) (clk 1) r u" "userID = s_user_id r" "sessionID = s_id r"
    by (auto elim: Refresh_Inr)
  then show "\<not> p userID sessionID"
    using assms users_same[OF same] by (auto simp: good_standing_def live_def signed_out_def)
qed

lemma revoked_fields [simp]:
  "s_revoked_at (revoked now r) = Some (max now (s_last_seen_at r))" "s_user_id (revoked now r) = s_user_id r" "s_id (revoked now r) = s_id r"
  by (simp_all add: revoked_def)

lemma RevokeAll_Inr:
  assumes "RevokeAll u now s = (Inr x, t)"
  shows "same_tables (s\<lparr>sessions := upd_where (\<lambda>r. s_user_id r = u \<and> s_revoked_at r = None) (revoked now) (sessions s)\<rparr>) t"
    "signed_out (\<lambda>r. s_user_id r = u) t"
proof -
  let ?p = "\<lambda>r. s_user_id r = u \<and> s_revoked_at r = None"
  from assms have t: "t = s\<lparr>db_stmts := Suc (db_stmts s), sessions := upd_where ?p (revoked now) (sessions s)\<rparr>"
    by (auto simp: RevokeAll_def checked_Inr_iff)
  then show "same_tables (s\<lparr>sessions := upd_where ?p (revoked now) (sessions s)\<rparr>) t" by (simp add: same_tables_def)
  show "signed_out (\<lambda>r. s_user_id r = u) t"
    unfolding signed_out_def
  proof (intro ballI impI)
    fix r assume "r \<in> set (sessions t)" and u: "s_user_id r = u"
    then have "r \<in> set (upd_where ?p (revoked now) (sessions s))" by (simp add: t)
    then show "s_revoked_at r \<noteq> None" by (rule in_upd_whereE) (use u in simp_all)
  qed
qed

lemma Revoke_Inr:
  assumes "Revoke u i now s = (Inr x, t)" "distinct (map s_id (sessions s))"
  shows "signed_out (\<lambda>r. s_id r = i) t"
    "same_tables (s\<lparr>sessions := upd_where (\<lambda>r. s_id r = i \<and> s_user_id r = u \<and> live now r) (revoked now) (sessions s)\<rparr>) t"
proof -
  let ?p = "\<lambda>r. s_id r = i \<and> s_user_id r = u \<and> live now r"
  from assms(1) have n: "count_where ?p (sessions s) \<noteq> 0"
    and t: "t = s\<lparr>db_stmts := Suc (db_stmts s), sessions := upd_where ?p (revoked now) (sessions s)\<rparr>"
    by (auto simp: Revoke_def Let_def checked_Inr_iff ret_def fail_def elim!: bind_InrE split: if_splits)
  from n obtain r where r: "r \<in> set (sessions s)" "?p r" unfolding count_where_0 by blast
  have "x = r" if "x \<in> set (sessions s)" "s_id x = i" for x
    using assms(2) r that by (auto simp: distinct_map inj_on_def)
  then show "signed_out (\<lambda>r. s_id r = i) t" using r(2) unfolding signed_out_def t by (fastforce elim!: in_upd_whereE)
  show "same_tables (s\<lparr>sessions := upd_where ?p (revoked now) (sessions s)\<rparr>) t" by (simp add: t same_tables_def)
qed

text \<open>
  C22: signing out takes effect at once.  After a device was signed out, by its user or by another
  of the user's devices, no access or refresh token of that session is accepted any more, whatever
  its expiry; after signing out everywhere the same holds for every session of the account.
  Sessions of other accounts are untouched.
\<close>

theorem sign_out_immediate:
  assumes "distinct (map s_id (sessions (rq_db q)))"
  shows "(Logout pri now q = (Inr (), q') \<longrightarrow>
       tokens_dead (\<lambda>userID sessionID. sessionID = pp_session_id pri) (rq_db q')) \<and>
    (KickSession pri i now q = (Inr (), q') \<longrightarrow> tokens_dead (\<lambda>userID sessionID. sessionID = i) (rq_db q')) \<and>
    (LogoutAll pri now q = (Inr (), q') \<longrightarrow>
       tokens_dead (\<lambda>userID sessionID. userID = u_id (pp_user pri)) (rq_db q') \<and>
       filter (\<lambda>r. s_user_id r \<noteq> u_id (pp_user pri)) (sessions (rq_db q')) =
       filter (\<lambda>r. s_user_id r \<noteq> u_id (pp_user pri)) (sessions (rq_db q)))"
proof -
  have others: "filter (\<lambda>r. s_user_id r \<noteq> u) (upd_where (\<lambda>r. s_user_id r = u \<and> s_revoked_at r = None) (revoked now) rs) =
      filter (\<lambda>r. s_user_id r \<noteq> u) rs" for u rs
    by (induction rs) (simp_all add: upd_where_simps)
  show ?thesis
  proof (intro conjI impI)
    assume "Logout pri now q = (Inr (), q')"
    then have "Revoke (u_id (pp_user pri)) (pp_session_id pri) now (rq_db q) = (Inr (), rq_db q')"
      by (auto simp: Logout_def db_call_Inr_iff)
    from Revoke_Inr(1)[OF this assms] show "tokens_dead (\<lambda>userID sessionID. sessionID = pp_session_id pri) (rq_db q')"
      by (rule signed_out_tokens)
  next
    assume "KickSession pri i now q = (Inr (), q')"
    then have "Revoke (u_id (pp_user pri)) i now (rq_db q) = (Inr (), rq_db q')"
      by (auto simp: KickSession_def db_call_Inr_iff)
    from Revoke_Inr(1)[OF this assms] show "tokens_dead (\<lambda>userID sessionID. sessionID = i) (rq_db q')"
      by (rule signed_out_tokens)
  next
    assume "LogoutAll pri now q = (Inr (), q')"
    then have "RevokeAll (u_id (pp_user pri)) now (rq_db q) = (Inr (), rq_db q')"
      by (auto simp: LogoutAll_def db_call_Inr_iff)
    note R = RevokeAll_Inr[OF this]
    from R(2) show "tokens_dead (\<lambda>userID sessionID. userID = u_id (pp_user pri)) (rq_db q')"
      by (rule signed_out_tokens)
    from users_same(2)[OF R(1)] show "filter (\<lambda>r. s_user_id r \<noteq> u_id (pp_user pri)) (sessions (rq_db q')) =
       filter (\<lambda>r. s_user_id r \<noteq> u_id (pp_user pri)) (sessions (rq_db q))" by (simp add: others)
  qed
qed

lemma UpdatePassword_Inr:
  assumes "UpdatePassword i h s = (Inr x, t)"
  shows "same_tables (s\<lparr>users := upd_where (\<lambda>u. u_id u = i \<and> u_deleted_at u = None) (\<lambda>u. u\<lparr>u_password_hash := h\<rparr>) (users s)\<rparr>) t"
  using assms by (auto simp: UpdatePassword_def stmt_run same_tables_def split: if_splits)

text \<open>
  C25: a password reset.  It succeeds only for an account that the address names and that is not
  deleted, with a code of the stored digest; it replaces that account's hash and no other, and from
  then on no token of any session opened before is accepted, so whoever knew the old password or
  held a stolen token is out.
\<close>

theorem ResetPassword_locks_out:
  assumes "distinct (map u_id (users (rq_db q)))" and "ResetPassword srv clk input q = (Inr (), q')"
  shows "\<exists>u hash email c. u \<in> set (users (rq_db q)) \<and> u_deleted_at u = None \<and>
     normalizeEmail (as_lib srv) (pr_email input) = Inr email \<and>
     db_lower (rq_db q) (u_email u) = db_lower (rq_db q) email \<and>
     code_row (rq_db q) email PurposePasswordReset = Some c \<and> code_open (clk 0) c \<and>
     vc_digest c = codeDigest (as_lib srv) (as_cfg srv) PurposePasswordReset email (pr_code input) \<and>
     passwordx_Hash (as_lib srv) (pr_new_password input) = Inr hash \<and>
     users (rq_db q') = map (\<lambda>v. if v = u then v\<lparr>u_password_hash := hash\<rparr> else v) (users (rq_db q)) \<and>
     tokens_dead (\<lambda>userID sessionID. userID = u_id u) (rq_db q')"
proof -
  from assms(2) obtain email found q1 user q2 q3 hash q4 where
    n: "normalizeEmail (as_lib srv) (pr_email input) = Inr email"
    and f: "refused_db (FindByEmail email False) q = (Inr found, q1)"
    and l: "refused_db (LockByID (u_id found)) q1 = (Inr user, q2)"
    and c: "consumeVerification srv PurposePasswordReset email (pr_code input) (clk 0) q2 = (Inr (), q3)"
    and h: "passwordx_Hash (as_lib srv) (pr_new_password input) = Inr hash"
    and w: "db_call internal_of (UpdatePassword (u_id user) hash) q3 = (Inr (), q4)"
    and v: "db_call internal_of (RevokeAll (u_id user) (clk 1)) q4 = (Inr (), q')"
    unfolding ResetPassword_def seq_def by (auto elim!: bind_InrE)
  from f have "FindByEmail email False (rq_db q) = (Inr found, rq_db q1)" by (auto simp: refused_db_def db_call_Inr_iff)
  note F = first_user_Inr[OF this[unfolded FindByEmail_def]]
  from l have "LockByID (u_id found) (rq_db q1) = (Inr user, rq_db q2)" by (auto simp: refused_db_def db_call_Inr_iff)
  note L = first_user_Inr[OF this[unfolded LockByID_def]]
  have s: "same_tables (rq_db q) (rq_db q1)" "same_tables (rq_db q) (rq_db q2)" using F(2) L(2) by (auto intro: same_tables_trans)
  from F(1) obtain u where u: "u \<in> set (users (rq_db q))" "found = load_user u" "u_deleted_at u = None"
    "db_lower (rq_db q) (u_email u) = db_lower (rq_db q) email" by auto
  from L(1) s(1) u obtain v where v': "v \<in> set (users (rq_db q))" "user = load_user v" "u_id v = u_id u" by (auto simp: users_same)
  then have vu: "v = u" using assms(1) u(1) by (auto simp: distinct_map inj_on_def)
  have C: "users (rq_db q3) = users (rq_db q)" "consumed_by srv PurposePasswordReset email (pr_code input) (clk 0)
      (code_row (rq_db q) email PurposePasswordReset) (Inr ()) (code_row (rq_db q3) email PurposePasswordReset)"
    using consumeVerification_effect[OF c] s(2) by (simp_all add: users_same code_row_same[OF s(2)])
  from w have "UpdatePassword (u_id user) hash (rq_db q3) = (Inr (), rq_db q4)" by (auto simp: db_call_Inr_iff)
  from users_same(1)[OF UpdatePassword_Inr[OF this]] v' vu C(1)
  have q4: "users (rq_db q4) = upd_where (\<lambda>x. u_id x = u_id u \<and> u_deleted_at x = None) (\<lambda>x. x\<lparr>u_password_hash := hash\<rparr>) (users (rq_db q))"
    by simp
  from v have "RevokeAll (u_id user) (clk 1) (rq_db q4) = (Inr (), rq_db q')" by (auto simp: db_call_Inr_iff)
  note R = RevokeAll_Inr[OF this]
  have "u_id x = u_id u \<longleftrightarrow> x = u" if "x \<in> set (users (rq_db q))" for x
    using assms(1) u(1) that by (auto simp: distinct_map inj_on_def)
  then have "users (rq_db q4) = map (\<lambda>x. if x = u then x\<lparr>u_password_hash := hash\<rparr> else x) (users (rq_db q))"
    unfolding q4 upd_where_def using u(3) by (intro map_cong) auto
  moreover have "users (rq_db q') = users (rq_db q4)" using users_same(1)[OF R(1)] by simp
  moreover have "tokens_dead (\<lambda>userID sessionID. userID = u_id u) (rq_db q')"
    using R(2) v' vu by (intro signed_out_tokens) simp
  ultimately show ?thesis using u n h C(2) by (auto simp: consumed_by_def)
qed

subsection \<open>Concrete runs\<close>

definition sample_client :: ClientInfo where
  "sample_client = \<lparr>ci_device_label = ''phone'', ci_user_agent = ''ua'', ci_ip = ''::1''\<rparr>"

definition session_db :: db where
  "session_db = reset_db\<lparr>sessions :=
     [(newSession 1 sample_client (jwtx_Digest sample_lib ''R'') 0 86400000000000)\<lparr>s_id := 1\<rparr>]\<rparr>"

definition sample_login :: "(go_error + AuthResult) \<times> auth_fx req" where
  "sample_login = Login sample_service (\<lambda>_. 0) (Inr ''r'') \<lparr>li_identifier = ''ann'', li_password = ''oldpassword''\<rparr> sample_client
     (fresh_req reset_db)"

definition sample_principal :: Principal where
  "sample_principal = \<lparr>pp_user = sample_user, pp_session_id = 1\<rparr>"

lemma ok_run: "map_sum (\<lambda>_. ()) f (fst r) = Inr y \<Longrightarrow> \<exists>x. r = (Inr x, snd r) \<and> f x = y"
  by (cases r; cases "fst r") auto

theorem token_needs_live_session_witness:
  "\<exists>pri q' r u. Authenticate sample_service (\<lambda>_. 5) ''A'' (fresh_req session_db) = (Inr pri, q') \<and> pp_session_id pri = 1 \<and>
     good_standing session_db 5 r u \<and> s_id r = 1"
proof -
  let ?q = "fresh_req session_db :: auth_fx req"
  have "map_sum (\<lambda>_. ()) pp_session_id (fst (Authenticate sample_service (\<lambda>_. 5) ''A'' ?q)) = Inr 1" by code_simp
  from ok_run[OF this] obtain pri where p: "Authenticate sample_service (\<lambda>_. 5) ''A'' ?q =
      (Inr pri, snd (Authenticate sample_service (\<lambda>_. 5) ''A'' ?q))" "pp_session_id pri = 1" by blast
  from token_needs_live_session[THEN conjunct1, THEN mp, OF p(1)]
  obtain r u where "good_standing session_db 5 r u" "pp_session_id pri = s_id r" by auto
  with p show ?thesis by metis
qed

lemma reset_db_users [simp]: "users reset_db = [sample_user]" "sessions reset_db = []"
  by (simp_all add: reset_db_def empty_db_def)

lemma sample_user_id [simp]: "u_id sample_user = 1" "u_ban_permanent sample_user = False" "u_banned_until sample_user = None"
  by (simp_all add: sample_user_def new_user_def)

lemma sample_login_ok:
  "\<exists>res. sample_login = (Inr res, snd sample_login) \<and> uv_id (ar_user res) = 1 \<and> ar_token res = ''A'' \<and> ar_refresh_token res = ''R''"
proof -
  have "map_sum (\<lambda>_. ()) (\<lambda>r. (uv_id (ar_user r), ar_token r, ar_refresh_token r)) (fst sample_login) = Inr (1, ''A'', ''R'')"
    by code_simp
  from ok_run[OF this] show ?thesis by auto
qed

theorem Login_sound_witness:
  "\<exists>res q'. sample_login = (Inr res, q') \<and> passwordx_Verify sample_lib ''oldpassword'' (u_password_hash sample_user) \<and>
     length (sessions (rq_db q')) = 1"
proof -
  from sample_login_ok obtain res where r: "sample_login = (Inr res, snd sample_login)" by blast
  from Login_sound[OF _ r[unfolded sample_login_def]]
  obtain s where "passwordx_Verify (as_lib sample_service) ''oldpassword'' (u_password_hash sample_user)"
    "same_tables (reset_db\<lparr>sessions := [s]\<rparr>) (rq_db (snd sample_login))"
    by (auto simp: sample_login_def)
  moreover have "as_lib sample_service = sample_lib" by (simp add: sample_service_def newAuthService_def)
  ultimately show ?thesis using r by (intro exI[of _ res] exI[of _ "snd sample_login"]) (auto dest!: users_same(2))
qed

lemma sample_jwt: "jwt_library (as_lib sample_service)"
  by (auto simp: jwt_library_def sample_service_def newAuthService_def sample_lib_def sample_claims_def seconds_of_def
      TypeAccess_def TypeRefresh_def split: if_splits)

theorem Login_tokens_accepted_witness:
  "\<exists>pri q3 q4. Authenticate sample_service (\<lambda>_. 0) ''A'' (snd sample_login) = (Inr pri, q3) \<and> u_id (pp_user pri) = 1 \<and>
     Refresh sample_service (\<lambda>_. 0) ''R'' (snd sample_login) = (Inr \<lparr>tr_token = ''A'', tr_refresh_token = ''R''\<rparr>, q4)"
proof -
  from sample_login_ok obtain res where r: "sample_login = (Inr res, snd sample_login)"
    and f: "uv_id (ar_user res) = 1" "ar_token res = ''A''" "ar_refresh_token res = ''R''" by blast
  have ttl: "AccessTokenTTL (as_cfg sample_service) = 60000000000" "RefreshTokenTTL (as_cfg sample_service) = 86400000000000"
    by code_simp+
  have trim: "TrimSpace ''R'' \<noteq> []" by code_simp
  have sign: "SignAt (as_lib sample_service) (cfg_jwt_secret (as_cfg sample_service)) (int 1) (int 1) TypeAccess 0 60000000000 = Inr ''A''"
    by code_simp
  have nf: "\<not> db_fault (rq_db (snd sample_login)) (db_stmts (rq_db (snd sample_login)))" by code_simp
  have us: "map (\<lambda>u. (u_id u, u_ban_permanent u, u_banned_until u)) (users (rq_db (snd sample_login))) = [(1, False, None)]" by code_simp
  then have ban: "\<forall>u\<in>set (users (rq_db (snd sample_login))). u_id u = uv_id (ar_user res) \<longrightarrow> \<not> ban_active u 0"
    by (auto simp: ban_active_def)
  have sid: "next_id s_id (sessions reset_db) = 1" by (simp add: next_id_def)
  have keys: "distinct (map u_id (users (rq_db (fresh_req reset_db :: auth_fx req))))"
    "\<forall>u\<in>set (users (rq_db (fresh_req reset_db :: auth_fx req))). 0 < u_id u" by simp_all
  have live: "0 < 0 + RefreshTokenTTL (as_cfg sample_service)" by (simp add: ttl)
  note inst = Login_tokens_accepted[where ?clk2.0 = "\<lambda>_. 0" and access = "''A''", OF sample_jwt keys r[unfolded sample_login_def]
      same_tables_refl, folded sample_login_def, OF nf live ban]
  have rq_fresh: "rq_db (fresh_req reset_db :: auth_fx req) = reset_db" by simp
  have T: "(0 < seconds_of (0 + 60000000000) \<longrightarrow>
      (\<exists>pri q3. Authenticate sample_service (\<lambda>_. 0) ''A'' (snd sample_login) = (Inr pri, q3) \<and> u_id (pp_user pri) = 1 \<and> pp_session_id pri = 1)) \<and>
    (0 < seconds_of (0 + 86400000000000) \<longrightarrow> TrimSpace ''R'' \<noteq> [] \<longrightarrow>
      SignAt (as_lib sample_service) (cfg_jwt_secret (as_cfg sample_service)) (int 1) (int 1) TypeAccess 0 60000000000 = Inr ''A'' \<longrightarrow>
      (\<exists>q3. Refresh sample_service (\<lambda>_. 0) ''R'' (snd sample_login) = (Inr \<lparr>tr_token = ''A'', tr_refresh_token = ''R''\<rparr>, q3)))"
    using inst by (simp only: f ttl sid rq_fresh)
  then show ?thesis using trim sign by (simp add: seconds_of_def) blast
qed

theorem sign_out_immediate_witness:
  "\<exists>q'. LogoutAll sample_principal 7 (fresh_req session_db) = (Inr (), q') \<and>
     tokens_dead (\<lambda>userID sessionID. userID = 1) (rq_db q')"
proof -
  let ?q = "fresh_req session_db :: auth_fx req"
  have "map_sum (\<lambda>_. ()) id (fst (LogoutAll sample_principal 7 ?q)) = Inr ()" by code_simp
  from ok_run[OF this] have r: "LogoutAll sample_principal 7 ?q = (Inr (), snd (LogoutAll sample_principal 7 ?q))" by auto
  have "distinct (map s_id (sessions (rq_db ?q)))" by (simp add: session_db_def)
  from sign_out_immediate[OF this, THEN conjunct2, THEN conjunct2, THEN mp, OF r] r
  show ?thesis by (auto simp: sample_principal_def)
qed

definition sample_reset :: "(go_error + unit) \<times> auth_fx req" where
  "sample_reset = ResetPassword sample_service (fst (snd (sample_attempt ''000042''))) (snd (snd (sample_attempt ''000042''))) (fresh_req session_db)"

theorem ResetPassword_locks_out_witness:
  "\<exists>q' u. sample_reset = (Inr (), q') \<and> u \<in> set (users session_db) \<and> tokens_dead (\<lambda>userID sessionID. userID = u_id u) (rq_db q')"
proof -
  have "map_sum (\<lambda>_. ()) id (fst sample_reset) = Inr ()" by code_simp
  from ok_run[OF this] have r: "sample_reset = (Inr (), snd sample_reset)" by auto
  have "distinct (map u_id (users (rq_db (fresh_req session_db :: auth_fx req))))" by (simp add: session_db_def)
  from ResetPassword_locks_out[OF this r[unfolded sample_reset_def], folded sample_reset_def]
  obtain u where "u \<in> set (users session_db)" "tokens_dead (\<lambda>userID sessionID. userID = u_id u) (rq_db (snd sample_reset))"
    by auto
  with r show ?thesis by blast
qed

end
