(* ===== verification/Auth_Accounts.thy ===== *)
theory Auth_Accounts
  imports Auth_Sessions
begin

section \<open>Accounts: who exists stays private, and every name has one owner\<close>

text \<open>
  Properties of \<open>SendVerificationCode\<close>, \<open>SendPasswordResetCode\<close> and \<open>Register\<close>: asking
  for a code answers the same whether or not the address has an account, and registration keeps
  addresses and usernames, present and past, unique.
\<close>

subsection \<open>Asking for a code\<close>

lemma no_fault: "no_faults s \<Longrightarrow> \<not> db_fault s n"
  by (simp add: no_faults_def)

lemma found_or_none_calm:
  assumes "no_faults (rq_db q)"
  shows "found_or_none (query_first f) q =
    (Inr (f ((rq_db q)\<lparr>db_stmts := Suc (db_stmts (rq_db q))\<rparr>)), q\<lparr>rq_db := (rq_db q)\<lparr>db_stmts := Suc (db_stmts (rq_db q))\<rparr>\<rparr>)"
  using assms by (simp add: found_or_none_def bind_run attempt_run repo_run query_first_run no_faults_def ret_def
      split: option.split)

text \<open>What the queue of mails needs for the sends below to be accepted by the tables.\<close>

definition mail_tables_ok :: "db \<Rightarrow> bool" where
  "mail_tables_ok d \<longleftrightarrow> no_faults d \<and> codes_ok d \<and> email_table_ok d"

lemma mail_tables_ok_stmts [simp]: "mail_tables_ok (d\<lparr>db_stmts := n\<rparr>) = mail_tables_ok d"
  by (simp add: mail_tables_ok_def no_faults_def codes_ok_def email_table_ok_def)

lemma is_digit_iff: "is_digit c = is_dec_digit c"
proof -
  have "byte_of c = int (of_char c)" by (simp add: byte_of_def of_nat_of_char)
  then show ?thesis by (simp add: is_digit_def is_dec_digit_def)
qed

lemma code_wellformed: "n < 1000000 \<Longrightarrow> is_verification_code (format_06d n)"
  using format_06d_code[of n] by (simp add: is_verification_code_def is_digit_iff list_all_iff)

lemma codes_ok_first: "codes_ok d \<Longrightarrow> code_row d email purpose = Some c \<Longrightarrow> 0 \<le> vc_send_count c"
  by (auto simp: codes_ok_def code_row_def list_all_iff dest: first_by_Some(1))

lemma LockOrCreate_calm:
  assumes "mail_tables_ok d"
  shows "\<exists>c d'. LockOrCreate email purpose now d = (Inr c, d') \<and> mail_tables_ok d' \<and> 0 \<le> vc_send_count c \<and>
    c = (case code_row d email purpose of Some c' \<Rightarrow> c' | None \<Rightarrow> new_code (next_id vc_id (codes d)) email purpose now)"
proof -
  define d1 where "d1 = (if list_ex (code_key d email purpose) (codes d) then d\<lparr>db_stmts := Suc (db_stmts d)\<rparr>
      else d\<lparr>db_stmts := Suc (db_stmts d), codes := codes d @ [new_code (next_id vc_id (codes d)) email purpose now]\<rparr>)"
  have nf: "\<And>n. \<not> db_fault d n" using assms by (simp add: mail_tables_ok_def no_fault)
  have ins: "insert_code email purpose now d = (Inr (), d1)"
    using nf by (simp add: insert_code_def execute_run code_key_def[abs_def] d1_def)
  have ok: "mail_tables_ok d1"
    using assms by (simp add: mail_tables_ok_def no_faults_def codes_ok_def email_table_ok_def new_code_def d1_def)
  have "\<exists>x\<in>set (codes d1). code_key d1 email purpose x"
    by (auto simp: d1_def list_ex_iff code_key_def new_code_def)
  then obtain c where c: "code_row d1 email purpose = Some c"
    using first_by_None[of vc_id "code_key d1 email purpose" "codes d1"] unfolding code_row_def by blast
  have "query_first (\<lambda>s. first_by vc_id (code_key s email purpose) (codes s)) d1 = (Inr c, d1\<lparr>db_stmts := Suc (db_stmts d1)\<rparr>)"
    using c ok by (simp add: query_first_run mail_tables_ok_def no_fault flip: code_row_def)
  then have run: "LockOrCreate email purpose now d = (Inr c, d1\<lparr>db_stmts := Suc (db_stmts d1)\<rparr>)"
    by (simp add: LockOrCreate_def seq_def bind_run ins)
  have "0 \<le> vc_send_count c" using codes_ok_first[OF _ c] ok by (simp add: mail_tables_ok_def)
  with run ok LockOrCreate_Inr(4)[OF run] show ?thesis by (metis mail_tables_ok_stmts)
qed

lemma SaveState_calm:
  assumes "mail_tables_ok d" "0 \<le> vc_send_count ch" "0 \<le> vc_failed_attempts ch"
  shows "\<exists>d'. SaveState ch now d = (Inr (), d') \<and> mail_tables_ok d'"
proof -
  let ?d1 = "d\<lparr>db_stmts := Suc (db_stmts d), codes := upd_where (\<lambda>c. vc_id c = vc_id ch) (save_code ch now) (codes d)\<rparr>"
  have c1: "codes_ok ?d1"
    using assms upd_where_all[of "\<lambda>c. 0 \<le> vc_send_count c \<and> 0 \<le> vc_failed_attempts c" "codes d" "\<lambda>c. vc_id c = vc_id ch" "save_code ch now"]
    by (simp add: mail_tables_ok_def codes_ok_def save_code_def)
  let ?d2 = "?d1\<lparr>db_stmts := Suc (Suc (db_stmts d)), email_deliveries := upd_where (stale_code ch now) (\<lambda>e. e\<lparr>ed_code := None\<rparr>) (email_deliveries d)\<rparr>"
  have c2: "email_table_ok ?d2"
    using assms(1) upd_where_all[of email_check "email_deliveries d" "stale_code ch now" "\<lambda>e. e\<lparr>ed_code := None\<rparr>"]
    by (simp add: mail_tables_ok_def email_table_ok_def email_check_def)
  have "SaveState ch now d = (Inr (), ?d2)"
    using assms(1) c1 c2 by (simp add: SaveState_def seq_def bind_run checked_run Let_def mail_tables_ok_def no_fault no_faults_def)
  moreover have "mail_tables_ok ?d2" using assms(1) c1 c2 by (simp add: mail_tables_ok_def codes_ok_def no_faults_def)
  ultimately show ?thesis by blast
qed

lemma enqueue_calm:
  assumes "mail_tables_ok (rq_db q)" "emailSenderConfigured (as_sender srv)" "as_deliveries srv"
    "length digest = 64" "is_verification_code code"
  shows "fst (enqueueVerificationEmail srv ch email purpose digest code now q) = Inr ()"
proof -
  have "\<exists>i d'. Email_Enqueue ch email purpose digest code now (rq_db q) = (Inr i, d')"
    using assms by (simp add: Email_Enqueue_def checked_run Let_def mail_tables_ok_def no_fault email_table_ok_def email_check_def email_terminal_def)
  then show ?thesis using assms(2,3)
    by (auto simp: enqueueVerificationEmail_def seq_def bind_run db_call_def map_err_run repo_run AfterCommit_def ret_def split: option.split)
qed

lemma mail_tables_same: "same_tables d d' \<Longrightarrow> mail_tables_ok d' = mail_tables_ok d"
  unfolding same_tables_iff by (elim exE) simp

lemma found_or_none_total:
  assumes "no_faults (rq_db q)"
  shows "\<exists>r q'. found_or_none (query_first f) q = (Inr r, q') \<and> reads q q'"
  using found_or_none_calm[OF assms, of f] found_or_none_reads[of f q] by blast

lemma reads_calm: "reads q q' \<Longrightarrow> no_faults (rq_db q') = no_faults (rq_db q)"
  by (auto simp: reads_def same_tables_iff no_faults_def)

lemma reset_account_total:
  assumes "no_faults (rq_db q)"
  shows "\<exists>r q'. reset_account email q = (Inr r, q') \<and> reads q q'"
proof -
  obtain found q1 where 1: "found_or_none (FindByEmail email False) q = (Inr found, q1)" "reads q q1"
    using found_or_none_total[OF assms] unfolding FindByEmail_def by blast
  have nf: "no_faults (rq_db q1)" using reads_calm[OF 1(2)] assms by simp
  show ?thesis
  proof (cases found)
    case None
    with 1 show ?thesis by (auto simp: reset_account_def bind_Pair(1) ret_def)
  next
    case (Some u)
    obtain r q2 where "found_or_none (LockByID (u_id u)) q1 = (Inr r, q2)" "reads q1 q2"
      using found_or_none_total[OF nf] unfolding LockByID_def by blast
    with 1 Some show ?thesis by (auto simp: reset_account_def bind_Pair(1) intro: reads_trans)
  qed
qed

definition mail_ready :: "auth_service \<Rightarrow> bool" where
  "mail_ready srv \<longleftrightarrow> cfg_email_verification_required (as_cfg srv) \<and> emailSenderConfigured (as_sender srv) \<and>
     passwordResetSenderConfigured (as_sender srv) \<and> as_deliveries srv \<and>
     (\<forall>k p. length (lib_hmac_sha256 (as_lib srv) k p) = 32)"

text \<open>Writing an accepted challenge and, for an account or a new address, queueing the mail.\<close>

lemma store_and_mail:
  assumes "mail_ready srv" "mail_tables_ok (rq_db q)" "enforceSendRate c0 now = Inr c" "0 \<le> vc_send_count c0"
    "length digest = 64" "is_verification_code code"
  shows "fst (bind (db_call internal_of (SaveState (mark_sent digest now c) now)) (\<lambda>_. if b then ret ()
     else enqueueVerificationEmail srv (mark_sent digest now c) email purpose digest code now) q) = Inr ()"
    "fst (db_call internal_of (SaveState (mark_sent digest now c) now) q) = Inr ()"
proof -
  note e = enforceSendRate_Inr[OF assms(3)]
  have cnt: "0 \<le> vc_send_count (mark_sent digest now c)" "0 \<le> vc_failed_attempts (mark_sent digest now c)"
    using e(4,5) assms(4) by (auto simp: mark_sent_def wrap32_id split: if_splits)
  from SaveState_calm[OF assms(2) cnt] obtain d where d: "SaveState (mark_sent digest now c) now (rq_db q) = (Inr (), d)" "mail_tables_ok d" by blast
  note run = db_call_run[of "SaveState (mark_sent digest now c) now" q, OF d(1), where h = internal_of]
  show "fst (db_call internal_of (SaveState (mark_sent digest now c) now) q) = Inr ()" by (simp add: run)
  show "fst (bind (db_call internal_of (SaveState (mark_sent digest now c) now)) (\<lambda>_. if b then ret ()
     else enqueueVerificationEmail srv (mark_sent digest now c) email purpose digest code now) q) = Inr ()"
    using enqueue_calm[of "q\<lparr>rq_db := d\<rparr>" srv digest code] assms d(2)
    by (simp add: bind_run run mail_ready_def ret_def)
qed

lemma codeDigest_length: "mail_ready srv \<Longrightarrow> length (codeDigest (as_lib srv) (as_cfg srv) purpose email code) = 64"
  by (simp add: codeDigest_def mail_ready_def)

lemma send_registration_answer:
  assumes "mail_ready srv" "mail_tables_ok d" "n < 1000000"
  shows "fst (send_registration_code srv now (Inr n) (Inr rnd) email (fresh_req d)) =
    map_sum id (\<lambda>_. ()) (enforceSendRate (case code_row d email PurposeRegistration of Some c \<Rightarrow> c
       | None \<Rightarrow> new_code (next_id vc_id (codes d)) email PurposeRegistration now) now)"
proof -
  let ?q = "fresh_req d :: auth_fx req"
  have nf: "no_faults (rq_db ?q)" using assms(2) by (simp add: mail_tables_ok_def)
  obtain acc q1 where 1: "found_or_none (FindByEmail email True) ?q = (Inr acc, q1)" "reads ?q q1"
    using found_or_none_total[OF nf] unfolding FindByEmail_def by blast
  have same: "same_tables d (rq_db q1)" using 1(2) by (simp add: reads_def)
  then have ok: "mail_tables_ok (rq_db q1)" using mail_tables_same assms(2) by blast
  have cs: "codes (rq_db q1) = codes d" using same by (auto simp: same_tables_iff)
  obtain c0 d2 where 2: "LockOrCreate email PurposeRegistration now (rq_db q1) = (Inr c0, d2)" "mail_tables_ok d2" "0 \<le> vc_send_count c0"
    "c0 = (case code_row d email PurposeRegistration of Some c' \<Rightarrow> c' | None \<Rightarrow> new_code (next_id vc_id (codes d)) email PurposeRegistration now)"
    using LockOrCreate_calm[OF ok, of email PurposeRegistration now, unfolded code_row_same[OF same] cs] by blast
  note run = 1(1) db_call_run[of "LockOrCreate email PurposeRegistration now" q1, OF 2(1), where h = internal_of]
  show ?thesis unfolding 2(4)[symmetric]
  proof (cases "enforceSendRate c0 now")
    case (Inl err)
    then show "fst (send_registration_code srv now (Inr n) (Inr rnd) email ?q) = map_sum id (\<lambda>_. ()) (enforceSendRate c0 now)"
      by (simp add: send_registration_code_def run bind_run lift_result_def)
  next
    case (Inr c)
    note sm = store_and_mail[OF assms(1) _ Inr 2(3), of "q1\<lparr>rq_db := d2\<rparr>"]
    let ?digest = "codeDigest (as_lib srv) (as_cfg srv) PurposeRegistration email (format_06d n)"
    have b: "fst (bind (db_call internal_of (SaveState (mark_sent ?digest now c) now)) (\<lambda>_.
        enqueueVerificationEmail srv (mark_sent ?digest now c) email PurposeRegistration ?digest (format_06d n) now) (q1\<lparr>rq_db := d2\<rparr>)) = Inr ()"
      using sm(1)[of ?digest "format_06d n" False email PurposeRegistration] codeDigest_length[OF assms(1)] code_wellformed[OF assms(3)] 2(2) by simp
    have cnt: "0 \<le> vc_send_count (mark_sent x now c)" "0 \<le> vc_failed_attempts (mark_sent x now c)" for x
      using enforceSendRate_Inr(4,5)[OF Inr] 2(3) by (auto simp: mark_sent_def wrap32_id split: if_splits)
    have r: "fst (db_call internal_of (SaveState (mark_sent x now c) now) (q1\<lparr>rq_db := d2\<rparr>)) = Inr ()" for x
      using SaveState_calm[OF 2(2) cnt[of x], of now] by (auto simp: db_call_def map_err_run repo_run)
    show "fst (send_registration_code srv now (Inr n) (Inr rnd) email ?q) = map_sum id (\<lambda>_. ()) (enforceSendRate c0 now)"
      using b r[of "jwtx_Digest (as_lib srv) rnd"]
      by (simp add: send_registration_code_def run bind_run lift_result_def Inr randomDigest_def generateVerificationCode_def seq_def Let_def)
  qed
qed

lemma send_reset_answer:
  assumes "mail_ready srv" "mail_tables_ok d" "n < 1000000" "normalizeEmail (as_lib srv) raw = Inr email"
  shows "fst (SendPasswordResetCode srv now (Inr n) (Inr rnd) raw (fresh_req d)) = Inr ()"
proof -
  let ?q = "fresh_req d :: auth_fx req"
  have nf: "no_faults (rq_db ?q)" using assms(2) by (simp add: mail_tables_ok_def)
  obtain acc q1 where 1: "reset_account email ?q = (Inr acc, q1)" "reads ?q q1" using reset_account_total[OF nf] by blast
  then have "mail_tables_ok (rq_db q1)" using mail_tables_same[of d "rq_db q1"] assms(2) by (simp add: reads_def)
  from LockOrCreate_calm[OF this, of email PurposePasswordReset now]
  obtain c0 d2 where 2: "LockOrCreate email PurposePasswordReset now (rq_db q1) = (Inr c0, d2)" "mail_tables_ok d2" "0 \<le> vc_send_count c0"
    by blast
  note run = 1(1) db_call_run[of "LockOrCreate email PurposePasswordReset now" q1, OF 2(1), where h = internal_of]
  let ?body = "case enforceSendRate c0 now of
         Inl err \<Rightarrow> if as_rate_limit err = None then fail err else ret ()
       | Inr challenge \<Rightarrow> send_reset_code srv now (Inr n) (Inr rnd) email acc challenge"
  have "fst (?body (q1\<lparr>rq_db := d2\<rparr>)) = Inr ()"
  proof (cases "enforceSendRate c0 now")
    case (Inl err)
    then have "as_rate_limit err \<noteq> None" by (auto elim!: enforceSendRate_Inl simp: rateLimitError_def)
    with Inl show ?thesis by (auto simp: ret_def)
  next
    case (Inr c)
    let ?digest = "codeDigest (as_lib srv) (as_cfg srv) PurposePasswordReset email (format_06d n)"
    have cnt: "0 \<le> vc_send_count (mark_sent x now c)" "0 \<le> vc_failed_attempts (mark_sent x now c)" for x
      using enforceSendRate_Inr(4,5)[OF Inr] 2(3) by (auto simp: mark_sent_def wrap32_id split: if_splits)
    have r: "\<exists>t. db_call internal_of (SaveState (mark_sent x now c) now) (q1\<lparr>rq_db := d2\<rparr>) = (Inr (), t)" for x
      using SaveState_calm[OF 2(2) cnt[of x], of now] by (auto simp: db_call_def map_err_run repo_run)
    show ?thesis
    proof (cases acc)
      case None
      with Inr r[of "jwtx_Digest (as_lib srv) rnd"] show ?thesis
        by (auto simp: send_reset_code_def bind_run lift_result_def generateVerificationCode_def randomDigest_def seq_def Let_def ret_def)
    next
      case (Some u)
      have "fst (bind (db_call internal_of (SaveState (mark_sent ?digest now c) now)) (\<lambda>_.
          enqueueVerificationEmail srv (mark_sent ?digest now c) (u_email u) PurposePasswordReset ?digest (format_06d n) now) (q1\<lparr>rq_db := d2\<rparr>)) = Inr ()"
        using store_and_mail(1)[OF assms(1) _ Inr 2(3), of "q1\<lparr>rq_db := d2\<rparr>" ?digest "format_06d n" False "u_email u" PurposePasswordReset]
          codeDigest_length[OF assms(1)] code_wellformed[OF assms(3)] 2(2) by simp
      with Inr Some show ?thesis
        by (simp add: send_reset_code_def bind_run lift_result_def generateVerificationCode_def seq_def Let_def)
    qed
  qed
  then show ?thesis using assms(1)
    by (simp add: SendPasswordResetCode_def assms(4) mail_ready_def bind_run lift_result_def run)
qed

text \<open>
  C29: asking for a code does not reveal who has an account.  On a working database with a
  configured mail sender, a request for a reset code for any well-formed address is answered with
  success: whether the address belongs to an account, to none or to a deleted one, and whether
  or not the send limit was reached.  A request for a registration code from an allowed domain
  is answered with success or with the rate limit, and which of the two depends on earlier sends
  to that address only.
\<close>

theorem code_requests_reveal_nothing:
  assumes "mail_ready srv" and "mail_tables_ok d" and "n < 1000000" and "normalizeEmail (as_lib srv) raw = Inr email"
  shows "fst (SendPasswordResetCode srv now (Inr n) (Inr rnd) raw (fresh_req d)) = Inr () \<and>
    (domainAllowed (as_lib srv) (as_cfg srv) email \<longrightarrow>
       fst (SendVerificationCode srv now (Inr n) (Inr rnd) raw (fresh_req d)) =
         (case code_row d email PurposeRegistration of None \<Rightarrow> Inr ()
          | Some c \<Rightarrow> map_sum id (\<lambda>_. ()) (enforceSendRate c now)))"
proof -
  have new: "enforceSendRate (new_code i email PurposeRegistration now) now = Inr (new_code i email PurposeRegistration now)" for i
    by (simp add: enforceSendRate_def new_code_def verificationSendWindow_def maxSendsPerWindow_def)
  have "fst (SendVerificationCode srv now (Inr n) (Inr rnd) raw (fresh_req d)) =
         (case code_row d email PurposeRegistration of None \<Rightarrow> Inr ()
          | Some c \<Rightarrow> map_sum id (\<lambda>_. ()) (enforceSendRate c now))"
    if "domainAllowed (as_lib srv) (as_cfg srv) email"
    using send_registration_answer[OF assms(1-3), of now rnd email] assms(1) that
    by (simp add: SendVerificationCode_def assms(4) bind_lift_Inr mail_ready_def new split: option.split)
  with send_reset_answer[OF assms] show ?thesis by blast
qed

theorem code_requests_reveal_nothing_witness:
  "users reset_db \<noteq> [] \<and> users empty_db = [] \<and>
   fst (SendPasswordResetCode sample_service 5 (Inr 7) (Inr ''r'') ''a@b'' (fresh_req reset_db)) = Inr () \<and>
   fst (SendPasswordResetCode sample_service 5 (Inr 7) (Inr ''r'') ''a@b'' (fresh_req empty_db)) = Inr ()"
proof -
  have "length (sample_digest p) = 32" for p by (simp add: sample_digest_def)
  then have ready: "mail_ready sample_service"
    by (simp add: mail_ready_def sample_service_def newAuthService_def sample_cfg_def sample_lib_def emailSenderConfigured_def
        passwordResetSenderConfigured_def)
  have t: "mail_tables_ok reset_db" "mail_tables_ok empty_db"
    by (simp_all add: mail_tables_ok_def no_faults_def codes_ok_def email_table_ok_def reset_db_def empty_db_def reset_challenge_def new_code_def)
  have n: "normalizeEmail (as_lib sample_service) ''a@b'' = Inr ''a@b''" by code_simp
  show ?thesis
    using code_requests_reveal_nothing[OF ready t(1) _ n, of 7 5 "''r''"] code_requests_reveal_nothing[OF ready t(2) _ n, of 7 5 "''r''"]
    by (simp add: empty_db_def)
qed

end
