(* ===== verification/Auth_Register.thy ===== *)
theory Auth_Register
  imports Auth_Accounts
begin

section \<open>Registration: addresses and names have one owner\<close>

text \<open>
  The invariant of \<open>users\<close> and \<open>user_name_claims\<close> and that \<open>AuthService.Register\<close> keeps
  it, on every path, with the unique indexes and the claim trigger as the database has them.
\<close>

subsection \<open>The invariant\<close>

definition name_owned :: "db \<Rightarrow> user \<Rightarrow> bool" where
  "name_owned d u \<longleftrightarrow> (\<exists>c\<in>set (name_claims d). nc_user_id c = u_id u \<and> db_name_fold d (nc_name c) = db_name_fold d (u_name u))"

definition accounts_ok :: "db \<Rightarrow> bool" where
  "accounts_ok d \<longleftrightarrow> distinct (map u_id (users d)) \<and> distinct (map (\<lambda>u. db_lower d (u_email u)) (users d)) \<and>
     distinct (map (\<lambda>c. db_name_fold d (nc_name c)) (name_claims d)) \<and> (\<forall>u\<in>set (users d). name_owned d u)"

text \<open>What the invariant reads.\<close>

definition same_accounts :: "db \<Rightarrow> db \<Rightarrow> bool" where
  "same_accounts d d' \<longleftrightarrow> users d' = users d \<and> name_claims d' = name_claims d \<and> db_lower d' = db_lower d \<and>
     db_name_fold d' = db_name_fold d"

lemma same_accounts_refl [simp]: "same_accounts d d"
  by (simp add: same_accounts_def)

lemma same_accounts_ok: "same_accounts d d' \<Longrightarrow> accounts_ok d' = accounts_ok d"
  by (simp add: same_accounts_def accounts_ok_def name_owned_def)

lemma same_tables_accounts: "same_tables d d' \<Longrightarrow> same_accounts d d'"
  by (auto simp: same_tables_iff same_accounts_def)

definition leaves_accounts :: "(db, 'e, 'a) act \<Rightarrow> bool" where
  "leaves_accounts m \<longleftrightarrow> (\<forall>s. same_accounts s (snd (m s)))"

lemma leaves_query_first: "leaves_accounts (query_first f)"
  by (simp add: leaves_accounts_def query_first_run same_accounts_def)

lemma leaves_query: "leaves_accounts (query f)"
  by (simp add: leaves_accounts_def query_run same_accounts_def)

lemma leaves_SaveState: "leaves_accounts (SaveState ch now)"
  by (simp add: leaves_accounts_def same_accounts_def SaveState_frame)

lemma leaves_session_Create: "leaves_accounts (session_Create r)"
  by (auto simp: leaves_accounts_def session_Create_def stmt_run same_accounts_def Let_def)

lemma leaves_SetRefreshDigest: "leaves_accounts (SetRefreshDigest i h)"
  by (auto simp: leaves_accounts_def SetRefreshDigest_def stmt_run same_accounts_def Let_def)

lemma leaves_CreateModerationRecord: "leaves_accounts (user_CreateModerationRecord r)"
  by (auto simp: leaves_accounts_def user_CreateModerationRecord_def CreateManualRecord_def bind_run stmt_run
      same_accounts_def insert_record_def ret_def)

lemma leaves_keeps: "leaves_accounts m \<Longrightarrow> keeps accounts_ok m"
  unfolding leaves_accounts_def keeps_def using same_accounts_ok by blast

lemmas leaves = leaves_query_first leaves_query leaves_SaveState leaves_session_Create leaves_SetRefreshDigest
  leaves_CreateModerationRecord

subsection \<open>The statements that write accounts\<close>

lemma claim_trigger_Inr:
  assumes "claim_trigger u s = Inr t"
  shows "users t = users s" "db_lower t = db_lower s" "db_name_fold t = db_name_fold s"
    "name_claims t = name_claims s @ (if \<exists>c\<in>set (name_claims s). db_name_fold s (nc_name c) = db_name_fold s (u_name u) then []
       else [\<lparr>nc_user_id = u_id u, nc_name = u_name u, nc_created_at = u_created_at u\<rparr>])"
    "name_owned t u"
proof -
  let ?p = "\<lambda>c. db_name_fold s (nc_name c) = db_name_fold s (u_name u)"
  let ?c = "\<lparr>nc_user_id = u_id u, nc_name = u_name u, nc_created_at = u_created_at u\<rparr>"
  show "users t = users s" "db_lower t = db_lower s" "db_name_fold t = db_name_fold s"
    using assms by (auto simp: claim_trigger_def split: option.splits if_splits)
  have "name_claims t = name_claims s @ (if \<exists>c\<in>set (name_claims s). ?p c then [] else [?c]) \<and> name_owned t u"
  proof (cases "find ?p (name_claims s)")
    case None
    with assms have "t = s\<lparr>name_claims := name_claims s @ [?c]\<rparr>" by (simp add: claim_trigger_def)
    with None show ?thesis by (simp add: find_None_iff name_owned_def)
  next
    case (Some c)
    with assms have "nc_user_id c = u_id u" "t = s" by (simp_all add: claim_trigger_def split: if_splits)
    with find_SomeD[OF Some] show ?thesis by (auto simp: name_owned_def)
  qed
  then show "name_claims t = name_claims s @ (if \<exists>c\<in>set (name_claims s). ?p c then [] else [?c])" "name_owned t u" by auto
qed

lemma accounts_ok_add_claim:
  assumes "accounts_ok s" "\<forall>c\<in>set (name_claims s). db_name_fold s (nc_name c) \<noteq> db_name_fold s (nc_name c')"
  shows "accounts_ok (s\<lparr>name_claims := name_claims s @ [c']\<rparr>)"
  using assms by (auto simp: accounts_ok_def name_owned_def)

lemma user_Create_Inr:
  assumes "user_Create u now s = (Inr v, t)"
  shows "v = u\<lparr>u_id := next_id u_id (users s), u_created_at := now, u_updated_at := now\<rparr>"
    "users t = users s @ [v]" "db_lower t = db_lower s" "db_name_fold t = db_name_fold s" "user_check v"
    "\<forall>w\<in>set (users s). db_lower s (u_email w) \<noteq> db_lower s (u_email u) \<and> db_name_fold s (u_name w) \<noteq> db_name_fold s (u_name u)"
    "name_claims t = name_claims s @ (if \<exists>c\<in>set (name_claims s). db_name_fold s (nc_name c) = db_name_fold s (u_name u) then []
       else [\<lparr>nc_user_id = u_id v, nc_name = u_name v, nc_created_at = u_created_at v\<rparr>])"
    "name_owned t v"
proof -
  let ?u = "u\<lparr>u_id := next_id u_id (users s), u_created_at := now, u_updated_at := now\<rparr>"
  from assms have v: "v = ?u" and c: "claim_trigger ?u (s\<lparr>db_stmts := Suc (db_stmts s), users := users s @ [?u]\<rparr>) = Inr t"
    and k: "user_check ?u"
    and w: "\<forall>w\<in>set (users s). db_lower s (u_email w) \<noteq> db_lower s (u_email u) \<and> db_name_fold s (u_name w) \<noteq> db_name_fold s (u_name u)"
    by (auto simp: user_Create_def stmt_run Let_def list_ex_iff split: if_splits sum.splits)
  from v show "v = ?u" .
  from claim_trigger_Inr[OF c] v k w show "users t = users s @ [v]" "db_lower t = db_lower s" "db_name_fold t = db_name_fold s"
    "user_check v" "\<forall>w\<in>set (users s). db_lower s (u_email w) \<noteq> db_lower s (u_email u) \<and> db_name_fold s (u_name w) \<noteq> db_name_fold s (u_name u)"
    "name_claims t = name_claims s @ (if \<exists>c\<in>set (name_claims s). db_name_fold s (nc_name c) = db_name_fold s (u_name u) then []
       else [\<lparr>nc_user_id = u_id v, nc_name = u_name v, nc_created_at = u_created_at v\<rparr>])" "name_owned t v"
    by simp_all
qed

lemma user_Create_Inl: "user_Create u now s = (Inl e, t) \<Longrightarrow> same_accounts s t"
  by (auto simp: user_Create_def stmt_run Let_def same_accounts_def split: if_splits sum.splits)

lemma user_Create_ok:
  assumes run: "user_Create u now s = (Inr v, t)" and ok: "accounts_ok s"
  shows "accounts_ok t"
proof -
  note c = user_Create_Inr[OF run]
  have old: "name_owned t w" if "w \<in> set (users s)" for w
    using ok that c(4,7) by (auto simp: accounts_ok_def name_owned_def)
  have "distinct (map (\<lambda>c. db_name_fold t (nc_name c)) (name_claims t))"
    using ok c(1,4,7) by (auto simp: accounts_ok_def)
  moreover have "distinct (map u_id (users t))" "distinct (map (\<lambda>u. db_lower t (u_email u)) (users t))"
    using ok c(1,2,3,6) next_id_notin[of u_id "users s"] by (auto simp: accounts_ok_def)
  ultimately show ?thesis using old c(2,8) by (auto simp: accounts_ok_def)
qed

lemma user_Create_keeps: "keeps accounts_ok (user_Create u now)"
  unfolding keeps_def
proof (intro allI impI)
  fix s assume "accounts_ok s"
  then show "accounts_ok (snd (user_Create u now s))"
    using user_Create_ok user_Create_Inl same_accounts_ok by (cases "user_Create u now s"; cases "fst (user_Create u now s)") fastforce+
qed

lemma insert_claim_keeps: "keeps accounts_ok (insert_claim i name now)"
  unfolding keeps_def
proof (intro allI impI)
  fix s assume ok: "accounts_ok s"
  let ?c = "\<lparr>nc_user_id = i, nc_name = name, nc_created_at = now\<rparr>" and ?s = "s\<lparr>db_stmts := Suc (db_stmts s)\<rparr>"
  have ok': "accounts_ok ?s" using ok by (simp add: accounts_ok_def name_owned_def)
  show "accounts_ok (snd (insert_claim i name now s))"
  proof (cases "snd (insert_claim i name now s) = ?s")
    case True
    with ok' show ?thesis by simp
  next
    case False
    then have "snd (insert_claim i name now s) = ?s\<lparr>name_claims := name_claims ?s @ [?c]\<rparr>"
      and "\<forall>c\<in>set (name_claims ?s). db_name_fold ?s (nc_name c) \<noteq> db_name_fold ?s (nc_name ?c)"
      by (auto simp: insert_claim_def stmt_run list_ex_iff split: if_split_asm)
    with accounts_ok_add_claim[OF ok' this(2)] show ?thesis by simp
  qed
qed

lemma ClaimUsername_keeps: "keeps accounts_ok (ClaimUsername i name now)"
  unfolding ClaimUsername_def
  by (intro keeps_bind insert_claim_keeps) (auto intro!: keeps_bind leaves_keeps[OF leaves_query] split: option.split)

lemma ClaimUsername_users: "users (snd (ClaimUsername i name now s)) = users s"
  by (auto simp: ClaimUsername_def insert_claim_def bind_run stmt_run query_run ret_def fail_def split: sum.splits option.splits)

subsection \<open>The service\<close>

abbreviation accounts_kept :: "'a auth_act \<Rightarrow> bool" where
  "accounts_kept m \<equiv> keeps (\<lambda>q. accounts_ok (rq_db q)) m"

lemma db_call_keeps: "keeps accounts_ok m \<Longrightarrow> accounts_kept (db_call h m)"
  by (simp add: keeps_def db_call_def repo_run)

lemma found_or_none_keeps: "keeps accounts_ok m \<Longrightarrow> accounts_kept (found_or_none m)"
  unfolding found_or_none_def
  by (rule keeps_bind) (auto simp: keeps_def attempt_run repo_run ret_def fail_def split: sum.split)

lemma opt_error_keeps: "keeps I (opt_error e)"
  by (auto simp: opt_error_def split: option.split)

lemmas account_keeps = db_call_keeps found_or_none_keeps opt_error_keeps user_Create_keeps ClaimUsername_keeps
  leaves[THEN leaves_keeps]

lemma userView_keeps: "accounts_kept (userView u)"
  unfolding userView_def FindAvatarURL_def FindRoles_def
  by (intro keeps_bind) (auto intro!: account_keeps split: option.split)

lemma issueSession_keeps: "accounts_kept (issueSession srv rnd u client now)"
  unfolding issueSession_def Let_def
  by (intro keeps_bind keeps_seq) (auto intro!: keeps_bind keeps_seq account_keeps userView_keeps)

lemma consumeVerification_keeps: "accounts_kept (consumeVerification srv purpose email code now)"
  unfolding consumeVerification_def LockExisting_def
  by (rule keeps_bind) (auto intro!: keeps_seq account_keeps split: option.split)

lemma create_account_keeps: "accounts_kept (create_account srv clk rnd input client)"
  unfolding create_account_def review_username_def
  by (intro keeps_bind keeps_seq keeps_lift_result issueSession_keeps account_keeps) auto

lemma Register_keeps: "accounts_kept (Register srv clk rnd input client)"
proof -
  have "accounts_kept (if b then fail e else seq (if b' then opt_error x else ret ()) (bind (found_or_none (FindByEmail m True))
      (\<lambda>taken. if taken \<noteq> None then fail e' else seq (if b' then consumeVerification srv purpose m c now else ret ())
        (create_account srv clk rnd i client))))" for b e b' x m e' purpose c now i
    unfolding FindByEmail_def
    by (auto intro!: keeps_seq keeps_bind account_keeps consumeVerification_keeps create_account_keeps)
  then show ?thesis unfolding Register_def by (intro keeps_bind keeps_lift_result)
qed

lemma FindByEmail_accounts: "found_or_none (FindByEmail m b) q = (r, q') \<Longrightarrow> reads q q'"
  unfolding FindByEmail_def by (rule found_or_none_reads)

lemma create_account_Inr:
  assumes "create_account srv clk rnd input client q = (Inr res, q')"
  shows "\<exists>u. users (rq_db q') = users (rq_db q) @ [u] \<and> u_id u = uv_id (ar_user res) \<and> u_email u = ri_email input \<and>
     u_name u = value_or_empty (ri_username input) \<and> u_deleted_at u = None \<and>
     passwordx_Hash (as_lib srv) (ri_password input) = Inr (u_password_hash u) \<and>
     (\<forall>w\<in>set (users (rq_db q)). db_lower (rq_db q) (u_email w) \<noteq> db_lower (rq_db q) (u_email u) \<and>
        db_name_fold (rq_db q) (u_name w) \<noteq> db_name_fold (rq_db q) (u_name u))"
proof -
  from assms obtain review hash user q1 q2 q3 where
    h: "passwordx_Hash (as_lib srv) (ri_password input) = Inr hash"
    and c: "db_call create_user_error (user_Create
            (new_user (ri_email input) hash (value_or_empty (ri_username input)) (genderValue (ri_gender input))) (clk 1)) q = (Inr user, q1)"
    and n: "db_call claim_name_error (ClaimUsername (u_id user) (u_name user) (clk 2)) q1 = (Inr (), q2)"
    and m: "db_call internal_of (user_CreateModerationRecord (moderationRecordForUser (u_id user) FieldName review (clk 3))) q2 = (Inr (), q3)"
    and i: "issueSession srv rnd user client (clk 4) q3 = (Inr res, q')"
    unfolding create_account_def review_username_def seq_def
    by (auto simp: ret_def fail_def split: if_splits elim!: bind_InrE)
  let ?u = "new_user (ri_email input) hash (value_or_empty (ri_username input)) (genderValue (ri_gender input))"
  from c have "user_Create ?u (clk 1) (rq_db q) = (Inr user, rq_db q1)" by (auto simp: db_call_Inr_iff)
  note u = user_Create_Inr[OF this]
  have "users (rq_db q2) = users (rq_db q1)" using n ClaimUsername_users by (auto simp: db_call_Inr_iff) (metis snd_conv)
  moreover have "users (rq_db q3) = users (rq_db q2)"
    using m leaves_CreateModerationRecord by (auto simp: db_call_Inr_iff leaves_accounts_def same_accounts_def) (metis snd_conv)
  moreover have "users (rq_db q') = users (rq_db q3)" using issueSession_Inr(1)[OF i] by (auto dest: users_same)
  ultimately show ?thesis
    using u(1,2,6) h issueSession_Inr(2)[OF i] by (intro exI[of _ user]) (simp add: new_user_def)
qed

definition code_presented :: "auth_service \<Rightarrow> db \<Rightarrow> RegisterInput \<Rightarrow> time \<Rightarrow> bool" where
  "code_presented srv d input now \<longleftrightarrow> (\<exists>c code. ri_code input = Some code \<and>
     code_row d (ri_email input) PurposeRegistration = Some c \<and> code_open now c \<and>
     vc_digest c = codeDigest (as_lib srv) (as_cfg srv) PurposeRegistration (ri_email input) code)"

lemma consume_Inr:
  assumes "consumeVerification srv purpose email code now q = (Inr u, q')"
  shows "\<exists>c. code_row (rq_db q) email purpose = Some c \<and> code_open now c \<and>
     vc_digest c = codeDigest (as_lib srv) (as_cfg srv) purpose email code"
  using consumeVerification_effect[OF assms] by (auto simp: consumed_by_def)

lemma consume_same_accounts:
  "consumeVerification srv purpose email code now q = (r, q') \<Longrightarrow>
   users (rq_db q') = users (rq_db q) \<and> db_lower (rq_db q') = db_lower (rq_db q) \<and> db_name_fold (rq_db q') = db_name_fold (rq_db q)"
  unfolding consumeVerification_def LockExisting_def seq_def
  by (auto simp: bind_run found_or_none_def attempt_run db_call_def map_err_run repo_run query_first_run SaveState_frame ret_def fail_def
      split: sum.splits option.splits if_splits)

lemma Register_Inr:
  assumes "Register srv clk rnd input0 client q = (Inr res, q')"
  obtains input q1 where "normalizeRegister (as_lib srv) input0 = Inr input" "domainAllowed (as_lib srv) (as_cfg srv) (ri_email input)"
    "create_account srv clk rnd input client q1 = (Inr res, q')"
    "users (rq_db q1) = users (rq_db q)" "db_lower (rq_db q1) = db_lower (rq_db q)" "db_name_fold (rq_db q1) = db_name_fold (rq_db q)"
    "cfg_email_verification_required (as_cfg srv) \<longrightarrow> code_presented srv (rq_db q) input (clk 0)"
proof -
  let ?v = "cfg_email_verification_required (as_cfg srv)"
  from assms obtain input q0 q1 where 1: "normalizeRegister (as_lib srv) input0 = Inr input"
      "domainAllowed (as_lib srv) (as_cfg srv) (ri_email input)"
    and 2: "?v \<longrightarrow> validateVerificationCode (ri_code input) = None"
    and 3: "found_or_none (FindByEmail (ri_email input) True) q = (Inr None, q0)"
    and 4: "(if ?v then consumeVerification srv PurposeRegistration (ri_email input) (value_or_empty (ri_code input)) (clk 0)
             else ret ()) q0 = (Inr (), q1)"
    and 5: "create_account srv clk rnd input client q1 = (Inr res, q')"
    unfolding Register_def seq_def by (auto simp: ret_def fail_def split: if_splits elim!: bind_InrE)
  note rd = reads_rows[OF FindByEmail_accounts[OF 3]]
  have st: "same_tables (rq_db q) (rq_db q0)" using FindByEmail_accounts[OF 3] by (simp add: reads_def)
  then have sa: "same_accounts (rq_db q) (rq_db q0)" by (rule same_tables_accounts)
  have "users (rq_db q1) = users (rq_db q0)" "db_lower (rq_db q1) = db_lower (rq_db q0)" "db_name_fold (rq_db q1) = db_name_fold (rq_db q0)"
    using 4 consume_same_accounts by (auto simp: ret_def split: if_splits)
  moreover have "code_presented srv (rq_db q) input (clk 0)" if v: "?v"
  proof -
    from 2 v obtain code where "ri_code input = Some code" by (cases "ri_code input") (auto simp: validateVerificationCode_def)
    moreover from this have "consumeVerification srv PurposeRegistration (ri_email input) code (clk 0) q0 = (Inr (), q1)"
      using 4 v by (simp add: value_or_empty_def)
    from consume_Inr[OF this] have "\<exists>c. code_row (rq_db q) (ri_email input) PurposeRegistration = Some c \<and> code_open (clk 0) c \<and>
        vc_digest c = codeDigest (as_lib srv) (as_cfg srv) PurposeRegistration (ri_email input) code"
      using rd by simp
    ultimately show ?thesis by (auto simp: code_presented_def)
  qed
  ultimately show ?thesis using that 1 5 sa by (auto simp: same_accounts_def)
qed

text \<open>
  C27: registration keeps the accounts consistent on every path, whatever fails: ids and addresses are
  unique, every user holds a claim on the name in use, and a name has one claim.  When it
  succeeds it has added exactly one user, with the normalised address and name and the hash of
  the password that was sent; nobody had the address or the name before, not even a deleted
  account; the address has an allowed domain and, where verification is required, the request
  carried the open code that was mailed to it.
\<close>

theorem Register_sound:
  assumes "accounts_ok (rq_db q)" and "Register srv clk rnd input0 client q = (r, q')"
  shows "accounts_ok (rq_db q') \<and> (\<forall>res. r = Inr res \<longrightarrow> (\<exists>input u.
     normalizeRegister (as_lib srv) input0 = Inr input \<and> domainAllowed (as_lib srv) (as_cfg srv) (ri_email input) \<and>
     users (rq_db q') = users (rq_db q) @ [u] \<and> u_id u = uv_id (ar_user res) \<and> u_email u = ri_email input \<and>
     ri_username input = Some (u_name u) \<and> passwordx_Hash (as_lib srv) (ri_password input0) = Inr (u_password_hash u) \<and>
     (\<forall>w\<in>set (users (rq_db q)). db_lower (rq_db q) (u_email w) \<noteq> db_lower (rq_db q) (u_email u) \<and>
        db_name_fold (rq_db q) (u_name w) \<noteq> db_name_fold (rq_db q) (u_name u)) \<and>
     (cfg_email_verification_required (as_cfg srv) \<longrightarrow> code_presented srv (rq_db q) input (clk 0))))"
proof (intro conjI allI impI)
  show "accounts_ok (rq_db q')" using keepsD[OF Register_keeps, of q srv clk rnd input0 client] assms by simp
next
  fix res assume "r = Inr res"
  with assms(2) obtain input q1 where n: "normalizeRegister (as_lib srv) input0 = Inr input"
    and r: "domainAllowed (as_lib srv) (as_cfg srv) (ri_email input)" "create_account srv clk rnd input client q1 = (Inr res, q')"
    "users (rq_db q1) = users (rq_db q)" "db_lower (rq_db q1) = db_lower (rq_db q)" "db_name_fold (rq_db q1) = db_name_fold (rq_db q)"
    "cfg_email_verification_required (as_cfg srv) \<longrightarrow> code_presented srv (rq_db q) input (clk 0)" using Register_Inr by blast
  from n have i: "ri_password input = ri_password input0" "ri_username input = Some (value_or_empty (ri_username input))"
    by (auto simp: normalizeRegister_def value_or_empty_def split: sum.splits option.splits if_splits)
  from create_account_Inr[OF r(2)] show "\<exists>input u.
     normalizeRegister (as_lib srv) input0 = Inr input \<and> domainAllowed (as_lib srv) (as_cfg srv) (ri_email input) \<and>
     users (rq_db q') = users (rq_db q) @ [u] \<and> u_id u = uv_id (ar_user res) \<and> u_email u = ri_email input \<and>
     ri_username input = Some (u_name u) \<and> passwordx_Hash (as_lib srv) (ri_password input0) = Inr (u_password_hash u) \<and>
     (\<forall>w\<in>set (users (rq_db q)). db_lower (rq_db q) (u_email w) \<noteq> db_lower (rq_db q) (u_email u) \<and>
        db_name_fold (rq_db q) (u_name w) \<noteq> db_name_fold (rq_db q) (u_name u)) \<and>
     (cfg_email_verification_required (as_cfg srv) \<longrightarrow> code_presented srv (rq_db q) input (clk 0))"
    using n r i by auto
qed

subsection \<open>A sample registration\<close>

definition register_db :: db where
  "register_db = empty_db\<lparr>codes := [(new_code 1 ''a@b'' PurposeRegistration 0)\<lparr>vc_expires_at := 600000000000,
     vc_digest := codeDigest sample_lib sample_cfg PurposeRegistration ''a@b'' ''000042''\<rparr>]\<rparr>"

definition sample_register :: "(go_error + AuthResult) \<times> auth_fx req" where
  "sample_register = Register sample_service (\<lambda>_. 0) (Inr ''r'')
     \<lparr>ri_email = '' a@b'', ri_password = ''oldpassword'', ri_code = Some ''000042'', ri_username = Some ''ann'', ri_gender = None\<rparr>
     sample_client (fresh_req register_db)"

theorem Register_sound_witness:
  "accounts_ok (rq_db (snd sample_register)) \<and>
   (\<exists>u. users (rq_db (snd sample_register)) = [u] \<and> u_email u = ''a@b'' \<and> u_name u = ''ann'')"
proof -
  have ok: "accounts_ok (rq_db (fresh_req register_db))"
    by (simp add: accounts_ok_def register_db_def empty_db_def)
  have "map_sum (\<lambda>_. ()) (\<lambda>r. uv_id (ar_user r)) (fst sample_register) = Inr 1" by code_simp
  from ok_run[OF this] obtain res where r: "sample_register = (Inr res, snd sample_register)" by blast
  have n: "normalizeRegister (as_lib sample_service)
      \<lparr>ri_email = '' a@b'', ri_password = ''oldpassword'', ri_code = Some ''000042'', ri_username = Some ''ann'', ri_gender = None\<rparr> =
      Inr \<lparr>ri_email = ''a@b'', ri_password = ''oldpassword'', ri_code = Some ''000042'', ri_username = Some ''ann'', ri_gender = None\<rparr>"
    by code_simp
  have us: "users register_db = []" by (simp add: register_db_def empty_db_def)
  from Register_sound[OF ok r[unfolded sample_register_def]] show ?thesis
    unfolding sample_register_def[symmetric] by (auto simp: n us)
qed

end
