(* ===== verification/Pagination.thy ===== *)
theory Pagination
  imports Auth_Input
begin

section \<open>Page parameters and cursors\<close>

text \<open>
  Models \<open>internal/pkg/pagination\<close>: the strict checks of \<open>page\<close> and \<open>limit\<close>, and the cursor
  codec, which turns a sort key of the database into a token: the key is packed into 17 or 25
  bytes, sealed with AES-GCM under the scope of the list, and written in the URL alphabet of
  base64.  AES-GCM is a parameter; \<open>aead_library\<close> states its law.  A time is nanoseconds since
  1970, and a token keeps microseconds, which is what the database stores.
\<close>

subsection \<open>Page numbers\<close>

definition DefaultPage :: int where "DefaultPage = 1"
definition DefaultLimit :: int where "DefaultLimit = 20"
definition MaxLimit :: int where "MaxLimit = 100"

record page_params =
  pg_page :: int
  pg_limit :: int

definition Offset :: "page_params \<Rightarrow> int" where
  "Offset p = wrap64 (wrap64 (pg_page p - 1) * pg_limit p)"

text \<open>\<open>strconv.Atoi\<close> agrees with \<open>ParseInt\<close> to base 10 where \<open>int\<close> has 64 bits.\<close>

definition parseOne :: "string \<Rightarrow> string \<Rightarrow> int \<Rightarrow> int \<Rightarrow> int \<Rightarrow> go_error + int" where
  "parseOne raw field defaultValue minimum maximum =
     (if raw = [] then Inr defaultValue
      else case ParseInt raw of
        None \<Rightarrow> Inl (InvalidField field FieldInvalidFormat)
      | Some v \<Rightarrow>
          if v < minimum then Inl (InvalidField field FieldOutOfRange)
          else if maximum > 0 \<and> v > maximum then Inl (InvalidField field FieldOutOfRange)
          else Inr v)"

definition page_Parse :: "string \<Rightarrow> string \<Rightarrow> go_error + page_params" where
  "page_Parse rawPage rawLimit =
     (case parseOne rawPage ''page'' DefaultPage 1 0 of
        Inl err \<Rightarrow> Inl err
      | Inr page \<Rightarrow> (case parseOne rawLimit ''limit'' DefaultLimit 1 MaxLimit of
            Inl err \<Rightarrow> Inl err
          | Inr limit \<Rightarrow> Inr \<lparr>pg_page = page, pg_limit = limit\<rparr>))"

record page_meta =
  pm_page :: int
  pm_limit :: int
  pm_total :: int
  pm_total_pages :: int

text \<open>Go divides towards zero; the operands are not negative where the limit is positive.\<close>

definition NewMeta :: "page_params \<Rightarrow> int \<Rightarrow> page_meta" where
  "NewMeta p rows = \<lparr>pm_page = pg_page p, pm_limit = pg_limit p, pm_total = rows,
     pm_total_pages = (if pg_limit p > 0
        then sgn (wrap64 (rows + pg_limit p - 1)) * (abs (wrap64 (rows + pg_limit p - 1)) div pg_limit p) else 0)\<rparr>"

text \<open>The answer of a list that is read with a cursor.\<close>

record CursorMeta =
  mt_limit :: int
  mt_next_cursor :: "string option"
  mt_has_more :: bool

subsection \<open>Base64\<close>

definition url_alphabet :: string where
  "url_alphabet = ''ABCDEFGHIJKLMNOPQRSTUVWXYZabcdefghijklmnopqrstuvwxyz0123456789-_''"

definition url_char :: "int \<Rightarrow> char" where
  "url_char n = url_alphabet ! nat n"

fun sextets :: "byte list \<Rightarrow> int list" where
  "sextets [] = []"
| "sextets [a] = [uint a div 4, uint a mod 4 * 16]"
| "sextets [a, b] = [uint a div 4, uint a mod 4 * 16 + uint b div 16, uint b mod 16 * 4]"
| "sextets (a # b # c # bs) =
     [uint a div 4, uint a mod 4 * 16 + uint b div 16, uint b mod 16 * 4 + uint c div 64, uint c mod 64] @ sextets bs"

definition base64_encode :: "byte list \<Rightarrow> string" where
  "base64_encode bs = map url_char (sextets bs)"

definition url_value :: "char \<Rightarrow> int option" where
  "url_value c = map_option fst (find (\<lambda>(i, d). d = c) (zip [0..63] url_alphabet))"

fun unsextets :: "int list \<Rightarrow> byte list option" where
  "unsextets [] = Some []"
| "unsextets [p] = None"
| "unsextets [p, q] = Some [word_of_int (p * 4 + q div 16)]"
| "unsextets [p, q, r] = Some [word_of_int (p * 4 + q div 16), word_of_int (q mod 16 * 16 + r div 4)]"
| "unsextets (p # q # r # s # xs) = map_option (\<lambda>bs.
     [word_of_int (p * 4 + q div 16), word_of_int (q mod 16 * 16 + r div 4), word_of_int (r mod 4 * 64 + s)] @ bs) (unsextets xs)"

text \<open>\<open>RawURLEncoding.DecodeString\<close> skips line ends and ignores the unused bits of the last character.\<close>

definition base64_decode :: "string \<Rightarrow> byte list option" where
  "base64_decode s =
     (let ds = map url_value (filter (\<lambda>c. c \<noteq> CHR 0x0A \<and> c \<noteq> CHR 0x0D) s)
      in if None \<in> set ds then None else unsextets (map the ds))"

subsection \<open>The codec\<close>

record aead_lib =
  aead_seal :: "byte list \<Rightarrow> byte list \<Rightarrow> byte list \<Rightarrow> string \<Rightarrow> byte list"
  aead_open :: "byte list \<Rightarrow> byte list \<Rightarrow> byte list \<Rightarrow> string \<Rightarrow> byte list option"

definition NonceSize :: nat where "NonceSize = 12"
definition Overhead :: nat where "Overhead = 16"

record CursorCodec =
  cc_lib :: aead_lib
  cc_key :: "byte list"
  cc_scope :: string

definition NewCursorCodec :: "auth_lib \<Rightarrow> aead_lib \<Rightarrow> string \<Rightarrow> string \<Rightarrow> CursorCodec" where
  "NewCursorCodec lib aead secret scope =
     \<lparr>cc_lib = aead, cc_key = lib_sha256 lib (''danshi-cursor-v1'' @ [CHR 0x00] @ secret), cc_scope = scope\<rparr>"

record Cursor =
  cu_created_at :: time
  cu_id :: row_id
  cu_rank :: "int option"

record CursorRequest =
  cr_token :: string
  cr_limit :: int

record CursorParams =
  cp_after :: "Cursor option"
  cp_limit :: int

definition ParseCursorRequest :: "string \<Rightarrow> string \<Rightarrow> go_error + CursorRequest" where
  "ParseCursorRequest rawCursor rawLimit =
     map_sum id (\<lambda>limit. \<lparr>cr_token = rawCursor, cr_limit = limit\<rparr>) (parseOne rawLimit ''limit'' DefaultLimit 1 MaxLimit)"

text \<open>\<open>binary.BigEndian\<close>.\<close>

definition put_uint64 :: "64 word \<Rightarrow> byte list" where
  "put_uint64 w = map (\<lambda>i. word_of_int (uint w div 256 ^ i)) [7, 6, 5, 4, 3, 2, 1, 0]"

definition get_uint64 :: "byte list \<Rightarrow> 64 word" where
  "get_uint64 bs = word_of_int (foldl (\<lambda>v b. v * 256 + uint b) 0 bs)"

text \<open>\<open>time.Time.IsZero\<close>: the first of January of the year 1.\<close>

definition zero_time :: time where
  "zero_time = - 62135596800000000000"

definition cursorVersion :: byte where "cursorVersion = 1"
definition rankedCursorVersion :: byte where "rankedCursorVersion = 2"

abbreviation "ErrInvalidCursor \<equiv> PlainErr ''pagination.ErrInvalidCursor''"

definition cursor_payload :: "Cursor \<Rightarrow> byte list" where
  "cursor_payload value =
     (if cu_rank value \<noteq> None then rankedCursorVersion else cursorVersion) #
     put_uint64 (word_of_int (cu_created_at value div 1000)) @ put_uint64 (of_nat (cu_id value)) @
     (case cu_rank value of None \<Rightarrow> [] | Some rank \<Rightarrow> put_uint64 (word_of_int rank))"

definition Cursor_Encode :: "CursorCodec \<Rightarrow> go_error + byte list \<Rightarrow> Cursor \<Rightarrow> go_error + string" where
  "Cursor_Encode c random value =
     (if cu_created_at value = zero_time \<or> cu_id value = 0 then Inl ErrInvalidCursor
      else case random of Inl err \<Rightarrow> Inl err
        | Inr nonce \<Rightarrow> Inr (base64_encode (nonce @
            aead_seal (cc_lib c) (cc_key c) nonce (cursor_payload value) (cc_scope c))))"

definition validCursorPayload :: "byte list \<Rightarrow> bool" where
  "validCursorPayload payload \<longleftrightarrow> length payload = 17 \<and> payload ! 0 = cursorVersion \<or>
     length payload = 25 \<and> payload ! 0 = rankedCursorVersion"

definition cursor_of_payload :: "byte list \<Rightarrow> Cursor" where
  "cursor_of_payload payload =
     \<lparr>cu_created_at = sint (get_uint64 (take 8 (drop 1 payload))) * 1000,
      cu_id = unat (get_uint64 (take 8 (drop 9 payload))),
      cu_rank = (if payload ! 0 = rankedCursorVersion then Some (sint (get_uint64 (take 8 (drop 17 payload)))) else None)\<rparr>"

definition Cursor_Decode :: "CursorCodec \<Rightarrow> string \<Rightarrow> go_error + Cursor option" where
  "Cursor_Decode c raw =
     (if raw = [] then Inr None
      else case base64_decode raw of None \<Rightarrow> Inl ErrInvalidCursor
      | Some sealed \<Rightarrow>
          if length sealed < NonceSize + Overhead then Inl ErrInvalidCursor
          else case aead_open (cc_lib c) (cc_key c) (take NonceSize sealed) (drop NonceSize sealed) (cc_scope c) of
            None \<Rightarrow> Inl ErrInvalidCursor
          | Some payload \<Rightarrow>
              if \<not> validCursorPayload payload then Inl ErrInvalidCursor
              else if unat (get_uint64 (take 8 (drop 9 payload))) = 0 then Inl ErrInvalidCursor
              else Inr (Some (cursor_of_payload payload)))"

definition DecodeRequest :: "CursorCodec \<Rightarrow> CursorRequest \<Rightarrow> go_error + CursorParams" where
  "DecodeRequest c request =
     (case Cursor_Decode c (cr_token request) of
        Inl _ \<Rightarrow> Inl (InvalidField ''cursor'' FieldInvalidFormat)
      | Inr after \<Rightarrow> Inr \<lparr>cp_after = after, cp_limit = cr_limit request\<rparr>)"

text \<open>
  The law of AES-GCM: sealing appends a tag of 16 bytes, and a ciphertext opens to a plain text
  exactly if sealing it under the same key, nonce and additional data gives the ciphertext.
\<close>

definition aead_library :: "aead_lib \<Rightarrow> bool" where
  "aead_library lib \<longleftrightarrow>
     (\<forall>key nonce p ad. length (aead_seal lib key nonce p ad) = length p + Overhead) \<and>
     (\<forall>key nonce ct p ad. aead_open lib key nonce ct ad = Some p \<longleftrightarrow> aead_seal lib key nonce p ad = ct)"

subsection \<open>Facts: base64 and big-endian numbers\<close>

lemma url_value_char: "0 \<le> n \<Longrightarrow> n < 64 \<Longrightarrow> url_value (url_char n) = Some n"
proof -
  have "list_all (\<lambda>n. url_value (url_char n) = Some n) [0..63]" by code_simp
  then show "0 \<le> n \<Longrightarrow> n < 64 \<Longrightarrow> url_value (url_char n) = Some n" by (simp add: list_all_iff)
qed

lemma url_char_line: "0 \<le> n \<Longrightarrow> n < 64 \<Longrightarrow> url_char n \<noteq> CHR 0x0A \<and> url_char n \<noteq> CHR 0x0D"
proof -
  have "list_all (\<lambda>n. url_char n \<noteq> CHR 0x0A \<and> url_char n \<noteq> CHR 0x0D) [0..63]" by code_simp
  then show "0 \<le> n \<Longrightarrow> n < 64 \<Longrightarrow> url_char n \<noteq> CHR 0x0A \<and> url_char n \<noteq> CHR 0x0D" by (simp add: list_all_iff)
qed

lemma uint_byte: "0 \<le> uint (b :: byte)" "uint (b :: byte) < 256"
  using unsigned_less[of b, where ?'a = int] by simp_all

lemma word_of_int_byte: "n mod 256 = uint b \<Longrightarrow> (word_of_int n :: byte) = b"
  by (rule unsigned_word_eqI[where ?'a = int]) (simp add: uint_word_of_int)

lemma sextet_parts:
  fixes a b c :: int
  assumes "0 \<le> a" "a < 256" "0 \<le> b" "b < 256" "0 \<le> c" "c < 256"
  shows "(a div 4) * 4 + (a mod 4 * 16 + b div 16) div 16 = a"
    "(a mod 4 * 16 + b div 16) mod 16 * 16 + (b mod 16 * 4 + c div 64) div 4 = b"
    "(b mod 16 * 4 + c div 64) mod 4 * 64 + c mod 64 = c"
    "0 \<le> a div 4" "a div 4 < 64" "0 \<le> a mod 4 * 16 + b div 16" "a mod 4 * 16 + b div 16 < 64"
    "0 \<le> b mod 16 * 4 + c div 64" "b mod 16 * 4 + c div 64 < 64" "0 \<le> c mod 64" "c mod 64 < 64"
proof -
  have d: "0 \<le> b div 16" "b div 16 < 16" "0 \<le> c div 64" "c div 64 < 4" "0 \<le> a mod 4" "a mod 4 < 4" "0 \<le> b mod 16" "b mod 16 < 16"
    using assms by auto
  have e: "(x * 16 + b div 16) div 16 = x" "(x * 16 + b div 16) mod 16 = b div 16"
    "(x * 4 + c div 64) div 4 = x" "(x * 4 + c div 64) mod 4 = c div 64" for x
    using d by (simp_all add: div_add1_eq)
  show "(a div 4) * 4 + (a mod 4 * 16 + b div 16) div 16 = a"
    "(a mod 4 * 16 + b div 16) mod 16 * 16 + (b mod 16 * 4 + c div 64) div 4 = b"
    "(b mod 16 * 4 + c div 64) mod 4 * 64 + c mod 64 = c" using d by (simp_all add: e mod_pos_pos_trivial)
  show "0 \<le> a div 4" "a div 4 < 64" "0 \<le> c mod 64" "c mod 64 < 64" using assms by auto
  show "0 \<le> a mod 4 * 16 + b div 16" "a mod 4 * 16 + b div 16 < 64"
    "0 \<le> b mod 16 * 4 + c div 64" "b mod 16 * 4 + c div 64 < 64" using d by linarith+
qed

lemma sextets_less: "\<forall>n\<in>set (sextets bs). 0 \<le> n \<and> n < 64"
proof (induction bs rule: sextets.induct)
  case (2 a)
  show ?case using sextet_parts(4-7)[of "uint a" 0 0] uint_byte[of a] by simp
next
  case (3 a b)
  have "0 \<le> n \<and> n < 64" if "n \<in> {uint a div 4, uint a mod 4 * 16 + uint b div 16, uint b mod 16 * 4 + 0 div 64}" for n
    using that sextet_parts(4-9)[OF uint_byte(1,2)[of a] uint_byte(1,2)[of b], of 0] by force
  then show ?case by auto
next
  case (4 a b c bs)
  note p = sextet_parts(4-11)[OF uint_byte(1,2)[of a] uint_byte(1,2)[of b] uint_byte(1,2)[of c]]
  have "\<forall>n\<in>set [uint a div 4, uint a mod 4 * 16 + uint b div 16, uint b mod 16 * 4 + uint c div 64, uint c mod 64]. 0 \<le> n \<and> n < 64"
    by (simp only: list.set ball_simps p simp_thms)
  with 4 show ?case by (simp only: sextets.simps set_append ball_Un simp_thms)
qed simp

lemma sextet_bytes:
  "(word_of_int ((uint a div 4) * 4 + (uint a mod 4 * 16) div 16) :: byte) = a"
  "(word_of_int ((uint a div 4) * 4 + (uint a mod 4 * 16 + uint b div 16) div 16) :: byte) = a"
  "(word_of_int ((uint a mod 4 * 16 + uint b div 16) mod 16 * 16 + (uint b mod 16 * 4) div 4) :: byte) = b"
  "(word_of_int ((uint a mod 4 * 16 + uint b div 16) mod 16 * 16 + (uint b mod 16 * 4 + uint c div 64) div 4) :: byte) = b"
  "(word_of_int ((uint b mod 16 * 4 + uint c div 64) mod 4 * 64 + uint c mod 64) :: byte) = c"
  using sextet_parts(1)[of "uint a" 0 0] sextet_parts(1,2)[of "uint a" "uint b" 0] sextet_parts(2,3)[of "uint a" "uint b" "uint c"]
  by (simp_all only: uint_byte word_of_int_uint order_refl zero_less_numeral div_0 add_0_right simp_thms)

lemma unsextets_sextets: "unsextets (sextets bs) = Some bs"
  by (induction bs rule: sextets.induct) (simp_all only: sextets.simps unsextets.simps append.simps sextet_bytes option.map)

lemma base64_roundtrip: "base64_decode (base64_encode bs) = Some bs"
proof -
  have "filter (\<lambda>c. c \<noteq> CHR 0x0A \<and> c \<noteq> CHR 0x0D) (base64_encode bs) = base64_encode bs"
    using sextets_less[of bs] by (auto simp: base64_encode_def filter_id_conv url_char_line)
  moreover have "map url_value (base64_encode bs) = map Some (sextets bs)"
    using sextets_less[of bs] by (simp add: base64_encode_def url_value_char)
  ultimately show ?thesis by (simp add: base64_decode_def Let_def unsextets_sextets comp_def del: One_nat_def)
qed

abbreviation bytes_value :: "int \<Rightarrow> byte list \<Rightarrow> int" where
  "bytes_value v bs \<equiv> foldl (\<lambda>v b. v * 256 + uint b) v bs"

lemma put_uint64_rev: "put_uint64 w = map (\<lambda>i. word_of_int (uint w div 256 ^ i)) (rev [0..<8])"
  by (simp add: put_uint64_def upt_rec)

lemma bytes_value_digits: "bytes_value v (map (\<lambda>i. word_of_int (n div 256 ^ i)) (rev [0..<k])) = v * 256 ^ k + n mod 256 ^ k"
proof (induction k arbitrary: v)
  case (Suc k)
  have "n mod (256 ^ k * 256) = 256 ^ k * (n div 256 ^ k mod 256) + n mod 256 ^ k" by (rule zmod_zmult2_eq) simp
  with Suc show ?case by (simp add: uint_word_of_int algebra_simps)
qed simp

lemma get_put_uint64: "get_uint64 (put_uint64 w) = w"
proof -
  have "0 \<le> uint w" "uint w < 2 ^ 64" using unsigned_less[of w, where ?'a = int] by simp_all
  then show ?thesis by (simp add: get_uint64_def put_uint64_rev bytes_value_digits del: upt_rec_numeral)
qed

lemma length_put_uint64 [simp]: "length (put_uint64 w) = 8"
  by (simp add: put_uint64_def)

lemma bytes_value_less: "0 \<le> bytes_value 0 bs \<and> bytes_value 0 bs < 256 ^ length bs"
proof (induction bs rule: rev_induct)
  case (snoc b bs)
  then show ?case using uint_byte[of b] by simp
qed simp

lemma digits_bytes_value: "map (\<lambda>i. word_of_int (bytes_value 0 bs div 256 ^ i)) (rev [0..<length bs]) = bs"
proof (induction bs rule: rev_induct)
  case (snoc b bs)
  have r: "rev [0..<Suc k] = map Suc (rev [0..<k]) @ [0]" for k
    by (simp add: upt_conv_Cons map_Suc_upt del: upt_Suc flip: rev_map)
  have d: "(v * 256 + uint b) div 256 = v" for v using uint_byte[of b] by simp
  have "(word_of_int ((bytes_value 0 bs * 256 + uint b) div 256 ^ Suc i) :: byte) = word_of_int (bytes_value 0 bs div 256 ^ i)" for i
    using zdiv_zmult2_eq[of "256 ^ i" "bytes_value 0 bs * 256 + uint b" 256] by (simp add: d)
  moreover have "(word_of_int (bytes_value 0 bs * 256 + uint b) :: byte) = b" using uint_byte[of b] by (intro word_of_int_byte) simp
  ultimately show ?case using snoc by (simp add: r comp_def del: upt_Suc power_Suc)
qed simp

lemma put_get_uint64: "length bs = 8 \<Longrightarrow> put_uint64 (get_uint64 bs) = bs"
proof -
  assume l: "length bs = 8"
  with bytes_value_less[of bs] have "uint (get_uint64 bs) = bytes_value 0 bs" by (simp add: get_uint64_def uint_word_of_int)
  with digits_bytes_value[of bs] l show ?thesis by (simp add: put_uint64_rev del: upt_rec_numeral)
qed

lemma sint_word_of_int: "- (2 ^ 63) \<le> x \<Longrightarrow> x < 2 ^ 63 \<Longrightarrow> sint (word_of_int x :: 64 word) = x"
  by (simp add: signed_of_int signed_take_bit_int_eq_self)

subsection \<open>Facts: the codec\<close>

definition cursor_ok :: "Cursor \<Rightarrow> bool" where
  "cursor_ok v \<longleftrightarrow> cu_created_at v \<noteq> zero_time \<and> 0 < cu_id v \<and> cu_id v < 2 ^ 64 \<and> cu_created_at v mod 1000 = 0 \<and>
     - (2 ^ 63) \<le> cu_created_at v div 1000 \<and> cu_created_at v div 1000 < 2 ^ 63 \<and>
     (case cu_rank v of None \<Rightarrow> True | Some r \<Rightarrow> - (2 ^ 63) \<le> r \<and> r < 2 ^ 63)"

lemma payload_fields:
  assumes "cursor_ok v"
  shows "validCursorPayload (cursor_payload v)" "cursor_of_payload (cursor_payload v) = v"
    "unat (get_uint64 (take 8 (drop 9 (cursor_payload v)))) = cu_id v"
proof -
  show id: "unat (get_uint64 (take 8 (drop 9 (cursor_payload v)))) = cu_id v"
    using assms by (cases "cu_rank v") (simp_all add: cursor_payload_def get_put_uint64 unat_of_nat cursor_ok_def)
  have t: "cu_created_at v div 1000 * 1000 = cu_created_at v" using assms by (auto simp: cursor_ok_def)
  show "validCursorPayload (cursor_payload v)"
    by (cases "cu_rank v") (simp_all add: cursor_payload_def validCursorPayload_def)
  have "cu_created_at (cursor_of_payload (cursor_payload v)) = cu_created_at v"
    using assms t by (simp add: cursor_of_payload_def cursor_payload_def get_put_uint64 sint_word_of_int cursor_ok_def)
  moreover have "cu_rank (cursor_of_payload (cursor_payload v)) = cu_rank v"
    using assms by (cases "cu_rank v") (simp_all add: cursor_of_payload_def cursor_payload_def get_put_uint64 sint_word_of_int
      cursor_ok_def cursorVersion_def rankedCursorVersion_def)
  moreover have "cu_id (cursor_of_payload (cursor_payload v)) = cu_id v" using id by (simp add: cursor_of_payload_def)
  ultimately show "cursor_of_payload (cursor_payload v) = v" by simp
qed

lemma cursor_carried:
  assumes "aead_library (cc_lib c)" and "length nonce = NonceSize" and "cursor_ok v"
  shows "\<exists>token. Cursor_Encode c (Inr nonce) v = Inr token \<and> token \<noteq> [] \<and> Cursor_Decode c token = Inr (Some v)"
proof -
  let ?ct = "aead_seal (cc_lib c) (cc_key c) nonce (cursor_payload v) (cc_scope c)"
  let ?token = "base64_encode (nonce @ ?ct)"
  have e: "Cursor_Encode c (Inr nonce) v = Inr ?token" using assms(3) by (simp add: Cursor_Encode_def cursor_ok_def)
  have "base64_encode [] = []" by (simp add: base64_encode_def)
  with base64_roundtrip[of "[]"] base64_roundtrip[of "nonce @ ?ct"] assms(2) have ne: "?token \<noteq> []"
    by (auto simp: NonceSize_def)
  have "length ?ct = length (cursor_payload v) + Overhead" "aead_open (cc_lib c) (cc_key c) nonce ?ct (cc_scope c) = Some (cursor_payload v)"
    using assms(1) by (simp_all add: aead_library_def)
  then have "Cursor_Decode c ?token = Inr (Some v)"
    using ne payload_fields[OF assms(3)] assms(2,3) by (simp add: Cursor_Decode_def base64_roundtrip cursor_ok_def)
  with e ne show ?thesis by blast
qed

text \<open>
  C31: a cursor survives the trip through the client: for a row of the database (a time in whole
  microseconds, a key that fits its columns) the token is not empty and decodes to the cursor
  that was encoded, whatever nonce was drawn, with and without a rank.
\<close>

theorem cursor_roundtrip:
  assumes "aead_library (cc_lib c)" and "length nonce = NonceSize" and "cursor_ok v"
  shows "\<exists>token. Cursor_Encode c (Inr nonce) v = Inr token \<and> token \<noteq> [] \<and> Cursor_Decode c token = Inr (Some v)"
  using cursor_carried[OF assms] .

lemma take_drop_8: "length p = 17 \<or> length p = 25 \<Longrightarrow> p = p ! 0 # take 8 (drop 1 p) @ take 8 (drop 9 p) @ drop 17 p"
  using append_take_drop_id[of 8 "drop 1 p"] append_take_drop_id[of 8 "drop 9 p"] by (cases p) auto

lemma payload_of_cursor:
  assumes "validCursorPayload p"
  shows "cursor_payload (cursor_of_payload p) = p"
proof -
  note One_nat_def [simp del]
  have l: "length p = 17 \<or> length p = 25" using assms by (auto simp: validCursorPayload_def)
  have w: "word_of_int (sint (x :: 64 word)) = x" "of_nat (unat x) = x" for x by simp_all
  have 1: "put_uint64 (get_uint64 (take 8 (drop 1 p))) = take 8 (drop 1 p)"
    "put_uint64 (get_uint64 (take 8 (drop 9 p))) = take 8 (drop 9 p)" using l by (auto intro!: put_get_uint64)
  have 2: "length p = 25 \<Longrightarrow> put_uint64 (get_uint64 (drop 17 p)) = drop 17 p" by (rule put_get_uint64) simp
  show ?thesis using assms take_drop_8[OF l]
    by (auto simp: cursor_payload_def cursor_of_payload_def validCursorPayload_def 1 2 cursorVersion_def rankedCursorVersion_def)
qed

text \<open>
  C32: a token that is accepted was made for this list: it carries, under the codec's own key and
  scope, the sealed form of exactly the cursor it decodes to.  Every other token, a forged one or
  one of another list, is answered with 422 for the field \<open>cursor\<close>.
\<close>

theorem cursor_authentic:
  assumes "aead_library (cc_lib c)"
  shows "(case DecodeRequest c request of
      Inr params \<Rightarrow> cp_limit params = cr_limit request \<and> (case cp_after params of
          None \<Rightarrow> cr_token request = []
        | Some v \<Rightarrow> 0 < cu_id v \<and> (\<exists>nonce. length nonce = NonceSize \<and> base64_decode (cr_token request) =
            Some (nonce @ aead_seal (cc_lib c) (cc_key c) nonce (cursor_payload v) (cc_scope c))))
    | Inl err \<Rightarrow> err = InvalidField ''cursor'' FieldInvalidFormat)"
proof (cases "Cursor_Decode c (cr_token request)")
  case (Inl e)
  then show ?thesis by (simp add: DecodeRequest_def)
next
  case (Inr after)
  show ?thesis
  proof (cases after)
    case None
    with Inr show ?thesis by (auto simp: DecodeRequest_def Cursor_Decode_def split: option.splits if_splits)
  next
    case (Some v)
    with Inr obtain sealed payload where s: "base64_decode (cr_token request) = Some sealed" "NonceSize + Overhead \<le> length sealed"
      and o: "aead_open (cc_lib c) (cc_key c) (take NonceSize sealed) (drop NonceSize sealed) (cc_scope c) = Some payload"
      and p: "validCursorPayload payload" "unat (get_uint64 (take 8 (drop 9 payload))) \<noteq> 0" "v = cursor_of_payload payload"
      by (auto simp: Cursor_Decode_def not_less split: option.splits if_splits)
    from o assms have "aead_seal (cc_lib c) (cc_key c) (take NonceSize sealed) payload (cc_scope c) = drop NonceSize sealed"
      by (simp add: aead_library_def)
    with s p payload_of_cursor[OF p(1)]
    have "\<exists>nonce. length nonce = NonceSize \<and> base64_decode (cr_token request) =
        Some (nonce @ aead_seal (cc_lib c) (cc_key c) nonce (cursor_payload v) (cc_scope c))"
      by (intro exI[of _ "take NonceSize sealed"]) auto
    moreover have "0 < cu_id v" using p(2,3) by (simp add: cursor_of_payload_def)
    ultimately show ?thesis using Inr Some by (simp add: DecodeRequest_def)
  qed
qed

subsection \<open>Facts: page numbers\<close>

lemma parseOne_Inr:
  "parseOne raw field d minimum maximum = Inr v \<longleftrightarrow>
     (raw = [] \<and> v = d) \<or> (raw \<noteq> [] \<and> ParseInt raw = Some v \<and> minimum \<le> v \<and> (maximum > 0 \<longrightarrow> v \<le> maximum))"
  by (auto simp: parseOne_def split: option.splits)

lemma parseOne_Inl:
  "parseOne raw field d minimum maximum = Inl e \<Longrightarrow>
     raw \<noteq> [] \<and> (e = InvalidField field FieldInvalidFormat \<and> ParseInt raw = None \<or>
       e = InvalidField field FieldOutOfRange \<and> (\<exists>v. ParseInt raw = Some v \<and> (v < minimum \<or> 0 < maximum \<and> maximum < v)))"
  by (auto simp: parseOne_def split: option.splits if_splits)

text \<open>
  Page parameters are checked, never adjusted.  What is accepted is an integer in range or a
  default; anything else is an error that names the field.  The offset of an accepted page is
  exact up to page 92233720368547759; a later page can make it wrap to a negative number, which
  the query builder ignores.
\<close>

theorem page_Parse_strict:
  "(case page_Parse rawPage rawLimit of
      Inr p \<Rightarrow> (if rawPage = [] then pg_page p = DefaultPage else ParseInt rawPage = Some (pg_page p)) \<and> 1 \<le> pg_page p \<and>
        (if rawLimit = [] then pg_limit p = DefaultLimit else ParseInt rawLimit = Some (pg_limit p)) \<and>
        1 \<le> pg_limit p \<and> pg_limit p \<le> MaxLimit \<and>
        (if pg_page p \<le> 92233720368547759 then Offset p = (pg_page p - 1) * pg_limit p else True)
    | Inl err \<Rightarrow> (\<exists>field\<in>{''page'', ''limit''}. \<exists>code\<in>{FieldInvalidFormat, FieldOutOfRange}. err = InvalidField field code)) \<and>
   map_sum id Offset (page_Parse ''461168601842738792'' ''20'') = Inr (- 9223372036854775796)"
proof -
  have off: "Offset p = (pg_page p - 1) * pg_limit p"
    if "1 \<le> pg_page p" "pg_page p \<le> 92233720368547759" "1 \<le> pg_limit p" "pg_limit p \<le> 100" for p
  proof -
    have w: "wrap64 x = x" if "x \<le> 92233720368547758 * 100" "0 \<le> x" for x
      using that by (intro wrap64_id) simp_all
    have "(pg_page p - 1) * pg_limit p \<le> 92233720368547758 * 100" using that by (intro mult_mono) auto
    then have "wrap64 ((pg_page p - 1) * pg_limit p) = (pg_page p - 1) * pg_limit p" using that by (intro w) auto
    moreover have "wrap64 (pg_page p - 1) = pg_page p - 1" using that by (intro w) auto
    ultimately show ?thesis by (simp add: Offset_def)
  qed
  have ex: "map_sum id Offset (page_Parse ''461168601842738792'' ''20'') = Inr (- 9223372036854775796)" by code_simp
  show ?thesis
  proof (cases "page_Parse rawPage rawLimit")
    case (Inl e)
    then show ?thesis using ex
      by (auto simp: page_Parse_def split: sum.splits dest!: parseOne_Inl)
  next
    case (Inr p)
    then have 1: "parseOne rawPage ''page'' DefaultPage 1 0 = Inr (pg_page p)"
      "parseOne rawLimit ''limit'' DefaultLimit 1 MaxLimit = Inr (pg_limit p)"
      by (auto simp: page_Parse_def split: sum.splits)
    then have 2: "1 \<le> pg_page p" "1 \<le> pg_limit p" "pg_limit p \<le> 100"
      by (auto simp: parseOne_Inr DefaultPage_def DefaultLimit_def MaxLimit_def)
    with 1 off[of p] ex Inr show ?thesis by (auto simp: parseOne_Inr MaxLimit_def)
  qed
qed

subsection \<open>A sample codec\<close>

text \<open>A reversible stand-in for AES-GCM, for evaluation: key length, nonce and scope pad the tag.\<close>

definition sample_tag :: "byte list \<Rightarrow> byte list \<Rightarrow> string \<Rightarrow> byte list" where
  "sample_tag key nonce ad = take 16 (key @ nonce @ map of_char ad @ replicate 16 0)"

definition sample_aead :: aead_lib where
  "sample_aead = \<lparr>aead_seal = (\<lambda>key nonce p ad. p @ sample_tag key nonce ad),
     aead_open = (\<lambda>key nonce ct ad. if drop (length ct - 16) ct = sample_tag key nonce ad then Some (take (length ct - 16) ct) else None)\<rparr>"

lemma sample_aead_library: "aead_library sample_aead"
proof -
  have l: "length (sample_tag key nonce ad) = 16" for key nonce ad by (simp add: sample_tag_def)
  have "(if drop (length ct - 16) ct = t then Some (take (length ct - 16) ct) else None) = Some p \<longleftrightarrow> p @ t = ct"
    if "length t = 16" for ct t p :: "byte list"
  proof
    assume "(if drop (length ct - 16) ct = t then Some (take (length ct - 16) ct) else None) = Some p"
    then have "drop (length ct - 16) ct = t" "take (length ct - 16) ct = p" by (simp_all split: if_splits)
    then show "p @ t = ct" using append_take_drop_id by blast
  next
    assume "p @ t = ct"
    with that show "(if drop (length ct - 16) ct = t then Some (take (length ct - 16) ct) else None) = Some p" by auto
  qed
  with l show ?thesis by (simp add: aead_library_def sample_aead_def Overhead_def)
qed

definition sample_codec :: CursorCodec where
  "sample_codec = \<lparr>cc_lib = sample_aead, cc_key = [1, 2], cc_scope = ''notifications''\<rparr>"

theorem cursor_roundtrip_witness:
  "\<exists>token. Cursor_Encode sample_codec (Inr (replicate 12 7)) \<lparr>cu_created_at = 5000, cu_id = 9, cu_rank = Some (- 3)\<rparr> = Inr token \<and>
     Cursor_Decode sample_codec token = Inr (Some \<lparr>cu_created_at = 5000, cu_id = 9, cu_rank = Some (- 3)\<rparr>)"
proof -
  have "aead_library (cc_lib sample_codec)" by (simp add: sample_codec_def sample_aead_library)
  moreover have "length (replicate 12 (7 :: byte)) = NonceSize" by (simp add: NonceSize_def)
  moreover have "cursor_ok \<lparr>cu_created_at = 5000, cu_id = 9, cu_rank = Some (- 3)\<rparr>" by (simp add: cursor_ok_def zero_time_def)
  ultimately show ?thesis using cursor_roundtrip by blast
qed

theorem cursor_authentic_witness:
  "DecodeRequest sample_codec \<lparr>cr_token = ''AAAA'', cr_limit = 5\<rparr> = Inl (InvalidField ''cursor'' FieldInvalidFormat)"
proof -
  have l: "aead_library (cc_lib sample_codec)" by (simp add: sample_codec_def sample_aead_library)
  have d: "base64_decode ''AAAA'' = Some [0, 0, 0]" by code_simp
  show ?thesis using cursor_authentic[OF l, of "\<lparr>cr_token = ''AAAA'', cr_limit = 5\<rparr>"]
    by (auto simp: d NonceSize_def split: sum.splits option.splits dest!: arg_cong[where f = length and x = "[0, 0, 0]"])
qed

end
