(* ===== verification/Keyset.thy ===== *)
theory Keyset
  imports Prelude
begin

section \<open>Reading a list page by page\<close>

text \<open>
  Every list of the program that a client reads with a cursor is read by the same SQL pattern:
  \<open>WHERE key > after ORDER BY key LIMIT n + 1\<close>, where the extra row only says whether there is
  more, and the key of the last row returned is the next cursor.  The table may change between
  two pages.  The locale states what such a query promises and derives what a reader gets who
  follows the cursors: no row twice, rows in order, and no row missed that was there all along.
\<close>

definition page_after :: "('r \<Rightarrow> 'k::linorder) \<Rightarrow> 'k option \<Rightarrow> nat \<Rightarrow> 'r list \<Rightarrow> 'r list \<times> bool" where
  "page_after key after n rows =
     (let found = sort_key key (filter (\<lambda>r. case after of None \<Rightarrow> True | Some k \<Rightarrow> k < key r) rows)
      in (take n (take (Suc n) found), length (take (Suc n) found) > n))"

lemma sorted_last: "sorted (map f xs) \<Longrightarrow> x \<in> set xs \<Longrightarrow> f x \<le> f (last xs)"
  by (induction xs) (auto split: if_splits)

locale keyset =
  fixes key :: "'r \<Rightarrow> 'k::linorder"
    and page :: "'k option \<Rightarrow> nat \<Rightarrow> 'r list \<Rightarrow> 'r list \<times> bool"
  assumes page_sorted: "page after n rows = (out, more) \<Longrightarrow> sorted (map key out)"
    and page_rows: "page after n rows = (out, more) \<Longrightarrow> set out \<subseteq> set rows"
    and page_later: "page after n rows = (out, more) \<Longrightarrow> r \<in> set out \<Longrightarrow> after = Some k \<Longrightarrow> k < key r"
    and page_distinct: "page after n rows = (out, more) \<Longrightarrow> distinct (map key rows) \<Longrightarrow> distinct (map key out)"
    and page_complete: "page after n rows = (out, more) \<Longrightarrow> r \<in> set rows \<Longrightarrow> (\<And>k. after = Some k \<Longrightarrow> k < key r) \<Longrightarrow>
      (\<not> more \<or> out \<noteq> [] \<and> key r \<le> key (last out)) \<Longrightarrow> distinct (map key rows) \<Longrightarrow> r \<in> set out"
    and page_full: "page after n rows = (out, True) \<Longrightarrow> length out = n"
begin

text \<open>The pages of a reader: the rows at the time of each page, and what was answered.\<close>

fun walk :: "'k option \<Rightarrow> nat \<Rightarrow> ('r list \<times> 'r list \<times> bool) list \<Rightarrow> bool" where
  "walk after n [] = True"
| "walk after n ((rows, out, more) # pages) \<longleftrightarrow> page after n rows = (out, more) \<and> distinct (map key rows) \<and>
     (pages \<noteq> [] \<longrightarrow> more \<and> walk (Some (key (last out))) n pages)"

definition shown :: "('r list \<times> 'r list \<times> bool) list \<Rightarrow> 'r list" where
  "shown pages = concat (map (fst \<circ> snd) pages)"

lemma walk_later: "walk after n pages \<Longrightarrow> r \<in> set (shown pages) \<Longrightarrow> 0 < n \<Longrightarrow> after = Some k \<Longrightarrow> k < key r"
proof (induction after n pages arbitrary: k rule: walk.induct)
  case (2 after n rows out more pages)
  show ?case
  proof (cases "r \<in> set out")
    case True
    with 2 show ?thesis by (auto intro: page_later)
  next
    case False
    with 2 have p: "pages \<noteq> []" "page after n rows = (out, True)" "walk (Some (key (last out))) n pages" "r \<in> set (shown pages)"
      by (auto simp: shown_def)
    with 2 have "key (last out) < key r" by blast
    moreover have "out \<noteq> []" using page_full[OF p(2)] 2(4) by auto
    then have "k < key (last out)" using page_later[OF p(2)] 2(5) by simp
    ultimately show ?thesis by simp
  qed
qed (simp add: shown_def)

lemma walk_sorted: "walk after n pages \<Longrightarrow> 0 < n \<Longrightarrow> sorted_wrt (<) (map key (shown pages))"
proof (induction after n pages rule: walk.induct)
  case (2 after n rows out more pages)
  then have pg: "page after n rows = (out, more)" "distinct (map key rows)" by simp_all
  have out: "sorted_wrt (<) (map key out)"
    using page_sorted[OF pg(1)] page_distinct[OF pg] by (simp add: strict_sorted_iff)
  show ?case
  proof (cases "pages = []")
    case True
    with out show ?thesis by (simp add: shown_def)
  next
    case False
    with 2 have p: "page after n rows = (out, True)" "walk (Some (key (last out))) n pages" by simp_all
    have later: "key r < key s" if "r \<in> set out" "s \<in> set (shown pages)" for r s
    proof -
      have "key (last out) < key s" using walk_later[OF p(2) that(2) 2(3)] by simp
      moreover have "key r \<le> key (last out)"
        using sorted_last[OF page_sorted[OF p(1)] that(1)] .
      ultimately show ?thesis by simp
    qed
    have "sorted_wrt (<) (map key (shown pages))" using 2 False p(2) by blast
    with out later show ?thesis by (auto simp: shown_def sorted_wrt_append)
  qed
qed (simp add: shown_def)

lemma walk_complete:
  "walk after n pages \<Longrightarrow> 0 < n \<Longrightarrow> pages \<noteq> [] \<Longrightarrow> \<not> snd (snd (last pages)) \<Longrightarrow> (\<And>k. after = Some k \<Longrightarrow> k < x) \<Longrightarrow>
   (\<forall>(rows, _) \<in> set pages. \<exists>r\<in>set rows. key r = x) \<Longrightarrow> x \<in> key ` set (shown pages)"
proof (induction after n pages rule: walk.induct)
  case (2 after n rows out more pages)
  then obtain r where r: "r \<in> set rows" "key r = x" and pg: "page after n rows = (out, more)" "distinct (map key rows)" by auto
  show ?case
  proof (cases "\<not> more \<or> out \<noteq> [] \<and> x \<le> key (last out)")
    case True
    then have "r \<in> set out" using page_complete[OF pg(1) r(1)] r(2) 2(6) pg(2) by blast
    then show ?thesis using r(2) by (auto simp: shown_def)
  next
    case False
    then have more: "page after n rows = (out, True)" using pg(1) by simp
    then have "out \<noteq> []" using page_full[OF more] 2(3) by auto
    with False have x: "key (last out) < x" by auto
    have ne: "pages \<noteq> []" using False 2(5) by auto
    with 2(2) have w: "walk (Some (key (last out))) n pages" by simp
    have "x \<in> key ` set (shown pages)" using 2(1)[OF ne w 2(3) ne] 2(5,7) x ne by auto
    then show ?thesis by (auto simp: shown_def)
  qed
qed simp

text \<open>A list that does not grow is read to its end in a bounded number of pages.\<close>

lemma walk_length:
  assumes "walk after n pages" "\<forall>(rows, _) \<in> set pages. key ` set rows \<subseteq> K" "finite K" "0 < n"
  shows "n * (length pages - 1) \<le> card K"
proof -
  have len: "n * (length pages - 1) \<le> length (shown pages)" if "walk a n pages" for a
    using that
  proof (induction a n pages rule: walk.induct)
    case (2 after n rows out more pages)
    show ?case
    proof (cases pages)
      case (Cons p ps)
      with 2 have "page after n rows = (out, True)" "n * (length pages - 1) \<le> length (shown pages)" by simp_all
      with page_full Cons show ?thesis by (fastforce simp: shown_def)
    qed simp
  qed simp
  have "key ` set (shown pages) \<subseteq> K" if "walk a n pages" "\<forall>(rows, _) \<in> set pages. key ` set rows \<subseteq> K" for a
    using that
  proof (induction a n pages rule: walk.induct)
    case (2 after n rows out more pages)
    then have "set out \<subseteq> set rows" "key ` set rows \<subseteq> K" using page_rows[of after n rows out more] by auto
    then have "key ` set out \<subseteq> K" by blast
    moreover have "key ` set (shown pages) \<subseteq> K" using 2 by (cases "pages = []") (auto simp: shown_def)
    ultimately show ?case by (simp add: shown_def image_Un)
  qed (simp add: shown_def)
  with assms have "card (key ` set (shown pages)) \<le> card K" by (intro card_mono) auto
  moreover have "distinct (map key (shown pages))" using walk_sorted[OF assms(1,4)] by (simp add: strict_sorted_iff)
  ultimately have "length (shown pages) \<le> card K" by (metis distinct_card length_map set_map)
  with len[OF assms(1)] show ?thesis by simp
qed

end

text \<open>The query of the repositories keeps this contract.\<close>

lemma page_after_facts:
  assumes "page_after key after n rows = (out, more)"
  shows "out = take n (sort_key key (filter (\<lambda>r. case after of None \<Rightarrow> True | Some k \<Rightarrow> k < key r) rows))"
    "more \<longleftrightarrow> n < length (filter (\<lambda>r. case after of None \<Rightarrow> True | Some k \<Rightarrow> k < key r) rows)"
  using assms by (auto simp: page_after_def Let_def)

interpretation page_query: keyset key "page_after key" for key :: "'r \<Rightarrow> 'k::linorder"
proof
  fix after n and rows out :: "'r list" and more r k
  let ?p = "\<lambda>r. case after of None \<Rightarrow> True | Some k \<Rightarrow> k < key r"
  let ?f = "sort_key key (filter ?p rows)"
  show "sorted (map key out)" if "page_after key after n rows = (out, more)"
    using page_after_facts(1)[OF that] by (simp add: take_map[symmetric] sorted_wrt_take)
  show "set out \<subseteq> set rows" if "page_after key after n rows = (out, more)"
    using page_after_facts(1)[OF that] set_take_subset[of n ?f] by auto
  show "k < key r" if "page_after key after n rows = (out, more)" "r \<in> set out" "after = Some k"
    using page_after_facts(1)[OF that(1)] set_take_subset[of n ?f] that(2,3) by auto
  show "distinct (map key out)" if "page_after key after n rows = (out, more)" "distinct (map key rows)"
  proof -
    have "distinct (map key ?f)" using that(2) by (auto simp: distinct_map inj_on_def)
    then show ?thesis using page_after_facts(1)[OF that(1)] by (simp add: take_map[symmetric])
  qed
  show "length out = n" if "page_after key after n rows = (out, True)"
    using page_after_facts[OF that] by simp
next
  fix after n and rows out :: "'r list" and more r
  let ?p = "\<lambda>r. case after of None \<Rightarrow> True | Some k \<Rightarrow> k < key r"
  let ?f = "sort_key key (filter ?p rows)"
  assume pg: "page_after key after n rows = (out, more)" and r: "r \<in> set rows" "\<And>k. after = Some k \<Longrightarrow> k < key r"
    and c: "\<not> more \<or> out \<noteq> [] \<and> key r \<le> key (last out)" and d: "distinct (map key rows)"
  note out = page_after_facts(1)[OF pg]
  have rf: "r \<in> set ?f" using r by (auto split: option.split)
  show "r \<in> set out"
  proof (cases more)
    case False
    then show ?thesis using out rf page_after_facts(2)[OF pg] by simp
  next
    case True
    then have n: "n < length ?f" "out \<noteq> []" "key r \<le> key (last out)" using page_after_facts(2)[OF pg] c by auto
    obtain i where i: "i < length ?f" "?f ! i = r" using in_set_conv_nth[THEN iffD1, OF rf] by blast
    show ?thesis
    proof (cases "i < n")
      case True
      then show ?thesis using i out by (metis in_set_conv_nth length_take min_less_iff_conj nth_take)
    next
      case False
      have n0: "0 < n" using n(2) out by auto
      have l: "last out = ?f ! (n - 1)" using out n n0 by (simp add: last_conv_nth)
      have "distinct (map key ?f)" using d by (auto simp: distinct_map inj_on_def)
      then have "sorted_wrt (<) (map key ?f)" by (simp add: strict_sorted_iff)
      then have "key (?f ! (n - 1)) < key (?f ! i)" using False i(1) n0 by (simp add: sorted_wrt_iff_nth_less)
      with l i(2) n(3) show ?thesis by simp
    qed
  qed
qed

end
