(* ===== verification/Notifications.thy ===== *)
theory Notifications
  imports Pagination Keyset Auth
begin

section \<open>Notifications\<close>

text \<open>
  Models \<open>internal/repository/notification.go\<close> and \<open>internal/service/notification.go\<close>: the
  paged list of a user, the number of unread notifications, and the marks.  A time stamp of the
  database has whole microseconds.
\<close>

subsection \<open>The table\<close>

definition notification_check :: "notification \<Rightarrow> bool" where
  "notification_check n \<longleftrightarrow>
     (case nt_type n of
        NotifyLikePost \<Rightarrow> nt_post_id n \<noteq> None \<and> nt_comment_id n = None
      | NotifyComment \<Rightarrow> nt_post_id n \<noteq> None \<and> nt_comment_id n = None
      | NotifyLikeComment \<Rightarrow> nt_comment_id n \<noteq> None \<and> nt_post_id n = None
      | NotifyReply \<Rightarrow> nt_comment_id n \<noteq> None \<and> nt_post_id n = None
      | NotifyMention \<Rightarrow> nt_comment_id n \<noteq> None \<and> nt_post_id n = None
      | NotifyFollow \<Rightarrow> nt_post_id n = None \<and> nt_comment_id n = None) \<and>
     (if nt_type n = NotifyComment \<or> nt_type n = NotifyReply \<or> nt_type n = NotifyMention
      then (case nt_content n of None \<Rightarrow> False | Some c \<Rightarrow> not_blank c \<and> RuneCount c \<le> 100)
      else nt_content n = None)"

definition notification_refs :: "db \<Rightarrow> notification \<Rightarrow> bool" where
  "notification_refs s n \<longleftrightarrow>
     list_ex (\<lambda>u. u_id u = nt_recipient_id n) (users s) \<and> list_ex (\<lambda>u. u_id u = nt_sender_id n) (users s) \<and>
     (case nt_post_id n of None \<Rightarrow> True | Some i \<Rightarrow> list_ex (\<lambda>p. p_id p = i) (posts s)) \<and>
     (case nt_comment_id n of None \<Rightarrow> True | Some i \<Rightarrow> list_ex (\<lambda>c. cm_id c = i) (comments s))"

definition insert_notification :: "notification \<Rightarrow> time \<Rightarrow> db \<Rightarrow> repo_error + db" where
  "insert_notification notification now s =
     (let n = notification\<lparr>nt_id := next_id nt_id (notifications s), nt_created_at := now, nt_updated_at := now\<rparr>
      in if \<not> notification_check n then Inl (CheckViolation ''notifications'')
         else if \<not> notification_refs s n then Inl (RepoPlain ''foreign_key_violation'')
         else Inr (s\<lparr>notifications := notifications s @ [n]\<rparr>))"

definition notification_Create :: "notification \<Rightarrow> time \<Rightarrow> (db, repo_error, unit) act" where
  "notification_Create notification now = stmt (\<lambda>s.
     case insert_notification notification now s of Inl err \<Rightarrow> (Inl err, s) | Inr t \<Rightarrow> (Inr (), t))"

subsection \<open>The repository\<close>

record NotificationFilter =
  nf_is_read :: "bool option"
  nf_type :: "NotificationType option"

record NotificationRecord =
  nr_row :: notification
  nr_sender_name :: string
  nr_sender_avatar_url :: "string option"
  nr_sender_deleted_at :: "time option"
  nr_comment_post_id :: "row_id option"

definition notification_record :: "db \<Rightarrow> notification \<Rightarrow> user \<Rightarrow> NotificationRecord" where
  "notification_record s n sender =
     \<lparr>nr_row = n, nr_sender_name = u_name sender,
      nr_sender_avatar_url = (case u_avatar_id sender of None \<Rightarrow> None
        | Some a \<Rightarrow> map_option img_public_url (find (\<lambda>i. img_id i = a) (images s))),
      nr_sender_deleted_at = u_deleted_at sender,
      nr_comment_post_id = (case nt_comment_id n of None \<Rightarrow> None
        | Some c \<Rightarrow> map_option cm_post_id (find (\<lambda>r. cm_id r = c) (comments s)))\<rparr>"

definition notification_matches :: "row_id \<Rightarrow> NotificationFilter \<Rightarrow> notification \<Rightarrow> bool" where
  "notification_matches recipientID f n \<longleftrightarrow> nt_recipient_id n = recipientID \<and>
     (case nf_is_read f of None \<Rightarrow> True | Some b \<Rightarrow> nt_is_read n = b) \<and>
     (case nf_type f of None \<Rightarrow> True | Some t \<Rightarrow> nt_type n = t)"

definition notification_records :: "db \<Rightarrow> row_id \<Rightarrow> NotificationFilter \<Rightarrow> NotificationRecord list" where
  "notification_records s recipientID f =
     [notification_record s n u. n \<leftarrow> filter (notification_matches recipientID f) (notifications s),
        u \<leftarrow> filter (\<lambda>u. u_id u = nt_sender_id n) (users s)]"

text \<open>\<open>ORDER BY created_at DESC, id DESC\<close>; the condition on the cursor compares the same pair.\<close>

definition notification_key :: "NotificationRecord \<Rightarrow> int \<times> int" where
  "notification_key r = (- nt_created_at (nr_row r), - int (nt_id (nr_row r)))"

definition newest_key :: "Cursor \<Rightarrow> int \<times> int" where
  "newest_key c = (- cu_created_at c, - int (cu_id c))"

definition notification_FindPage ::
  "row_id \<Rightarrow> NotificationFilter \<Rightarrow> CursorParams \<Rightarrow> (db, repo_error, NotificationRecord list \<times> bool) act" where
  "notification_FindPage recipientID f params = query (\<lambda>s.
     page_after notification_key (map_option newest_key (cp_after params)) (nat (cp_limit params))
       (notification_records s recipientID f))"

definition unread :: "row_id \<Rightarrow> notification \<Rightarrow> bool" where
  "unread recipientID n \<longleftrightarrow> nt_recipient_id n = recipientID \<and> \<not> nt_is_read n"

definition repo_UnreadCount :: "row_id \<Rightarrow> (db, repo_error, int) act" where
  "repo_UnreadCount recipientID = query (\<lambda>s. int (count_where (unread recipientID) (notifications s)))"

definition marked_read :: "time \<Rightarrow> notification \<Rightarrow> notification" where
  "marked_read now n = n\<lparr>nt_is_read := True, nt_updated_at := now\<rparr>"

definition repo_MarkRead :: "row_id \<Rightarrow> row_id \<Rightarrow> time \<Rightarrow> (db, repo_error, bool) act" where
  "repo_MarkRead notificationID recipientID now = execute (\<lambda>s.
     let p = (\<lambda>n. nt_id n = notificationID \<and> nt_recipient_id n = recipientID)
     in (count_where p (notifications s) = 1, s\<lparr>notifications := upd_where p (marked_read now) (notifications s)\<rparr>))"

definition repo_MarkAllRead :: "row_id \<Rightarrow> time \<Rightarrow> (db, repo_error, int) act" where
  "repo_MarkAllRead recipientID now = execute (\<lambda>s.
     (int (count_where (unread recipientID) (notifications s)),
      s\<lparr>notifications := upd_where (unread recipientID) (marked_read now) (notifications s)\<rparr>))"

subsection \<open>The service\<close>

record NotificationListInput =
  ni_is_read :: "bool option"
  ni_type :: string
  ni_page :: CursorRequest

record NotificationSender =
  ns_id :: row_id
  ns_username :: string
  ns_avatar_url :: "string option"

record NotificationItem =
  nm_id :: row_id
  nm_type :: NotificationType
  nm_sender :: NotificationSender
  nm_related_id :: "row_id option"
  nm_related_type :: "string option"
  nm_post_id :: "row_id option"
  nm_content :: "string option"
  nm_is_read :: bool
  nm_created_at :: time

record NotificationList =
  nl_notifications :: "NotificationItem list"
  nl_pagination :: CursorMeta
  nl_unread_count :: int

record NotificationService =
  nsv_cursor :: CursorCodec

definition NewNotificationServiceWithCursorSecret :: "auth_lib \<Rightarrow> aead_lib \<Rightarrow> string \<Rightarrow> NotificationService" where
  "NewNotificationServiceWithCursorSecret lib aead secret =
     \<lparr>nsv_cursor = NewCursorCodec lib aead secret ''notifications''\<rparr>"

definition notification_type_of :: "string \<Rightarrow> NotificationType option" where
  "notification_type_of raw =
     (if raw = ''like_post'' then Some NotifyLikePost else if raw = ''like_comment'' then Some NotifyLikeComment
      else if raw = ''comment'' then Some NotifyComment else if raw = ''reply'' then Some NotifyReply
      else if raw = ''mention'' then Some NotifyMention else if raw = ''follow'' then Some NotifyFollow else None)"

definition parseNotificationType :: "string \<Rightarrow> go_error + NotificationType option" where
  "parseNotificationType raw =
     (if raw = [] then Inr None
      else case notification_type_of raw of
        None \<Rightarrow> Inl (InvalidField ''type'' FieldInvalidEnum)
      | Some t \<Rightarrow> Inr (Some t))"

text \<open>The name shown for a closed account.\<close>

definition closed_account_name :: string where
  "closed_account_name = map char_of_byte [229, 183, 178, 230, 179, 168, 233, 148, 128, 231, 148, 168, 230, 136, 183]"

definition buildNotificationItem :: "NotificationRecord \<Rightarrow> NotificationItem" where
  "buildNotificationItem r =
     (let n = nr_row r;
          (name, avatar) = (if nr_sender_deleted_at r \<noteq> None then (closed_account_name, None)
                            else (nr_sender_name r, nr_sender_avatar_url r));
          (related, relatedType, post) =
            (case nt_post_id n of Some p \<Rightarrow> (Some p, Some ''post'', Some p)
             | None \<Rightarrow> (case nt_comment_id n of Some c \<Rightarrow> (Some c, Some ''comment'', nr_comment_post_id r)
                        | None \<Rightarrow> (None, None, None)))
      in \<lparr>nm_id = nt_id n, nm_type = nt_type n,
          nm_sender = \<lparr>ns_id = nt_sender_id n, ns_username = name, ns_avatar_url = avatar\<rparr>,
          nm_related_id = related, nm_related_type = relatedType, nm_post_id = post, nm_content = nt_content n,
          nm_is_read = nt_is_read n, nm_created_at = nt_created_at n\<rparr>)"

definition notification_cursorMeta ::
  "NotificationService \<Rightarrow> go_error + byte list \<Rightarrow> NotificationRecord list \<Rightarrow> int \<Rightarrow> bool \<Rightarrow> go_error + CursorMeta" where
  "notification_cursorMeta srv random rows limit hasMore =
     (let meta = \<lparr>mt_limit = limit, mt_next_cursor = None, mt_has_more = hasMore\<rparr>
      in if \<not> hasMore \<or> rows = [] then Inr meta
         else let n = nr_row (last rows)
           in case Cursor_Encode (nsv_cursor srv) random
                     \<lparr>cu_created_at = nt_created_at n, cu_id = nt_id n, cu_rank = None\<rparr> of
                Inl err \<Rightarrow> Inl (Internal err)
              | Inr token \<Rightarrow> Inr (meta\<lparr>mt_next_cursor := Some token\<rparr>))"

definition notification_List ::
  "NotificationService \<Rightarrow> go_error + byte list \<Rightarrow> row_id \<Rightarrow> NotificationListInput \<Rightarrow> ('fx req, go_error, NotificationList) act" where
  "notification_List srv random recipientID input =
     bind (lift_result (parseNotificationType (ni_type input))) (\<lambda>typeFilter.
     bind (lift_result (DecodeRequest (nsv_cursor srv) (ni_page input))) (\<lambda>params.
     bind (db_call internal_of (notification_FindPage recipientID
             \<lparr>nf_is_read = ni_is_read input, nf_type = typeFilter\<rparr> params)) (\<lambda>(rows, hasMore).
     bind (lift_result (notification_cursorMeta srv random rows (cp_limit params) hasMore)) (\<lambda>meta.
     bind (db_call internal_of (repo_UnreadCount recipientID)) (\<lambda>count.
     ret \<lparr>nl_notifications = map buildNotificationItem rows, nl_pagination = meta, nl_unread_count = count\<rparr>)))))"

definition notification_UnreadCount :: "row_id \<Rightarrow> ('fx req, go_error, int) act" where
  "notification_UnreadCount recipientID = db_call internal_of (repo_UnreadCount recipientID)"

definition notification_MarkRead :: "row_id \<Rightarrow> row_id \<Rightarrow> time \<Rightarrow> ('fx req, go_error, unit) act" where
  "notification_MarkRead notificationID recipientID now =
     bind (db_call internal_of (repo_MarkRead notificationID recipientID now)) (\<lambda>found.
     if \<not> found then fail (NotFound (Some BizNotificationNotFound)) else ret ())"

definition notification_MarkAllRead :: "row_id \<Rightarrow> time \<Rightarrow> ('fx req, go_error, int) act" where
  "notification_MarkAllRead recipientID now = db_call internal_of (repo_MarkAllRead recipientID now)"

subsection \<open>Facts: the list\<close>

definition notifications_ok :: "db \<Rightarrow> bool" where
  "notifications_ok s \<longleftrightarrow> distinct (map nt_id (notifications s)) \<and> distinct (map u_id (users s)) \<and>
     (\<forall>n\<in>set (notifications s). cursor_ok \<lparr>cu_created_at = nt_created_at n, cu_id = nt_id n, cu_rank = None\<rparr>)"

lemma notification_records_stmts [simp]:
  "notification_records (s\<lparr>db_stmts := k\<rparr>) recipientID f = notification_records s recipientID f"
proof -
  have "notification_record (s\<lparr>db_stmts := k\<rparr>) = notification_record s" by (intro ext) (auto simp: notification_record_def split: option.split)
  then show ?thesis by (simp add: notification_records_def)
qed

lemma joined_ids:
  assumes "distinct (map nt_id ns)" "distinct (map u_id us)" "\<And>n u. nr_row (g n u) = n"
  shows "distinct (map (nt_id \<circ> nr_row) [g n u. n \<leftarrow> ns, u \<leftarrow> filter (\<lambda>u. u_id u = nt_sender_id n) us])"
  using assms(1)
proof (induction ns)
  case (Cons n ns)
  have one: "length (filter (\<lambda>u. u_id u = nt_sender_id n) us) \<le> 1"
    using assms(2) by (induction us) (auto simp: filter_empty_conv image_iff)
  then have "distinct (map (nt_id \<circ> nr_row) (map (g n) (filter (\<lambda>u. u_id u = nt_sender_id n) us)))"
    by (cases "filter (\<lambda>u. u_id u = nt_sender_id n) us") auto
  moreover have "nt_id (nr_row x) \<noteq> nt_id n"
    if "x \<in> set [g n u. n \<leftarrow> ns, u \<leftarrow> filter (\<lambda>u. u_id u = nt_sender_id n) us]" for x
    using that Cons.prems by (auto simp: assms(3) image_iff)
  ultimately show ?case using Cons by (auto simp: assms(3) comp_def)
qed simp

lemma notification_keys_distinct:
  assumes "notifications_ok s"
  shows "distinct (map notification_key (notification_records s recipientID f))"
proof -
  have "distinct (map nt_id (filter (notification_matches recipientID f) (notifications s)))"
    using assms by (simp add: notifications_ok_def distinct_map_filter)
  then have "distinct (map (nt_id \<circ> nr_row) (notification_records s recipientID f))"
    unfolding notification_records_def using assms
    by (intro joined_ids) (simp_all add: notifications_ok_def notification_record_def)
  then show ?thesis by (auto simp: distinct_map inj_on_def notification_key_def)
qed

lemma notification_records_rows:
  "r \<in> set (notification_records s recipientID f) \<Longrightarrow>
     nr_row r \<in> set (notifications s) \<and> notification_matches recipientID f (nr_row r)"
  by (auto simp: notification_records_def notification_record_def)

lemma buildNotificationItem_fields [simp]:
  "nm_id (buildNotificationItem r) = nt_id (nr_row r)" "nm_created_at (buildNotificationItem r) = nt_created_at (nr_row r)"
  "nm_is_read (buildNotificationItem r) = nt_is_read (nr_row r)" "nm_type (buildNotificationItem r) = nt_type (nr_row r)"
  by (simp_all add: buildNotificationItem_def Let_def split: prod.splits)

lemma notification_List_Inr:
  assumes "notification_List srv random recipientID input q = (Inr res, q')"
    and lib: "aead_library (cc_lib (nsv_cursor srv))" "\<And>bs. random = Inr bs \<Longrightarrow> length bs = NonceSize"
    and ok: "notifications_ok (rq_db q)" and typed: "parseNotificationType (ni_type input) = Inr typeFilter"
    and tok: "Cursor_Decode (nsv_cursor srv) (cr_token (ni_page input)) = Inr after" and limit: "1 \<le> cr_limit (ni_page input)"
  obtains rows where
    "page_after notification_key (map_option newest_key after) (nat (cr_limit (ni_page input)))
       (notification_records (rq_db q) recipientID \<lparr>nf_is_read = ni_is_read input, nf_type = typeFilter\<rparr>) =
       (rows, mt_has_more (nl_pagination res))"
    "nl_notifications res = map buildNotificationItem rows"
    "nl_unread_count res = int (count_where (unread recipientID) (notifications (rq_db q)))"
    "mt_has_more (nl_pagination res) \<Longrightarrow> \<exists>token c. mt_next_cursor (nl_pagination res) = Some token \<and>
       Cursor_Decode (nsv_cursor srv) token = Inr (Some c) \<and> newest_key c = notification_key (last rows)"
proof -
  let ?f = "\<lparr>nf_is_read = ni_is_read input, nf_type = typeFilter\<rparr>"
  let ?n = "nat (cr_limit (ni_page input))"
  have dec: "DecodeRequest (nsv_cursor srv) (ni_page input) = Inr \<lparr>cp_after = after, cp_limit = cr_limit (ni_page input)\<rparr>"
    using tok by (simp add: DecodeRequest_def)
  from assms(1) obtain rows more q1 meta where
    p: "db_call internal_of (notification_FindPage recipientID ?f \<lparr>cp_after = after, cp_limit = cr_limit (ni_page input)\<rparr>) q =
        (Inr (rows, more), q1)"
    and m: "notification_cursorMeta srv random rows (cr_limit (ni_page input)) more = Inr meta"
    and u: "db_call internal_of (repo_UnreadCount recipientID) q1 = (Inr (nl_unread_count res), q')"
    and r: "nl_notifications res = map buildNotificationItem rows" "nl_pagination res = meta"
    unfolding notification_List_def by (auto simp: typed dec ret_def lift_result_def split: sum.splits elim!: bind_InrE)
  from p have pg: "page_after notification_key (map_option newest_key after) ?n (notification_records (rq_db q) recipientID ?f) = (rows, more)"
    and q1: "notifications (rq_db q1) = notifications (rq_db q)"
    by (auto simp: notification_FindPage_def query_run db_call_Inr_iff split: if_splits)
  have un: "nl_unread_count res = int (count_where (unread recipientID) (notifications (rq_db q)))"
    using u q1 by (auto simp: repo_UnreadCount_def query_run db_call_Inr_iff split: if_splits)
  have "mt_has_more meta = more"
    using m by (auto simp: notification_cursorMeta_def Let_def split: if_splits sum.splits)
  then have hm: "mt_has_more (nl_pagination res) = more" using r(2) by simp
  have cur: "\<exists>token c. mt_next_cursor (nl_pagination res) = Some token \<and>
       Cursor_Decode (nsv_cursor srv) token = Inr (Some c) \<and> newest_key c = notification_key (last rows)" if yes: more
  proof -
    have "length rows = ?n" using page_query.page_full pg yes by simp
    with limit have ne: "rows \<noteq> []" by auto
    let ?c = "\<lparr>cu_created_at = nt_created_at (nr_row (last rows)), cu_id = nt_id (nr_row (last rows)), cu_rank = None\<rparr>"
    have "last rows \<in> set (notification_records (rq_db q) recipientID ?f)" using page_query.page_rows[OF pg] ne by auto
    then have "cursor_ok ?c" using ok notification_records_rows by (auto simp: notifications_ok_def)
    moreover obtain token where t: "Cursor_Encode (nsv_cursor srv) random ?c = Inr token" "meta = \<lparr>mt_limit = cr_limit (ni_page input), mt_next_cursor = Some token, mt_has_more = more\<rparr>"
      using m yes ne by (auto simp: notification_cursorMeta_def Let_def split: sum.splits)
    moreover from t(1) obtain bs where "random = Inr bs" by (auto simp: Cursor_Encode_def split: if_splits sum.splits)
    ultimately have "Cursor_Decode (nsv_cursor srv) token = Inr (Some ?c)"
      using cursor_carried[OF lib(1), of bs ?c] lib(2) by auto
    with t(2) r(2) show ?thesis by (auto simp: newest_key_def notification_key_def)
  qed
  show ?thesis using that[OF _ r(1) un] pg hm cur by simp
qed

text \<open>
  A client that reads the list: each page is asked for with the token of the page before, and
  in between the database may become any other.
\<close>

fun reads_on ::
  "NotificationService \<Rightarrow> row_id \<Rightarrow> bool option \<Rightarrow> string \<Rightarrow> int \<Rightarrow> string \<Rightarrow>
   (db \<times> (go_error + byte list) \<times> NotificationList) list \<Rightarrow> bool" where
  "reads_on srv recipientID isRead kind limit token [] = True"
| "reads_on srv recipientID isRead kind limit token ((d, random, res) # pages) \<longleftrightarrow>
     (\<exists>q'. notification_List srv random recipientID
        \<lparr>ni_is_read = isRead, ni_type = kind, ni_page = \<lparr>cr_token = token, cr_limit = limit\<rparr>\<rparr> (fresh_req d :: unit req) = (Inr res, q')) \<and>
     (pages \<noteq> [] \<longrightarrow> mt_has_more (nl_pagination res) \<and>
        (\<exists>t. mt_next_cursor (nl_pagination res) = Some t \<and> reads_on srv recipientID isRead kind limit t pages))"

definition pages_ok :: "(db \<times> (go_error + byte list) \<times> NotificationList) list \<Rightarrow> bool" where
  "pages_ok pages \<longleftrightarrow> (\<forall>(d, random, res) \<in> set pages. notifications_ok d \<and> (\<forall>bs. random = Inr bs \<longrightarrow> length bs = NonceSize))"

definition page_of :: "db \<times> (go_error + byte list) \<times> NotificationList \<Rightarrow> row_id \<Rightarrow> NotificationFilter \<Rightarrow>
    NotificationRecord list \<times> NotificationRecord list \<times> bool \<Rightarrow> bool" where
  "page_of p recipientID f w \<longleftrightarrow> (case p of (d, random, res) \<Rightarrow> case w of (rows, out, hasMore) \<Rightarrow>
     rows = notification_records d recipientID f \<and> nl_notifications res = map buildNotificationItem out \<and>
     mt_has_more (nl_pagination res) = hasMore)"

lemma reads_on_walk:
  assumes "reads_on srv recipientID isRead kind limit token pages" "pages_ok pages" "aead_library (cc_lib (nsv_cursor srv))"
    "parseNotificationType kind = Inr typeFilter" "1 \<le> limit" "Cursor_Decode (nsv_cursor srv) token = Inr after"
  shows "\<exists>ws. page_query.walk notification_key (map_option newest_key after) (nat limit) ws \<and>
    list_all2 (\<lambda>p. page_of p recipientID \<lparr>nf_is_read = isRead, nf_type = typeFilter\<rparr>) pages ws"
  using assms
proof (induction srv recipientID isRead kind limit token pages arbitrary: after rule: reads_on.induct)
  case (1 srv recipientID isRead kind limit token)
  show ?case by (intro exI[of _ "[]"]) simp
next
  case (2 srv recipientID isRead kind limit token d random res pages)
  let ?f = "\<lparr>nf_is_read = isRead, nf_type = typeFilter\<rparr>"
  from 2(2) obtain q' where run: "notification_List srv random recipientID
      \<lparr>ni_is_read = isRead, ni_type = kind, ni_page = \<lparr>cr_token = token, cr_limit = limit\<rparr>\<rparr> (fresh_req d :: unit req) = (Inr res, q')"
    by auto
  from 2(3) have ok: "notifications_ok d" "\<And>bs. random = Inr bs \<Longrightarrow> length bs = NonceSize" "pages_ok pages"
    by (auto simp: pages_ok_def)
  obtain rows where pg: "page_after notification_key (map_option newest_key after) (nat limit) (notification_records d recipientID ?f) =
       (rows, mt_has_more (nl_pagination res))"
    and items: "nl_notifications res = map buildNotificationItem rows"
    and cur: "mt_has_more (nl_pagination res) \<Longrightarrow> \<exists>token c. mt_next_cursor (nl_pagination res) = Some token \<and>
       Cursor_Decode (nsv_cursor srv) token = Inr (Some c) \<and> newest_key c = notification_key (last rows)"
    by (rule notification_List_Inr[OF run 2(4) ok(2), of typeFilter after]) (use ok(1) 2(5-7) in simp_all)
  have dist: "distinct (map notification_key (notification_records d recipientID ?f))"
    by (rule notification_keys_distinct[OF ok(1)])
  have pof: "page_of (d, random, res) recipientID ?f (notification_records d recipientID ?f, rows, mt_has_more (nl_pagination res))"
    using items by (simp add: page_of_def)
  show ?case
  proof (cases "pages = []")
    case True
    with pg dist pof show ?thesis
      by (intro exI[of _ "[(notification_records d recipientID ?f, rows, mt_has_more (nl_pagination res))]"]) simp
  next
    case False
    with 2(2) have more: "mt_has_more (nl_pagination res)" by simp
    from cur[OF more] obtain t c where t: "mt_next_cursor (nl_pagination res) = Some t"
      "Cursor_Decode (nsv_cursor srv) t = Inr (Some c)" "newest_key c = notification_key (last rows)" by blast
    from 2(2) False t(1) have "reads_on srv recipientID isRead kind limit t pages" by auto
    from 2(1)[OF False this ok(3) 2(4-6) t(2)] obtain ws where
      ws: "page_query.walk notification_key (Some (notification_key (last rows))) (nat limit) ws"
        "list_all2 (\<lambda>p. page_of p recipientID ?f) pages ws" using t(3) by auto
    with pg dist pof more show ?thesis
      by (intro exI[of _ "(notification_records d recipientID ?f, rows, True) # ws"]) simp
  qed
qed

definition items_of :: "(db \<times> (go_error + byte list) \<times> NotificationList) list \<Rightarrow> NotificationItem list" where
  "items_of pages = concat (map (\<lambda>(d, random, res). nl_notifications res) pages)"

definition item_key :: "NotificationItem \<Rightarrow> int \<times> int" where
  "item_key i = (- nm_created_at i, - int (nm_id i))"

lemma items_shown:
  "list_all2 (\<lambda>p. page_of p recipientID f) pages ws \<Longrightarrow> items_of pages = map buildNotificationItem (page_query.shown ws)"
  by (induction pages ws rule: list_all2_induct) (auto simp: items_of_def page_query.shown_def page_of_def)

lemma pages_rows:
  assumes "list_all2 (\<lambda>p. page_of p recipientID f) pages ws"
  shows "\<forall>(rows, _) \<in> set ws. notification_key ` set rows \<subseteq>
    (\<Union>(d, random, res)\<in>set pages. notification_key ` set (notification_records d recipientID f))"
proof -
  have "\<forall>(rows, _) \<in> set ws. \<exists>(d, random, res)\<in>set pages. rows = notification_records d recipientID f"
    using assms by (induction pages ws rule: list_all2_induct) (auto simp: page_of_def)
  then show ?thesis by fast
qed

lemma item_key_build: "item_key (buildNotificationItem r) = notification_key r"
  by (simp add: item_key_def notification_key_def)

text \<open>
  C33: a user who pages through the notifications while the table changes under the reader sees
  each of them at most once, newest first, and, once the last page said that there is no more,
  has seen every notification that was in the filtered list from the first page to the last.
  The number of pages is bounded by the notifications that were ever in the list.
\<close>

theorem notification_pages:
  assumes "reads_on srv recipientID isRead kind limit [] pages" and "pages_ok pages" and "aead_library (cc_lib (nsv_cursor srv))"
    and "parseNotificationType kind = Inr typeFilter" and "1 \<le> limit"
  shows "sorted_wrt (<) (map item_key (items_of pages)) \<and>
    (\<forall>id at. pages \<noteq> [] \<longrightarrow> \<not> mt_has_more (nl_pagination (snd (snd (last pages)))) \<longrightarrow>
       (\<forall>(d, random, res) \<in> set pages. \<exists>r\<in>set (notification_records d recipientID \<lparr>nf_is_read = isRead, nf_type = typeFilter\<rparr>).
          nt_id (nr_row r) = id \<and> nt_created_at (nr_row r) = at) \<longrightarrow>
       (\<exists>i\<in>set (items_of pages). nm_id i = id \<and> nm_created_at i = at)) \<and>
    nat limit * (length pages - 1) \<le> card (\<Union>(d, random, res)\<in>set pages.
       notification_key ` set (notification_records d recipientID \<lparr>nf_is_read = isRead, nf_type = typeFilter\<rparr>))"
proof -
  let ?f = "\<lparr>nf_is_read = isRead, nf_type = typeFilter\<rparr>"
  have "Cursor_Decode (nsv_cursor srv) [] = Inr None" by (simp add: Cursor_Decode_def)
  from reads_on_walk[OF assms this] obtain ws where w: "page_query.walk notification_key None (nat limit) ws"
    and l: "list_all2 (\<lambda>p. page_of p recipientID ?f) pages ws" by auto
  note it = items_shown[OF l]
  have n: "0 < nat limit" using assms(5) by simp
  have keys: "map item_key (items_of pages) = map notification_key (page_query.shown ws)"
    by (simp add: it item_key_build)
  have complete: "\<exists>i\<in>set (items_of pages). nm_id i = id \<and> nm_created_at i = at"
    if ne: "pages \<noteq> []" and fin: "\<not> mt_has_more (nl_pagination (snd (snd (last pages))))"
      and all: "\<forall>(d, random, res) \<in> set pages. \<exists>r\<in>set (notification_records d recipientID ?f).
          nt_id (nr_row r) = id \<and> nt_created_at (nr_row r) = at" for id at
  proof -
    have wne: "ws \<noteq> []" using l ne by auto
    have "page_of (last pages) recipientID ?f (last ws)"
      using l ne wne list_all2_lengthD[OF l] by (auto simp: list_all2_conv_all_nth last_conv_nth)
    with fin have d: "\<not> snd (snd (last ws))" by (auto simp: page_of_def split: prod.splits)
    have "\<forall>(rows, _) \<in> set ws. \<exists>r\<in>set rows. notification_key r = (- at, - int id)"
      using l all by (induction pages ws rule: list_all2_induct) (fastforce simp: page_of_def notification_key_def)+
    from page_query.walk_complete[OF w n wne d _ this]
    show ?thesis unfolding it by (fastforce simp: notification_key_def)
  qed
  let ?K = "\<Union>(d, random, res)\<in>set pages. notification_key ` set (notification_records d recipientID ?f)"
  have "\<forall>(rows, _) \<in> set ws. notification_key ` set rows \<subseteq> ?K"
    using pages_rows[OF l] by blast
  then have "nat limit * (length ws - 1) \<le> card ?K" by (intro page_query.walk_length[OF w _ _ n]) auto
  then show ?thesis using page_query.walk_sorted[OF w n] keys complete list_all2_lengthD[OF l] by simp
qed

subsection \<open>Facts: the marks\<close>

lemma unread_marked [simp]: "\<not> unread recipientID (marked_read now n)"
  by (simp add: unread_def marked_read_def)

lemma marked_read_fields [simp]:
  "nt_id (marked_read now n) = nt_id n" "nt_recipient_id (marked_read now n) = nt_recipient_id n"
  by (simp_all add: marked_read_def)

lemma count_where_id:
  assumes "distinct (map f t)" "\<And>r. p r \<Longrightarrow> f r = k"
  shows "count_where p t = 1 \<longleftrightarrow> (\<exists>r\<in>set t. p r)"
proof -
  have "count_where p t \<le> 1" using assms
  proof (induction t)
    case (Cons r t)
    show ?case
    proof (cases "p r")
      case True
      then have "filter p t = []" using Cons.prems by (force simp: filter_empty_conv)
      with True show ?thesis by (simp add: count_where_def)
    next
      case False
      with Cons show ?thesis by (simp add: count_where_def)
    qed
  qed (simp add: count_where_def)
  then show ?thesis using count_where_0[of p t] by (auto simp: le_Suc_eq)
qed

text \<open>
  The marks touch only the caller's own rows.  Marking one notification changes that row alone
  and fails with the same 404 whether the notification is missing or somebody else's; marking all
  answers the number that was unread, leaves none unread, and changes no row of anybody else.
\<close>

theorem marks_only_own:
  assumes "distinct (map nt_id (notifications (rq_db q)))"
  shows "(notification_MarkRead i recipientID now q = (Inr (), q') \<longrightarrow>
       (\<exists>n\<in>set (notifications (rq_db q)). nt_id n = i \<and> nt_recipient_id n = recipientID) \<and>
       notifications (rq_db q') = map (\<lambda>n. if nt_id n = i then marked_read now n else n) (notifications (rq_db q))) \<and>
    (notification_MarkRead i recipientID now q = (Inl e, q') \<longrightarrow> notifications (rq_db q') = notifications (rq_db q) \<and>
       (e = internal_of DbFailure \<or> e = NotFound (Some BizNotificationNotFound) \<and>
          (\<forall>n\<in>set (notifications (rq_db q)). nt_id n = i \<longrightarrow> nt_recipient_id n \<noteq> recipientID))) \<and>
    (notification_MarkAllRead recipientID now q = (Inr k, q') \<longrightarrow>
       k = int (count_where (unread recipientID) (notifications (rq_db q))) \<and>
       count_where (unread recipientID) (notifications (rq_db q')) = 0 \<and>
       map nt_id (notifications (rq_db q')) = map nt_id (notifications (rq_db q)) \<and>
       filter (\<lambda>n. nt_recipient_id n \<noteq> recipientID) (notifications (rq_db q')) =
       filter (\<lambda>n. nt_recipient_id n \<noteq> recipientID) (notifications (rq_db q)))"
proof -
  let ?p = "\<lambda>n. nt_id n = i \<and> nt_recipient_id n = recipientID" and ?ns = "notifications (rq_db q)"
  have one: "count_where ?p ?ns = 1 \<longleftrightarrow> (\<exists>n\<in>set ?ns. ?p n)" by (rule count_where_id[OF assms]) simp
  have none: "\<forall>n\<in>set ?ns. \<not> ?p n \<Longrightarrow> upd_where ?p (marked_read now) ?ns = ?ns" by (intro upd_where_unmatched) auto
  have own: "upd_where ?p (marked_read now) ?ns = map (\<lambda>n. if nt_id n = i then marked_read now n else n) ?ns"
    if "\<exists>n\<in>set ?ns. ?p n"
    using that assms by (fastforce simp: upd_where_def distinct_map inj_on_def)
  have mark: "notification_MarkRead i recipientID now q =
      (if db_fault (rq_db q) (db_stmts (rq_db q))
       then (Inl (internal_of DbFailure), q\<lparr>rq_db := (rq_db q)\<lparr>db_stmts := Suc (db_stmts (rq_db q))\<rparr>\<rparr>)
       else (if count_where ?p ?ns = 1 then Inr () else Inl (NotFound (Some BizNotificationNotFound)),
             q\<lparr>rq_db := (rq_db q)\<lparr>db_stmts := Suc (db_stmts (rq_db q)), notifications := upd_where ?p (marked_read now) ?ns\<rparr>\<rparr>))"
    by (simp add: notification_MarkRead_def repo_MarkRead_def bind_run db_call_def map_err_run repo_run execute_run fail_def ret_def Let_def)
  have others: "filter (\<lambda>n. nt_recipient_id n \<noteq> recipientID) (upd_where (unread recipientID) (marked_read now) ns) =
      filter (\<lambda>n. nt_recipient_id n \<noteq> recipientID) ns" for ns
    by (induction ns) (auto simp: upd_where_def unread_def)
  show ?thesis
  proof (intro conjI impI)
    assume "notification_MarkRead i recipientID now q = (Inr (), q')"
    then have c: "count_where ?p ?ns = 1" and q': "notifications (rq_db q') = upd_where ?p (marked_read now) ?ns"
      unfolding mark by (auto split: if_splits)
    from c one show x: "\<exists>n\<in>set ?ns. ?p n" by blast
    show "notifications (rq_db q') = map (\<lambda>n. if nt_id n = i then marked_read now n else n) ?ns" unfolding q' by (rule own[OF x])
  next
    assume r: "notification_MarkRead i recipientID now q = (Inl e, q')"
    show "notifications (rq_db q') = ?ns"
      using r none one unfolding mark by (auto split: if_splits)
    show "e = internal_of DbFailure \<or> e = NotFound (Some BizNotificationNotFound) \<and>
        (\<forall>n\<in>set ?ns. nt_id n = i \<longrightarrow> nt_recipient_id n \<noteq> recipientID)"
      using r one unfolding mark by (auto split: if_splits)
  next
    assume "notification_MarkAllRead recipientID now q = (Inr k, q')"
    then have k: "k = int (count_where (unread recipientID) ?ns)"
      and q': "notifications (rq_db q') = upd_where (unread recipientID) (marked_read now) ?ns"
      by (auto simp: notification_MarkAllRead_def repo_MarkAllRead_def db_call_Inr_iff execute_Inr_iff)
    show "k = int (count_where (unread recipientID) ?ns)" by (rule k)
    show "count_where (unread recipientID) (notifications (rq_db q')) = 0"
      by (auto simp: q' count_where_0 upd_where_def)
    show "map nt_id (notifications (rq_db q')) = map nt_id ?ns" by (simp add: q' upd_where_def)
    show "filter (\<lambda>n. nt_recipient_id n \<noteq> recipientID) (notifications (rq_db q')) =
        filter (\<lambda>n. nt_recipient_id n \<noteq> recipientID) ?ns" unfolding q' by (rule others)
  qed
qed

subsection \<open>A sample reader\<close>

definition sample_notification :: "row_id \<Rightarrow> time \<Rightarrow> notification" where
  "sample_notification i at = \<lparr>nt_id = i, nt_recipient_id = 1, nt_sender_id = 2, nt_type = NotifyFollow, nt_post_id = None,
     nt_comment_id = None, nt_content = None, nt_is_read = False, nt_created_at = at, nt_updated_at = at\<rparr>"

definition notification_user :: "row_id \<Rightarrow> user" where
  "notification_user i = (new_user ''a@b'' ''h'' ''n'' None)\<lparr>u_id := i\<rparr>"

definition notifications_db :: "notification list \<Rightarrow> db" where
  "notifications_db ns = empty_db\<lparr>users := [notification_user 1, notification_user 2], notifications := ns\<rparr>"

text \<open>Between the two pages a new notification arrives, and a shown one is deleted.\<close>

definition first_page_db :: db where
  "first_page_db = notifications_db [sample_notification 1 1000, sample_notification 2 2000, sample_notification 3 2000]"

definition second_page_db :: db where
  "second_page_db = notifications_db [sample_notification 1 1000, sample_notification 2 2000, sample_notification 4 3000]"

definition notification_reader :: NotificationService where
  "notification_reader = \<lparr>nsv_cursor = sample_codec\<rparr>"

definition read_page :: "string \<Rightarrow> db \<Rightarrow> (go_error + NotificationList) \<times> unit req" where
  "read_page token d = notification_List notification_reader (Inr (replicate 12 7)) 1
     \<lparr>ni_is_read = None, ni_type = [], ni_page = \<lparr>cr_token = token, cr_limit = 2\<rparr>\<rparr> (fresh_req d)"

theorem marks_only_own_witness:
  "\<exists>q'. notification_MarkRead 2 1 7 (fresh_req first_page_db :: unit req) = (Inr (), q') \<and>
     notifications (rq_db q') = [sample_notification 1 1000, marked_read 7 (sample_notification 2 2000), sample_notification 3 2000]"
proof -
  let ?q = "fresh_req first_page_db :: unit req"
  have d: "distinct (map nt_id (notifications (rq_db ?q)))" by code_simp
  have "fst (notification_MarkRead 2 1 7 ?q) = Inr ()" by code_simp
  then have r: "notification_MarkRead 2 1 7 ?q = (Inr (), snd (notification_MarkRead 2 1 7 ?q))" by (simp add: prod_eq_iff)
  have "notifications first_page_db = [sample_notification 1 1000, sample_notification 2 2000, sample_notification 3 2000]"
    by (simp add: first_page_db_def notifications_db_def)
  with marks_only_own[OF d, of 2 1 7] r show ?thesis by (auto simp: sample_notification_def)
qed

definition sample_token :: string where
  "sample_token = ''BwcHBwcHBwcHBwcHAQAAAAAAAAACAAAAAAAAAAIBAgcHBwcHBwcHBwcHB25v''"

definition page_report :: "(go_error + NotificationList) \<times> unit req \<Rightarrow> unit + (row_id list \<times> string option \<times> bool)" where
  "page_report r = map_sum (\<lambda>_. ()) (\<lambda>l. (map nm_id (nl_notifications l), mt_next_cursor (nl_pagination l), mt_has_more (nl_pagination l))) (fst r)"

lemma page_report_Inr:
  "page_report r = Inr (ids, t, b) \<Longrightarrow> \<exists>l. r = (Inr l, snd r) \<and> map nm_id (nl_notifications l) = ids \<and>
     mt_next_cursor (nl_pagination l) = t \<and> mt_has_more (nl_pagination l) = b"
  by (cases r; cases "fst r") (auto simp: page_report_def)

theorem notification_pages_witness:
  "\<exists>(l1 :: NotificationList) (l2 :: NotificationList). nl_notifications l1 \<noteq> [] \<and> nl_notifications l2 \<noteq> [] \<and>
     sorted_wrt (<) (map item_key (nl_notifications l1 @ nl_notifications l2))"
proof -
  have "page_report (read_page [] first_page_db) = Inr ([3, 2], Some sample_token, True)" by code_simp
  from page_report_Inr[OF this] obtain l1 where l1: "read_page [] first_page_db = (Inr l1, snd (read_page [] first_page_db))"
    "map nm_id (nl_notifications l1) = [3, 2]" "mt_next_cursor (nl_pagination l1) = Some sample_token" "mt_has_more (nl_pagination l1)"
    by auto
  have "page_report (read_page sample_token second_page_db) = Inr ([1], None, False)" by code_simp
  from page_report_Inr[OF this] obtain l2 where l2: "read_page sample_token second_page_db = (Inr l2, snd (read_page sample_token second_page_db))"
    "map nm_id (nl_notifications l2) = [1]"
    by auto
  let ?pages = "[(first_page_db, Inr (replicate 12 7), l1), (second_page_db, Inr (replicate 12 7), l2)]"
  have r: "reads_on notification_reader 1 None [] 2 [] ?pages"
    using l1 l2 unfolding read_page_def by (auto intro: exI)
  have ok: "pages_ok ?pages"
    by (simp add: pages_ok_def NonceSize_def notifications_ok_def first_page_db_def second_page_db_def notifications_db_def
        notification_user_def sample_notification_def cursor_ok_def zero_time_def)
  have lib: "aead_library (cc_lib (nsv_cursor notification_reader))"
    by (simp add: notification_reader_def sample_codec_def sample_aead_library)
  have "parseNotificationType [] = Inr None" by (simp add: parseNotificationType_def)
  from notification_pages[OF r ok lib this] have "sorted_wrt (<) (map item_key (items_of ?pages))" by simp
  then have "sorted_wrt (<) (map item_key (nl_notifications l1 @ nl_notifications l2))" by (simp add: items_of_def)
  moreover have "nl_notifications l1 \<noteq> []" "nl_notifications l2 \<noteq> []" using l1(2) l2(2) by auto
  ultimately show ?thesis by blast
qed

end
