(* ===== verification/Counted.thy ===== *)
theory Counted
  imports Model
begin

section \<open>Relations with a counter\<close>

text \<open>
  What likes, favourites and follows share: a set of pairs (who, target) kept by statements that
  add a pair unless it is there and remove it if it is, and a number per target that is kept in
  step.  A locale states what the statements promise; its lemmas give the invariant that the
  number is the size of the set, and that repeating a statement changes nothing.
\<close>

abbreviation members_of :: "(row_id \<times> row_id) list \<Rightarrow> row_id \<Rightarrow> nat" where
  "members_of ms t \<equiv> card {u. (u, t) \<in> set ms}"

definition count_up :: "int \<Rightarrow> int" where "count_up n = n + 1"
definition count_down :: "int \<Rightarrow> int" where "count_down n = max (n - 1) 0"

lemma finite_members [simp]: "finite {u. (u, t) \<in> set ms}"
  by (rule finite_subset[of _ "fst ` set ms"]) force+

lemma members_of_add:
  "(u, t) \<notin> set ms \<Longrightarrow> members_of (ms @ [(u, t)]) i = (if i = t then Suc (members_of ms i) else members_of ms i)"
proof -
  assume new: "(u, t) \<notin> set ms"
  have "{v. (v, i) \<in> set (ms @ [(u, t)])} = (if i = t then insert u {v. (v, i) \<in> set ms} else {v. (v, i) \<in> set ms})"
    by auto
  with new show ?thesis by simp
qed

lemma members_of_remove:
  "members_of (filter (\<lambda>m. m \<noteq> (u, t)) ms) i =
     (if (u, t) \<in> set ms \<and> i = t then members_of ms i - 1 else members_of ms i)"
proof -
  have "{v. (v, i) \<in> set (filter (\<lambda>m. m \<noteq> (u, t)) ms)} = (if i = t then {v. (v, i) \<in> set ms} - {u} else {v. (v, i) \<in> set ms})"
    by auto
  then show ?thesis by (simp add: card_Diff_singleton_if)
qed

lemma members_of_pos: "(u, t) \<in> set ms \<Longrightarrow> 0 < members_of ms t"
  by (auto simp: card_gt_0_iff)

lemma length_members_of: "distinct ms \<Longrightarrow> length (filter (\<lambda>m. snd m = t) ms) = members_of ms t"
proof -
  assume "distinct ms"
  then have "length (filter (\<lambda>m. snd m = t) ms) = card (set (filter (\<lambda>m. snd m = t) ms))"
    by (simp only: distinct_card distinct_filter)
  also have "\<dots> = card (fst ` set (filter (\<lambda>m. snd m = t) ms))"
    by (rule card_image[symmetric]) (auto simp: inj_on_def)
  also have "fst ` set (filter (\<lambda>m. snd m = t) ms) = {u. (u, t) \<in> set ms}" by force
  finally show ?thesis .
qed

text \<open>\<open>exact\<close>: no pair twice, and every number is the number of pairs of its target.\<close>

definition exact :: "(row_id \<times> row_id) list \<Rightarrow> (row_id \<Rightarrow> int option) \<Rightarrow> bool" where
  "exact ms number \<longleftrightarrow> distinct ms \<and> (\<forall>t n. number t = Some n \<longrightarrow> n = int (members_of ms t))"

lemma exact_number: "exact ms number \<Longrightarrow> number t = Some n \<Longrightarrow> n = int (members_of ms t)"
  by (simp add: exact_def)

lemma exact_add:
  assumes "exact ms number" "(u, t) \<notin> set ms"
  shows "exact (ms @ [(u, t)]) (\<lambda>i. if i = t then map_option count_up (number i) else number i)"
  using assms members_of_add[OF assms(2)] by (auto simp: exact_def count_up_def)

lemma exact_remove:
  assumes "exact ms number" "(u, t) \<in> set ms"
  shows "exact (filter (\<lambda>m. m \<noteq> (u, t)) ms) (\<lambda>i. if i = t then map_option count_down (number i) else number i)"
proof -
  have num: "z = int (members_of ms i)" if "number i = Some z" for i z
    using exact_number[OF assms(1) that] .
  have less: "count_down z = int (members_of ms t - 1)" if "number t = Some z" for z
    using num[OF that] members_of_pos[OF assms(2)] by (simp add: count_down_def)
  have "distinct ms" using assms(1) by (simp add: exact_def)
  then show ?thesis
    unfolding exact_def members_of_remove using assms(2) by (auto simp: num less)
qed

locale counted_relation =
  fixes members :: "db \<Rightarrow> (row_id \<times> row_id) list"
    and number :: "db \<Rightarrow> row_id \<Rightarrow> int option"
    and add :: "row_id \<Rightarrow> row_id \<Rightarrow> time \<Rightarrow> (db, repo_error, bool) act"
    and remove :: "row_id \<Rightarrow> row_id \<Rightarrow> (db, repo_error, unit) act"
  assumes add_ok: "add u t now s = (Inr b, s') \<Longrightarrow>
      b = ((u, t) \<notin> set (members s)) \<and> members s' = (if b then members s @ [(u, t)] else members s) \<and>
      number s' = (\<lambda>i. if b \<and> i = t then map_option count_up (number s i) else number s i)"
    and add_failed: "add u t now s = (Inl e, s') \<Longrightarrow> members s' = members s \<and> number s' = number s"
    and remove_ok: "remove u t s = (Inr x, s') \<Longrightarrow> distinct (members s) \<Longrightarrow>
      members s' = filter (\<lambda>m. m \<noteq> (u, t)) (members s) \<and>
      number s' = (\<lambda>i. if (u, t) \<in> set (members s) \<and> i = t then map_option count_down (number s i) else number s i)"
    and remove_failed: "remove u t s = (Inl e, s') \<Longrightarrow> members s' = members s \<and> number s' = number s"
begin

lemma add_exact: "exact (members s) (number s) \<Longrightarrow> exact (members (snd (add u t now s))) (number (snd (add u t now s)))"
proof (cases "add u t now s")
  case (Pair r s')
  assume ex: "exact (members s) (number s)"
  show ?thesis
  proof (cases r)
    case (Inl e)
    then show ?thesis using Pair ex add_failed[of u t now s e s'] by simp
  next
    case (Inr b)
    have eff: "b = ((u, t) \<notin> set (members s))" "members s' = (if b then members s @ [(u, t)] else members s)"
      "number s' = (\<lambda>i. if b \<and> i = t then map_option count_up (number s i) else number s i)"
      using Pair Inr add_ok[of u t now s b s'] by simp_all
    show ?thesis using Pair eff ex exact_add[OF ex] by (cases b) simp_all
  qed
qed

lemma remove_exact: "exact (members s) (number s) \<Longrightarrow> exact (members (snd (remove u t s))) (number (snd (remove u t s)))"
proof (cases "remove u t s")
  case (Pair r s')
  assume ex: "exact (members s) (number s)"
  show ?thesis
  proof (cases r)
    case (Inl e)
    then show ?thesis using Pair ex remove_failed[of u t s e s'] by simp
  next
    case (Inr x)
    have eff: "members s' = filter (\<lambda>m. m \<noteq> (u, t)) (members s)"
      "number s' = (\<lambda>i. if (u, t) \<in> set (members s) \<and> i = t then map_option count_down (number s i) else number s i)"
      using Pair Inr remove_ok[of u t s x s'] ex by (simp_all add: exact_def)
    show ?thesis
    proof (cases "(u, t) \<in> set (members s)")
      case True
      then show ?thesis using exact_remove[OF ex True] by (simp add: Pair eff)
    next
      case False
      then have "filter (\<lambda>m. m \<noteq> (u, t)) (members s) = members s" by (auto simp: filter_id_conv)
      with False show ?thesis using ex by (simp add: Pair eff)
    qed
  qed
qed

text \<open>What the caller reads after a statement that succeeded.\<close>

lemma added:
  assumes "add u t now s = (Inr b, s')"
  shows "set (members s') = insert (u, t) (set (members s))" "b \<longleftrightarrow> (u, t) \<notin> set (members s)"
  using add_ok[OF assms] by auto

lemma removed:
  assumes "remove u t s = (Inr x, s')" "exact (members s) (number s)"
  shows "set (members s') = set (members s) - {(u, t)}"
  using remove_ok[OF assms(1)] assms(2) by (auto simp: exact_def)

lemma add_again: "add u t now s = (Inr b, s') \<Longrightarrow> add u t now' s' = (Inr b', s'') \<Longrightarrow>
   \<not> b' \<and> members s'' = members s' \<and> number s'' = number s'"
  using add_ok[of u t now s b s'] add_ok[of u t now' s' b' s''] added(1)[of u t now s b s'] by auto

end

end
