(* ===== verification/Interactions.thy ===== *)
theory Interactions
  imports Notifications Counted
begin

section \<open>Likes, favourites and follows\<close>

text \<open>
  Models the interactions of \<open>internal/service/post.go\<close>, \<open>comment.go\<close> and \<open>user.go\<close> with
  their statements in \<open>internal/repository\<close> and the triggers that keep the counters.  Each of
  them is a row that is there or not; inserting it twice or deleting it twice is no error, and
  a new row notifies the author of the post or comment, or the user that is followed.
\<close>

subsection \<open>Statements\<close>

text \<open>The display columns that \<open>FindByID\<close> joins are not used by the operations below.\<close>

definition post_FindByID :: "row_id \<Rightarrow> bool \<Rightarrow> (db, repo_error, post) act" where
  "post_FindByID postID includeDeleted = query_first (\<lambda>s.
     find (\<lambda>p. p_id p = postID \<and> (includeDeleted \<or> p_deleted_at p = None) \<and>
        list_ex (\<lambda>u. u_id u = p_author_id p) (users s)) (posts s))"

definition user_FindByID :: "row_id \<Rightarrow> (db, repo_error, user) act" where
  "user_FindByID userID = query_first (\<lambda>s. map_option load_user
     (first_by u_id (\<lambda>u. u_id u = userID \<and> u_deleted_at u = None) (users s)))"

definition comment_FindByID :: "row_id \<Rightarrow> (db, repo_error, comment) act" where
  "comment_FindByID commentID = query_first (\<lambda>s. first_by cm_id (\<lambda>c. cm_id c = commentID) (comments s))"

text \<open>The triggers \<open>danshi_sync_post_like_count\<close> and its siblings.\<close>

definition sync_post_like_count :: "row_id \<Rightarrow> (int \<Rightarrow> int) \<Rightarrow> db \<Rightarrow> db" where
  "sync_post_like_count postID f s =
     s\<lparr>posts := upd_where (\<lambda>p. p_id p = postID) (\<lambda>p. p\<lparr>p_like_count := f (p_like_count p)\<rparr>) (posts s)\<rparr>"

definition sync_post_favorite_count :: "row_id \<Rightarrow> (int \<Rightarrow> int) \<Rightarrow> db \<Rightarrow> db" where
  "sync_post_favorite_count postID f s =
     s\<lparr>posts := upd_where (\<lambda>p. p_id p = postID) (\<lambda>p. p\<lparr>p_favorite_count := f (p_favorite_count p)\<rparr>) (posts s)\<rparr>"

definition sync_comment_like_count :: "row_id \<Rightarrow> (int \<Rightarrow> int) \<Rightarrow> db \<Rightarrow> db" where
  "sync_comment_like_count commentID f s =
     s\<lparr>comments := upd_where (\<lambda>c. cm_id c = commentID) (\<lambda>c. c\<lparr>cm_like_count := f (cm_like_count c)\<rparr>) (comments s)\<rparr>"

text \<open>
  \<open>INSERT ... ON CONFLICT DO NOTHING\<close> and \<open>DELETE\<close> by the whole primary key, with the trigger
  that runs for the row.
\<close>

definition user_exists :: "db \<Rightarrow> row_id \<Rightarrow> bool" where
  "user_exists s i \<longleftrightarrow> list_ex (\<lambda>u. u_id u = i) (users s)"

definition post_Like :: "row_id \<Rightarrow> row_id \<Rightarrow> time \<Rightarrow> (db, repo_error, bool) act" where
  "post_Like userID postID now = stmt (\<lambda>s.
     if list_ex (\<lambda>l. pl_user_id l = userID \<and> pl_post_id l = postID) (post_likes s) then (Inr False, s)
     else if \<not> user_exists s userID \<or> \<not> list_ex (\<lambda>p. p_id p = postID) (posts s)
     then (Inl (RepoPlain ''foreign_key_violation''), s)
     else (Inr True, sync_post_like_count postID count_up
        (s\<lparr>post_likes := post_likes s @ [\<lparr>pl_user_id = userID, pl_post_id = postID, pl_created_at = now\<rparr>]\<rparr>)))"

definition post_Unlike :: "row_id \<Rightarrow> row_id \<Rightarrow> (db, repo_error, unit) act" where
  "post_Unlike userID postID = execute (\<lambda>s.
     let p = (\<lambda>l. pl_user_id l = userID \<and> pl_post_id l = postID)
     in ((), if list_ex p (post_likes s)
             then sync_post_like_count postID count_down (s\<lparr>post_likes := filter (\<lambda>l. \<not> p l) (post_likes s)\<rparr>) else s))"

definition post_Favorite :: "row_id \<Rightarrow> row_id \<Rightarrow> time \<Rightarrow> (db, repo_error, bool) act" where
  "post_Favorite userID postID now = stmt (\<lambda>s.
     if list_ex (\<lambda>l. fv_user_id l = userID \<and> fv_post_id l = postID) (favorites s) then (Inr False, s)
     else if \<not> user_exists s userID \<or> \<not> list_ex (\<lambda>p. p_id p = postID) (posts s)
     then (Inl (RepoPlain ''foreign_key_violation''), s)
     else (Inr True, sync_post_favorite_count postID count_up
        (s\<lparr>favorites := favorites s @ [\<lparr>fv_user_id = userID, fv_post_id = postID, fv_created_at = now\<rparr>]\<rparr>)))"

definition post_Unfavorite :: "row_id \<Rightarrow> row_id \<Rightarrow> (db, repo_error, unit) act" where
  "post_Unfavorite userID postID = execute (\<lambda>s.
     let p = (\<lambda>l. fv_user_id l = userID \<and> fv_post_id l = postID)
     in ((), if list_ex p (favorites s)
             then sync_post_favorite_count postID count_down (s\<lparr>favorites := filter (\<lambda>l. \<not> p l) (favorites s)\<rparr>) else s))"

definition comment_repo_Like :: "row_id \<Rightarrow> row_id \<Rightarrow> time \<Rightarrow> (db, repo_error, bool) act" where
  "comment_repo_Like userID commentID now = stmt (\<lambda>s.
     if list_ex (\<lambda>l. ck_user_id l = userID \<and> ck_comment_id l = commentID) (comment_likes s) then (Inr False, s)
     else if \<not> user_exists s userID \<or> \<not> list_ex (\<lambda>c. cm_id c = commentID) (comments s)
     then (Inl (RepoPlain ''foreign_key_violation''), s)
     else (Inr True, sync_comment_like_count commentID count_up
        (s\<lparr>comment_likes := comment_likes s @ [\<lparr>ck_user_id = userID, ck_comment_id = commentID, ck_created_at = now\<rparr>]\<rparr>)))"

definition comment_repo_Unlike :: "row_id \<Rightarrow> row_id \<Rightarrow> (db, repo_error, unit) act" where
  "comment_repo_Unlike userID commentID = execute (\<lambda>s.
     let p = (\<lambda>l. ck_user_id l = userID \<and> ck_comment_id l = commentID)
     in ((), if list_ex p (comment_likes s)
             then sync_comment_like_count commentID count_down (s\<lparr>comment_likes := filter (\<lambda>l. \<not> p l) (comment_likes s)\<rparr>) else s))"

definition user_repo_Follow :: "row_id \<Rightarrow> row_id \<Rightarrow> time \<Rightarrow> (db, repo_error, bool) act" where
  "user_repo_Follow followerID followingID now = stmt (\<lambda>s.
     if followerID = followingID then (Inl (CheckViolation ''follows''), s)
     else if list_ex (\<lambda>f. fw_follower_id f = followerID \<and> fw_following_id f = followingID) (follows s) then (Inr False, s)
     else if \<not> user_exists s followerID \<or> \<not> user_exists s followingID
     then (Inl (RepoPlain ''foreign_key_violation''), s)
     else (Inr True, s\<lparr>follows := follows s @ [\<lparr>fw_follower_id = followerID, fw_following_id = followingID, fw_created_at = now\<rparr>]\<rparr>))"

definition user_repo_Unfollow :: "row_id \<Rightarrow> row_id \<Rightarrow> (db, repo_error, unit) act" where
  "user_repo_Unfollow followerID followingID = execute (\<lambda>s. ((),
     s\<lparr>follows := filter (\<lambda>f. \<not> (fw_follower_id f = followerID \<and> fw_following_id f = followingID)) (follows s)\<rparr>))"

definition Counters :: "row_id \<Rightarrow> (db, repo_error, int \<times> int) act" where
  "Counters postID = query_first (\<lambda>s.
     map_option (\<lambda>p. (p_like_count p, p_favorite_count p)) (find (\<lambda>p. p_id p = postID) (posts s)))"

definition LikeCount :: "row_id \<Rightarrow> (db, repo_error, int) act" where
  "LikeCount commentID = query_first (\<lambda>s. map_option cm_like_count (find (\<lambda>c. cm_id c = commentID) (comments s)))"

definition FollowerCount :: "row_id \<Rightarrow> (db, repo_error, int) act" where
  "FollowerCount userID = query (\<lambda>s. int (count_where (\<lambda>f. fw_following_id f = userID) (follows s)))"

text \<open>One \<open>INSERT\<close> of several rows: it adds all of them or none.\<close>

fun insert_notifications :: "notification list \<Rightarrow> time \<Rightarrow> db \<Rightarrow> repo_error + db" where
  "insert_notifications [] now s = Inr s"
| "insert_notifications (n # ns) now s =
     (case insert_notification n now s of Inl err \<Rightarrow> Inl err | Inr t \<Rightarrow> insert_notifications ns now t)"

definition CreateNotifications :: "notification list \<Rightarrow> time \<Rightarrow> (db, repo_error, unit) act" where
  "CreateNotifications rows now =
     (if rows = [] then ret ()
      else stmt (\<lambda>s. case insert_notifications rows now s of Inl err \<Rightarrow> (Inl err, s) | Inr t \<Rightarrow> (Inr (), t)))"

subsection \<open>Posts\<close>

definition ensurePostWritable :: "post \<Rightarrow> go_error option" where
  "ensurePostWritable post =
     (if p_deleted_at post \<noteq> None then Some (NotFound (Some BizPostDeleted))
      else if p_status post \<noteq> PostApproved then Some (Conflict (Some BizPostNotPublished)) else None)"

definition postForWrite :: "row_id \<Rightarrow> ('fx req, go_error, post) act" where
  "postForWrite postID =
     bind (db_call (ToAPIError BizPostNotFound) (post_FindByID postID True)) (\<lambda>record.
     seq (opt_error (ensurePostWritable record)) (ret record))"

definition new_notification :: "row_id \<Rightarrow> row_id \<Rightarrow> NotificationType \<Rightarrow> row_id option \<Rightarrow> row_id option \<Rightarrow> notification" where
  "new_notification recipientID senderID t postID commentID =
     \<lparr>nt_id = 0, nt_recipient_id = recipientID, nt_sender_id = senderID, nt_type = t, nt_post_id = postID,
      nt_comment_id = commentID, nt_content = None, nt_is_read = False, nt_created_at = 0, nt_updated_at = 0\<rparr>"

text \<open>A result is the flag and the counter of the answer.\<close>

type_synonym action_result = "bool \<times> int"

definition post_service_Like :: "(nat \<Rightarrow> time) \<Rightarrow> row_id \<Rightarrow> row_id \<Rightarrow> ('fx req, go_error, action_result) act" where
  "post_service_Like clk postID userID =
     bind (postForWrite postID) (\<lambda>post.
     bind (db_call internal_of (post_Like userID postID (clk 0))) (\<lambda>created.
     seq (if created \<and> p_author_id post \<noteq> userID
          then db_call internal_of (notification_Create
                 (new_notification (p_author_id post) userID NotifyLikePost (Some (p_id post)) None) (clk 1))
          else ret ())
     (bind (db_call internal_of (Counters postID)) (\<lambda>(likeCount, _).
      ret (True, likeCount)))))"

definition post_service_Unlike :: "row_id \<Rightarrow> row_id \<Rightarrow> ('fx req, go_error, action_result) act" where
  "post_service_Unlike postID userID =
     bind (postForWrite postID) (\<lambda>post.
     seq (db_call internal_of (post_Unlike userID postID))
     (bind (db_call internal_of (Counters postID)) (\<lambda>(likeCount, _).
      ret (False, likeCount))))"

definition post_service_Favorite :: "(nat \<Rightarrow> time) \<Rightarrow> row_id \<Rightarrow> row_id \<Rightarrow> ('fx req, go_error, action_result) act" where
  "post_service_Favorite clk postID userID =
     bind (postForWrite postID) (\<lambda>post.
     bind (db_call internal_of (post_Favorite userID postID (clk 0))) (\<lambda>_.
     bind (db_call internal_of (Counters postID)) (\<lambda>(_, favoriteCount).
     ret (True, favoriteCount))))"

definition post_service_Unfavorite :: "row_id \<Rightarrow> row_id \<Rightarrow> ('fx req, go_error, action_result) act" where
  "post_service_Unfavorite postID userID =
     bind (postForWrite postID) (\<lambda>post.
     seq (db_call internal_of (post_Unfavorite userID postID))
     (bind (db_call internal_of (Counters postID)) (\<lambda>(_, favoriteCount).
      ret (False, favoriteCount))))"

subsection \<open>Comments\<close>

definition commentRepositoryError :: "repo_error \<Rightarrow> go_error" where
  "commentRepositoryError err = (if err = ErrNotFound then NotFound (Some BizCommentNotFound) else internal_of err)"

definition comment_hidden :: "comment \<Rightarrow> bool" where
  "comment_hidden c \<longleftrightarrow> cm_deleted_at c \<noteq> None \<or> cm_moderation c \<noteq> ModPass"

definition interactiveComment :: "row_id \<Rightarrow> ('fx req, go_error, comment) act" where
  "interactiveComment commentID =
     bind (db_call commentRepositoryError (comment_FindByID commentID)) (\<lambda>comment.
     if comment_hidden comment then fail (NotFound (Some BizCommentNotFound))
     else seq (case cm_root_id comment of None \<Rightarrow> ret ()
       | Some rootID \<Rightarrow> bind (db_call commentRepositoryError (comment_FindByID rootID)) (\<lambda>root.
           if comment_hidden root then fail (NotFound (Some BizCommentNotFound)) else ret ()))
     (bind (db_call (ToAPIError BizPostNotFound) (post_FindByID (cm_post_id comment) True)) (\<lambda>post.
      if p_deleted_at post \<noteq> None \<or> p_status post \<noteq> PostApproved then fail (Conflict (Some BizPostNotPublished))
      else ret comment)))"

definition comment_service_Like :: "(nat \<Rightarrow> time) \<Rightarrow> row_id \<Rightarrow> row_id \<Rightarrow> ('fx req, go_error, action_result) act" where
  "comment_service_Like clk commentID userID =
     bind (interactiveComment commentID) (\<lambda>comment.
     bind (db_call internal_of (comment_repo_Like userID commentID (clk 0))) (\<lambda>created.
     seq (if created \<and> cm_author_id comment \<noteq> userID
          then db_call internal_of (CreateNotifications
                 [new_notification (cm_author_id comment) userID NotifyLikeComment None (Some (cm_id comment))] (clk 1))
          else ret ())
     (bind (db_call commentRepositoryError (LikeCount commentID)) (\<lambda>count.
      ret (True, count)))))"

definition comment_service_Unlike :: "row_id \<Rightarrow> row_id \<Rightarrow> ('fx req, go_error, action_result) act" where
  "comment_service_Unlike commentID userID =
     bind (interactiveComment commentID) (\<lambda>comment.
     seq (db_call internal_of (comment_repo_Unlike userID commentID))
     (bind (db_call commentRepositoryError (LikeCount commentID)) (\<lambda>count.
      ret (False, count))))"

subsection \<open>Users\<close>

definition userNotFoundError :: "repo_error \<Rightarrow> go_error" where
  "userNotFoundError err = (if err = ErrNotFound then NotFound (Some BizNotFound) else internal_of err)"

definition ensureUser :: "row_id \<Rightarrow> ('fx req, go_error, unit) act" where
  "ensureUser userID = bind (db_call userNotFoundError (user_FindByID userID)) (\<lambda>_. ret ())"

definition followResult :: "row_id \<Rightarrow> bool \<Rightarrow> ('fx req, go_error, action_result) act" where
  "followResult targetID isFollowing =
     bind (db_call internal_of (FollowerCount targetID)) (\<lambda>count. ret (isFollowing, count))"

definition user_service_Follow :: "(nat \<Rightarrow> time) \<Rightarrow> row_id \<Rightarrow> row_id \<Rightarrow> ('fx req, go_error, action_result) act" where
  "user_service_Follow clk targetID currentUserID =
     (if targetID = currentUserID then fail (BadRequest (Some BizCannotFollowSelf))
      else seq (ensureUser targetID)
       (bind (db_call internal_of (user_repo_Follow currentUserID targetID (clk 0))) (\<lambda>created.
        seq (if created then db_call internal_of (notification_Create
                  (new_notification targetID currentUserID NotifyFollow None None) (clk 1)) else ret ())
            (followResult targetID True))))"

definition user_service_Unfollow :: "row_id \<Rightarrow> row_id \<Rightarrow> ('fx req, go_error, action_result) act" where
  "user_service_Unfollow targetID currentUserID =
     (if targetID = currentUserID then fail (BadRequest (Some BizCannotFollowSelf))
      else seq (ensureUser targetID)
       (seq (db_call internal_of (user_repo_Unfollow currentUserID targetID)) (followResult targetID False)))"

subsection \<open>The four relations\<close>

definition post_like_pairs :: "db \<Rightarrow> (row_id \<times> row_id) list" where
  "post_like_pairs s = map (\<lambda>l. (pl_user_id l, pl_post_id l)) (post_likes s)"

definition favorite_pairs :: "db \<Rightarrow> (row_id \<times> row_id) list" where
  "favorite_pairs s = map (\<lambda>l. (fv_user_id l, fv_post_id l)) (favorites s)"

definition comment_like_pairs :: "db \<Rightarrow> (row_id \<times> row_id) list" where
  "comment_like_pairs s = map (\<lambda>l. (ck_user_id l, ck_comment_id l)) (comment_likes s)"

definition follow_pairs :: "db \<Rightarrow> (row_id \<times> row_id) list" where
  "follow_pairs s = map (\<lambda>f. (fw_follower_id f, fw_following_id f)) (follows s)"

definition post_like_number :: "db \<Rightarrow> row_id \<Rightarrow> int option" where
  "post_like_number s t = map_option p_like_count (find (\<lambda>p. p_id p = t) (posts s))"

definition favorite_number :: "db \<Rightarrow> row_id \<Rightarrow> int option" where
  "favorite_number s t = map_option p_favorite_count (find (\<lambda>p. p_id p = t) (posts s))"

definition comment_like_number :: "db \<Rightarrow> row_id \<Rightarrow> int option" where
  "comment_like_number s t = map_option cm_like_count (find (\<lambda>c. cm_id c = t) (comments s))"

definition follow_number :: "db \<Rightarrow> row_id \<Rightarrow> int option" where
  "follow_number s t = Some (int (count_where (\<lambda>f. fw_following_id f = t) (follows s)))"

lemma pair_listed: "list_ex (\<lambda>l. f l = u \<and> g l = t) xs \<longleftrightarrow> (u, t) \<in> set (map (\<lambda>l. (f l, g l)) xs)"
  by (induction xs) auto

lemma pairs_without: "map (\<lambda>l. (f l, g l)) (filter (\<lambda>l. f l = u \<longrightarrow> g l \<noteq> t) xs) =
   filter (\<lambda>m. m \<noteq> (u, t)) (map (\<lambda>l. (f l, g l)) xs)"
  by (induction xs) auto

lemma pair_absent: "(u, t) \<notin> set ms \<Longrightarrow> filter (\<lambda>m. m \<noteq> (u, t)) ms = ms"
  by (auto simp: filter_id_conv)

text \<open>The rows of a relation, read as its pairs.\<close>

lemma pairs_read:
  "list_ex (\<lambda>l. pl_user_id l = u \<and> pl_post_id l = t) (post_likes s) \<longleftrightarrow> (u, t) \<in> set (post_like_pairs s)"
  "list_ex (\<lambda>l. fv_user_id l = u \<and> fv_post_id l = t) (favorites s) \<longleftrightarrow> (u, t) \<in> set (favorite_pairs s)"
  "list_ex (\<lambda>l. ck_user_id l = u \<and> ck_comment_id l = t) (comment_likes s) \<longleftrightarrow> (u, t) \<in> set (comment_like_pairs s)"
  "list_ex (\<lambda>f. fw_follower_id f = u \<and> fw_following_id f = t) (follows s) \<longleftrightarrow> (u, t) \<in> set (follow_pairs s)"
  unfolding post_like_pairs_def favorite_pairs_def comment_like_pairs_def follow_pairs_def by (rule pair_listed)+

lemma pairs_filter [simp]:
  "post_like_pairs (s\<lparr>post_likes := filter (\<lambda>l. pl_user_id l = u \<longrightarrow> pl_post_id l \<noteq> t) ls\<rparr>) =
     filter (\<lambda>m. m \<noteq> (u, t)) (post_like_pairs (s\<lparr>post_likes := ls\<rparr>))"
  "favorite_pairs (s\<lparr>favorites := filter (\<lambda>l. fv_user_id l = u \<longrightarrow> fv_post_id l \<noteq> t) fs\<rparr>) =
     filter (\<lambda>m. m \<noteq> (u, t)) (favorite_pairs (s\<lparr>favorites := fs\<rparr>))"
  "comment_like_pairs (s\<lparr>comment_likes := filter (\<lambda>l. ck_user_id l = u \<longrightarrow> ck_comment_id l \<noteq> t) cs\<rparr>) =
     filter (\<lambda>m. m \<noteq> (u, t)) (comment_like_pairs (s\<lparr>comment_likes := cs\<rparr>))"
  "follow_pairs (s\<lparr>follows := filter (\<lambda>f. fw_follower_id f = u \<longrightarrow> fw_following_id f \<noteq> t) ws\<rparr>) =
     filter (\<lambda>m. m \<noteq> (u, t)) (follow_pairs (s\<lparr>follows := ws\<rparr>))"
  by (simp_all add: post_like_pairs_def favorite_pairs_def comment_like_pairs_def follow_pairs_def pairs_without)

lemma pairs_append [simp]:
  "post_like_pairs (s\<lparr>post_likes := ls @ [l]\<rparr>) = post_like_pairs (s\<lparr>post_likes := ls\<rparr>) @ [(pl_user_id l, pl_post_id l)]"
  "favorite_pairs (s\<lparr>favorites := fs @ [f]\<rparr>) = favorite_pairs (s\<lparr>favorites := fs\<rparr>) @ [(fv_user_id f, fv_post_id f)]"
  "comment_like_pairs (s\<lparr>comment_likes := cs @ [c]\<rparr>) =
     comment_like_pairs (s\<lparr>comment_likes := cs\<rparr>) @ [(ck_user_id c, ck_comment_id c)]"
  "follow_pairs (s\<lparr>follows := ws @ [w]\<rparr>) = follow_pairs (s\<lparr>follows := ws\<rparr>) @ [(fw_follower_id w, fw_following_id w)]"
  by (simp_all add: post_like_pairs_def favorite_pairs_def comment_like_pairs_def follow_pairs_def)

text \<open>A relation is its own table alone.\<close>

lemma pairs_frame [simp]:
  "post_like_pairs (s\<lparr>post_likes := post_likes t\<rparr>) = post_like_pairs t"
  "post_like_pairs (s\<lparr>favorites := x_favorites\<rparr>) = post_like_pairs s"
  "post_like_pairs (s\<lparr>comment_likes := x_comment_likes\<rparr>) = post_like_pairs s"
  "post_like_pairs (s\<lparr>follows := x_follows\<rparr>) = post_like_pairs s"
  "post_like_pairs (s\<lparr>db_stmts := n\<rparr>) = post_like_pairs s"
  "post_like_pairs (s\<lparr>notifications := ns\<rparr>) = post_like_pairs s"
  "post_like_pairs (sync_post_like_count i f s) = post_like_pairs s"
  "post_like_pairs (sync_post_favorite_count i f s) = post_like_pairs s"
  "post_like_pairs (sync_comment_like_count i f s) = post_like_pairs s"
  "favorite_pairs (s\<lparr>favorites := favorites t\<rparr>) = favorite_pairs t"
  "favorite_pairs (s\<lparr>post_likes := x_post_likes\<rparr>) = favorite_pairs s"
  "favorite_pairs (s\<lparr>comment_likes := x_comment_likes\<rparr>) = favorite_pairs s"
  "favorite_pairs (s\<lparr>follows := x_follows\<rparr>) = favorite_pairs s"
  "favorite_pairs (s\<lparr>db_stmts := n\<rparr>) = favorite_pairs s"
  "favorite_pairs (s\<lparr>notifications := ns\<rparr>) = favorite_pairs s"
  "favorite_pairs (sync_post_like_count i f s) = favorite_pairs s"
  "favorite_pairs (sync_post_favorite_count i f s) = favorite_pairs s"
  "favorite_pairs (sync_comment_like_count i f s) = favorite_pairs s"
  "comment_like_pairs (s\<lparr>comment_likes := comment_likes t\<rparr>) = comment_like_pairs t"
  "comment_like_pairs (s\<lparr>post_likes := x_post_likes\<rparr>) = comment_like_pairs s"
  "comment_like_pairs (s\<lparr>favorites := x_favorites\<rparr>) = comment_like_pairs s"
  "comment_like_pairs (s\<lparr>follows := x_follows\<rparr>) = comment_like_pairs s"
  "comment_like_pairs (s\<lparr>db_stmts := n\<rparr>) = comment_like_pairs s"
  "comment_like_pairs (s\<lparr>notifications := ns\<rparr>) = comment_like_pairs s"
  "comment_like_pairs (sync_post_like_count i f s) = comment_like_pairs s"
  "comment_like_pairs (sync_post_favorite_count i f s) = comment_like_pairs s"
  "comment_like_pairs (sync_comment_like_count i f s) = comment_like_pairs s"
  "follow_pairs (s\<lparr>follows := follows t\<rparr>) = follow_pairs t"
  "follow_pairs (s\<lparr>post_likes := x_post_likes\<rparr>) = follow_pairs s"
  "follow_pairs (s\<lparr>favorites := x_favorites\<rparr>) = follow_pairs s"
  "follow_pairs (s\<lparr>comment_likes := x_comment_likes\<rparr>) = follow_pairs s"
  "follow_pairs (s\<lparr>db_stmts := n\<rparr>) = follow_pairs s"
  "follow_pairs (s\<lparr>notifications := ns\<rparr>) = follow_pairs s"
  "follow_pairs (sync_post_like_count i f s) = follow_pairs s"
  "follow_pairs (sync_post_favorite_count i f s) = follow_pairs s"
  "follow_pairs (sync_comment_like_count i f s) = follow_pairs s"
  by (simp_all add: post_like_pairs_def favorite_pairs_def comment_like_pairs_def follow_pairs_def
      sync_post_like_count_def sync_post_favorite_count_def sync_comment_like_count_def)

lemma find_upd_where:
  "(\<And>r. p (f r) = p r) \<Longrightarrow>
   find p (upd_where q f xs) = map_option (\<lambda>r. if q r then f r else r) (find p xs)"
  by (induction xs) (auto simp: upd_where_def)

lemma find_upd_key:
  "(\<And>r. key (f r) = key r) \<Longrightarrow> find (\<lambda>r. key r = i) (upd_where (\<lambda>r. key r = j) f xs) =
     (if i = j then map_option f (find (\<lambda>r. key r = i) xs) else find (\<lambda>r. key r = i) xs)"
  by (induction xs) (auto simp: upd_where_def)

lemma numbers_sync [simp]:
  "post_like_number (sync_post_like_count i f s) =
     (\<lambda>t. if t = i then map_option f (post_like_number s t) else post_like_number s t)"
  "favorite_number (sync_post_like_count i f s) = favorite_number s"
  "favorite_number (sync_post_favorite_count i f s) =
     (\<lambda>t. if t = i then map_option f (favorite_number s t) else favorite_number s t)"
  "post_like_number (sync_post_favorite_count i f s) = post_like_number s"
  "comment_like_number (sync_comment_like_count i f s) =
     (\<lambda>t. if t = i then map_option f (comment_like_number s t) else comment_like_number s t)"
  "comment_like_number (sync_post_like_count i f s) = comment_like_number s"
  "comment_like_number (sync_post_favorite_count i f s) = comment_like_number s"
  "post_like_number (sync_comment_like_count i f s) = post_like_number s"
  "favorite_number (sync_comment_like_count i f s) = favorite_number s"
  by (auto simp: post_like_number_def favorite_number_def comment_like_number_def sync_post_like_count_def
      sync_post_favorite_count_def sync_comment_like_count_def find_upd_key option.map_comp o_def fun_eq_iff)

lemma sync_frame [simp]:
  "post_likes (sync_post_like_count i f s) = post_likes s" "favorites (sync_post_like_count i f s) = favorites s"
  "comment_likes (sync_post_like_count i f s) = comment_likes s" "follows (sync_post_like_count i f s) = follows s"
  "users (sync_post_like_count i f s) = users s" "notifications (sync_post_like_count i f s) = notifications s"
  "post_likes (sync_post_favorite_count i f s) = post_likes s" "favorites (sync_post_favorite_count i f s) = favorites s"
  "comment_likes (sync_post_favorite_count i f s) = comment_likes s" "follows (sync_post_favorite_count i f s) = follows s"
  "users (sync_post_favorite_count i f s) = users s" "notifications (sync_post_favorite_count i f s) = notifications s"
  "post_likes (sync_comment_like_count i f s) = post_likes s" "favorites (sync_comment_like_count i f s) = favorites s"
  "comment_likes (sync_comment_like_count i f s) = comment_likes s" "follows (sync_comment_like_count i f s) = follows s"
  "users (sync_comment_like_count i f s) = users s" "notifications (sync_comment_like_count i f s) = notifications s"
  by (simp_all add: sync_post_like_count_def sync_post_favorite_count_def sync_comment_like_count_def)

lemma numbers_blind [simp]:
  "post_like_number (s\<lparr>db_stmts := n\<rparr>) = post_like_number s" "favorite_number (s\<lparr>db_stmts := n\<rparr>) = favorite_number s"
  "comment_like_number (s\<lparr>db_stmts := n\<rparr>) = comment_like_number s" "follow_number (s\<lparr>db_stmts := n\<rparr>) = follow_number s"
  "post_like_number (s\<lparr>post_likes := ls\<rparr>) = post_like_number s" "favorite_number (s\<lparr>post_likes := ls\<rparr>) = favorite_number s"
  "comment_like_number (s\<lparr>post_likes := ls\<rparr>) = comment_like_number s"
  "post_like_number (s\<lparr>favorites := fs\<rparr>) = post_like_number s" "favorite_number (s\<lparr>favorites := fs\<rparr>) = favorite_number s"
  "comment_like_number (s\<lparr>favorites := fs\<rparr>) = comment_like_number s"
  "post_like_number (s\<lparr>comment_likes := cs\<rparr>) = post_like_number s" "favorite_number (s\<lparr>comment_likes := cs\<rparr>) = favorite_number s"
  "comment_like_number (s\<lparr>comment_likes := cs\<rparr>) = comment_like_number s"
  "post_like_number (s\<lparr>follows := ws\<rparr>) = post_like_number s" "favorite_number (s\<lparr>follows := ws\<rparr>) = favorite_number s"
  "comment_like_number (s\<lparr>follows := ws\<rparr>) = comment_like_number s"
  "post_like_number (s\<lparr>notifications := ns\<rparr>) = post_like_number s" "favorite_number (s\<lparr>notifications := ns\<rparr>) = favorite_number s"
  "comment_like_number (s\<lparr>notifications := ns\<rparr>) = comment_like_number s"
  by (simp_all add: fun_eq_iff post_like_number_def favorite_number_def comment_like_number_def follow_number_def)

lemma follow_number_follows: "follows s' = follows s \<Longrightarrow> follow_number s' = follow_number s"
  by (simp add: fun_eq_iff follow_number_def)

lemmas relation_ops = post_Like_def post_Unlike_def post_Favorite_def post_Unfavorite_def comment_repo_Like_def
  comment_repo_Unlike_def user_repo_Follow_def user_repo_Unfollow_def stmt_run execute_run Let_def pairs_read

interpretation post_likes_rel: counted_relation post_like_pairs post_like_number post_Like post_Unlike
proof (unfold_locales, goal_cases)
  case (1 u t now s b s')
  then show ?case by (auto simp: relation_ops split: if_splits)
next
  case (2 u t now s e s')
  then show ?case by (auto simp: relation_ops split: if_splits)
next
  case (3 u t s x s')
  then show ?case
    by (cases "(u, t) \<in> set (post_like_pairs s)") (auto simp: relation_ops pair_absent split: if_splits)
next
  case (4 u t s e s')
  then show ?case by (auto simp: relation_ops split: if_splits)
qed

interpretation favorites_rel: counted_relation favorite_pairs favorite_number post_Favorite post_Unfavorite
proof (unfold_locales, goal_cases)
  case (1 u t now s b s')
  then show ?case by (auto simp: relation_ops split: if_splits)
next
  case (2 u t now s e s')
  then show ?case by (auto simp: relation_ops split: if_splits)
next
  case (3 u t s x s')
  then show ?case
    by (cases "(u, t) \<in> set (favorite_pairs s)") (auto simp: relation_ops pair_absent split: if_splits)
next
  case (4 u t s e s')
  then show ?case by (auto simp: relation_ops split: if_splits)
qed

interpretation comment_likes_rel: counted_relation comment_like_pairs comment_like_number comment_repo_Like comment_repo_Unlike
proof (unfold_locales, goal_cases)
  case (1 u t now s b s')
  then show ?case by (auto simp: relation_ops split: if_splits)
next
  case (2 u t now s e s')
  then show ?case by (auto simp: relation_ops split: if_splits)
next
  case (3 u t s x s')
  then show ?case
    by (cases "(u, t) \<in> set (comment_like_pairs s)") (auto simp: relation_ops pair_absent split: if_splits)
next
  case (4 u t s e s')
  then show ?case by (auto simp: relation_ops split: if_splits)
qed

text \<open>Followers are counted by a query, so the number is exact as long as no pair is there twice.\<close>

lemma follow_number_pairs: "follow_number s t = Some (int (length (filter (\<lambda>m. snd m = t) (follow_pairs s))))"
  by (simp add: follow_number_def count_where_def follow_pairs_def filter_map o_def)

lemma follow_number_eq: "follow_pairs s' = follow_pairs s \<Longrightarrow> follow_number s' = follow_number s"
  by (simp add: fun_eq_iff follow_number_pairs)

lemma follow_number_exact: "distinct (follow_pairs s) \<Longrightarrow> follow_number s t = Some (int (members_of (follow_pairs s) t))"
  by (simp add: follow_number_pairs length_members_of)

interpretation follows_rel: counted_relation follow_pairs follow_number user_repo_Follow user_repo_Unfollow
proof (unfold_locales, goal_cases)
  case (1 u t now s b s')
  then have "b = ((u, t) \<notin> set (follow_pairs s)) \<and>
      follow_pairs s' = (if b then follow_pairs s @ [(u, t)] else follow_pairs s)"
    by (auto simp: relation_ops split: if_splits)
  then show ?case by (auto simp: fun_eq_iff follow_number_pairs count_up_def)
next
  case (2 u t now s e s')
  then have "follow_pairs s' = follow_pairs s" by (auto simp: relation_ops split: if_splits)
  then show ?case by (blast intro: follow_number_eq)
next
  case (3 u t s x s')
  then have p: "follow_pairs s' = filter (\<lambda>m. m \<noteq> (u, t)) (follow_pairs s)"
    by (auto simp: relation_ops split: if_splits)
  have n: "follow_number s' i = Some (int (members_of (filter (\<lambda>m. m \<noteq> (u, t)) (follow_pairs s)) i))" for i
    using follow_number_exact[of s' i] 3(2) by (simp only: p distinct_filter)
  have "follow_number s' i = (if (u, t) \<in> set (follow_pairs s) \<and> i = t then map_option count_down (follow_number s i)
      else follow_number s i)" for i
    unfolding n members_of_remove follow_number_exact[OF 3(2)]
    using members_of_pos[of u t "follow_pairs s"] by (auto simp: count_down_def)
  then show ?case using p by blast
next
  case (4 u t s e s')
  then show ?case by (auto simp: relation_ops split: if_splits)
qed

end
