(* ===== verification/Comment_Store.thy ===== *)
theory Comment_Store
  imports Interactions
begin

section \<open>The tables of comments\<close>

text \<open>
  Models \<open>internal/repository/comment.go\<close> and \<open>comment_relations.go\<close>: the statements on comments,
  their versions and mentions, the constraints of these tables, and the trigger that keeps the
  numbers of visible comments (\<open>comment_count\<close> of a post) and visible replies (\<open>reply_count\<close> of a
  comment).  The foreign keys to the versions are deferred to the commit and are stated as an
  invariant instead.
\<close>

subsection \<open>What readers see\<close>

definition comment_active :: "comment \<Rightarrow> bool" where
  "comment_active c \<longleftrightarrow> cm_deleted_at c = None \<and> cm_moderation c = ModPass"

definition commentVisibilityPredicate :: "row_id \<Rightarrow> comment \<Rightarrow> bool" where
  "commentVisibilityPredicate currentUserID c \<longleftrightarrow>
     (cm_deleted_at c = None \<and> cm_moderation c = ModPass) \<or>
     (cm_author_id c = currentUserID \<and> cm_moderation c \<noteq> ModPass \<and>
      (cm_deleted_at c = None \<or> cm_deleted_reason c = Some DeletedByModeration))"

subsection \<open>Constraints and the counting trigger\<close>

definition comment_check :: "comment \<Rightarrow> bool" where
  "comment_check c \<longleftrightarrow> cm_parent_id c \<noteq> Some (cm_id c) \<and> cm_root_id c \<noteq> Some (cm_id c) \<and>
     (if cm_deleted_at c = None then cm_deleted_reason c = None \<and> cm_deleted_by c = None
      else cm_deleted_reason c \<noteq> None) \<and>
     (cm_parent_id c = None) = (cm_root_id c = None) \<and>
     0 \<le> cm_like_count c \<and> 0 \<le> cm_reply_count c \<and> (cm_root_id c = None \<or> cm_reply_count c = 0) \<and>
     (case cm_moderation c of ModOther _ \<Rightarrow> False | _ \<Rightarrow> True) \<and> 1 \<le> cm_current_revision c"

definition effective_root :: "comment \<Rightarrow> row_id" where
  "effective_root c = (case cm_root_id c of None \<Rightarrow> cm_id c | Some r \<Rightarrow> r)"

definition comment_refs :: "db \<Rightarrow> comment \<Rightarrow> bool" where
  "comment_refs s c \<longleftrightarrow> user_exists s (cm_author_id c) \<and> user_exists s (cm_reply_to_user_id c) \<and>
     (case cm_deleted_by c of None \<Rightarrow> True | Some u \<Rightarrow> user_exists s u) \<and>
     list_ex (\<lambda>p. p_id p = cm_post_id c) (posts s) \<and>
     (case cm_parent_id c of
        None \<Rightarrow> list_ex (\<lambda>p. p_id p = cm_post_id c \<and> p_author_id p = cm_reply_to_user_id c) (posts s)
      | Some i \<Rightarrow> list_ex (\<lambda>d. cm_id d = i \<and> cm_author_id d = cm_reply_to_user_id c \<and>
          (case cm_root_id c of None \<Rightarrow> True | Some r \<Rightarrow> cm_post_id d = cm_post_id c \<and> effective_root d = r)) (comments s))"

definition add_comment_count :: "row_id \<Rightarrow> int \<Rightarrow> db \<Rightarrow> db" where
  "add_comment_count postID d s =
     s\<lparr>posts := upd_where (\<lambda>p. p_id p = postID) (\<lambda>p. p\<lparr>p_comment_count := max (p_comment_count p + d) 0\<rparr>) (posts s)\<rparr>"

definition add_reply_count :: "row_id \<Rightarrow> int \<Rightarrow> db \<Rightarrow> db" where
  "add_reply_count commentID d s =
     s\<lparr>comments := upd_where (\<lambda>c. cm_id c = commentID) (\<lambda>c. c\<lparr>cm_reply_count := max (cm_reply_count c + d) 0\<rparr>) (comments s)\<rparr>"

definition sync_comment_counts :: "comment option \<Rightarrow> comment \<Rightarrow> db \<Rightarrow> db" where
  "sync_comment_counts old c s =
     (let old_active = (case old of None \<Rightarrow> False | Some o' \<Rightarrow> comment_active o');
          delta = of_bool (comment_active c) - of_bool old_active
      in if delta = 0 then s
         else case cm_root_id c of
           None \<Rightarrow> add_comment_count (cm_post_id c) (delta * (1 + cm_reply_count c)) s
         | Some r \<Rightarrow>
             (let s1 = add_reply_count r delta s in
              case find (\<lambda>d. cm_id d = r) (comments s1) of
                None \<Rightarrow> s1
              | Some root \<Rightarrow> if comment_active root then add_comment_count (cm_post_id c) delta s1 else s1))"

subsection \<open>Comments\<close>

text \<open>Reads that lock a row are reads: the statements of one transaction see one database.\<close>

definition comment_LockByID :: "row_id \<Rightarrow> (db, repo_error, comment) act" where
  "comment_LockByID commentID = query_first (\<lambda>s. first_by cm_id (\<lambda>c. cm_id c = commentID) (comments s))"

definition comment_Create :: "comment \<Rightarrow> (db, repo_error, row_id) act" where
  "comment_Create comment = stmt (\<lambda>s.
     let c = comment\<lparr>cm_id := next_id cm_id (comments s), cm_like_count := 0, cm_reply_count := 0\<rparr>
     in if \<not> comment_check c then (Inl (CheckViolation ''comments''), s)
        else if \<not> comment_refs s c then (Inl (RepoPlain ''foreign_key_violation''), s)
        else (Inr (cm_id c), sync_comment_counts None c (s\<lparr>comments := comments s @ [c]\<rparr>)))"

text \<open>
  An update by id.  The trigger runs when \<open>deleted_at\<close> or \<open>moderation\<close> is assigned; an update that
  leaves both alone does not change the numbers.
\<close>

definition update_comment :: "(comment \<Rightarrow> bool) \<Rightarrow> row_id \<Rightarrow> (comment \<Rightarrow> comment) \<Rightarrow> (db, repo_error, unit) act" where
  "update_comment p commentID f = stmt (\<lambda>s.
     case find (\<lambda>c. cm_id c = commentID \<and> p c) (comments s) of
       None \<Rightarrow> (Inl ErrNotFound, s)
     | Some old \<Rightarrow>
         if \<not> comment_check (f old) then (Inl (CheckViolation ''comments''), s)
         else if \<not> comment_refs s (f old) then (Inl (RepoPlain ''foreign_key_violation''), s)
         else (Inr (), sync_comment_counts (Some old) (f old)
                 (s\<lparr>comments := upd_where (\<lambda>c. cm_id c = commentID \<and> p c) f (comments s)\<rparr>)))"

definition comment_UpdateContent :: "row_id \<Rightarrow> string \<Rightarrow> int \<Rightarrow> time \<Rightarrow> (db, repo_error, unit) act" where
  "comment_UpdateContent commentID content currentRevision updatedAt = update_comment (\<lambda>_. True) commentID
     (\<lambda>c. c\<lparr>cm_content := content, cm_current_revision := currentRevision, cm_updated_at := updatedAt\<rparr>)"

definition comment_ApplyModeration :: "row_id \<Rightarrow> ModerationStatus \<Rightarrow> time \<Rightarrow> (db, repo_error, unit) act" where
  "comment_ApplyModeration commentID moderation now = update_comment (\<lambda>_. True) commentID
     (\<lambda>c. if moderation = ModBlock
          then c\<lparr>cm_moderation := moderation, cm_deleted_at := Some now, cm_deleted_reason := Some DeletedByModeration,
                 cm_deleted_by := None\<rparr>
          else c\<lparr>cm_moderation := moderation, cm_deleted_at := None, cm_deleted_reason := None, cm_deleted_by := None\<rparr>)"

definition comment_SoftDelete :: "row_id \<Rightarrow> DeleteReason \<Rightarrow> row_id option \<Rightarrow> time \<Rightarrow> (db, repo_error, unit) act" where
  "comment_SoftDelete commentID reason actorID deletedAt = update_comment (\<lambda>c. cm_deleted_at c = None) commentID
     (\<lambda>c. c\<lparr>cm_deleted_at := Some deletedAt, cm_deleted_reason := Some reason, cm_deleted_by := actorID\<rparr>)"

definition comment_CurrentContentRevision :: "row_id \<Rightarrow> (db, repo_error, int) act" where
  "comment_CurrentContentRevision commentID =
     query_first (\<lambda>s. map_option cm_current_revision (find (\<lambda>c. cm_id c = commentID) (comments s)))"

subsection \<open>Versions\<close>

definition revisions_of :: "row_id \<Rightarrow> db \<Rightarrow> int list" where
  "revisions_of commentID s = map chs_revision (filter (\<lambda>h. chs_comment_id h = commentID) (comment_histories s))"

definition comment_NextHistoryRevision :: "row_id \<Rightarrow> (db, repo_error, int) act" where
  "comment_NextHistoryRevision commentID = query (\<lambda>s. fold max (revisions_of commentID s) 0 + 1)"

definition comment_CreateHistory :: "comment_history \<Rightarrow> (db, repo_error, unit) act" where
  "comment_CreateHistory history = stmt (\<lambda>s.
     if chs_revision history < 1 then (Inl (CheckViolation ''comment_histories''), s)
     else if list_ex (\<lambda>h. chs_comment_id h = chs_comment_id history \<and> chs_revision h = chs_revision history) (comment_histories s)
     then (Inl (UniqueViolation ''uq_comment_histories_revision''), s)
     else if \<not> user_exists s (chs_edited_by history) \<or> \<not> list_ex (\<lambda>c. cm_id c = chs_comment_id history) (comments s)
     then (Inl (RepoPlain ''foreign_key_violation''), s)
     else (Inr (), s\<lparr>comment_histories := comment_histories s @
                       [history\<lparr>chs_id := next_id chs_id (comment_histories s)\<rparr>]\<rparr>))"

definition comment_ListHistories :: "row_id \<Rightarrow> (db, repo_error, comment_history list) act" where
  "comment_ListHistories commentID =
     query (\<lambda>s. sort_key (\<lambda>h. - chs_revision h) (filter (\<lambda>h. chs_comment_id h = commentID) (comment_histories s)))"

text \<open>\<open>SELECT DISTINCT ON (content_revision)\<close>: the newest machine record of each version.\<close>

definition newest_record_of :: "moderation_record list \<Rightarrow> int \<Rightarrow> moderation_record list" where
  "newest_record_of rs revision = take 1 (sort_key (\<lambda>r. (- mr_created_at r, - int (mr_id r)))
     (filter (\<lambda>r. mr_content_revision r = Some revision) rs))"

definition comment_ListHistoryModeration :: "row_id \<Rightarrow> (db, repo_error, moderation_record list) act" where
  "comment_ListHistoryModeration commentID = query (\<lambda>s.
     let rs = filter (\<lambda>r. mr_comment_id r = Some commentID \<and> mr_content_revision r \<noteq> None \<and> mr_reviewer_id r = None)
                (moderation_records s)
     in concat (map (newest_record_of rs) (sort (remdups (List.map_filter mr_content_revision rs)))))"

subsection \<open>Mentions\<close>

definition uniqueSortedIDs :: "row_id list \<Rightarrow> row_id list" where
  "uniqueSortedIDs ids = sort (remdups (filter (\<lambda>i. i \<noteq> 0) ids))"

definition insert_mentions :: "row_id \<Rightarrow> row_id list \<Rightarrow> (db, repo_error, unit) act" where
  "insert_mentions commentID userIDs = stmt (\<lambda>s.
     if list_ex (\<lambda>m. cmm_comment_id m = commentID \<and> cmm_user_id m \<in> set userIDs) (comment_mentions s)
     then (Inl (UniqueViolation ''comment_mentions_pkey''), s)
     else if \<not> list_all (user_exists s) userIDs \<or> \<not> list_ex (\<lambda>c. cm_id c = commentID) (comments s)
     then (Inl (RepoPlain ''foreign_key_violation''), s)
     else (Inr (), s\<lparr>comment_mentions := comment_mentions s @
             map (\<lambda>u. \<lparr>cmm_comment_id = commentID, cmm_user_id = u\<rparr>) userIDs\<rparr>))"

definition ReplaceMentions :: "row_id \<Rightarrow> row_id list \<Rightarrow> (db, repo_error, unit) act" where
  "ReplaceMentions commentID userIDs0 =
     seq (execute (\<lambda>s. ((), s\<lparr>comment_mentions := filter (\<lambda>m. cmm_comment_id m \<noteq> commentID) (comment_mentions s)\<rparr>)))
         (let userIDs = uniqueSortedIDs userIDs0 in
          if userIDs = [] then ret () else insert_mentions commentID userIDs)"

definition MentionIDs :: "row_id \<Rightarrow> (db, repo_error, row_id list) act" where
  "MentionIDs commentID =
     query (\<lambda>s. sort (map cmm_user_id (filter (\<lambda>m. cmm_comment_id m = commentID) (comment_mentions s))))"

definition ActiveUsers :: "row_id list \<Rightarrow> (db, repo_error, user list) act" where
  "ActiveUsers userIDs0 =
     (let userIDs = uniqueSortedIDs userIDs0 in
      if userIDs = [] then ret []
      else query (\<lambda>s. sort_key u_id (filter (\<lambda>u. u_id u \<in> set userIDs \<and> u_deleted_at u = None) (users s))))"

subsection \<open>Pages\<close>

definition visible_comments :: "row_id \<Rightarrow> db \<Rightarrow> comment list" where
  "visible_comments currentUserID s = filter (commentVisibilityPredicate currentUserID) (comments s)"

text \<open>
  \<open>created_at, id\<close> ascending, or \<open>like_count, created_at, id\<close> descending.  The keys carry both orders
  as triples.
\<close>

type_synonym comment_key = "int \<times> int \<times> int"

definition comment_key :: "bool \<Rightarrow> comment \<Rightarrow> comment_key" where
  "comment_key hot c = (if hot then (- cm_like_count c, - cm_created_at c, - int (cm_id c))
     else (0, cm_created_at c, int (cm_id c)))"

definition cursor_key :: "bool \<Rightarrow> Cursor \<Rightarrow> comment_key" where
  "cursor_key hot c = (if hot then (- (case cu_rank c of None \<Rightarrow> 0 | Some n \<Rightarrow> n), - cu_created_at c, - int (cu_id c))
     else (0, cu_created_at c, int (cu_id c)))"

definition FindRootPage ::
  "row_id \<Rightarrow> row_id \<Rightarrow> string \<Rightarrow> CursorParams \<Rightarrow> (db, repo_error, comment list \<times> bool) act" where
  "FindRootPage postID currentUserID sortBy params =
     (if sortBy = ''hot'' \<and> (case cp_after params of None \<Rightarrow> False | Some a \<Rightarrow> cu_rank a = None)
      then fail (RepoPlain ''ErrInvalidCursor'')
      else query (\<lambda>s. page_after (comment_key (sortBy = ''hot'')) (map_option (cursor_key (sortBy = ''hot'')) (cp_after params))
        (nat (cp_limit params))
        (filter (\<lambda>c. cm_post_id c = postID \<and> cm_root_id c = None) (visible_comments currentUserID s))))"

definition FindReplyPreviews :: "row_id list \<Rightarrow> row_id \<Rightarrow> nat \<Rightarrow> (db, repo_error, comment list) act" where
  "FindReplyPreviews rootIDs0 currentUserID limit =
     (let rootIDs = uniqueSortedIDs rootIDs0 in
      if rootIDs = [] \<or> limit = 0 then ret []
      else query (\<lambda>s. concat (map (\<lambda>r. rev (take limit (sort_key (\<lambda>c. (- cm_created_at c, - int (cm_id c)))
             (filter (\<lambda>c. cm_root_id c = Some r) (visible_comments currentUserID s))))) rootIDs)))"

definition FindReplyPage :: "row_id \<Rightarrow> row_id \<Rightarrow> CursorParams \<Rightarrow> (db, repo_error, comment list \<times> bool) act" where
  "FindReplyPage rootID currentUserID params = query (\<lambda>s.
     page_after (comment_key False) (map_option (cursor_key False) (cp_after params)) (nat (cp_limit params))
       (filter (\<lambda>c. cm_root_id c = Some rootID) (visible_comments currentUserID s)))"

subsection \<open>What is shown with a comment\<close>

record CommentUserRow =
  cw_id :: row_id
  cw_name :: string
  cw_deleted_at :: "time option"
  cw_avatar_url :: "string option"

record CommentRelations =
  cr_mentions :: "row_id \<Rightarrow> row_id list"
  cr_users :: "row_id \<Rightarrow> CommentUserRow option"
  cr_liked :: "row_id \<Rightarrow> bool"
  cr_following :: "row_id \<Rightarrow> bool"
  cr_revisions :: "row_id \<Rightarrow> int"

definition no_relations :: CommentRelations where
  "no_relations = \<lparr>cr_mentions = (\<lambda>_. []), cr_users = (\<lambda>_. None), cr_liked = (\<lambda>_. False),
     cr_following = (\<lambda>_. False), cr_revisions = (\<lambda>_. 0)\<rparr>"

text \<open>The mentioned users join the ids for which names are loaded.\<close>

definition loadCommentMentions ::
  "row_id list \<Rightarrow> row_id list \<Rightarrow> CommentRelations \<Rightarrow> (db, repo_error, CommentRelations \<times> row_id list) act" where
  "loadCommentMentions commentIDs userIDs relations = query (\<lambda>s.
     let rows = sort_key (\<lambda>m. (cmm_comment_id m, cmm_user_id m))
           (filter (\<lambda>m. cmm_comment_id m \<in> set commentIDs) (comment_mentions s))
     in (relations\<lparr>cr_mentions := (\<lambda>i. map cmm_user_id (filter (\<lambda>m. cmm_comment_id m = i) rows))\<rparr>,
         uniqueSortedIDs (userIDs @ map cmm_user_id rows)))"

definition comment_user_row :: "db \<Rightarrow> user \<Rightarrow> CommentUserRow" where
  "comment_user_row s u = \<lparr>cw_id = u_id u, cw_name = u_name u, cw_deleted_at = u_deleted_at u,
     cw_avatar_url = (case u_avatar_id u of None \<Rightarrow> None
       | Some a \<Rightarrow> map_option img_public_url (find (\<lambda>i. img_id i = a) (images s)))\<rparr>"

definition loadCommentUsers :: "row_id list \<Rightarrow> CommentRelations \<Rightarrow> (db, repo_error, CommentRelations) act" where
  "loadCommentUsers userIDs relations =
     (if userIDs = [] then ret relations
      else query (\<lambda>s. relations\<lparr>cr_users := (\<lambda>i. if i \<in> set userIDs
         then map_option (comment_user_row s) (find (\<lambda>u. u_id u = i) (users s)) else None)\<rparr>))"

definition loadCommentRevisions :: "row_id list \<Rightarrow> CommentRelations \<Rightarrow> (db, repo_error, CommentRelations) act" where
  "loadCommentRevisions commentIDs relations = query (\<lambda>s. relations\<lparr>cr_revisions :=
     (\<lambda>i. if i \<in> set commentIDs then fold max (revisions_of i s) 0 else 0)\<rparr>)"

definition loadCommentLikes :: "row_id \<Rightarrow> row_id list \<Rightarrow> CommentRelations \<Rightarrow> (db, repo_error, CommentRelations) act" where
  "loadCommentLikes currentUserID commentIDs relations = query (\<lambda>s. relations\<lparr>cr_liked :=
     (\<lambda>i. i \<in> set commentIDs \<and> list_ex (\<lambda>l. ck_user_id l = currentUserID \<and> ck_comment_id l = i) (comment_likes s))\<rparr>)"

definition loadCommentFollows :: "row_id \<Rightarrow> row_id list \<Rightarrow> CommentRelations \<Rightarrow> (db, repo_error, CommentRelations) act" where
  "loadCommentFollows currentUserID authorIDs relations =
     (if authorIDs = [] then ret relations
      else query (\<lambda>s. relations\<lparr>cr_following :=
        (\<lambda>i. i \<in> set authorIDs \<and> list_ex (\<lambda>f. fw_follower_id f = currentUserID \<and> fw_following_id f = i) (follows s))\<rparr>))"

definition commentRelationIDs :: "comment list \<Rightarrow> row_id list \<times> row_id list \<times> row_id list" where
  "commentRelationIDs cs =
     (uniqueSortedIDs (map cm_id cs), uniqueSortedIDs (concat (map (\<lambda>c. [cm_author_id c, cm_reply_to_user_id c]) cs)),
      uniqueSortedIDs (map cm_author_id cs))"

definition LoadRelations :: "comment list \<Rightarrow> row_id \<Rightarrow> (db, repo_error, CommentRelations) act" where
  "LoadRelations cs currentUserID =
     (if cs = [] then ret no_relations
      else let (commentIDs, userIDs, authorIDs) = commentRelationIDs cs in
       bind (loadCommentMentions commentIDs userIDs no_relations) (\<lambda>(r1, userIDs').
       bind (loadCommentUsers userIDs' r1) (\<lambda>r2.
       bind (loadCommentRevisions commentIDs r2) (\<lambda>r3.
       if currentUserID = 0 then ret r3
       else bind (loadCommentLikes currentUserID commentIDs r3) (\<lambda>r4.
            loadCommentFollows currentUserID authorIDs r4)))))"

end
