(* ===== verification/Comment_Service.thy ===== *)
theory Comment_Service
  imports Comment_Store Authz
begin

section \<open>Comments\<close>

text \<open>
  Models \<open>internal/service/comment.go\<close>, \<open>comment_write.go\<close>, \<open>comment_view.go\<close> and
  \<open>history_moderation.go\<close>: writing, editing, deleting and listing comments.  The clock readings
  of one request are numbered from 0 in the order in which the code takes them; the time stamp of
  a notification is taken last.
\<close>

subsection \<open>Input and views\<close>

definition maxCommentContentRunes :: nat where "maxCommentContentRunes = 2000"
definition commentReplyPreviewLimit :: nat where "commentReplyPreviewLimit = 2"

record CommentService =
  csv_moderator :: ContentModerator
  csv_root_time :: CursorCodec
  csv_root_hot :: CursorCodec
  csv_replies :: CursorCodec

definition NewCommentServiceWithCursorSecret ::
  "auth_lib \<Rightarrow> aead_lib \<Rightarrow> ContentModerator option \<Rightarrow> string \<Rightarrow> CommentService" where
  "NewCommentServiceWithCursorSecret lib aead moderator secret =
     \<lparr>csv_moderator = (case moderator of None \<Rightarrow> UnavailableContentModerator | Some m \<Rightarrow> m),
      csv_root_time = NewCursorCodec lib aead secret ''comments.roots.time'',
      csv_root_hot = NewCursorCodec lib aead secret ''comments.roots.hot'',
      csv_replies = NewCursorCodec lib aead secret ''comments.replies''\<rparr>"

record CreateCommentInput =
  cc_content :: string
  cc_parent_id :: "row_id option"
  cc_reply_to_user_id :: "row_id option"
  cc_mentioned :: "row_id list"

record UpdateCommentInput =
  uc_content :: string
  uc_mentioned :: "row_id list"

record CommentAuthorView =
  av_id :: row_id
  av_username :: string
  av_avatar_url :: "string option"
  av_is_following :: bool

text \<open>A \<open>MentionedUserView\<close> and a \<open>ReplyToUserView\<close> are an id and a name.\<close>

type_synonym user_name_view = "row_id \<times> string"

datatype CommentItem = CommentItem
  (it_id: row_id) (it_content: string) (it_author: CommentAuthorView) (it_reply_to: "user_name_view option")
  (it_mentioned: "user_name_view list") (it_like_count: int) (it_is_liked: bool) (it_is_author: bool)
  (it_is_edited: bool) (it_moderation: ModerationStatus) (it_created_at: time) (it_reply_count: int)
  (it_replies: "CommentItem list")

definition shown_name :: "row_id \<Rightarrow> CommentRelations \<Rightarrow> string" where
  "shown_name userID relations =
     (case cr_users relations userID of
        Some u \<Rightarrow> if cw_deleted_at u = None then cw_name u else closed_account_name
      | None \<Rightarrow> closed_account_name)"

definition buildCommentAuthor :: "row_id \<Rightarrow> CommentRelations \<Rightarrow> CommentAuthorView" where
  "buildCommentAuthor userID relations =
     (case cr_users relations userID of
        Some u \<Rightarrow> if cw_deleted_at u = None
          then \<lparr>av_id = userID, av_username = cw_name u, av_avatar_url = cw_avatar_url u,
                av_is_following = cr_following relations userID\<rparr>
          else \<lparr>av_id = userID, av_username = closed_account_name, av_avatar_url = None,
                av_is_following = cr_following relations userID\<rparr>
      | None \<Rightarrow> \<lparr>av_id = userID, av_username = closed_account_name, av_avatar_url = None,
                 av_is_following = cr_following relations userID\<rparr>)"

definition buildReplyTo :: "row_id \<Rightarrow> CommentRelations \<Rightarrow> user_name_view" where
  "buildReplyTo userID relations = (userID, shown_name userID relations)"

definition buildMentionedUsers :: "row_id \<Rightarrow> CommentRelations \<Rightarrow> user_name_view list" where
  "buildMentionedUsers commentID relations =
     map (\<lambda>u. (u, shown_name u relations)) (cr_mentions relations commentID)"

definition buildCommentItem :: "comment \<Rightarrow> row_id \<Rightarrow> bool \<Rightarrow> CommentRelations \<Rightarrow> CommentItem list \<Rightarrow> CommentItem" where
  "buildCommentItem c postAuthorID isRoot relations replies =
     CommentItem (cm_id c) (cm_content c) (buildCommentAuthor (cm_author_id c) relations)
       (if isRoot then None else Some (buildReplyTo (cm_reply_to_user_id c) relations))
       (buildMentionedUsers (cm_id c) relations) (cm_like_count c) (cr_liked relations (cm_id c))
       (cm_author_id c = postAuthorID) (1 < cr_revisions relations (cm_id c)) (cm_moderation c) (cm_created_at c)
       (if isRoot then cm_reply_count c else 0) replies"

definition buildCommentList ::
  "comment list \<Rightarrow> comment list \<Rightarrow> row_id \<Rightarrow> row_id \<Rightarrow> ('fx req, go_error, CommentItem list) act" where
  "buildCommentList roots previews postAuthorID currentUserID =
     bind (db_call internal_of (LoadRelations (roots @ previews) currentUserID)) (\<lambda>relations.
     ret (map (\<lambda>root. buildCommentItem root postAuthorID True relations
            (map (\<lambda>p. buildCommentItem p postAuthorID False relations [])
               (filter (\<lambda>p. cm_root_id p = Some (cm_id root)) previews))) roots))"

subsection \<open>Writing\<close>

fun Contains :: "string \<Rightarrow> string \<Rightarrow> bool" where
  "Contains [] sub \<longleftrightarrow> sub = []"
| "Contains (c # s) sub \<longleftrightarrow> HasPrefix (c # s) sub \<or> Contains s sub"

definition uniqueIDs :: "row_id list \<Rightarrow> row_id list" where
  "uniqueIDs values = rev (fold (\<lambda>v seen. if v \<in> set seen then seen else v # seen) values [])"

definition differenceIDs :: "row_id list \<Rightarrow> row_id list \<Rightarrow> row_id list" where
  "differenceIDs values existing = filter (\<lambda>v. v \<notin> set existing) values"

definition validateReplyToUser :: "row_id option \<Rightarrow> row_id \<Rightarrow> go_error option" where
  "validateReplyToUser provided expected =
     (case provided of None \<Rightarrow> None
      | Some u \<Rightarrow> if u = expected then None else Some (InvalidField ''reply_to_user_id'' FieldConflict))"

definition commentHistoryWriteError :: "repo_error \<Rightarrow> go_error" where
  "commentHistoryWriteError err =
     (if err = UniqueViolation ''uq_comment_histories_revision'' then Conflict (Some BizConflict) else internal_of err)"

definition normalizeCommentPayload ::
  "string \<Rightarrow> row_id list \<Rightarrow> ('fx req, go_error, string \<times> row_id list) act" where
  "normalizeCommentPayload rawContent rawMentionIDs =
     (let content = TrimSpace rawContent; mentionIDs = uniqueIDs rawMentionIDs in
      if content = [] then fail (InvalidField ''content'' FieldRequired)
      else if RuneCount content > maxCommentContentRunes then fail (InvalidField ''content'' FieldTooLong)
      else if 0 \<in> set rawMentionIDs then fail (InvalidField ''mentioned_user_ids'' FieldInvalidFormat)
      else bind (db_call internal_of (ActiveUsers mentionIDs)) (\<lambda>found.
        if length found \<noteq> length mentionIDs then fail (InvalidField ''mentioned_user_ids'' FieldConflict)
        else if list_ex (\<lambda>u. u_name u = [] \<or> \<not> Contains content (CHR ''@'' # u_name u)) found
        then fail (InvalidField ''mentioned_user_ids'' FieldConflict)
        else ret (content, mentionIDs)))"

definition moderationRecordForComment :: "row_id \<Rightarrow> int \<Rightarrow> ModerationResult \<Rightarrow> time \<Rightarrow> moderation_record" where
  "moderationRecordForComment commentID contentRevision result now =
     \<lparr>mr_id = 0, mr_post_id = None, mr_comment_id = Some commentID, mr_image_id = None, mr_tag_id = None,
      mr_user_id = None, mr_field = None, mr_username_candidate = None, mr_username_revision = None,
      mr_content_revision = Some contentRevision, mr_scene = SceneText, mr_provider = ms_provider result,
      mr_provider_job_id = ms_job_id result, mr_verdict = ms_verdict result, mr_labels = ms_labels result,
      mr_score = ms_score result, mr_raw_response = ms_raw result, mr_reviewer_id = None, mr_reviewed_at = None,
      mr_supersedes_id = None, mr_created_at = now\<rparr>"

definition verdict_alert :: "ModerationTarget \<Rightarrow> row_id \<Rightarrow> ModerationResult \<Rightarrow> unit mod_act" where
  "verdict_alert target targetID result =
     (if ms_verdict result \<noteq> VerdictPass
      then Alert \<lparr>al_target = target, al_target_id = targetID, al_field = None, al_provider = ms_provider result,
             al_job_id = ms_job_id result, al_verdict = ms_verdict result, al_labels = ms_labels result\<rparr>
      else ret ())"

definition moderateComment ::
  "CommentService \<Rightarrow> (nat \<Rightarrow> time) \<Rightarrow> row_id \<Rightarrow> int \<Rightarrow> string \<Rightarrow> ModerationStatus mod_act" where
  "moderateComment srv clk commentID contentRevision content =
     bind (lift_result (csv_moderator srv \<lparr>mq_target = TargetComment, mq_field = None, mq_text = content\<rparr>)) (\<lambda>result.
     seq (opt_error (validateModerationResult result))
    (seq (db_call internal_of (user_CreateModerationRecord
            (moderationRecordForComment commentID contentRevision result (clk 1))))
    (seq (verdict_alert TargetComment commentID result)
    (seq (db_call commentRepositoryError
            (comment_ApplyModeration commentID (status_of_verdict (ms_verdict result)) (clk 2)))
         (ret (status_of_verdict (ms_verdict result)))))))"

definition commentPreview :: "string \<Rightarrow> string" where
  "commentPreview content = truncateRunes content 100"

definition content_notification ::
  "row_id \<Rightarrow> row_id \<Rightarrow> NotificationType \<Rightarrow> row_id option \<Rightarrow> row_id option \<Rightarrow> string \<Rightarrow> notification" where
  "content_notification recipientID senderID t postID commentID preview =
     (new_notification recipientID senderID t postID commentID)\<lparr>nt_content := Some preview\<rparr>"

definition mentionNotifications :: "row_id \<Rightarrow> row_id \<Rightarrow> string \<Rightarrow> row_id list \<Rightarrow> notification list" where
  "mentionNotifications commentID authorID content mentionIDs =
     map (\<lambda>u. content_notification u authorID NotifyMention None (Some commentID) (commentPreview content))
       (filter (\<lambda>u. u \<noteq> authorID) mentionIDs)"

definition createCommentNotifications ::
  "comment \<Rightarrow> comment option \<Rightarrow> row_id \<Rightarrow> row_id list \<Rightarrow> notification list" where
  "createCommentNotifications c parent postAuthorID mentionIDs =
     (case parent of
        None \<Rightarrow> if postAuthorID \<noteq> cm_author_id c
          then [content_notification postAuthorID (cm_author_id c) NotifyComment (Some (cm_post_id c)) None
                 (commentPreview (cm_content c))] else []
      | Some p \<Rightarrow> if cm_author_id p \<noteq> cm_author_id c
          then [content_notification (cm_author_id p) (cm_author_id c) NotifyReply None
                 (Some (case cm_root_id c of None \<Rightarrow> cm_id p | Some r \<Rightarrow> r)) (commentPreview (cm_content c))] else []) @
     mentionNotifications (cm_id c) (cm_author_id c) (cm_content c) mentionIDs"

definition resolveCommentParent ::
  "row_id \<Rightarrow> row_id \<Rightarrow> CreateCommentInput \<Rightarrow> ('fx req, go_error, comment option \<times> row_id option \<times> row_id) act" where
  "resolveCommentParent postID postAuthorID input =
     (case cc_parent_id input of
        None \<Rightarrow> seq (opt_error (validateReplyToUser (cc_reply_to_user_id input) postAuthorID)) (ret (None, None, postAuthorID))
      | Some i \<Rightarrow>
          if i = 0 then fail (InvalidField ''parent_id'' FieldInvalidFormat)
          else bind (db_call commentRepositoryError (comment_LockByID i)) (\<lambda>parent.
            if cm_deleted_at parent \<noteq> None then fail (NotFound (Some BizCommentDeleted))
            else if cm_moderation parent \<noteq> ModPass then fail (NotFound (Some BizCommentNotFound))
            else if cm_post_id parent \<noteq> postID then fail (InvalidField ''parent_id'' FieldConflict)
            else bind (case cm_root_id parent of None \<Rightarrow> ret (cm_id parent)
                 | Some r \<Rightarrow> bind (db_call commentRepositoryError (comment_FindByID r)) (\<lambda>root.
                     if comment_hidden root then fail (NotFound (Some BizCommentNotFound)) else ret r)) (\<lambda>rootID.
               seq (opt_error (validateReplyToUser (cc_reply_to_user_id input) (cm_author_id parent)))
                   (ret (Some parent, Some rootID, cm_author_id parent)))))"

definition commentMutationResult :: "row_id \<Rightarrow> row_id \<Rightarrow> row_id \<Rightarrow> ('fx req, go_error, CommentItem) act" where
  "commentMutationResult commentID postAuthorID currentUserID =
     bind (db_call commentRepositoryError (comment_FindByID commentID)) (\<lambda>c.
     bind (db_call internal_of (LoadRelations [c] currentUserID)) (\<lambda>relations.
     ret (buildCommentItem c postAuthorID (cm_root_id c = None) relations [])))"

definition new_comment ::
  "row_id \<Rightarrow> row_id \<Rightarrow> row_id option \<Rightarrow> row_id option \<Rightarrow> row_id \<Rightarrow> string \<Rightarrow> time \<Rightarrow> comment" where
  "new_comment postID authorID parentID rootID replyToUserID content now =
     \<lparr>cm_id = 0, cm_post_id = postID, cm_author_id = authorID, cm_parent_id = parentID, cm_root_id = rootID,
      cm_reply_to_user_id = replyToUserID, cm_content = content, cm_current_revision = 1, cm_moderation = ModPending,
      cm_like_count = 0, cm_reply_count = 0, cm_deleted_at = None, cm_deleted_reason = None, cm_deleted_by = None,
      cm_created_at = now, cm_updated_at = now\<rparr>"

definition post_LockByID :: "row_id \<Rightarrow> bool \<Rightarrow> (db, repo_error, post) act" where
  "post_LockByID postID includeDeleted = query_first (\<lambda>s.
     first_by p_id (\<lambda>p. p_id p = postID \<and> (includeDeleted \<or> p_deleted_at p = None)) (posts s))"

definition comment_service_Create ::
  "CommentService \<Rightarrow> (nat \<Rightarrow> time) \<Rightarrow> row_id \<Rightarrow> CreateCommentInput \<Rightarrow> row_id \<Rightarrow> CommentItem mod_act" where
  "comment_service_Create srv clk postID input authorID =
     bind (normalizeCommentPayload (cc_content input) (cc_mentioned input)) (\<lambda>(content, mentionIDs).
     bind (db_call (ToAPIError BizPostNotFound) (post_LockByID postID True)) (\<lambda>post.
     seq (opt_error (ensurePostWritable post))
    (bind (resolveCommentParent postID (p_author_id post) input) (\<lambda>(parent, rootID, replyToUserID).
     let c0 = new_comment postID authorID (cc_parent_id input) rootID replyToUserID content (clk 0) in
     bind (db_call internal_of (comment_Create c0)) (\<lambda>i.
     seq (db_call internal_of (ReplaceMentions i mentionIDs))
    (seq (db_call commentHistoryWriteError (comment_CreateHistory
            \<lparr>chs_id = 0, chs_comment_id = i, chs_revision = 1, chs_edited_by = authorID, chs_edited_at = clk 0,
             chs_content = content\<rparr>))
    (bind (moderateComment srv clk i 1 content) (\<lambda>moderation.
     seq (if moderation = ModPass
          then db_call internal_of (CreateNotifications
                 (createCommentNotifications (c0\<lparr>cm_id := i\<rparr>) parent (p_author_id post) mentionIDs) (clk 3))
          else ret ())
         (commentMutationResult i (p_author_id post) authorID)))))))))"

definition comment_service_Update ::
  "CommentService \<Rightarrow> (nat \<Rightarrow> time) \<Rightarrow> row_id \<Rightarrow> UpdateCommentInput \<Rightarrow> row_id \<Rightarrow> CommentItem mod_act" where
  "comment_service_Update srv clk commentID input authorID =
     bind (normalizeCommentPayload (uc_content input) (uc_mentioned input)) (\<lambda>(content, mentionIDs).
     bind (db_call commentRepositoryError (comment_LockByID commentID)) (\<lambda>c.
     if cm_author_id c \<noteq> authorID then fail (Forbidden (Some BizNotOwner))
     else if cm_deleted_at c \<noteq> None \<and> cm_deleted_reason c \<noteq> Some DeletedByModeration
     then fail (NotFound (Some BizCommentDeleted))
     else bind (db_call (ToAPIError BizPostNotFound) (post_FindByID (cm_post_id c) True)) (\<lambda>post.
     if p_deleted_at post \<noteq> None then fail (NotFound (Some BizPostDeleted))
     else bind (db_call internal_of (MentionIDs commentID)) (\<lambda>oldMentionIDs.
     bind (db_call internal_of (comment_NextHistoryRevision commentID)) (\<lambda>revision.
     seq (db_call commentRepositoryError (comment_UpdateContent commentID content revision (clk 0)))
    (seq (db_call internal_of (ReplaceMentions commentID mentionIDs))
    (seq (db_call commentHistoryWriteError (comment_CreateHistory
            \<lparr>chs_id = 0, chs_comment_id = commentID, chs_revision = revision, chs_edited_by = authorID,
             chs_edited_at = clk 0, chs_content = content\<rparr>))
    (bind (moderateComment srv clk commentID revision content) (\<lambda>moderation.
     seq (if moderation = ModPass
          then db_call internal_of (CreateNotifications
                 (mentionNotifications commentID authorID content (differenceIDs mentionIDs oldMentionIDs)) (clk 3))
          else ret ())
         (commentMutationResult commentID (p_author_id post) authorID))))))))))"

definition comment_service_Delete :: "(nat \<Rightarrow> time) \<Rightarrow> row_id \<Rightarrow> row_id \<Rightarrow> unit mod_act" where
  "comment_service_Delete clk commentID authorID =
     bind (db_call commentRepositoryError (comment_LockByID commentID)) (\<lambda>c.
     if cm_deleted_at c \<noteq> None then fail (NotFound (Some BizCommentDeleted))
     else if cm_author_id c \<noteq> authorID then fail (Forbidden (Some BizNotOwner))
     else bind (db_call (ToAPIError BizPostNotFound) (post_FindByID (cm_post_id c) True)) (\<lambda>post.
     if p_deleted_at post \<noteq> None then fail (NotFound (Some BizPostDeleted))
     else db_call commentRepositoryError (comment_SoftDelete commentID DeletedByAuthor (Some authorID) (clk 0))))"

subsection \<open>Reading\<close>

definition ensurePostReadable :: "post \<Rightarrow> row_id \<Rightarrow> go_error option" where
  "ensurePostReadable post currentUserID =
     (if p_deleted_at post \<noteq> None \<and> p_author_id post \<noteq> currentUserID then Some (NotFound (Some BizPostDeleted))
      else if p_status post \<noteq> PostApproved \<and> p_author_id post \<noteq> currentUserID
      then Some (NotFound (Some BizPostNotPublished)) else None)"

definition readablePost :: "row_id \<Rightarrow> row_id \<Rightarrow> ('fx req, go_error, post) act" where
  "readablePost postID currentUserID =
     bind (db_call (ToAPIError BizPostNotFound) (post_FindByID postID True)) (\<lambda>post.
     seq (opt_error (ensurePostReadable post currentUserID)) (ret post))"

definition commentVisibleToViewer :: "comment \<Rightarrow> row_id \<Rightarrow> bool" where
  "commentVisibleToViewer c currentUserID =
     (if cm_deleted_at c = None \<and> cm_moderation c = ModPass then True
      else if cm_author_id c \<noteq> currentUserID \<or> cm_moderation c = ModPass then False
      else cm_deleted_at c = None \<or> cm_deleted_reason c \<noteq> None \<and> cm_deleted_reason c = Some DeletedByModeration)"

definition normalizeCommentSort :: "string \<Rightarrow> go_error + string" where
  "normalizeCommentSort v =
     (if v = [] then Inr ''latest''
      else if v \<noteq> ''latest'' \<and> v \<noteq> ''hot'' then Inl (InvalidField ''sort_by'' FieldInvalidEnum)
      else Inr v)"

definition comment_cursor :: "bool \<Rightarrow> comment \<Rightarrow> Cursor" where
  "comment_cursor ranked c = \<lparr>cu_created_at = cm_created_at c, cu_id = cm_id c,
     cu_rank = (if ranked then Some (cm_like_count c) else None)\<rparr>"

definition commentCursorMeta ::
  "CursorCodec \<Rightarrow> go_error + byte list \<Rightarrow> comment list \<Rightarrow> int \<Rightarrow> bool \<Rightarrow> bool \<Rightarrow> go_error + CursorMeta" where
  "commentCursorMeta codec random cs limit hasMore ranked =
     (let meta = \<lparr>mt_limit = limit, mt_next_cursor = None, mt_has_more = hasMore\<rparr>
      in if \<not> hasMore \<or> cs = [] then Inr meta
         else case Cursor_Encode codec random (comment_cursor ranked (last cs)) of
                Inl err \<Rightarrow> Inl (Internal err)
              | Inr token \<Rightarrow> Inr (meta\<lparr>mt_next_cursor := Some token\<rparr>))"

definition comment_List ::
  "CommentService \<Rightarrow> go_error + byte list \<Rightarrow> row_id \<Rightarrow> row_id \<Rightarrow> string \<Rightarrow> CursorRequest \<Rightarrow>
   ('fx req, go_error, CommentItem list \<times> CursorMeta) act" where
  "comment_List srv random postID currentUserID sortBy0 request =
     bind (readablePost postID currentUserID) (\<lambda>post.
     bind (lift_result (normalizeCommentSort sortBy0)) (\<lambda>sortBy.
     let hot = (sortBy = ''hot''); codec = (if hot then csv_root_hot srv else csv_root_time srv) in
     bind (lift_result (DecodeRequest codec request)) (\<lambda>params.
     if hot \<and> (case cp_after params of None \<Rightarrow> False | Some a \<Rightarrow> cu_rank a = None)
     then fail (InvalidField ''cursor'' FieldInvalidFormat)
     else bind (db_call internal_of (FindRootPage postID currentUserID sortBy params)) (\<lambda>(roots, hasMore).
     bind (db_call internal_of (FindReplyPreviews (map cm_id roots) currentUserID commentReplyPreviewLimit)) (\<lambda>previews.
     bind (buildCommentList roots previews (p_author_id post) currentUserID) (\<lambda>items.
     bind (lift_result (commentCursorMeta codec random roots (cp_limit params) hasMore hot)) (\<lambda>meta.
     ret (items, meta))))))))"

definition comment_Replies ::
  "CommentService \<Rightarrow> go_error + byte list \<Rightarrow> row_id \<Rightarrow> row_id \<Rightarrow> CursorRequest \<Rightarrow>
   ('fx req, go_error, CommentItem list \<times> CursorMeta) act" where
  "comment_Replies srv random commentID currentUserID request =
     bind (db_call commentRepositoryError (comment_FindByID commentID)) (\<lambda>root.
     if \<not> commentVisibleToViewer root currentUserID then fail (NotFound (Some BizCommentNotFound))
     else if cm_root_id root \<noteq> None then fail (InvalidField ''comment_id'' FieldConflict)
     else bind (readablePost (cm_post_id root) currentUserID) (\<lambda>post.
     bind (lift_result (DecodeRequest (csv_replies srv) request)) (\<lambda>params.
     bind (db_call internal_of (FindReplyPage (cm_id root) currentUserID params)) (\<lambda>(replies, hasMore).
     bind (db_call internal_of (LoadRelations replies currentUserID)) (\<lambda>relations.
     bind (lift_result (commentCursorMeta (csv_replies srv) random replies (cp_limit params) hasMore False)) (\<lambda>meta.
     ret (map (\<lambda>c. buildCommentItem c (p_author_id post) False relations []) replies, meta)))))))"

datatype HistoryModerationStatus = HistoryModerationPassed | HistoryModerationMachineFailed

record HistoryModerationView =
  hm_status :: HistoryModerationStatus
  hm_verdict :: "ModerationVerdict option"
  hm_score :: "int option"

text \<open>A map by version, in which a later record of the list replaces an earlier one.\<close>

definition historyModerationByRevision ::
  "moderation_record list \<Rightarrow> bool \<Rightarrow> (int \<rightharpoonup> HistoryModerationView)" where
  "historyModerationByRevision rs includeDetails =
     fold (\<lambda>r m. case mr_content_revision r of None \<Rightarrow> m
       | Some revision \<Rightarrow> m(revision \<mapsto>
           \<lparr>hm_status = (if mr_verdict r = VerdictPass then HistoryModerationPassed else HistoryModerationMachineFailed),
            hm_verdict = (if includeDetails then Some (mr_verdict r) else None),
            hm_score = (if includeDetails then mr_score r else None)\<rparr>)) rs Map.empty"

record CommentHistoryView =
  hv_id :: row_id
  hv_revision :: int
  hv_edited_by :: row_id
  hv_edited_at :: time
  hv_content :: string
  hv_is_current :: bool
  hv_moderation :: "HistoryModerationView option"

definition comment_Histories :: "row_id \<Rightarrow> Principal \<Rightarrow> ('fx req, go_error, CommentHistoryView list) act" where
  "comment_Histories commentID viewer =
     bind (db_call commentRepositoryError (comment_FindByID commentID)) (\<lambda>c.
     let isModerator = HasCapability (case u_roles (pp_user viewer) of None \<Rightarrow> [] | Some rs \<Rightarrow> rs) CapReviewContent in
     if cm_author_id c \<noteq> u_id (pp_user viewer) \<and> \<not> isModerator then fail (Forbidden (Some BizNotOwner))
     else bind (db_call internal_of (comment_ListHistories commentID)) (\<lambda>rows.
     bind (db_call internal_of (comment_ListHistoryModeration commentID)) (\<lambda>moderationRows.
     let byRevision = historyModerationByRevision moderationRows isModerator in
     ret (map (\<lambda>h. \<lparr>hv_id = chs_id h, hv_revision = chs_revision h, hv_edited_by = chs_edited_by h,
        hv_edited_at = chs_edited_at h, hv_content = chs_content h,
        hv_is_current = (chs_revision h = cm_current_revision c),
        hv_moderation = byRevision (chs_revision h)\<rparr>) rows))))"

end
