(* ===== verification/Interaction_Effects.thy ===== *)
theory Interaction_Effects
  imports Interactions
begin

section \<open>What an interaction does\<close>

text \<open>
  The eight operations as one: a relation, whether the pair is to be there, the target and the
  caller.  Shown are the counters, the notifications, and that a repetition is without effect.
\<close>

datatype relation = PostLikes | Favorites | CommentLikes | Follows

fun pairs :: "relation \<Rightarrow> db \<Rightarrow> (row_id \<times> row_id) list" where
  "pairs PostLikes = post_like_pairs"
| "pairs Favorites = favorite_pairs"
| "pairs CommentLikes = comment_like_pairs"
| "pairs Follows = follow_pairs"

fun number :: "relation \<Rightarrow> db \<Rightarrow> row_id \<Rightarrow> int option" where
  "number PostLikes = post_like_number"
| "number Favorites = favorite_number"
| "number CommentLikes = comment_like_number"
| "number Follows = follow_number"

fun add_pair :: "relation \<Rightarrow> row_id \<Rightarrow> row_id \<Rightarrow> time \<Rightarrow> (db, repo_error, bool) act" where
  "add_pair PostLikes = post_Like"
| "add_pair Favorites = post_Favorite"
| "add_pair CommentLikes = comment_repo_Like"
| "add_pair Follows = user_repo_Follow"

fun remove_pair :: "relation \<Rightarrow> row_id \<Rightarrow> row_id \<Rightarrow> (db, repo_error, unit) act" where
  "remove_pair PostLikes = post_Unlike"
| "remove_pair Favorites = post_Unfavorite"
| "remove_pair CommentLikes = comment_repo_Unlike"
| "remove_pair Follows = user_repo_Unfollow"

interpretation rel: counted_relation "pairs r" "number r" "add_pair r" "remove_pair r" for r
  by (cases r) (simp_all add: post_likes_rel.counted_relation_axioms favorites_rel.counted_relation_axioms
      comment_likes_rel.counted_relation_axioms follows_rel.counted_relation_axioms)

fun perform :: "relation \<Rightarrow> bool \<Rightarrow> (nat \<Rightarrow> time) \<Rightarrow> row_id \<Rightarrow> row_id \<Rightarrow> ('fx req, go_error, action_result) act" where
  "perform PostLikes True clk t u = post_service_Like clk t u"
| "perform PostLikes False clk t u = post_service_Unlike t u"
| "perform Favorites True clk t u = post_service_Favorite clk t u"
| "perform Favorites False clk t u = post_service_Unfavorite t u"
| "perform CommentLikes True clk t u = comment_service_Like clk t u"
| "perform CommentLikes False clk t u = comment_service_Unlike t u"
| "perform Follows True clk t u = user_service_Follow clk t u"
| "perform Follows False clk t u = user_service_Unfollow t u"

definition relations_exact :: "db \<Rightarrow> bool" where
  "relations_exact s \<longleftrightarrow> (\<forall>r. exact (pairs r s) (number r s))"

text \<open>Two databases with the same relations and the same numbers.\<close>

definition same_relations :: "db \<Rightarrow> db \<Rightarrow> bool" where
  "same_relations s s' \<longleftrightarrow> (\<forall>r. pairs r s' = pairs r s \<and> number r s' = number r s)"

definition other_relations :: "relation \<Rightarrow> db \<Rightarrow> db \<Rightarrow> bool" where
  "other_relations r s s' \<longleftrightarrow> (\<forall>r'. r' \<noteq> r \<longrightarrow> pairs r' s' = pairs r' s \<and> number r' s' = number r' s)"

lemma same_relations_exact: "same_relations s s' \<Longrightarrow> relations_exact s' = relations_exact s"
  by (simp add: same_relations_def relations_exact_def)

lemma same_relations_trans: "same_relations a b \<Longrightarrow> same_relations b c \<Longrightarrow> same_relations a c"
  by (simp add: same_relations_def)

lemma same_relations_tables: "same_tables s s' \<Longrightarrow> same_relations s s'"
proof -
  have "pairs r (s\<lparr>db_stmts := n\<rparr>) = pairs r s \<and> number r (s\<lparr>db_stmts := n\<rparr>) = number r s" for r n
    by (cases r) simp_all
  then show "same_tables s s' \<Longrightarrow> same_relations s s'" by (auto simp: same_tables_iff same_relations_def)
qed

lemma same_relations_notify: "same_relations s (s\<lparr>db_stmts := n, notifications := ns\<rparr>)"
proof -
  have "pairs r (s\<lparr>db_stmts := n, notifications := ns\<rparr>) = pairs r s \<and>
      number r (s\<lparr>db_stmts := n, notifications := ns\<rparr>) = number r s" for r
    by (cases r) (simp_all add: follow_number_eq[of "s\<lparr>db_stmts := n, notifications := ns\<rparr>" s])
  then show ?thesis by (simp add: same_relations_def)
qed

lemma add_pair_others: "other_relations r s (snd (add_pair r u t now s))"
  unfolding other_relations_def
proof (intro allI impI)
  fix r' assume "r' \<noteq> r"
  then have "pairs r' (snd (add_pair r u t now s)) = pairs r' s \<and>
      (r' \<noteq> Follows \<longrightarrow> number r' (snd (add_pair r u t now s)) = number r' s)"
    by (cases r; cases r') (simp_all add: relation_ops)
  then show "pairs r' (snd (add_pair r u t now s)) = pairs r' s \<and> number r' (snd (add_pair r u t now s)) = number r' s"
    by (cases "r' = Follows") (auto intro: follow_number_eq)
qed

lemma remove_pair_others: "other_relations r s (snd (remove_pair r u t s))"
  unfolding other_relations_def
proof (intro allI impI)
  fix r' assume "r' \<noteq> r"
  then have "pairs r' (snd (remove_pair r u t s)) = pairs r' s \<and>
      (r' \<noteq> Follows \<longrightarrow> number r' (snd (remove_pair r u t s)) = number r' s)"
    by (cases r; cases r') (simp_all add: relation_ops)
  then show "pairs r' (snd (remove_pair r u t s)) = pairs r' s \<and> number r' (snd (remove_pair r u t s)) = number r' s"
    by (cases "r' = Follows") (auto intro: follow_number_eq)
qed

lemma add_pair_exact: "relations_exact s \<Longrightarrow> relations_exact (snd (add_pair r u t now s))"
  using add_pair_others[of r s u t now] rel.add_exact[of r s u t now]
  unfolding relations_exact_def other_relations_def by metis

lemma remove_pair_exact: "relations_exact s \<Longrightarrow> relations_exact (snd (remove_pair r u t s))"
  using remove_pair_others[of r s u t] rel.remove_exact[of r s u t]
  unfolding relations_exact_def other_relations_def by metis

subsection \<open>On every path\<close>

abbreviation req_exact :: "'fx req \<Rightarrow> bool" where
  "req_exact q \<equiv> relations_exact (rq_db q)"

lemma keeps_same: "(\<And>s. same_relations s (snd (m s))) \<Longrightarrow> keeps req_exact (db_call h m)"
  by (simp add: keeps_def db_call_def repo_run) (blast dest: same_relations_exact)

lemma keeps_pair: "keeps req_exact (db_call h (add_pair r u t now))" "keeps req_exact (db_call h (remove_pair r u t))"
  by (simp_all add: keeps_def db_call_def repo_run add_pair_exact remove_pair_exact)

lemma keeps_query_first_call: "keeps req_exact (db_call h (query_first f))"
  by (intro keeps_same same_relations_tables query_first_same)

lemma keeps_opt_error: "keeps I (opt_error e)"
  by (auto simp: opt_error_def split: option.split)

lemma insert_notification_Inr:
  "insert_notification n now s = Inr s' \<Longrightarrow> s' = s\<lparr>notifications := notifications s @
     [n\<lparr>nt_id := next_id nt_id (notifications s), nt_created_at := now, nt_updated_at := now\<rparr>]\<rparr>"
  by (auto simp: insert_notification_def Let_def split: if_splits)

lemma insert_notifications_Inr:
  "insert_notifications ns now s = Inr s' \<Longrightarrow> \<exists>rows. s' = s\<lparr>notifications := rows\<rparr>"
proof (induction ns arbitrary: s)
  case (Cons n ns)
  then obtain s1 where s1: "insert_notification n now s = Inr s1" "insert_notifications ns now s1 = Inr s'"
    by (auto split: sum.splits)
  show ?case using Cons.IH[OF s1(2)] insert_notification_Inr[OF s1(1)] by auto
next
  case Nil
  then show ?case by (intro exI[of _ "notifications s"]) simp
qed

lemma notify_same: "same_relations s (snd (notification_Create n now s))"
  by (auto simp: notification_Create_def stmt_run same_relations_notify same_relations_tables same_tables_def
      dest!: insert_notification_Inr split: sum.split)

lemma notify_all_same: "same_relations s (snd (CreateNotifications ns now s))"
  by (auto simp: CreateNotifications_def ret_def stmt_run same_relations_notify same_relations_tables same_tables_def
      dest!: insert_notifications_Inr split: sum.split)

lemma keeps_notify: "keeps req_exact (db_call h (notification_Create n now))"
  "keeps req_exact (db_call h (CreateNotifications ns now))"
  by (intro keeps_same notify_same notify_all_same)+

lemmas keeps_relations = keeps_query_first_call keeps_opt_error keeps_notify keeps_pair
  keeps_pair[where r = PostLikes, simplified] keeps_pair[where r = Favorites, simplified]
  keeps_pair[where r = CommentLikes, simplified] keeps_pair[where r = Follows, simplified]

lemma keeps_reading:
  "keeps req_exact (postForWrite i)" "keeps req_exact (interactiveComment j)" "keeps req_exact (ensureUser k)"
  "keeps req_exact (followResult k b)" "keeps req_exact (db_call h (Counters i))" "keeps req_exact (db_call h (LikeCount j))"
  unfolding postForWrite_def interactiveComment_def ensureUser_def followResult_def Counters_def LikeCount_def
    FollowerCount_def post_FindByID_def comment_FindByID_def user_FindByID_def
  by (auto intro!: keeps_bind keeps_seq keeps_relations split: option.split prod.split)
    (intro keeps_same same_relations_tables, simp add: query_run same_tables_def)+

lemma perform_exact: "keeps req_exact (perform r on clk t u)"
  by (cases r; cases on)
    (auto simp: post_service_Like_def post_service_Unlike_def post_service_Favorite_def post_service_Unfavorite_def
      comment_service_Like_def comment_service_Unlike_def user_service_Follow_def user_service_Unfollow_def
      intro!: keeps_bind keeps_seq keeps_relations keeps_reading split: prod.split)

subsection \<open>On success\<close>

text \<open>The author of the post or comment, or the user that is followed, and what is sent to them.\<close>

fun owner :: "relation \<Rightarrow> db \<Rightarrow> row_id \<Rightarrow> row_id \<Rightarrow> bool" where
  "owner CommentLikes s t a \<longleftrightarrow> (\<exists>c\<in>set (comments s). cm_id c = t \<and> cm_author_id c = a)"
| "owner Follows s t a \<longleftrightarrow> a = t"
| "owner _ s t a \<longleftrightarrow> (\<exists>p\<in>set (posts s). p_id p = t \<and> p_author_id p = a)"

fun notice :: "relation \<Rightarrow> row_id \<Rightarrow> row_id \<Rightarrow> row_id \<Rightarrow> notification list" where
  "notice PostLikes t u a = [new_notification a u NotifyLikePost (Some t) None]"
| "notice Favorites t u a = []"
| "notice CommentLikes t u a = [new_notification a u NotifyLikeComment None (Some t)]"
| "notice Follows t u a = [new_notification a u NotifyFollow None None]"

definition stamped :: "time \<Rightarrow> notification list \<Rightarrow> notification list \<Rightarrow> notification list" where
  "stamped now old = map (\<lambda>n. n\<lparr>nt_id := next_id nt_id old, nt_created_at := now, nt_updated_at := now\<rparr>)"

lemma Create_Inr:
  "notification_Create n now s = (Inr x, s') \<Longrightarrow>
   same_relations s s' \<and> notifications s' = notifications s @ stamped now (notifications s) [n]"
  using notify_same[of s n now]
  by (auto simp: notification_Create_def stmt_run stamped_def dest!: insert_notification_Inr split: if_splits sum.splits)

lemma CreateNotifications_Inr:
  "CreateNotifications [n] now s = (Inr x, s') \<Longrightarrow>
   same_relations s s' \<and> notifications s' = notifications s @ stamped now (notifications s) [n]"
  using notify_all_same[of s "[n]" now]
  by (auto simp: CreateNotifications_def stmt_run stamped_def dest!: insert_notification_Inr split: if_splits sum.splits)

lemma query_first_call_Inr:
  "db_call h (query_first f) q = (Inr x, q') \<Longrightarrow>
   reads q q' \<and> f ((rq_db q)\<lparr>db_stmts := Suc (db_stmts (rq_db q))\<rparr>) = Some x"
  by (auto simp: db_call_Inr_iff query_first_Inr_iff reads_def same_tables_def)

lemma first_by_key: "first_by key p xs = Some x \<Longrightarrow> x \<in> set xs \<and> p x"
  using first_by_Some[of key p xs x] by blast

lemma postForWrite_Inr:
  "postForWrite i q = (Inr p, q') \<Longrightarrow> reads q q' \<and> p \<in> set (posts (rq_db q)) \<and> p_id p = i"
  by (auto simp: postForWrite_def post_FindByID_def bind_Inr_iff seq_def ret_def
      dest!: query_first_call_Inr find_SomeD)

lemma interactiveComment_Inr:
  "interactiveComment i q = (Inr c, q') \<Longrightarrow> reads q q' \<and> c \<in> set (comments (rq_db q)) \<and> cm_id c = i"
  by (auto simp: interactiveComment_def comment_FindByID_def post_FindByID_def bind_Inr_iff seq_def ret_def fail_def
      dest!: query_first_call_Inr first_by_key intro: reads_trans split: if_splits option.splits)

lemma ensureUser_Inr: "ensureUser i q = (Inr x, q') \<Longrightarrow> reads q q'"
  by (auto simp: ensureUser_def user_FindByID_def bind_Inr_iff ret_def dest!: query_first_call_Inr)

lemma same_relations_refl [simp]: "same_relations s s"
  by (simp add: same_relations_def)

lemma notify_step:
  "(if b then db_call h (notification_Create n now) else ret ()) q = (Inr x, q') \<Longrightarrow>
     same_relations (rq_db q) (rq_db q') \<and>
     notifications (rq_db q') = notifications (rq_db q) @ (if b then stamped now (notifications (rq_db q)) [n] else [])"
  "(if b then db_call h (CreateNotifications [n] now) else ret ()) q = (Inr x, q') \<Longrightarrow>
     same_relations (rq_db q) (rq_db q') \<and>
     notifications (rq_db q') = notifications (rq_db q) @ (if b then stamped now (notifications (rq_db q)) [n] else [])"
  by (auto simp: db_call_Inr_iff ret_def dest!: Create_Inr CreateNotifications_Inr split: if_splits)

lemma count_step:
  "db_call h (Counters t) q = (Inr (n, m), q') \<Longrightarrow>
     reads q q' \<and> number PostLikes (rq_db q') t = Some n \<and> number Favorites (rq_db q') t = Some m"
  "db_call h (LikeCount t) q = (Inr n, q') \<Longrightarrow> reads q q' \<and> number CommentLikes (rq_db q') t = Some n"
  "followResult t b q = (Inr x, q') \<Longrightarrow> \<exists>n. reads q q' \<and> number Follows (rq_db q') t = Some n \<and> x = (b, n)"
proof -
  show "db_call h (Counters t) q = (Inr (n, m), q') \<Longrightarrow>
     reads q q' \<and> number PostLikes (rq_db q') t = Some n \<and> number Favorites (rq_db q') t = Some m"
    by (auto simp: Counters_def db_call_Inr_iff query_first_Inr_iff reads_def same_tables_def post_like_number_def favorite_number_def)
  show "db_call h (LikeCount t) q = (Inr n, q') \<Longrightarrow> reads q q' \<and> number CommentLikes (rq_db q') t = Some n"
    by (auto simp: LikeCount_def db_call_Inr_iff query_first_Inr_iff reads_def same_tables_def comment_like_number_def)
  show "followResult t b q = (Inr x, q') \<Longrightarrow> \<exists>n. reads q q' \<and> number Follows (rq_db q') t = Some n \<and> x = (b, n)"
    by (auto simp: followResult_def FollowerCount_def bind_Inr_iff ret_def db_call_Inr_iff query_run reads_def same_tables_def
        follow_number_def split: if_splits)
qed

text \<open>Every operation that adds a pair: a lookup, the insertion, the notice, the count.\<close>

definition added_then_told ::
  "relation \<Rightarrow> (nat \<Rightarrow> time) \<Rightarrow> row_id \<Rightarrow> row_id \<Rightarrow> 'fx req \<Rightarrow> action_result \<Rightarrow> 'fx req \<Rightarrow> bool" where
  "added_then_told r clk t u q x q' \<longleftrightarrow> (\<exists>a q1 new q2 n. reads q q1 \<and> owner r (rq_db q) t a \<and>
     db_call internal_of (add_pair r u t (clk 0)) q1 = (Inr new, q2) \<and> same_relations (rq_db q2) (rq_db q') \<and>
     notifications (rq_db q') = notifications (rq_db q2) @
       (if new \<and> a \<noteq> u then stamped (clk 1) (notifications (rq_db q2)) (notice r t u a) else []) \<and>
     x = (True, n) \<and> number r (rq_db q') t = Some n)"

lemma reads_relations: "reads q q' \<Longrightarrow> same_relations (rq_db q) (rq_db q') \<and> notifications (rq_db q') = notifications (rq_db q)"
  by (auto simp: reads_def intro: same_relations_tables) (auto simp: same_tables_iff)

lemma post_service_Like_Inr:
  assumes "post_service_Like clk t u q = (Inr x, q')"
  shows "added_then_told PostLikes clk t u q x q'"
proof -
  obtain p q1 new q2 y q3 n m where 1: "postForWrite t q = (Inr p, q1)" "db_call internal_of (post_Like u t (clk 0)) q1 = (Inr new, q2)"
    "(if new \<and> p_author_id p \<noteq> u then db_call internal_of (notification_Create
        (new_notification (p_author_id p) u NotifyLikePost (Some (p_id p)) None) (clk 1)) else ret ()) q2 = (Inr y, q3)"
    "db_call internal_of (Counters t) q3 = (Inr (n, m), q')" "x = (True, n)"
    using assms unfolding post_service_Like_def seq_def by (auto simp: bind_Inr_iff ret_def)
  show ?thesis
    using postForWrite_Inr[OF 1(1)] 1(2) notify_step(1)[OF 1(3)] count_step(1)[OF 1(4)] reads_relations[of q3 q'] 1(5)
    unfolding added_then_told_def
    by (intro exI[of _ "p_author_id p"] exI[of _ q1] exI[of _ new] exI[of _ q2] exI[of _ n])
      (auto intro: same_relations_trans)
qed

lemma post_service_Favorite_Inr:
  assumes "post_service_Favorite clk t u q = (Inr x, q')"
  shows "added_then_told Favorites clk t u q x q'"
proof -
  obtain p q1 new q2 n m where 1: "postForWrite t q = (Inr p, q1)" "db_call internal_of (post_Favorite u t (clk 0)) q1 = (Inr new, q2)"
    "db_call internal_of (Counters t) q2 = (Inr (n, m), q')" "x = (True, m)"
    using assms unfolding post_service_Favorite_def seq_def by (auto simp: bind_Inr_iff ret_def)
  show ?thesis
    using postForWrite_Inr[OF 1(1)] 1(2) count_step(1)[OF 1(3)] reads_relations[of q2 q'] 1(4)
    unfolding added_then_told_def
    by (intro exI[of _ "p_author_id p"] exI[of _ q1] exI[of _ new] exI[of _ q2] exI[of _ m])
      (auto simp: stamped_def)
qed

lemma comment_service_Like_Inr:
  assumes "comment_service_Like clk t u q = (Inr x, q')"
  shows "added_then_told CommentLikes clk t u q x q'"
proof -
  obtain c q1 new q2 y q3 n where 1: "interactiveComment t q = (Inr c, q1)" "db_call internal_of (comment_repo_Like u t (clk 0)) q1 = (Inr new, q2)"
    "(if new \<and> cm_author_id c \<noteq> u then db_call internal_of (CreateNotifications
        [new_notification (cm_author_id c) u NotifyLikeComment None (Some (cm_id c))] (clk 1)) else ret ()) q2 = (Inr y, q3)"
    "db_call commentRepositoryError (LikeCount t) q3 = (Inr n, q')" "x = (True, n)"
    using assms unfolding comment_service_Like_def seq_def by (auto simp: bind_Inr_iff ret_def)
  show ?thesis
    using interactiveComment_Inr[OF 1(1)] 1(2) notify_step(2)[OF 1(3)] count_step(2)[OF 1(4)] reads_relations[of q3 q'] 1(5)
    unfolding added_then_told_def
    by (intro exI[of _ "cm_author_id c"] exI[of _ q1] exI[of _ new] exI[of _ q2] exI[of _ n])
      (auto intro: same_relations_trans)
qed

lemma user_service_Follow_Inr:
  assumes "user_service_Follow clk t u q = (Inr x, q')"
  shows "added_then_told Follows clk t u q x q' \<and> t \<noteq> u"
proof -
  have ne: "t \<noteq> u" using assms by (auto simp: user_service_Follow_def fail_def split: if_splits)
  then obtain w q1 new q2 y q3 where 1: "ensureUser t q = (Inr w, q1)" "db_call internal_of (user_repo_Follow u t (clk 0)) q1 = (Inr new, q2)"
    "(if new then db_call internal_of (notification_Create (new_notification t u NotifyFollow None None) (clk 1))
      else ret ()) q2 = (Inr y, q3)" "followResult t True q3 = (Inr x, q')"
    using assms unfolding user_service_Follow_def seq_def by (auto simp: bind_Inr_iff)
  obtain n where n: "reads q3 q'" "number Follows (rq_db q') t = Some n" "x = (True, n)" using count_step(3)[OF 1(4)] by blast
  show ?thesis
    using ensureUser_Inr[OF 1(1)] 1(2) notify_step(1)[OF 1(3)] n reads_relations[of q3 q'] ne
    unfolding added_then_told_def
    by (intro conjI exI[of _ t] exI[of _ q1] exI[of _ new] exI[of _ q2] exI[of _ n])
      (auto intro: same_relations_trans)
qed

lemma perform_on: "perform r True clk t u q = (Inr x, q') \<Longrightarrow> added_then_told r clk t u q x q'"
  by (cases r) (simp_all add: post_service_Like_Inr post_service_Favorite_Inr comment_service_Like_Inr user_service_Follow_Inr)

text \<open>And every operation that removes one: a lookup, the deletion, the count.\<close>

definition removed_and_counted :: "relation \<Rightarrow> row_id \<Rightarrow> row_id \<Rightarrow> 'fx req \<Rightarrow> action_result \<Rightarrow> 'fx req \<Rightarrow> bool" where
  "removed_and_counted r t u q x q' \<longleftrightarrow> (\<exists>q1 q2 n. reads q q1 \<and>
     db_call internal_of (remove_pair r u t) q1 = (Inr (), q2) \<and> reads q2 q' \<and>
     x = (False, n) \<and> number r (rq_db q') t = Some n)"

lemma perform_off:
  assumes "perform r False clk t u q = (Inr x, q')"
  shows "removed_and_counted r t u q x q'"
proof (cases r)
  case PostLikes
  obtain p q1 q2 n m where 1: "postForWrite t q = (Inr p, q1)" "db_call internal_of (post_Unlike u t) q1 = (Inr (), q2)"
    "db_call internal_of (Counters t) q2 = (Inr (n, m), q')" "x = (False, n)"
    using assms PostLikes unfolding post_service_Unlike_def seq_def by (auto simp: bind_Inr_iff ret_def post_service_Unlike_def seq_def)
  then show ?thesis using PostLikes postForWrite_Inr[OF 1(1)] count_step(1)[OF 1(3)]
    unfolding removed_and_counted_def by (intro exI[of _ q1] exI[of _ q2] exI[of _ n]) simp
next
  case Favorites
  obtain p q1 q2 n m where 1: "postForWrite t q = (Inr p, q1)" "db_call internal_of (post_Unfavorite u t) q1 = (Inr (), q2)"
    "db_call internal_of (Counters t) q2 = (Inr (n, m), q')" "x = (False, m)"
    using assms Favorites by (auto simp: bind_Inr_iff ret_def post_service_Unfavorite_def seq_def)
  then show ?thesis using Favorites postForWrite_Inr[OF 1(1)] count_step(1)[OF 1(3)]
    unfolding removed_and_counted_def by (intro exI[of _ q1] exI[of _ q2] exI[of _ m]) simp
next
  case CommentLikes
  obtain c q1 q2 n where 1: "interactiveComment t q = (Inr c, q1)" "db_call internal_of (comment_repo_Unlike u t) q1 = (Inr (), q2)"
    "db_call commentRepositoryError (LikeCount t) q2 = (Inr n, q')" "x = (False, n)"
    using assms CommentLikes by (auto simp: bind_Inr_iff ret_def comment_service_Unlike_def seq_def)
  then show ?thesis using CommentLikes interactiveComment_Inr[OF 1(1)] count_step(2)[OF 1(3)]
    unfolding removed_and_counted_def by (intro exI[of _ q1] exI[of _ q2] exI[of _ n]) simp
next
  case Follows
  obtain w q1 q2 where 1: "ensureUser t q = (Inr w, q1)" "db_call internal_of (user_repo_Unfollow u t) q1 = (Inr (), q2)"
    "followResult t False q2 = (Inr x, q')"
    using assms Follows by (auto simp: bind_Inr_iff user_service_Unfollow_def seq_def fail_def split: if_splits)
  obtain n where "reads q2 q'" "number Follows (rq_db q') t = Some n" "x = (False, n)" using count_step(3)[OF 1(3)] by blast
  then show ?thesis using Follows ensureUser_Inr[OF 1(1)] 1(2)
    unfolding removed_and_counted_def by (intro exI[of _ q1] exI[of _ q2] exI[of _ n]) simp
qed

lemma add_pair_notifications: "notifications (snd (add_pair r u t now s)) = notifications s"
  by (cases r) (simp_all add: relation_ops)

lemma remove_pair_notifications: "notifications (snd (remove_pair r u t s)) = notifications s"
  by (cases r) (simp_all add: relation_ops)

lemma other_relations_same:
  "same_relations s0 s1 \<Longrightarrow> other_relations r s1 s2 \<Longrightarrow> same_relations s2 s3 \<Longrightarrow> other_relations r s0 s3"
  by (simp add: same_relations_def other_relations_def)

lemma perform_pairs:
  assumes ex: "relations_exact (rq_db q)" and run: "perform r on clk t u q = (Inr x, q')"
  shows "set (pairs r (rq_db q')) = (if on then insert (u, t) (set (pairs r (rq_db q))) else set (pairs r (rq_db q)) - {(u, t)})"
    "other_relations r (rq_db q) (rq_db q')" "fst x = on" "number r (rq_db q') t = Some (snd x)"
proof -
  have "set (pairs r (rq_db q')) = (if on then insert (u, t) (set (pairs r (rq_db q))) else set (pairs r (rq_db q)) - {(u, t)}) \<and>
      other_relations r (rq_db q) (rq_db q') \<and> fst x = on \<and> number r (rq_db q') t = Some (snd x)"
  proof (cases on)
    case True
    then have "perform r True clk t u q = (Inr x, q')" using run by simp
    from perform_on[OF this] obtain q1 new q2 n where 1: "reads q q1" "db_call internal_of (add_pair r u t (clk 0)) q1 = (Inr new, q2)"
      "same_relations (rq_db q2) (rq_db q')" "x = (True, n)" "number r (rq_db q') t = Some n"
      unfolding added_then_told_def by blast
    obtain d where d: "add_pair r u t (clk 0) (rq_db q1) = (Inr new, d)" "rq_db q2 = d" using 1(2) by (auto simp: db_call_Inr_iff)
    show ?thesis using rel.added(1)[OF d(1)] add_pair_others[of r "rq_db q1" u t "clk 0"] reads_relations[OF 1(1)] 1(3-5) d True
      by (auto simp: same_relations_def intro: other_relations_same)
  next
    case False
    then obtain q1 q2 n where 1: "reads q q1" "db_call internal_of (remove_pair r u t) q1 = (Inr (), q2)"
      "reads q2 q'" "x = (False, n)" "number r (rq_db q') t = Some n"
      using perform_off[of r clk t u q x q'] run unfolding removed_and_counted_def by auto
    obtain d where d: "remove_pair r u t (rq_db q1) = (Inr (), d)" "rq_db q2 = d" using 1(2) by (auto simp: db_call_Inr_iff)
    have "exact (pairs r (rq_db q1)) (number r (rq_db q1))"
      using ex reads_relations[OF 1(1)] by (simp add: same_relations_def relations_exact_def)
    then show ?thesis using rel.removed[OF d(1)] remove_pair_others[of r "rq_db q1" u t] reads_relations[OF 1(1)]
        reads_relations[OF 1(3)] 1(4,5) d False
      by (auto simp: same_relations_def intro: other_relations_same)
  qed
  then show "set (pairs r (rq_db q')) = (if on then insert (u, t) (set (pairs r (rq_db q))) else set (pairs r (rq_db q)) - {(u, t)})"
    "other_relations r (rq_db q) (rq_db q')" "fst x = on" "number r (rq_db q') t = Some (snd x)" by blast+
qed

lemma perform_notifications:
  assumes run: "perform r on clk t u q = (Inr x, q')"
  shows "if on \<and> (u, t) \<notin> set (pairs r (rq_db q))
     then \<exists>a. owner r (rq_db q) t a \<and> notifications (rq_db q') = notifications (rq_db q) @
            (if a = u then [] else stamped (clk 1) (notifications (rq_db q)) (notice r t u a))
     else notifications (rq_db q') = notifications (rq_db q)"
proof (cases on)
  case True
  then have "perform r True clk t u q = (Inr x, q')" using run by simp
  from perform_on[OF this] obtain a q1 new q2 where 1: "reads q q1" "owner r (rq_db q) t a"
    "db_call internal_of (add_pair r u t (clk 0)) q1 = (Inr new, q2)"
    "notifications (rq_db q') = notifications (rq_db q2) @
       (if new \<and> a \<noteq> u then stamped (clk 1) (notifications (rq_db q2)) (notice r t u a) else [])"
    unfolding added_then_told_def by blast
  have d: "add_pair r u t (clk 0) (rq_db q1) = (Inr new, rq_db q2)" using 1(3) by (auto simp: db_call_Inr_iff)
  have n: "notifications (rq_db q2) = notifications (rq_db q)"
    using add_pair_notifications[of r u t "clk 0" "rq_db q1"] reads_relations[OF 1(1)] by (simp add: d)
  have "new \<longleftrightarrow> (u, t) \<notin> set (pairs r (rq_db q))"
    using rel.added(2)[OF d] reads_relations[OF 1(1)] by (simp add: same_relations_def)
  then show ?thesis using True 1(2,4) n by auto
next
  case False
  then obtain q1 q2 where 1: "reads q q1" "db_call internal_of (remove_pair r u t) q1 = (Inr (), q2)" "reads q2 q'"
    using perform_off[of r clk t u q x q'] run unfolding removed_and_counted_def by auto
  have "remove_pair r u t (rq_db q1) = (Inr (), rq_db q2)" using 1(2) by (auto simp: db_call_Inr_iff)
  then have "notifications (rq_db q2) = notifications (rq_db q1)"
    using remove_pair_notifications[of r u t "rq_db q1"] by simp
  then show ?thesis using False reads_relations[OF 1(1)] reads_relations[OF 1(3)] by simp
qed

lemma perform_again:
  assumes ex: "relations_exact (rq_db q)" and run: "perform r on clk t u q = (Inr x, q')"
    and there: "(u, t) \<in> set (pairs r (rq_db q)) \<longleftrightarrow> on"
  shows "same_relations (rq_db q) (rq_db q')"
proof (cases on)
  case True
  then have "perform r True clk t u q = (Inr x, q')" using run by simp
  from perform_on[OF this] obtain q1 new q2 where 1: "reads q q1"
    "db_call internal_of (add_pair r u t (clk 0)) q1 = (Inr new, q2)" "same_relations (rq_db q2) (rq_db q')"
    unfolding added_then_told_def by blast
  have d: "add_pair r u t (clk 0) (rq_db q1) = (Inr new, rq_db q2)" using 1(2) by (auto simp: db_call_Inr_iff)
  have "\<not> new" using rel.added(2)[OF d] reads_relations[OF 1(1)] there True by (simp add: same_relations_def)
  then have "pairs r (rq_db q2) = pairs r (rq_db q1) \<and> number r (rq_db q2) = number r (rq_db q1)"
    using rel.add_ok[OF d] by simp
  then have "same_relations (rq_db q1) (rq_db q2)"
    using add_pair_others[of r "rq_db q1" u t "clk 0"] unfolding d same_relations_def other_relations_def snd_conv by metis
  then show ?thesis using reads_relations[OF 1(1)] 1(3) by (blast intro: same_relations_trans)
next
  case False
  then obtain q1 q2 where 1: "reads q q1" "db_call internal_of (remove_pair r u t) q1 = (Inr (), q2)" "reads q2 q'"
    using perform_off[of r clk t u q x q'] run unfolding removed_and_counted_def by auto
  have d: "remove_pair r u t (rq_db q1) = (Inr (), rq_db q2)" using 1(2) by (auto simp: db_call_Inr_iff)
  have p1: "distinct (pairs r (rq_db q1))" "(u, t) \<notin> set (pairs r (rq_db q1))"
    using reads_relations[OF 1(1)] ex there False by (auto simp: same_relations_def relations_exact_def exact_def)
  then have "pairs r (rq_db q2) = pairs r (rq_db q1) \<and> number r (rq_db q2) = number r (rq_db q1)"
    using rel.remove_ok[OF d p1(1)] by (simp add: pair_absent)
  then have "same_relations (rq_db q1) (rq_db q2)"
    using remove_pair_others[of r "rq_db q1" u t] unfolding d same_relations_def other_relations_def snd_conv by metis
  then show ?thesis using reads_relations[OF 1(1)] reads_relations[OF 1(3)] by (blast intro: same_relations_trans)
qed

subsection \<open>Properties\<close>

text \<open>
  C34: the counters are right.  Whatever an interaction does - succeed, be refused, or fail at any
  statement - every post and comment still carries exactly the number of its likes and favourites,
  and no pair is there twice.  An interaction that succeeds answers its flag and the number of
  members that the target has then; the pair is there as asked for, every other pair of the
  relation stays as it was, and so do the three other relations with their counters.
\<close>

theorem interactions_count:
  assumes "relations_exact (rq_db q)"
  shows "relations_exact (rq_db (snd (perform r on clk t u q))) \<and>
    (\<forall>x q'. perform r on clk t u q = (Inr x, q') \<longrightarrow>
       x = (on, int (members_of (pairs r (rq_db q')) t)) \<and>
       set (pairs r (rq_db q')) = (if on then insert (u, t) (set (pairs r (rq_db q))) else set (pairs r (rq_db q)) - {(u, t)}) \<and>
       other_relations r (rq_db q) (rq_db q'))"
proof (intro conjI allI impI)
  show inv: "relations_exact (rq_db (snd (perform r on clk t u q)))"
    using keepsD[OF perform_exact, of q] assms by simp
  fix x q' assume run: "perform r on clk t u q = (Inr x, q')"
  note p = perform_pairs[OF assms run]
  show "set (pairs r (rq_db q')) = (if on then insert (u, t) (set (pairs r (rq_db q))) else set (pairs r (rq_db q)) - {(u, t)})"
    "other_relations r (rq_db q) (rq_db q')" by (fact p)+
  have "exact (pairs r (rq_db q')) (number r (rq_db q'))" using inv by (simp add: run relations_exact_def)
  from exact_number[OF this p(4)] p(3) show "x = (on, int (members_of (pairs r (rq_db q')) t))" by (cases x) simp
qed

text \<open>
  C35: who is notified.  A like or a follow that succeeds and is new sends one notice, unread, of its
  own kind, to the author of the post or comment or to the user followed, and none if that is the
  caller; favourites, removals and repetitions send nothing.  No notice goes to its sender.
\<close>

theorem interactions_notify:
  assumes "perform r on clk t u q = (Inr x, q')"
  shows "(if on \<and> (u, t) \<notin> set (pairs r (rq_db q))
      then \<exists>a. owner r (rq_db q) t a \<and> notifications (rq_db q') = notifications (rq_db q) @
             (if a = u then [] else stamped (clk 1) (notifications (rq_db q)) (notice r t u a))
      else notifications (rq_db q') = notifications (rq_db q)) \<and>
    (\<forall>n\<in>set (notifications (rq_db q')) - set (notifications (rq_db q)).
       nt_sender_id n = u \<and> nt_recipient_id n \<noteq> u \<and> owner r (rq_db q) t (nt_recipient_id n) \<and> \<not> nt_is_read n)"
proof (rule conjI[OF perform_notifications[OF assms]], rule ballI)
  fix n assume n: "n \<in> set (notifications (rq_db q')) - set (notifications (rq_db q))"
  then have "notifications (rq_db q') \<noteq> notifications (rq_db q)" by auto
  then obtain a where a: "owner r (rq_db q) t a" and ns: "notifications (rq_db q') = notifications (rq_db q) @
      (if a = u then [] else stamped (clk 1) (notifications (rq_db q)) (notice r t u a))"
    using perform_notifications[OF assms] by (auto split: if_splits)
  have "a \<noteq> u" and "n \<in> set (stamped (clk 1) (notifications (rq_db q)) (notice r t u a))"
    using n ns by (auto split: if_splits)
  then show "nt_sender_id n = u \<and> nt_recipient_id n \<noteq> u \<and> owner r (rq_db q) t (nt_recipient_id n) \<and> \<not> nt_is_read n"
    using a by (cases r) (auto simp: stamped_def new_notification_def)
qed

text \<open>
  Repetition is without effect.  When the same interaction succeeds a second time, directly
  after the first, it gives the same answer, and neither a relation nor a counter nor a
  notification differs.
\<close>

theorem interactions_idempotent:
  assumes "relations_exact (rq_db q)" "perform r on clk t u q = (Inr x, q1)" "perform r on clk' t u q1 = (Inr y, q2)"
  shows "y = x \<and> notifications (rq_db q2) = notifications (rq_db q1) \<and> same_relations (rq_db q1) (rq_db q2)"
proof -
  have ex1: "relations_exact (rq_db q1)" using keepsD[OF perform_exact, of q] assms(1,2) by (metis snd_conv)
  note p1 = perform_pairs[OF assms(1,2)] and p2 = perform_pairs[OF ex1 assms(3)]
  have there: "(u, t) \<in> set (pairs r (rq_db q1)) \<longleftrightarrow> on" using p1(1) by (cases on) auto
  have same: "same_relations (rq_db q1) (rq_db q2)" by (rule perform_again[OF ex1 assms(3) there])
  then have "y = x" using p1(3,4) p2(3,4) by (simp add: prod_eq_iff same_relations_def)
  moreover have "notifications (rq_db q2) = notifications (rq_db q1)"
    using perform_notifications[OF assms(3)] there by (cases on) auto
  ultimately show ?thesis using same by blast
qed

subsection \<open>Witnesses\<close>

text \<open>Users 1 and 2; post 5, which 2 wrote, and comment 7 on it.\<close>

definition social_user :: "row_id \<Rightarrow> user" where
  "social_user i = \<lparr>u_id = i, u_email = ''a'', u_password_hash = ''h'', u_name = ''n'', u_gender = None, u_bio = None,
     u_avatar_id = None, u_roles = None, u_ban_permanent = False, u_banned_until = None, u_ban_reason = None,
     u_banned_by = None, u_deleted_at = None, u_created_at = 0, u_updated_at = 0\<rparr>"

definition social_post :: post where
  "social_post = \<lparr>p_id = 5, p_author_id = 2, p_post_type = TypeShare, p_share_type = Some ShareRecommend,
     p_status = PostApproved, p_category = CategoryFood, p_title = ''t'', p_content = ''c'', p_current_revision = 1,
     p_canteen_id = None, p_window_id = None, p_cuisine_id = None, p_price = None, p_budget_min = None,
     p_budget_max = None, p_like_count = 0, p_favorite_count = 0, p_comment_count = 1, p_view_count = 0,
     p_deleted_at = None, p_deleted_reason = None, p_deleted_by = None, p_created_at = 0, p_updated_at = 0\<rparr>"

definition social_db :: db where
  "social_db = empty_db\<lparr>users := [social_user 1, social_user 2], posts := [social_post]\<rparr>"

lemma social_exact: "relations_exact social_db"
proof -
  have "exact (pairs r social_db) (number r social_db)" for r
    by (cases r) (auto simp: exact_def social_db_def empty_db_def social_post_def post_like_pairs_def favorite_pairs_def
        comment_like_pairs_def follow_pairs_def post_like_number_def favorite_number_def comment_like_number_def
        follow_number_def count_where_def split: if_splits)
  then show ?thesis by (simp add: relations_exact_def)
qed

abbreviation social_like :: "unit req \<Rightarrow> (go_error + action_result) \<times> unit req" where
  "social_like \<equiv> perform PostLikes True (\<lambda>_. 9) 5 1"

lemma social_likes:
  "fst (social_like (fresh_req social_db)) = Inr (True, 1)"
  "fst (social_like (snd (social_like (fresh_req social_db)))) = Inr (True, 1)"
  by code_simp+

lemma social_run: "fst r = Inr x \<Longrightarrow> r = (Inr x, snd r)"
  by (simp add: prod_eq_iff)

theorem interactions_count_witness:
  "members_of (post_like_pairs (rq_db (snd (social_like (fresh_req social_db))))) 5 = 1"
  using interactions_count[of "fresh_req social_db" PostLikes True "\<lambda>_. 9" 5 1]
    social_exact social_run[OF social_likes(1)] by (metis of_nat_eq_1_iff pairs.simps(1) req.select_convs(1) snd_conv)

theorem interactions_notify_witness:
  "\<exists>n\<in>set (notifications (rq_db (snd (social_like (fresh_req social_db))))). nt_recipient_id n = 2 \<and> nt_sender_id n = 1"
proof -
  have "(1, 5) \<notin> set (pairs PostLikes social_db)" by code_simp
  moreover have "\<forall>p\<in>set (posts social_db). p_author_id p = 2" by (simp add: social_db_def empty_db_def social_post_def)
  moreover have "notifications social_db = []" by code_simp
  ultimately show ?thesis
    using interactions_notify[OF social_run[OF social_likes(1)]]
    by (fastforce simp: stamped_def new_notification_def)
qed

theorem interactions_idempotent_witness:
  "same_relations (rq_db (snd (social_like (fresh_req social_db))))
     (rq_db (snd (social_like (snd (social_like (fresh_req social_db))))))"
  using interactions_idempotent[OF _ social_run[OF social_likes(1)] social_run[OF social_likes(2)]] social_exact by simp

end
