(* ===== verification/Comment_Counts.thy ===== *)
theory Comment_Counts
  imports Comment_Service Interaction_Effects
begin

section \<open>The numbers of visible comments\<close>

text \<open>
  A comment is visible to everybody when it is active and, if it is a reply, the comment at the
  top of its thread is active too.  The trigger keeps the numbers by differences; \<open>danshi_recount_all\<close>
  counts from scratch.  This theory shows that the two agree at every moment.
\<close>

subsection \<open>Counting rows of threads\<close>

text \<open>What the numbers depend on: id, post, root and whether the row is active.\<close>

type_synonym thread_row = "row_id \<times> row_id \<times> row_id option \<times> bool"

definition root_active :: "thread_row list \<Rightarrow> row_id \<Rightarrow> bool" where
  "root_active V i \<longleftrightarrow> (\<exists>(j, p, r, a)\<in>set V. j = i \<and> a)"

definition replies_in :: "thread_row list \<Rightarrow> row_id \<Rightarrow> int" where
  "replies_in V i = (\<Sum>(j, p, r, a)\<leftarrow>V. of_bool (r = Some i \<and> a))"

definition visible_in :: "thread_row list \<Rightarrow> row_id \<Rightarrow> int" where
  "visible_in V q = (\<Sum>(j, p, r, a)\<leftarrow>V. of_bool (p = q \<and> a \<and> (case r of None \<Rightarrow> True | Some k \<Rightarrow> root_active V k)))"

definition set_active :: "row_id \<Rightarrow> bool \<Rightarrow> thread_row list \<Rightarrow> thread_row list" where
  "set_active i b V = map (\<lambda>(j, p, r, a). (j, p, r, if j = i then b else a)) V"

definition threads :: "thread_row list \<Rightarrow> bool" where
  "threads V \<longleftrightarrow> distinct (map fst V) \<and>
     (\<forall>(j, p, r, a)\<in>set V. case r of None \<Rightarrow> True | Some k \<Rightarrow> \<exists>b. (k, p, None, b) \<in> set V)"

lemma counts_nonneg: "0 \<le> replies_in V i" "0 \<le> visible_in V q"
  unfolding replies_in_def visible_in_def by (auto intro!: sum_list_nonneg split: prod.splits)

lemma threads_row: "threads V \<Longrightarrow> (i, p, r, a) \<in> set V \<Longrightarrow> (i, q, r', b) \<in> set V \<Longrightarrow> p = q \<and> r = r' \<and> a = b"
  unfolding threads_def using eq_key_imp_eq_value[of V i "(p, r, a)" "(q, r', b)"] by auto

lemma threads_root: "threads V \<Longrightarrow> (j, p, Some k, a) \<in> set V \<Longrightarrow> \<exists>b. (k, p, None, b) \<in> set V"
  unfolding threads_def by fastforce

lemma root_active_iff: "root_active V i \<longleftrightarrow> (\<exists>p r. (i, p, r, True) \<in> set V)"
  unfolding root_active_def by force

lemma set_active_iff:
  "(k, p, r, a) \<in> set (set_active i b V) \<longleftrightarrow> (if k = i then a = b \<and> (\<exists>a'. (i, p, r, a') \<in> set V) else (k, p, r, a) \<in> set V)"
  unfolding set_active_def by (force split: prod.splits if_splits)

lemma root_active_set:
  "(i, q, r, b0) \<in> set V \<Longrightarrow> root_active (set_active i b V) k \<longleftrightarrow> (if k = i then b else root_active V k)"
  by (auto simp: root_active_iff set_active_iff)

lemma threads_set_active: "threads V \<Longrightarrow> threads (set_active i b V)"
  unfolding threads_def
proof (intro conjI)
  show "distinct (map fst V) \<and> (\<forall>(j, p, r, a)\<in>set V. case r of None \<Rightarrow> True | Some k \<Rightarrow> \<exists>b. (k, p, None, b) \<in> set V) \<Longrightarrow>
      distinct (map fst (set_active i b V))"
    by (simp add: set_active_def o_def case_prod_unfold)
  assume V: "distinct (map fst V) \<and> (\<forall>(j, p, r, a)\<in>set V. case r of None \<Rightarrow> True | Some k \<Rightarrow> \<exists>b. (k, p, None, b) \<in> set V)"
  have "\<exists>c. (k, p, None, c) \<in> set (set_active i b V)" if "(j, p, Some k, a) \<in> set (set_active i b V)" for j p k a
  proof -
    from that obtain a' where "(j, p, Some k, a') \<in> set V" by (auto simp: set_active_iff split: if_splits)
    with V obtain c where "(k, p, None, c) \<in> set V" by fastforce
    then show ?thesis by (auto simp: set_active_iff)
  qed
  then show "\<forall>(j, p, r, a)\<in>set (set_active i b V). case r of None \<Rightarrow> True | Some k \<Rightarrow> \<exists>c. (k, p, None, c) \<in> set (set_active i b V)"
    by (auto split: option.split)
qed

lemma root_active_row: "threads V \<Longrightarrow> (i, q, r, b0) \<in> set V \<Longrightarrow> root_active V i \<longleftrightarrow> b0"
  unfolding root_active_def using threads_row by blast

lemma sum_list_one:
  assumes "distinct (map fst V)" "x \<in> set V"
  shows "(\<Sum>y\<leftarrow>V. if fst y = fst x then (c::int) else 0) = c"
  using assms
proof (induction V)
  case (Cons y V)
  show ?case
  proof (cases "x = y")
    case True
    with Cons(2) have "\<forall>z\<in>set V. fst z \<noteq> fst x" by (auto simp: image_iff)
    then have "(\<Sum>z\<leftarrow>V. if fst z = fst x then c else 0) = (\<Sum>z\<leftarrow>V. 0)" by (intro arg_cong[of _ _ sum_list] map_cong) auto
    then show ?thesis by (simp add: True sum_list_triv)
  next
    case False
    with Cons have "fst y \<noteq> fst x" by auto
    with Cons False show ?thesis by simp
  qed
qed simp

lemma sum_list_change:
  assumes "\<And>x. x \<in> set V \<Longrightarrow> g (h x) = f x + d * k x"
  shows "(\<Sum>x\<leftarrow>map h V. g x) = (\<Sum>x\<leftarrow>V. f x) + (d::int) * (\<Sum>x\<leftarrow>V. k x)"
  using assms by (induction V) (auto simp: algebra_simps)

text \<open>A root row becomes active or inactive: its whole thread appears or disappears.\<close>

lemma set_active_root:
  assumes V: "threads V" "(i, q, None, b0) \<in> set V"
  shows "replies_in (set_active i b V) k = replies_in V k"
    "visible_in (set_active i b V) q' =
       visible_in V q' + (of_bool b - of_bool b0) * (if q = q' then 1 + replies_in V i else 0)"
proof -
  have row: "p = q \<and> r = None \<and> a = b0" if "(i, p, r, a) \<in> set V" for p r a using threads_row[OF V(1) that V(2)] .
  have "replies_in (set_active i b V) k = replies_in V k + 0 * (\<Sum>x\<leftarrow>V. 0)"
    unfolding replies_in_def set_active_def by (rule sum_list_change) (auto dest: row)
  then show "replies_in (set_active i b V) k = replies_in V k" by simp
  let ?d = "of_bool b - of_bool b0 :: int"
  let ?k = "\<lambda>x :: thread_row. (if fst x = fst (i, q, None :: row_id option, b0) then (of_bool (q = q') :: int) else 0) +
     of_bool (q = q') * (case x of (j, p, r, a) \<Rightarrow> of_bool (r = Some i \<and> a))"
  have "visible_in (set_active i b V) q' = visible_in V q' + ?d * (\<Sum>x\<leftarrow>V. ?k x)"
    unfolding visible_in_def
    unfolding set_active_def[of i b V]
  proof (rule sum_list_change, fold set_active_def[of i b V])
    fix x assume x: "x \<in> set V"
    obtain j p r a where [simp]: "x = (j, p, r, a)" by (cases x)
    note ra = root_active_set[OF V(2), of b] root_active_row[OF V]
    show "(case (case x of (j, p, r, a) \<Rightarrow> (j, p, r, if j = i then b else a)) of
        (j, p, r, a) \<Rightarrow> of_bool (p = q' \<and> a \<and> (case r of None \<Rightarrow> True | Some k \<Rightarrow> root_active (set_active i b V) k))) =
      (case x of (j, p, r, a) \<Rightarrow> of_bool (p = q' \<and> a \<and> (case r of None \<Rightarrow> True | Some k \<Rightarrow> root_active V k))) + ?d * ?k x"
    proof (cases "j = i")
      case True
      then show ?thesis using row[of p r a] x by auto
    next
      case False
      show ?thesis
      proof (cases "r = Some i")
        case True
        then have "p = q" using threads_root[OF V(1), of j p i a] x row by auto
        then show ?thesis using False True ra by auto
      next
        case False
        then show ?thesis using \<open>j \<noteq> i\<close> ra by (auto split: option.split)
      qed
    qed
  qed
  also have "(\<Sum>x\<leftarrow>V. ?k x) = of_bool (q = q') + of_bool (q = q') * replies_in V i"
    unfolding sum_list_addf replies_in_def sum_list_const_mult
    using sum_list_one[of V "(i, q, None, b0)" "of_bool (q = q')"] V by (simp add: threads_def)
  finally show "visible_in (set_active i b V) q' =
       visible_in V q' + ?d * (if q = q' then 1 + replies_in V i else 0)" by simp
qed

text \<open>A reply becomes active or inactive: one reply more or less, visible if its root is active.\<close>

lemma set_active_reply:
  assumes V: "threads V" "(i, q, Some r0, b0) \<in> set V"
  shows "replies_in (set_active i b V) k = replies_in V k + (of_bool b - of_bool b0) * of_bool (k = r0)"
    "visible_in (set_active i b V) q' =
       visible_in V q' + (of_bool b - of_bool b0) * of_bool (q = q' \<and> root_active V r0)"
proof -
  have row: "p = q \<and> r = Some r0 \<and> a = b0" if "(i, p, r, a) \<in> set V" for p r a using threads_row[OF V(1) that V(2)] .
  let ?d = "of_bool b - of_bool b0 :: int"
  have one: "(\<Sum>x\<leftarrow>V. if fst x = fst (i, q, Some r0, b0) then c else 0) = c" for c :: int
    by (rule sum_list_one[of V "(i, q, Some r0, b0)" c]) (use V in \<open>simp_all add: threads_def\<close>)
  have "replies_in (set_active i b V) k = replies_in V k +
      ?d * (\<Sum>x\<leftarrow>V. if fst x = fst (i, q, Some r0, b0) then of_bool (k = r0) else 0)"
    unfolding replies_in_def set_active_def by (rule sum_list_change) (auto dest: row)
  then show "replies_in (set_active i b V) k = replies_in V k + ?d * of_bool (k = r0)" by (simp only: one)
  have not_root: "r \<noteq> Some i" if "(j, p, r, a) \<in> set V" for j p r a
  proof
    assume "r = Some i"
    with that obtain c where "(i, p, None, c) \<in> set V" using threads_root[OF V(1)] by blast
    with row show False by blast
  qed
  note ra = root_active_set[OF V(2), of b]
  have r0: "r0 \<noteq> i" using not_root[OF V(2)] by simp
  have "visible_in (set_active i b V) q' = visible_in V q' +
      ?d * (\<Sum>x\<leftarrow>V. if fst x = fst (i, q, Some r0, b0) then of_bool (q = q' \<and> root_active V r0) else 0)"
    unfolding visible_in_def
    unfolding set_active_def[of i b V]
  proof (rule sum_list_change, fold set_active_def[of i b V])
    fix x assume x: "x \<in> set V"
    obtain j p r a where [simp]: "x = (j, p, r, a)" by (cases x)
    show "(case (case x of (j, p, r, a) \<Rightarrow> (j, p, r, if j = i then b else a)) of
        (j, p, r, a) \<Rightarrow> of_bool (p = q' \<and> a \<and> (case r of None \<Rightarrow> True | Some k \<Rightarrow> root_active (set_active i b V) k))) =
      (case x of (j, p, r, a) \<Rightarrow> of_bool (p = q' \<and> a \<and> (case r of None \<Rightarrow> True | Some k \<Rightarrow> root_active V k))) +
      ?d * (if fst x = fst (i, q, Some r0, b0) then of_bool (q = q' \<and> root_active V r0) else 0)"
    proof (cases "j = i")
      case True
      then show ?thesis using row[of p r a] x ra r0 by auto
    next
      case False
      then show ?thesis using not_root[of j p r a] x ra by (auto split: option.split)
    qed
  qed
  then show "visible_in (set_active i b V) q' = visible_in V q' + ?d * of_bool (q = q' \<and> root_active V r0)"
    by (simp only: one)
qed

subsection \<open>Counting from scratch\<close>

definition vis :: "db \<Rightarrow> thread_row list" where
  "vis s = map (\<lambda>c. (cm_id c, cm_post_id c, cm_root_id c, comment_active c)) (comments s)"

text \<open>The two updates of the function; rows that agree are left alone.\<close>

definition recount_posts :: "db \<Rightarrow> post list" where
  "recount_posts s = map (\<lambda>p. p\<lparr>
     p_like_count := int (count_where (\<lambda>l. pl_post_id l = p_id p) (post_likes s)),
     p_favorite_count := int (count_where (\<lambda>l. fv_post_id l = p_id p) (favorites s)),
     p_comment_count := int (count_where (\<lambda>c. cm_post_id c = p_id p \<and> cm_deleted_at c = None \<and> cm_moderation c = ModPass \<and>
       (case cm_root_id c of None \<Rightarrow> True | Some r \<Rightarrow>
          list_ex (\<lambda>root. cm_id root = r \<and> cm_deleted_at root = None \<and> cm_moderation root = ModPass) (comments s)))
       (comments s))\<rparr>) (posts s)"

definition recount_comments :: "db \<Rightarrow> comment list" where
  "recount_comments s = map (\<lambda>c. c\<lparr>
     cm_like_count := int (count_where (\<lambda>l. ck_comment_id l = cm_id c) (comment_likes s)),
     cm_reply_count := int (count_where (\<lambda>r. cm_root_id r = Some (cm_id c) \<and> cm_deleted_at r = None \<and>
       cm_moderation r = ModPass) (comments s))\<rparr>) (comments s)"

definition danshi_recount_all :: "db \<Rightarrow> db" where
  "danshi_recount_all s = (let s1 = s\<lparr>posts := recount_posts s\<rparr> in s1\<lparr>comments := recount_comments s1\<rparr>)"

definition counted :: "db \<Rightarrow> bool" where
  "counted s \<longleftrightarrow> relations_exact s \<and> threads (vis s) \<and> distinct (map p_id (posts s)) \<and>
     (\<forall>l\<in>set (comment_likes s). \<exists>c\<in>set (comments s). cm_id c = ck_comment_id l) \<and>
     (\<forall>p\<in>set (posts s). p_comment_count p = visible_in (vis s) (p_id p)) \<and>
     (\<forall>c\<in>set (comments s). cm_reply_count c = replies_in (vis s) (cm_id c))"

lemma countedD:
  assumes "counted s"
  shows "relations_exact s" "threads (vis s)" "distinct (map p_id (posts s))"
    "\<And>l. l \<in> set (comment_likes s) \<Longrightarrow> \<exists>c\<in>set (comments s). cm_id c = ck_comment_id l"
    "\<And>p. p \<in> set (posts s) \<Longrightarrow> p_comment_count p = visible_in (vis s) (p_id p)"
    "\<And>c. c \<in> set (comments s) \<Longrightarrow> cm_reply_count c = replies_in (vis s) (cm_id c)"
  using assms unfolding counted_def by blast+

lemma map_fst_vis: "map fst (vis s) = map cm_id (comments s)"
  by (simp add: vis_def o_def)

lemma vis_row: "(i, p, r, a) \<in> set (vis s) \<longleftrightarrow>
   (\<exists>c\<in>set (comments s). cm_id c = i \<and> cm_post_id c = p \<and> cm_root_id c = r \<and> comment_active c = a)"
  unfolding vis_def by auto

lemma count_where_sum: "int (count_where p xs) = (\<Sum>x\<leftarrow>xs. of_bool (p x))"
  by (induction xs) (auto simp: count_where_def)

lemma root_active_comments: "root_active (vis s) r \<longleftrightarrow> list_ex (\<lambda>c. cm_id c = r \<and> comment_active c) (comments s)"
  by (auto simp: root_active_iff vis_row list_ex_iff)

lemma visible_in_comments: "visible_in (vis s) q = int (count_where (\<lambda>c. cm_post_id c = q \<and> comment_active c \<and>
    (case cm_root_id c of None \<Rightarrow> True | Some r \<Rightarrow> list_ex (\<lambda>root. cm_id root = r \<and> comment_active root) (comments s))) (comments s))"
  unfolding visible_in_def count_where_sum by (simp add: vis_def o_def root_active_comments[symmetric] cong: option.case_cong)

lemma replies_in_comments: "replies_in (vis s) i = int (count_where (\<lambda>c. cm_root_id c = Some i \<and> comment_active c) (comments s))"
  unfolding replies_in_def count_where_sum by (simp add: vis_def o_def)

lemma exact_count:
  assumes "exact (map f ls) num" "num t = Some n"
  shows "n = int (count_where (\<lambda>l. snd (f l) = t) ls)"
proof -
  have "int (length (filter (\<lambda>m. snd m = t) (map f ls))) = int (members_of (map f ls) t)"
    using assms(1) length_members_of by (simp only: exact_def)
  with exact_number[OF assms] show ?thesis by (simp add: count_where_def filter_map o_def)
qed

lemma find_row: "distinct (map key xs) \<Longrightarrow> x \<in> set xs \<Longrightarrow> find (\<lambda>y. key y = key x) xs = Some x"
  by (induction xs) (auto simp: image_iff)

text \<open>Then counting from scratch finds every number as it is.\<close>

lemma recount_counted:
  assumes "counted s"
  shows "danshi_recount_all s = s"
proof -
  note c = countedD[OF assms]
  have ex: "exact (pairs r s) (number r s)" for r using c(1) by (simp add: relations_exact_def)
  have ids: "distinct (map cm_id (comments s))" using c(2) by (simp add: threads_def map_fst_vis)
  have "p\<lparr>p_like_count := int (count_where (\<lambda>l. pl_post_id l = p_id p) (post_likes s)),
       p_favorite_count := int (count_where (\<lambda>l. fv_post_id l = p_id p) (favorites s)),
       p_comment_count := visible_in (vis s) (p_id p)\<rparr> = p" if p: "p \<in> set (posts s)" for p
  proof -
    have f: "find (\<lambda>x. p_id x = p_id p) (posts s) = Some p" by (rule find_row[OF c(3) p])
    have "p_like_count p = int (count_where (\<lambda>l. pl_post_id l = p_id p) (post_likes s))"
      using exact_count[OF ex[of PostLikes, simplified, unfolded post_like_pairs_def], of "p_id p" "p_like_count p"] f
      by (simp add: post_like_number_def)
    moreover have "p_favorite_count p = int (count_where (\<lambda>l. fv_post_id l = p_id p) (favorites s))"
      using exact_count[OF ex[of Favorites, simplified, unfolded favorite_pairs_def], of "p_id p" "p_favorite_count p"] f
      by (simp add: favorite_number_def)
    ultimately show ?thesis using c(5)[OF p] by simp
  qed
  then have P: "recount_posts s = posts s"
    unfolding recount_posts_def by (intro map_idI) (simp add: visible_in_comments comment_active_def cong: option.case_cong)
  have "d\<lparr>cm_like_count := int (count_where (\<lambda>l. ck_comment_id l = cm_id d) (comment_likes s)),
       cm_reply_count := replies_in (vis s) (cm_id d)\<rparr> = d" if d: "d \<in> set (comments s)" for d
  proof -
    have f: "find (\<lambda>x. cm_id x = cm_id d) (comments s) = Some d" by (rule find_row[OF ids d])
    have "cm_like_count d = int (count_where (\<lambda>l. ck_comment_id l = cm_id d) (comment_likes s))"
      using exact_count[OF ex[of CommentLikes, simplified, unfolded comment_like_pairs_def], of "cm_id d" "cm_like_count d"] f
      by (simp add: comment_like_number_def)
    then show ?thesis using c(6)[OF d] by simp
  qed
  then have "recount_comments s = comments s"
    unfolding recount_comments_def by (intro map_idI) (simp add: replies_in_comments comment_active_def)
  then show ?thesis using P by (simp add: danshi_recount_all_def)
qed

subsection \<open>Statements on comments keep the numbers\<close>

lemma find_keyed:
  "map (\<lambda>x. (key x, val x)) xs = map (\<lambda>x. (key x, val x)) ys \<Longrightarrow>
   map_option val (find (\<lambda>x. key x = t) xs) = map_option val (find (\<lambda>x. key x = t) ys)"
proof (induction xs arbitrary: ys)
  case (Cons x xs)
  then obtain y ys' where "ys = y # ys'" by (cases ys) auto
  with Cons show ?case by auto
qed simp

lemma same_relations_rows:
  assumes "post_likes s' = post_likes s" "favorites s' = favorites s" "comment_likes s' = comment_likes s" "follows s' = follows s"
    "map (\<lambda>p. (p_id p, p_like_count p)) (posts s') = map (\<lambda>p. (p_id p, p_like_count p)) (posts s)"
    "map (\<lambda>p. (p_id p, p_favorite_count p)) (posts s') = map (\<lambda>p. (p_id p, p_favorite_count p)) (posts s)"
    "map (\<lambda>c. (cm_id c, cm_like_count c)) (comments s') = map (\<lambda>c. (cm_id c, cm_like_count c)) (comments s)"
  shows "same_relations s s'"
proof -
  have "pairs r s' = pairs r s \<and> number r s' = number r s" for r
    using find_keyed[OF assms(5)] find_keyed[OF assms(6)] find_keyed[OF assms(7)] assms(1-4)
    by (cases r) (simp_all add: post_like_pairs_def favorite_pairs_def comment_like_pairs_def follow_pairs_def fun_eq_iff
        post_like_number_def favorite_number_def comment_like_number_def follow_number_def)
  then show ?thesis by (simp add: same_relations_def)
qed

lemma count_statements [simp]:
  "posts (add_comment_count i d s) = upd_where (\<lambda>p. p_id p = i) (\<lambda>p. p\<lparr>p_comment_count := max (p_comment_count p + d) 0\<rparr>) (posts s)"
  "comments (add_comment_count i d s) = comments s" "comment_likes (add_comment_count i d s) = comment_likes s"
  "comments (add_reply_count i d s) = upd_where (\<lambda>c. cm_id c = i) (\<lambda>c. c\<lparr>cm_reply_count := max (cm_reply_count c + d) 0\<rparr>) (comments s)"
  "posts (add_reply_count i d s) = posts s" "comment_likes (add_reply_count i d s) = comment_likes s"
  by (simp_all add: add_comment_count_def add_reply_count_def)

lemma comment_active_reply_count [simp]: "comment_active (c\<lparr>cm_reply_count := n\<rparr>) = comment_active c"
  by (simp add: comment_active_def)

lemma vis_counts [simp]: "vis (add_comment_count i d s) = vis s" "vis (add_reply_count i d s) = vis s"
  by (auto simp: vis_def upd_where_def)

lemma same_relations_counts: "same_relations s (add_comment_count i d s)" "same_relations s (add_reply_count i d s)"
  by (rule same_relations_rows; simp add: add_comment_count_def add_reply_count_def upd_where_def)+

lemma reply_count_ids: "map cm_id (comments (add_reply_count i d s)) = map cm_id (comments s)"
  by (simp add: upd_where_def)

lemma counts_posts:
  assumes "\<forall>p\<in>set (posts s). p_comment_count p = A (p_id p)" "\<And>j. B j = A j + (if i = j then d else 0)" "\<And>j. 0 \<le> B j"
  shows "\<forall>p\<in>set (posts (add_comment_count i d s)). p_comment_count p = B (p_id p)"
proof
  fix p assume "p \<in> set (posts (add_comment_count i d s))"
  then show "p_comment_count p = B (p_id p)"
    unfolding count_statements
  proof (cases rule: in_upd_whereE)
    case (changed p0)
    then have "0 \<le> A i + d" "p_comment_count p0 = A i" using assms(1) assms(2)[of i] assms(3)[of i] by auto
    with changed show ?thesis using assms(2)[of i] by simp
  next
    case same
    then show ?thesis using assms(1) assms(2)[of "p_id p"] by simp
  qed
qed

lemma counts_replies:
  assumes "\<forall>c\<in>set (comments s). cm_reply_count c = A (cm_id c)" "\<And>j. B j = A j + d * of_bool (j = i)" "\<And>j. 0 \<le> B j"
  shows "\<forall>c\<in>set (comments (add_reply_count i d s)). cm_reply_count c = B (cm_id c)"
proof
  fix c assume "c \<in> set (comments (add_reply_count i d s))"
  then show "cm_reply_count c = B (cm_id c)"
    unfolding count_statements
  proof (cases rule: in_upd_whereE)
    case (changed c0)
    then have "0 \<le> A i + d" "cm_reply_count c0 = A i" using assms(1) assms(2)[of i] assms(3)[of i] by auto
    with changed show ?thesis using assms(2)[of i] by simp
  next
    case same
    then show ?thesis using assms(1) assms(2)[of "cm_id c"] by simp
  qed
qed

lemma comments_only: "posts (s\<lparr>comments := cs\<rparr>) = posts s" "comment_likes (s\<lparr>comments := cs\<rparr>) = comment_likes s"
  by simp_all

text \<open>A statement that leaves these tables alone, up to texts and times.\<close>

lemma counted_same:
  assumes "counted s" "same_relations s s'" "posts s' = posts s" "comments s' = comments s" "comment_likes s' = comment_likes s"
  shows "counted s'"
proof -
  have "vis s' = vis s" by (simp add: vis_def assms(4))
  then show ?thesis using assms same_relations_exact[OF assms(2)] by (simp add: counted_def)
qed

lemma vis_update:
  assumes "threads (vis s)" "old \<in> set (comments s)" "q old"
    "\<And>c. cm_id (f c) = cm_id c" "\<And>c. cm_post_id (f c) = cm_post_id c" "\<And>c. cm_root_id (f c) = cm_root_id c"
  shows "vis (s\<lparr>comments := upd_where (\<lambda>c. cm_id c = cm_id old \<and> q c) f (comments s)\<rparr>) =
    set_active (cm_id old) (comment_active (f old)) (vis s)"
proof -
  have "c = old" if "c \<in> set (comments s)" "cm_id c = cm_id old" for c
  proof -
    have d: "distinct (map cm_id (comments s))" using assms(1) by (simp add: threads_def map_fst_vis)
    show ?thesis using find_row[OF d that(1)] find_row[OF d assms(2)] unfolding that(2) by simp
  qed
  then have "(case (cm_id c, cm_post_id c, cm_root_id c, comment_active c) of
      (j, p, r, a) \<Rightarrow> (j, p, r, if j = cm_id old then comment_active (f old) else a)) =
    (case (if cm_id c = cm_id old \<and> q c then f c else c) of
      d \<Rightarrow> (cm_id d, cm_post_id d, cm_root_id d, comment_active d))" if "c \<in> set (comments s)" for c
    using that assms(3) by (auto simp: assms(4-6))
  then show ?thesis unfolding vis_def set_active_def upd_where_def by simp
qed

lemma root_found:
  assumes "threads (vis s)"
  shows "(case find (\<lambda>d. cm_id d = r) (comments s) of None \<Rightarrow> x | Some root \<Rightarrow> if comment_active root then y else x) =
    (if root_active (vis s) r then y else x)"
proof (cases "find (\<lambda>d. cm_id d = r) (comments s)")
  case None
  then have "\<not> root_active (vis s) r" by (auto simp: root_active_comments list_ex_iff find_None_iff)
  with None show ?thesis by simp
next
  case (Some root)
  then have "(r, cm_post_id root, cm_root_id root, comment_active root) \<in> set (vis s)"
    by (auto simp: vis_row dest: find_SomeD)
  then show ?thesis using root_active_row[OF assms] Some by auto
qed

lemma sync_reply:
  assumes "cm_root_id c = Some r" "d = of_bool (comment_active c) - of_bool (comment_active old)" "d \<noteq> 0" "threads (vis s)"
  shows "sync_comment_counts (Some old) c s = (if root_active (vis s) r
    then add_comment_count (cm_post_id c) d (add_reply_count r d s) else add_reply_count r d s)"
proof -
  have "sync_comment_counts (Some old) c s = (let s1 = add_reply_count r d s in
      case find (\<lambda>d. cm_id d = r) (comments s1) of None \<Rightarrow> s1
      | Some root \<Rightarrow> if comment_active root then add_comment_count (cm_post_id c) d s1 else s1)"
    unfolding sync_comment_counts_def option.case assms(1) assms(2)[symmetric] Let_def using assms(3) by simp
  also have "\<dots> = (if root_active (vis (add_reply_count r d s)) r
    then add_comment_count (cm_post_id c) d (add_reply_count r d s) else add_reply_count r d s)"
    unfolding Let_def by (rule root_found) (use assms(4) in simp)
  finally show ?thesis by simp
qed

text \<open>An update of one comment, with the trigger.\<close>

lemma counted_update:
  assumes s: "counted s" and old: "old \<in> set (comments s)" "q old"
    and f: "\<And>c. cm_id (f c) = cm_id c" "\<And>c. cm_post_id (f c) = cm_post_id c" "\<And>c. cm_root_id (f c) = cm_root_id c"
      "\<And>c. cm_like_count (f c) = cm_like_count c" "\<And>c. cm_reply_count (f c) = cm_reply_count c"
  shows "counted (sync_comment_counts (Some old) (f old)
    (s\<lparr>comments := upd_where (\<lambda>c. cm_id c = cm_id old \<and> q c) f (comments s)\<rparr>))"
proof -
  let ?s = "s\<lparr>comments := upd_where (\<lambda>c. cm_id c = cm_id old \<and> q c) f (comments s)\<rparr>"
  let ?a = "comment_active (f old)" and ?b = "comment_active old"
  let ?V = "vis s" and ?W = "set_active (cm_id old) (comment_active (f old)) (vis s)"
  note c = countedD[OF s]
  have W: "vis ?s = ?W" by (rule vis_update) (fact c(2) old f)+
  have row: "(cm_id old, cm_post_id old, cm_root_id old, ?b) \<in> set ?V" using old(1) by (auto simp: vis_row)
  have rel: "same_relations s ?s" by (rule same_relations_rows) (simp_all add: upd_where_def f)
  have thr: "threads ?W" using c(2) by (rule threads_set_active)
  have P: "\<forall>p\<in>set (posts ?s). p_comment_count p = visible_in ?V (p_id p)" using c(5) by simp
  have R: "\<forall>d\<in>set (comments ?s). cm_reply_count d = replies_in ?V (cm_id d)"
    using c(6) by (auto simp: set_upd_where f)
  have fin: "counted s'" if "same_relations ?s s'" "vis s' = ?W" "map p_id (posts s') = map p_id (posts s)"
      "map cm_id (comments s') = map cm_id (comments s)" "comment_likes s' = comment_likes s"
      "\<forall>p\<in>set (posts s'). p_comment_count p = visible_in ?W (p_id p)"
      "\<forall>d\<in>set (comments s'). cm_reply_count d = replies_in ?W (cm_id d)" for s'
  proof -
    have "\<exists>d\<in>set (comments s'). cm_id d = ck_comment_id l" if "l \<in> set (comment_likes s)" for l
      using c(4)[OF that] \<open>map cm_id (comments s') = map cm_id (comments s)\<close> by (metis (no_types, lifting) image_iff image_set)
    then show ?thesis
      using that thr c(1,3) same_relations_exact[OF rel] same_relations_exact[OF that(1)] by (simp add: counted_def)
  qed
  have ids: "map cm_id (comments ?s) = map cm_id (comments s)" by (simp add: upd_where_def f)
  show ?thesis
  proof (cases "?a = ?b")
    case True
    have "set_active (cm_id old) ?b ?V = ?V"
      unfolding set_active_def by (intro map_idI) (auto dest: threads_row[OF c(2) row] split: if_splits)
    then have "counted ?s" using True W P R ids by (intro fin) simp_all
    then show ?thesis using True by (simp add: sync_comment_counts_def)
  next
    case False
    let ?d = "of_bool ?a - of_bool ?b :: int"
    have d: "?d \<noteq> 0" using False by auto
    show ?thesis
    proof (cases "cm_root_id old")
      case None
      note ch = set_active_root[OF c(2) row[unfolded None], of ?a]
      have n: "cm_reply_count (f old) = replies_in ?V (cm_id old)" using c(6)[OF old(1)] by (simp add: f)
      have sync: "sync_comment_counts (Some old) (f old) ?s =
          add_comment_count (cm_post_id old) (?d * (1 + replies_in ?V (cm_id old))) ?s"
        using d None n by (simp add: sync_comment_counts_def f Let_def)
      show ?thesis unfolding sync
      proof (rule fin)
        show "\<forall>p\<in>set (posts (add_comment_count (cm_post_id old) (?d * (1 + replies_in ?V (cm_id old))) ?s)).
            p_comment_count p = visible_in ?W (p_id p)"
          by (rule counts_posts[OF P]) (simp_all add: ch(2) counts_nonneg(2)[of "?W", unfolded ch(2)])
      qed (use W R ids ch(1) in \<open>simp_all add: same_relations_counts upd_where_ids[where idf = p_id]\<close>)
    next
      case (Some r)
      note ch = set_active_reply[OF c(2) row[unfolded Some], of ?a]
      have root: "root_active ?W r = root_active ?V r"
      proof -
        have "r \<noteq> cm_id old"
        proof
          assume "r = cm_id old"
          then obtain b where "(cm_id old, cm_post_id old, None, b) \<in> set ?V"
            using threads_root[OF c(2) row[unfolded Some]] by auto
          with threads_row[OF c(2) row this] Some show False by simp
        qed
        then show ?thesis using root_active_set[OF row] by simp
      qed
      let ?t = "add_reply_count r ?d ?s"
      have t: "vis ?t = ?W" "threads (vis ?t)" using W thr by simp_all
      have sync: "sync_comment_counts (Some old) (f old) ?s =
          (if root_active ?V r then add_comment_count (cm_post_id old) ?d ?t else ?t)"
        using sync_reply[of "f old" r ?d old ?s] d Some root W thr by (simp add: f)
      have R': "\<forall>d\<in>set (comments ?t). cm_reply_count d = replies_in ?W (cm_id d)"
        by (rule counts_replies[OF R]) (simp_all add: ch(1) counts_nonneg(1)[of "?W", unfolded ch(1)])
      have ids': "map cm_id (comments ?t) = map cm_id (comments s)" by (simp only: reply_count_ids ids)
      show ?thesis
      proof (cases "root_active ?V r")
        case True
        let ?u = "add_comment_count (cm_post_id old) ?d ?t"
        have "counted ?u"
        proof (rule fin)
          show "same_relations ?s ?u" by (rule same_relations_trans[OF same_relations_counts(2) same_relations_counts(1)])
          show "vis ?u = ?W" by (simp only: vis_counts W)
          show "map p_id (posts ?u) = map p_id (posts s)" by (simp add: upd_where_ids[where idf = p_id])
          show "map cm_id (comments ?u) = map cm_id (comments s)" by (simp only: count_statements(2) ids')
          show "comment_likes ?u = comment_likes s" by simp
          show "\<forall>d\<in>set (comments ?u). cm_reply_count d = replies_in ?W (cm_id d)"
            unfolding count_statements(2) by (fact R')
          show "\<forall>p\<in>set (posts ?u). p_comment_count p = visible_in ?W (p_id p)"
          proof (rule counts_posts[where A = "visible_in ?V"])
            show "visible_in ?W j = visible_in ?V j + (if cm_post_id old = j then ?d else 0)" for j
              using True by (simp only: ch(2)) simp
          qed (use P in \<open>simp_all add: counts_nonneg\<close>)
        qed
        with True show ?thesis by (simp only: sync if_True)
      next
        case False
        have "counted ?t"
        proof (rule fin)
          show "same_relations ?s ?t" by (rule same_relations_counts)
          show "\<forall>d\<in>set (comments ?t). cm_reply_count d = replies_in ?W (cm_id d)" by (fact R')
          show "\<forall>p\<in>set (posts ?t). p_comment_count p = visible_in ?W (p_id p)" using P False by (simp add: ch(2))
        qed (simp_all add: W ids' del: count_statements(4))
        with False show ?thesis by (simp only: sync if_False)
      qed
    qed
  qed
qed

end
