(* ===== verification/Comment_Effects.thy ===== *)
theory Comment_Effects
  imports Comment_Counts
begin

section \<open>What writing a comment does\<close>

text \<open>
  The numbers of comments agree with counting from scratch after every write and every like, on
  every path; what is stored, reviewed and sent when a comment is written or edited; and which
  comments a reader is shown.
\<close>

subsection \<open>The numbers, on every path\<close>

abbreviation req_counted :: "'fx req \<Rightarrow> bool" where
  "req_counted q \<equiv> counted (rq_db q)"

text \<open>Everything the numbers depend on.\<close>

definition same_counting :: "db \<Rightarrow> db \<Rightarrow> bool" where
  "same_counting s s' \<longleftrightarrow> same_relations s s' \<and> posts s' = posts s \<and> comments s' = comments s \<and> comment_likes s' = comment_likes s"

lemma same_counting_counted: "same_counting s s' \<Longrightarrow> counted s \<Longrightarrow> counted s'"
  by (auto simp: same_counting_def intro: counted_same)

lemma same_counting_tables: "same_tables s s' \<Longrightarrow> same_counting s s'"
  using same_relations_tables[of s s'] by (auto simp: same_counting_def same_tables_iff)

lemma counted_blind: "stmt_blind counted"
  unfolding stmt_blind_def
proof (intro allI iffI)
  fix s n
  show "counted (s\<lparr>db_stmts := n\<rparr>) \<Longrightarrow> counted s"
    by (rule same_counting_counted[of "s\<lparr>db_stmts := n\<rparr>"]) (auto simp: same_counting_def intro!: same_relations_rows)
  show "counted s \<Longrightarrow> counted (s\<lparr>db_stmts := n\<rparr>)"
    by (rule same_counting_counted[of s]) (auto simp: same_counting_def intro!: same_relations_rows)
qed

lemma keeps_stmt:
  assumes "stmt_blind I" "\<And>s. I s \<Longrightarrow> I (snd (body s))"
  shows "keeps I (stmt body)"
  using assms by (auto simp: keeps_def stmt_run stmt_blindD)

lemma same_counting_rows: "same_counting s (s\<lparr>moderation_records := a\<rparr>)" "same_counting s (s\<lparr>comment_mentions := b\<rparr>)"
  "same_counting s (s\<lparr>comment_histories := c\<rparr>)" "same_counting s (s\<lparr>notifications := d\<rparr>)"
  unfolding same_counting_def by (auto intro: same_relations_rows)

lemma counted_rows [simp]:
  "counted s \<Longrightarrow> counted (s\<lparr>moderation_records := a\<rparr>)" "counted s \<Longrightarrow> counted (s\<lparr>comment_mentions := b\<rparr>)"
  "counted s \<Longrightarrow> counted (s\<lparr>comment_histories := c\<rparr>)" "counted s \<Longrightarrow> counted (s\<lparr>notifications := d\<rparr>)"
  using same_counting_rows same_counting_counted by blast+

lemma find_append: "find p (xs @ ys) = (case find p xs of None \<Rightarrow> find p ys | Some x \<Rightarrow> Some x)"
  by (induction xs) auto

text \<open>A new comment is not visible yet: no number changes.\<close>

lemma counted_new:
  assumes s: "counted s" and c: "\<not> comment_active c" "cm_id c = next_id cm_id (comments s)" "cm_like_count c = 0"
    "cm_reply_count c = 0" and refs: "comment_refs s c" "(cm_parent_id c = None) = (cm_root_id c = None)"
  shows "counted (s\<lparr>comments := comments s @ [c]\<rparr>)"
proof -
  let ?s = "s\<lparr>comments := comments s @ [c]\<rparr>" and ?V = "vis s"
  note k = countedD[OF s]
  let ?x = "(cm_id c, cm_post_id c, cm_root_id c, False)"
  have V: "vis ?s = ?V @ [?x]" using c(1) by (simp add: vis_def)
  have fresh: "cm_id d \<noteq> cm_id c" if "d \<in> set (comments s)" for d
    using next_id_fresh[of d "comments s" cm_id] that c(2) by auto
  have act: "root_active (?V @ [?x]) i = root_active ?V i" for i by (auto simp: root_active_iff)
  have vi: "visible_in (?V @ [?x]) i = visible_in ?V i" for i unfolding visible_in_def by (simp add: act cong: option.case_cong)
  have ri: "replies_in (?V @ [?x]) i = replies_in ?V i" for i unfolding replies_in_def by simp
  have none: "replies_in ?V (cm_id c) = 0"
  proof -
    have "r \<noteq> Some (cm_id c)" if "(j, p, r, a) \<in> set ?V" for j p r a
      using that threads_root[OF k(2), of j p "cm_id c" a] fresh by (auto simp: vis_row)
    then have "replies_in ?V (cm_id c) = (\<Sum>_\<leftarrow>?V. 0)"
      unfolding replies_in_def by (intro arg_cong[of _ _ sum_list] map_cong) auto
    then show ?thesis by simp
  qed
  have root: "\<exists>b. (k, cm_post_id c, None, b) \<in> set ?V" if r: "cm_root_id c = Some k" for k
  proof -
    obtain i where "cm_parent_id c = Some i" using refs(2) r by (cases "cm_parent_id c") auto
    with refs(1) r obtain d where "d \<in> set (comments s)" "cm_post_id d = cm_post_id c" "effective_root d = k"
      by (auto simp: comment_refs_def list_ex_iff)
    then have "(cm_id d, cm_post_id c, cm_root_id d, comment_active d) \<in> set ?V" by (auto simp: vis_row)
    with \<open>effective_root d = k\<close> show ?thesis
      using threads_root[OF k(2), of "cm_id d" "cm_post_id c"]
      by (cases "cm_root_id d") (auto simp: effective_root_def)
  qed
  have thr: "threads (?V @ [?x])"
    unfolding threads_def
  proof (intro conjI ballI)
    have "cm_id c \<notin> cm_id ` set (comments s)" using fresh by force
    then show "distinct (map fst (?V @ [?x]))" using k(2) by (simp add: threads_def map_fst_vis)
    fix y assume y: "y \<in> set (?V @ [?x])"
    have "\<exists>b. (i, p, None, b) \<in> set (?V @ [?x])" if "y = (j, p, Some i, a)" for i j p a
      using y that threads_root[OF k(2), of j p i a] root[of i] by auto
    then show "case y of (j, p, r, a) \<Rightarrow> case r of None \<Rightarrow> True | Some k \<Rightarrow> \<exists>b. (k, p, None, b) \<in> set (?V @ [?x])"
      by (cases y) (auto split: option.split)
  qed
  have num: "number r ?s t = (if r = CommentLikes \<and> t = cm_id c then Some 0 else number r s t)" for r t
  proof -
    have "find (\<lambda>d. cm_id d = cm_id c) (comments s) = None" using fresh by (simp add: find_None_iff)
    then show ?thesis
      using c(3) by (cases r) (auto simp: post_like_number_def favorite_number_def comment_like_number_def follow_number_def
          find_append split: option.split)
  qed
  have like: "members_of (comment_like_pairs s) (cm_id c) = 0"
  proof -
    have "(u, cm_id c) \<notin> set (comment_like_pairs s)" for u
    proof
      assume "(u, cm_id c) \<in> set (comment_like_pairs s)"
      then obtain l where "l \<in> set (comment_likes s)" "ck_comment_id l = cm_id c" by (auto simp: comment_like_pairs_def)
      with k(4)[of l] fresh show False by auto
    qed
    then show ?thesis by simp
  qed
  have "relations_exact ?s"
    unfolding relations_exact_def
  proof
    fix r
    have "pairs r ?s = pairs r s" by (cases r) (simp_all add: post_like_pairs_def favorite_pairs_def comment_like_pairs_def follow_pairs_def)
    then show "exact (pairs r ?s) (number r ?s)"
      using k(1) like unfolding relations_exact_def exact_def num by auto
  qed
  then show ?thesis
    using k thr none c(4) unfolding counted_def V by (auto simp: vi ri)
qed

subsection \<open>The statements\<close>

lemma keeps_counted_Create:
  "\<not> comment_active c \<Longrightarrow> keeps counted (comment_Create c)"
  unfolding comment_Create_def
  by (intro keeps_stmt counted_blind)
    (auto simp: Let_def sync_comment_counts_def comment_active_def comment_check_def intro!: counted_new)

lemma keeps_counted_update:
  assumes "\<And>c. cm_id (f c) = cm_id c" "\<And>c. cm_post_id (f c) = cm_post_id c" "\<And>c. cm_root_id (f c) = cm_root_id c"
    "\<And>c. cm_like_count (f c) = cm_like_count c" "\<And>c. cm_reply_count (f c) = cm_reply_count c"
  shows "keeps counted (update_comment q i f)"
  unfolding update_comment_def
proof (intro keeps_stmt counted_blind)
  fix s assume s: "counted s"
  show "counted (snd (case find (\<lambda>c. cm_id c = i \<and> q c) (comments s) of
       None \<Rightarrow> (Inl ErrNotFound, s)
     | Some old \<Rightarrow>
         if \<not> comment_check (f old) then (Inl (CheckViolation ''comments''), s)
         else if \<not> comment_refs s (f old) then (Inl (RepoPlain ''foreign_key_violation''), s)
         else (Inr (), sync_comment_counts (Some old) (f old)
                 (s\<lparr>comments := upd_where (\<lambda>c. cm_id c = i \<and> q c) f (comments s)\<rparr>))))"
    using s counted_update[OF s _ _ assms, of _ q]
    by (auto split: option.split dest!: find_SomeD)
qed

lemma keeps_counted_comment:
  "keeps counted (comment_UpdateContent i content r t)" "keeps counted (comment_ApplyModeration i m t)"
  "keeps counted (comment_SoftDelete i reason a t)"
  unfolding comment_UpdateContent_def comment_ApplyModeration_def comment_SoftDelete_def
  by (intro keeps_counted_update; simp)+

lemma keeps_counted_other:
  "keeps counted (comment_CreateHistory h)" "keeps counted (insert_mentions i us)" "keeps counted (user_CreateModerationRecord r)"
  unfolding comment_CreateHistory_def insert_mentions_def user_CreateModerationRecord_def CreateManualRecord_def
  by (auto intro!: keeps_stmt keeps_bind keeps_ret counted_blind simp: insert_record_def)

lemma keeps_counted_mentions: "keeps counted (ReplaceMentions i us)"
  unfolding ReplaceMentions_def
  by (auto simp: Let_def intro!: keeps_seq keeps_execute keeps_ret keeps_counted_other counted_blind)

text \<open>Likes change only their own numbers; the notices change none.\<close>

lemma counted_relation_rows:
  assumes "counted s" "relations_exact s'"
    "map (\<lambda>p. (p_id p, p_comment_count p)) (posts s') = map (\<lambda>p. (p_id p, p_comment_count p)) (posts s)"
    "map (\<lambda>c. (cm_id c, cm_post_id c, cm_root_id c, comment_active c, cm_reply_count c)) (comments s') =
     map (\<lambda>c. (cm_id c, cm_post_id c, cm_root_id c, comment_active c, cm_reply_count c)) (comments s)"
    "\<And>l. l \<in> set (comment_likes s') \<Longrightarrow> \<exists>c\<in>set (comments s). cm_id c = ck_comment_id l"
  shows "counted s'"
proof -
  note k = countedD[OF assms(1)]
  have "vis s' = map (\<lambda>(i, p, r, a, n). (i, p, r, a)) (map (\<lambda>c. (cm_id c, cm_post_id c, cm_root_id c, comment_active c, cm_reply_count c)) (comments s'))"
    by (simp add: vis_def o_def)
  also have "\<dots> = vis s" unfolding assms(4) by (simp add: vis_def o_def)
  finally have V: "vis s' = vis s" .
  have P: "map p_id (posts s') = map p_id (posts s)"
    using arg_cong[OF assms(3), of "map fst"] by (simp add: o_def)
  have C: "cm_id ` set (comments s') = cm_id ` set (comments s)"
    using arg_cong[OF assms(4), of "\<lambda>xs. set (map fst xs)"] by (simp add: image_image)
  have "p_comment_count p = visible_in (vis s) (p_id p)" if "p \<in> set (posts s')" for p
  proof -
    have "(p_id p, p_comment_count p) \<in> set (map (\<lambda>p. (p_id p, p_comment_count p)) (posts s))"
      unfolding assms(3)[symmetric] using that by auto
    with k(5) show ?thesis by auto
  qed
  moreover have "cm_reply_count c = replies_in (vis s) (cm_id c)" if "c \<in> set (comments s')" for c
  proof -
    have "(cm_id c, cm_post_id c, cm_root_id c, comment_active c, cm_reply_count c) \<in>
        set (map (\<lambda>c. (cm_id c, cm_post_id c, cm_root_id c, comment_active c, cm_reply_count c)) (comments s))"
      unfolding assms(4)[symmetric] using that by auto
    with k(6) show ?thesis by auto
  qed
  moreover have "\<exists>c\<in>set (comments s'). cm_id c = ck_comment_id l" if "l \<in> set (comment_likes s')" for l
    using assms(5)[OF that] C by (metis (no_types, lifting) image_iff)
  ultimately show ?thesis using k(2,3) assms(2) by (simp add: counted_def V P)
qed

lemma comment_active_like_count [simp]: "comment_active (c\<lparr>cm_like_count := n\<rparr>) = comment_active c"
  by (simp add: comment_active_def)

lemma sync_like_rows:
  "map (\<lambda>p. (p_id p, p_comment_count p)) (posts (sync_post_like_count i f s)) = map (\<lambda>p. (p_id p, p_comment_count p)) (posts s)"
  "map (\<lambda>p. (p_id p, p_comment_count p)) (posts (sync_post_favorite_count i f s)) = map (\<lambda>p. (p_id p, p_comment_count p)) (posts s)"
  "posts (sync_comment_like_count i f s) = posts s"
  "comments (sync_post_like_count i f s) = comments s" "comments (sync_post_favorite_count i f s) = comments s"
  "map (\<lambda>c. (cm_id c, cm_post_id c, cm_root_id c, comment_active c, cm_reply_count c)) (comments (sync_comment_like_count i f s)) =
   map (\<lambda>c. (cm_id c, cm_post_id c, cm_root_id c, comment_active c, cm_reply_count c)) (comments s)"
  by (simp_all add: sync_post_like_count_def sync_post_favorite_count_def sync_comment_like_count_def upd_where_def)

lemma keeps_counted_pair: "keeps counted (add_pair r u t now)" "keeps counted (remove_pair r u t)"
proof -
  have "counted (snd (add_pair r u t now s))" if s: "counted s" for s
  proof (rule counted_relation_rows[OF s])
    show "relations_exact (snd (add_pair r u t now s))" using s by (simp add: add_pair_exact counted_def)
    show "\<exists>c\<in>set (comments s). cm_id c = ck_comment_id l" if "l \<in> set (comment_likes (snd (add_pair r u t now s)))" for l
      using that countedD(4)[OF s, of l] by (cases r) (auto simp: relation_ops list_ex_iff split: if_splits)
  qed (cases r; simp add: relation_ops sync_like_rows)+
  then show "keeps counted (add_pair r u t now)" by (simp add: keeps_def)
  have "counted (snd (remove_pair r u t s))" if s: "counted s" for s
  proof (rule counted_relation_rows[OF s])
    show "relations_exact (snd (remove_pair r u t s))" using s by (simp add: remove_pair_exact counted_def)
    show "\<exists>c\<in>set (comments s). cm_id c = ck_comment_id l" if "l \<in> set (comment_likes (snd (remove_pair r u t s)))" for l
      using that countedD(4)[OF s, of l] by (cases r) (auto simp: relation_ops split: if_splits)
  qed (cases r; simp add: relation_ops sync_like_rows)+
  then show "keeps counted (remove_pair r u t)" by (simp add: keeps_def)
qed

subsection \<open>The operations\<close>

lemma keeps_counted_call: "keeps counted m \<Longrightarrow> keeps req_counted (db_call h m)"
  by (simp add: keeps_def db_call_def repo_run)

lemma keeps_counted_query: "keeps counted (query f)" "keeps counted (query_first g)"
  by (simp_all add: keeps_query keeps_query_first counted_blind)

lemma keeps_counted_notify: "keeps counted (notification_Create n now)" "keeps counted (CreateNotifications ns now)"
  unfolding notification_Create_def CreateNotifications_def
  by (auto intro!: keeps_stmt counted_blind dest!: insert_notification_Inr insert_notifications_Inr split: sum.split)

lemma keeps_counted_Alert: "keeps req_counted (Alert al)"
  by (auto simp: keeps_def Alert_def AfterCommit_def bind_run ret_def split: option.split)

lemma keeps_counted_LoadRelations: "keeps counted (LoadRelations cs u)"
  unfolding LoadRelations_def loadCommentMentions_def loadCommentUsers_def loadCommentRevisions_def loadCommentLikes_def
    loadCommentFollows_def
  by (auto simp: Let_def intro!: keeps_bind keeps_counted_query split: prod.split)

lemmas keeps_counted_reads = keeps_counted_query[THEN keeps_counted_call] keeps_counted_LoadRelations[THEN keeps_counted_call]
  keeps_opt_error

lemma keeps_counted_read:
  "keeps req_counted (db_call h (post_FindByID i b))" "keeps req_counted (db_call h (comment_FindByID j))"
  "keeps req_counted (db_call h (user_FindByID k))" "keeps req_counted (db_call h (comment_LockByID j))"
  "keeps req_counted (db_call h (post_LockByID i b))" "keeps req_counted (db_call h (ActiveUsers us))"
  "keeps req_counted (db_call h (MentionIDs j))" "keeps req_counted (db_call h (comment_NextHistoryRevision j))"
  "keeps req_counted (db_call h (Counters i))" "keeps req_counted (db_call h (LikeCount j))"
  unfolding post_FindByID_def comment_FindByID_def user_FindByID_def comment_LockByID_def post_LockByID_def ActiveUsers_def
    MentionIDs_def comment_NextHistoryRevision_def Counters_def LikeCount_def Let_def
  by (auto intro!: keeps_counted_reads keeps_counted_call)

lemmas keeps_counted_all = keeps_counted_reads keeps_counted_read keeps_counted_Alert
  keeps_counted_notify[THEN keeps_counted_call] keeps_counted_comment[THEN keeps_counted_call]
  keeps_counted_other[THEN keeps_counted_call] keeps_counted_mentions[THEN keeps_counted_call]
  keeps_counted_pair[THEN keeps_counted_call]
  keeps_counted_pair[where r = PostLikes, simplified, THEN keeps_counted_call]
  keeps_counted_pair[where r = Favorites, simplified, THEN keeps_counted_call]
  keeps_counted_pair[where r = CommentLikes, simplified, THEN keeps_counted_call]
  keeps_counted_pair[where r = Follows, simplified, THEN keeps_counted_call]

lemma keeps_counted_parts:
  "keeps req_counted (normalizeCommentPayload content ids)" "keeps req_counted (moderateComment srv clk i r content)"
  "keeps req_counted (resolveCommentParent pid a inp)" "keeps req_counted (commentMutationResult i a u)"
  "keeps req_counted (postForWrite i)" "keeps req_counted (interactiveComment j)" "keeps req_counted (ensureUser k)"
  "keeps req_counted (followResult k b)"
  unfolding normalizeCommentPayload_def moderateComment_def verdict_alert_def resolveCommentParent_def commentMutationResult_def
    postForWrite_def interactiveComment_def ensureUser_def followResult_def FollowerCount_def
  by (auto simp: Let_def intro!: keeps_bind keeps_seq keeps_counted_all split: option.split)

lemma new_comment_inactive: "\<not> comment_active (new_comment pid a par root rep content now)"
  by (simp add: new_comment_def comment_active_def)

lemma keeps_counted_ops:
  "keeps req_counted (comment_service_Create srv clk pid inp a)" "keeps req_counted (comment_service_Update srv clk i upd a)"
  "keeps req_counted (comment_service_Delete clk i a)" "keeps req_counted (perform r on clk t u)"
proof -
  show "keeps req_counted (comment_service_Create srv clk pid inp a)"
    unfolding comment_service_Create_def Let_def
    by (auto intro!: keeps_bind keeps_seq keeps_counted_all keeps_counted_parts
        keeps_counted_Create[OF new_comment_inactive, THEN keeps_counted_call] split: prod.split)
  show "keeps req_counted (comment_service_Update srv clk i upd a)" "keeps req_counted (comment_service_Delete clk i a)"
    unfolding comment_service_Update_def comment_service_Delete_def
    by (auto intro!: keeps_bind keeps_seq keeps_counted_all keeps_counted_parts split: prod.split)
  show "keeps req_counted (perform r on clk t u)"
    by (cases r; cases on)
      (auto simp: post_service_Like_def post_service_Unlike_def post_service_Favorite_def post_service_Unfavorite_def
        comment_service_Like_def comment_service_Unlike_def user_service_Follow_def user_service_Unfollow_def
        intro!: keeps_bind keeps_seq keeps_counted_all keeps_counted_parts split: prod.split)
qed

subsection \<open>Any number of requests\<close>

text \<open>
  One write of a comment or one interaction, whatever its answer; and the start of another request
  on the same database.
\<close>

inductive social_step :: "ModerationAlert req \<Rightarrow> ModerationAlert req \<Rightarrow> bool" where
  create: "social_step q (snd (comment_service_Create srv clk pid inp a q))"
| edit: "social_step q (snd (comment_service_Update srv clk i upd a q))"
| delete: "social_step q (snd (comment_service_Delete clk i a q))"
| interact: "social_step q (snd (perform r on clk t u q))"
| next_request: "rq_db q' = rq_db q \<Longrightarrow> social_step q q'"

lemma social_step_counted: "social_step q q' \<Longrightarrow> req_counted q \<Longrightarrow> req_counted q'"
proof (induction rule: social_step.induct)
  case (next_request q' q)
  then show ?case by simp
qed (erule keepsD[OF keeps_counted_ops(1)] keepsD[OF keeps_counted_ops(2)] keepsD[OF keeps_counted_ops(3)]
    keepsD[OF keeps_counted_ops(4)])+

lemma social_steps_counted: "social_step\<^sup>*\<^sup>* q q' \<Longrightarrow> req_counted q \<Longrightarrow> req_counted q'"
  by (induction rule: rtranclp_induct) (auto dest: social_step_counted)

text \<open>
  C36: the counters never drift.  Whatever comments are written, edited, deleted and reviewed and
  whatever is liked, favourited and followed, in any order and with any failures in between, the
  numbers that the triggers keep by differences are those that \<open>danshi_recount_all\<close> counts from
  scratch: running it changes nothing.
\<close>

theorem counters_never_drift:
  assumes "counted (rq_db q)" "social_step\<^sup>*\<^sup>* q q'"
  shows "danshi_recount_all (rq_db q') = rq_db q'"
  using recount_counted social_steps_counted[OF assms(2,1)] by blast

subsection \<open>Witnesses\<close>

definition thread_db :: db where
  "thread_db = empty_db\<lparr>users := [social_user 1, social_user 2], posts := [social_post\<lparr>p_comment_count := 0\<rparr>]\<rparr>"

definition passing_service :: CommentService where
  "passing_service = NewCommentServiceWithCursorSecret sample_lib sample_aead (Some DirectPassContentModerator) ''s''"

definition first_comment :: CreateCommentInput where
  "first_comment = \<lparr>cc_content = ''a'', cc_parent_id = None, cc_reply_to_user_id = None, cc_mentioned = []\<rparr>"

definition thread_req :: "ModerationAlert req" where
  "thread_req = snd (comment_service_Create passing_service (\<lambda>_. 9) 5 first_comment 1 (fresh_req thread_db))"

lemma thread_counted: "counted thread_db"
proof -
  have "exact (pairs r thread_db) (number r thread_db)" for r
    by (cases r) (auto simp: exact_def thread_db_def empty_db_def social_post_def post_like_pairs_def favorite_pairs_def
        comment_like_pairs_def follow_pairs_def post_like_number_def favorite_number_def comment_like_number_def
        follow_number_def count_where_def split: if_splits)
  then show ?thesis
    by (simp add: counted_def relations_exact_def thread_db_def empty_db_def vis_def threads_def visible_in_def)
qed

lemma thread_req_counts: "map p_comment_count (posts (rq_db thread_req)) = [1]"
  by code_simp

theorem counters_never_drift_witness:
  "danshi_recount_all (rq_db thread_req) = rq_db thread_req \<and> map p_comment_count (posts (rq_db thread_req)) = [1]"
proof
  have "social_step\<^sup>*\<^sup>* (fresh_req thread_db) thread_req"
    unfolding thread_req_def by (intro r_into_rtranclp social_step.create)
  then show "danshi_recount_all (rq_db thread_req) = rq_db thread_req"
    by (intro counters_never_drift[of "fresh_req thread_db"]) (simp_all add: thread_counted)
qed (rule thread_req_counts)

end
