(* ===== verification/Comment_Review.thy ===== *)
theory Comment_Review
  imports Comment_Effects
begin

section \<open>Reviewed before shown\<close>

text \<open>
  What is in the database after a comment was written or edited with success: the text, the
  verdict of the machine on exactly this text and its record, the version, and the notices.
\<close>

subsection \<open>What single statements write\<close>

text \<open>A comment without the numbers and times, which the triggers may change at any write.\<close>

type_synonym comment_core = "row_id \<times> row_id \<times> row_id \<times> row_id \<times> string \<times> int \<times> ModerationStatus \<times> bool"

definition core :: "comment \<Rightarrow> comment_core" where
  "core c = (cm_id c, cm_author_id c, cm_post_id c, cm_reply_to_user_id c, cm_content c, cm_current_revision c,
     cm_moderation c, cm_deleted_at c = None)"

definition cores :: "db \<Rightarrow> comment_core list" where
  "cores s = map core (comments s)"

text \<open>The other tables that a write reaches, apart from the mentions.\<close>

definition papers :: "db \<Rightarrow> moderation_record list \<times> comment_history list \<times> notification list" where
  "papers s = (moderation_records s, comment_histories s, notifications s)"

lemma papers_sync [simp]: "papers (add_comment_count i d s) = papers s" "papers (add_reply_count i d s) = papers s"
  "cores (add_comment_count i d s) = cores s" "cores (add_reply_count i d s) = cores s"
  by (auto simp: papers_def cores_def core_def add_comment_count_def add_reply_count_def upd_where_def)

lemma sync_papers [simp]: "papers (sync_comment_counts old c s) = papers s" "cores (sync_comment_counts old c s) = cores s"
  by (simp_all add: sync_comment_counts_def Let_def split: option.split)

lemma papers_blind [simp]:
  "papers (s\<lparr>db_stmts := n\<rparr>) = papers s" "cores (s\<lparr>db_stmts := n\<rparr>) = cores s"
  "papers (s\<lparr>comments := cs\<rparr>) = papers s" "papers (s\<lparr>comment_mentions := ms\<rparr>) = papers s"
  "cores (s\<lparr>comment_mentions := ms\<rparr>) = cores s" "cores (s\<lparr>moderation_records := rs\<rparr>) = cores s"
  "cores (s\<lparr>comment_histories := hs\<rparr>) = cores s" "cores (s\<lparr>notifications := ns\<rparr>) = cores s"
  "cores (s\<lparr>comments := cs\<rparr>) = map core cs"
  by (simp_all add: papers_def cores_def)

definition same_papers :: "db \<Rightarrow> db \<Rightarrow> bool" where
  "same_papers s s' \<longleftrightarrow> cores s' = cores s \<and> papers s' = papers s"

lemma same_papers_refl [simp]: "same_papers s s"
  by (simp add: same_papers_def)

lemma same_papers_trans: "same_papers a b \<Longrightarrow> same_papers b c \<Longrightarrow> same_papers a c"
  by (simp add: same_papers_def)

lemma same_papers_tables: "same_tables s s' \<Longrightarrow> same_papers s s'"
  by (auto simp: same_papers_def papers_def cores_def same_tables_iff)

lemma reads_papers: "reads q q' \<Longrightarrow> same_papers (rq_db q) (rq_db q')"
  by (simp add: reads_def same_papers_tables)

lemma Create_papers:
  assumes "comment_Create c s = (Inr i, s')" "\<not> comment_active c"
  shows "i = next_id cm_id (comments s)" "cores s' = cores s @ [core (c\<lparr>cm_id := i\<rparr>)]" "papers s' = papers s"
    "\<And>d. d \<in> set (comments s) \<Longrightarrow> cm_id d \<noteq> i"
proof -
  have s': "i = next_id cm_id (comments s) \<and> s' = sync_comment_counts None (c\<lparr>cm_id := i, cm_like_count := 0, cm_reply_count := 0\<rparr>)
      (s\<lparr>db_stmts := Suc (db_stmts s), comments := comments s @ [c\<lparr>cm_id := i, cm_like_count := 0, cm_reply_count := 0\<rparr>]\<rparr>)"
    using assms(1) by (auto simp: comment_Create_def stmt_run Let_def split: if_splits)
  then show "i = next_id cm_id (comments s)" "cores s' = cores s @ [core (c\<lparr>cm_id := i\<rparr>)]" "papers s' = papers s"
    by (simp_all add: core_def cores_def[of s])
  show "cm_id d \<noteq> i" if "d \<in> set (comments s)" for d
    using next_id_fresh[of d "comments s" cm_id] that s' by auto
qed

lemma update_papers:
  assumes "update_comment p i f s = (Inr u, s')"
  shows "cores s' = map core (upd_where (\<lambda>c. cm_id c = i \<and> p c) f (comments s))" "papers s' = papers s"
  using assms by (auto simp: update_comment_def stmt_run split: if_splits option.splits)

text \<open>The statements on one comment, on its core.\<close>

definition with_text :: "string \<Rightarrow> int \<Rightarrow> comment_core \<Rightarrow> comment_core" where
  "with_text t r = (\<lambda>(i, a, p, u, _, _, m, d). (i, a, p, u, t, r, m, d))"

definition with_verdict :: "ModerationStatus \<Rightarrow> comment_core \<Rightarrow> comment_core" where
  "with_verdict m = (\<lambda>(i, a, p, u, t, r, _, _). (i, a, p, u, t, r, m, m \<noteq> ModBlock))"

lemma UpdateContent_papers:
  "comment_UpdateContent i t r now s = (Inr u, s') \<Longrightarrow>
     cores s' = upd_where (\<lambda>c. fst c = i) (with_text t r) (cores s) \<and> papers s' = papers s"
  "comment_ApplyModeration i m now s = (Inr u, s') \<Longrightarrow>
     cores s' = upd_where (\<lambda>c. fst c = i) (with_verdict m) (cores s) \<and> papers s' = papers s"
  unfolding comment_UpdateContent_def comment_ApplyModeration_def
  by (frule update_papers(1), drule update_papers(2), auto simp: cores_def[of s] upd_where_def core_def with_text_def with_verdict_def)+

lemma mentions_papers: "ReplaceMentions i us s = (Inr u, s') \<Longrightarrow> same_papers s s'"
  by (auto simp: ReplaceMentions_def insert_mentions_def seq_def bind_Inr_iff ret_def stmt_run execute_run Let_def same_papers_def
      split: if_splits)

lemma history_papers:
  "comment_CreateHistory h s = (Inr u, s') \<Longrightarrow> cores s' = cores s \<and> moderation_records s' = moderation_records s \<and>
     comment_histories s' = comment_histories s @ [h\<lparr>chs_id := next_id chs_id (comment_histories s)\<rparr>] \<and>
     notifications s' = notifications s"
  by (auto simp: comment_CreateHistory_def stmt_run split: if_splits)

lemma record_papers:
  "user_CreateModerationRecord r s = (Inr u, s') \<Longrightarrow> cores s' = cores s \<and>
     moderation_records s' = moderation_records s @ [r\<lparr>mr_id := next_id mr_id (moderation_records s)\<rparr>] \<and>
     comment_histories s' = comment_histories s \<and> notifications s' = notifications s"
  by (auto simp: user_CreateModerationRecord_def CreateManualRecord_def bind_Inr_iff ret_def stmt_run insert_record_def
      split: if_splits)

text \<open>A notice before the server fills in its number and times.\<close>

definition draft :: "notification \<Rightarrow> notification" where
  "draft n = n\<lparr>nt_id := 0, nt_created_at := 0, nt_updated_at := 0\<rparr>"

lemma insert_notifications_rows:
  "insert_notifications ns now s = Inr s' \<Longrightarrow>
   \<exists>rows. s' = s\<lparr>notifications := notifications s @ rows\<rparr> \<and> map draft rows = map draft ns"
proof (induction ns arbitrary: s)
  case (Cons n ns)
  then obtain s1 where s1: "insert_notification n now s = Inr s1" "insert_notifications ns now s1 = Inr s'"
    by (auto split: sum.splits)
  obtain rows where "s' = s1\<lparr>notifications := notifications s1 @ rows\<rparr>" "map draft rows = map draft ns"
    using Cons.IH[OF s1(2)] by blast
  moreover have "draft (n\<lparr>nt_id := i, nt_created_at := now, nt_updated_at := now\<rparr>) = draft n" for i by (simp add: draft_def)
  ultimately show ?case
    using insert_notification_Inr[OF s1(1)] by (intro exI[of _ "n\<lparr>nt_id := next_id nt_id (notifications s), nt_created_at := now, nt_updated_at := now\<rparr> # rows"]) simp
next
  case Nil
  then show ?case by (intro exI[of _ "[]"]) simp
qed

lemma notices_papers:
  "CreateNotifications ns now s = (Inr u, s') \<Longrightarrow> cores s' = cores s \<and> moderation_records s' = moderation_records s \<and>
     comment_histories s' = comment_histories s \<and>
     (\<exists>rows. notifications s' = notifications s @ rows \<and> map draft rows = map draft ns)"
  by (auto simp: CreateNotifications_def ret_def stmt_run dest!: insert_notifications_rows split: if_splits sum.splits)

subsection \<open>The steps of a request\<close>

lemma call_papers:
  "db_call h (comment_UpdateContent i t r now) q = (Inr u, q') \<Longrightarrow>
     cores (rq_db q') = upd_where (\<lambda>c. fst c = i) (with_text t r) (cores (rq_db q)) \<and> papers (rq_db q') = papers (rq_db q)"
  "db_call h (ReplaceMentions i us) q = (Inr u, q') \<Longrightarrow> same_papers (rq_db q) (rq_db q')"
  by (auto simp: db_call_Inr_iff dest!: UpdateContent_papers mentions_papers)

lemma Alert_db: "Alert al q = (Inr u, q') \<Longrightarrow> rq_db q' = rq_db q"
  using Alert_Inr by blast

lemma normalizeCommentPayload_Inr:
  assumes "normalizeCommentPayload raw ids q = (Inr (content, mentions), q')"
  shows "reads q q' \<and> content = TrimSpace raw \<and> content \<noteq> [] \<and> RuneCount content \<le> maxCommentContentRunes \<and>
    mentions = uniqueIDs ids"
  using assms
  by (auto simp: normalizeCommentPayload_def Let_def fail_def ret_def bind_Inr_iff ActiveUsers_def query_run reads_def
      db_call_Inr_iff same_tables_def split: if_splits)

lemma moderateComment_Inr:
  assumes "moderateComment srv clk i r content q = (Inr st, q')"
  shows "\<exists>result. csv_moderator srv \<lparr>mq_target = TargetComment, mq_field = None, mq_text = content\<rparr> = Inr result \<and>
    st = status_of_verdict (ms_verdict result) \<and>
    cores (rq_db q') = upd_where (\<lambda>c. fst c = i) (with_verdict st) (cores (rq_db q)) \<and>
    moderation_records (rq_db q') = moderation_records (rq_db q) @ [(moderationRecordForComment i r result (clk 1))
      \<lparr>mr_id := next_id mr_id (moderation_records (rq_db q))\<rparr>] \<and>
    comment_histories (rq_db q') = comment_histories (rq_db q) \<and> notifications (rq_db q') = notifications (rq_db q)"
proof -
  obtain result q1 q2 u where 1: "csv_moderator srv \<lparr>mq_target = TargetComment, mq_field = None, mq_text = content\<rparr> = Inr result"
    "db_call internal_of (user_CreateModerationRecord (moderationRecordForComment i r result (clk 1))) q = (Inr u, q1)"
    "verdict_alert TargetComment i result q1 = (Inr u, q2)"
    "db_call commentRepositoryError (comment_ApplyModeration i (status_of_verdict (ms_verdict result)) (clk 2)) q2 = (Inr u, q')"
    "st = status_of_verdict (ms_verdict result)"
    using assms by (auto simp: moderateComment_def bind_Inr_iff seq_def ret_def lift_result_def)
  have "rq_db q2 = rq_db q1" using 1(3) by (auto simp: verdict_alert_def ret_def split: if_splits dest!: Alert_db)
  then have 4: "comment_ApplyModeration i st (clk 2) (rq_db q1) = (Inr u, rq_db q')" using 1(4,5) by (auto simp: db_call_Inr_iff)
  have "user_CreateModerationRecord (moderationRecordForComment i r result (clk 1)) (rq_db q) = (Inr u, rq_db q1)"
    using 1(2) by (auto simp: db_call_Inr_iff)
  from record_papers[OF this] UpdateContent_papers(2)[OF 4] 1(1,5) show ?thesis by (auto simp: papers_def)
qed

lemma resolveCommentParent_Inr:
  assumes "resolveCommentParent pid author inp q = (Inr (parent, root, u), q')"
  shows "reads q q' \<and> (case parent of None \<Rightarrow> cc_parent_id inp = None \<and> u = author
    | Some p \<Rightarrow> cc_parent_id inp = Some (cm_id p) \<and> u = cm_author_id p \<and> p \<in> set (comments (rq_db q)) \<and> comment_active p \<and>
        cm_post_id p = pid)"
proof (cases "cc_parent_id inp")
  case None
  with assms show ?thesis by (auto simp: resolveCommentParent_def bind_Inr_iff seq_def ret_def)
next
  case (Some i)
  with assms show ?thesis
    by (auto simp: resolveCommentParent_def bind_Inr_iff seq_def ret_def fail_def comment_LockByID_def comment_FindByID_def
        comment_active_def dest!: query_first_call_Inr first_by_key split: if_splits option.splits intro: reads_trans)
qed

lemma same_tables_blind: "stmt_blind (same_tables s)"
  by (auto simp: stmt_blind_def same_tables_def)

lemma LoadRelations_same: "keeps (same_tables s) (LoadRelations cs u)"
  unfolding LoadRelations_def loadCommentMentions_def loadCommentUsers_def loadCommentRevisions_def loadCommentLikes_def
    loadCommentFollows_def
  by (auto simp: Let_def intro!: keeps_bind keeps_query same_tables_blind split: prod.split)

lemma LoadRelations_reads: "db_call h (LoadRelations cs u) q = (Inr r, q') \<Longrightarrow> reads q q'"
  using keepsD[OF LoadRelations_same[of "rq_db q" cs u], of "rq_db q"]
  by (auto simp: db_call_Inr_iff reads_def)

lemma commentMutationResult_Inr:
  assumes "commentMutationResult i author u q = (Inr item, q')"
  shows "reads q q' \<and> (\<exists>c\<in>set (comments (rq_db q)). cm_id c = i \<and> it_id item = i \<and> it_content item = cm_content c \<and>
    it_moderation item = cm_moderation c)"
  using assms
  by (auto simp: commentMutationResult_def bind_Inr_iff ret_def comment_FindByID_def buildCommentItem_def
      dest!: query_first_call_Inr first_by_key LoadRelations_reads intro: reads_trans)

lemma draft_recipients: "map draft ns = map draft ms \<Longrightarrow>
   map nt_recipient_id ns = map nt_recipient_id ms \<and> map nt_sender_id ns = map nt_sender_id ms"
proof -
  assume d: "map draft ns = map draft ms"
  have "map nt_recipient_id (map draft ns) = map nt_recipient_id (map draft ms)"
    "map nt_sender_id (map draft ns) = map nt_sender_id (map draft ms)" by (simp_all only: d)
  then show ?thesis by (simp add: o_def draft_def)
qed

lemma recipients_of_comment:
  "map nt_recipient_id (createCommentNotifications c parent author ids) =
     filter (\<lambda>v. v \<noteq> cm_author_id c) ((case parent of None \<Rightarrow> author | Some p \<Rightarrow> cm_author_id p) # ids)"
  "\<forall>n\<in>set (createCommentNotifications c parent author ids). nt_sender_id n = cm_author_id c"
  "map nt_recipient_id (mentionNotifications i a t ids) = filter (\<lambda>v. v \<noteq> a) ids"
  "\<forall>n\<in>set (mentionNotifications i a t ids). nt_sender_id n = a"
  by (auto simp: createCommentNotifications_def mentionNotifications_def content_notification_def new_notification_def o_def
      split: option.split)

subsection \<open>A new comment\<close>

lemma notify_if:
  assumes "(if b then db_call h (CreateNotifications ns now) else ret ()) q = (Inr u, q')"
  shows "cores (rq_db q') = cores (rq_db q) \<and> moderation_records (rq_db q') = moderation_records (rq_db q) \<and>
    comment_histories (rq_db q') = comment_histories (rq_db q) \<and>
    (\<exists>rows. notifications (rq_db q') = notifications (rq_db q) @ rows \<and>
       map nt_recipient_id rows = (if b then map nt_recipient_id ns else []) \<and>
       map nt_sender_id rows = (if b then map nt_sender_id ns else []))"
proof (cases b)
  case True
  then have "CreateNotifications ns now (rq_db q) = (Inr u, rq_db q')" using assms by (auto simp: db_call_Inr_iff)
  from notices_papers[OF this] obtain rows where
    "cores (rq_db q') = cores (rq_db q) \<and> moderation_records (rq_db q') = moderation_records (rq_db q) \<and>
      comment_histories (rq_db q') = comment_histories (rq_db q)"
    "notifications (rq_db q') = notifications (rq_db q) @ rows" "map draft rows = map draft ns" by blast
  with True draft_recipients[of rows ns] show ?thesis by simp
next
  case False
  then show ?thesis using assms by (simp add: ret_def)
qed

text \<open>The notices of a write: who gets one, and from whom.\<close>

definition told :: "row_id \<Rightarrow> row_id list \<Rightarrow> db \<Rightarrow> db \<Rightarrow> bool" where
  "told a recipients s s' \<longleftrightarrow> (\<exists>rows. notifications s' = notifications s @ rows \<and>
     map nt_recipient_id rows = filter (\<lambda>v. v \<noteq> a) recipients \<and> (\<forall>n\<in>set rows. nt_sender_id n = a))"

text \<open>Reviewed: the verdict is on this text, it is the status of the row, and it is on record for this version.\<close>

definition reviewed :: "CommentService \<Rightarrow> row_id \<Rightarrow> int \<Rightarrow> string \<Rightarrow> time \<Rightarrow> ModerationStatus \<Rightarrow> db \<Rightarrow> db \<Rightarrow> bool" where
  "reviewed srv i r text now st s s' \<longleftrightarrow> (\<exists>result.
     csv_moderator srv \<lparr>mq_target = TargetComment, mq_field = None, mq_text = text\<rparr> = Inr result \<and>
     st = status_of_verdict (ms_verdict result) \<and>
     moderation_records s' = moderation_records s @ [(moderationRecordForComment i r result now)
       \<lparr>mr_id := next_id mr_id (moderation_records s)\<rparr>])"

definition versioned :: "row_id \<Rightarrow> int \<Rightarrow> row_id \<Rightarrow> string \<Rightarrow> time \<Rightarrow> db \<Rightarrow> db \<Rightarrow> bool" where
  "versioned i r a text now s s' \<longleftrightarrow> comment_histories s' = comment_histories s @
     [\<lparr>chs_id = next_id chs_id (comment_histories s), chs_comment_id = i, chs_revision = r, chs_edited_by = a,
       chs_edited_at = now, chs_content = text\<rparr>]"

lemma senders_told:
  assumes "notifications s' = notifications s @ rows" "map nt_recipient_id rows = map nt_recipient_id ns"
    "map nt_sender_id rows = map nt_sender_id ns" "map nt_recipient_id ns = filter (\<lambda>v. v \<noteq> a) us"
    "\<forall>n\<in>set ns. nt_sender_id n = a"
  shows "told a us s s'"
proof -
  have "set (map nt_sender_id rows) \<subseteq> {a}" using assms(5) unfolding assms(3) by auto
  then show ?thesis unfolding told_def using assms(1,2,4) by auto
qed

text \<open>The end of both operations: the review, the notices and the answer.\<close>

lemma reviewed_tail:
  assumes "moderateComment srv clk i r content q = (Inr st, q1)"
    "(if st = ModPass then db_call h (CreateNotifications ns now) else ret ()) q1 = (Inr z, q2)"
    "commentMutationResult i author a q2 = (Inr item, q')"
    "map nt_recipient_id ns = filter (\<lambda>v. v \<noteq> a) us" "\<forall>n\<in>set ns. nt_sender_id n = a"
  shows "reviewed srv i r content (clk 1) st (rq_db q) (rq_db q')"
    "cores (rq_db q') = upd_where (\<lambda>c. fst c = i) (with_verdict st) (cores (rq_db q))"
    "comment_histories (rq_db q') = comment_histories (rq_db q)"
    "told a (if st = ModPass then us else []) (rq_db q) (rq_db q')"
    "\<exists>c. core c \<in> set (cores (rq_db q')) \<and> cm_id c = i \<and> it_id item = i \<and> it_content item = cm_content c \<and> it_moderation item = cm_moderation c"
proof -
  obtain result where mod: "csv_moderator srv \<lparr>mq_target = TargetComment, mq_field = None, mq_text = content\<rparr> = Inr result"
    "st = status_of_verdict (ms_verdict result)"
    "cores (rq_db q1) = upd_where (\<lambda>c. fst c = i) (with_verdict st) (cores (rq_db q))"
    "moderation_records (rq_db q1) = moderation_records (rq_db q) @ [(moderationRecordForComment i r result (clk 1))
      \<lparr>mr_id := next_id mr_id (moderation_records (rq_db q))\<rparr>]"
    "comment_histories (rq_db q1) = comment_histories (rq_db q)" "notifications (rq_db q1) = notifications (rq_db q)"
    using moderateComment_Inr[OF assms(1)] by blast
  note nt = notify_if[OF assms(2)]
  note res = commentMutationResult_Inr[OF assms(3)]
  have done2: "cores (rq_db q') = cores (rq_db q2)" "papers (rq_db q') = papers (rq_db q2)"
    using res reads_papers[of q2 q'] by (simp_all add: same_papers_def)
  show "reviewed srv i r content (clk 1) st (rq_db q) (rq_db q')"
    using mod(1,2,4) nt done2 by (auto simp: reviewed_def papers_def)
  show "cores (rq_db q') = upd_where (\<lambda>c. fst c = i) (with_verdict st) (cores (rq_db q))"
    using mod(3) nt done2 by simp
  show "comment_histories (rq_db q') = comment_histories (rq_db q)"
    using mod(5) nt done2 by (simp add: papers_def)
  show "\<exists>c. core c \<in> set (cores (rq_db q')) \<and> cm_id c = i \<and> it_id item = i \<and> it_content item = cm_content c \<and> it_moderation item = cm_moderation c"
    using res done2(1) by (auto simp: cores_def)
  obtain rows where rows: "notifications (rq_db q2) = notifications (rq_db q1) @ rows"
    "map nt_recipient_id rows = (if st = ModPass then map nt_recipient_id ns else [])"
    "map nt_sender_id rows = (if st = ModPass then map nt_sender_id ns else [])" using nt by blast
  have "notifications (rq_db q') = notifications (rq_db q) @ rows" using rows(1) mod(6) done2 by (simp add: papers_def)
  then show "told a (if st = ModPass then us else []) (rq_db q) (rq_db q')"
    by (rule senders_told[where ns = "if st = ModPass then ns else []"]) (use rows assms(4,5) in auto)
qed

lemma create_stored:
  assumes "comment_service_Create srv clk pid inp a q = (Inr item, q')"
  obtains content ids author parent root u i q7 st z q8 q9 where
    "content = TrimSpace (cc_content inp)" "content \<noteq> []" "RuneCount content \<le> maxCommentContentRunes"
    "case cc_parent_id inp of None \<Rightarrow> \<exists>p\<in>set (posts (rq_db q)). p_id p = pid \<and> p_author_id p = u
     | Some j \<Rightarrow> \<exists>c\<in>set (comments (rq_db q)). cm_id c = j \<and> cm_author_id c = u \<and> cm_post_id c = pid \<and> comment_active c"
    "(case parent of None \<Rightarrow> author | Some p \<Rightarrow> cm_author_id p) = u" "ids = uniqueIDs (cc_mentioned inp)"
    "i \<notin> cm_id ` set (comments (rq_db q))" "cores (rq_db q7) = cores (rq_db q) @ [(i, a, pid, u, content, 1, ModPending, True)]"
    "moderation_records (rq_db q7) = moderation_records (rq_db q)" "notifications (rq_db q7) = notifications (rq_db q)"
    "versioned i 1 a content (clk 0) (rq_db q) (rq_db q7)" "moderateComment srv clk i 1 content q7 = (Inr st, q8)"
    "(if st = ModPass then db_call internal_of (CreateNotifications (createCommentNotifications
       ((new_comment pid a (cc_parent_id inp) root u content (clk 0))\<lparr>cm_id := i\<rparr>) parent author ids) (clk 3))
      else ret ()) q8 = (Inr z, q9)"
    "commentMutationResult i author a q9 = (Inr item, q')"
proof -
  obtain content ids q1 post q2 q3 parent root u q4 i q5 z q6 q7 st q8 q9 where 1:
    "normalizeCommentPayload (cc_content inp) (cc_mentioned inp) q = (Inr (content, ids), q1)"
    "db_call (ToAPIError BizPostNotFound) (post_LockByID pid True) q1 = (Inr post, q2)"
    "opt_error (ensurePostWritable post) q2 = (Inr z, q3)"
    "resolveCommentParent pid (p_author_id post) inp q3 = (Inr (parent, root, u), q4)"
    "db_call internal_of (comment_Create (new_comment pid a (cc_parent_id inp) root u content (clk 0))) q4 = (Inr i, q5)"
    "db_call internal_of (ReplaceMentions i ids) q5 = (Inr z, q6)"
    "db_call commentHistoryWriteError (comment_CreateHistory \<lparr>chs_id = 0, chs_comment_id = i, chs_revision = 1,
       chs_edited_by = a, chs_edited_at = clk 0, chs_content = content\<rparr>) q6 = (Inr z, q7)"
    "moderateComment srv clk i 1 content q7 = (Inr st, q8)"
    "(if st = ModPass then db_call internal_of (CreateNotifications (createCommentNotifications
       ((new_comment pid a (cc_parent_id inp) root u content (clk 0))\<lparr>cm_id := i\<rparr>) parent (p_author_id post) ids) (clk 3))
      else ret ()) q8 = (Inr z, q9)"
    "commentMutationResult i (p_author_id post) a q9 = (Inr item, q')"
    using assms by (auto simp: comment_service_Create_def Let_def seq_def bind_Inr_iff)
  note norm = normalizeCommentPayload_Inr[OF 1(1)]
  have post: "reads q1 q2" "post \<in> set (posts (rq_db q1))" "p_id post = pid" "q3 = q2"
    using 1(2,3) by (auto simp: post_LockByID_def dest!: query_first_call_Inr first_by_key)
  note par = resolveCommentParent_Inr[OF 1(4)]
  have r4: "reads q q4" using norm post par by (blast intro: reads_trans)
  have before: "posts (rq_db q1) = posts (rq_db q)" "comments (rq_db q3) = comments (rq_db q)" "comments (rq_db q4) = comments (rq_db q)"
    using norm reads_trans[of q q1 q2] r4 post(1,4) by (auto simp: reads_def same_tables_iff)
  have "comment_Create (new_comment pid a (cc_parent_id inp) root u content (clk 0)) (rq_db q4) = (Inr i, rq_db q5)"
    using 1(5) by (auto simp: db_call_Inr_iff)
  note new = Create_papers[OF this new_comment_inactive]
  have s6: "same_papers (rq_db q5) (rq_db q6)" by (rule call_papers(2)[OF 1(6)])
  have "comment_CreateHistory \<lparr>chs_id = 0, chs_comment_id = i, chs_revision = 1, chs_edited_by = a, chs_edited_at = clk 0,
      chs_content = content\<rparr> (rq_db q6) = (Inr z, rq_db q7)" using 1(7) by (auto simp: db_call_Inr_iff)
  note his = history_papers[OF this]
  have p4: "cores (rq_db q4) = cores (rq_db q)" "papers (rq_db q4) = papers (rq_db q)"
    using reads_papers[OF r4] by (simp_all add: same_papers_def)
  have pp: "papers (rq_db q6) = papers (rq_db q)" using new(3) s6 p4 by (simp add: same_papers_def)
  show ?thesis
  proof (rule that[OF _ _ _ _ _ _ _ _ _ _ _ 1(8-10)])
    show "case cc_parent_id inp of None \<Rightarrow> \<exists>p\<in>set (posts (rq_db q)). p_id p = pid \<and> p_author_id p = u
     | Some j \<Rightarrow> \<exists>c\<in>set (comments (rq_db q)). cm_id c = j \<and> cm_author_id c = u \<and> cm_post_id c = pid \<and> comment_active c"
      using par post before by (auto split: option.splits)
    show "(case parent of None \<Rightarrow> p_author_id post | Some p \<Rightarrow> cm_author_id p) = u" using par by (auto split: option.splits)
    show "i \<notin> cm_id ` set (comments (rq_db q))" using new(4) before(3) by auto
    show "cores (rq_db q7) = cores (rq_db q) @ [(i, a, pid, u, content, 1, ModPending, True)]"
      using new(2) s6 his p4 by (simp add: same_papers_def core_def new_comment_def)
    show "versioned i 1 a content (clk 0) (rq_db q) (rq_db q7)" using his pp by (simp add: versioned_def papers_def)
  qed (use norm his pp in \<open>auto simp: papers_def\<close>)
qed

text \<open>
  C37: a new comment is reviewed before it is shown.  When writing a comment succeeds, exactly one
  row was added, under a fresh number, with the trimmed text as version 1; the machine was asked
  about exactly this text, its verdict is the status of the row and of the answer, and the verdict
  is on record for version 1.  The author replied to, or the author of the post, and the mentioned
  users are notified if the text passed, each once and never the writer; otherwise nobody is.
\<close>

theorem comment_create_reviewed:
  assumes "comment_service_Create srv clk pid inp a q = (Inr item, q')"
  shows "\<exists>u st. let i = it_id item; text = TrimSpace (cc_content inp) in
    (case cc_parent_id inp of
       None \<Rightarrow> \<exists>p\<in>set (posts (rq_db q)). p_id p = pid \<and> p_author_id p = u
     | Some j \<Rightarrow> \<exists>c\<in>set (comments (rq_db q)). cm_id c = j \<and> cm_author_id c = u \<and> cm_post_id c = pid \<and> comment_active c) \<and>
    i \<notin> cm_id ` set (comments (rq_db q)) \<and>
    cores (rq_db q') = cores (rq_db q) @ [(i, a, pid, u, text, 1, st, st \<noteq> ModBlock)] \<and>
    text \<noteq> [] \<and> RuneCount text \<le> maxCommentContentRunes \<and>
    reviewed srv i 1 text (clk 1) st (rq_db q) (rq_db q') \<and> versioned i 1 a text (clk 0) (rq_db q) (rq_db q') \<and>
    told a (if st = ModPass then u # uniqueIDs (cc_mentioned inp) else []) (rq_db q) (rq_db q') \<and>
    it_content item = text \<and> it_moderation item = st"
proof -
  obtain content ids author parent root u i q7 st z q8 q9 where
    1: "content = TrimSpace (cc_content inp)" "content \<noteq> []" "RuneCount content \<le> maxCommentContentRunes"
    and whom: "case cc_parent_id inp of None \<Rightarrow> \<exists>p\<in>set (posts (rq_db q)). p_id p = pid \<and> p_author_id p = u
     | Some j \<Rightarrow> \<exists>c\<in>set (comments (rq_db q)). cm_id c = j \<and> cm_author_id c = u \<and> cm_post_id c = pid \<and> comment_active c"
    and author: "(case parent of None \<Rightarrow> author | Some p \<Rightarrow> cm_author_id p) = u" "ids = uniqueIDs (cc_mentioned inp)"
    and fresh: "i \<notin> cm_id ` set (comments (rq_db q))"
    and row7: "cores (rq_db q7) = cores (rq_db q) @ [(i, a, pid, u, content, 1, ModPending, True)]"
    and same: "moderation_records (rq_db q7) = moderation_records (rq_db q)" "notifications (rq_db q7) = notifications (rq_db q)"
    and vers: "versioned i 1 a content (clk 0) (rq_db q) (rq_db q7)"
    and run: "moderateComment srv clk i 1 content q7 = (Inr st, q8)"
      "(if st = ModPass then db_call internal_of (CreateNotifications (createCommentNotifications
         ((new_comment pid a (cc_parent_id inp) root u content (clk 0))\<lparr>cm_id := i\<rparr>) parent author ids) (clk 3))
        else ret ()) q8 = (Inr z, q9)"
      "commentMutationResult i author a q9 = (Inr item, q')"
    by (rule create_stored[OF assms])
  let ?c = "(new_comment pid a (cc_parent_id inp) root u content (clk 0))\<lparr>cm_id := i\<rparr>"
  have "map nt_recipient_id (createCommentNotifications ?c parent author ids) =
        filter (\<lambda>v. v \<noteq> a) (u # uniqueIDs (cc_mentioned inp))"
      "\<forall>n\<in>set (createCommentNotifications ?c parent author ids). nt_sender_id n = a"
    using recipients_of_comment(1,2)[of ?c parent author ids] unfolding author by (simp_all add: new_comment_def)
  note tail = reviewed_tail[OF run this]
  have "fst c \<noteq> i" if "c \<in> set (cores (rq_db q))" for c using that fresh by (auto simp: cores_def core_def)
  then have row: "cores (rq_db q') = cores (rq_db q) @ [(i, a, pid, u, content, 1, st, st \<noteq> ModBlock)]"
    unfolding tail(2) row7 by (simp add: upd_where_simps upd_where_unmatched with_verdict_def)
  obtain c where c: "core c \<in> set (cores (rq_db q'))" "cm_id c = i" "it_id item = i" "it_content item = cm_content c"
    "it_moderation item = cm_moderation c" using tail(5) by blast
  then have item: "it_content item = content" "it_moderation item = st"
    using fresh unfolding row by (auto simp: cores_def core_def)
  have done1: "reviewed srv i 1 content (clk 1) st (rq_db q) (rq_db q')" "versioned i 1 a content (clk 0) (rq_db q) (rq_db q')"
    "told a (if st = ModPass then u # uniqueIDs (cc_mentioned inp) else []) (rq_db q) (rq_db q')"
    using tail(1,3,4) vers same by (simp_all add: reviewed_def versioned_def told_def)
  show ?thesis
    unfolding Let_def c(3) 1(1)[symmetric] by (intro exI[of _ u] exI[of _ st] conjI whom fresh row done1 item 1(2,3))
qed

subsection \<open>An edited comment\<close>

lemma edit_stored:
  assumes "comment_service_Update srv clk i upd a q = (Inr item, q')"
  obtains content news author r q8 st z q9 q10 where
    "content = TrimSpace (uc_content upd)" "content \<noteq> []" "RuneCount content \<le> maxCommentContentRunes"
    "\<exists>c\<in>set (comments (rq_db q)). cm_id c = i \<and> cm_author_id c = a \<and>
       (cm_deleted_at c = None \<or> cm_deleted_reason c = Some DeletedByModeration)"
    "news = filter (\<lambda>v. \<lparr>cmm_comment_id = i, cmm_user_id = v\<rparr> \<notin> set (comment_mentions (rq_db q))) (uniqueIDs (uc_mentioned upd))"
    "\<forall>h\<in>set (comment_histories (rq_db q)). chs_comment_id h = i \<longrightarrow> chs_revision h < r" "1 \<le> r"
    "cores (rq_db q8) = upd_where (\<lambda>c. fst c = i) (with_text content r) (cores (rq_db q))"
    "moderation_records (rq_db q8) = moderation_records (rq_db q)" "notifications (rq_db q8) = notifications (rq_db q)"
    "versioned i r a content (clk 0) (rq_db q) (rq_db q8)" "moderateComment srv clk i r content q8 = (Inr st, q9)"
    "(if st = ModPass then db_call internal_of (CreateNotifications (mentionNotifications i a content news) (clk 3))
      else ret ()) q9 = (Inr z, q10)"
    "commentMutationResult i author a q10 = (Inr item, q')"
proof -
  obtain content ids q1 c q2 post q3 old q4 r q5 z q6 q7 q8 st q9 q10 where 1:
    "normalizeCommentPayload (uc_content upd) (uc_mentioned upd) q = (Inr (content, ids), q1)"
    "db_call commentRepositoryError (comment_LockByID i) q1 = (Inr c, q2)"
    "cm_author_id c = a" "cm_deleted_at c = None \<or> cm_deleted_reason c = Some DeletedByModeration"
    "db_call (ToAPIError BizPostNotFound) (post_FindByID (cm_post_id c) True) q2 = (Inr post, q3)"
    "db_call internal_of (MentionIDs i) q3 = (Inr old, q4)"
    "db_call internal_of (comment_NextHistoryRevision i) q4 = (Inr r, q5)"
    "db_call commentRepositoryError (comment_UpdateContent i content r (clk 0)) q5 = (Inr z, q6)"
    "db_call internal_of (ReplaceMentions i ids) q6 = (Inr z, q7)"
    "db_call commentHistoryWriteError (comment_CreateHistory \<lparr>chs_id = 0, chs_comment_id = i, chs_revision = r,
       chs_edited_by = a, chs_edited_at = clk 0, chs_content = content\<rparr>) q7 = (Inr z, q8)"
    "moderateComment srv clk i r content q8 = (Inr st, q9)"
    "(if st = ModPass then db_call internal_of (CreateNotifications (mentionNotifications i a content (differenceIDs ids old)) (clk 3))
      else ret ()) q9 = (Inr z, q10)"
    "commentMutationResult i (p_author_id post) a q10 = (Inr item, q')"
    using assms by (auto simp: comment_service_Update_def Let_def seq_def bind_Inr_iff fail_def split: if_splits)
  note norm = normalizeCommentPayload_Inr[OF 1(1)]
  have lock: "reads q1 q2" "c \<in> set (comments (rq_db q1))" "cm_id c = i"
    using 1(2) by (auto simp: comment_LockByID_def dest!: query_first_call_Inr first_by_key)
  have mids: "reads q3 q4" "set old = cmm_user_id ` {m \<in> set (comment_mentions (rq_db q3)). cmm_comment_id m = i}"
    "reads q4 q5" "r = fold max (revisions_of i (rq_db q4)) 0 + 1"
    using 1(6,7) by (auto simp: MentionIDs_def comment_NextHistoryRevision_def query_run db_call_Inr_iff reads_def same_tables_def
        revisions_of_def split: if_splits)
  have "reads q2 q3" using 1(5) by (auto simp: post_FindByID_def dest!: query_first_call_Inr)
  then have r: "reads q q1" "reads q q3" "reads q q4" "reads q q5" using norm lock(1) mids(1,3) by (blast intro: reads_trans)+
  have before: "comments (rq_db q1) = comments (rq_db q)" "comment_mentions (rq_db q3) = comment_mentions (rq_db q)"
    "comment_histories (rq_db q4) = comment_histories (rq_db q)"
    using r by (auto simp: reads_def same_tables_iff)
  note upd = call_papers(1)[OF 1(8)]
  have s7: "same_papers (rq_db q6) (rq_db q7)" by (rule call_papers(2)[OF 1(9)])
  have "comment_CreateHistory \<lparr>chs_id = 0, chs_comment_id = i, chs_revision = r, chs_edited_by = a, chs_edited_at = clk 0,
      chs_content = content\<rparr> (rq_db q7) = (Inr z, rq_db q8)" using 1(10) by (auto simp: db_call_Inr_iff)
  note his = history_papers[OF this]
  have news: "differenceIDs ids old = filter (\<lambda>v. \<lparr>cmm_comment_id = i, cmm_user_id = v\<rparr> \<notin> set (comment_mentions (rq_db q)))
      (uniqueIDs (uc_mentioned upd))"
  proof -
    have "v \<in> set old \<longleftrightarrow> \<lparr>cmm_comment_id = i, cmm_user_id = v\<rparr> \<in> set (comment_mentions (rq_db q))" for v
    proof -
      have eta: "\<lparr>cmm_comment_id = cmm_comment_id m, cmm_user_id = cmm_user_id m\<rparr> = m" for m :: comment_mention by (cases m) simp
      show ?thesis
        unfolding mids(2) before(2)[symmetric] by (auto simp: eta intro!: image_eqI[where x = "\<lparr>cmm_comment_id = i, cmm_user_id = v\<rparr>"])
    qed
    then show ?thesis using norm by (simp add: differenceIDs_def)
  qed
  have p5: "cores (rq_db q5) = cores (rq_db q)" "papers (rq_db q5) = papers (rq_db q)"
    using reads_papers[OF r(4)] by (simp_all add: same_papers_def)
  have pp: "papers (rq_db q7) = papers (rq_db q)" using upd s7 p5 by (simp add: same_papers_def)
  show ?thesis
  proof (rule that[OF _ _ _ _ news _ _ _ _ _ _ 1(11-13)])
    show "\<exists>c\<in>set (comments (rq_db q)). cm_id c = i \<and> cm_author_id c = a \<and>
       (cm_deleted_at c = None \<or> cm_deleted_reason c = Some DeletedByModeration)"
      using 1(3,4) lock(2,3) before(1) by auto
    show "\<forall>h\<in>set (comment_histories (rq_db q)). chs_comment_id h = i \<longrightarrow> chs_revision h < r" "1 \<le> r"
      using fold_max_int(1)[of _ "revisions_of i (rq_db q4)" 0] fold_max_int(2)[of 0 "revisions_of i (rq_db q4)"]
      unfolding mids(4) by (auto simp: revisions_of_def before(3))
    show "cores (rq_db q8) = upd_where (\<lambda>c. fst c = i) (with_text content r) (cores (rq_db q))"
      using his s7 upd p5 by (simp add: same_papers_def)
    show "versioned i r a content (clk 0) (rq_db q) (rq_db q8)" using his pp by (simp add: versioned_def papers_def)
  qed (use norm his pp in \<open>auto simp: papers_def\<close>)
qed

text \<open>
  C38: an edit is reviewed again before it is shown.  When editing succeeds, the caller wrote the
  comment and it was not deleted by hand; its row alone changed, to the trimmed text under a version
  above all earlier ones, with the verdict of the machine on exactly this text, which is on record for
  this version; the earlier versions stay.  Newly mentioned users are notified if the text passed,
  never the writer and never those mentioned before.
\<close>

theorem comment_edit_reviewed:
  assumes "comment_service_Update srv clk i upd a q = (Inr item, q')"
  shows "\<exists>r st. let text = TrimSpace (uc_content upd) in
    (\<exists>c\<in>set (comments (rq_db q)). cm_id c = i \<and> cm_author_id c = a \<and>
       (cm_deleted_at c = None \<or> cm_deleted_reason c = Some DeletedByModeration)) \<and>
    (\<forall>h\<in>set (comment_histories (rq_db q)). chs_comment_id h = i \<longrightarrow> chs_revision h < r) \<and> 1 \<le> r \<and>
    cores (rq_db q') = upd_where (\<lambda>c. fst c = i) (\<lambda>(j, b, p, u, _). (j, b, p, u, text, r, st, st \<noteq> ModBlock)) (cores (rq_db q)) \<and>
    text \<noteq> [] \<and> RuneCount text \<le> maxCommentContentRunes \<and>
    reviewed srv i r text (clk 1) st (rq_db q) (rq_db q') \<and> versioned i r a text (clk 0) (rq_db q) (rq_db q') \<and>
    told a (if st = ModPass then filter (\<lambda>v. \<lparr>cmm_comment_id = i, cmm_user_id = v\<rparr> \<notin> set (comment_mentions (rq_db q)))
       (uniqueIDs (uc_mentioned upd)) else []) (rq_db q) (rq_db q') \<and>
    it_id item = i \<and> it_content item = text \<and> it_moderation item = st"
proof -
  obtain content news author r q8 st z q9 q10 where
    1: "content = TrimSpace (uc_content upd)" "content \<noteq> []" "RuneCount content \<le> maxCommentContentRunes"
    and own: "\<exists>c\<in>set (comments (rq_db q)). cm_id c = i \<and> cm_author_id c = a \<and>
       (cm_deleted_at c = None \<or> cm_deleted_reason c = Some DeletedByModeration)"
    and news: "news = filter (\<lambda>v. \<lparr>cmm_comment_id = i, cmm_user_id = v\<rparr> \<notin> set (comment_mentions (rq_db q))) (uniqueIDs (uc_mentioned upd))"
    and above: "\<forall>h\<in>set (comment_histories (rq_db q)). chs_comment_id h = i \<longrightarrow> chs_revision h < r" "1 \<le> r"
    and row8: "cores (rq_db q8) = upd_where (\<lambda>c. fst c = i) (with_text content r) (cores (rq_db q))"
    and same: "moderation_records (rq_db q8) = moderation_records (rq_db q)" "notifications (rq_db q8) = notifications (rq_db q)"
    and vers: "versioned i r a content (clk 0) (rq_db q) (rq_db q8)"
    and run: "moderateComment srv clk i r content q8 = (Inr st, q9)"
      "(if st = ModPass then db_call internal_of (CreateNotifications (mentionNotifications i a content news) (clk 3))
        else ret ()) q9 = (Inr z, q10)"
      "commentMutationResult i author a q10 = (Inr item, q')"
    by (rule edit_stored[OF assms])
  note tail = reviewed_tail[OF run recipients_of_comment(3,4)]
  have row: "cores (rq_db q') = upd_where (\<lambda>c. fst c = i) (\<lambda>(j, b, p, u, _). (j, b, p, u, content, r, st, st \<noteq> ModBlock)) (cores (rq_db q))"
    unfolding tail(2) row8 by (auto simp: upd_where_def with_text_def with_verdict_def split: prod.split)
  obtain d where d: "core d \<in> set (cores (rq_db q'))" "cm_id d = i" "it_id item = i" "it_content item = cm_content d"
    "it_moderation item = cm_moderation d" using tail(5) by blast
  have item: "it_content item = content" "it_moderation item = st"
    using d(1,2,4,5) unfolding row by (auto simp: set_upd_where core_def cores_def)
  have done1: "reviewed srv i r content (clk 1) st (rq_db q) (rq_db q')" "versioned i r a content (clk 0) (rq_db q) (rq_db q')"
    using tail(1,3) vers same by (simp_all add: reviewed_def versioned_def)
  have told: "told a (if st = ModPass then news else []) (rq_db q) (rq_db q')" using tail(4) by (simp only: told_def same(2))
  show ?thesis
    unfolding Let_def 1(1)[symmetric]
    by (intro exI[of _ r] exI[of _ st] conjI own above row done1 told[unfolded news] item d(3) 1(2,3))
qed

subsection \<open>Shown to whom\<close>

lemma visibility_in_sql: "commentVisibilityPredicate u c \<longleftrightarrow> commentVisibleToViewer c u"
  by (auto simp: commentVisibilityPredicate_def commentVisibleToViewer_def)

lemma page_after_in: "page_after key after n rows = (out, hasMore) \<Longrightarrow> set out \<subseteq> set rows"
  using page_query.page_rows by metis

lemma pages_visible:
  "db_call h (FindRootPage pid u by params) q = (Inr (rows, b), q') \<Longrightarrow> reads q q' \<and>
     (\<forall>c\<in>set rows. c \<in> set (comments (rq_db q)) \<and> commentVisibleToViewer c u \<and> cm_post_id c = pid)"
  "db_call h (FindReplyPreviews ids u n) q = (Inr rows', q') \<Longrightarrow> reads q q' \<and>
     (\<forall>c\<in>set rows'. c \<in> set (comments (rq_db q)) \<and> commentVisibleToViewer c u)"
  "db_call h (FindReplyPage i u params) q = (Inr (rows, b), q') \<Longrightarrow> reads q q' \<and>
     (\<forall>c\<in>set rows. c \<in> set (comments (rq_db q)) \<and> commentVisibleToViewer c u \<and> cm_root_id c = Some i)"
  by (auto simp: FindRootPage_def FindReplyPreviews_def FindReplyPage_def Let_def fail_def ret_def query_run db_call_Inr_iff
      reads_def same_tables_def visible_comments_def visibility_in_sql dest!: page_after_in in_set_takeD split: if_splits)

lemma readablePost_reads: "readablePost pid u q = (Inr p, q') \<Longrightarrow> reads q q'"
  by (auto simp: readablePost_def post_FindByID_def bind_Inr_iff seq_def ret_def dest!: query_first_call_Inr)

text \<open>An item shows a row.\<close>

definition shows_row :: "CommentItem \<Rightarrow> comment \<Rightarrow> bool" where
  "shows_row x c \<longleftrightarrow> it_id x = cm_id c \<and> it_content x = cm_content c \<and> it_moderation x = cm_moderation c \<and>
     av_id (it_author x) = cm_author_id c"

lemma buildCommentItem_shows: "shows_row (buildCommentItem c pa isRoot rel replies) c"
  by (simp add: shows_row_def buildCommentItem_def buildCommentAuthor_def split: option.split)

lemma it_replies_build [simp]: "it_replies (buildCommentItem c pa isRoot rel replies) = replies"
  by (simp add: buildCommentItem_def)

lemma buildCommentList_items:
  assumes "buildCommentList roots previews pa u q = (Inr items, q')" "x \<in> set items" "y = x \<or> y \<in> set (it_replies x)"
  shows "\<exists>c\<in>set (roots @ previews). shows_row y c"
  using assms buildCommentItem_shows by (auto simp: buildCommentList_def bind_Inr_iff ret_def) blast+

inductive comment_shown :: "CommentService \<Rightarrow> row_id \<Rightarrow> 'fx req \<Rightarrow> CommentItem \<Rightarrow> bool" where
  listed: "comment_List srv random pid u by rq q = (Inr (items, meta), q') \<Longrightarrow> x \<in> set items \<Longrightarrow> comment_shown srv u q x"
| preview: "comment_List srv random pid u by rq q = (Inr (items, meta), q') \<Longrightarrow> x \<in> set items \<Longrightarrow> y \<in> set (it_replies x) \<Longrightarrow>
     comment_shown srv u q y"
| reply: "comment_Replies srv random i u rq q = (Inr (items, meta), q') \<Longrightarrow> x \<in> set items \<Longrightarrow> comment_shown srv u q x"

lemma comment_List_items:
  assumes "comment_List srv random pid u by rq q = (Inr (items, meta), q')" "x \<in> set items" "y = x \<or> y \<in> set (it_replies x)"
  shows "\<exists>c\<in>set (comments (rq_db q)). shows_row y c \<and> commentVisibleToViewer c u"
proof -
  obtain post q1 by' codec params roots b q2 previews q3 q4 where 1: "readablePost pid u q = (Inr post, q1)"
    "db_call internal_of (FindRootPage pid u by' params) q1 = (Inr (roots, b), q2)"
    "db_call internal_of (FindReplyPreviews (map cm_id roots) u commentReplyPreviewLimit) q2 = (Inr previews, q3)"
    "buildCommentList roots previews (p_author_id post) u q3 = (Inr items, q4)"
    using assms(1) by (auto simp: comment_List_def Let_def bind_Inr_iff lift_result_Inr fail_def ret_def split: if_splits prod.splits)
  have "comments (rq_db q1) = comments (rq_db q)" "comments (rq_db q2) = comments (rq_db q1)"
    using readablePost_reads[OF 1(1)] pages_visible(1)[OF 1(2)] by (auto simp: reads_def same_tables_iff)
  then show ?thesis
    using buildCommentList_items[OF 1(4) assms(2,3)] pages_visible(1)[OF 1(2)] pages_visible(2)[OF 1(3)] by auto
qed

lemma comment_Replies_items:
  assumes "comment_Replies srv random i u rq q = (Inr (items, meta), q')" "x \<in> set items"
  shows "\<exists>c\<in>set (comments (rq_db q)). shows_row x c \<and> commentVisibleToViewer c u"
proof -
  obtain root q1 post q2 params rows b q3 rel where 1: "db_call commentRepositoryError (comment_FindByID i) q = (Inr root, q1)"
    "readablePost (cm_post_id root) u q1 = (Inr post, q2)"
    "db_call internal_of (FindReplyPage (cm_id root) u params) q2 = (Inr (rows, b), q3)"
    "items = map (\<lambda>c. buildCommentItem c (p_author_id post) False rel []) rows"
    using assms(1) by (auto simp: comment_Replies_def bind_Inr_iff lift_result_Inr fail_def ret_def simp del: map_eq_conv
        split: if_splits prod.splits)
  have "comments (rq_db q1) = comments (rq_db q)" "comments (rq_db q2) = comments (rq_db q1)"
    using readablePost_reads[OF 1(2)] 1(1) by (auto simp: comment_FindByID_def reads_def same_tables_iff dest!: query_first_call_Inr)
  then show ?thesis
    using assms(2) pages_visible(3)[OF 1(3)] buildCommentItem_shows unfolding 1(4) by fastforce
qed

text \<open>
  C39: what a reader is shown.  Every comment of a list, every preview of a reply under it and every
  reply of a thread is a row of the table, and either public - reviewed and not deleted - or written by
  the reader and waiting for review or rejected by it.  Nobody is shown another's unreviewed or deleted comment.
\<close>

theorem comments_shown_visible:
  assumes "comment_shown srv u q x"
  shows "\<exists>c\<in>set (comments (rq_db q)). shows_row x c \<and>
    (comment_active c \<or> cm_author_id c = u \<and> cm_moderation c \<noteq> ModPass \<and>
       (cm_deleted_at c = None \<or> cm_deleted_reason c = Some DeletedByModeration))"
proof -
  have "\<exists>c\<in>set (comments (rq_db q)). shows_row x c \<and> commentVisibleToViewer c u"
    using assms by cases (blast dest: comment_List_items comment_Replies_items)+
  then show ?thesis by (auto simp: comment_active_def visibility_in_sql[symmetric] commentVisibilityPredicate_def)
qed

subsection \<open>Witnesses\<close>

abbreviation thread_run :: "(go_error + CommentItem) \<times> ModerationAlert req" where
  "thread_run \<equiv> comment_service_Create passing_service (\<lambda>_. 9) 5 first_comment 1 (fresh_req thread_db)"

lemma passing_verdict: "reviewed passing_service i r text now st s s' \<Longrightarrow> st = ModPass"
  by (auto simp: reviewed_def passing_service_def NewCommentServiceWithCursorSecret_def DirectPassContentModerator_def)

theorem comment_create_reviewed_witness:
  "\<exists>i. cores (rq_db thread_req) = [(i, 1, 5, 2, ''a'', 1, ModPass, True)] \<and>
     map nt_recipient_id (notifications (rq_db thread_req)) = [2]"
proof -
  have "\<not> isl (fst thread_run)" by code_simp
  then obtain item where run: "thread_run = (Inr item, thread_req)" unfolding thread_req_def by (blast dest: Inr_run)
  have inp: "TrimSpace (cc_content first_comment) = ''a''" "cc_parent_id first_comment = None" "uniqueIDs (cc_mentioned first_comment) = []"
    by code_simp+
  have db: "cores thread_db = []" "notifications thread_db = []" "\<And>p. p \<in> set (posts thread_db) \<Longrightarrow> p_author_id p = 2"
    by (simp_all add: thread_db_def empty_db_def cores_def social_post_def)
  have w: "cores (rq_db thread_req) = [(it_id item, 1, 5, 2, ''a'', 1, it_moderation item, it_moderation item \<noteq> ModBlock)] \<and>
      reviewed passing_service (it_id item) 1 ''a'' 9 (it_moderation item) thread_db (rq_db thread_req) \<and>
      told 1 (if it_moderation item = ModPass then [2] else []) thread_db (rq_db thread_req)"
    using comment_create_reviewed[OF run] by (simp add: Let_def inp db cong: if_cong)
  then have "it_moderation item = ModPass" using passing_verdict by blast
  with w show ?thesis by (auto simp: told_def db)
qed

abbreviation edit_text :: UpdateCommentInput where
  "edit_text \<equiv> \<lparr>uc_content = ''b '', uc_mentioned = []\<rparr>"

abbreviation edit_run :: "(go_error + CommentItem) \<times> ModerationAlert req" where
  "edit_run \<equiv> comment_service_Update passing_service (\<lambda>_. 10) 1 edit_text 1 (fresh_req (rq_db thread_req))"

theorem comment_edit_reviewed_witness:
  "\<exists>r. cores (rq_db (snd edit_run)) = [(1, 1, 5, 2, ''b'', r, ModPass, True)] \<and> 1 < r"
proof -
  have "\<not> isl (fst edit_run)" by code_simp
  then obtain item where run: "edit_run = (Inr item, snd edit_run)" by (blast dest: Inr_run)
  have old: "cores (rq_db thread_req) = [(1, 1, 5, 2, ''a'', 1, ModPass, True)]" "TrimSpace ''b '' = ''b''"
    "map (\<lambda>h. (chs_comment_id h, chs_revision h)) (comment_histories (rq_db thread_req)) = [(1, 1)]" by code_simp+
  obtain h where h: "h \<in> set (comment_histories (rq_db thread_req))" "chs_comment_id h = 1" "chs_revision h = 1"
    using old(3) by (cases "comment_histories (rq_db thread_req)") auto
  obtain r st where w: "\<forall>h\<in>set (comment_histories (rq_db thread_req)). chs_comment_id h = 1 \<longrightarrow> chs_revision h < r"
      "cores (rq_db (snd edit_run)) = [(1, 1, 5, 2, ''b'', r, st, st \<noteq> ModBlock)]"
      "reviewed passing_service 1 r ''b'' 10 st (rq_db thread_req) (rq_db (snd edit_run))"
    using comment_edit_reviewed[OF run] by (auto simp: Let_def old(1,2) upd_where_simps simp del: One_nat_def)
  with h passing_verdict[OF w(3)] show ?thesis by force
qed

abbreviation list_run :: "(go_error + CommentItem list \<times> CursorMeta) \<times> unit req" where
  "list_run \<equiv> comment_List passing_service (Inr []) 5 2 [] (\<lparr>cr_token = [], cr_limit = 10\<rparr>) (fresh_req (rq_db thread_req))"

theorem comments_shown_visible_witness:
  "\<exists>x. comment_shown passing_service 2 (fresh_req (rq_db thread_req) :: unit req) x \<and>
     (\<exists>c\<in>set (comments (rq_db thread_req)). shows_row x c \<and> comment_active c)"
proof -
  have "(case fst list_run of Inl _ \<Rightarrow> [] | Inr (items, _) \<Rightarrow> map it_id items) = [1]" by code_simp
  then obtain items meta where "fst list_run = Inr (items, meta)" "map it_id items = [1]" by (auto split: sum.splits)
  then obtain x where run: "list_run = (Inr (items, meta), snd list_run)" and x: "x \<in> set items"
    by (cases items) (auto simp: prod_eq_iff)
  have shown: "comment_shown passing_service 2 (fresh_req (rq_db thread_req) :: unit req) x"
    by (rule comment_shown.listed[OF run x])
  have "map cm_moderation (comments (rq_db thread_req)) = [ModPass]" by code_simp
  then have "\<forall>c\<in>set (comments (rq_db thread_req)). cm_moderation c = ModPass" by auto
  with comments_shown_visible[OF shown] shown show ?thesis by auto
qed

end
