(* ===== verification/Money.thy ===== *)
theory Money
  imports Go_Text Errors
begin

section \<open>Prices\<close>

text \<open>
  Models \<open>internal/pkg/money\<close>.  An amount is kept in hundredths, which \<open>Parse\<close> makes sure is exact.
  \<open>decimal_lib\<close> holds the two functions of the decimal library that the package calls:
  \<open>NewFromString\<close> gives a coefficient and an exponent of ten, and \<open>StringFixed(2)\<close> prints an
  amount with two decimals.  \<open>decimal_library\<close> is what is documented of them for the texts
  and amounts the package hands over.
\<close>

type_synonym amount = int

record decimal_lib =
  dl_new_from_string :: "string \<Rightarrow> (int \<times> int) option"
  dl_string_fixed2 :: "amount \<Rightarrow> string"

text \<open>\<open>^(?:0|[0-9]+)(?:\.[0-9]{1,2})?$\<close>\<close>

definition amountPattern :: "string \<Rightarrow> bool" where
  "amountPattern s = (case Cut s (CHR ''.'') of (i, f, found) \<Rightarrow>
     i \<noteq> [] \<and> list_all is_dec_digit i \<and>
     (found \<longrightarrow> (length f = 1 \<or> length f = 2) \<and> list_all is_dec_digit f))"

definition maxIntegerDigits :: nat where "maxIntegerDigits = 8"

text \<open>The value of a decimal with at most two fractional digits: \<open>Round(2)\<close> leaves it alone.\<close>

definition hundredths :: "int \<times> int \<Rightarrow> amount" where
  "hundredths d = fst d * 10 ^ nat (snd d + 2)"

definition money_Parse :: "decimal_lib \<Rightarrow> string \<Rightarrow> go_error + amount" where
  "money_Parse lib s =
     (if s = [] then Inl (PlainErr ''amount is empty'')
      else if \<not> amountPattern s then Inl (PlainErr ''amount is malformed'')
      else if length (fst (Cut s (CHR ''.''))) > maxIntegerDigits then Inl (PlainErr ''amount is too large'')
      else case dl_new_from_string lib s of
        None \<Rightarrow> Inl (PlainErr ''amount is malformed'')
      | Some d \<Rightarrow>
          if fst d < 0 then Inl (PlainErr ''amount is negative'')
          else if snd d < - 2 then Inl (PlainErr ''amount has too many decimals'')
          else Inr (hundredths d))"

definition Amount_String :: "decimal_lib \<Rightarrow> amount \<Rightarrow> string" where
  "Amount_String lib a = dl_string_fixed2 lib a"

definition two_digits :: "nat \<Rightarrow> string" where
  "two_digits n = [digit_char (n div 10), digit_char (n mod 10)]"

definition decimal_library :: "decimal_lib \<Rightarrow> bool" where
  "decimal_library lib \<longleftrightarrow>
     (\<forall>s. amountPattern s \<longrightarrow> dl_new_from_string lib s =
        (let (i, f, _) = Cut s (CHR ''.'') in Some (digits_value (i @ f), - int (length f)))) \<and>
     (\<forall>n. dl_string_fixed2 lib (int n) = decimal (n div 100) @ CHR ''.'' # two_digits (n mod 100))"

subsection \<open>Facts\<close>

lemma is_dec_digit_char: "d < 10 \<Longrightarrow> is_dec_digit (digit_char d)"
  by (simp add: is_dec_digit_def byte_of_digit)

lemma digits_value_two: "n < 100 \<Longrightarrow> digits_value (s @ two_digits n) = 100 * digits_value s + int n"
  using digits_value_snoc[of "s @ [digit_char (n div 10)]" "digit_char (n mod 10)"]
    digits_value_snoc[of s "digit_char (n div 10)"]
  by (simp add: two_digits_def byte_of_digit) presburger

lemma Cut_append: "c \<notin> set i \<Longrightarrow> Cut (i @ c # f) c = (i, f, True)"
proof -
  assume "c \<notin> set i"
  then have "takeWhile (\<lambda>x. x \<noteq> c) (i @ c # f) = i" by (induction i) auto
  then show ?thesis by (simp add: Cut_def Let_def)
qed

lemma digit_not_dot: "list_all is_dec_digit s \<Longrightarrow> CHR ''.'' \<notin> set s"
  by (auto simp: list_all_iff is_dec_digit_def byte_of_def)

lemma digits_value_bounds: "list_all is_dec_digit s \<Longrightarrow> 0 \<le> digits_value s \<and> digits_value s < 10 ^ length s"
proof (induction s rule: rev_induct)
  case Nil
  show ?case by (simp add: digits_value_def)
next
  case (snoc c s)
  then have "0 \<le> digits_value s \<and> digits_value s + 1 \<le> 10 ^ length s" "48 \<le> byte_of c \<and> byte_of c \<le> 57"
    by (auto simp: is_dec_digit_def)
  then show ?case by (simp add: digits_value_snoc)
qed

lemma money_Parse_Inr:
  assumes lib: "decimal_library lib" and ok: "money_Parse lib s = Inr a"
  obtains i f where "length i \<le> 8" "length f \<le> 2" "list_all is_dec_digit (i @ f)"
    "a = digits_value (i @ f) * 10 ^ (2 - length f)"
proof -
  obtain i f fnd where c: "Cut s (CHR ''.'') = (i, f, fnd)" by (metis prod_cases3)
  have "\<not> fnd \<Longrightarrow> f = []" using c by (auto simp: Cut_def Let_def split: if_splits)
  moreover have p: "amountPattern s" and n: "length i \<le> 8"
    using ok c by (auto simp: money_Parse_def maxIntegerDigits_def split: if_splits)
  ultimately have d: "list_all is_dec_digit (i @ f)" "length f \<le> 2"
    using c by (cases fnd; auto simp: amountPattern_def)+
  have "dl_new_from_string lib s = Some (digits_value (i @ f), - int (length f))"
    using lib p c by (simp add: decimal_library_def)
  moreover have "nat (2 - int (length f)) = 2 - length f" by simp
  ultimately have "a = digits_value (i @ f) * 10 ^ (2 - length f)"
    using ok by (simp add: money_Parse_def hundredths_def split: if_splits)
  then show ?thesis by (rule that[OF n d(2) d(1)])
qed

text \<open>
  Prices survive the wire.  With a decimal library as documented, every amount that fits the
  column \<open>numeric(10,2)\<close> is parsed back from the text that is sent for it, and whatever text is
  accepted gives an amount that fits the column and is not negative.
\<close>

theorem amounts_round_trip:
  assumes lib: "decimal_library lib"
  shows "(0 \<le> a \<and> a < 10 ^ 10 \<longrightarrow> money_Parse lib (Amount_String lib a) = Inr a) \<and>
    (money_Parse lib s = Inr b \<longrightarrow> 0 \<le> b \<and> b < 10 ^ 10)"
proof (intro conjI impI)
  assume a: "0 \<le> a \<and> a < 10 ^ 10"
  define n where "n = nat a"
  have n: "a = int n" "n < 10 ^ 10" using a by (auto simp: n_def)
  let ?i = "decimal (n div 100)" and ?f = "two_digits (n mod 100)"
  have i: "list_all is_dec_digit ?i" "?i \<noteq> []" using decimal_digits by auto
  have f: "list_all is_dec_digit ?f" "length ?f = 2" by (auto simp: two_digits_def is_dec_digit_char)
  have t: "Amount_String lib (int n) = ?i @ CHR ''.'' # ?f" using lib by (simp add: Amount_String_def decimal_library_def)
  have c: "Cut (?i @ CHR ''.'' # ?f) (CHR ''.'') = (?i, ?f, True)" using i(1) by (simp add: Cut_append digit_not_dot)
  have p: "amountPattern (?i @ CHR ''.'' # ?f)" using i f by (simp add: amountPattern_def c)
  have "n div 100 < 10 ^ Suc 7" using n(2) by simp
  from decimal_length[OF this] have l: "length ?i \<le> 8" by simp
  have "100 * int (n div 100) + int (n mod 100) = int n" by (simp add: zdiv_int zmod_int)
  then have "digits_value (?i @ ?f) = int n" by (simp add: digits_value_two digits_value_decimal)
  then have "dl_new_from_string lib (?i @ CHR ''.'' # ?f) = Some (int n, - 2)"
    using lib p f(2) by (simp add: decimal_library_def c)
  then show "money_Parse lib (Amount_String lib a) = Inr a"
    unfolding n(1) using l p by (simp add: money_Parse_def t c hundredths_def maxIntegerDigits_def)
next
  assume "money_Parse lib s = Inr b"
  from money_Parse_Inr[OF lib this] obtain i f where
    b: "length i \<le> 8" "length f \<le> 2" "list_all is_dec_digit (i @ f)" "b = digits_value (i @ f) * 10 ^ (2 - length f)" .
  note v = digits_value_bounds[OF b(3)]
  show "0 \<le> b" using v b(4) by simp
  have "b < 10 ^ length (i @ f) * 10 ^ (2 - length f)" using v b(4) by simp
  also have "\<dots> = 10 ^ (length i + 2)" using b(2) by (simp flip: power_add)
  also have "\<dots> \<le> (10::int) ^ 10" using b(1) by (intro power_increasing) auto
  finally show "b < 10 ^ 10" .
qed

definition sample_decimal :: decimal_lib where
  "sample_decimal = \<lparr>dl_new_from_string = (\<lambda>s. if amountPattern s then
       (let (i, f, _) = Cut s (CHR ''.'') in Some (digits_value (i @ f), - int (length f))) else None),
     dl_string_fixed2 = (\<lambda>a. decimal (nat a div 100) @ CHR ''.'' # two_digits (nat a mod 100))\<rparr>"

lemma sample_decimal_library: "decimal_library sample_decimal"
  by (simp add: decimal_library_def sample_decimal_def)

theorem amounts_round_trip_witness:
  "money_Parse sample_decimal (Amount_String sample_decimal 1850) = Inr 1850 \<and>
   money_Parse sample_decimal ''18.5'' = Inr 1850 \<and> (0::int) \<le> 1850 \<and> (1850::int) < 10 ^ 10"
proof (intro conjI)
  note rt = amounts_round_trip[OF sample_decimal_library]
  show "money_Parse sample_decimal (Amount_String sample_decimal 1850) = Inr 1850" using rt[of 1850] by simp
  show p: "money_Parse sample_decimal ''18.5'' = Inr 1850" by code_simp
  show "(0::int) \<le> 1850" "(1850::int) < 10 ^ 10" using rt[of _ "''18.5''" 1850] p by blast+
qed

end
