(* ===== verification/Post_Input.thy ===== *)
theory Post_Input
  imports Auth_Input Money
begin

section \<open>What a post may contain\<close>

text \<open>
  Models \<open>internal/service/post_validation.go\<close> and the input types of \<open>internal/service/post.go\<close>:
  what a client sends for a post is trimmed, normalised and checked before anything is stored.
  A budget is a pair of 32-bit integers that are only compared.
\<close>

definition maxPostTitleRunes :: nat where "maxPostTitleRunes = 200"
definition maxPostContentRunes :: nat where "maxPostContentRunes = 5000"
definition maxPostTags :: nat where "maxPostTags = 10"
definition maxTagRunes :: nat where "maxTagRunes = 10"
definition maxPostImages :: nat where "maxPostImages = 9"
definition maxEditReasonRunes :: nat where "maxEditReasonRunes = 200"

lemmas post_limits = maxPostTitleRunes_def maxPostContentRunes_def maxPostTags_def maxTagRunes_def
  maxPostImages_def maxEditReasonRunes_def

record BudgetRangeInput =
  bg_min :: int
  bg_max :: int

record PreferencesInput =
  pf_avoid :: "string list"
  pf_prefer :: "string list"

record PostPayload =
  py_title :: string
  py_content :: string
  py_category :: string
  py_share_type :: "string option"
  py_canteen_code :: "string option"
  py_window_id :: "row_id option"
  py_cuisine :: "string option"
  py_price :: "amount option"
  py_flavors :: "string list"
  py_tags :: "string list"
  py_images :: "string list"
  py_budget :: "BudgetRangeInput option"
  py_preferences :: "PreferencesInput option"

record CreatePostInput =
  cpi_payload :: PostPayload
  cpi_post_type :: string
  cpi_status :: "string option"

record UpdatePostInput =
  upi_payload :: PostPayload
  upi_post_type :: "string option"
  upi_status :: "string option"
  upi_edit_reason :: "string option"

record normalizedPostPayload =
  np_post_type :: PostType
  np_share_type :: "ShareType option"
  np_category :: PostCategory
  np_title :: string
  np_content :: string
  np_canteen_code :: "string option"
  np_window_id :: "row_id option"
  np_cuisine :: "string option"
  np_price :: "amount option"
  np_flavor_names :: "string list"
  np_flavor_stances :: "string \<rightharpoonup> FlavorStance"
  np_tags :: "string list"
  np_images :: "string list"
  np_budget :: "BudgetRangeInput option"
  np_preferences :: "PreferencesInput option"
  np_publish :: bool
  np_edit_reason :: "string option"

subsection \<open>Results in sequence\<close>

definition and_then :: "'e + 'a \<Rightarrow> ('a \<Rightarrow> 'e + 'b) \<Rightarrow> 'e + 'b" where
  "and_then r f = (case r of Inl e \<Rightarrow> Inl e | Inr x \<Rightarrow> f x)"

definition unless_error :: "go_error option \<Rightarrow> go_error + 'a \<Rightarrow> go_error + 'a" where
  "unless_error e r = (case e of Some err \<Rightarrow> Inl err | None \<Rightarrow> r)"

lemma and_then_Inr [simp]: "and_then r f = Inr y \<longleftrightarrow> (\<exists>x. r = Inr x \<and> f x = Inr y)"
  by (auto simp: and_then_def split: sum.splits)

lemma unless_error_Inr [simp]: "unless_error e r = Inr y \<longleftrightarrow> e = None \<and> r = Inr y"
  by (auto simp: unless_error_def split: option.splits)

subsection \<open>The free strings of the enumerations\<close>

definition post_type_of :: "string \<Rightarrow> PostType" where
  "post_type_of s = (if s = ''share'' then TypeShare else if s = ''seeking'' then TypeSeeking else TypeOther s)"

definition share_type_of :: "string \<Rightarrow> ShareType" where
  "share_type_of s = (if s = ''recommend'' then ShareRecommend else if s = ''warning'' then ShareWarning else ShareOther s)"

definition category_of :: "string \<Rightarrow> PostCategory" where
  "category_of s = (if s = ''food'' then CategoryFood else if s = ''recipe'' then CategoryRecipe else CategoryOther s)"

fun post_type_text :: "PostType \<Rightarrow> string" where
  "post_type_text TypeShare = ''share''"
| "post_type_text TypeSeeking = ''seeking''"
| "post_type_text (TypeOther s) = s"

fun share_type_text :: "ShareType \<Rightarrow> string" where
  "share_type_text ShareRecommend = ''recommend''"
| "share_type_text ShareWarning = ''warning''"
| "share_type_text (ShareOther s) = s"

fun category_text :: "PostCategory \<Rightarrow> string" where
  "category_text CategoryFood = ''food''"
| "category_text CategoryRecipe = ''recipe''"
| "category_text (CategoryOther s) = s"

definition validPostType :: "PostType \<Rightarrow> bool" where
  "validPostType v \<longleftrightarrow> v = TypeShare \<or> v = TypeSeeking"

definition validShareType :: "ShareType \<Rightarrow> bool" where
  "validShareType v \<longleftrightarrow> v = ShareRecommend \<or> v = ShareWarning"

definition validCategory :: "PostCategory \<Rightarrow> bool" where
  "validCategory v \<longleftrightarrow> v = CategoryFood \<or> v = CategoryRecipe"

subsection \<open>Normal forms\<close>

fun dedup_from :: "(string \<Rightarrow> string) \<Rightarrow> string list \<Rightarrow> string list \<Rightarrow> string list" where
  "dedup_from key seen [] = []"
| "dedup_from key seen (v # vs) =
     (if key v \<in> set seen then dedup_from key seen vs else v # dedup_from key (key v # seen) vs)"

definition deduplicateStrings :: "auth_lib \<Rightarrow> string list \<Rightarrow> bool \<Rightarrow> string list" where
  "deduplicateStrings lib values foldCase = dedup_from (if foldCase then lib_to_lower lib else (\<lambda>v. v)) [] values"

definition hasDuplicates :: "auth_lib \<Rightarrow> string list \<Rightarrow> bool \<Rightarrow> bool" where
  "hasDuplicates lib values foldCase \<longleftrightarrow> length (deduplicateStrings lib values foldCase) \<noteq> length values"

definition normalizeOptional :: "string option \<Rightarrow> string option" where
  "normalizeOptional v = (case v of None \<Rightarrow> None
     | Some s \<Rightarrow> if TrimSpace s = [] then None else Some (TrimSpace s))"

definition normalizeTags :: "auth_lib \<Rightarrow> string list \<Rightarrow> string list" where
  "normalizeTags lib values = deduplicateStrings lib (map (\<lambda>v. TrimSpace (lib_nfkc lib v)) values) True"

definition normalizeStrings :: "auth_lib \<Rightarrow> string list \<Rightarrow> string list" where
  "normalizeStrings lib values = deduplicateStrings lib (filter (\<lambda>v. v \<noteq> []) (map TrimSpace values)) False"

definition normalizePreferences :: "auth_lib \<Rightarrow> PreferencesInput option \<Rightarrow> PreferencesInput option" where
  "normalizePreferences lib v = map_option
     (\<lambda>p. \<lparr>pf_avoid = normalizeStrings lib (pf_avoid p), pf_prefer = normalizeStrings lib (pf_prefer p)\<rparr>) v"

definition publishIntent :: "string option \<Rightarrow> PostStatus \<Rightarrow> go_error + bool" where
  "publishIntent requested current = (case requested of
      None \<Rightarrow> Inr (current \<noteq> PostDraft)
    | Some s \<Rightarrow> if s = ''draft'' then Inr False
        else if s = ''pending'' \<or> s = ''approved'' then Inr True
        else Inl (InvalidField ''status'' FieldInvalidEnum))"

definition normalizeShareType :: "string option \<Rightarrow> go_error + ShareType option" where
  "normalizeShareType v = (case v of None \<Rightarrow> Inr None
    | Some s \<Rightarrow> if validShareType (share_type_of (TrimSpace s)) then Inr (Some (share_type_of (TrimSpace s)))
        else Inl (InvalidField ''share_type'' FieldInvalidEnum))"

definition normalizeEditReason :: "string option \<Rightarrow> go_error + string option" where
  "normalizeEditReason v0 = (case normalizeOptional v0 of None \<Rightarrow> Inr None
    | Some s \<Rightarrow> if RuneCount s > maxEditReasonRunes then Inl (InvalidField ''edit_reason'' FieldTooLong) else Inr (Some s))"

subsection \<open>Checks\<close>

fun check_tags :: "string list \<Rightarrow> go_error option" where
  "check_tags [] = None"
| "check_tags (t # ts) =
     (if t = [] then Some (InvalidField ''tags'' FieldInvalidFormat)
      else if RuneCount t > maxTagRunes then Some (InvalidField ''tags'' FieldTooLong)
      else check_tags ts)"

definition validateBasicPostFields ::
  "auth_lib \<Rightarrow> normalizedPostPayload \<Rightarrow> string list \<Rightarrow> string list \<Rightarrow> go_error option" where
  "validateBasicPostFields lib v rawTags rawImages =
     (if np_title v = [] then Some (InvalidField ''title'' FieldRequired)
      else if RuneCount (np_title v) > maxPostTitleRunes then Some (InvalidField ''title'' FieldTooLong)
      else if np_content v = [] then Some (InvalidField ''content'' FieldRequired)
      else if RuneCount (np_content v) > maxPostContentRunes then Some (InvalidField ''content'' FieldTooLong)
      else if \<not> validCategory (np_category v) then Some (InvalidField ''category'' FieldInvalidEnum)
      else if length (np_tags v) > maxPostTags \<or> length rawTags > maxPostTags
      then Some (BadRequest (Some BizTagLimitExceeded))
      else case check_tags (np_tags v) of Some err \<Rightarrow> Some err | None \<Rightarrow>
        if length (np_images v) > maxPostImages \<or> length rawImages > maxPostImages
        then Some (InvalidField ''images'' FieldOutOfRange)
        else if list_ex (\<lambda>i. TrimSpace i = []) rawImages then Some (InvalidField ''images'' FieldInvalidFormat)
        else if hasDuplicates lib (map TrimSpace rawImages) False then Some (InvalidField ''images'' FieldConflict)
        else None)"

definition validateLocation :: "normalizedPostPayload \<Rightarrow> go_error option" where
  "validateLocation v =
     (if np_window_id v = Some 0 then Some (InvalidField ''canteen_window_id'' FieldInvalidFormat)
      else if np_window_id v \<noteq> None \<and> np_canteen_code v = None
      then Some (InvalidField ''canteen_window_id'' FieldConflict)
      else None)"

definition validatePostTypeFields :: "normalizedPostPayload \<Rightarrow> go_error option" where
  "validatePostTypeFields v =
     (case (case np_budget v of None \<Rightarrow> None
        | Some b \<Rightarrow> if bg_min b < 0 \<or> bg_max b < 0 then Some (InvalidField ''budget_range'' FieldOutOfRange)
            else if bg_max b < bg_min b then Some (InvalidField ''budget_range.max'' FieldConflict) else None) of
        Some err \<Rightarrow> Some err
      | None \<Rightarrow>
          if np_post_type v = TypeShare then
            (if np_publish v \<and> np_share_type v = None then Some (InvalidField ''share_type'' FieldRequired)
             else if np_budget v \<noteq> None \<or> np_preferences v \<noteq> None
             then Some (InvalidField ''budget_range'' FieldConflict) else None)
          else if np_share_type v \<noteq> None then Some (InvalidField ''share_type'' FieldConflict)
          else if np_price v \<noteq> None then Some (InvalidField ''price'' FieldConflict)
          else None)"

text \<open>The loop over \<open>AvoidFlavors\<close>: a name that already has a stance is refused.\<close>

fun add_avoid :: "string list \<Rightarrow> normalizedPostPayload \<Rightarrow> go_error + normalizedPostPayload" where
  "add_avoid [] v = Inr v"
| "add_avoid (n # ns) v =
     (if np_flavor_stances v n \<noteq> None then Inl (InvalidField ''preferences'' FieldConflict)
      else add_avoid ns (v\<lparr>np_flavor_stances := (np_flavor_stances v)(n \<mapsto> StanceAvoid),
             np_flavor_names := np_flavor_names v @ [n]\<rparr>))"

definition normalizeFlavorSemantics ::
  "auth_lib \<Rightarrow> normalizedPostPayload \<Rightarrow> string list \<Rightarrow> go_error + normalizedPostPayload" where
  "normalizeFlavorSemantics lib v rawFlavors =
     (if np_post_type v = TypeShare
      then (let names = normalizeStrings lib rawFlavors in
            Inr (v\<lparr>np_flavor_names := names, np_flavor_stances := (\<lambda>n. if n \<in> set names then Some StanceHas else None)\<rparr>))
      else if normalizeStrings lib rawFlavors \<noteq> [] then Inl (InvalidField ''flavors'' FieldConflict)
      else case np_preferences v of
        None \<Rightarrow> Inr (v\<lparr>np_flavor_names := [], np_flavor_stances := Map.empty\<rparr>)
      | Some p \<Rightarrow> add_avoid (pf_avoid p)
          (v\<lparr>np_flavor_names := pf_prefer p,
             np_flavor_stances := (\<lambda>n. if n \<in> set (pf_prefer p) then Some StancePrefer else None)\<rparr>))"

definition normalizePostPayload ::
  "auth_lib \<Rightarrow> PostPayload \<Rightarrow> PostType \<Rightarrow> bool \<Rightarrow> string option \<Rightarrow> go_error + normalizedPostPayload" where
  "normalizePostPayload lib payload postType publish editReason =
     (let v = \<lparr>np_post_type = postType, np_share_type = None, np_category = category_of (py_category payload),
           np_title = TrimSpace (py_title payload), np_content = TrimSpace (py_content payload),
           np_canteen_code = normalizeOptional (py_canteen_code payload), np_window_id = py_window_id payload,
           np_cuisine = normalizeOptional (py_cuisine payload), np_price = py_price payload,
           np_flavor_names = [], np_flavor_stances = Map.empty, np_tags = normalizeTags lib (py_tags payload),
           np_images = normalizeStrings lib (py_images payload), np_budget = py_budget payload,
           np_preferences = normalizePreferences lib (py_preferences payload), np_publish = publish,
           np_edit_reason = editReason\<rparr>
      in unless_error (validateBasicPostFields lib v (py_tags payload) (py_images payload))
        (and_then (normalizeShareType (py_share_type payload)) (\<lambda>shareType.
         let v1 = v\<lparr>np_share_type := shareType\<rparr> in
         unless_error (validateLocation v1)
        (and_then (normalizeFlavorSemantics lib v1 (py_flavors payload)) (\<lambda>v2.
         unless_error (validatePostTypeFields v2) (Inr v2))))))"

definition normalizeCreatePost :: "auth_lib \<Rightarrow> CreatePostInput \<Rightarrow> go_error + normalizedPostPayload" where
  "normalizeCreatePost lib input =
     (let postType = post_type_of (cpi_post_type input) in
      if \<not> validPostType postType then Inl (InvalidField ''post_type'' FieldInvalidEnum)
      else and_then (publishIntent (cpi_status input) PostPending) (\<lambda>publish.
        normalizePostPayload lib (cpi_payload input) postType publish None))"

definition normalizeUpdatePost :: "auth_lib \<Rightarrow> UpdatePostInput \<Rightarrow> post \<Rightarrow> go_error + normalizedPostPayload" where
  "normalizeUpdatePost lib input current =
     unless_error (case upi_post_type input of None \<Rightarrow> None
       | Some s \<Rightarrow> if \<not> validPostType (post_type_of s) then Some (InvalidField ''post_type'' FieldInvalidEnum)
           else if post_type_of s \<noteq> p_post_type current then Some (InvalidField ''post_type'' FieldConflict) else None)
    (and_then (publishIntent (upi_status input) (p_status current)) (\<lambda>publish.
     and_then (normalizeEditReason (upi_edit_reason input)) (\<lambda>reason.
     normalizePostPayload lib (upi_payload input) (p_post_type current) publish reason)))"

subsection \<open>What is accepted\<close>

definition payload_ok :: "auth_lib \<Rightarrow> normalizedPostPayload \<Rightarrow> bool" where
  "payload_ok lib v \<longleftrightarrow>
     np_title v \<noteq> [] \<and> RuneCount (np_title v) \<le> 200 \<and> np_content v \<noteq> [] \<and> RuneCount (np_content v) \<le> 5000 \<and>
     validCategory (np_category v) \<and> (\<forall>st. np_share_type v = Some st \<longrightarrow> validShareType st) \<and>
     length (np_tags v) \<le> 10 \<and> list_all (\<lambda>t. t \<noteq> [] \<and> RuneCount t \<le> 10) (np_tags v) \<and>
     distinct (map (lib_to_lower lib) (np_tags v)) \<and>
     length (np_images v) \<le> 9 \<and> distinct (np_images v) \<and>
     (np_window_id v \<noteq> None \<longrightarrow> np_window_id v \<noteq> Some 0 \<and> np_canteen_code v \<noteq> None) \<and>
     (\<forall>b. np_budget v = Some b \<longrightarrow> 0 \<le> bg_min b \<and> bg_min b \<le> bg_max b) \<and>
     distinct (np_flavor_names v) \<and> dom (np_flavor_stances v) = set (np_flavor_names v) \<and>
     (\<forall>n st. np_flavor_stances v n = Some st \<longrightarrow> (st = StanceHas) = (np_post_type v = TypeShare)) \<and>
     (if np_post_type v = TypeShare then (np_publish v \<longrightarrow> np_share_type v \<noteq> None) \<and> np_budget v = None
      else np_share_type v = None \<and> np_price v = None)"

lemma dedup_from_keys:
  "distinct (map key (dedup_from key seen vs)) \<and> set (map key (dedup_from key seen vs)) \<inter> set seen = {}"
proof (induction vs arbitrary: seen)
  case (Cons v vs)
  show ?case
  proof (cases "key v \<in> set seen")
    case True
    with Cons.IH[of seen] show ?thesis by simp
  next
    case False
    with Cons.IH[of "key v # seen"] show ?thesis by auto
  qed
qed simp

lemma dedup_from_subset: "set (dedup_from key seen vs) \<subseteq> set vs"
  by (induction vs arbitrary: seen) auto

lemma deduplicateStrings_distinct:
  "distinct (deduplicateStrings lib vs False)" "distinct (map (lib_to_lower lib) (deduplicateStrings lib vs True))"
  using dedup_from_keys[of "\<lambda>v. v" "[]" vs] dedup_from_keys[of "lib_to_lower lib" "[]" vs]
  by (simp_all add: deduplicateStrings_def)

lemma normalizeStrings_distinct [simp]: "distinct (normalizeStrings lib vs)"
  by (simp add: normalizeStrings_def deduplicateStrings_distinct)

lemma normalizeTags_distinct [simp]: "distinct (map (lib_to_lower lib) (normalizeTags lib vs))"
  by (simp only: normalizeTags_def deduplicateStrings_distinct)

lemma check_tags_None: "check_tags ts = None \<longleftrightarrow> list_all (\<lambda>t. t \<noteq> [] \<and> RuneCount t \<le> maxTagRunes) ts"
  by (induction ts) auto

text \<open>What the flavours do to the payload, and that nothing else changes.\<close>

definition flavors_ok :: "normalizedPostPayload \<Rightarrow> bool" where
  "flavors_ok v \<longleftrightarrow> distinct (np_flavor_names v) \<and> dom (np_flavor_stances v) = set (np_flavor_names v) \<and>
     (\<forall>n st. np_flavor_stances v n = Some st \<longrightarrow> (st = StanceHas) = (np_post_type v = TypeShare))"

lemma add_avoid_Inr:
  "add_avoid ns v = Inr w \<Longrightarrow> flavors_ok v \<Longrightarrow> np_post_type v \<noteq> TypeShare \<Longrightarrow> flavors_ok w \<and>
     (\<exists>names stances. w = v\<lparr>np_flavor_names := names, np_flavor_stances := stances\<rparr>)"
proof (induction ns v rule: add_avoid.induct)
  case (1 v)
  then show ?case by auto (metis normalizedPostPayload.surjective normalizedPostPayload.update_convs(10,11))
next
  case (2 n ns v)
  let ?v = "v\<lparr>np_flavor_stances := (np_flavor_stances v)(n \<mapsto> StanceAvoid), np_flavor_names := np_flavor_names v @ [n]\<rparr>"
  have n: "np_flavor_stances v n = None" and r: "add_avoid ns ?v = Inr w" using "2.prems"(1) by (auto split: if_splits)
  have "n \<notin> set (np_flavor_names v)" using n "2.prems"(2) by (auto simp: flavors_ok_def domIff)
  then have "flavors_ok ?v" using "2.prems"(2,3) by (auto simp: flavors_ok_def)
  from "2.IH"[OF _ r this] n "2.prems"(3) show ?case by auto
qed

lemma normalizeFlavorSemantics_Inr:
  assumes "normalizeFlavorSemantics lib v raw = Inr w"
    and "\<And>p. np_preferences v = Some p \<Longrightarrow> distinct (pf_prefer p)"
  shows "flavors_ok w \<and> (\<exists>names stances. w = v\<lparr>np_flavor_names := names, np_flavor_stances := stances\<rparr>)"
proof (cases "np_post_type v = TypeShare")
  case True
  then show ?thesis using assms(1) by (auto simp: normalizeFlavorSemantics_def Let_def flavors_ok_def split: if_splits)
next
  case share: False
  show ?thesis
  proof (cases "np_preferences v")
    case None
    then show ?thesis using assms(1) share by (auto simp: normalizeFlavorSemantics_def flavors_ok_def split: if_splits)
  next
    case (Some p)
    let ?v = "v\<lparr>np_flavor_names := pf_prefer p,
      np_flavor_stances := (\<lambda>n. if n \<in> set (pf_prefer p) then Some StancePrefer else None)\<rparr>"
    have "add_avoid (pf_avoid p) ?v = Inr w" using assms(1) share Some
      by (auto simp: normalizeFlavorSemantics_def split: if_splits)
    moreover have "flavors_ok ?v" using share assms(2)[OF Some] by (auto simp: flavors_ok_def split: if_splits)
    ultimately show ?thesis using add_avoid_Inr[of "pf_avoid p" ?v w] share by auto
  qed
qed

lemma normalizePostPayload_ok:
  assumes "normalizePostPayload lib payload t publish reason = Inr v"
  shows "payload_ok lib v \<and> np_post_type v = t \<and> np_publish v = publish \<and> np_edit_reason v = reason \<and>
    np_title v = TrimSpace (py_title payload) \<and> np_content v = TrimSpace (py_content payload) \<and>
    np_price v = py_price payload"
proof -
  from assms obtain v0 st where
    basic: "validateBasicPostFields lib v0 (py_tags payload) (py_images payload) = None"
    and st: "normalizeShareType (py_share_type payload) = Inr st"
    and loc: "validateLocation (v0\<lparr>np_share_type := st\<rparr>) = None"
    and fl: "normalizeFlavorSemantics lib (v0\<lparr>np_share_type := st\<rparr>) (py_flavors payload) = Inr v"
    and ty: "validatePostTypeFields v = None"
    and v0: "np_post_type v0 = t" "np_publish v0 = publish" "np_edit_reason v0 = reason"
      "np_tags v0 = normalizeTags lib (py_tags payload)" "np_images v0 = normalizeStrings lib (py_images payload)"
      "np_preferences v0 = normalizePreferences lib (py_preferences payload)"
      "np_title v0 = TrimSpace (py_title payload)" "np_content v0 = TrimSpace (py_content payload)" "np_price v0 = py_price payload"
    unfolding normalizePostPayload_def Let_def unless_error_Inr and_then_Inr by fastforce
  have "\<And>p. np_preferences v0 = Some p \<Longrightarrow> distinct (pf_prefer p)" by (auto simp: v0(6) normalizePreferences_def)
  from normalizeFlavorSemantics_Inr[OF fl] this obtain names stances where
    w: "v = v0\<lparr>np_share_type := st, np_flavor_names := names, np_flavor_stances := stances\<rparr>" and ok: "flavors_ok v"
    by auto
  have s: "\<And>x. st = Some x \<Longrightarrow> validShareType x" using st by (auto simp: normalizeShareType_def split: option.splits if_splits)
  have b: "np_title v \<noteq> [] \<and> RuneCount (np_title v) \<le> 200 \<and> np_content v \<noteq> [] \<and> RuneCount (np_content v) \<le> 5000 \<and>
     validCategory (np_category v) \<and> length (np_tags v) \<le> 10 \<and> list_all (\<lambda>t. t \<noteq> [] \<and> RuneCount t \<le> 10) (np_tags v) \<and>
     length (np_images v) \<le> 9"
    using basic by (auto simp: w validateBasicPostFields_def post_limits check_tags_None split: if_splits option.splits)
  have l: "np_window_id v \<noteq> None \<longrightarrow> np_window_id v \<noteq> Some 0 \<and> np_canteen_code v \<noteq> None"
    using loc by (auto simp: w validateLocation_def split: if_splits)
  have bg: "\<forall>b. np_budget v = Some b \<longrightarrow> 0 \<le> bg_min b \<and> bg_min b \<le> bg_max b"
    using ty by (auto simp: validatePostTypeFields_def split: if_splits option.splits)
  have ty': "if np_post_type v = TypeShare then (np_publish v \<longrightarrow> np_share_type v \<noteq> None) \<and> np_budget v = None
      else np_share_type v = None \<and> np_price v = None"
    using ty by (auto simp: validatePostTypeFields_def split: if_splits option.splits)
  have "payload_ok lib v" unfolding payload_ok_def
    using b l bg ty' ok s by (simp add: flavors_ok_def) (simp add: w v0)
  then show ?thesis by (simp add: w v0)
qed

text \<open>The rest of what is accepted: each field in its normal form, and the stance of every flavour.\<close>

lemma texts_of_enumerations [simp]:
  "post_type_text (post_type_of s) = s" "share_type_text (share_type_of s) = s" "category_text (category_of s) = s"
  by (simp_all add: post_type_of_def share_type_of_def category_of_def)

definition stances_of :: "string list \<Rightarrow> string list \<Rightarrow> string \<Rightarrow> FlavorStance option" where
  "stances_of prefer avoid n = (if n \<in> set avoid then Some StanceAvoid else if n \<in> set prefer then Some StancePrefer else None)"

lemma add_avoid_stances:
  "add_avoid ns v = Inr w \<Longrightarrow> np_flavor_stances w = (\<lambda>n. if n \<in> set ns then Some StanceAvoid else np_flavor_stances v n)"
  by (induction ns v rule: add_avoid.induct) (auto simp: fun_eq_iff split: if_splits)

lemma normalizeFlavorSemantics_stances:
  "normalizeFlavorSemantics lib v raw = Inr w \<Longrightarrow> np_flavor_stances w =
     (if np_post_type v = TypeShare then (\<lambda>n. if n \<in> set (normalizeStrings lib raw) then Some StanceHas else None)
      else case np_preferences v of None \<Rightarrow> Map.empty | Some p \<Rightarrow> stances_of (pf_prefer p) (pf_avoid p))"
  by (auto simp: normalizeFlavorSemantics_def Let_def stances_of_def fun_eq_iff dest!: add_avoid_stances split: if_splits option.splits)

lemma normalizePostPayload_fields:
  assumes "normalizePostPayload lib payload t publish reason = Inr v"
  shows "np_category v = category_of (py_category payload)" "normalizeShareType (py_share_type payload) = Inr (np_share_type v)"
    "np_canteen_code v = normalizeOptional (py_canteen_code payload)" "np_window_id v = py_window_id payload"
    "np_cuisine v = normalizeOptional (py_cuisine payload)" "np_tags v = normalizeTags lib (py_tags payload)"
    "np_images v = normalizeStrings lib (py_images payload)" "np_budget v = py_budget payload"
    "np_flavor_stances v = (if t = TypeShare
       then (\<lambda>n. if n \<in> set (normalizeStrings lib (py_flavors payload)) then Some StanceHas else None)
       else case py_preferences payload of None \<Rightarrow> Map.empty
       | Some p \<Rightarrow> stances_of (normalizeStrings lib (pf_prefer p)) (normalizeStrings lib (pf_avoid p)))"
proof -
  from assms obtain v0 st where st: "normalizeShareType (py_share_type payload) = Inr st"
    and fl: "normalizeFlavorSemantics lib (v0\<lparr>np_share_type := st\<rparr>) (py_flavors payload) = Inr v"
    and v0: "np_post_type v0 = t" "np_category v0 = category_of (py_category payload)"
      "np_canteen_code v0 = normalizeOptional (py_canteen_code payload)" "np_window_id v0 = py_window_id payload"
      "np_cuisine v0 = normalizeOptional (py_cuisine payload)" "np_tags v0 = normalizeTags lib (py_tags payload)"
      "np_images v0 = normalizeStrings lib (py_images payload)" "np_budget v0 = py_budget payload"
      "np_preferences v0 = normalizePreferences lib (py_preferences payload)"
    unfolding normalizePostPayload_def Let_def unless_error_Inr and_then_Inr by fastforce
  have "\<And>p. np_preferences v0 = Some p \<Longrightarrow> distinct (pf_prefer p)" by (auto simp: v0(9) normalizePreferences_def)
  from normalizeFlavorSemantics_Inr[OF fl] this obtain names stances where
    w: "v = v0\<lparr>np_share_type := st, np_flavor_names := names, np_flavor_stances := stances\<rparr>"
    by auto
  show "np_category v = category_of (py_category payload)" "normalizeShareType (py_share_type payload) = Inr (np_share_type v)"
    "np_canteen_code v = normalizeOptional (py_canteen_code payload)" "np_window_id v = py_window_id payload"
    "np_cuisine v = normalizeOptional (py_cuisine payload)" "np_tags v = normalizeTags lib (py_tags payload)"
    "np_images v = normalizeStrings lib (py_images payload)" "np_budget v = py_budget payload"
    using st by (simp_all add: w v0)
  show "np_flavor_stances v = (if t = TypeShare
       then (\<lambda>n. if n \<in> set (normalizeStrings lib (py_flavors payload)) then Some StanceHas else None)
       else case py_preferences payload of None \<Rightarrow> Map.empty
       | Some p \<Rightarrow> stances_of (normalizeStrings lib (pf_prefer p)) (normalizeStrings lib (pf_avoid p)))"
    using normalizeFlavorSemantics_stances[OF fl] by (simp add: v0 normalizePreferences_def split: option.splits)
qed

end
