(* ===== verification/Post_Store.thy ===== *)
theory Post_Store
  imports Comment_Service Post_Input "HOL-Library.List_Lexorder"
begin

section \<open>The tables of posts\<close>

text \<open>
  Models \<open>internal/repository/post.go\<close> and \<open>post_relations.go\<close>: the statements on posts, their
  versions, tags, flavours and images, with the constraints of these tables in
  \<open>migrations/00001_init.sql\<close>.  The foreign keys from a post and from a review record to a version
  are deferred to the commit and are stated as invariants instead.
\<close>

subsection \<open>Constraints\<close>

definition post_check :: "post \<Rightarrow> bool" where
  "post_check p \<longleftrightarrow> validPostType (p_post_type p) \<and>
     (case p_share_type p of None \<Rightarrow> True | Some st \<Rightarrow> validShareType st) \<and> validCategory (p_category p) \<and>
     (p_post_type p \<noteq> TypeSeeking \<or> p_share_type p = None) \<and>
     (p_post_type p \<noteq> TypeShare \<or> p_status p = PostDraft \<or> p_share_type p \<noteq> None) \<and>
     (p_window_id p = None \<or> p_canteen_id p \<noteq> None) \<and>
     (case p_price p of None \<Rightarrow> True | Some a \<Rightarrow> 0 \<le> a \<and> p_post_type p = TypeShare) \<and>
     (p_budget_min p = None \<or> p_post_type p = TypeSeeking) \<and>
     (p_budget_min p = None) = (p_budget_max p = None) \<and>
     (case (p_budget_min p, p_budget_max p) of (Some a, Some b) \<Rightarrow> 0 \<le> a \<and> a \<le> b | _ \<Rightarrow> True) \<and>
     0 \<le> p_like_count p \<and> 0 \<le> p_favorite_count p \<and> 0 \<le> p_comment_count p \<and> 0 \<le> p_view_count p \<and>
     (if p_deleted_at p = None then p_deleted_reason p = None \<and> p_deleted_by p = None
      else p_deleted_reason p \<noteq> None) \<and>
     1 \<le> p_current_revision p \<and> RuneCount (p_title p) \<le> 200"

text \<open>The foreign keys; a window is referenced together with its canteen.\<close>

definition post_refs :: "db \<Rightarrow> post \<Rightarrow> bool" where
  "post_refs s p \<longleftrightarrow> user_exists s (p_author_id p) \<and>
     (case p_deleted_by p of None \<Rightarrow> True | Some u \<Rightarrow> user_exists s u) \<and>
     (case p_canteen_id p of None \<Rightarrow> True | Some c \<Rightarrow> list_ex (\<lambda>x. ct_id x = c) (canteens s)) \<and>
     (case (p_window_id p, p_canteen_id p) of
        (Some w, Some c) \<Rightarrow> list_ex (\<lambda>x. wn_id x = w \<and> wn_canteen_id x = c) (canteen_windows s) | _ \<Rightarrow> True) \<and>
     (case p_cuisine_id p of None \<Rightarrow> True | Some c \<Rightarrow> list_ex (\<lambda>x. cs_id x = c) (cuisines s))"

definition foreign_key_violation :: repo_error where
  "foreign_key_violation = RepoPlain ''foreign_key_violation''"

definition post_guard :: "db \<Rightarrow> post \<Rightarrow> repo_error option" where
  "post_guard s p = (if \<not> post_check p then Some (CheckViolation ''posts'')
     else if \<not> post_refs s p then Some foreign_key_violation else None)"

subsection \<open>Posts\<close>

text \<open>The counters have defaults, and GORM fills \<open>created_at\<close> and \<open>updated_at\<close> with one clock reading.\<close>

definition post_Create :: "post \<Rightarrow> time \<Rightarrow> (db, repo_error, post) act" where
  "post_Create post now = stmt (\<lambda>s.
     let p = post\<lparr>p_id := next_id p_id (posts s), p_like_count := 0, p_favorite_count := 0, p_comment_count := 0,
           p_view_count := 0, p_created_at := now, p_updated_at := now\<rparr>
     in case post_guard s p of Some err \<Rightarrow> (Inl err, s)
        | None \<Rightarrow> (Inr p, s\<lparr>posts := posts s @ [p]\<rparr>))"

definition update_post :: "(post \<Rightarrow> bool) \<Rightarrow> row_id \<Rightarrow> (post \<Rightarrow> post) \<Rightarrow> (db, repo_error, bool) act" where
  "update_post c postID f = stmt (\<lambda>s.
     case find (\<lambda>p. p_id p = postID \<and> c p) (posts s) of
       None \<Rightarrow> (Inr False, s)
     | Some old \<Rightarrow>
         (case post_guard s (f old) of Some err \<Rightarrow> (Inl err, s)
          | None \<Rightarrow> (Inr True, s\<lparr>posts := upd_where (\<lambda>p. p_id p = postID \<and> c p) f (posts s)\<rparr>)))"

text \<open>\<open>RowsAffected == 0\<close>\<close>

definition found :: "(db, repo_error, bool) act \<Rightarrow> (db, repo_error, unit) act" where
  "found m = bind m (\<lambda>hit. if hit then ret () else fail ErrNotFound)"

definition post_UpdateContent :: "row_id \<Rightarrow> (post \<Rightarrow> post) \<Rightarrow> (db, repo_error, unit) act" where
  "post_UpdateContent postID f = found (update_post (\<lambda>_. True) postID f)"

definition post_UpdateStatus :: "row_id \<Rightarrow> PostStatus \<Rightarrow> (db, repo_error, unit) act" where
  "post_UpdateStatus postID status = bind (update_post (\<lambda>_. True) postID (\<lambda>p. p\<lparr>p_status := status\<rparr>)) (\<lambda>_. ret ())"

definition post_SoftDelete :: "row_id \<Rightarrow> row_id \<Rightarrow> DeleteReason \<Rightarrow> time \<Rightarrow> (db, repo_error, unit) act" where
  "post_SoftDelete postID actorID reason now = found (update_post (\<lambda>p. p_deleted_at p = None) postID
     (\<lambda>p. p\<lparr>p_deleted_at := Some now, p_deleted_reason := Some reason, p_deleted_by := Some actorID\<rparr>))"

definition post_Restore :: "row_id \<Rightarrow> (db, repo_error, unit) act" where
  "post_Restore postID = found (update_post (\<lambda>p. p_deleted_at p \<noteq> None) postID
     (\<lambda>p. p\<lparr>p_deleted_at := None, p_deleted_reason := None, p_deleted_by := None\<rparr>))"

definition post_IncrementView :: "row_id \<Rightarrow> (db, repo_error, unit) act" where
  "post_IncrementView postID = found (update_post (\<lambda>p. p_deleted_at p = None) postID
     (\<lambda>p. p\<lparr>p_view_count := p_view_count p + 1\<rparr>))"

definition post_CurrentContentRevision :: "row_id \<Rightarrow> (db, repo_error, int) act" where
  "post_CurrentContentRevision postID =
     query_first (\<lambda>s. map_option p_current_revision (find (\<lambda>p. p_id p = postID) (posts s)))"

subsection \<open>Versions and their reviews\<close>

definition post_revisions :: "row_id \<Rightarrow> db \<Rightarrow> int list" where
  "post_revisions postID s = map ph_revision (filter (\<lambda>h. ph_post_id h = postID) (post_histories s))"

definition post_NextHistoryRevision :: "row_id \<Rightarrow> (db, repo_error, int) act" where
  "post_NextHistoryRevision postID = query (\<lambda>s. fold max (post_revisions postID s) 0 + 1)"

definition post_CreateHistory :: "post_history \<Rightarrow> (db, repo_error, unit) act" where
  "post_CreateHistory history = stmt (\<lambda>s.
     if ph_revision history < 1 then (Inl (CheckViolation ''post_histories''), s)
     else if list_ex (\<lambda>h. ph_post_id h = ph_post_id history \<and> ph_revision h = ph_revision history) (post_histories s)
     then (Inl (UniqueViolation ''uq_post_histories_revision''), s)
     else if \<not> user_exists s (ph_edited_by history) \<or> \<not> list_ex (\<lambda>p. p_id p = ph_post_id history) (posts s)
     then (Inl foreign_key_violation, s)
     else (Inr (), s\<lparr>post_histories := post_histories s @ [history\<lparr>ph_id := next_id ph_id (post_histories s)\<rparr>]\<rparr>))"

definition post_ListHistories :: "row_id \<Rightarrow> (db, repo_error, post_history list) act" where
  "post_ListHistories postID =
     query (\<lambda>s. sort_key (\<lambda>h. - ph_revision h) (filter (\<lambda>h. ph_post_id h = postID) (post_histories s)))"

definition post_FindHistory :: "row_id \<Rightarrow> int \<Rightarrow> (db, repo_error, post_history) act" where
  "post_FindHistory postID revision =
     query_first (\<lambda>s. first_by ph_id (\<lambda>h. ph_post_id h = postID \<and> ph_revision h = revision) (post_histories s))"

definition LatestPostModerationForRevision :: "row_id \<Rightarrow> int \<Rightarrow> (db, repo_error, moderation_record) act" where
  "LatestPostModerationForRevision postID revision = query_first (\<lambda>s. current_post_record s postID revision)"

definition post_ListHistoryModeration :: "row_id \<Rightarrow> (db, repo_error, moderation_record list) act" where
  "post_ListHistoryModeration postID = query (\<lambda>s.
     let rs = filter (\<lambda>r. mr_post_id r = Some postID \<and> mr_content_revision r \<noteq> None \<and> mr_reviewer_id r = None)
                (moderation_records s)
     in concat (map (newest_record_of rs) (sort (remdups (List.map_filter mr_content_revision rs)))))"

definition post_CreateModerationRecord :: "moderation_record \<Rightarrow> (db, repo_error, unit) act" where
  "post_CreateModerationRecord r = bind (CreateManualRecord r) (\<lambda>_. ret ())"

definition CreateAdministrativeRecord :: "moderation_record \<Rightarrow> (db, repo_error, row_id) act" where
  "CreateAdministrativeRecord r = CreateManualRecord r"

text \<open>\<open>SELECT DISTINCT ON (image_asset_id)\<close>: the newest record of each image.\<close>

definition LatestImageModerationByAssetIDs :: "row_id list \<Rightarrow> (db, repo_error, row_id \<rightharpoonup> moderation_record) act" where
  "LatestImageModerationByAssetIDs ids0 =
     (let ids = uniqueSortedIDs ids0 in
      if ids = [] then ret Map.empty
      else query (\<lambda>s i. if i \<in> set ids
        then first_by newest_first (\<lambda>r. mr_image_id r = Some i \<and> mr_scene r = SceneImage) (moderation_records s) else None))"

subsection \<open>Dictionaries\<close>

definition FindActiveCanteenByCode :: "string \<Rightarrow> (db, repo_error, canteen) act" where
  "FindActiveCanteenByCode code = query_first (\<lambda>s. first_by ct_id (\<lambda>c. ct_code c = code \<and> ct_is_active c) (canteens s))"

definition FindActiveCanteenByID :: "row_id \<Rightarrow> (db, repo_error, canteen) act" where
  "FindActiveCanteenByID canteenID =
     query_first (\<lambda>s. first_by ct_id (\<lambda>c. ct_id c = canteenID \<and> ct_is_active c) (canteens s))"

definition FindActiveWindow :: "row_id \<Rightarrow> (db, repo_error, canteen_window) act" where
  "FindActiveWindow windowID =
     query_first (\<lambda>s. first_by wn_id (\<lambda>w. wn_id w = windowID \<and> wn_is_active w) (canteen_windows s))"

definition FindActiveCuisineByName :: "string \<Rightarrow> (db, repo_error, cuisine) act" where
  "FindActiveCuisineByName name = query_first (\<lambda>s. first_by cs_id (\<lambda>c. cs_name c = name \<and> cs_is_active c) (cuisines s))"

definition FindActiveCuisineByID :: "row_id \<Rightarrow> (db, repo_error, cuisine) act" where
  "FindActiveCuisineByID cuisineID =
     query_first (\<lambda>s. first_by cs_id (\<lambda>c. cs_id c = cuisineID \<and> cs_is_active c) (cuisines s))"

definition FindActiveFlavorsByNames :: "string list \<Rightarrow> (db, repo_error, flavor list) act" where
  "FindActiveFlavorsByNames names =
     (if names = [] then ret [] else query (\<lambda>s. filter (\<lambda>f. fl_name f \<in> set names \<and> fl_is_active f) (flavors s)))"

subsection \<open>Images of a post\<close>

definition FindImagesByURLs :: "string list \<Rightarrow> (db, repo_error, image_asset list) act" where
  "FindImagesByURLs urls =
     (if urls = [] then ret [] else query (\<lambda>s. filter (\<lambda>a. img_public_url a \<in> set urls) (images s)))"

definition LockImagesByIDs :: "row_id list \<Rightarrow> (db, repo_error, image_asset list) act" where
  "LockImagesByIDs ids0 =
     (let ids = uniqueSortedIDs ids0 in
      if ids = [] then ret [] else query (\<lambda>s. sort_key img_id (filter (\<lambda>a. img_id a \<in> set ids) (images s))))"

definition PostImageIDs :: "row_id \<Rightarrow> (db, repo_error, row_id list) act" where
  "PostImageIDs postID =
     query (\<lambda>s. map pi_image_id (sort_key pi_position (filter (\<lambda>l. pi_post_id l = postID) (post_images s))))"

definition undeleted_reference :: "db \<Rightarrow> row_id \<Rightarrow> bool" where
  "undeleted_reference s imageID \<longleftrightarrow> list_ex (\<lambda>l. pi_image_id l = imageID \<and>
     list_ex (\<lambda>p. p_id p = pi_post_id l \<and> p_deleted_at p = None) (posts s)) (post_images s)"

definition ImageIDsWithoutUndeletedPostReferences :: "row_id list \<Rightarrow> (db, repo_error, row_id list) act" where
  "ImageIDsWithoutUndeletedPostReferences ids0 =
     (let ids = uniqueSortedIDs ids0 in
      if ids = [] then ret []
      else query (\<lambda>s. sort (map img_id (filter (\<lambda>a. img_id a \<in> set ids \<and> \<not> undeleted_reference s (img_id a)) (images s)))))"

text \<open>\<open>DELETE\<close> and one \<open>INSERT\<close> of all rows: each of the three relations is replaced as a whole.\<close>

definition image_rows :: "row_id \<Rightarrow> row_id list \<Rightarrow> post_image list" where
  "image_rows postID ids = map (\<lambda>(k, i). \<lparr>pi_post_id = postID, pi_position = int k, pi_image_id = i\<rparr>)
     (zip [0..<length ids] ids)"

definition insert_images :: "row_id \<Rightarrow> row_id list \<Rightarrow> (db, repo_error, unit) act" where
  "insert_images postID ids = stmt (\<lambda>s.
     if length ids > 9 then (Inl (CheckViolation ''post_images''), s)
     else if \<not> distinct ids \<or> list_ex (\<lambda>l. pi_post_id l = postID) (post_images s)
     then (Inl (UniqueViolation ''uq_post_images_post_asset''), s)
     else if \<not> list_all (\<lambda>i. list_ex (\<lambda>a. img_id a = i) (images s)) ids \<or> \<not> list_ex (\<lambda>p. p_id p = postID) (posts s)
     then (Inl foreign_key_violation, s)
     else (Inr (), s\<lparr>post_images := post_images s @ image_rows postID ids\<rparr>))"

definition ReplaceImages :: "row_id \<Rightarrow> row_id list \<Rightarrow> (db, repo_error, unit) act" where
  "ReplaceImages postID ids =
     seq (execute (\<lambda>s. ((), s\<lparr>post_images := filter (\<lambda>l. pi_post_id l \<noteq> postID) (post_images s)\<rparr>)))
         (if ids = [] then ret () else insert_images postID ids)"

definition flavor_rows :: "row_id \<Rightarrow> PostType \<Rightarrow> flavor list \<Rightarrow> (string \<rightharpoonup> FlavorStance) \<Rightarrow> post_flavor list" where
  "flavor_rows postID postType fs stances = map (\<lambda>f. \<lparr>pfl_post_id = postID, pfl_flavor_id = fl_id f,
     pfl_stance = (case stances (fl_name f) of None \<Rightarrow> StanceHas | Some st \<Rightarrow> st), pfl_post_type = postType\<rparr>) fs"

definition insert_flavors ::
  "row_id \<Rightarrow> PostType \<Rightarrow> flavor list \<Rightarrow> (string \<rightharpoonup> FlavorStance) \<Rightarrow> (db, repo_error, unit) act" where
  "insert_flavors postID postType fs stances = stmt (\<lambda>s.
     if list_ex (\<lambda>f. stances (fl_name f) = None \<or>
          (postType = TypeShare) \<noteq> (stances (fl_name f) = Some StanceHas)) fs
     then (Inl (CheckViolation ''post_flavors''), s)
     else if \<not> distinct (map fl_id fs) \<or> list_ex (\<lambda>l. pfl_post_id l = postID) (post_flavors s)
     then (Inl (UniqueViolation ''post_flavors_pkey''), s)
     else if \<not> list_all (\<lambda>f. list_ex (\<lambda>g. fl_id g = fl_id f) (flavors s)) fs \<or>
          \<not> list_ex (\<lambda>p. p_id p = postID \<and> p_post_type p = postType) (posts s)
     then (Inl foreign_key_violation, s)
     else (Inr (), s\<lparr>post_flavors := post_flavors s @ flavor_rows postID postType fs stances\<rparr>))"

definition ReplaceFlavors ::
  "row_id \<Rightarrow> PostType \<Rightarrow> flavor list \<Rightarrow> (string \<rightharpoonup> FlavorStance) \<Rightarrow> (db, repo_error, unit) act" where
  "ReplaceFlavors postID postType fs stances =
     seq (execute (\<lambda>s. ((), s\<lparr>post_flavors := filter (\<lambda>l. pfl_post_id l \<noteq> postID) (post_flavors s)\<rparr>)))
         (if fs = [] then ret () else insert_flavors postID postType fs stances)"

definition insert_tags :: "row_id \<Rightarrow> row_id list \<Rightarrow> (db, repo_error, unit) act" where
  "insert_tags postID ids = stmt (\<lambda>s.
     if \<not> distinct ids \<or> list_ex (\<lambda>l. ptg_post_id l = postID) (post_tags s)
     then (Inl (UniqueViolation ''post_tags_pkey''), s)
     else if \<not> list_all (\<lambda>i. list_ex (\<lambda>t. tg_id t = i) (tags s)) ids \<or> \<not> list_ex (\<lambda>p. p_id p = postID) (posts s)
     then (Inl foreign_key_violation, s)
     else (Inr (), s\<lparr>post_tags := post_tags s @ map (\<lambda>i. \<lparr>ptg_post_id = postID, ptg_tag_id = i\<rparr>) ids\<rparr>))"

definition ReplaceTags :: "row_id \<Rightarrow> row_id list \<Rightarrow> (db, repo_error, unit) act" where
  "ReplaceTags postID ids =
     seq (execute (\<lambda>s. ((), s\<lparr>post_tags := filter (\<lambda>l. ptg_post_id l \<noteq> postID) (post_tags s)\<rparr>)))
         (if ids = [] then ret () else insert_tags postID ids)"

subsection \<open>Tags\<close>

text \<open>The \<open>CHECK\<close>s of the table trim blanks only; its name column holds ten characters.\<close>

definition tag_check :: "string \<Rightarrow> bool" where
  "tag_check name \<longleftrightarrow> name \<noteq> [] \<and> hd name \<noteq> CHR '' '' \<and> last name \<noteq> CHR '' '' \<and> RuneCount name \<le> 10"

definition same_tag :: "db \<Rightarrow> string \<Rightarrow> tag \<Rightarrow> bool" where
  "same_tag s name t \<longleftrightarrow> db_lower s (tg_name t) = db_lower s name"

definition insert_tag :: "string \<Rightarrow> time \<Rightarrow> (db, repo_error, tag option) act" where
  "insert_tag name now = stmt (\<lambda>s.
     let t = \<lparr>tg_id = next_id tg_id (tags s), tg_name = name, tg_created_at = now, tg_updated_at = now,
           tg_moderation = ModPending, tg_deleted_at = None\<rparr>
     in if \<not> tag_check name then (Inl (CheckViolation ''tags''), s)
        else if list_ex (same_tag s name) (tags s) then (Inr None, s)
        else (Inr (Some t), s\<lparr>tags := tags s @ [t]\<rparr>))"

definition FindOrCreateTag :: "string \<Rightarrow> time \<Rightarrow> (db, repo_error, tag \<times> bool) act" where
  "FindOrCreateTag name now = bind (insert_tag name now) (\<lambda>created. case created of
      Some t \<Rightarrow> ret (t, True)
    | None \<Rightarrow> bind (query_first (\<lambda>s. first_by tg_id (same_tag s name) (tags s))) (\<lambda>t. ret (t, False)))"

text \<open>\<open>Updates\<close> on the model also sets \<open>updated_at\<close>, to the time of the statement.\<close>

definition SetTagModeration ::
  "row_id \<Rightarrow> ModerationStatus \<Rightarrow> time option \<Rightarrow> time \<Rightarrow> (db, repo_error, unit) act" where
  "SetTagModeration tagID status deletedAt now = checked ''tags''
     (\<lambda>s. case status of ModOther _ \<Rightarrow> \<not> list_ex (\<lambda>t. tg_id t = tagID) (tags s) | _ \<Rightarrow> True)
     (\<lambda>s. ((), s\<lparr>tags := upd_where (\<lambda>t. tg_id t = tagID)
        (\<lambda>t. t\<lparr>tg_moderation := status, tg_deleted_at := deletedAt, tg_updated_at := now\<rparr>) (tags s)\<rparr>))"

subsection \<open>What belongs to a post\<close>

type_synonym flavor_row = "string \<times> FlavorStance"

record PostRelations =
  rl_tags :: "row_id \<Rightarrow> string list"
  rl_flavors :: "row_id \<Rightarrow> flavor_row list"
  rl_images :: "row_id \<Rightarrow> string list"
  rl_liked :: "row_id \<Rightarrow> bool"
  rl_favorited :: "row_id \<Rightarrow> bool"
  rl_following :: "row_id \<Rightarrow> bool"

definition no_post_relations :: PostRelations where
  "no_post_relations = \<lparr>rl_tags = (\<lambda>_. []), rl_flavors = (\<lambda>_. []), rl_images = (\<lambda>_. []),
     rl_liked = (\<lambda>_. False), rl_favorited = (\<lambda>_. False), rl_following = (\<lambda>_. False)\<rparr>"

definition bytes_key :: "string \<Rightarrow> int list" where
  "bytes_key s = map byte_of s"

text \<open>\<open>ORDER BY lower(t.name), t.id\<close>, with the soft-deleted tags or without.\<close>

definition tags_of_post :: "bool \<Rightarrow> db \<Rightarrow> row_id \<Rightarrow> string list" where
  "tags_of_post onlyVisible s postID = map tg_name
     (sort_key (\<lambda>t. (bytes_key (db_collate s (db_lower s (tg_name t))), tg_id t))
       [t. l \<leftarrow> post_tags s, ptg_post_id l = postID, t \<leftarrow> tags s,
           tg_id t = ptg_tag_id l \<and> (onlyVisible \<longrightarrow> tg_deleted_at t = None)])"

definition loadPostTagRows :: "bool \<Rightarrow> row_id list \<Rightarrow> PostRelations \<Rightarrow> (db, repo_error, PostRelations) act" where
  "loadPostTagRows onlyVisible postIDs r =
     query (\<lambda>s. r\<lparr>rl_tags := (\<lambda>i. if i \<in> set postIDs then tags_of_post onlyVisible s i else [])\<rparr>)"

definition flavors_of_post :: "db \<Rightarrow> row_id \<Rightarrow> flavor_row list" where
  "flavors_of_post s postID = map (\<lambda>(f, l). (fl_name f, pfl_stance l))
     (sort_key (\<lambda>(f, l). (fl_sort_order f, fl_id f))
       [(f, l). l \<leftarrow> post_flavors s, pfl_post_id l = postID, f \<leftarrow> flavors s, fl_id f = pfl_flavor_id l])"

definition loadPostFlavors :: "row_id list \<Rightarrow> PostRelations \<Rightarrow> (db, repo_error, PostRelations) act" where
  "loadPostFlavors postIDs r =
     query (\<lambda>s. r\<lparr>rl_flavors := (\<lambda>i. if i \<in> set postIDs then flavors_of_post s i else [])\<rparr>)"

definition urls_of_post :: "db \<Rightarrow> row_id \<Rightarrow> string list" where
  "urls_of_post s postID =
     [img_public_url a. l \<leftarrow> sort_key pi_position (filter (\<lambda>l. pi_post_id l = postID) (post_images s)),
        a \<leftarrow> images s, img_id a = pi_image_id l]"

definition loadPostImages :: "row_id list \<Rightarrow> PostRelations \<Rightarrow> (db, repo_error, PostRelations) act" where
  "loadPostImages postIDs r =
     query (\<lambda>s. r\<lparr>rl_images := (\<lambda>i. if i \<in> set postIDs then urls_of_post s i else [])\<rparr>)"

definition loadPostInteractions :: "row_id list \<Rightarrow> row_id \<Rightarrow> PostRelations \<Rightarrow> (db, repo_error, PostRelations) act" where
  "loadPostInteractions postIDs userID r =
     bind (query (\<lambda>s. r\<lparr>rl_liked := (\<lambda>i. i \<in> set postIDs \<and>
        list_ex (\<lambda>l. pl_user_id l = userID \<and> pl_post_id l = i) (post_likes s))\<rparr>)) (\<lambda>r1.
     query (\<lambda>s. r1\<lparr>rl_favorited := (\<lambda>i. i \<in> set postIDs \<and>
        list_ex (\<lambda>l. fv_user_id l = userID \<and> fv_post_id l = i) (favorites s))\<rparr>))"

definition loadAuthorFollows :: "row_id list \<Rightarrow> row_id \<Rightarrow> PostRelations \<Rightarrow> (db, repo_error, PostRelations) act" where
  "loadAuthorFollows authorIDs0 userID r =
     (let authorIDs = uniqueSortedIDs authorIDs0 in
      if authorIDs = [] then ret r
      else query (\<lambda>s. r\<lparr>rl_following := (\<lambda>i. i \<in> set authorIDs \<and>
        list_ex (\<lambda>f. fw_follower_id f = userID \<and> fw_following_id f = i) (follows s))\<rparr>))"

definition post_LoadRelations ::
  "row_id list \<Rightarrow> row_id list \<Rightarrow> row_id \<Rightarrow> (db, repo_error, PostRelations) act" where
  "post_LoadRelations postIDs authorIDs currentUserID =
     (if postIDs = [] then ret no_post_relations
      else bind (loadPostTagRows True postIDs no_post_relations) (\<lambda>r1.
           bind (loadPostFlavors postIDs r1) (\<lambda>r2.
           bind (loadPostImages postIDs r2) (\<lambda>r3.
           if currentUserID = 0 then ret r3
           else bind (loadPostInteractions postIDs currentUserID r3) (\<lambda>r4.
                loadAuthorFollows authorIDs currentUserID r4)))))"

definition LoadSnapshotRelations :: "row_id \<Rightarrow> (db, repo_error, PostRelations) act" where
  "LoadSnapshotRelations postID =
     bind (loadPostTagRows False [postID] no_post_relations) (\<lambda>r1.
     bind (loadPostFlavors [postID] r1) (\<lambda>r2. loadPostImages [postID] r2))"

end
