(* ===== verification/Post_Write.thy ===== *)
theory Post_Write
  imports Post_Store
begin

section \<open>Posts as their authors write them\<close>

text \<open>
  Models \<open>internal/service/post_write.go\<close> and the operations on a post in
  \<open>internal/service/admin_content.go\<close>: creating, editing, deleting and restoring a post, with
  its versions, its review and the access to its images.  The wiring is that of
  \<open>internal/router\<close>: image access goes through the durable controller.

  Clock readings: \<open>clk 0\<close> is the start of the transaction, which the server's \<open>now()\<close> gives, and
  \<open>clk 1\<close> the first reading of the service.  The numbers tell the readings of one request apart and say
  nothing of their order: a restoration uses those from \<open>clk 100\<close> for its images.  The \<open>k\<close>-th tag takes \<open>clk (3 k + 2)\<close> and the two
  after it, the review of the text comes after all tags.
\<close>

record PostService =
  psv_moderator :: ContentModerator
  psv_cursor :: CursorCodec
  psv_lib :: auth_lib
  psv_decimal :: decimal_lib

definition NewPostServiceWithCursorSecret ::
  "auth_lib \<Rightarrow> decimal_lib \<Rightarrow> aead_lib \<Rightarrow> ContentModerator option \<Rightarrow> string \<Rightarrow> PostService" where
  "NewPostServiceWithCursorSecret lib dl aead moderator secret =
     \<lparr>psv_moderator = (case moderator of None \<Rightarrow> UnavailableContentModerator | Some m \<Rightarrow> m),
      psv_cursor = NewCursorCodec lib aead secret ''posts.latest'', psv_lib = lib, psv_decimal = dl\<rparr>"

record resolvedPostPayload = normalizedPostPayload +
  rp_canteen_id :: "row_id option"
  rp_cuisine_id :: "row_id option"
  rp_flavors :: "flavor list"
  rp_image_assets :: "image_asset list"
  rp_image_ids :: "row_id list"

record PostCreateResult =
  pcr_id :: row_id
  pcr_post_type :: PostType
  pcr_status :: PostStatus

subsection \<open>Errors\<close>

definition postRepositoryError :: "repo_error \<Rightarrow> go_error" where
  "postRepositoryError err = (if err = ErrNotFound then NotFound (Some BizPostNotFound) else internal_of err)"

definition dictionaryError :: "repo_error \<Rightarrow> go_error" where
  "dictionaryError err = (if err = ErrNotFound then NotFound (Some BizDictItemNotFound) else internal_of err)"

definition historyWriteError :: "repo_error \<Rightarrow> go_error" where
  "historyWriteError err =
     (if err = UniqueViolation ''uq_post_histories_revision'' then Conflict (Some BizConflict) else internal_of err)"

subsection \<open>Resolving a payload\<close>

text \<open>The later of two entries with the same key stays in a Go map.\<close>

definition last_by :: "('r \<Rightarrow> string) \<Rightarrow> 'r list \<Rightarrow> string \<Rightarrow> 'r option" where
  "last_by key rs k = find (\<lambda>r. key r = k) (rev rs)"

fun pick_flavors :: "(string \<Rightarrow> flavor option) \<Rightarrow> string list \<Rightarrow> go_error + flavor list" where
  "pick_flavors byName [] = Inr []"
| "pick_flavors byName (n # ns) = (case byName n of
      None \<Rightarrow> Inl (NotFound (Some BizDictItemNotFound))
    | Some f \<Rightarrow> and_then (pick_flavors byName ns) (\<lambda>fs. Inr (f # fs)))"

definition resolveDictionaries ::
  "normalizedPostPayload \<Rightarrow> ('fx req, go_error, row_id option \<times> row_id option \<times> flavor list) act" where
  "resolveDictionaries v =
     bind (case np_canteen_code v of None \<Rightarrow> ret None
       | Some code \<Rightarrow> bind (db_call dictionaryError (FindActiveCanteenByCode code)) (\<lambda>c. ret (Some (ct_id c)))) (\<lambda>canteenID.
     seq (case np_window_id v of None \<Rightarrow> ret ()
       | Some w \<Rightarrow> bind (db_call dictionaryError (FindActiveWindow w)) (\<lambda>window.
           if canteenID = None \<or> Some (wn_canteen_id window) \<noteq> canteenID
           then fail (Conflict (Some BizWindowNotInCanteen)) else ret ()))
    (bind (case np_cuisine v of None \<Rightarrow> ret None
       | Some name \<Rightarrow> bind (db_call dictionaryError (FindActiveCuisineByName name)) (\<lambda>c. ret (Some (cs_id c)))) (\<lambda>cuisineID.
     bind (db_call internal_of (FindActiveFlavorsByNames (np_flavor_names v))) (\<lambda>found.
     bind (lift_result (pick_flavors (last_by fl_name found) (np_flavor_names v))) (\<lambda>fs.
     ret (canteenID, cuisineID, fs))))))"

definition image_usable :: "image_asset option \<Rightarrow> row_id \<Rightarrow> go_error + image_asset" where
  "image_usable asset authorID = (case asset of
      None \<Rightarrow> Inl (NotFound (Some BizImageNotFound))
    | Some a \<Rightarrow>
        if IsPurgedImageURL (img_public_url a) then Inl (NotFound (Some BizImageNotFound))
        else if img_status a \<noteq> ImgPending \<and> img_status a \<noteq> ImgReady then Inl (Conflict (Some BizImageNotApproved))
        else if img_uploader_id a \<noteq> Some authorID then Inl (Forbidden (Some BizImageNotOwned))
        else if img_purpose a \<noteq> PurposePost then Inl (Conflict (Some BizImagePurposeWrong))
        else if img_moderation a = ModBlock then Inl (Conflict (Some BizImageNotApproved))
        else Inr a)"

fun validateAndOrderImages :: "string list \<Rightarrow> image_asset list \<Rightarrow> row_id \<Rightarrow> go_error + image_asset list" where
  "validateAndOrderImages [] assets authorID = Inr []"
| "validateAndOrderImages (u # us) assets authorID =
     and_then (image_usable (last_by img_public_url assets u) authorID) (\<lambda>a.
     and_then (validateAndOrderImages us assets authorID) (\<lambda>rest. Inr (a # rest)))"

definition resolvePostPayload ::
  "normalizedPostPayload \<Rightarrow> row_id \<Rightarrow> row_id list \<Rightarrow> ('fx req, go_error, resolvedPostPayload) act" where
  "resolvePostPayload v authorID oldImageIDs =
     bind (resolveDictionaries v) (\<lambda>(canteenID, cuisineID, fs).
     bind (db_call internal_of (FindImagesByURLs (np_images v))) (\<lambda>assets.
     bind (db_call internal_of (LockImagesByIDs (oldImageIDs @ map img_id assets))) (\<lambda>locked.
     bind (lift_result (validateAndOrderImages (np_images v) locked authorID)) (\<lambda>ordered.
     ret (normalizedPostPayload.extend v \<lparr>rp_canteen_id = canteenID, rp_cuisine_id = cuisineID, rp_flavors = fs,
            rp_image_assets = ordered, rp_image_ids = map img_id ordered\<rparr>)))))"

subsection \<open>Rows and snapshots\<close>

definition budgetColumns :: "BudgetRangeInput option \<Rightarrow> int option \<times> int option" where
  "budgetColumns v = (case v of None \<Rightarrow> (None, None) | Some b \<Rightarrow> (Some (bg_min b), Some (bg_max b)))"

definition newPostModel :: "resolvedPostPayload \<Rightarrow> row_id \<Rightarrow> PostStatus \<Rightarrow> post" where
  "newPostModel r authorID status =
     \<lparr>p_id = 0, p_author_id = authorID, p_post_type = np_post_type r, p_share_type = np_share_type r,
      p_status = status, p_category = np_category r, p_title = np_title r, p_content = np_content r,
      p_current_revision = 1, p_canteen_id = rp_canteen_id r, p_window_id = np_window_id r,
      p_cuisine_id = rp_cuisine_id r, p_price = np_price r, p_budget_min = fst (budgetColumns (np_budget r)),
      p_budget_max = snd (budgetColumns (np_budget r)), p_like_count = 0, p_favorite_count = 0,
      p_comment_count = 0, p_view_count = 0, p_deleted_at = None, p_deleted_reason = None, p_deleted_by = None,
      p_created_at = 0, p_updated_at = 0\<rparr>"

text \<open>The columns of the map \<open>contentFields\<close>, assigned to a row.\<close>

definition contentFields :: "resolvedPostPayload \<Rightarrow> PostStatus \<Rightarrow> time \<Rightarrow> post \<Rightarrow> post" where
  "contentFields r status now p =
     p\<lparr>p_share_type := np_share_type r, p_status := status, p_category := np_category r, p_title := np_title r,
       p_content := np_content r, p_canteen_id := rp_canteen_id r, p_window_id := np_window_id r,
       p_cuisine_id := rp_cuisine_id r, p_price := np_price r, p_budget_min := fst (budgetColumns (np_budget r)),
       p_budget_max := snd (budgetColumns (np_budget r)), p_updated_at := now\<rparr>"

definition at_revision :: "int \<Rightarrow> post \<Rightarrow> post" where
  "at_revision revision p = p\<lparr>p_current_revision := revision\<rparr>"

definition snapshotTags :: "auth_lib \<Rightarrow> string list \<Rightarrow> string list" where
  "snapshotTags lib values = sort_key (\<lambda>t. (bytes_key (lib_to_lower lib t), bytes_key t)) values"

definition snapshotFromCurrent :: "auth_lib \<Rightarrow> post \<Rightarrow> PostRelations \<Rightarrow> postSnapshot" where
  "snapshotFromCurrent lib p r =
     \<lparr>ss_post_type = p_post_type p, ss_share_type = p_share_type p, ss_title = p_title p, ss_content = p_content p,
      ss_category = p_category p, ss_canteen_id = p_canteen_id p, ss_canteen_window_id = p_window_id p,
      ss_cuisine_id = p_cuisine_id p, ss_price = p_price p, ss_budget_min = p_budget_min p,
      ss_budget_max = p_budget_max p, ss_tags = snapshotTags lib (rl_tags r (p_id p)),
      ss_flavors = rl_flavors r (p_id p), ss_images = rl_images r (p_id p)\<rparr>"

definition appendPostHistory ::
  "auth_lib \<Rightarrow> post \<Rightarrow> int \<Rightarrow> row_id \<Rightarrow> string option \<Rightarrow> time \<Rightarrow> (db, repo_error, unit) act" where
  "appendPostHistory lib p revision editorID editReason editedAt =
     bind (LoadSnapshotRelations (p_id p)) (\<lambda>relations.
     post_CreateHistory \<lparr>ph_id = 0, ph_post_id = p_id p, ph_revision = revision, ph_edited_by = editorID,
       ph_edited_at = editedAt, ph_snapshot = snapshotFromCurrent lib p relations, ph_edit_reason = editReason\<rparr>)"

subsection \<open>Review\<close>

definition moderationRecordForTarget ::
  "row_id option \<Rightarrow> row_id option \<Rightarrow> ModerationResult \<Rightarrow> time \<Rightarrow> moderation_record" where
  "moderationRecordForTarget postID tagID result now =
     \<lparr>mr_id = 0, mr_post_id = postID, mr_comment_id = None, mr_image_id = None, mr_tag_id = tagID,
      mr_user_id = None, mr_field = None, mr_username_candidate = None, mr_username_revision = None,
      mr_content_revision = None, mr_scene = SceneText, mr_provider = ms_provider result,
      mr_provider_job_id = ms_job_id result, mr_verdict = ms_verdict result, mr_labels = ms_labels result,
      mr_score = ms_score result, mr_raw_response = ms_raw result, mr_reviewer_id = None, mr_reviewed_at = None,
      mr_supersedes_id = None, mr_created_at = now\<rparr>"

definition moderationRecordForPost :: "row_id \<Rightarrow> int \<Rightarrow> ModerationResult \<Rightarrow> time \<Rightarrow> moderation_record" where
  "moderationRecordForPost postID contentRevision result now =
     (moderationRecordForTarget (Some postID) None result now)\<lparr>mr_content_revision := Some contentRevision\<rparr>"

definition reviewed_text :: "resolvedPostPayload \<Rightarrow> string" where
  "reviewed_text r = np_title r @ CHR 0x0A # np_content r"

definition finishModeration ::
  "PostService \<Rightarrow> time \<Rightarrow> row_id \<Rightarrow> int \<Rightarrow> resolvedPostPayload \<Rightarrow> PostStatus mod_act" where
  "finishModeration srv now postID contentRevision r =
     (if \<not> np_publish r then ret PostDraft
      else bind (lift_result (psv_moderator srv \<lparr>mq_target = TargetPost, mq_field = None, mq_text = reviewed_text r\<rparr>)) (\<lambda>result.
       seq (opt_error (validateModerationResult result))
      (seq (db_call internal_of (post_CreateModerationRecord (moderationRecordForPost postID contentRevision result now)))
      (seq (verdict_alert TargetPost postID result)
           (lift_result (aggregatePostModeration (ms_verdict result) (rp_image_assets r)))))))"

definition moderateTag :: "PostService \<Rightarrow> (nat \<Rightarrow> time) \<Rightarrow> nat \<Rightarrow> tag \<Rightarrow> unit mod_act" where
  "moderateTag srv clk k tag =
     bind (lift_result (psv_moderator srv \<lparr>mq_target = TargetTag, mq_field = None, mq_text = tg_name tag\<rparr>)) (\<lambda>result.
     seq (opt_error (validateModerationResult result))
    (seq (db_call internal_of (SetTagModeration (tg_id tag) (status_of_verdict (ms_verdict result))
            (if ms_verdict result = VerdictBlock then Some (clk k) else None) (clk (k + 1))))
    (seq (db_call internal_of (post_CreateModerationRecord
            (moderationRecordForTarget None (Some (tg_id tag)) result (clk (k + 2)))))
         (verdict_alert TargetTag (tg_id tag) result))))"

fun replaceTags :: "PostService \<Rightarrow> (nat \<Rightarrow> time) \<Rightarrow> nat \<Rightarrow> string list \<Rightarrow> (row_id list \<times> string list) mod_act" where
  "replaceTags srv clk k [] = ret ([], [])"
| "replaceTags srv clk k (name # names) =
     bind (db_call RepoErr (FindOrCreateTag name (clk 0))) (\<lambda>(tag, created).
     if tg_deleted_at tag \<noteq> None then fail (Conflict (Some BizContentRejected))
     else seq (if created then moderateTag srv clk k tag else ret ())
       (bind (replaceTags srv clk (k + 3) names) (\<lambda>(ids, canonical).
        ret (tg_id tag # ids, tg_name tag # canonical))))"

definition applyPostRelations ::
  "PostService \<Rightarrow> (nat \<Rightarrow> time) \<Rightarrow> row_id \<Rightarrow> resolvedPostPayload \<Rightarrow> resolvedPostPayload mod_act" where
  "applyPostRelations srv clk postID r =
     bind (replaceTags srv clk 2 (np_tags r)) (\<lambda>(tagIDs, canonicalTags).
     seq (db_call RepoErr (ReplaceTags postID tagIDs))
    (seq (db_call RepoErr (ReplaceFlavors postID (np_post_type r) (rp_flavors r) (np_flavor_stances r)))
    (seq (db_call RepoErr (ReplaceImages postID (rp_image_ids r)))
         (ret (r\<lparr>np_tags := canonicalTags\<rparr>)))))"

text \<open>The reading after those of the tags.\<close>

definition review_time :: "(nat \<Rightarrow> time) \<Rightarrow> resolvedPostPayload \<Rightarrow> time" where
  "review_time clk r = clk (3 * length (np_tags r) + 2)"

subsection \<open>Creating and editing\<close>

definition initial_status :: "resolvedPostPayload \<Rightarrow> PostStatus" where
  "initial_status r = (if np_publish r then PostPending else PostDraft)"

definition post_service_Create ::
  "PostService \<Rightarrow> (nat \<Rightarrow> time) \<Rightarrow> CreatePostInput \<Rightarrow> row_id \<Rightarrow> PostCreateResult mod_act" where
  "post_service_Create srv clk input authorID =
     bind (lift_result (normalizeCreatePost (psv_lib srv) input)) (\<lambda>normalized.
     bind (resolvePostPayload normalized authorID []) (\<lambda>resolved.
     bind (db_call internal_of (post_Create (newPostModel resolved authorID (initial_status resolved)) (clk 1))) (\<lambda>post.
     bind (map_err Internal (applyPostRelations srv clk (p_id post) resolved)) (\<lambda>resolved'.
     seq (db_call historyWriteError (appendPostHistory (psv_lib srv) post 1 authorID None (p_created_at post)))
    (bind (finishModeration srv (review_time clk resolved) (p_id post) 1 resolved') (\<lambda>status.
     seq (db_call internal_of (post_UpdateStatus (p_id post) status))
         (ret \<lparr>pcr_id = p_id post, pcr_post_type = p_post_type post, pcr_status = status\<rparr>)))))))"

definition replacePostContentVersion ::
  "PostService \<Rightarrow> (nat \<Rightarrow> time) \<Rightarrow> post \<Rightarrow> row_id \<Rightarrow> string option \<Rightarrow> resolvedPostPayload \<Rightarrow> PostStatus \<Rightarrow> time \<Rightarrow> int mod_act" where
  "replacePostContentVersion srv clk post editorID editReason resolved status now =
     bind (db_call historyWriteError (post_NextHistoryRevision (p_id post))) (\<lambda>revision.
     seq (db_call postRepositoryError
           (post_UpdateContent (p_id post) (at_revision revision \<circ> contentFields resolved status now)))
    (seq (map_err Internal (applyPostRelations srv clk (p_id post) resolved))
    (let version = (newPostModel resolved (p_author_id post) status)
           \<lparr>p_id := p_id post, p_current_revision := revision, p_created_at := p_created_at post, p_updated_at := now\<rparr>
     in seq (db_call historyWriteError (appendPostHistory (psv_lib srv) version revision editorID editReason now))
            (ret revision))))"

definition post_service_Update ::
  "PostService \<Rightarrow> (nat \<Rightarrow> time) \<Rightarrow> row_id \<Rightarrow> UpdatePostInput \<Rightarrow> row_id \<Rightarrow> PostCreateResult mod_act" where
  "post_service_Update srv clk postID input authorID =
     bind (db_call postRepositoryError (post_LockByID postID True)) (\<lambda>post.
     if p_deleted_at post \<noteq> None then fail (NotFound (Some BizPostDeleted))
     else if p_author_id post \<noteq> authorID then fail (Forbidden (Some BizNotOwner))
     else bind (lift_result (normalizeUpdatePost (psv_lib srv) input post)) (\<lambda>normalized.
     bind (db_call internal_of (PostImageIDs postID)) (\<lambda>oldImageIDs.
     bind (resolvePostPayload normalized authorID oldImageIDs) (\<lambda>resolved.
     bind (replacePostContentVersion srv clk post authorID (np_edit_reason resolved) resolved (initial_status resolved) (clk 1)) (\<lambda>revision.
     bind (finishModeration srv (review_time clk resolved) postID revision resolved) (\<lambda>status.
     seq (db_call internal_of (post_UpdateStatus postID status))
         (ret \<lparr>pcr_id = postID, pcr_post_type = p_post_type post, pcr_status = status\<rparr>)))))))"

subsection \<open>Deleting\<close>

definition adminRestoreProvider :: string where "adminRestoreProvider = ''admin_restore''"
definition adminPostDeleteProvider :: string where "adminPostDeleteProvider = ''admin_post_delete''"

definition image_admin_record ::
  "row_id \<Rightarrow> string \<Rightarrow> ModerationVerdict \<Rightarrow> string \<Rightarrow> row_id \<Rightarrow> time \<Rightarrow> moderation_record" where
  "image_admin_record imageID provider verdict raw actorID now =
     \<lparr>mr_id = 0, mr_post_id = None, mr_comment_id = None, mr_image_id = Some imageID, mr_tag_id = None,
      mr_user_id = None, mr_field = None, mr_username_candidate = None, mr_username_revision = None,
      mr_content_revision = None, mr_scene = SceneImage, mr_provider = provider, mr_provider_job_id = None,
      mr_verdict = verdict, mr_labels = [], mr_score = None, mr_raw_response = Some raw,
      mr_reviewer_id = Some actorID, mr_reviewed_at = Some now, mr_supersedes_id = None, mr_created_at = now\<rparr>"

definition image_admin_change ::
  "string \<Rightarrow> ModerationVerdict \<Rightarrow> string \<Rightarrow> row_id \<Rightarrow> image_asset option \<Rightarrow> time \<Rightarrow> time \<Rightarrow> (db, repo_error, unit) act" where
  "image_admin_change provider verdict raw actorID asset now accessNow = (case asset of None \<Rightarrow> ret ()
     | Some a \<Rightarrow>
         bind (CreateAdministrativeRecord (image_admin_record (img_id a) provider verdict raw actorID now)) (\<lambda>recordID.
         seq (UpdateImageModeration (img_id a) (status_of_verdict verdict))
             (applyImageAccess asset recordID verdict accessNow)))"

definition applyAdminPostDeleteImage ::
  "row_id \<Rightarrow> row_id \<Rightarrow> image_asset option \<Rightarrow> time \<Rightarrow> time \<Rightarrow> (db, repo_error, unit) act" where
  "applyAdminPostDeleteImage postID actorID asset now accessNow =
     image_admin_change adminPostDeleteProvider VerdictBlock
       (''{\"action\":\"admin_delete_post\",\"post_id\":'' @ decimal postID @ ''}'') actorID asset now accessNow"

definition applyAdminPostRestoreImage ::
  "row_id \<Rightarrow> row_id \<Rightarrow> image_asset option \<Rightarrow> row_id \<Rightarrow> time \<Rightarrow> time \<Rightarrow> (db, repo_error, unit) act" where
  "applyAdminPostRestoreImage postID actorID asset sourceRecordID now accessNow =
     image_admin_change adminRestoreProvider VerdictPass
       (''{\"action\":\"restore_post_image\",\"post_id\":'' @ decimal postID @ '',\"source_record_id\":'' @
        decimal sourceRecordID @ ''}'') actorID asset now accessNow"

fun block_images ::
  "(nat \<Rightarrow> time) \<Rightarrow> nat \<Rightarrow> row_id \<Rightarrow> row_id \<Rightarrow> (row_id \<Rightarrow> image_asset option) \<Rightarrow> row_id list \<Rightarrow> time \<Rightarrow> (db, repo_error, unit) act" where
  "block_images clk k postID actorID byID [] now = ret ()"
| "block_images clk k postID actorID byID (i # ids) now =
     seq (if (case byID i of None \<Rightarrow> False | Some a \<Rightarrow> img_moderation a = ModBlock) then ret ()
          else applyAdminPostDeleteImage postID actorID (byID i) now (clk k))
         (block_images clk (Suc k) postID actorID byID ids now)"

definition deletePostWithHistoryAndImages ::
  "(nat \<Rightarrow> time) \<Rightarrow> post \<Rightarrow> row_id \<Rightarrow> DeleteReason \<Rightarrow> time \<Rightarrow> unit mod_act" where
  "deletePostWithHistoryAndImages clk post actorID reason now =
     bind (db_call internal_of (PostImageIDs (p_id post))) (\<lambda>imageIDs.
     bind (db_call internal_of (LockImagesByIDs imageIDs)) (\<lambda>assets.
     seq (db_call postRepositoryError (post_SoftDelete (p_id post) actorID reason now))
    (bind (db_call internal_of (ImageIDsWithoutUndeletedPostReferences imageIDs)) (\<lambda>blockIDs.
     db_call internal_of (block_images clk 2 (p_id post) actorID (\<lambda>i. find (\<lambda>a. img_id a = i) assets) blockIDs now)))))"

definition post_service_Delete :: "(nat \<Rightarrow> time) \<Rightarrow> row_id \<Rightarrow> row_id \<Rightarrow> unit mod_act" where
  "post_service_Delete clk postID authorID =
     bind (db_call postRepositoryError (post_LockByID postID True)) (\<lambda>post.
     if p_deleted_at post \<noteq> None then fail (NotFound (Some BizPostDeleted))
     else if p_author_id post \<noteq> authorID then fail (Forbidden (Some BizNotOwner))
     else deletePostWithHistoryAndImages clk post authorID DeletedByAuthor (clk 1))"

definition admin_DeletePost :: "(nat \<Rightarrow> time) \<Rightarrow> row_id \<Rightarrow> row_id \<Rightarrow> unit mod_act" where
  "admin_DeletePost clk postID actorID =
     bind (db_call (ToAPIError BizPostNotFound) (post_LockByID postID True)) (\<lambda>post.
     if p_deleted_at post \<noteq> None then fail (NotFound (Some BizPostDeleted))
     else deletePostWithHistoryAndImages clk post actorID
            (if p_author_id post = actorID then DeletedByAuthor else DeletedByAdmin) (clk 1))"

subsection \<open>Restoring\<close>

fun restore_images ::
  "(nat \<Rightarrow> time) \<Rightarrow> nat \<Rightarrow> row_id \<Rightarrow> row_id \<Rightarrow> (row_id \<rightharpoonup> moderation_record) \<Rightarrow> image_asset list \<Rightarrow> time \<Rightarrow> (db, repo_error, unit) act" where
  "restore_images clk k postID actorID latest [] now = ret ()"
| "restore_images clk k postID actorID latest (a # rest) now =
     seq (if img_moderation a \<noteq> ModBlock then ret ()
          else case latest (img_id a) of
            None \<Rightarrow> ret ()
          | Some r \<Rightarrow> if mr_provider r \<noteq> adminPostDeleteProvider then ret ()
              else applyAdminPostRestoreImage postID actorID (Some a) (mr_id r) now (clk k))
         (restore_images clk (Suc k) postID actorID latest rest now)"

definition restoreAdminPostDeleteImages ::
  "(nat \<Rightarrow> time) \<Rightarrow> nat \<Rightarrow> row_id \<Rightarrow> row_id \<Rightarrow> image_asset list \<Rightarrow> time \<Rightarrow> (db, repo_error, unit) act" where
  "restoreAdminPostDeleteImages clk k postID actorID assets now =
     bind (LatestImageModerationByAssetIDs (map img_id (filter (\<lambda>a. img_moderation a = ModBlock) assets))) (\<lambda>latest.
     restore_images clk k postID actorID latest assets now)"

definition restoreDeletedSnapshotImages ::
  "(nat \<Rightarrow> time) \<Rightarrow> nat \<Rightarrow> row_id \<Rightarrow> row_id \<Rightarrow> string list \<Rightarrow> row_id list \<Rightarrow> unit mod_act" where
  "restoreDeletedSnapshotImages clk k postID actorID urls oldImageIDs =
     bind (db_call internal_of (FindImagesByURLs urls)) (\<lambda>assets.
     bind (db_call internal_of (LockImagesByIDs (oldImageIDs @ map img_id assets))) (\<lambda>locked.
     db_call internal_of (restoreAdminPostDeleteImages clk (Suc k) postID actorID
       (filter (\<lambda>a. img_id a \<in> img_id ` set assets) locked) (clk k))))"

text \<open>The JSON of a snapshot always decodes; a text for the price is parsed again.\<close>

definition updateInputFromSnapshot ::
  "decimal_lib \<Rightarrow> postSnapshot \<Rightarrow> string option \<Rightarrow> ('fx req, go_error, UpdatePostInput) act" where
  "updateInputFromSnapshot dl snap editReason =
     bind (case ss_canteen_id snap of None \<Rightarrow> ret None
       | Some i \<Rightarrow> bind (db_call dictionaryError (FindActiveCanteenByID i)) (\<lambda>c. ret (Some (ct_code c)))) (\<lambda>canteenCode.
     bind (case ss_cuisine_id snap of None \<Rightarrow> ret None
       | Some i \<Rightarrow> bind (db_call dictionaryError (FindActiveCuisineByID i)) (\<lambda>c. ret (Some (cs_name c)))) (\<lambda>cuisine.
     bind (case ss_price snap of None \<Rightarrow> ret None
       | Some a \<Rightarrow> (case money_Parse dl (Amount_String dl a) of
           Inl err \<Rightarrow> fail (Internal err) | Inr price \<Rightarrow> ret (Some price))) (\<lambda>price.
     let share = (ss_post_type snap = TypeShare);
         named = (\<lambda>st. map fst (filter (\<lambda>f. snd f = st) (ss_flavors snap)));
         preferences = \<lparr>pf_avoid = named StanceAvoid, pf_prefer = named StancePrefer\<rparr>
     in ret \<lparr>upi_payload = \<lparr>py_title = ss_title snap, py_content = ss_content snap, py_category = category_text (ss_category snap),
              py_share_type = map_option share_type_text (ss_share_type snap), py_canteen_code = canteenCode,
              py_window_id = ss_canteen_window_id snap, py_cuisine = cuisine, py_price = price,
              py_flavors = (if share then map fst (ss_flavors snap) else []), py_tags = ss_tags snap,
              py_images = ss_images snap,
              py_budget = (case (ss_budget_min snap, ss_budget_max snap) of
                 (Some a, Some b) \<Rightarrow> Some \<lparr>bg_min = a, bg_max = b\<rparr> | _ \<Rightarrow> None),
              py_preferences = (if \<not> share \<and> (pf_prefer preferences \<noteq> [] \<or> pf_avoid preferences \<noteq> [])
                 then Some preferences else None)\<rparr>,
            upi_post_type = Some (post_type_text (ss_post_type snap)), upi_status = Some ''pending'',
            upi_edit_reason = editReason\<rparr>)))"

definition reviewRestoredPost ::
  "PostService \<Rightarrow> time \<Rightarrow> row_id \<Rightarrow> int \<Rightarrow> resolvedPostPayload \<Rightarrow> PostStatus mod_act" where
  "reviewRestoredPost srv now postID contentRevision resolved =
     bind (finishModeration srv now postID contentRevision resolved) (\<lambda>status.
     seq (db_call internal_of (post_UpdateStatus postID status)) (ret status))"

definition restored_status :: "moderation_record option \<Rightarrow> resolvedPostPayload \<Rightarrow> go_error + PostStatus" where
  "restored_status source resolved = (case source of
      None \<Rightarrow> Inr (initial_status resolved)
    | Some r \<Rightarrow> aggregatePostModeration (mr_verdict r) (rp_image_assets resolved))"

definition post_service_RestoreHistory ::
  "PostService \<Rightarrow> (nat \<Rightarrow> time) \<Rightarrow> row_id \<Rightarrow> int \<Rightarrow> string option \<Rightarrow> row_id \<Rightarrow> PostCreateResult mod_act" where
  "post_service_RestoreHistory srv clk postID revision editReason authorID =
     bind (db_call postRepositoryError (post_LockByID postID True)) (\<lambda>post.
     if p_author_id post \<noteq> authorID then fail (Forbidden (Some BizNotOwner))
     else bind (db_call (ToAPIError BizNotFound) (post_FindHistory postID revision)) (\<lambda>history.
     bind (found_or_none (LatestPostModerationForRevision postID revision)) (\<lambda>source.
     bind (updateInputFromSnapshot (psv_decimal srv) (ph_snapshot history) editReason) (\<lambda>input.
     bind (lift_result (normalizeUpdatePost (psv_lib srv) input post)) (\<lambda>normalized.
     bind (db_call internal_of (PostImageIDs postID)) (\<lambda>oldImageIDs.
     seq (if p_deleted_at post \<noteq> None
          then restoreDeletedSnapshotImages clk 100 postID authorID (ss_images (ph_snapshot history)) oldImageIDs
          else ret ())
    (bind (resolvePostPayload normalized authorID oldImageIDs) (\<lambda>resolved.
     bind (lift_result (restored_status source resolved)) (\<lambda>status.
     seq (db_call postRepositoryError
           (post_UpdateContent postID (at_revision revision \<circ> contentFields resolved status (clk 1))))
    (bind (map_err Internal (applyPostRelations srv clk postID resolved)) (\<lambda>resolved'.
     seq (if p_deleted_at post \<noteq> None then db_call postRepositoryError (post_Restore postID) else ret ())
    (bind (if source = None then reviewRestoredPost srv (review_time clk resolved) postID revision resolved'
           else ret status) (\<lambda>status'.
     ret \<lparr>pcr_id = postID, pcr_post_type = p_post_type post, pcr_status = status'\<rparr>)))))))))))))"

definition isRestorablePostDeletion :: "time option \<Rightarrow> DeleteReason option \<Rightarrow> bool" where
  "isRestorablePostDeletion deletedAt reason \<longleftrightarrow> deletedAt \<noteq> None \<and> reason \<noteq> None \<and>
     (reason = Some DeletedByAuthor \<or> reason = Some DeletedByAdmin \<or> reason = Some DeletedByModeration)"

definition lockApprovedPostImages :: "row_id \<Rightarrow> (db, repo_error, bool) act" where
  "lockApprovedPostImages postID =
     bind (PostImageIDs postID) (\<lambda>imageIDs.
     bind (LockImagesByIDs imageIDs) (\<lambda>assets.
     ret (list_all (\<lambda>a. img_moderation a = ModPass) assets)))"

definition restorationRecord :: "row_id \<Rightarrow> row_id option \<Rightarrow> row_id option \<Rightarrow> int \<Rightarrow> time \<Rightarrow> moderation_record" where
  "restorationRecord actorID postID commentID contentRevision now =
     \<lparr>mr_id = 0, mr_post_id = postID, mr_comment_id = commentID, mr_image_id = None, mr_tag_id = None,
      mr_user_id = None, mr_field = None, mr_username_candidate = None, mr_username_revision = None,
      mr_content_revision = Some contentRevision, mr_scene = SceneText, mr_provider = adminRestoreProvider,
      mr_provider_job_id = None, mr_verdict = VerdictPass, mr_labels = [], mr_score = None,
      mr_raw_response = Some ''{\"action\":\"restore\"}'', mr_reviewer_id = Some actorID, mr_reviewed_at = Some now,
      mr_supersedes_id = None, mr_created_at = now\<rparr>"

definition admin_RestorePost :: "(nat \<Rightarrow> time) \<Rightarrow> row_id \<Rightarrow> row_id \<Rightarrow> row_id mod_act" where
  "admin_RestorePost clk postID actorID =
     bind (db_call (ToAPIError BizPostNotFound) (post_LockByID postID True)) (\<lambda>post.
     if \<not> isRestorablePostDeletion (p_deleted_at post) (p_deleted_reason post)
     then fail (Conflict (Some BizContentNotRestorable))
     else if p_author_id post = actorID then fail (Conflict (Some BizContentNotRestorable))
     else bind (db_call internal_of (PostImageIDs postID)) (\<lambda>imageIDs.
     bind (db_call internal_of (LockImagesByIDs imageIDs)) (\<lambda>assets.
     seq (db_call internal_of (restoreAdminPostDeleteImages clk 3 postID actorID assets (clk 1)))
    (bind (if p_status post = PostApproved then db_call internal_of (lockApprovedPostImages postID) else ret True) (\<lambda>approved.
     if \<not> approved then fail (Conflict (Some BizImageNotApproved))
     else bind (db_call internal_of (post_CurrentContentRevision postID)) (\<lambda>revision.
     bind (db_call internal_of (CreateManualRecord (restorationRecord actorID (Some postID) None revision (clk 2)))) (\<lambda>recordID.
     seq (db_call (ToAPIError BizPostNotFound) (post_Restore postID))
         (ret recordID))))))))"

end
