(* ===== verification/Post_Effects.thy ===== *)
theory Post_Effects
  imports Post_Write Interaction_Effects
begin

section \<open>What writing a post changes\<close>

text \<open>
  The tables on which it depends who sees a post: the posts, their images with the state of their
  review, the reviews of texts and the versions.  Each statement and each step of
  \<open>Post_Write\<close> is described by what it does to them.
\<close>

subsection \<open>The shelf\<close>

definition post_records :: "db \<Rightarrow> moderation_record list" where
  "post_records s = filter (\<lambda>r. mr_post_id r \<noteq> None) (moderation_records s)"

type_synonym shelf = "post list \<times> post_image list \<times> moderation_record list \<times> post_history list \<times> image_asset list"

definition shelf :: "db \<Rightarrow> shelf" where
  "shelf s = (posts s, post_images s, post_records s, post_histories s, images s)"

text \<open>What else is part of a snapshot.\<close>

definition inset :: "db \<Rightarrow> post_tag list \<times> tag list \<times> post_flavor list \<times> flavor list \<times> (string \<Rightarrow> string) \<times> (string \<Rightarrow> string)" where
  "inset s = (post_tags s, tags s, post_flavors s, flavors s, db_lower s, db_collate s)"

definition current_snapshot :: "auth_lib \<Rightarrow> db \<Rightarrow> post \<Rightarrow> postSnapshot" where
  "current_snapshot lib s p =
     \<lparr>ss_post_type = p_post_type p, ss_share_type = p_share_type p, ss_title = p_title p, ss_content = p_content p,
      ss_category = p_category p, ss_canteen_id = p_canteen_id p, ss_canteen_window_id = p_window_id p,
      ss_cuisine_id = p_cuisine_id p, ss_price = p_price p, ss_budget_min = p_budget_min p,
      ss_budget_max = p_budget_max p, ss_tags = snapshotTags lib (tags_of_post False s (p_id p)),
      ss_flavors = flavors_of_post s (p_id p), ss_images = urls_of_post s (p_id p)\<rparr>"

lemma shelf_eq:
  assumes "shelf t = (ps, ls, rs, hs, is)"
  shows "posts t = ps" "post_images t = ls" "post_records t = rs" "post_histories t = hs" "images t = is"
  using assms by (simp_all add: shelf_def)

lemma shelf_tables:
  assumes "shelf t = shelf s"
  shows "posts t = posts s" "post_images t = post_images s" "post_records t = post_records s"
    "post_histories t = post_histories s" "images t = images s"
  using assms by (simp_all add: shelf_def)

lemma shelf_same: "same_tables s s' \<Longrightarrow> shelf s' = shelf s" "same_tables s s' \<Longrightarrow> inset s' = inset s"
  by (auto simp: same_tables_iff shelf_def inset_def post_records_def)

lemma shelf_blind [simp]:
  "shelf (s\<lparr>db_stmts := n\<rparr>) = shelf s" "shelf (s\<lparr>tags := ts\<rparr>) = shelf s" "shelf (s\<lparr>post_tags := pts\<rparr>) = shelf s"
  "shelf (s\<lparr>post_flavors := pfs\<rparr>) = shelf s" "shelf (s\<lparr>moderation_records := rs\<rparr>) =
     (posts s, post_images s, filter (\<lambda>r. mr_post_id r \<noteq> None) rs, post_histories s, images s)"
  "shelf (s\<lparr>posts := ps\<rparr>) = (ps, post_images s, post_records s, post_histories s, images s)"
  "shelf (s\<lparr>post_images := pis\<rparr>) = (posts s, pis, post_records s, post_histories s, images s)"
  "shelf (s\<lparr>post_histories := hs\<rparr>) = (posts s, post_images s, post_records s, hs, images s)"
  "inset (s\<lparr>db_stmts := n\<rparr>) = inset s" "inset (s\<lparr>posts := ps\<rparr>) = inset s"
  "inset (s\<lparr>post_images := pis\<rparr>) = inset s" "inset (s\<lparr>post_histories := hs\<rparr>) = inset s"
  "inset (s\<lparr>moderation_records := rs\<rparr>) = inset s"
  by (simp_all add: shelf_def inset_def post_records_def)

lemma relations_same:
  assumes "inset t = inset s" "post_images t = post_images s" "images t = images s"
  shows "tags_of_post b t i = tags_of_post b s i" "flavors_of_post t i = flavors_of_post s i"
    "urls_of_post t i = urls_of_post s i"
proof -
  have e: "post_tags t = post_tags s" "tags t = tags s" "post_flavors t = post_flavors s" "flavors t = flavors s"
    "db_lower t = db_lower s" "db_collate t = db_collate s" using assms(1) by (simp_all add: inset_def)
  show "tags_of_post b t i = tags_of_post b s i" unfolding tags_of_post_def e ..
  show "flavors_of_post t i = flavors_of_post s i" unfolding flavors_of_post_def e ..
  show "urls_of_post t i = urls_of_post s i" unfolding urls_of_post_def assms(2,3) ..
qed

lemma current_snapshot_same:
  "inset t = inset s \<Longrightarrow> post_images t = post_images s \<Longrightarrow> images t = images s \<Longrightarrow>
   current_snapshot lib t p = current_snapshot lib s p"
  by (simp add: current_snapshot_def relations_same[of t s])

lemma relations_blind [simp]:
  "tags_of_post b (s\<lparr>db_stmts := n\<rparr>) i = tags_of_post b s i" "flavors_of_post (s\<lparr>db_stmts := n\<rparr>) i = flavors_of_post s i"
  "urls_of_post (s\<lparr>db_stmts := n\<rparr>) i = urls_of_post s i"
  by (rule relations_same, simp_all)+

lemma current_snapshot_columns:
  "p_id p' = p_id p \<Longrightarrow> p_post_type p' = p_post_type p \<Longrightarrow> p_share_type p' = p_share_type p \<Longrightarrow> p_title p' = p_title p \<Longrightarrow>
   p_content p' = p_content p \<Longrightarrow> p_category p' = p_category p \<Longrightarrow> p_canteen_id p' = p_canteen_id p \<Longrightarrow>
   p_window_id p' = p_window_id p \<Longrightarrow> p_cuisine_id p' = p_cuisine_id p \<Longrightarrow> p_price p' = p_price p \<Longrightarrow>
   p_budget_min p' = p_budget_min p \<Longrightarrow> p_budget_max p' = p_budget_max p \<Longrightarrow>
   current_snapshot lib s p' = current_snapshot lib s p"
  by (simp add: current_snapshot_def)

subsection \<open>Statements\<close>

lemma post_Create_Inr:
  assumes "post_Create post now s = (Inr p, s')"
  shows "p = post\<lparr>p_id := next_id p_id (posts s), p_like_count := 0, p_favorite_count := 0, p_comment_count := 0,
        p_view_count := 0, p_created_at := now, p_updated_at := now\<rparr>"
    "shelf s' = (posts s @ [p], post_images s, post_records s, post_histories s, images s)" "inset s' = inset s"
    "post_check p"
  using assms by (auto simp: post_Create_def stmt_run Let_def post_guard_def post_records_def split: if_splits option.splits)

lemma update_post_Inr:
  assumes "update_post c i f s = (Inr b, s')"
  shows "shelf s' = (upd_where (\<lambda>p. p_id p = i \<and> c p) f (posts s), post_images s, post_records s, post_histories s, images s)"
    "inset s' = inset s" "b \<longleftrightarrow> (\<exists>p\<in>set (posts s). p_id p = i \<and> c p)"
    "b \<Longrightarrow> \<exists>p\<in>set (posts s). p_id p = i \<and> c p \<and> post_check (f p)"
proof -
  have none: "upd_where (\<lambda>p. p_id p = i \<and> c p) f (posts s) = posts s" if "find (\<lambda>p. p_id p = i \<and> c p) (posts s) = None"
    using that by (intro upd_where_unmatched) (auto simp: find_None_iff)
  show "shelf s' = (upd_where (\<lambda>p. p_id p = i \<and> c p) f (posts s), post_images s, post_records s, post_histories s, images s)"
    "inset s' = inset s"
    using assms none by (auto simp: update_post_def stmt_run shelf_def[of s] post_records_def split: if_splits option.splits)
  show "b \<longleftrightarrow> (\<exists>p\<in>set (posts s). p_id p = i \<and> c p)"
    using assms by (auto simp: update_post_def stmt_run find_None_iff dest: find_SomeD split: if_splits option.splits)
  show "b \<Longrightarrow> \<exists>p\<in>set (posts s). p_id p = i \<and> c p \<and> post_check (f p)"
    using assms by (auto simp: update_post_def stmt_run post_guard_def dest!: find_SomeD split: if_splits option.splits)
qed

lemma found_Inr: "found m s = (Inr u, s') \<Longrightarrow> m s = (Inr True, s')"
  by (auto simp: found_def bind_Inr_iff ret_def fail_def split: if_splits)

text \<open>An update of all posts with the id, and what it leaves of the tables.\<close>

definition updates_post :: "row_id \<Rightarrow> (post \<Rightarrow> post) \<Rightarrow> db \<Rightarrow> db \<Rightarrow> bool" where
  "updates_post i f s s' \<longleftrightarrow> inset s' = inset s \<and>
     shelf s' = (upd_where (\<lambda>p. p_id p = i) f (posts s), post_images s, post_records s, post_histories s, images s)"

lemma update_statements:
  "post_UpdateContent i f s = (Inr u, s') \<Longrightarrow> updates_post i f s s' \<and> (\<exists>p\<in>set (posts s). p_id p = i \<and> post_check (f p))"
  "post_UpdateStatus i st s = (Inr u, s') \<Longrightarrow> updates_post i (\<lambda>p. p\<lparr>p_status := st\<rparr>) s s' \<and>
     (\<forall>p\<in>set (posts s). p_id p = i \<longrightarrow> (\<exists>p\<in>set (posts s). p_id p = i \<and> post_check (p\<lparr>p_status := st\<rparr>)))"
  unfolding post_UpdateContent_def post_UpdateStatus_def updates_post_def
  by (auto simp: bind_Inr_iff ret_def dest!: found_Inr dest: update_post_Inr)

lemma delete_statements:
  assumes "\<forall>p\<in>set (posts s). p_id p = i \<longrightarrow> c p"
  shows "found (update_post c i f) s = (Inr u, s') \<Longrightarrow> updates_post i f s s'"
proof -
  assume "found (update_post c i f) s = (Inr u, s')"
  note u = update_post_Inr[OF found_Inr[OF this]]
  have "upd_where (\<lambda>p. p_id p = i \<and> c p) f (posts s) = upd_where (\<lambda>p. p_id p = i) f (posts s)"
    using assms by (auto simp: upd_where_def)
  then show ?thesis using u by (simp add: updates_post_def)
qed

lemma post_CreateHistory_Inr:
  assumes "post_CreateHistory h s = (Inr u, s')"
  shows "shelf s' = (posts s, post_images s, post_records s,
      post_histories s @ [h\<lparr>ph_id := next_id ph_id (post_histories s)\<rparr>], images s)" "inset s' = inset s"
  using assms by (auto simp: post_CreateHistory_def stmt_run post_records_def split: if_splits)

lemma CreateManualRecord_shelf:
  assumes "CreateManualRecord r s = (Inr i, s')"
  shows "i = next_id mr_id (moderation_records s)"
    "shelf s' = (posts s, post_images s,
      post_records s @ (if mr_post_id r = None then [] else [r\<lparr>mr_id := i\<rparr>]), post_histories s, images s)"
    "inset s' = inset s" "record_check r" "moderation_records s' = moderation_records s @ [r\<lparr>mr_id := i\<rparr>]"
  using assms
  by (auto simp: CreateManualRecord_def stmt_run insert_record_def shelf_def inset_def post_records_def split: if_splits)

lemma post_CreateModerationRecord_Inr:
  assumes "post_CreateModerationRecord r s = (Inr u, s')"
  shows "\<exists>i. shelf s' = (posts s, post_images s,
      post_records s @ (if mr_post_id r = None then [] else [r\<lparr>mr_id := i\<rparr>]), post_histories s, images s)" "inset s' = inset s"
    "record_check r"
  using assms CreateManualRecord_shelf[of r s]
  by (auto simp: post_CreateModerationRecord_def bind_Inr_iff ret_def)

lemma relation_statements:
  "ReplaceTags i ids s = (Inr u, s') \<Longrightarrow> shelf s' = shelf s"
  "ReplaceFlavors i t fs st s = (Inr u, s') \<Longrightarrow> shelf s' = shelf s"
  "FindOrCreateTag name now s = (Inr r, s') \<Longrightarrow> shelf s' = shelf s"
  "SetTagModeration i m d now s = (Inr u, s') \<Longrightarrow> shelf s' = shelf s"
  by (auto simp: ReplaceTags_def insert_tags_def ReplaceFlavors_def insert_flavors_def FindOrCreateTag_def insert_tag_def
      SetTagModeration_def checked_run seq_def bind_Inr_iff ret_def stmt_run execute_run query_first_run Let_def
      split: if_splits option.splits)

lemma ReplaceImages_Inr:
  assumes "ReplaceImages i ids s = (Inr u, s')"
  shows "shelf s' = (posts s, filter (\<lambda>l. pi_post_id l \<noteq> i) (post_images s) @ image_rows i ids, post_records s,
      post_histories s, images s)"
  using assms
  by (auto simp: ReplaceImages_def insert_images_def image_rows_def seq_def bind_Inr_iff ret_def stmt_run execute_run shelf_def
      post_records_def split: if_splits)

subsection \<open>Steps\<close>

lemma verdict_alert_db: "verdict_alert t i r q = (Inr u, q') \<Longrightarrow> rq_db q' = rq_db q"
  by (auto simp: verdict_alert_def ret_def split: if_splits dest!: Alert_Inr)

lemma moderateTag_shelf:
  assumes "moderateTag srv clk k t q = (Inr u, q')"
  shows "shelf (rq_db q') = shelf (rq_db q)"
proof -
  let ?r = "\<lambda>result. moderationRecordForTarget None (Some (tg_id t)) result (clk (k + 2))"
  obtain result q1 q2 v where
    1: "db_call internal_of (SetTagModeration (tg_id t) (status_of_verdict (ms_verdict result))
       (if ms_verdict result = VerdictBlock then Some (clk k) else None) (clk (k + 1))) q = (Inr v, q1)"
    and 2: "db_call internal_of (post_CreateModerationRecord (?r result)) q1 = (Inr v, q2)"
    and 3: "verdict_alert TargetTag (tg_id t) result q2 = (Inr u, q')"
    using assms by (auto simp: moderateTag_def bind_Inr_iff seq_def)
  have "shelf (rq_db q1) = shelf (rq_db q)" using 1 by (auto simp: db_call_Inr_iff dest: relation_statements(4))
  moreover have "post_CreateModerationRecord (?r result) (rq_db q1) = (Inr v, rq_db q2)" using 2 by (auto simp: db_call_Inr_iff)
  from post_CreateModerationRecord_Inr(1)[OF this] have "shelf (rq_db q2) = shelf (rq_db q1)"
    by (simp add: moderationRecordForTarget_def shelf_def)
  ultimately show ?thesis using verdict_alert_db[OF 3] by simp
qed

lemma replaceTags_shelf:
  "replaceTags srv clk k names q = (Inr r, q') \<Longrightarrow> shelf (rq_db q') = shelf (rq_db q)"
proof (induction names arbitrary: k q r)
  case Nil
  then show ?case by (simp add: ret_def)
next
  case (Cons name names)
  obtain t created q1 q2 r' v where
    1: "db_call RepoErr (FindOrCreateTag name (clk 0)) q = (Inr (t, created), q1)"
    and 2: "(if created then moderateTag srv clk k t else ret ()) q1 = (Inr v, q2)"
    and 3: "replaceTags srv clk (k + 3) names q2 = (Inr r', q')"
    using Cons.prems by (auto simp: bind_Inr_iff seq_def fail_def ret_def split: if_splits prod.splits)
  have "shelf (rq_db q1) = shelf (rq_db q)" using 1 by (auto simp: db_call_Inr_iff dest: relation_statements(3))
  moreover have "shelf (rq_db q2) = shelf (rq_db q1)" using 2 by (auto simp: ret_def dest: moderateTag_shelf split: if_splits)
  ultimately show ?case using Cons.IH[OF 3] by simp
qed

lemma applyPostRelations_Inr:
  assumes "applyPostRelations srv clk i r q = (Inr r', q')"
  shows "shelf (rq_db q') = (posts (rq_db q), filter (\<lambda>l. pi_post_id l \<noteq> i) (post_images (rq_db q)) @ image_rows i (rp_image_ids r),
      post_records (rq_db q), post_histories (rq_db q), images (rq_db q))"
    "\<exists>ts. r' = r\<lparr>np_tags := ts\<rparr>"
proof -
  obtain ids ts q1 q2 q3 u where
    1: "replaceTags srv clk 2 (np_tags r) q = (Inr (ids, ts), q1)"
    and 2: "db_call RepoErr (ReplaceTags i ids) q1 = (Inr u, q2)"
    and 3: "db_call RepoErr (ReplaceFlavors i (np_post_type r) (rp_flavors r) (np_flavor_stances r)) q2 = (Inr u, q3)"
    and 4: "db_call RepoErr (ReplaceImages i (rp_image_ids r)) q3 = (Inr u, q')" and r': "r' = r\<lparr>np_tags := ts\<rparr>"
    using assms by (auto simp: applyPostRelations_def bind_Inr_iff seq_def ret_def split: prod.splits)
  have "shelf (rq_db q3) = shelf (rq_db q)"
    using replaceTags_shelf[OF 1] 2 3 by (auto simp: db_call_Inr_iff dest!: relation_statements(1,2))
  then have s: "posts (rq_db q3) = posts (rq_db q)" "post_images (rq_db q3) = post_images (rq_db q)"
    "post_records (rq_db q3) = post_records (rq_db q)" "post_histories (rq_db q3) = post_histories (rq_db q)"
    "images (rq_db q3) = images (rq_db q)" by (simp_all add: shelf_def)
  have "ReplaceImages i (rp_image_ids r) (rq_db q3) = (Inr u, rq_db q')" using 4 by (auto simp: db_call_Inr_iff)
  from ReplaceImages_Inr[OF this]
  show "shelf (rq_db q') = (posts (rq_db q), filter (\<lambda>l. pi_post_id l \<noteq> i) (post_images (rq_db q)) @ image_rows i (rp_image_ids r),
      post_records (rq_db q), post_histories (rq_db q), images (rq_db q))" by (simp only: s)
  show "\<exists>ts. r' = r\<lparr>np_tags := ts\<rparr>" using r' by blast
qed

lemma LoadSnapshotRelations_Inr:
  assumes "LoadSnapshotRelations i s = (Inr rel, s')"
  shows "same_tables s s'" "rl_tags rel i = tags_of_post False s i" "rl_flavors rel i = flavors_of_post s i"
    "rl_images rel i = urls_of_post s i"
  using assms
  by (auto simp: LoadSnapshotRelations_def loadPostTagRows_def loadPostFlavors_def loadPostImages_def bind_Inr_iff query_run
      same_tables_def no_post_relations_def split: if_splits)

lemma appendPostHistory_Inr:
  assumes "appendPostHistory lib p n ed why at s = (Inr u, s')"
  shows "\<exists>h. shelf s' = (posts s, post_images s, post_records s, post_histories s @ [h], images s) \<and>
     ph_post_id h = p_id p \<and> ph_revision h = n \<and> ph_edited_by h = ed \<and> ph_edited_at h = at \<and> ph_edit_reason h = why \<and>
     ph_snapshot h = current_snapshot lib s p"
    "inset s' = inset s"
proof -
  obtain rel s1 where l: "LoadSnapshotRelations (p_id p) s = (Inr rel, s1)"
    and c: "post_CreateHistory \<lparr>ph_id = 0, ph_post_id = p_id p, ph_revision = n, ph_edited_by = ed,
      ph_edited_at = at, ph_snapshot = snapshotFromCurrent lib p rel, ph_edit_reason = why\<rparr> s1 = (Inr u, s')"
    using assms by (auto simp: appendPostHistory_def bind_Inr_iff)
  note l = LoadSnapshotRelations_Inr[OF l] and c = post_CreateHistory_Inr[OF c]
  have "snapshotFromCurrent lib p rel = current_snapshot lib s p"
    using l(2-4) by (simp add: snapshotFromCurrent_def current_snapshot_def)
  moreover have "shelf s1 = shelf s" "inset s1 = inset s" using shelf_same[OF l(1)] by auto
  ultimately show "\<exists>h. shelf s' = (posts s, post_images s, post_records s, post_histories s @ [h], images s) \<and>
     ph_post_id h = p_id p \<and> ph_revision h = n \<and> ph_edited_by h = ed \<and> ph_edited_at h = at \<and> ph_edit_reason h = why \<and>
     ph_snapshot h = current_snapshot lib s p" "inset s' = inset s"
    using c by (auto simp: shelf_def)
qed

text \<open>The review of the text: a draft has none, anything else has one record whose verdict decides.\<close>

definition text_reviewed ::
  "PostService \<Rightarrow> row_id \<Rightarrow> int \<Rightarrow> string \<Rightarrow> bool \<Rightarrow> image_asset list \<Rightarrow> PostStatus \<Rightarrow> moderation_record list \<Rightarrow> bool" where
  "text_reviewed srv i n txt publish assets st new \<longleftrightarrow>
     (if publish then \<exists>result r. new = [r] \<and>
          psv_moderator srv \<lparr>mq_target = TargetPost, mq_field = None, mq_text = txt\<rparr> = Inr result \<and>
          mr_post_id r = Some i \<and> mr_content_revision r = Some n \<and> mr_verdict r = ms_verdict result \<and>
          mr_reviewer_id r = None \<and> aggregatePostModeration (ms_verdict result) assets = Inr st
      else new = [] \<and> st = PostDraft)"

lemma finishModeration_Inr:
  assumes "finishModeration srv now i n r q = (Inr st, q')"
  shows "\<exists>new. shelf (rq_db q') = (posts (rq_db q), post_images (rq_db q), post_records (rq_db q) @ new,
      post_histories (rq_db q), images (rq_db q)) \<and>
      text_reviewed srv i n (reviewed_text r) (np_publish r) (rp_image_assets r) st new"
    "inset (rq_db q') = inset (rq_db q)"
proof -
  have "(\<exists>new. shelf (rq_db q') = (posts (rq_db q), post_images (rq_db q), post_records (rq_db q) @ new,
      post_histories (rq_db q), images (rq_db q)) \<and>
      text_reviewed srv i n (reviewed_text r) (np_publish r) (rp_image_assets r) st new) \<and>
    inset (rq_db q') = inset (rq_db q)"
  proof (cases "np_publish r")
    case False
    then show ?thesis using assms by (simp add: finishModeration_def ret_def text_reviewed_def shelf_def)
  next
    case True
    then obtain result q1 u where
      m: "psv_moderator srv \<lparr>mq_target = TargetPost, mq_field = None, mq_text = reviewed_text r\<rparr> = Inr result"
      and c: "db_call internal_of (post_CreateModerationRecord (moderationRecordForPost i n result now)) q = (Inr u, q1)"
      and al: "verdict_alert TargetPost i result q1 = (Inr u, q')"
      and ag: "aggregatePostModeration (ms_verdict result) (rp_image_assets r) = Inr st"
      using assms by (auto simp: finishModeration_def bind_Inr_iff seq_def)
    have "post_CreateModerationRecord (moderationRecordForPost i n result now) (rq_db q) = (Inr u, rq_db q1)"
      using c by (auto simp: db_call_Inr_iff)
    note c = post_CreateModerationRecord_Inr[OF this]
    have "rq_db q' = rq_db q1" by (rule verdict_alert_db[OF al])
    moreover obtain k where "shelf (rq_db q1) = (posts (rq_db q), post_images (rq_db q),
        post_records (rq_db q) @ [(moderationRecordForPost i n result now)\<lparr>mr_id := k\<rparr>], post_histories (rq_db q), images (rq_db q))"
      using c(1) by (auto simp: moderationRecordForPost_def moderationRecordForTarget_def)
    moreover have "text_reviewed srv i n (reviewed_text r) (np_publish r) (rp_image_assets r) st
        [(moderationRecordForPost i n result now)\<lparr>mr_id := k\<rparr>]"
      using True m ag by (auto simp: text_reviewed_def moderationRecordForPost_def moderationRecordForTarget_def)
    ultimately show ?thesis using c(2) by auto
  qed
  then show "\<exists>new. shelf (rq_db q') = (posts (rq_db q), post_images (rq_db q), post_records (rq_db q) @ new,
      post_histories (rq_db q), images (rq_db q)) \<and>
      text_reviewed srv i n (reviewed_text r) (np_publish r) (rp_image_assets r) st new"
    "inset (rq_db q') = inset (rq_db q)" by auto
qed

subsection \<open>Resolving\<close>

text \<open>What is known of the images that a payload refers to.\<close>

definition usable_image :: "row_id \<Rightarrow> image_asset \<Rightarrow> bool" where
  "usable_image author a \<longleftrightarrow> img_uploader_id a = Some author \<and> img_purpose a = PurposePost \<and>
     (img_status a = ImgPending \<or> img_status a = ImgReady) \<and> img_moderation a \<noteq> ModBlock \<and>
     \<not> IsPurgedImageURL (img_public_url a)"

definition resolves :: "db \<Rightarrow> row_id \<Rightarrow> normalizedPostPayload \<Rightarrow> resolvedPostPayload \<Rightarrow> bool" where
  "resolves s author v r \<longleftrightarrow>
     (\<exists>fs c cu imgs. r = normalizedPostPayload.extend v \<lparr>rp_canteen_id = c, rp_cuisine_id = cu, rp_flavors = fs,
        rp_image_assets = imgs, rp_image_ids = map img_id imgs\<rparr>) \<and>
     (\<forall>a\<in>set (rp_image_assets r). a \<in> set (images s) \<and> usable_image author a) \<and>
     map img_public_url (rp_image_assets r) = np_images v \<and>
     (np_window_id v \<noteq> None \<longrightarrow> rp_canteen_id r \<noteq> None)"

lemma last_by_Some: "last_by key rs k = Some a \<Longrightarrow> a \<in> set rs \<and> key a = k"
  by (auto simp: last_by_def dest!: find_SomeD)

lemma validateAndOrderImages_Inr:
  "validateAndOrderImages us assets author = Inr imgs \<Longrightarrow>
   set imgs \<subseteq> set assets \<and> (\<forall>a\<in>set imgs. usable_image author a) \<and> map img_public_url imgs = us"
proof (induction us arbitrary: imgs)
  case (Cons u us)
  then obtain a rest where a: "image_usable (last_by img_public_url assets u) author = Inr a"
    "validateAndOrderImages us assets author = Inr rest" "imgs = a # rest" by auto
  then have "last_by img_public_url assets u = Some a" "usable_image author a"
    by (auto simp: image_usable_def usable_image_def split: option.splits if_splits)
  then show ?case using a Cons.IH by (auto dest: last_by_Some)
qed simp

lemma db_call_query: "db_call h (query f) q = (Inr x, q') \<Longrightarrow> reads q q' \<and> x = f ((rq_db q)\<lparr>db_stmts := Suc (db_stmts (rq_db q))\<rparr>)"
  by (auto simp: db_call_Inr_iff query_run reads_def same_tables_def split: if_splits)

lemma ret_reads: "db_call h (ret x) q = (Inr y, q') \<Longrightarrow> reads q q' \<and> y = x"
  by (auto simp: db_call_Inr_iff ret_def reads_def)

lemma image_reads:
  "db_call h (FindImagesByURLs us) q = (Inr imgs, q') \<Longrightarrow> reads q q'"
  "db_call h (LockImagesByIDs ids) q = (Inr imgs, q') \<Longrightarrow> reads q q' \<and> set imgs \<subseteq> set (images (rq_db q))"
  "db_call h (PostImageIDs i) q = (Inr ids', q') \<Longrightarrow> reads q q' \<and> set ids' = pi_image_id ` {l \<in> set (post_images (rq_db q)). pi_post_id l = i}"
  by (auto simp: FindImagesByURLs_def LockImagesByIDs_def PostImageIDs_def Let_def split: if_splits dest!: db_call_query ret_reads)

lemma resolveDictionaries_reads:
  assumes "resolveDictionaries v q = (Inr (c, cu, fs), q')"
  shows "reads q q' \<and> (np_window_id v \<noteq> None \<longrightarrow> c \<noteq> None)"
proof -
  obtain c0 q1 u q2 cu0 q3 found q4 fs0 q5 where
    1: "(case np_canteen_code v of None \<Rightarrow> ret None
       | Some code \<Rightarrow> bind (db_call dictionaryError (FindActiveCanteenByCode code)) (\<lambda>c. ret (Some (ct_id c)))) q = (Inr c0, q1)"
    and 2: "(case np_window_id v of None \<Rightarrow> ret ()
       | Some w \<Rightarrow> bind (db_call dictionaryError (FindActiveWindow w)) (\<lambda>window.
           if c0 = None \<or> Some (wn_canteen_id window) \<noteq> c0
           then fail (Conflict (Some BizWindowNotInCanteen)) else ret ())) q1 = (Inr u, q2)"
    and 3: "(case np_cuisine v of None \<Rightarrow> ret None
       | Some name \<Rightarrow> bind (db_call dictionaryError (FindActiveCuisineByName name)) (\<lambda>c. ret (Some (cs_id c)))) q2 = (Inr cu0, q3)"
    and 4: "db_call internal_of (FindActiveFlavorsByNames (np_flavor_names v)) q3 = (Inr found, q4)"
    and 5: "lift_result (pick_flavors (last_by fl_name found) (np_flavor_names v)) q4 = (Inr fs0, q5)"
    and 6: "(ret (c0, cu0, fs0) :: (_, go_error, _) act) q5 = (Inr (c, cu, fs), q')"
    using assms unfolding resolveDictionaries_def seq_def by (elim bind_InrE)
  have q4: "q4 = q'" and c0: "c0 = c" using 5 6 by (auto simp: ret_def)
  note 2 = 2[unfolded c0]
  have "reads q q1" using 1[unfolded c0] by (cases "np_canteen_code v")
      (auto simp: ret_def bind_Inr_iff FindActiveCanteenByCode_def dest!: query_first_call_Inr)
  moreover have "reads q1 q2 \<and> (np_window_id v \<noteq> None \<longrightarrow> c \<noteq> None)" using 2 by (cases "np_window_id v")
      (auto simp: ret_def fail_def bind_Inr_iff FindActiveWindow_def dest!: query_first_call_Inr split: if_splits)
  moreover have "reads q2 q3" using 3 by (cases "np_cuisine v")
      (auto simp: ret_def bind_Inr_iff FindActiveCuisineByName_def dest!: query_first_call_Inr)
  moreover have "reads q3 q'" using 4 q4
    by (auto simp: FindActiveFlavorsByNames_def dest!: db_call_query ret_reads split: if_splits)
  ultimately show ?thesis by (blast intro: reads_trans)
qed

lemma resolvePostPayload_Inr:
  assumes "resolvePostPayload v author old q = (Inr r, q')"
  shows "reads q q' \<and> resolves (rq_db q) author v r"
proof -
  obtain c cu fs q1 assets q2 locked q3 imgs q4 where
    1: "resolveDictionaries v q = (Inr (c, cu, fs), q1)"
    and 2: "db_call internal_of (FindImagesByURLs (np_images v)) q1 = (Inr assets, q2)"
    and 3: "db_call internal_of (LockImagesByIDs (old @ map img_id assets)) q2 = (Inr locked, q3)"
    and 4: "lift_result (validateAndOrderImages (np_images v) locked author) q3 = (Inr imgs, q4)"
    and 5: "(ret (normalizedPostPayload.extend v \<lparr>rp_canteen_id = c, rp_cuisine_id = cu, rp_flavors = fs,
        rp_image_assets = imgs, rp_image_ids = map img_id imgs\<rparr>) :: (_, go_error, _) act) q4 = (Inr r, q')"
    using assms unfolding resolvePostPayload_def by (elim bind_InrE) (simp only: split_paired_all prod.case, elim bind_InrE, rule that)
  have 4: "validateAndOrderImages (np_images v) locked author = Inr imgs" and q3: "q3 = q'"
    and r: "r = normalizedPostPayload.extend v \<lparr>rp_canteen_id = c, rp_cuisine_id = cu, rp_flavors = fs,
        rp_image_assets = imgs, rp_image_ids = map img_id imgs\<rparr>" using 4 5 by (auto simp: ret_def)
  note 1 = resolveDictionaries_reads[OF 1] and 2 = image_reads(1)[OF 2] and 3 = image_reads(2)[OF 3]
    and 4 = validateAndOrderImages_Inr[OF 4]
  have "reads q q2" using 1 2 by (blast intro: reads_trans)
  then have "images (rq_db q2) = images (rq_db q)" by (auto simp: reads_def same_tables_iff)
  moreover have "reads q q'" using \<open>reads q q2\<close> 3 q3 by (blast intro: reads_trans)
  moreover have "rp_image_assets r = imgs" "rp_canteen_id r = c" by (simp_all add: r normalizedPostPayload.defs)
  moreover have "\<exists>fs c cu imgs. r = normalizedPostPayload.extend v \<lparr>rp_canteen_id = c, rp_cuisine_id = cu, rp_flavors = fs,
        rp_image_assets = imgs, rp_image_ids = map img_id imgs\<rparr>" using r by blast
  ultimately show ?thesis using 1 3 4 unfolding resolves_def by auto
qed

lemma resolves_fields:
  assumes "resolves s author v r"
  shows "np_post_type r = np_post_type v" "np_share_type r = np_share_type v" "np_category r = np_category v"
    "np_title r = np_title v" "np_content r = np_content v" "np_window_id r = np_window_id v" "np_price r = np_price v"
    "np_budget r = np_budget v" "np_publish r = np_publish v" "np_tags r = np_tags v" "np_edit_reason r = np_edit_reason v"
    "rp_image_ids r = map img_id (rp_image_assets r)"
  using assms by (auto simp: resolves_def normalizedPostPayload.defs)

end
