(* ===== verification/Post_Service_Effects.thy ===== *)
theory Post_Service_Effects
  imports Post_Effects
begin

section \<open>What the operations on a post change\<close>

text \<open>
  Each operation of \<open>Post_Write\<close> that succeeds, as one change of the shelf of \<open>Post_Effects\<close>.
\<close>

subsection \<open>Images\<close>

definition set_image :: "ModerationStatus \<Rightarrow> image_asset \<Rightarrow> image_asset" where
  "set_image st a = a\<lparr>img_moderation := st\<rparr>"

definition mark_images :: "row_id set \<Rightarrow> ModerationStatus \<Rightarrow> image_asset list \<Rightarrow> image_asset list" where
  "mark_images S st imgs = upd_where (\<lambda>a. img_id a \<in> S) (set_image st) imgs"

lemma set_image_id [simp]: "img_id (set_image st a) = img_id a" "set_image st (set_image st' a) = set_image st a"
  by (simp_all add: set_image_def)

lemma mark_images_empty [simp]: "mark_images {} st imgs = imgs"
  by (simp add: mark_images_def upd_where_unmatched)

lemma mark_images_twice: "mark_images T st (mark_images S st imgs) = mark_images (S \<union> T) st imgs"
  by (auto simp: mark_images_def upd_where_def)

lemma mark_images_ids: "map img_id (mark_images S st imgs) = map img_id imgs"
  by (simp add: mark_images_def upd_where_ids)

lemma in_mark_images:
  "a \<in> set (mark_images S st imgs) \<Longrightarrow> \<exists>b\<in>set imgs. img_id b = img_id a \<and>
     img_moderation a = (if img_id a \<in> S then st else img_moderation b) \<and> (img_id a \<notin> S \<longrightarrow> a = b)"
  by (auto simp: mark_images_def set_image_def elim!: in_upd_whereE)

definition marks :: "row_id set \<Rightarrow> ModerationStatus \<Rightarrow> db \<Rightarrow> db \<Rightarrow> bool" where
  "marks S st s s' \<longleftrightarrow> inset s' = inset s \<and>
     shelf s' = (posts s, post_images s, post_records s, post_histories s, mark_images S st (images s))"

lemma marks_none: "shelf s' = shelf s \<Longrightarrow> inset s' = inset s \<Longrightarrow> marks {} st s s'"
  by (simp add: marks_def shelf_def)

lemma marks_trans: "marks S st s s' \<Longrightarrow> marks T st s' s'' \<Longrightarrow> marks (S \<union> T) st s s''"
  by (simp add: marks_def mark_images_twice shelf_def)

lemma applyImageAccess_shelf:
  assumes "applyImageAccess asset i v now s = (Inr u, s')"
  shows "shelf s' = shelf s" "inset s' = inset s"
proof -
  have "shelf s' = shelf s \<and> inset s' = inset s"
  proof (cases asset)
    case None
    then show ?thesis using assms by (simp add: applyImageAccess_def ret_def)
  next
    case (Some a)
    then obtain img src pub purge b where "Access_Enqueue img src pub purge now s = (Inr b, s')"
      using assms Controller_Apply_Inr(3)[of _ now s u s'] by (fastforce simp: applyImageAccess_def Let_def)
    then show ?thesis
      by (auto simp: Access_Enqueue_def stmt_run Let_def shelf_def inset_def post_records_def split: if_splits)
  qed
  then show "shelf s' = shelf s" "inset s' = inset s" by auto
qed

lemma UpdateImageModeration_shelf:
  assumes "UpdateImageModeration i st s = (Inr u, s')"
  shows "marks {i} st s s'"
  using assms
  by (auto simp: UpdateImageModeration_def stmt_run marks_def mark_images_def set_image_def[abs_def] shelf_def inset_def
      post_records_def split: if_splits)

lemma image_admin_change_Inr:
  assumes "image_admin_change provider verdict raw actor asset now now' s = (Inr u, s')"
  shows "marks (case asset of None \<Rightarrow> {} | Some a \<Rightarrow> {img_id a}) (status_of_verdict verdict) s s'"
proof (cases asset)
  case None
  then show ?thesis using assms by (auto simp: image_admin_change_def ret_def intro: marks_none)
next
  case (Some a)
  then obtain k s1 s2 v where
    1: "CreateAdministrativeRecord (image_admin_record (img_id a) provider verdict raw actor now) s = (Inr k, s1)"
    and 2: "UpdateImageModeration (img_id a) (status_of_verdict verdict) s1 = (Inr v, s2)"
    and 3: "applyImageAccess asset k verdict now' s2 = (Inr u, s')"
    using assms by (auto simp: image_admin_change_def bind_Inr_iff seq_def)
  have "marks {} (status_of_verdict verdict) s s1"
    using CreateManualRecord_shelf(2,3)[OF 1[unfolded CreateAdministrativeRecord_def]]
    by (intro marks_none) (simp_all add: image_admin_record_def shelf_def)
  moreover note UpdateImageModeration_shelf[OF 2]
  moreover have "marks {} (status_of_verdict verdict) s2 s'" using applyImageAccess_shelf[OF 3] by (intro marks_none)
  ultimately have "marks ({} \<union> {img_id a} \<union> {}) (status_of_verdict verdict) s s'" by (blast intro: marks_trans)
  then show ?thesis using Some by simp
qed

text \<open>The images that a deletion blocks, and those that a restoration frees.\<close>

definition to_block :: "(row_id \<Rightarrow> image_asset option) \<Rightarrow> row_id list \<Rightarrow> row_id set" where
  "to_block byID ids = {img_id a | i a. i \<in> set ids \<and> byID i = Some a \<and> img_moderation a \<noteq> ModBlock}"

lemma block_images_Inr:
  "block_images clk k i actor byID ids now s = (Inr u, s') \<Longrightarrow> marks (to_block byID ids) ModBlock s s'"
proof (induction ids arbitrary: k s)
  case Nil
  then show ?case by (auto simp: ret_def to_block_def intro: marks_none)
next
  case (Cons j ids)
  obtain s1 v where
    1: "(if (case byID j of None \<Rightarrow> False | Some a \<Rightarrow> img_moderation a = ModBlock) then ret ()
         else applyAdminPostDeleteImage i actor (byID j) now (clk k)) s = (Inr v, s1)"
    and 2: "block_images clk (Suc k) i actor byID ids now s1 = (Inr u, s')"
    using Cons.prems by (auto simp: bind_Inr_iff seq_def)
  have "marks (to_block byID [j]) ModBlock s s1"
    using 1 by (auto simp: ret_def to_block_def applyAdminPostDeleteImage_def dest!: image_admin_change_Inr
        split: if_splits option.splits intro: marks_none)
  from marks_trans[OF this Cons.IH[OF 2]] show ?case
    by (rule back_subst[of "\<lambda>S. marks S ModBlock s s'"]) (auto simp: to_block_def)
qed

definition to_free :: "(row_id \<rightharpoonup> moderation_record) \<Rightarrow> image_asset list \<Rightarrow> row_id set" where
  "to_free latest imgs = {img_id a | a r. a \<in> set imgs \<and> img_moderation a = ModBlock \<and> latest (img_id a) = Some r \<and>
     mr_provider r = adminPostDeleteProvider}"

lemma restore_images_Inr:
  "restore_images clk k i actor latest imgs now s = (Inr u, s') \<Longrightarrow> marks (to_free latest imgs) ModPass s s'"
proof (induction imgs arbitrary: k s)
  case Nil
  then show ?case by (auto simp: ret_def to_free_def intro: marks_none)
next
  case (Cons a imgs)
  obtain s1 v where
    1: "(if img_moderation a \<noteq> ModBlock then ret ()
          else case latest (img_id a) of None \<Rightarrow> ret ()
          | Some r \<Rightarrow> if mr_provider r \<noteq> adminPostDeleteProvider then ret ()
              else applyAdminPostRestoreImage i actor (Some a) (mr_id r) now (clk k)) s = (Inr v, s1)"
    and 2: "restore_images clk (Suc k) i actor latest imgs now s1 = (Inr u, s')"
    using Cons.prems by (auto simp: bind_Inr_iff seq_def)
  have "marks (to_free latest [a]) ModPass s s1"
    using 1 by (auto simp: ret_def to_free_def applyAdminPostRestoreImage_def dest!: image_admin_change_Inr
        split: if_splits option.splits intro: marks_none)
  from marks_trans[OF this Cons.IH[OF 2]] show ?case
    by (rule back_subst[of "\<lambda>S. marks S ModPass s s'"]) (auto simp: to_free_def)
qed

lemma restoreAdminPostDeleteImages_Inr:
  assumes "restoreAdminPostDeleteImages clk k i actor imgs now s = (Inr u, s')"
  shows "\<exists>S. marks S ModPass s s'"
proof -
  obtain latest s1 where
    1: "LatestImageModerationByAssetIDs (map img_id (filter (\<lambda>a. img_moderation a = ModBlock) imgs)) s = (Inr latest, s1)"
    and 2: "restore_images clk k i actor latest imgs now s1 = (Inr u, s')"
    using assms by (auto simp: restoreAdminPostDeleteImages_def bind_Inr_iff)
  have "same_tables s s1" using 1
    by (auto simp: LatestImageModerationByAssetIDs_def Let_def ret_def same_tables_def query_run split: if_splits)
  from marks_trans[OF marks_none[OF shelf_same[OF this]] restore_images_Inr[OF 2]] show ?thesis by blast
qed

subsection \<open>Posts\<close>

lemma upd_where_same_key:
  "(\<And>p. p_id (f p) = p_id p) \<Longrightarrow> upd_where (\<lambda>p. p_id p = i) g (upd_where (\<lambda>p. p_id p = i) f t) =
     upd_where (\<lambda>p. p_id p = i) (g \<circ> f) t"
  by (auto simp: upd_where_def)

lemma upd_where_last: "\<forall>r\<in>set t. p_id r \<noteq> i \<Longrightarrow> p_id p = i \<Longrightarrow> upd_where (\<lambda>p. p_id p = i) f (t @ [p]) = t @ [f p]"
  by (simp add: tbl_simps upd_where_unmatched)

definition with_status :: "PostStatus \<Rightarrow> post \<Rightarrow> post" where
  "with_status st p = p\<lparr>p_status := st\<rparr>"

text \<open>A version: what it records, by whom and when.\<close>

definition version_of :: "auth_lib \<Rightarrow> db \<Rightarrow> post \<Rightarrow> row_id \<Rightarrow> string option \<Rightarrow> post_history \<Rightarrow> bool" where
  "version_of lib s p editor why h \<longleftrightarrow> ph_post_id h = p_id p \<and> ph_revision h = p_current_revision p \<and>
     ph_edited_by h = editor \<and> ph_edit_reason h = why \<and> ph_snapshot h = current_snapshot lib s p"

lemma post_service_Create_Inr:
  assumes "post_service_Create srv clk input author q = (Inr res, q')"
  obtains v r p h new where "normalizeCreatePost (psv_lib srv) input = Inr v" "resolves (rq_db q) author v r"
    "p = (newPostModel r author (pcr_status res))\<lparr>p_id := next_id p_id (posts (rq_db q)), p_created_at := clk 1, p_updated_at := clk 1\<rparr>"
    "shelf (rq_db q') = (posts (rq_db q) @ [p],
       filter (\<lambda>l. pi_post_id l \<noteq> p_id p) (post_images (rq_db q)) @ image_rows (p_id p) (rp_image_ids r),
       post_records (rq_db q) @ new, post_histories (rq_db q) @ [h], images (rq_db q))"
    "text_reviewed srv (p_id p) 1 (reviewed_text r) (np_publish v) (rp_image_assets r) (pcr_status res) new"
    "version_of (psv_lib srv) (rq_db q') p author None h" "pcr_id res = p_id p" "post_check p"
proof -
  obtain v q1 r q2 p0 q3 r' q4 u q5 st q6 where
    v: "normalizeCreatePost (psv_lib srv) input = Inr v"
    and 1: "resolvePostPayload v author [] q = (Inr r, q2)"
    and 2: "db_call internal_of (post_Create (newPostModel r author (initial_status r)) (clk 1)) q2 = (Inr p0, q3)"
    and 3: "map_err Internal (applyPostRelations srv clk (p_id p0) r) q3 = (Inr r', q4)"
    and 4: "db_call historyWriteError (appendPostHistory (psv_lib srv) p0 1 author None (p_created_at p0)) q4 = (Inr u, q5)"
    and 5: "finishModeration srv (review_time clk r) (p_id p0) 1 r' q5 = (Inr st, q6)"
    and 6: "db_call internal_of (post_UpdateStatus (p_id p0) st) q6 = (Inr u, q')"
    and res: "res = \<lparr>pcr_id = p_id p0, pcr_post_type = p_post_type p0, pcr_status = st\<rparr>"
    using assms by (auto simp: post_service_Create_def bind_Inr_iff seq_def ret_def)
  let ?s = "rq_db q" and ?i = "next_id p_id (posts (rq_db q))"
  note 1 = resolvePostPayload_Inr[OF 1]
  have s1: "shelf (rq_db q2) = shelf ?s" using 1 shelf_same(1) by (auto simp: reads_def)
  have "post_Create (newPostModel r author (initial_status r)) (clk 1) (rq_db q2) = (Inr p0, rq_db q3)"
    using 2 by (auto simp: db_call_Inr_iff)
  note 2 = post_Create_Inr[OF this]
  have "applyPostRelations srv clk (p_id p0) r q3 = (Inr r', q4)" using 3 by (simp add: map_err_Inr_iff)
  note 3 = applyPostRelations_Inr[OF this]
  have "appendPostHistory (psv_lib srv) p0 1 author None (p_created_at p0) (rq_db q4) = (Inr u, rq_db q5)"
    using 4 by (auto simp: db_call_Inr_iff)
  note 4 = appendPostHistory_Inr[OF this]
  note 5 = finishModeration_Inr[OF 5]
  have "post_UpdateStatus (p_id p0) st (rq_db q6) = (Inr u, rq_db q')" using 6 by (auto simp: db_call_Inr_iff)
  note 6 = update_statements(2)[OF this]
  have i: "p_id p0 = ?i" "p_current_revision p0 = 1" "p0 = (newPostModel r author (initial_status r))\<lparr>p_id := ?i, p_created_at := clk 1, p_updated_at := clk 1\<rparr>"
    using 2(1) shelf_tables(1)[OF s1] by (simp_all add: newPostModel_def shelf_def)
  obtain h where h: "shelf (rq_db q5) = (posts (rq_db q4), post_images (rq_db q4), post_records (rq_db q4), post_histories (rq_db q4) @ [h], images (rq_db q4))"
     "ph_post_id h = p_id p0" "ph_revision h = 1" "ph_edited_by h = author" "ph_edit_reason h = None"
     "ph_snapshot h = current_snapshot (psv_lib srv) (rq_db q4) p0" using 4(1) by blast
  obtain new where new: "shelf (rq_db q6) = (posts (rq_db q5), post_images (rq_db q5), post_records (rq_db q5) @ new,
      post_histories (rq_db q5), images (rq_db q5))"
      "text_reviewed srv (p_id p0) 1 (reviewed_text r') (np_publish r') (rp_image_assets r') st new" using 5(1) by blast
  have r': "reviewed_text r' = reviewed_text r" "np_publish r' = np_publish v" "rp_image_assets r' = rp_image_assets r"
    using 3(2) 1 by (auto simp: reviewed_text_def resolves_fields)
  note e = shelf_tables[OF s1] shelf_eq[OF 2(2)] shelf_eq[OF 3(1)] shelf_eq[OF h(1)] shelf_eq[OF new(1)]
  have fresh: "\<forall>p\<in>set (posts ?s). p_id p \<noteq> ?i" using next_id_fresh[of _ "posts ?s" p_id] by fastforce
  have ps: "upd_where (\<lambda>p. p_id p = p_id p0) (\<lambda>p. p\<lparr>p_status := st\<rparr>) (posts (rq_db q6)) = posts ?s @ [with_status st p0]"
    using upd_where_last[OF fresh i(1), of "with_status st"] by (simp add: e i(1) with_status_def[abs_def])
  have fin: "shelf (rq_db q') = (posts ?s @ [with_status st p0],
       filter (\<lambda>l. pi_post_id l \<noteq> p_id p0) (post_images ?s) @ image_rows (p_id p0) (rp_image_ids r),
       post_records ?s @ new, post_histories ?s @ [h], images ?s)"
    using 6 ps by (simp add: updates_post_def e)
  have "post_check (with_status st p0)"
    using 6 fresh by (fastforce simp: e i(1) with_status_def)
  moreover have "current_snapshot (psv_lib srv) (rq_db q') (with_status st p0) = current_snapshot (psv_lib srv) (rq_db q4) p0"
  proof -
    have "inset (rq_db q') = inset (rq_db q4)" using 4(2) 5(2) 6 by (simp add: updates_post_def)
    from current_snapshot_same[OF this, of "psv_lib srv" p0] shelf_eq(2,5)[OF fin]
    have "current_snapshot (psv_lib srv) (rq_db q') p0 = current_snapshot (psv_lib srv) (rq_db q4) p0" by (simp add: e)
    moreover have "current_snapshot (psv_lib srv) (rq_db q') (with_status st p0) = current_snapshot (psv_lib srv) (rq_db q') p0"
      by (rule current_snapshot_columns) (simp_all add: with_status_def)
    ultimately show ?thesis by simp
  qed
  ultimately show ?thesis
    using v 1 fin new(2) h(2-6) i res r'
    by (intro that[of v r "with_status st p0" new h]) (simp_all add: version_of_def with_status_def newPostModel_def)
qed

text \<open>The new content of an edited or restored post.\<close>

definition new_content :: "resolvedPostPayload \<Rightarrow> PostStatus \<Rightarrow> int \<Rightarrow> time \<Rightarrow> post \<Rightarrow> post" where
  "new_content r st revision now p = at_revision revision (contentFields r st now p)"

lemma new_content_id [simp]: "p_id (new_content r st n now p) = p_id p"
  by (simp add: new_content_def at_revision_def contentFields_def)

lemma new_content_status: "with_status st' (new_content r st n now p) = new_content r st' n now p"
  by (simp add: new_content_def at_revision_def contentFields_def with_status_def)

lemma post_LockByID_Inr:
  assumes "db_call h (post_LockByID i True) q = (Inr p, q')"
  shows "reads q q'" "p \<in> set (posts (rq_db q))" "p_id p = i"
  using assms by (auto simp: post_LockByID_def dest!: query_first_call_Inr first_by_key)

lemma version_columns:
  assumes "np_post_type r = p_post_type p"
  shows "current_snapshot lib s ((newPostModel r a st)\<lparr>p_id := p_id p, p_current_revision := n, p_created_at := t, p_updated_at := now\<rparr>) =
    current_snapshot lib s (new_content r st' n now p)"
  by (rule current_snapshot_columns) (simp_all add: assms newPostModel_def new_content_def at_revision_def contentFields_def)

lemma normalizeUpdatePost_type:
  "normalizeUpdatePost lib input p = Inr v \<Longrightarrow> np_post_type v = p_post_type p \<and> payload_ok lib v \<and>
     np_title v = TrimSpace (py_title (upi_payload input)) \<and> np_content v = TrimSpace (py_content (upi_payload input))"
  by (auto simp: normalizeUpdatePost_def dest!: normalizePostPayload_ok)

lemma replacePostContentVersion_Inr:
  assumes "replacePostContentVersion srv clk post editor why r st now q = (Inr n, q')" "np_post_type r = p_post_type post"
  obtains h where "n = fold max (post_revisions (p_id post) (rq_db q)) 0 + 1"
    "shelf (rq_db q') = (upd_where (\<lambda>p. p_id p = p_id post) (new_content r st n now) (posts (rq_db q)),
       filter (\<lambda>l. pi_post_id l \<noteq> p_id post) (post_images (rq_db q)) @ image_rows (p_id post) (rp_image_ids r),
       post_records (rq_db q), post_histories (rq_db q) @ [h], images (rq_db q))"
    "version_of (psv_lib srv) (rq_db q') (new_content r st n now post) editor why h"
proof -
  let ?i = "p_id post" and ?s = "rq_db q"
  let ?v = "(newPostModel r (p_author_id post) st)\<lparr>p_id := ?i, p_current_revision := n, p_created_at := p_created_at post, p_updated_at := now\<rparr>"
  obtain q1 q2 q3 r' u where
    1: "db_call historyWriteError (post_NextHistoryRevision ?i) q = (Inr n, q1)"
    and 2: "db_call postRepositoryError (post_UpdateContent ?i (at_revision n \<circ> contentFields r st now)) q1 = (Inr u, q2)"
    and 3: "map_err Internal (applyPostRelations srv clk ?i r) q2 = (Inr r', q3)"
    and 4: "db_call historyWriteError (appendPostHistory (psv_lib srv) ?v n editor why now) q3 = (Inr u, q')"
    using assms(1) by (auto simp: replacePostContentVersion_def bind_Inr_iff seq_def ret_def Let_def)
  note 1 = db_call_query[OF 1[unfolded post_NextHistoryRevision_def]]
  have s1: "shelf (rq_db q1) = shelf ?s" using 1 shelf_same(1) by (auto simp: reads_def)
  have "post_UpdateContent ?i (at_revision n \<circ> contentFields r st now) (rq_db q1) = (Inr u, rq_db q2)"
    using 2 by (auto simp: db_call_Inr_iff)
  note 2 = update_statements(1)[OF this]
  have "applyPostRelations srv clk ?i r q2 = (Inr r', q3)" using 3 by (simp add: map_err_Inr_iff)
  note 3 = applyPostRelations_Inr[OF this]
  have "appendPostHistory (psv_lib srv) ?v n editor why now (rq_db q3) = (Inr u, rq_db q')" using 4 by (auto simp: db_call_Inr_iff)
  note 4 = appendPostHistory_Inr[OF this]
  obtain h where h: "shelf (rq_db q') = (posts (rq_db q3), post_images (rq_db q3), post_records (rq_db q3), post_histories (rq_db q3) @ [h], images (rq_db q3))"
     "ph_post_id h = ?i" "ph_revision h = n" "ph_edited_by h = editor" "ph_edit_reason h = why"
     "ph_snapshot h = current_snapshot (psv_lib srv) (rq_db q3) ?v" using 4(1) by (auto simp: newPostModel_def)
  have f: "at_revision n \<circ> contentFields r st now = new_content r st n now" by (auto simp: new_content_def fun_eq_iff)
  have up: "shelf (rq_db q2) = (upd_where (\<lambda>p. p_id p = ?i) (new_content r st n now) (posts (rq_db q1)), post_images (rq_db q1),
      post_records (rq_db q1), post_histories (rq_db q1), images (rq_db q1))" using 2 by (simp add: updates_post_def f)
  note e = shelf_tables[OF s1] shelf_eq[OF up] shelf_eq[OF 3(1)]
  have "current_snapshot (psv_lib srv) (rq_db q3) ?v = current_snapshot (psv_lib srv) (rq_db q') (new_content r st n now post)"
    using version_columns[OF assms(2), where st' = st] current_snapshot_same[OF 4(2)] shelf_eq(2,5)[OF h(1)] by simp
  moreover have "n = fold max (post_revisions ?i ?s) 0 + 1" using 1 by (simp add: post_revisions_def)
  ultimately show ?thesis using h
    by (intro that[of h]) (simp_all add: e version_of_def new_content_def at_revision_def contentFields_def)
qed

lemma post_service_Update_Inr:
  assumes "post_service_Update srv clk i input author q = (Inr res, q')"
  obtains old v r n h new where "old \<in> set (posts (rq_db q))" "p_id old = i" "p_author_id old = author" "p_deleted_at old = None"
    "normalizeUpdatePost (psv_lib srv) input old = Inr v" "resolves (rq_db q) author v r"
    "n = fold max (post_revisions i (rq_db q)) 0 + 1"
    "shelf (rq_db q') = (upd_where (\<lambda>p. p_id p = i) (new_content r (pcr_status res) n (clk 1)) (posts (rq_db q)),
       filter (\<lambda>l. pi_post_id l \<noteq> i) (post_images (rq_db q)) @ image_rows i (rp_image_ids r),
       post_records (rq_db q) @ new, post_histories (rq_db q) @ [h], images (rq_db q))"
    "text_reviewed srv i n (reviewed_text r) (np_publish v) (rp_image_assets r) (pcr_status res) new"
    "version_of (psv_lib srv) (rq_db q') (new_content r (pcr_status res) n (clk 1) old) author (np_edit_reason v) h" "pcr_id res = i"
proof -
  obtain old q1 v ids q2 r q3 n q4 st q5 u where
    1: "db_call postRepositoryError (post_LockByID i True) q = (Inr old, q1)"
    and g: "p_deleted_at old = None" "p_author_id old = author"
    and v: "normalizeUpdatePost (psv_lib srv) input old = Inr v"
    and 2: "db_call internal_of (PostImageIDs i) q1 = (Inr ids, q2)"
    and 3: "resolvePostPayload v author ids q2 = (Inr r, q3)"
    and 4: "replacePostContentVersion srv clk old author (np_edit_reason r) r (initial_status r) (clk 1) q3 = (Inr n, q4)"
    and 5: "finishModeration srv (review_time clk r) i n r q4 = (Inr st, q5)"
    and 6: "db_call internal_of (post_UpdateStatus i st) q5 = (Inr u, q')"
    and res: "res = \<lparr>pcr_id = i, pcr_post_type = p_post_type old, pcr_status = st\<rparr>"
    using assms by (auto simp: post_service_Update_def bind_Inr_iff seq_def ret_def fail_def split: if_splits)
  let ?s = "rq_db q"
  note 1 = post_LockByID_Inr[OF 1] and 2 = image_reads(3)[OF 2] and 3 = resolvePostPayload_Inr[OF 3]
  have rd: "reads q q3" "reads q q2" using 1(1) 2 3 by (blast intro: reads_trans)+
  then have s1: "shelf (rq_db q3) = shelf ?s" "shelf (rq_db q2) = shelf ?s" using shelf_same(1) by (auto simp: reads_def)
  have rv: "resolves ?s author v r" using 3 shelf_tables(5)[OF s1(2)] by (simp add: resolves_def)
  note rf = resolves_fields[OF rv]
  have t: "np_post_type r = p_post_type old" using normalizeUpdatePost_type[OF v] rf(1) by simp
  from replacePostContentVersion_Inr[OF 4 t] obtain h where
    n: "n = fold max (post_revisions i (rq_db q3)) 0 + 1"
    and s4: "shelf (rq_db q4) = (upd_where (\<lambda>p. p_id p = i) (new_content r (initial_status r) n (clk 1)) (posts (rq_db q3)),
       filter (\<lambda>l. pi_post_id l \<noteq> i) (post_images (rq_db q3)) @ image_rows i (rp_image_ids r),
       post_records (rq_db q3), post_histories (rq_db q3) @ [h], images (rq_db q3))"
    and h: "version_of (psv_lib srv) (rq_db q4) (new_content r (initial_status r) n (clk 1) old) author (np_edit_reason r) h"
    unfolding 1(3) by blast
  note 5 = finishModeration_Inr[OF 5]
  obtain new where s5: "shelf (rq_db q5) = (posts (rq_db q4), post_images (rq_db q4), post_records (rq_db q4) @ new,
      post_histories (rq_db q4), images (rq_db q4))"
    and new: "text_reviewed srv i n (reviewed_text r) (np_publish r) (rp_image_assets r) st new" using 5(1) by blast
  have "post_UpdateStatus i st (rq_db q5) = (Inr u, rq_db q')" using 6 by (auto simp: db_call_Inr_iff)
  note 6 = update_statements(2)[OF this]
  note e = shelf_tables[OF s1(1)] shelf_eq[OF s4] shelf_eq[OF s5]
  have "upd_where (\<lambda>p. p_id p = i) (\<lambda>p. p\<lparr>p_status := st\<rparr>) (posts (rq_db q5)) =
      upd_where (\<lambda>p. p_id p = i) (with_status st \<circ> new_content r (initial_status r) n (clk 1)) (posts ?s)"
    unfolding e with_status_def[symmetric] by (rule upd_where_same_key) simp
  also have "with_status st \<circ> new_content r (initial_status r) n (clk 1) = new_content r st n (clk 1)"
    by (simp add: fun_eq_iff new_content_status)
  finally have fin: "shelf (rq_db q') = (upd_where (\<lambda>p. p_id p = i) (new_content r st n (clk 1)) (posts ?s),
       filter (\<lambda>l. pi_post_id l \<noteq> i) (post_images ?s) @ image_rows i (rp_image_ids r),
       post_records ?s @ new, post_histories ?s @ [h], images ?s)"
    using 6 by (simp add: updates_post_def e)
  have "inset (rq_db q') = inset (rq_db q4)" using 5(2) 6 by (simp add: updates_post_def)
  from current_snapshot_same[OF this] shelf_eq(2,5)[OF fin]
  have "current_snapshot (psv_lib srv) (rq_db q') (new_content r st n (clk 1) old) =
      current_snapshot (psv_lib srv) (rq_db q4) (new_content r st n (clk 1) old)" by (simp add: e)
  also have "\<dots> = current_snapshot (psv_lib srv) (rq_db q4) (new_content r (initial_status r) n (clk 1) old)"
    by (rule current_snapshot_columns) (simp_all add: new_content_def at_revision_def contentFields_def)
  finally have "version_of (psv_lib srv) (rq_db q') (new_content r st n (clk 1) old) author (np_edit_reason v) h"
    using h rf(11) by (simp add: version_of_def new_content_def at_revision_def contentFields_def)
  moreover have "n = fold max (post_revisions i ?s) 0 + 1" using n by (simp add: post_revisions_def e)
  ultimately show ?thesis using 1(2,3) g v rv fin new res rf(9) by (intro that[of old v r n new h]) simp_all
qed

end
