(* ===== verification/Post_Delete_Effects.thy ===== *)
theory Post_Delete_Effects
  imports Post_Service_Effects
begin

section \<open>What deleting and restoring a post change\<close>

text \<open>
  The deletions and the two ways back, by the author and by an administrator, each as one change
  of the shelf of \<open>Post_Effects\<close>.
\<close>

definition removed :: "time \<Rightarrow> DeleteReason \<Rightarrow> row_id \<Rightarrow> post \<Rightarrow> post" where
  "removed now reason actor p = p\<lparr>p_deleted_at := Some now, p_deleted_reason := Some reason, p_deleted_by := Some actor\<rparr>"

definition revived :: "post \<Rightarrow> post" where
  "revived p = p\<lparr>p_deleted_at := None, p_deleted_reason := None, p_deleted_by := None\<rparr>"

lemma marks_shelf:
  assumes "marks S st s s'"
  shows "posts s' = posts s" "post_images s' = post_images s" "post_records s' = post_records s"
    "post_histories s' = post_histories s" "images s' = mark_images S st (images s)"
  using assms by (simp_all add: marks_def shelf_def)

lemma reads_marks: "reads q q' \<Longrightarrow> marks {} st (rq_db q) (rq_db q')"
  by (intro marks_none) (auto simp: reads_def dest: shelf_same)

lemma reads_shelf: "reads q q' \<Longrightarrow> shelf (rq_db q') = shelf (rq_db q)"
  by (auto simp: reads_def dest: shelf_same)

lemma undeleted_reference_shelf:
  "shelf t = shelf s \<Longrightarrow> undeleted_reference t = undeleted_reference s"
  "posts t = posts s \<Longrightarrow> post_images t = post_images s \<Longrightarrow> undeleted_reference t = undeleted_reference s"
  by (simp_all add: undeleted_reference_def fun_eq_iff shelf_def)

lemma found_or_none_value:
  "found_or_none (query_first f) q = (Inr x, q') \<Longrightarrow> x = f ((rq_db q)\<lparr>db_stmts := Suc (db_stmts (rq_db q))\<rparr>)"
  by (auto simp: found_or_none_def bind_run attempt_run repo_run query_first_run ret_def fail_def
      split: sum.splits if_splits option.splits)

subsection \<open>Deleting\<close>

lemma uniqueSortedIDs_empty: "uniqueSortedIDs ids = [] \<longleftrightarrow> set ids \<subseteq> {0}"
proof -
  have "uniqueSortedIDs ids = [] \<longleftrightarrow> set (uniqueSortedIDs ids) = {}" by simp
  also have "set (uniqueSortedIDs ids) = {i \<in> set ids. i \<noteq> 0}" by (auto simp: uniqueSortedIDs_def)
  finally show ?thesis by blast
qed

lemma in_uniqueSortedIDs: "i \<in> set (uniqueSortedIDs ids) \<longleftrightarrow> i \<in> set ids \<and> i \<noteq> 0"
  by (auto simp: uniqueSortedIDs_def)

lemma locked_images:
  assumes "db_call h (LockImagesByIDs ids) q = (Inr imgs, q')"
  shows "reads q q'" "set imgs = {a \<in> set (images (rq_db q)). img_id a \<in> set ids \<and> img_id a \<noteq> 0}"
  using assms by (auto simp: LockImagesByIDs_def uniqueSortedIDs_empty in_uniqueSortedIDs Let_def split: if_splits
      dest!: db_call_query ret_reads)

lemma unreferenced_images:
  assumes "db_call h (ImageIDsWithoutUndeletedPostReferences ids) q = (Inr ids', q')"
  shows "reads q q'"
    "set ids' = {img_id a | a. a \<in> set (images (rq_db q)) \<and> img_id a \<in> set ids \<and> img_id a \<noteq> 0 \<and>
       \<not> undeleted_reference (rq_db q) (img_id a)}"
proof -
  have u: "undeleted_reference (s\<lparr>db_stmts := n\<rparr>) = undeleted_reference s" for s n
    by (rule undeleted_reference_shelf) simp
  show "reads q q'" "set ids' = {img_id a | a. a \<in> set (images (rq_db q)) \<and> img_id a \<in> set ids \<and> img_id a \<noteq> 0 \<and>
       \<not> undeleted_reference (rq_db q) (img_id a)}"
    using assms by (auto simp: ImageIDsWithoutUndeletedPostReferences_def uniqueSortedIDs_empty in_uniqueSortedIDs Let_def u
        split: if_splits dest!: db_call_query ret_reads)
qed

definition shown_by :: "db \<Rightarrow> row_id \<Rightarrow> row_id set" where
  "shown_by s i = pi_image_id ` {l \<in> set (post_images s). pi_post_id l = i}"

lemma deletePost_Inr:
  assumes "deletePostWithHistoryAndImages clk p actor reason now q = (Inr u, q')"
  obtains S where
    "shelf (rq_db q') = (upd_where (\<lambda>x. p_id x = p_id p \<and> p_deleted_at x = None) (removed now reason actor) (posts (rq_db q)),
       post_images (rq_db q), post_records (rq_db q), post_histories (rq_db q), mark_images S ModBlock (images (rq_db q)))"
    "\<forall>i\<in>S. \<not> undeleted_reference (rq_db q') i" "S \<subseteq> shown_by (rq_db q) (p_id p)"
    "distinct (map img_id (images (rq_db q))) \<longrightarrow> (\<forall>a\<in>set (images (rq_db q)). img_id a \<noteq> 0 \<and> img_id a \<in> shown_by (rq_db q) (p_id p) \<and>
       \<not> undeleted_reference (rq_db q') (img_id a) \<longrightarrow> img_id a \<in> S \<or> img_moderation a = ModBlock)"
proof -
  let ?s = "rq_db q"
  obtain ids q1 imgs q2 v q3 gone q4 where
    1: "db_call internal_of (PostImageIDs (p_id p)) q = (Inr ids, q1)"
    and 2: "db_call internal_of (LockImagesByIDs ids) q1 = (Inr imgs, q2)"
    and 3: "db_call postRepositoryError (post_SoftDelete (p_id p) actor reason now) q2 = (Inr v, q3)"
    and 4: "db_call internal_of (ImageIDsWithoutUndeletedPostReferences ids) q3 = (Inr gone, q4)"
    and 5: "db_call internal_of (block_images clk 2 (p_id p) actor (\<lambda>i. find (\<lambda>a. img_id a = i) imgs) gone now) q4 = (Inr u, q')"
    using assms by (auto simp: deletePostWithHistoryAndImages_def bind_Inr_iff seq_def)
  let ?S = "to_block (\<lambda>i. find (\<lambda>a. img_id a = i) imgs) gone"
  note 1 = image_reads(3)[OF 1] and 2 = locked_images[OF 2] and 4 = unreferenced_images[OF 4]
  have "reads q q2" using 1 2 by (blast intro: reads_trans)
  then have s2: "shelf (rq_db q2) = shelf ?s" and s1: "shelf (rq_db q1) = shelf ?s" using 1 by (auto dest: reads_shelf)
  have "found (update_post (\<lambda>p. p_deleted_at p = None) (p_id p) (removed now reason actor)) (rq_db q2) = (Inr v, rq_db q3)"
    using 3 by (auto simp: db_call_Inr_iff post_SoftDelete_def removed_def[abs_def])
  note 3 = update_post_Inr[OF found_Inr[OF this]]
  have "block_images clk 2 (p_id p) actor (\<lambda>i. find (\<lambda>a. img_id a = i) imgs) gone now (rq_db q4) = (Inr u, rq_db q')"
    using 5 by (auto simp: db_call_Inr_iff)
  note 5 = block_images_Inr[OF this]
  note e = shelf_tables[OF s1] shelf_tables[OF s2] shelf_eq[OF 3(1)] shelf_tables[OF reads_shelf[OF 4(1)]]
  have u: "undeleted_reference (rq_db q') = undeleted_reference (rq_db q3)"
    using marks_shelf(1,2)[OF 5] by (intro undeleted_reference_shelf(2)) (simp_all add: e)
  have keys: "i \<in> set gone \<and> a \<in> set imgs \<and> img_id a = i" if "i \<in> set gone" "find (\<lambda>a. img_id a = i) imgs = Some a" for i a
    using that find_SomeD[of "\<lambda>a. img_id a = i" imgs a] by simp
  have sub: "?S \<subseteq> set gone"
  proof
    fix x assume "x \<in> ?S"
    then obtain i a where "x = img_id a" "i \<in> set gone" "find (\<lambda>a. img_id a = i) imgs = Some a"
      unfolding to_block_def by blast
    with keys[of i a] show "x \<in> set gone" by simp
  qed
  have ids: "set ids = shown_by ?s (p_id p)" using 1 by (simp add: shown_by_def)
  show ?thesis
  proof (rule that[of ?S])
    show "shelf (rq_db q') = (upd_where (\<lambda>x. p_id x = p_id p \<and> p_deleted_at x = None) (removed now reason actor) (posts ?s),
       post_images ?s, post_records ?s, post_histories ?s, mark_images ?S ModBlock (images ?s))"
      using marks_shelf[OF 5] by (simp add: shelf_def e)
    show "\<forall>i\<in>?S. \<not> undeleted_reference (rq_db q') i" "?S \<subseteq> shown_by ?s (p_id p)" using sub 4(2) ids u by (auto simp: e)
    show "distinct (map img_id (images ?s)) \<longrightarrow> (\<forall>a\<in>set (images ?s). img_id a \<noteq> 0 \<and> img_id a \<in> shown_by ?s (p_id p) \<and>
       \<not> undeleted_reference (rq_db q') (img_id a) \<longrightarrow> img_id a \<in> ?S \<or> img_moderation a = ModBlock)"
    proof safe
      fix a assume d: "distinct (map img_id (images ?s))" and a: "a \<in> set (images ?s)" "img_id a \<in> shown_by ?s (p_id p)" "img_id a > 0"
        "\<not> undeleted_reference (rq_db q') (img_id a)" "img_moderation a \<noteq> ModBlock"
      have g: "img_id a \<in> set gone" using a 4(2) ids u by (auto simp: e)
      have "a \<in> set imgs" using a(1-3) 2(2) ids by (simp add: e)
      then obtain b where b: "find (\<lambda>x. img_id x = img_id a) imgs = Some b" by (cases "find (\<lambda>x. img_id x = img_id a) imgs") (auto simp: find_None_iff)
      then have "b \<in> set (images ?s)" "img_id b = img_id a" using 2(2) find_SomeD[OF b] by (auto simp: e)
      then have "b = a" using d a(1) by (auto simp: distinct_map dest: inj_onD)
      with g b a(5) show "img_id a \<in> ?S" unfolding to_block_def by blast
    qed
  qed
qed

lemma post_service_Delete_Inr:
  assumes "post_service_Delete clk i author q = (Inr u, q')"
  obtains p q1 where "p \<in> set (posts (rq_db q))" "p_id p = i" "p_deleted_at p = None" "p_author_id p = author" "reads q q1"
    "deletePostWithHistoryAndImages clk p author DeletedByAuthor (clk 1) q1 = (Inr u, q')"
  using assms by (auto simp: post_service_Delete_def bind_Inr_iff fail_def split: if_splits dest: post_LockByID_Inr)

lemma admin_DeletePost_Inr:
  assumes "admin_DeletePost clk i actor q = (Inr u, q')"
  obtains p q1 where "p \<in> set (posts (rq_db q))" "p_id p = i" "p_deleted_at p = None" "reads q q1"
    "deletePostWithHistoryAndImages clk p actor (if p_author_id p = actor then DeletedByAuthor else DeletedByAdmin) (clk 1) q1
       = (Inr u, q')"
proof -
  obtain p q1 where 1: "db_call (ToAPIError BizPostNotFound) (post_LockByID i True) q = (Inr p, q1)"
    and 2: "(if p_deleted_at p \<noteq> None then fail (NotFound (Some BizPostDeleted))
      else deletePostWithHistoryAndImages clk p actor (if p_author_id p = actor then DeletedByAuthor else DeletedByAdmin) (clk 1)) q1
        = (Inr u, q')"
    using assms unfolding admin_DeletePost_def by (elim bind_InrE)
  have "p_deleted_at p = None" using 2 by (cases "p_deleted_at p") (auto simp: fail_def)
  then show ?thesis using post_LockByID_Inr[OF 1] 2 by (intro that[of p q1]) simp_all
qed

subsection \<open>The way back\<close>

lemma else_InrE:
  assumes "(if b then fail e else m) q = (Inr y, q')"
  obtains "\<not> b" "m q = (Inr y, q')"
  using assms by (auto simp: fail_def split: if_splits)

text \<open>
  What the snapshot of a version says the post is, in the normal form of the payload: title and content
  without the space around them, the dictionary entries by the code and the name they now have, tags and
  images in their normal form, the flavours with their stance, and to be published.
\<close>

definition flavors_with :: "postSnapshot \<Rightarrow> FlavorStance \<Rightarrow> string list" where
  "flavors_with snap st = map fst (filter (\<lambda>f. snd f = st) (ss_flavors snap))"

definition snapshot_stances :: "auth_lib \<Rightarrow> postSnapshot \<Rightarrow> string \<Rightarrow> FlavorStance option" where
  "snapshot_stances lib snap =
     (if ss_post_type snap = TypeShare
      then (\<lambda>n. if n \<in> set (normalizeStrings lib (map fst (ss_flavors snap))) then Some StanceHas else None)
      else stances_of (normalizeStrings lib (flavors_with snap StancePrefer)) (normalizeStrings lib (flavors_with snap StanceAvoid)))"

definition restores_content :: "auth_lib \<Rightarrow> decimal_lib \<Rightarrow> db \<Rightarrow> postSnapshot \<Rightarrow> normalizedPostPayload \<Rightarrow> bool" where
  "restores_content lib dl s snap v \<longleftrightarrow>
     np_title v = TrimSpace (ss_title snap) \<and> np_content v = TrimSpace (ss_content snap) \<and>
     post_type_text (np_post_type v) = post_type_text (ss_post_type snap) \<and>
     category_text (np_category v) = category_text (ss_category snap) \<and>
     map_option share_type_text (np_share_type v) = map_option (TrimSpace \<circ> share_type_text) (ss_share_type snap) \<and>
     (case ss_canteen_id snap of None \<Rightarrow> np_canteen_code v = None
      | Some i \<Rightarrow> \<exists>c\<in>set (canteens s). ct_id c = i \<and> ct_is_active c \<and> np_canteen_code v = normalizeOptional (Some (ct_code c))) \<and>
     (case ss_cuisine_id snap of None \<Rightarrow> np_cuisine v = None
      | Some i \<Rightarrow> \<exists>c\<in>set (cuisines s). cs_id c = i \<and> cs_is_active c \<and> np_cuisine v = normalizeOptional (Some (cs_name c))) \<and>
     np_window_id v = ss_canteen_window_id snap \<and>
     map_option Inr (np_price v) = map_option (money_Parse dl \<circ> Amount_String dl) (ss_price snap) \<and>
     np_budget v = (case (ss_budget_min snap, ss_budget_max snap) of
        (Some a, Some b) \<Rightarrow> Some \<lparr>bg_min = a, bg_max = b\<rparr> | _ \<Rightarrow> None) \<and>
     np_tags v = normalizeTags lib (ss_tags snap) \<and> np_images v = normalizeStrings lib (ss_images snap) \<and>
     (validPostType (ss_post_type snap) \<longrightarrow> np_post_type v = ss_post_type snap \<and> np_flavor_stances v = snapshot_stances lib snap) \<and>
     np_publish v"

text \<open>The input that a version is restored from: its snapshot, with the rows its keys now name.\<close>

definition snapshot_payload :: "postSnapshot \<Rightarrow> string option \<Rightarrow> string option \<Rightarrow> amount option \<Rightarrow> PostPayload \<Rightarrow> bool" where
  "snapshot_payload snap code name price payload \<longleftrightarrow>
     py_title payload = ss_title snap \<and> py_content payload = ss_content snap \<and>
     py_category payload = category_text (ss_category snap) \<and>
     py_share_type payload = map_option share_type_text (ss_share_type snap) \<and> py_canteen_code payload = code \<and>
     py_window_id payload = ss_canteen_window_id snap \<and> py_cuisine payload = name \<and> py_price payload = price \<and>
     py_flavors payload = (if ss_post_type snap = TypeShare then map fst (ss_flavors snap) else []) \<and>
     py_tags payload = ss_tags snap \<and> py_images payload = ss_images snap \<and>
     py_budget payload = (case (ss_budget_min snap, ss_budget_max snap) of
        (Some a, Some b) \<Rightarrow> Some \<lparr>bg_min = a, bg_max = b\<rparr> | _ \<Rightarrow> None) \<and>
     py_preferences payload = (if ss_post_type snap \<noteq> TypeShare \<and>
          (flavors_with snap StancePrefer \<noteq> [] \<or> flavors_with snap StanceAvoid \<noteq> [])
        then Some \<lparr>pf_avoid = flavors_with snap StanceAvoid, pf_prefer = flavors_with snap StancePrefer\<rparr> else None)"

lemma updateInputFromSnapshot_Inr:
  assumes "updateInputFromSnapshot dl snap why q = (Inr input, q')"
  obtains code name price where "reads q q'"
    "case ss_canteen_id snap of None \<Rightarrow> code = None
     | Some i \<Rightarrow> \<exists>c\<in>set (canteens (rq_db q)). ct_id c = i \<and> ct_is_active c \<and> code = Some (ct_code c)"
    "case ss_cuisine_id snap of None \<Rightarrow> name = None
     | Some i \<Rightarrow> \<exists>c\<in>set (cuisines (rq_db q)). cs_id c = i \<and> cs_is_active c \<and> name = Some (cs_name c)"
    "map_option Inr price = map_option (money_Parse dl \<circ> Amount_String dl) (ss_price snap)"
    "snapshot_payload snap code name price (upi_payload input)"
    "upi_post_type input = Some (post_type_text (ss_post_type snap))" "upi_status input = Some ''pending''"
proof -
  obtain c q1 cu q2 pr q3 where
    1: "(case ss_canteen_id snap of None \<Rightarrow> ret None
       | Some i \<Rightarrow> bind (db_call dictionaryError (FindActiveCanteenByID i)) (\<lambda>c. ret (Some (ct_code c)))) q = (Inr c, q1)"
    and 2: "(case ss_cuisine_id snap of None \<Rightarrow> ret None
       | Some i \<Rightarrow> bind (db_call dictionaryError (FindActiveCuisineByID i)) (\<lambda>c. ret (Some (cs_name c)))) q1 = (Inr cu, q2)"
    and 3: "(case ss_price snap of None \<Rightarrow> ret None
       | Some a \<Rightarrow> (case money_Parse dl (Amount_String dl a) of
           Inl err \<Rightarrow> fail (Internal err) | Inr price \<Rightarrow> ret (Some price))) q2 = (Inr pr, q3)"
    and 4: "q3 = q'" "snapshot_payload snap c cu pr (upi_payload input)"
      "upi_post_type input = Some (post_type_text (ss_post_type snap))" "upi_status input = Some ''pending''"
    using assms unfolding updateInputFromSnapshot_def
    by (elim bind_InrE) (auto simp: Let_def ret_def snapshot_payload_def flavors_with_def)
  have 1: "reads q q1" "case ss_canteen_id snap of None \<Rightarrow> c = None
     | Some i \<Rightarrow> \<exists>x\<in>set (canteens (rq_db q)). ct_id x = i \<and> ct_is_active x \<and> c = Some (ct_code x)"
    using 1 by (cases "ss_canteen_id snap"; auto simp: ret_def bind_Inr_iff FindActiveCanteenByID_def
        dest!: query_first_call_Inr first_by_key)+
  have "cuisines (rq_db q1) = cuisines (rq_db q)" using 1(1) by (auto simp: reads_def same_tables_iff)
  with 2 have 2: "reads q1 q2" "case ss_cuisine_id snap of None \<Rightarrow> cu = None
     | Some i \<Rightarrow> \<exists>x\<in>set (cuisines (rq_db q)). cs_id x = i \<and> cs_is_active x \<and> cu = Some (cs_name x)"
    by (cases "ss_cuisine_id snap"; auto simp: ret_def bind_Inr_iff FindActiveCuisineByID_def
        dest!: query_first_call_Inr first_by_key)+
  have 3: "q3 = q2" "map_option Inr pr = map_option (money_Parse dl \<circ> Amount_String dl) (ss_price snap)"
    using 3 by (auto simp: ret_def fail_def split: option.splits sum.splits)
  show ?thesis by (rule that[of c cu pr]) (use 1 2 3 4 in \<open>auto intro: reads_trans\<close>)
qed

lemma post_type_of_text [simp]: "validPostType t \<Longrightarrow> post_type_of (post_type_text t) = t"
  by (auto simp: validPostType_def post_type_of_def)

lemma normalizeUpdatePost_Inr:
  assumes "normalizeUpdatePost lib input post = Inr v"
  shows "\<exists>publish reason. publishIntent (upi_status input) (p_status post) = Inr publish \<and>
      normalizePostPayload lib (upi_payload input) (p_post_type post) publish reason = Inr v"
    "upi_post_type input = Some t \<Longrightarrow> p_post_type post = post_type_of t"
proof -
  note v = assms[unfolded normalizeUpdatePost_def unless_error_Inr and_then_Inr]
  show "\<exists>publish reason. publishIntent (upi_status input) (p_status post) = Inr publish \<and>
      normalizePostPayload lib (upi_payload input) (p_post_type post) publish reason = Inr v" using v by blast
  show "p_post_type post = post_type_of t" if "upi_post_type input = Some t"
    using conjunct1[OF v] that by (auto split: if_splits)
qed

lemma restores_content_rows:
  "canteens s = canteens t \<Longrightarrow> cuisines s = cuisines t \<Longrightarrow> restores_content lib dl s snap v = restores_content lib dl t snap v"
  by (simp only: restores_content_def)

lemma normalizeUpdatePost_restores:
  assumes input: "updateInputFromSnapshot dl snap why q = (Inr input, q')" and v: "normalizeUpdatePost lib input post = Inr v"
  shows "reads q q'" "restores_content lib dl (rq_db q) snap v"
proof -
  obtain code name price where rd: "reads q q'"
    and c: "case ss_canteen_id snap of None \<Rightarrow> code = None
     | Some i \<Rightarrow> \<exists>c\<in>set (canteens (rq_db q)). ct_id c = i \<and> ct_is_active c \<and> code = Some (ct_code c)"
    and n: "case ss_cuisine_id snap of None \<Rightarrow> name = None
     | Some i \<Rightarrow> \<exists>c\<in>set (cuisines (rq_db q)). cs_id c = i \<and> cs_is_active c \<and> name = Some (cs_name c)"
    and pr: "map_option Inr price = map_option (money_Parse dl \<circ> Amount_String dl) (ss_price snap)"
    and py: "snapshot_payload snap code name price (upi_payload input)"
    and ty: "upi_post_type input = Some (post_type_text (ss_post_type snap))" and st: "upi_status input = Some ''pending''"
    by (rule updateInputFromSnapshot_Inr[OF input])
  obtain reason where np: "normalizePostPayload lib (upi_payload input) (p_post_type post) True reason = Inr v"
    and t: "p_post_type post = post_type_of (post_type_text (ss_post_type snap))"
    using normalizeUpdatePost_Inr[OF v] ty by (auto simp: st publishIntent_def)
  note ok = normalizePostPayload_ok[OF np] and f = normalizePostPayload_fields[OF np]
  note p = py[unfolded snapshot_payload_def]
  have sh: "map_option share_type_text (np_share_type v) = map_option (TrimSpace \<circ> share_type_text) (ss_share_type snap)"
  proof -
    have "normalizeShareType (map_option share_type_text (ss_share_type snap)) = Inr (np_share_type v)" using f(2) p by simp
    then show ?thesis by (cases "ss_share_type snap"; cases "np_share_type v") (auto simp: normalizeShareType_def split: if_splits)
  qed
  have fl: "np_flavor_stances v = snapshot_stances lib snap" if "validPostType (ss_post_type snap)"
    using f(9) p that by (auto simp: t snapshot_stances_def flavors_with_def stances_of_def normalizeStrings_def deduplicateStrings_def fun_eq_iff)
  show "reads q q'" by (rule rd)
  show "restores_content lib dl (rq_db q) snap v"
    unfolding restores_content_def
  proof (intro conjI impI)
    show "case ss_canteen_id snap of None \<Rightarrow> np_canteen_code v = None
      | Some i \<Rightarrow> \<exists>c\<in>set (canteens (rq_db q)). ct_id c = i \<and> ct_is_active c \<and> np_canteen_code v = normalizeOptional (Some (ct_code c))"
      using c f(3) p by (cases "ss_canteen_id snap") (auto simp: normalizeOptional_def)
    show "case ss_cuisine_id snap of None \<Rightarrow> np_cuisine v = None
      | Some i \<Rightarrow> \<exists>c\<in>set (cuisines (rq_db q)). cs_id c = i \<and> cs_is_active c \<and> np_cuisine v = normalizeOptional (Some (cs_name c))"
      using n f(5) p by (cases "ss_cuisine_id snap") (auto simp: normalizeOptional_def)
    show "np_title v = TrimSpace (ss_title snap)" "np_content v = TrimSpace (ss_content snap)" "np_publish v"
      "post_type_text (np_post_type v) = post_type_text (ss_post_type snap)"
      using ok p by (simp_all add: t)
    show "category_text (np_category v) = category_text (ss_category snap)" "np_window_id v = ss_canteen_window_id snap"
      "np_budget v = (case (ss_budget_min snap, ss_budget_max snap) of (Some a, Some b) \<Rightarrow> Some \<lparr>bg_min = a, bg_max = b\<rparr> | _ \<Rightarrow> None)"
      "np_tags v = normalizeTags lib (ss_tags snap)" "np_images v = normalizeStrings lib (ss_images snap)"
      using p by (simp_all add: f)
    show "map_option Inr (np_price v) = map_option (money_Parse dl \<circ> Amount_String dl) (ss_price snap)"
      using ok p pr by simp
    show "np_post_type v = ss_post_type snap" if "validPostType (ss_post_type snap)" using ok that by (simp add: t)
  qed (use sh fl in blast)+
qed

lemma restoreDeletedSnapshotImages_Inr:
  assumes "restoreDeletedSnapshotImages clk k i actor urls old q = (Inr u, q')"
  shows "\<exists>S. marks S ModPass (rq_db q) (rq_db q')"
proof -
  obtain imgs q1 ls q2 where
    1: "db_call internal_of (FindImagesByURLs urls) q = (Inr imgs, q1)"
    and 2: "db_call internal_of (LockImagesByIDs (old @ map img_id imgs)) q1 = (Inr ls, q2)"
    and 3: "db_call internal_of (restoreAdminPostDeleteImages clk (Suc k) i actor
       (filter (\<lambda>a. img_id a \<in> img_id ` set imgs) ls) (clk k)) q2 = (Inr u, q')"
    using assms by (auto simp: restoreDeletedSnapshotImages_def bind_Inr_iff)
  have "marks {} ModPass (rq_db q) (rq_db q2)"
    using image_reads(1)[OF 1] locked_images(1)[OF 2] by (blast intro: reads_marks reads_trans)
  moreover obtain S where "marks S ModPass (rq_db q2) (rq_db q')"
    using 3 restoreAdminPostDeleteImages_Inr by (fastforce simp: db_call_Inr_iff)
  ultimately show ?thesis by (blast dest: marks_trans)
qed

lemma upd_where_restores:
  assumes "\<forall>x\<in>set t. p_id x = i \<longrightarrow> p_deleted_at (f x) \<noteq> None" "\<And>x. p_id (f x) = p_id x"
  shows "upd_where (\<lambda>x. p_id x = i \<and> p_deleted_at x \<noteq> None) revived (upd_where (\<lambda>x. p_id x = i) f t) =
    upd_where (\<lambda>x. p_id x = i) (revived \<circ> f) t"
  using assms by (auto simp: upd_where_def)

definition reshown :: "post \<Rightarrow> post" where
  "reshown p = (if p_deleted_at p = None then p else revived p)"

lemma new_content_deleted [simp]: "p_deleted_at (new_content r st n now p) = p_deleted_at p"
  by (simp add: new_content_def at_revision_def contentFields_def)

lemma reshown_new_content: "with_status st' (reshown (new_content r st n now p)) = reshown (new_content r st' n now p)"
  by (simp add: reshown_def revived_def new_content_def at_revision_def contentFields_def with_status_def)

lemma post_service_RestoreHistory_Inr:
  assumes "post_service_RestoreHistory srv clk i revision why author q = (Inr res, q')"
    and d: "distinct (map p_id (posts (rq_db q)))"
  obtains post h v r S new where "post \<in> set (posts (rq_db q))" "p_id post = i" "p_author_id post = author"
    "h \<in> set (post_histories (rq_db q))" "ph_post_id h = i" "ph_revision h = revision"
    "restores_content (psv_lib srv) (psv_decimal srv) (rq_db q) (ph_snapshot h) v"
    "resolves ((rq_db q)\<lparr>images := mark_images S ModPass (images (rq_db q))\<rparr>) author v r"
    "shelf (rq_db q') = (upd_where (\<lambda>p. p_id p = i) (reshown \<circ> new_content r (pcr_status res) revision (clk 1)) (posts (rq_db q)),
       filter (\<lambda>l. pi_post_id l \<noteq> i) (post_images (rq_db q)) @ image_rows i (rp_image_ids r),
       post_records (rq_db q) @ new, post_histories (rq_db q), mark_images S ModPass (images (rq_db q)))"
    "case current_post_record (rq_db q) i revision of
       None \<Rightarrow> text_reviewed srv i revision (reviewed_text r) (np_publish v) (rp_image_assets r) (pcr_status res) new
     | Some s \<Rightarrow> new = [] \<and> aggregatePostModeration (mr_verdict s) (rp_image_assets r) = Inr (pcr_status res)"
    "pcr_id res = i"
proof -
  let ?s = "rq_db q"
  obtain post q1 h q2 source q3 input q4 v qv ids q5 u6 q6 r q7 st qs u8 q8 r' q9 u10 q10 st' q11 where
    1: "db_call postRepositoryError (post_LockByID i True) q = (Inr post, q1)" and g: "\<not> p_author_id post \<noteq> author"
    and 2: "db_call (ToAPIError BizNotFound) (post_FindHistory i revision) q1 = (Inr h, q2)"
    and 3: "found_or_none (LatestPostModerationForRevision i revision) q2 = (Inr source, q3)"
    and 4: "updateInputFromSnapshot (psv_decimal srv) (ph_snapshot h) why q3 = (Inr input, q4)"
    and v: "lift_result (normalizeUpdatePost (psv_lib srv) input post) q4 = (Inr v, qv)"
    and 5: "db_call internal_of (PostImageIDs i) qv = (Inr ids, q5)"
    and 6: "(if p_deleted_at post \<noteq> None then restoreDeletedSnapshotImages clk 100 i author (ss_images (ph_snapshot h)) ids
       else ret ()) q5 = (Inr u6, q6)"
    and 7: "resolvePostPayload v author ids q6 = (Inr r, q7)"
    and st: "lift_result (restored_status source r) q7 = (Inr st, qs)"
    and 8: "db_call postRepositoryError (post_UpdateContent i (at_revision revision \<circ> contentFields r st (clk 1))) qs = (Inr u8, q8)"
    and 9: "map_err Internal (applyPostRelations srv clk i r) q8 = (Inr r', q9)"
    and 10: "(if p_deleted_at post \<noteq> None then db_call postRepositoryError (post_Restore i) else ret ()) q9 = (Inr u10, q10)"
    and 11: "(if source = None then reviewRestoredPost srv (review_time clk r) i revision r' else ret st) q10 = (Inr st', q11)"
    and res: "(ret \<lparr>pcr_id = i, pcr_post_type = p_post_type post, pcr_status = st'\<rparr> :: PostCreateResult mod_act) q11 = (Inr res, q')"
    using assms(1) unfolding post_service_RestoreHistory_def seq_def by (elim bind_InrE else_InrE)
  have g: "p_author_id post = author" and v: "normalizeUpdatePost (psv_lib srv) input post = Inr v" "qv = q4"
    and st: "restored_status source r = Inr st" "qs = q7"
    and res: "res = \<lparr>pcr_id = i, pcr_post_type = p_post_type post, pcr_status = st'\<rparr>" "q11 = q'"
    using g v st res by (auto simp: ret_def)
  note 5 = 5[unfolded v] and 8 = 8[unfolded st] and 11 = 11[unfolded res]
  note 1 = post_LockByID_Inr[OF 1]
  have h: "reads q1 q2" "h \<in> set (post_histories (rq_db q1))" "ph_post_id h = i" "ph_revision h = revision"
    using 2 by (auto simp: post_FindHistory_def dest!: query_first_call_Inr first_by_key)
  have src: "reads q2 q3" "source = current_post_record ((rq_db q2)\<lparr>db_stmts := Suc (db_stmts (rq_db q2))\<rparr>) i revision"
    using 3 unfolding LatestPostModerationForRevision_def by (auto dest: found_or_none_reads found_or_none_value)
  note rc = normalizeUpdatePost_restores(2)[OF 4 v(1)]
  note 4 = normalizeUpdatePost_restores(1)[OF 4 v(1)] and 5 = image_reads(3)[OF 5] and 7 = resolvePostPayload_Inr[OF 7]
  note rd2 = reads_trans[OF 1(1) h(1)]
  note rd = reads_trans[OF reads_trans[OF reads_trans[OF rd2 src(1)] 4] conjunct1[OF 5]] rd2
  obtain S where S: "marks S ModPass (rq_db q5) (rq_db q6)"
    using 6 by (cases "p_deleted_at post") (auto simp: ret_def intro: marks_none dest: restoreDeletedSnapshotImages_Inr)
  have rc: "restores_content (psv_lib srv) (psv_decimal srv) ?s (ph_snapshot h) v"
  proof -
    have "canteens (rq_db q3) = canteens ?s" "cuisines (rq_db q3) = cuisines ?s"
      using reads_trans[OF rd2 src(1)] by (auto simp: reads_def same_tables_iff)
    note same = restores_content_rows[OF this]
    from rc show ?thesis by (simp only: same)
  qed
  note s5 = shelf_tables[OF reads_shelf[OF rd(1)]] and s1 = shelf_tables[OF reads_shelf[OF 1(1)]]
    and s6 = marks_shelf[OF S] and s7 = shelf_tables[OF reads_shelf[OF conjunct1[OF 7]]]
  have rv: "resolves (?s\<lparr>images := mark_images S ModPass (images ?s)\<rparr>) author v r"
    using 7 by (simp add: resolves_def s6 s5)
  note rf = resolves_fields[OF rv]
  have source: "source = current_post_record ?s i revision"
  proof -
    have "moderation_records (rq_db q2) = moderation_records ?s" using rd(2) by (auto simp: reads_def same_tables_iff)
    with src(2) show ?thesis by (simp add: current_post_record_def)
  qed
  have "post_UpdateContent i (new_content r st revision (clk 1)) (rq_db q7) = (Inr u8, rq_db q8)"
    using 8 by (auto simp: db_call_Inr_iff new_content_def[abs_def] comp_def)
  then have 8: "shelf (rq_db q8) = (upd_where (\<lambda>p. p_id p = i) (new_content r st revision (clk 1)) (posts (rq_db q7)),
      post_images (rq_db q7), post_records (rq_db q7), post_histories (rq_db q7), images (rq_db q7))"
    using update_statements(1) unfolding updates_post_def by blast
  have "applyPostRelations srv clk i r q8 = (Inr r', q9)" using 9 by (simp add: map_err_Inr_iff)
  note 9 = applyPostRelations_Inr[OF this]
  note e = s5 s6 s7 shelf_eq[OF 8] shelf_eq[OF 9(1)]
  let ?f = "new_content r st revision (clk 1)"
  have only: "x = post" if "x \<in> set (posts ?s)" "p_id x = i" for x
    using that d 1(2,3) by (auto simp: distinct_map dest: inj_onD)
  have 10: "shelf (rq_db q10) = (upd_where (\<lambda>p. p_id p = i) (reshown \<circ> ?f) (posts ?s), post_images (rq_db q9),
      post_records (rq_db q9), post_histories (rq_db q9), images (rq_db q9))"
  proof (cases "p_deleted_at post = None")
    case True
    then have "upd_where (\<lambda>p. p_id p = i) (reshown \<circ> ?f) (posts ?s) = upd_where (\<lambda>p. p_id p = i) ?f (posts ?s)"
      using only by (auto simp: upd_where_def reshown_def)
    moreover have "q10 = q9" using 10 True by (simp add: ret_def)
    ultimately show ?thesis by (simp add: shelf_def e)
  next
    case False
    then have "found (update_post (\<lambda>p. p_deleted_at p \<noteq> None) i revived) (rq_db q9) = (Inr u10, rq_db q10)"
      using 10 by (auto simp: db_call_Inr_iff post_Restore_def revived_def[abs_def])
    note up = update_post_Inr(1)[OF found_Inr[OF this]]
    have dl: "\<forall>x\<in>set (posts ?s). p_id x = i \<longrightarrow> p_deleted_at x \<noteq> None" using only False by blast
    then have "upd_where (\<lambda>x. p_id x = i \<and> p_deleted_at x \<noteq> None) revived (upd_where (\<lambda>x. p_id x = i) ?f (posts ?s)) =
        upd_where (\<lambda>x. p_id x = i) (revived \<circ> ?f) (posts ?s)"
      by (intro upd_where_restores) auto
    also have "\<dots> = upd_where (\<lambda>x. p_id x = i) (reshown \<circ> ?f) (posts ?s)"
      using dl by (auto simp: upd_where_def reshown_def)
    finally show ?thesis using up by (simp add: e)
  qed
  have r': "reviewed_text r' = reviewed_text r" "np_publish r' = np_publish v" "rp_image_assets r' = rp_image_assets r"
    using 9(2) rf by (auto simp: reviewed_text_def)
  show ?thesis
  proof (cases source)
    case None
    then have "reviewRestoredPost srv (review_time clk r) i revision r' q10 = (Inr st', q')" using 11 by simp
    then obtain q11 where f: "finishModeration srv (review_time clk r) i revision r' q10 = (Inr st', q11)"
      and up: "db_call internal_of (post_UpdateStatus i st') q11 = (Inr u, q')"
      by (auto simp: reviewRestoredPost_def bind_Inr_iff seq_def ret_def)
    obtain new where new: "shelf (rq_db q11) = (posts (rq_db q10), post_images (rq_db q10), post_records (rq_db q10) @ new,
        post_histories (rq_db q10), images (rq_db q10))"
      "text_reviewed srv i revision (reviewed_text r) (np_publish v) (rp_image_assets r) st' new"
      using finishModeration_Inr(1)[OF f] by (auto simp: r')
    have "post_UpdateStatus i st' (rq_db q11) = (Inr u, rq_db q')" using up by (auto simp: db_call_Inr_iff)
    then have u: "shelf (rq_db q') = (upd_where (\<lambda>p. p_id p = i) (with_status st') (posts (rq_db q11)),
        post_images (rq_db q11), post_records (rq_db q11), post_histories (rq_db q11), images (rq_db q11))"
      using update_statements(2) unfolding updates_post_def with_status_def[abs_def] by blast
    have "upd_where (\<lambda>p. p_id p = i) (with_status st') (upd_where (\<lambda>p. p_id p = i) (reshown \<circ> ?f) (posts ?s)) =
        upd_where (\<lambda>p. p_id p = i) (with_status st' \<circ> (reshown \<circ> ?f)) (posts ?s)"
      by (rule upd_where_same_key) (simp add: reshown_def revived_def)
    also have "with_status st' \<circ> (reshown \<circ> ?f) = reshown \<circ> new_content r st' revision (clk 1)"
      by (simp add: fun_eq_iff reshown_new_content)
    finally have ps: "upd_where (\<lambda>p. p_id p = i) (with_status st') (upd_where (\<lambda>p. p_id p = i) (reshown \<circ> ?f) (posts ?s)) =
        upd_where (\<lambda>p. p_id p = i) (reshown \<circ> new_content r st' revision (clk 1)) (posts ?s)" .
    have "shelf (rq_db q') = (upd_where (\<lambda>p. p_id p = i) (reshown \<circ> new_content r st' revision (clk 1)) (posts ?s),
       filter (\<lambda>l. pi_post_id l \<noteq> i) (post_images ?s) @ image_rows i (rp_image_ids r),
       post_records ?s @ new, post_histories ?s, mark_images S ModPass (images ?s))"
      using u by (simp only: shelf_eq[OF new(1)] shelf_eq[OF 10] e ps)
    then show ?thesis using 1(2,3) g h(2-4) rc rv new(2) res source None
      by (intro that[of post h v S r new]) (simp_all add: s1)
  next
    case (Some m)
    then have m: "current_post_record ?s i revision = Some m" using source by simp
    have "q' = q10" "st' = st" "aggregatePostModeration (mr_verdict m) (rp_image_assets r) = Inr st"
      using 11 st Some by (simp_all add: ret_def restored_status_def)
    moreover have "shelf (rq_db q10) = (upd_where (\<lambda>p. p_id p = i) (reshown \<circ> ?f) (posts ?s),
       filter (\<lambda>l. pi_post_id l \<noteq> i) (post_images ?s) @ image_rows i (rp_image_ids r),
       post_records ?s @ [], post_histories ?s, mark_images S ModPass (images ?s))"
      using 10 by (simp add: e)
    ultimately show ?thesis using 1(2,3) g h(2-4) rc rv res
      by (intro that[of post h v S r "[]"]) (simp_all add: s1 m)
  qed
qed

text \<open>An administrator revives the rows as they are and records a passing review.\<close>

lemma admin_RestorePost_Inr:
  assumes "admin_RestorePost clk i actor q = (Inr k, q')"
  obtains post S m where "post \<in> set (posts (rq_db q))" "p_id post = i" "p_deleted_at post \<noteq> None" "p_author_id post \<noteq> actor"
    "p_status post = PostApproved \<longrightarrow> (\<forall>a\<in>set (mark_images S ModPass (images (rq_db q))).
        img_id a \<in> shown_by (rq_db q) i \<and> img_id a \<noteq> 0 \<longrightarrow> img_moderation a = ModPass)"
    "shelf (rq_db q') = (upd_where (\<lambda>p. p_id p = i \<and> p_deleted_at p \<noteq> None) revived (posts (rq_db q)), post_images (rq_db q),
       post_records (rq_db q) @ [m], post_histories (rq_db q), mark_images S ModPass (images (rq_db q)))"
    "mr_id m = k" "mr_post_id m = Some i" "mr_verdict m = VerdictPass" "mr_reviewer_id m = Some actor"
    "\<exists>p\<in>set (posts (rq_db q)). p_id p = i \<and> mr_content_revision m = Some (p_current_revision p)"
proof -
  let ?s = "rq_db q"
  obtain post q1 ids q2 imgs q3 u q4 ok q5 n q6 k' q7 w q8 where
    1: "db_call (ToAPIError BizPostNotFound) (post_LockByID i True) q = (Inr post, q1)"
    and g: "\<not> \<not> isRestorablePostDeletion (p_deleted_at post) (p_deleted_reason post)" "\<not> p_author_id post = actor"
    and 2: "db_call internal_of (PostImageIDs i) q1 = (Inr ids, q2)"
    and 3: "db_call internal_of (LockImagesByIDs ids) q2 = (Inr imgs, q3)"
    and 4: "db_call internal_of (restoreAdminPostDeleteImages clk 3 i actor imgs (clk 1)) q3 = (Inr u, q4)"
    and 5: "(if p_status post = PostApproved then db_call internal_of (lockApprovedPostImages i) else ret True) q4 = (Inr ok, q5)"
    and ok: "\<not> \<not> ok"
    and 6: "db_call internal_of (post_CurrentContentRevision i) q5 = (Inr n, q6)"
    and 7: "db_call internal_of (CreateManualRecord (restorationRecord actor (Some i) None n (clk 2))) q6 = (Inr k', q7)"
    and 8: "db_call (ToAPIError BizPostNotFound) (post_Restore i) q7 = (Inr w, q8)"
    and 9: "(ret k' :: row_id mod_act) q8 = (Inr k, q')"
    using assms unfolding admin_RestorePost_def seq_def by (elim bind_InrE else_InrE)
  have k: "k' = k" "q8 = q'" using 9 by (auto simp: ret_def)
  note 1 = post_LockByID_Inr[OF 1] and 2 = image_reads(3)[OF 2] and 3 = locked_images[OF 3]
  note rd = reads_trans[OF reads_trans[OF 1(1) conjunct1[OF 2]] 3(1)]
  obtain S where S: "marks S ModPass (rq_db q3) (rq_db q4)"
    using 4 restoreAdminPostDeleteImages_Inr by (fastforce simp: db_call_Inr_iff)
  have 5: "reads q4 q5 \<and> (p_status post = PostApproved \<longrightarrow> (\<forall>a\<in>set (images (rq_db q4)). img_id a \<in> shown_by (rq_db q4) i \<and>
      img_id a \<noteq> 0 \<longrightarrow> img_moderation a = ModPass))"
  proof (cases "p_status post = PostApproved")
    case True
    then obtain ids2 d1 ls d2 where p: "PostImageIDs i (rq_db q4) = (Inr ids2, d1)" and l: "LockImagesByIDs ids2 d1 = (Inr ls, d2)"
      and all: "list_all (\<lambda>a. img_moderation a = ModPass) ls" and d2: "q5 = q4\<lparr>rq_db := d2\<rparr>"
      using 5 ok by (auto simp: db_call_Inr_iff lockApprovedPostImages_def bind_Inr_iff ret_def)
    have "db_call internal_of (PostImageIDs i) q4 = (Inr ids2, q4\<lparr>rq_db := d1\<rparr>)" using p by (simp add: db_call_Inr_iff)
    note p = image_reads(3)[OF this]
    have "db_call internal_of (LockImagesByIDs ids2) (q4\<lparr>rq_db := d1\<rparr>) = (Inr ls, q5)" using l d2 by (simp add: db_call_Inr_iff)
    note l = locked_images[OF this]
    have "images d1 = images (rq_db q4)" using p by (auto simp: reads_def same_tables_iff)
    then show ?thesis using p l all by (auto simp: shown_by_def list_all_iff intro: reads_trans)
  qed (use 5 in \<open>simp add: ret_def\<close>)
  note s3 = shelf_tables[OF reads_shelf[OF rd]] and s4 = marks_shelf[OF S]
    and s5 = shelf_tables[OF reads_shelf[OF conjunct1[OF 5]]]
  have 6: "reads q5 q6" "\<exists>p\<in>set (posts (rq_db q5)). p_id p = i \<and> p_current_revision p = n"
    using 6 by (auto simp: post_CurrentContentRevision_def dest!: query_first_call_Inr find_SomeD)
  have "CreateManualRecord (restorationRecord actor (Some i) None n (clk 2)) (rq_db q6) = (Inr k, rq_db q7)"
    using 7 k by (auto simp: db_call_Inr_iff)
  note 7 = CreateManualRecord_shelf(2)[OF this]
  have "found (update_post (\<lambda>p. p_deleted_at p \<noteq> None) i revived) (rq_db q7) = (Inr w, rq_db q')"
    using 8 k by (auto simp: db_call_Inr_iff post_Restore_def revived_def[abs_def])
  note 8 = update_post_Inr(1)[OF found_Inr[OF this]]
  note e = s3 s4 s5 shelf_tables[OF reads_shelf[OF 6(1)]] shelf_eq[OF 7]
  show ?thesis
  proof (rule that[of post S "(restorationRecord actor (Some i) None n (clk 2))\<lparr>mr_id := k\<rparr>"])
    show "shelf (rq_db q') = (upd_where (\<lambda>p. p_id p = i \<and> p_deleted_at p \<noteq> None) revived (posts ?s), post_images ?s,
       post_records ?s @ [(restorationRecord actor (Some i) None n (clk 2))\<lparr>mr_id := k\<rparr>], post_histories ?s,
       mark_images S ModPass (images ?s))"
      using 8 by (simp add: e restorationRecord_def)
    show "p_deleted_at post \<noteq> None" using g by (simp add: isRestorablePostDeletion_def)
    show "p_status post = PostApproved \<longrightarrow> (\<forall>a\<in>set (mark_images S ModPass (images ?s)).
        img_id a \<in> shown_by ?s i \<and> img_id a \<noteq> 0 \<longrightarrow> img_moderation a = ModPass)"
      using 5 by (simp add: e shown_by_def)
    show "\<exists>p\<in>set (posts ?s). p_id p = i \<and> mr_content_revision ((restorationRecord actor (Some i) None n (clk 2))\<lparr>mr_id := k\<rparr>) =
        Some (p_current_revision p)"
      using 6(2) by (auto simp: e restorationRecord_def)
  qed (use 1 g in \<open>simp_all add: restorationRecord_def\<close>)
qed

end
