(* ===== verification/Post_Review.thy ===== *)
theory Post_Review
  imports Post_Delete_Effects Manual_Review
begin

section \<open>Posts are reviewed before they are shown\<close>

text \<open>
  What is in the database after a post was written, edited, deleted or restored with success, and
  the invariant that this keeps: an approved post has passed the review of exactly its current
  text, and as long as it is not deleted all its images have passed theirs.
\<close>

subsection \<open>The invariant\<close>

text \<open>
  The foreign keys from a post and a record to a version, from a version to a post, the primary keys
  and the \<open>CHECK\<close> on the state of an image.
\<close>

definition has_version :: "db \<Rightarrow> row_id \<Rightarrow> int \<Rightarrow> bool" where
  "has_version s i n \<longleftrightarrow> (\<exists>h\<in>set (post_histories s). ph_post_id h = i \<and> ph_revision h = n)"

definition post_rows_ok :: "db \<Rightarrow> bool" where
  "post_rows_ok s \<longleftrightarrow> distinct (map p_id (posts s)) \<and> distinct (map img_id (images s)) \<and>
     (\<forall>a\<in>set (images s). img_id a \<noteq> 0 \<and> known_status (img_moderation a)) \<and>
     (\<forall>p\<in>set (posts s). has_version s (p_id p) (p_current_revision p)) \<and>
     (\<forall>h\<in>set (post_histories s). \<exists>p\<in>set (posts s). p_id p = ph_post_id h) \<and>
     (\<forall>r\<in>set (post_records s). \<forall>i n. mr_post_id r = Some i \<and> mr_content_revision r = Some n \<longrightarrow> has_version s i n)"

definition approval_reviewed :: "db \<Rightarrow> post \<Rightarrow> bool" where
  "approval_reviewed s p \<longleftrightarrow> latest_verdict s p = Some VerdictPass \<and>
     (p_deleted_at p = None \<longrightarrow> (\<forall>a\<in>set (images_of_post s (p_id p)). img_moderation a = ModPass))"

definition approvals_reviewed :: "db \<Rightarrow> bool" where
  "approvals_reviewed s \<longleftrightarrow> (\<forall>p\<in>set (posts s). p_status p = PostApproved \<longrightarrow> approval_reviewed s p)"

subsection \<open>Reading it off the shelf\<close>

lemma in_images_of_post: "a \<in> set (images_of_post s i) \<longleftrightarrow> a \<in> set (images s) \<and> img_id a \<in> shown_by s i"
  by (auto simp: images_of_post_def shown_by_def)

lemma current_post_record_shelf:
  "current_post_record s i n = first_by newest_first (\<lambda>r. mr_post_id r = Some i \<and> mr_content_revision r = Some n) (post_records s)"
proof -
  have "filter (\<lambda>r. mr_post_id r = Some i \<and> mr_content_revision r = Some n) (moderation_records s) =
      filter (\<lambda>r. mr_post_id r = Some i \<and> mr_content_revision r = Some n) (post_records s)"
    unfolding post_records_def filter_filter by (rule filter_cong) auto
  then show ?thesis by (simp only: current_post_record_def first_by_def)
qed

lemma verdict_kept:
  assumes "post_records s' = post_records s @ new" "\<forall>r\<in>set new. mr_post_id r \<noteq> Some i"
  shows "current_post_record s' i n = current_post_record s i n"
  using assms by (auto simp: current_post_record_shelf first_by_def filter_empty_conv cong: conj_cong)

text \<open>Among equal keys the first row wins, so an older row stays in front of a later one.\<close>

lemma first_by_stable:
  assumes "first_by key p t = Some x"
  shows "\<exists>rs. filter (\<lambda>y. key y = key x) (filter p t) = x # rs"
proof -
  obtain rs where s: "sort_key key (filter p t) = x # rs" using assms by (auto simp: first_by_def split: list.splits)
  have "filter (\<lambda>y. key y = key x) (filter p t) = filter (\<lambda>y. key y = key x) (sort_key key (filter p t))"
    by (rule sort_key_stable[symmetric])
  then show ?thesis by (simp add: s)
qed

lemma first_by_append:
  assumes r: "first_by key p t = Some r" and x: "first_by key p (t @ new) = Some x"
  shows "x = r \<or> x \<in> set new"
proof (rule disjCI)
  assume "x \<notin> set new"
  then have t: "x \<in> set t" "p x" using first_by_Some[OF x] by auto
  have "key x = key r"
    using first_by_Some(3)[OF r t] first_by_Some(1,2)[OF r] first_by_Some(3)[OF x] by (fastforce intro: antisym)
  with first_by_stable[OF r] first_by_stable[OF x] show "x = r" by auto
qed

lemma verdict_passes_on:
  assumes "post_records s' = post_records s @ new" "\<forall>m\<in>set new. mr_verdict m = v"
    "map_option mr_verdict (current_post_record s i n) = Some v"
  shows "map_option mr_verdict (current_post_record s' i n) = Some v"
proof -
  obtain r where r: "current_post_record s i n = Some r" "mr_verdict r = v" using assms(3) by auto
  note f = r(1)[unfolded current_post_record_shelf]
  show ?thesis
  proof (cases "current_post_record s' i n")
    case None
    with first_by_Some(1,2)[OF f] assms(1) show ?thesis by (auto simp: current_post_record_shelf first_by_None)
  next
    case (Some x)
    have "x = r \<or> x \<in> set new" by (rule first_by_append[OF f]) (use Some assms(1) in \<open>simp add: current_post_record_shelf\<close>)
    then show ?thesis using Some assms(2) r(2) by auto
  qed
qed

lemma verdict_first:
  assumes "post_records s' = post_records s @ [m]" "current_post_record s i n = None"
    "mr_post_id m = Some i" "mr_content_revision m = Some n"
  shows "current_post_record s' i n = Some m"
proof -
  have "filter (\<lambda>r. mr_post_id r = Some i \<and> mr_content_revision r = Some n) (post_records s') = [m]"
    using assms by (auto simp: current_post_record_shelf first_by_None filter_empty_conv)
  then show ?thesis by (simp add: current_post_record_shelf first_by_def)
qed

lemma no_version_no_record:
  "post_rows_ok s \<Longrightarrow> \<not> has_version s i n \<Longrightarrow> current_post_record s i n = None"
  by (auto simp: current_post_record_shelf first_by_None post_rows_ok_def)

lemma aggregate_approved:
  assumes "aggregatePostModeration v imgs = Inr PostApproved" "\<forall>a\<in>set imgs. known_status (img_moderation a)"
  shows "v = VerdictPass" "\<forall>a\<in>set imgs. img_moderation a = ModPass"
  using assms by (auto simp: aggregatePostModeration_def imagesContainModeration_def list_ex_iff known_status_def split: if_splits)

lemma text_reviewed_approved:
  assumes "text_reviewed srv i n txt publish assets PostApproved new" "\<forall>a\<in>set assets. known_status (img_moderation a)"
  obtains m where "new = [m]" "mr_post_id m = Some i" "mr_content_revision m = Some n" "mr_verdict m = VerdictPass"
    "\<forall>a\<in>set assets. img_moderation a = ModPass"
  using assms aggregate_approved by (fastforce simp: text_reviewed_def split: if_splits)

lemma text_reviewed_records:
  "text_reviewed srv i n txt publish assets st new \<Longrightarrow> r \<in> set new \<Longrightarrow> mr_post_id r = Some i \<and> mr_content_revision r = Some n"
  by (auto simp: text_reviewed_def split: if_splits)

subsection \<open>What a write leaves of the other posts\<close>

text \<open>The images of a post are unchanged or have only gained by the change.\<close>

definition images_stay :: "db \<Rightarrow> db \<Rightarrow> row_id \<Rightarrow> bool" where
  "images_stay s s' i \<longleftrightarrow> shown_by s' i = shown_by s i \<and>
     (\<forall>a\<in>set (images s'). img_id a \<in> shown_by s i \<longrightarrow>
        (\<exists>b\<in>set (images s). img_id b = img_id a \<and> (img_moderation b = ModPass \<longrightarrow> img_moderation a = ModPass)))"

lemma approval_stays:
  assumes "approval_reviewed s p" "latest_verdict s' p' = latest_verdict s p"
    "p_deleted_at p' = None \<Longrightarrow> p_deleted_at p = None \<and> p_id p' = p_id p \<and> images_stay s s' (p_id p)"
  shows "approval_reviewed s' p'"
proof -
  have "img_moderation a = ModPass" if "p_deleted_at p' = None" "a \<in> set (images_of_post s' (p_id p'))" for a
  proof -
    have "p_deleted_at p = None" "a \<in> set (images s')" "img_id a \<in> shown_by s (p_id p)" "images_stay s s' (p_id p)"
      using assms(3)[OF that(1)] that(2) by (auto simp: in_images_of_post images_stay_def)
    moreover from this obtain b where "b \<in> set (images s)" "img_id b = img_id a" "img_moderation b = ModPass \<longrightarrow> img_moderation a = ModPass"
      unfolding images_stay_def by blast
    ultimately show ?thesis using assms(1) by (auto simp: approval_reviewed_def in_images_of_post)
  qed
  then show ?thesis using assms(1,2) by (auto simp: approval_reviewed_def)
qed

lemma shown_by_replaced:
  assumes "post_images s' = filter (\<lambda>l. pi_post_id l \<noteq> i) (post_images s) @ image_rows i ids"
  shows "shown_by s' j = (if j = i then set ids else shown_by s j)"
proof -
  have "map pi_image_id (image_rows i ids) = ids" by (simp add: image_rows_def comp_def case_prod_beta')
  then have ids: "set ids = pi_image_id ` set (image_rows i ids)" by (metis set_map)
  have "\<forall>l\<in>set (image_rows i ids). pi_post_id l = i" by (auto simp: image_rows_def)
  then show ?thesis unfolding ids shown_by_def assms by auto
qed

lemma mark_pass_stays:
  assumes "images s' = mark_images S ModPass (images s)" "shown_by s' i = shown_by s i"
  shows "images_stay s s' i"
  using assms by (auto simp: images_stay_def dest: in_mark_images)

text \<open>The whole state after a write to the post with number \<open>i\<close>.\<close>

lemma rows_kept:
  assumes ok: "post_rows_ok s" and d: "distinct (map p_id (posts s'))" and ids: "p_id ` set (posts s) \<subseteq> p_id ` set (posts s')"
    and imgs: "images s' = mark_images S st (images s)" "known_status st"
    and hs: "post_histories s' = post_histories s @ hs" "\<forall>h\<in>set hs. ph_post_id h \<in> p_id ` set (posts s')"
    and rs: "post_records s' = post_records s @ new"
      "\<forall>r\<in>set new. \<forall>i n. mr_post_id r = Some i \<and> mr_content_revision r = Some n \<longrightarrow> has_version s' i n"
    and cur: "\<forall>p\<in>set (posts s'). has_version s' (p_id p) (p_current_revision p)"
  shows "post_rows_ok s'"
proof -
  have v: "has_version s i n \<Longrightarrow> has_version s' i n" for i n using hs(1) by (auto simp: has_version_def)
  have "\<forall>a\<in>set (images s'). img_id a \<noteq> 0 \<and> known_status (img_moderation a)"
    using ok imgs by (force simp: post_rows_ok_def dest!: in_mark_images)
  moreover have "\<forall>h\<in>set (post_histories s'). \<exists>p\<in>set (posts s'). p_id p = ph_post_id h"
    using ok hs ids by (fastforce simp: post_rows_ok_def image_iff)
  moreover have "\<forall>r\<in>set (post_records s'). \<forall>i n. mr_post_id r = Some i \<and> mr_content_revision r = Some n \<longrightarrow> has_version s' i n"
    using ok rs v by (auto simp: post_rows_ok_def)
  moreover have "distinct (map img_id (images s'))" using ok imgs(1) by (simp add: post_rows_ok_def mark_images_ids)
  ultimately show ?thesis using d cur by (simp add: post_rows_ok_def)
qed

lemma approvals_written:
  assumes ok: "approvals_reviewed s" and d: "distinct (map img_id (images s'))"
    and ps: "\<forall>p\<in>set (posts s'). if p_id p = i then p_current_revision p = n \<and> p_status p = st else p \<in> set (posts s)"
    and ls: "post_images s' = filter (\<lambda>l. pi_post_id l \<noteq> i) (post_images s) @ image_rows i (map img_id assets)"
    and rs: "post_records s' = post_records s @ new" "\<forall>r\<in>set new. mr_post_id r = Some i"
    and imgs: "images s' = mark_images S ModPass (images s)" "set assets \<subseteq> set (images s')"
    and st: "st = PostApproved \<Longrightarrow> map_option mr_verdict (current_post_record s' i n) = Some VerdictPass \<and>
       (\<forall>a\<in>set assets. img_moderation a = ModPass)"
  shows "approvals_reviewed s'"
  unfolding approvals_reviewed_def
proof (intro ballI impI)
  fix p assume p: "p \<in> set (posts s')" "p_status p = PostApproved"
  show "approval_reviewed s' p"
  proof (cases "p_id p = i")
    case True
    with p ps have n: "p_current_revision p = n" "st = PostApproved" by auto
    have "img_moderation a = ModPass" if "a \<in> set (images_of_post s' i)" for a
    proof -
      have a: "a \<in> set (images s')" "img_id a \<in> img_id ` set assets"
        using that shown_by_replaced[OF ls, of i] by (auto simp: in_images_of_post)
      then obtain b where b: "b \<in> set assets" "img_id b = img_id a" by auto
      with imgs(2) a(1) d have "b = a" by (auto simp: distinct_map dest: inj_onD)
      with b(1) st[OF n(2)] show ?thesis by simp
    qed
    then show ?thesis using st[OF n(2)] n(1) True by (simp add: approval_reviewed_def latest_verdict_def)
  next
    case False
    then have s: "p \<in> set (posts s)" using p ps by auto
    have "current_post_record s' (p_id p) m = current_post_record s (p_id p) m" for m
      by (rule verdict_kept[OF rs(1)]) (use rs(2) False in auto)
    then have "latest_verdict s' p = latest_verdict s p" by (simp add: latest_verdict_def)
    moreover have "images_stay s s' (p_id p)"
      using mark_pass_stays[OF imgs(1)] shown_by_replaced[OF ls, of "p_id p"] False by simp
    moreover have "approval_reviewed s p" using ok s p(2) by (simp add: approvals_reviewed_def)
    ultimately show ?thesis by (metis approval_stays)
  qed
qed

lemma resolved_known:
  assumes "resolves s author v r" "post_rows_ok s"
  shows "\<forall>a\<in>set (rp_image_assets r). known_status (img_moderation a)" "set (rp_image_assets r) \<subseteq> set (images s)"
    "rp_image_ids r = map img_id (rp_image_assets r)"
  using assms resolves_fields(12)[OF assms(1)] by (auto simp: resolves_def post_rows_ok_def)

lemma reviewed_now:
  assumes tr: "text_reviewed srv i n txt publish assets PostApproved new"
    and known: "\<forall>a\<in>set assets. known_status (img_moderation a)"
    and none: "current_post_record s i n = None" and rs: "post_records s' = post_records s @ new"
  shows "map_option mr_verdict (current_post_record s' i n) = Some VerdictPass \<and> (\<forall>a\<in>set assets. img_moderation a = ModPass)"
proof -
  obtain m where m: "new = [m]" "mr_post_id m = Some i" "mr_content_revision m = Some n" "mr_verdict m = VerdictPass"
    "\<forall>a\<in>set assets. img_moderation a = ModPass"
    by (rule text_reviewed_approved[OF tr known])
  have "current_post_record s' i n = Some m" by (rule verdict_first[OF rs[unfolded m(1)] none m(2,3)])
  then show ?thesis using m(4,5) by simp
qed

definition posts_reviewed :: "db \<Rightarrow> bool" where
  "posts_reviewed s \<longleftrightarrow> post_rows_ok s \<and> approvals_reviewed s"

subsection \<open>The operations keep it\<close>

lemma Create_reviewed:
  assumes run: "post_service_Create srv clk input author q = (Inr res, q')" and ok: "posts_reviewed (rq_db q)"
  shows "posts_reviewed (rq_db q')"
proof -
  let ?s = "rq_db q" and ?t = "rq_db q'"
  obtain v r p h new where "normalizeCreatePost (psv_lib srv) input = Inr v" and rv: "resolves ?s author v r"
    and p: "p = (newPostModel r author (pcr_status res))\<lparr>p_id := next_id p_id (posts ?s), p_created_at := clk 1, p_updated_at := clk 1\<rparr>"
    and sh: "shelf ?t = (posts ?s @ [p],
       filter (\<lambda>l. pi_post_id l \<noteq> p_id p) (post_images ?s) @ image_rows (p_id p) (rp_image_ids r),
       post_records ?s @ new, post_histories ?s @ [h], images ?s)"
    and tr: "text_reviewed srv (p_id p) 1 (reviewed_text r) (np_publish v) (rp_image_assets r) (pcr_status res) new"
    and h: "version_of (psv_lib srv) ?t p author None h" and "pcr_id res = p_id p" "post_check p"
    by (rule post_service_Create_Inr[OF run])
  note e = shelf_eq[OF sh]
  have rows: "post_rows_ok ?s" and ap: "approvals_reviewed ?s" using ok by (simp_all add: posts_reviewed_def)
  have f: "p_id p = next_id p_id (posts ?s)" "p_current_revision p = 1" "p_status p = pcr_status res" by (simp_all add: p newPostModel_def)
  have fresh: "\<forall>x\<in>set (posts ?s). p_id x \<noteq> p_id p" using next_id_fresh[of _ "posts ?s" p_id] unfolding f(1) by fastforce
  have hv: "ph_post_id h = p_id p" "ph_revision h = 1" using h f(2) by (simp_all add: version_of_def)
  have new_v: "has_version ?t (p_id p) 1" using hv by (simp add: has_version_def e)
  have "\<not> has_version ?s (p_id p) 1" using rows fresh by (fastforce simp: has_version_def post_rows_ok_def)
  note none = no_version_no_record[OF rows this]
  note rk = resolved_known[OF rv rows]
  have "post_rows_ok ?t"
  proof (rule rows_kept[OF rows])
    show "distinct (map p_id (posts ?t))" using rows fresh by (auto simp: e post_rows_ok_def)
    show "p_id ` set (posts ?s) \<subseteq> p_id ` set (posts ?t)" by (auto simp: e)
    show "images ?t = mark_images {} ModPass (images ?s)" "known_status ModPass" by (simp_all add: e known_status_def)
    show "post_histories ?t = post_histories ?s @ [h]" "post_records ?t = post_records ?s @ new" by (simp_all add: e)
    show "\<forall>x\<in>set [h]. ph_post_id x \<in> p_id ` set (posts ?t)" using hv by (simp add: e)
    show "\<forall>r\<in>set new. \<forall>i n. mr_post_id r = Some i \<and> mr_content_revision r = Some n \<longrightarrow> has_version ?t i n"
      using text_reviewed_records[OF tr] new_v by auto
    show "\<forall>x\<in>set (posts ?t). has_version ?t (p_id x) (p_current_revision x)"
      using rows new_v f(2) by (auto simp: e post_rows_ok_def has_version_def)
  qed
  moreover have "approvals_reviewed ?t"
  proof (rule approvals_written[OF ap, where i = "p_id p" and n = 1 and st = "pcr_status res" and S = "{}" and assets = "rp_image_assets r"])
    show "distinct (map img_id (images ?t))" using rows by (simp add: e post_rows_ok_def)
    show "\<forall>x\<in>set (posts ?t). if p_id x = p_id p then p_current_revision x = 1 \<and> p_status x = pcr_status res else x \<in> set (posts ?s)"
      using fresh f by (auto simp: e)
    show "post_images ?t = filter (\<lambda>l. pi_post_id l \<noteq> p_id p) (post_images ?s) @ image_rows (p_id p) (map img_id (rp_image_assets r))"
      "post_records ?t = post_records ?s @ new" "images ?t = mark_images {} ModPass (images ?s)"
      "set (rp_image_assets r) \<subseteq> set (images ?t)" using rk by (simp_all add: e)
    show "\<forall>r\<in>set new. mr_post_id r = Some (p_id p)" using text_reviewed_records[OF tr] by auto
    show "map_option mr_verdict (current_post_record ?t (p_id p) 1) = Some VerdictPass \<and>
       (\<forall>a\<in>set (rp_image_assets r). img_moderation a = ModPass)" if "pcr_status res = PostApproved"
      using reviewed_now[OF tr[unfolded that] rk(1) none] e(3) by simp
  qed
  ultimately show ?thesis by (simp add: posts_reviewed_def)
qed

text \<open>An edit and an author's restoration both replace the content of a row.\<close>

lemma content_written:
  assumes ok: "posts_reviewed s" and ex: "p0 \<in> set (posts s)" "p_id p0 = i"
    and sh: "shelf t = (upd_where (\<lambda>p. p_id p = i) f (posts s),
       filter (\<lambda>l. pi_post_id l \<noteq> i) (post_images s) @ image_rows i (map img_id assets),
       post_records s @ new, post_histories s @ hs, mark_images S ModPass (images s))"
    and f: "\<And>p. p_id (f p) = p_id p" "\<And>p. p_current_revision (f p) = n" "\<And>p. p_status (f p) = st"
    and hs: "\<forall>h\<in>set hs. ph_post_id h = i" and v: "has_version t i n"
    and new: "\<forall>m\<in>set new. mr_post_id m = Some i \<and> mr_content_revision m = Some n"
    and assets: "set assets \<subseteq> set (images t)"
    and st: "st = PostApproved \<Longrightarrow> map_option mr_verdict (current_post_record t i n) = Some VerdictPass \<and>
       (\<forall>a\<in>set assets. img_moderation a = ModPass)"
  shows "posts_reviewed t"
proof -
  note e = shelf_eq[OF sh]
  have rows: "post_rows_ok s" and ap: "approvals_reviewed s" using ok by (simp_all add: posts_reviewed_def)
  have ids: "map p_id (posts t) = map p_id (posts s)" using f(1) by (simp add: e upd_where_ids)
  then have sets: "p_id ` set (posts t) = p_id ` set (posts s)" by (metis set_map)
  have vs: "has_version s j m \<Longrightarrow> has_version t j m" for j m by (auto simp: has_version_def e)
  have "post_rows_ok t"
  proof (rule rows_kept[OF rows])
    show "distinct (map p_id (posts t))" using rows ids by (simp add: post_rows_ok_def)
    show "p_id ` set (posts s) \<subseteq> p_id ` set (posts t)" using sets by simp
    show "images t = mark_images S ModPass (images s)" "known_status ModPass" "post_histories t = post_histories s @ hs"
      "post_records t = post_records s @ new" by (simp_all add: e known_status_def)
    show "\<forall>h\<in>set hs. ph_post_id h \<in> p_id ` set (posts t)" using hs ex sets by auto
    show "\<forall>r\<in>set new. \<forall>j m. mr_post_id r = Some j \<and> mr_content_revision r = Some m \<longrightarrow> has_version t j m" using new v by auto
    show "\<forall>p\<in>set (posts t). has_version t (p_id p) (p_current_revision p)"
      using rows v vs f by (auto simp: e post_rows_ok_def elim!: in_upd_whereE)
  qed
  moreover have "approvals_reviewed t"
  proof (rule approvals_written[OF ap, where i = i and n = n and st = st and S = S and assets = assets])
    show "distinct (map img_id (images t))" using rows by (simp add: e post_rows_ok_def mark_images_ids)
    show "\<forall>p\<in>set (posts t). if p_id p = i then p_current_revision p = n \<and> p_status p = st else p \<in> set (posts s)"
      using f by (auto simp: e elim!: in_upd_whereE)
    show "\<forall>r\<in>set new. mr_post_id r = Some i" using new by blast
  qed (use assets st in \<open>simp_all add: e\<close>)
  ultimately show ?thesis by (simp add: posts_reviewed_def)
qed

lemma new_content_columns [simp]:
  "p_current_revision (new_content r st n now p) = n" "p_status (new_content r st n now p) = st"
  "p_id (reshown p) = p_id p" "p_current_revision (reshown p) = p_current_revision p" "p_status (reshown p) = p_status p"
  by (simp_all add: new_content_def at_revision_def contentFields_def reshown_def revived_def)

lemma next_version_fresh: "n = fold max (post_revisions i s) 0 + 1 \<Longrightarrow> \<not> has_version s i n"
proof
  assume n: "n = fold max (post_revisions i s) 0 + 1" and "has_version s i n"
  from this(2) have "n \<in> set (post_revisions i s)" by (auto simp: has_version_def post_revisions_def)
  then have "n \<le> fold max (post_revisions i s) 0" by (rule fold_max_int(1))
  with n show False by simp
qed

lemma Update_reviewed:
  assumes run: "post_service_Update srv clk i input author q = (Inr res, q')" and ok: "posts_reviewed (rq_db q)"
  shows "posts_reviewed (rq_db q')"
proof -
  let ?s = "rq_db q" and ?t = "rq_db q'"
  obtain old v r n h new where old: "old \<in> set (posts ?s)" "p_id old = i" "p_author_id old = author" "p_deleted_at old = None"
    and "normalizeUpdatePost (psv_lib srv) input old = Inr v" and rv: "resolves ?s author v r"
    and n: "n = fold max (post_revisions i ?s) 0 + 1"
    and sh: "shelf ?t = (upd_where (\<lambda>p. p_id p = i) (new_content r (pcr_status res) n (clk 1)) (posts ?s),
       filter (\<lambda>l. pi_post_id l \<noteq> i) (post_images ?s) @ image_rows i (rp_image_ids r),
       post_records ?s @ new, post_histories ?s @ [h], images ?s)"
    and tr: "text_reviewed srv i n (reviewed_text r) (np_publish v) (rp_image_assets r) (pcr_status res) new"
    and h: "version_of (psv_lib srv) ?t (new_content r (pcr_status res) n (clk 1) old) author (np_edit_reason v) h"
    and "pcr_id res = i"
    by (rule post_service_Update_Inr[OF run])
  have rows: "post_rows_ok ?s" using ok by (simp add: posts_reviewed_def)
  note rk = resolved_known[OF rv rows] and none = no_version_no_record[OF rows next_version_fresh[OF n]]
  have hv: "ph_post_id h = i" "ph_revision h = n" using h old by (simp_all add: version_of_def)
  show ?thesis
  proof (rule content_written[OF ok old(1,2), where S = "{}" and hs = "[h]" and assets = "rp_image_assets r" and n = n
        and st = "pcr_status res" and new = new])
    show "shelf ?t = (upd_where (\<lambda>p. p_id p = i) (new_content r (pcr_status res) n (clk 1)) (posts ?s),
       filter (\<lambda>l. pi_post_id l \<noteq> i) (post_images ?s) @ image_rows i (map img_id (rp_image_assets r)),
       post_records ?s @ new, post_histories ?s @ [h], mark_images {} ModPass (images ?s))" using sh rk(3) by simp
    show "has_version ?t i n" using hv by (auto simp: has_version_def shelf_eq[OF sh])
    show "\<forall>m\<in>set new. mr_post_id m = Some i \<and> mr_content_revision m = Some n" using text_reviewed_records[OF tr] by auto
    show "map_option mr_verdict (current_post_record ?t i n) = Some VerdictPass \<and>
       (\<forall>a\<in>set (rp_image_assets r). img_moderation a = ModPass)" if "pcr_status res = PostApproved"
      using reviewed_now[OF tr[unfolded that] rk(1) none] shelf_eq(3)[OF sh] by simp
  qed (use hv rk(2) in \<open>simp_all add: shelf_eq[OF sh]\<close>)
qed

lemma post_rows_ok_marked:
  assumes "post_rows_ok s"
  shows "post_rows_ok (s\<lparr>images := mark_images S ModPass (images s)\<rparr>)"
  using assms by (intro rows_kept[OF assms, where S = S and st = ModPass and hs = "[]" and new = "[]"])
    (auto simp: post_rows_ok_def post_records_def known_status_def has_version_def)

lemma RestoreHistory_reviewed:
  assumes run: "post_service_RestoreHistory srv clk i revision why author q = (Inr res, q')" and ok: "posts_reviewed (rq_db q)"
  shows "posts_reviewed (rq_db q')"
proof -
  let ?s = "rq_db q" and ?t = "rq_db q'"
  have rows: "post_rows_ok ?s" using ok by (simp add: posts_reviewed_def)
  then have d: "distinct (map p_id (posts ?s))" by (simp add: post_rows_ok_def)
  obtain post h v r S new where post: "post \<in> set (posts ?s)" "p_id post = i" "p_author_id post = author"
    and h: "h \<in> set (post_histories ?s)" "ph_post_id h = i" "ph_revision h = revision"
    and "restores_content (psv_lib srv) (psv_decimal srv) ?s (ph_snapshot h) v"
    and rv: "resolves (?s\<lparr>images := mark_images S ModPass (images ?s)\<rparr>) author v r"
    and sh: "shelf ?t = (upd_where (\<lambda>p. p_id p = i) (reshown \<circ> new_content r (pcr_status res) revision (clk 1)) (posts ?s),
       filter (\<lambda>l. pi_post_id l \<noteq> i) (post_images ?s) @ image_rows i (rp_image_ids r),
       post_records ?s @ new, post_histories ?s, mark_images S ModPass (images ?s))"
    and rec: "case current_post_record ?s i revision of
       None \<Rightarrow> text_reviewed srv i revision (reviewed_text r) (np_publish v) (rp_image_assets r) (pcr_status res) new
     | Some s \<Rightarrow> new = [] \<and> aggregatePostModeration (mr_verdict s) (rp_image_assets r) = Inr (pcr_status res)"
    and "pcr_id res = i"
    by (rule post_service_RestoreHistory_Inr[OF run d])
  note rk = resolved_known[OF rv post_rows_ok_marked[OF rows]]
  show ?thesis
  proof (rule content_written[OF ok post(1,2), where S = S and hs = "[]" and assets = "rp_image_assets r" and n = revision
        and st = "pcr_status res" and new = new])
    show "shelf ?t = (upd_where (\<lambda>p. p_id p = i) (reshown \<circ> new_content r (pcr_status res) revision (clk 1)) (posts ?s),
       filter (\<lambda>l. pi_post_id l \<noteq> i) (post_images ?s) @ image_rows i (map img_id (rp_image_assets r)),
       post_records ?s @ new, post_histories ?s @ [], mark_images S ModPass (images ?s))" using sh rk(3) by simp
    show "has_version ?t i revision" using h by (auto simp: has_version_def shelf_eq[OF sh])
    show "\<forall>m\<in>set new. mr_post_id m = Some i \<and> mr_content_revision m = Some revision"
      using rec by (auto split: option.splits dest: text_reviewed_records)
    show "map_option mr_verdict (current_post_record ?t i revision) = Some VerdictPass \<and>
       (\<forall>a\<in>set (rp_image_assets r). img_moderation a = ModPass)" if st: "pcr_status res = PostApproved"
    proof (cases "current_post_record ?s i revision")
      case None
      with rec st have "text_reviewed srv i revision (reviewed_text r) (np_publish v) (rp_image_assets r) PostApproved new" by simp
      from reviewed_now[OF this rk(1) None] shelf_eq(3)[OF sh] show ?thesis by simp
    next
      case (Some m)
      with rec st have m: "new = []" "aggregatePostModeration (mr_verdict m) (rp_image_assets r) = Inr PostApproved" by simp_all
      then have "current_post_record ?t i revision = Some m" using Some by (simp add: current_post_record_shelf shelf_eq[OF sh])
      with aggregate_approved[OF m(2) rk(1)] show ?thesis by simp
    qed
  qed (use rk(2) in \<open>simp_all add: shelf_eq[OF sh]\<close>)
qed

lemma undeleted_shown:
  "x \<in> set (posts t) \<Longrightarrow> p_deleted_at x = None \<Longrightarrow> j \<in> shown_by t (p_id x) \<Longrightarrow> undeleted_reference t j"
  unfolding undeleted_reference_def list_ex_iff shown_by_def by (elim imageE CollectE conjE) metis

text \<open>A deletion blocks only images that no undeleted post shows.\<close>

lemma delete_reviewed:
  assumes run: "deletePostWithHistoryAndImages clk p actor reason now q = (Inr u, q')" and ok: "posts_reviewed (rq_db q)"
  shows "posts_reviewed (rq_db q')"
proof -
  let ?s = "rq_db q" and ?t = "rq_db q'"
  obtain S where sh: "shelf ?t = (upd_where (\<lambda>x. p_id x = p_id p \<and> p_deleted_at x = None) (removed now reason actor) (posts ?s),
       post_images ?s, post_records ?s, post_histories ?s, mark_images S ModBlock (images ?s))"
    and S: "\<forall>i\<in>S. \<not> undeleted_reference ?t i" and "S \<subseteq> shown_by ?s (p_id p)"
    and "distinct (map img_id (images ?s)) \<longrightarrow> (\<forall>a\<in>set (images ?s). img_id a \<noteq> 0 \<and> img_id a \<in> shown_by ?s (p_id p) \<and>
       \<not> undeleted_reference ?t (img_id a) \<longrightarrow> img_id a \<in> S \<or> img_moderation a = ModBlock)"
    by (rule deletePost_Inr[OF run])
  note e = shelf_eq[OF sh]
  have rows: "post_rows_ok ?s" and ap: "approvals_reviewed ?s" using ok by (simp_all add: posts_reviewed_def)
  have f: "p_id (removed now reason actor x) = p_id x" "p_current_revision (removed now reason actor x) = p_current_revision x"
    "p_status (removed now reason actor x) = p_status x" "p_deleted_at (removed now reason actor x) \<noteq> None" for x
    by (simp_all add: removed_def)
  have ids: "map p_id (posts ?t) = map p_id (posts ?s)" using f by (simp add: e upd_where_ids)
  then have sets: "p_id ` set (posts ?t) = p_id ` set (posts ?s)" by (metis set_map)
  have v: "has_version ?t = has_version ?s" by (simp add: has_version_def fun_eq_iff e)
  have "post_rows_ok ?t"
  proof (rule rows_kept[OF rows, where hs = "[]" and new = "[]" and S = S and st = ModBlock])
    show "distinct (map p_id (posts ?t))" using rows ids by (simp add: post_rows_ok_def)
    show "p_id ` set (posts ?s) \<subseteq> p_id ` set (posts ?t)" using sets by simp
    show "\<forall>x\<in>set (posts ?t). has_version ?t (p_id x) (p_current_revision x)"
      using rows f by (auto simp: e v post_rows_ok_def elim!: in_upd_whereE)
  qed (simp_all add: e known_status_def)
  moreover have "approvals_reviewed ?t"
    unfolding approvals_reviewed_def
  proof (intro ballI impI)
    fix x assume x: "x \<in> set (posts ?t)" "p_status x = PostApproved"
    obtain y where y: "y \<in> set (posts ?s)" "p_id y = p_id x" "p_current_revision y = p_current_revision x" "p_status y = p_status x"
      "p_deleted_at x = None \<longrightarrow> p_deleted_at y = None"
      using x(1) f by (auto simp: e elim!: in_upd_whereE)
    have "current_post_record ?t j n = current_post_record ?s j n" for j n by (simp add: current_post_record_shelf e)
    then have "latest_verdict ?t x = latest_verdict ?s y" by (simp add: latest_verdict_def y)
    moreover have sb: "shown_by ?t = shown_by ?s" by (simp add: shown_by_def fun_eq_iff e)
    moreover have "images_stay ?s ?t (p_id y)" if "p_deleted_at x = None"
    proof -
      have "j \<notin> S" if "j \<in> shown_by ?s (p_id y)" for j
      proof -
        have "undeleted_reference ?t j"
          by (rule undeleted_shown[OF x(1) \<open>p_deleted_at x = None\<close>]) (use that sb y(2) in simp)
        then show ?thesis using S by blast
      qed
      then show ?thesis using sb by (auto simp: images_stay_def e dest!: in_mark_images)
    qed
    moreover have "approval_reviewed ?s y" using ap y x(2) by (simp add: approvals_reviewed_def)
    ultimately show "approval_reviewed ?t x" using y(2,5) by (metis approval_stays)
  qed
  ultimately show ?thesis by (simp add: posts_reviewed_def)
qed

lemma posts_reviewed_shelf:
  assumes "shelf t = shelf s"
  shows "posts_reviewed t = posts_reviewed s"
proof -
  note e = shelf_tables[OF assms]
  have "images_of_post t i = images_of_post s i" for i unfolding images_of_post_def e ..
  moreover have "current_post_record t = current_post_record s" by (simp add: current_post_record_shelf fun_eq_iff e)
  moreover have "has_version t = has_version s" by (simp add: has_version_def fun_eq_iff e)
  ultimately show ?thesis
    by (simp add: posts_reviewed_def post_rows_ok_def approvals_reviewed_def approval_reviewed_def latest_verdict_def e)
qed

lemma deletions_reviewed:
  "post_service_Delete clk i author q = (Inr u, q') \<Longrightarrow> posts_reviewed (rq_db q) \<Longrightarrow> posts_reviewed (rq_db q')"
  "admin_DeletePost clk i author q = (Inr u, q') \<Longrightarrow> posts_reviewed (rq_db q) \<Longrightarrow> posts_reviewed (rq_db q')"
  by (erule post_service_Delete_Inr, metis delete_reviewed posts_reviewed_shelf reads_shelf)
    (erule admin_DeletePost_Inr, metis delete_reviewed posts_reviewed_shelf reads_shelf)

lemma admin_RestorePost_reviewed:
  assumes run: "admin_RestorePost clk i actor q = (Inr k, q')" and ok: "posts_reviewed (rq_db q)"
  shows "posts_reviewed (rq_db q')"
proof -
  let ?s = "rq_db q" and ?t = "rq_db q'"
  obtain post S m where post: "post \<in> set (posts ?s)" "p_id post = i" "p_deleted_at post \<noteq> None" "p_author_id post \<noteq> actor"
    and pass: "p_status post = PostApproved \<longrightarrow> (\<forall>a\<in>set (mark_images S ModPass (images ?s)).
        img_id a \<in> shown_by ?s i \<and> img_id a \<noteq> 0 \<longrightarrow> img_moderation a = ModPass)"
    and sh: "shelf ?t = (upd_where (\<lambda>p. p_id p = i \<and> p_deleted_at p \<noteq> None) revived (posts ?s), post_images ?s,
       post_records ?s @ [m], post_histories ?s, mark_images S ModPass (images ?s))"
    and m: "mr_id m = k" "mr_post_id m = Some i" "mr_verdict m = VerdictPass" "mr_reviewer_id m = Some actor"
      "\<exists>p\<in>set (posts ?s). p_id p = i \<and> mr_content_revision m = Some (p_current_revision p)"
    by (rule admin_RestorePost_Inr[OF run])
  note e = shelf_eq[OF sh]
  have rows: "post_rows_ok ?s" and ap: "approvals_reviewed ?s" using ok by (simp_all add: posts_reviewed_def)
  have f: "p_id (revived x) = p_id x" "p_current_revision (revived x) = p_current_revision x" "p_status (revived x) = p_status x" for x
    by (simp_all add: revived_def)
  have ids: "map p_id (posts ?t) = map p_id (posts ?s)" using f by (simp add: e upd_where_ids)
  then have sets: "p_id ` set (posts ?t) = p_id ` set (posts ?s)" by (metis set_map)
  have v: "has_version ?t = has_version ?s" by (simp add: has_version_def fun_eq_iff e)
  have t: "post_rows_ok ?t"
  proof (rule rows_kept[OF rows, where hs = "[]" and new = "[m]" and S = S and st = ModPass])
    show "distinct (map p_id (posts ?t))" using rows ids by (simp add: post_rows_ok_def)
    show "p_id ` set (posts ?s) \<subseteq> p_id ` set (posts ?t)" using sets by simp
    show "\<forall>x\<in>set (posts ?t). has_version ?t (p_id x) (p_current_revision x)"
      using rows f by (auto simp: e v post_rows_ok_def elim!: in_upd_whereE)
    show "\<forall>r\<in>set [m]. \<forall>j n. mr_post_id r = Some j \<and> mr_content_revision r = Some n \<longrightarrow> has_version ?t j n"
      using rows m(2,5) by (auto simp: v post_rows_ok_def)
  qed (simp_all add: e known_status_def)
  have only: "x = post" if "x \<in> set (posts ?s)" "p_id x = i" for x
    using that rows post(1,2) by (auto simp: post_rows_ok_def distinct_map dest: inj_onD)
  have "approvals_reviewed ?t"
    unfolding approvals_reviewed_def
  proof (intro ballI impI)
    fix x assume x: "x \<in> set (posts ?t)" "p_status x = PostApproved"
    obtain y where y: "y \<in> set (posts ?s)" "p_id y = p_id x" "p_current_revision y = p_current_revision x" "p_status y = p_status x"
      "p_id x \<noteq> i \<longrightarrow> y = x"
      using x(1) f by (auto simp: e elim!: in_upd_whereE)
    have ya: "approval_reviewed ?s y" using ap y x(2) by (simp add: approvals_reviewed_def)
    have lv: "latest_verdict ?t x = Some VerdictPass"
      using verdict_passes_on[OF e(3), of VerdictPass] m(3) ya y(2,3) by (simp add: latest_verdict_def approval_reviewed_def)
    have sb: "shown_by ?t = shown_by ?s" by (simp add: shown_by_def fun_eq_iff e)
    show "approval_reviewed ?t x"
    proof (cases "p_id x = i")
      case True
      then have "p_status post = PostApproved" using only[of y] y x(2) by simp
      moreover have "\<forall>a\<in>set (images ?t). img_id a \<noteq> 0" using t by (simp add: post_rows_ok_def)
      ultimately have "\<forall>a\<in>set (images_of_post ?t i). img_moderation a = ModPass"
        using pass sb by (simp add: in_images_of_post e)
      then show ?thesis using lv True by (simp add: approval_reviewed_def)
    next
      case False
      then have yx: "y = x" using y(5) by blast
      have "images_stay ?s ?t (p_id x)" using sb by (intro mark_pass_stays[OF e(5)]) simp
      moreover have "approval_reviewed ?s x" "latest_verdict ?t x = latest_verdict ?s x"
        using ya lv by (simp_all add: yx approval_reviewed_def)
      ultimately show ?thesis by (metis approval_stays)
    qed
  qed
  with t show ?thesis by (simp add: posts_reviewed_def)
qed

lemma Reconcile_reviewed:
  assumes run: "ReconcilePendingPosts ids s = (Inr tr, s')" and ok: "posts_reviewed s" and hs: "post_histories s' = post_histories s"
  shows "posts_reviewed s'"
proof -
  note r = ReconcilePendingPosts_Inr[OF run]
  have sr: "same_reviews s s'" and ps: "posts s' = map (reconciled s (uniqueModerationIDs ids)) (posts s)" using r by simp_all
  note rd = same_reviews_reads[OF sr]
  have e: "images s' = images s" "post_records s' = post_records s" using sr by (simp_all add: same_reviews_def post_records_def)
  have f: "p_id (reconciled s x p) = p_id p" "p_current_revision (reconciled s x p) = p_current_revision p"
    "p_deleted_at (reconciled s x p) = p_deleted_at p" for x p by (simp_all add: reconciled_def)
  have v: "has_version s' = has_version s" by (simp add: has_version_def fun_eq_iff hs)
  have "post_rows_ok s'"
    using ok by (auto simp: posts_reviewed_def post_rows_ok_def e ps hs v f comp_def)
  moreover have "approvals_reviewed s'"
    unfolding approvals_reviewed_def
  proof (intro ballI impI)
    fix x assume x: "x \<in> set (posts s')" "p_status x = PostApproved"
    then obtain p where p: "p \<in> set (posts s)" "x = reconciled s (uniqueModerationIDs ids) p" by (auto simp: ps)
    have "approval_reviewed s p"
    proof (cases "p_status p = PostApproved")
      case False
      with x(2) p(2) have "may_publish s p" by (auto simp: reconciled_def decide_def split: if_splits)
      then show ?thesis by (simp add: approval_reviewed_def may_publish_def list_ex_iff)
    qed (use ok p(1) in \<open>simp add: posts_reviewed_def approvals_reviewed_def\<close>)
    then show "approval_reviewed s' x"
      using rd f by (simp add: approval_reviewed_def p(2) latest_verdict_def)
  qed
  ultimately show ?thesis by (simp add: posts_reviewed_def)
qed

end
