(* ===== verification/Post_Texts.thy ===== *)
theory Post_Texts
  imports Post_Review
begin

section \<open>The text that is shown is the text that was judged\<close>

text \<open>
  The second half of the invariant on posts.  A post carries the title and the content of its current
  version, and what the machine decided on a version it decided on exactly the text of that version.
  Snapshots are kept trimmed, so restoring one gives its text back unchanged.
\<close>

subsection \<open>The invariant\<close>

text \<open>
  One of the moderators gives this verdict on this text.  Several are allowed because the service that
  stands behind the interface may change between requests.
\<close>

definition judged :: "ContentModerator set \<Rightarrow> ModerationVerdict \<Rightarrow> string \<Rightarrow> bool" where
  "judged Ms verdict t \<longleftrightarrow> (\<exists>M\<in>Ms. \<exists>result.
     M \<lparr>mq_target = TargetPost, mq_field = None, mq_text = t\<rparr> = Inr result \<and> ms_verdict result = verdict)"

definition version_text :: "post_history \<Rightarrow> string" where
  "version_text h = ss_title (ph_snapshot h) @ CHR 0x0A # ss_content (ph_snapshot h)"

definition post_text :: "post \<Rightarrow> string" where
  "post_text p = p_title p @ CHR 0x0A # p_content p"

definition trimmed :: "post_history \<Rightarrow> bool" where
  "trimmed h \<longleftrightarrow> TrimSpace (ss_title (ph_snapshot h)) = ss_title (ph_snapshot h) \<and>
     TrimSpace (ss_content (ph_snapshot h)) = ss_content (ph_snapshot h)"

definition at_version :: "post_history \<Rightarrow> post \<Rightarrow> bool" where
  "at_version h p \<longleftrightarrow> ph_post_id h = p_id p \<and> ph_revision h = p_current_revision p"

definition same_text :: "post_history \<Rightarrow> post \<Rightarrow> bool" where
  "same_text h p \<longleftrightarrow> ss_title (ph_snapshot h) = p_title p \<and> ss_content (ph_snapshot h) = p_content p"

definition about_version :: "moderation_record \<Rightarrow> post_history \<Rightarrow> bool" where
  "about_version r h \<longleftrightarrow> mr_post_id r = Some (ph_post_id h) \<and> mr_content_revision r = Some (ph_revision h)"

definition texts_ok :: "ContentModerator set \<Rightarrow> db \<Rightarrow> bool" where
  "texts_ok Ms s \<longleftrightarrow>
     distinct (map (\<lambda>h. (ph_post_id h, ph_revision h)) (post_histories s)) \<and>
     (\<forall>h\<in>set (post_histories s). trimmed h) \<and>
     (\<forall>p\<in>set (posts s). \<forall>h\<in>set (post_histories s). at_version h p \<longrightarrow> same_text h p) \<and>
     (\<forall>r\<in>set (post_records s). \<forall>h\<in>set (post_histories s). about_version r h \<and> mr_reviewer_id r = None \<longrightarrow>
        judged Ms (mr_verdict r) (version_text h))"

definition posts_judged :: "ContentModerator set \<Rightarrow> db \<Rightarrow> bool" where
  "posts_judged Ms s \<longleftrightarrow> posts_reviewed s \<and> texts_ok Ms s"

subsection \<open>What keeps it\<close>

text \<open>A post whose text and version are those of a row that was there before.\<close>

definition text_kept :: "db \<Rightarrow> post \<Rightarrow> bool" where
  "text_kept s p \<longleftrightarrow> (\<exists>y\<in>set (posts s). p_id y = p_id p \<and> p_current_revision y = p_current_revision p \<and>
     p_title y = p_title p \<and> p_content y = p_content p)"

lemma text_keptI: "y \<in> set (posts s) \<Longrightarrow> p_id y = p_id p \<Longrightarrow> p_current_revision y = p_current_revision p \<Longrightarrow>
    p_title y = p_title p \<Longrightarrow> p_content y = p_content p \<Longrightarrow> text_kept s p"
  by (auto simp: text_kept_def)

lemma texts_kept:
  assumes ok: "posts_judged Ms s"
    and hs: "post_histories t = post_histories s @ hs" "length hs \<le> 1"
      "\<forall>h\<in>set hs. trimmed h \<and> \<not> has_version s (ph_post_id h) (ph_revision h)"
    and ps: "\<forall>p\<in>set (posts t). text_kept s p \<or> (\<forall>h\<in>set (post_histories t). at_version h p \<longrightarrow> same_text h p)"
    and rs: "post_records t = post_records s @ new"
      "\<forall>r\<in>set new. \<forall>h\<in>set (post_histories t). about_version r h \<and> mr_reviewer_id r = None \<longrightarrow>
         judged Ms (mr_verdict r) (version_text h)"
  shows "texts_ok Ms t"
proof -
  have rows: "post_rows_ok s" and tx: "texts_ok Ms s" using ok by (simp_all add: posts_judged_def posts_reviewed_def)
  have fresh: "(ph_post_id h, ph_revision h) \<noteq> (ph_post_id x, ph_revision x)"
    if "h \<in> set hs" "x \<in> set (post_histories s)" for h x
    using bspec[OF hs(3) that(1)] that(2) by (auto simp: has_version_def)
  have "distinct (map (\<lambda>h. (ph_post_id h, ph_revision h)) hs)" using hs(2) by (cases hs) auto
  moreover have "set (map (\<lambda>h. (ph_post_id h, ph_revision h)) (post_histories s)) \<inter> set (map (\<lambda>h. (ph_post_id h, ph_revision h)) hs) = {}"
    using fresh by fastforce
  ultimately have "distinct (map (\<lambda>h. (ph_post_id h, ph_revision h)) (post_histories t))"
    using tx unfolding hs(1) by (simp only: map_append distinct_append texts_ok_def simp_thms)
  moreover have "\<forall>h\<in>set (post_histories t). trimmed h" using tx hs(3) by (auto simp: hs(1) texts_ok_def)
  moreover have "same_text h p" if "p \<in> set (posts t)" "h \<in> set (post_histories t)" "at_version h p" for p h
  proof (cases "text_kept s p")
    case True
    then obtain y where y: "y \<in> set (posts s)" "p_id y = p_id p" "p_current_revision y = p_current_revision p"
      "p_title y = p_title p" "p_content y = p_content p" by (auto simp: text_kept_def)
    then have "has_version s (p_id p) (p_current_revision p)" using rows by (fastforce simp: post_rows_ok_def)
    then have "h \<in> set (post_histories s)" using that(2,3) hs(3) by (auto simp: hs(1) at_version_def)
    moreover have "at_version h y" using that(3) y by (simp add: at_version_def)
    ultimately have "same_text h y" using tx y(1) by (auto simp: texts_ok_def)
    then show ?thesis using y by (simp add: same_text_def)
  qed (use ps that in blast)
  moreover have "judged Ms (mr_verdict r) (version_text h)"
    if "r \<in> set (post_records t)" "h \<in> set (post_histories t)" "about_version r h" "mr_reviewer_id r = None" for r h
  proof (cases "r \<in> set new")
    case False
    then have r: "r \<in> set (post_records s)" using that(1) by (simp add: rs(1))
    then have "has_version s (ph_post_id h) (ph_revision h)" using rows that(3) by (auto simp: post_rows_ok_def about_version_def)
    then have "h \<in> set (post_histories s)" using that(2) hs(3) by (auto simp: hs(1))
    then show ?thesis using tx r that(3,4) by (auto simp: texts_ok_def)
  qed (use rs(2) that in blast)
  ultimately show ?thesis by (simp add: texts_ok_def)
qed

text \<open>The new records of a review were decided on the text that was sent.\<close>

lemma text_reviewed_judged:
  assumes "text_reviewed srv i n txt publish assets st new" "psv_moderator srv \<in> Ms" "r \<in> set new"
  shows "mr_post_id r = Some i" "mr_content_revision r = Some n" "judged Ms (mr_verdict r) txt"
proof -
  obtain result where m: "psv_moderator srv \<lparr>mq_target = TargetPost, mq_field = None, mq_text = txt\<rparr> = Inr result"
    "mr_verdict r = ms_verdict result" and r: "mr_post_id r = Some i" "mr_content_revision r = Some n"
    using assms(1,3) by (auto simp: text_reviewed_def split: if_splits)
  show "mr_post_id r = Some i" "mr_content_revision r = Some n" by (rule r)+
  show "judged Ms (mr_verdict r) txt" unfolding judged_def m(2) using m(1) assms(2) by blast
qed

lemma normalized_texts:
  "normalizeCreatePost lib input = Inr v \<Longrightarrow> TrimSpace (np_title v) = np_title v \<and> TrimSpace (np_content v) = np_content v"
  "normalizeUpdatePost lib upd p = Inr v \<Longrightarrow> TrimSpace (np_title v) = np_title v \<and> TrimSpace (np_content v) = np_content v"
  by (auto simp: normalizeCreatePost_def Let_def dest!: normalizePostPayload_ok normalizeUpdatePost_type split: if_splits)

text \<open>Writing under a new version.\<close>

lemma version_written:
  assumes ok: "posts_judged Ms s" and h: "version_of lib t p author why h" "\<not> has_version s (p_id p) (p_current_revision p)"
    and trim: "TrimSpace (p_title p) = p_title p" "TrimSpace (p_content p) = p_content p"
    and hs: "post_histories t = post_histories s @ [h]"
    and ps: "\<forall>x\<in>set (posts t). text_kept s x \<or> p_id x = p_id p \<and> p_current_revision x = p_current_revision p \<and>
       p_title x = p_title p \<and> p_content x = p_content p"
    and rs: "post_records t = post_records s @ new"
    and tr: "text_reviewed srv (p_id p) (p_current_revision p) (post_text p) publish assets st new" "psv_moderator srv \<in> Ms"
  shows "texts_ok Ms t"
proof -
  have f: "ph_post_id h = p_id p" "ph_revision h = p_current_revision p" "ss_title (ph_snapshot h) = p_title p"
    "ss_content (ph_snapshot h) = p_content p" using h(1) by (simp_all add: version_of_def current_snapshot_def)
  have only: "x = h" if "x \<in> set (post_histories t)" "ph_post_id x = p_id p" "ph_revision x = p_current_revision p" for x
    using that h(2) by (auto simp: hs has_version_def)
  show ?thesis
  proof (rule texts_kept[OF ok hs _ _ _ rs])
    show "\<forall>x\<in>set [h]. trimmed x \<and> \<not> has_version s (ph_post_id x) (ph_revision x)" using h(2) trim by (simp add: f trimmed_def)
    show "\<forall>x\<in>set (posts t). text_kept s x \<or> (\<forall>g\<in>set (post_histories t). at_version g x \<longrightarrow> same_text g x)"
      using ps only f by (fastforce simp: at_version_def same_text_def)
    show "\<forall>r\<in>set new. \<forall>g\<in>set (post_histories t). about_version r g \<and> mr_reviewer_id r = None \<longrightarrow>
         judged Ms (mr_verdict r) (version_text g)"
    proof (intro ballI impI)
      fix r g assume r: "r \<in> set new" and g: "g \<in> set (post_histories t)" and a: "about_version r g \<and> mr_reviewer_id r = None"
      note j = text_reviewed_judged[OF tr r]
      have "g = h" using only[OF g] a j by (simp add: about_version_def)
      then show "judged Ms (mr_verdict r) (version_text g)" using j(3) by (simp add: version_text_def post_text_def f)
    qed
  qed simp
qed

subsection \<open>The operations\<close>

lemma Create_texts:
  assumes run: "post_service_Create srv clk input author q = (Inr res, q')" and ok: "posts_judged Ms (rq_db q)"
    and M: "psv_moderator srv \<in> Ms"
  shows "texts_ok Ms (rq_db q')"
proof -
  let ?s = "rq_db q" and ?t = "rq_db q'"
  obtain v r p h new where v: "normalizeCreatePost (psv_lib srv) input = Inr v" and rv: "resolves ?s author v r"
    and p: "p = (newPostModel r author (pcr_status res))\<lparr>p_id := next_id p_id (posts ?s), p_created_at := clk 1, p_updated_at := clk 1\<rparr>"
    and sh: "shelf ?t = (posts ?s @ [p],
       filter (\<lambda>l. pi_post_id l \<noteq> p_id p) (post_images ?s) @ image_rows (p_id p) (rp_image_ids r),
       post_records ?s @ new, post_histories ?s @ [h], images ?s)"
    and tr: "text_reviewed srv (p_id p) 1 (reviewed_text r) (np_publish v) (rp_image_assets r) (pcr_status res) new"
    and h: "version_of (psv_lib srv) ?t p author None h" and "pcr_id res = p_id p" "post_check p"
    by (rule post_service_Create_Inr[OF run])
  note e = shelf_eq[OF sh] and f = resolves_fields[OF rv]
  have rows: "post_rows_ok ?s" using ok by (simp add: posts_judged_def posts_reviewed_def)
  have c: "p_id p = next_id p_id (posts ?s)" "p_current_revision p = 1" "p_title p = np_title v" "p_content p = np_content v"
    by (simp_all add: p newPostModel_def f)
  have "\<forall>x\<in>set (posts ?s). p_id x \<noteq> p_id p" using next_id_fresh[of _ "posts ?s" p_id] unfolding c(1) by fastforce
  then have nv: "\<not> has_version ?s (p_id p) (p_current_revision p)" using rows by (fastforce simp: has_version_def post_rows_ok_def)
  have "reviewed_text r = post_text p" by (simp add: reviewed_text_def post_text_def c f)
  note tr = tr[unfolded this, folded c(2)]
  have "\<forall>x\<in>set (posts ?t). text_kept ?s x \<or> p_id x = p_id p \<and> p_current_revision x = p_current_revision p \<and>
       p_title x = p_title p \<and> p_content x = p_content p" by (auto simp: e intro: text_keptI)
  then show ?thesis
    by (rule version_written[OF ok h nv _ _ e(4) _ e(3) tr M, rotated -1]) (use normalized_texts(1)[OF v] c in simp_all)
qed

lemma Update_texts:
  assumes run: "post_service_Update srv clk i input author q = (Inr res, q')" and ok: "posts_judged Ms (rq_db q)"
    and M: "psv_moderator srv \<in> Ms"
  shows "texts_ok Ms (rq_db q')"
proof -
  let ?s = "rq_db q" and ?t = "rq_db q'"
  obtain old v r n h new where old: "old \<in> set (posts ?s)" "p_id old = i" "p_author_id old = author" "p_deleted_at old = None"
    and v: "normalizeUpdatePost (psv_lib srv) input old = Inr v" and rv: "resolves ?s author v r"
    and n: "n = fold max (post_revisions i ?s) 0 + 1"
    and sh: "shelf ?t = (upd_where (\<lambda>p. p_id p = i) (new_content r (pcr_status res) n (clk 1)) (posts ?s),
       filter (\<lambda>l. pi_post_id l \<noteq> i) (post_images ?s) @ image_rows i (rp_image_ids r),
       post_records ?s @ new, post_histories ?s @ [h], images ?s)"
    and tr: "text_reviewed srv i n (reviewed_text r) (np_publish v) (rp_image_assets r) (pcr_status res) new"
    and h: "version_of (psv_lib srv) ?t (new_content r (pcr_status res) n (clk 1) old) author (np_edit_reason v) h"
    and "pcr_id res = i"
    by (rule post_service_Update_Inr[OF run])
  let ?p = "new_content r (pcr_status res) n (clk 1) old"
  note e = shelf_eq[OF sh] and f = resolves_fields[OF rv]
  have tx: "p_title (new_content r (pcr_status res) n (clk 1) x) = np_title v"
    "p_content (new_content r (pcr_status res) n (clk 1) x) = np_content v" for x
    by (simp_all add: new_content_def at_revision_def contentFields_def f)
  have c: "p_id ?p = i" "p_current_revision ?p = n" using old by simp_all
  have nv: "\<not> has_version ?s (p_id ?p) (p_current_revision ?p)" unfolding c by (rule next_version_fresh[OF n])
  have "reviewed_text r = post_text ?p" by (simp add: reviewed_text_def post_text_def tx f del: One_nat_def)
  with tr have tr: "text_reviewed srv (p_id ?p) (p_current_revision ?p) (post_text ?p) (np_publish v) (rp_image_assets r)
      (pcr_status res) new" by (simp only: c)
  have "\<forall>x\<in>set (posts ?t). text_kept ?s x \<or> p_id x = p_id ?p \<and> p_current_revision x = p_current_revision ?p \<and>
       p_title x = p_title ?p \<and> p_content x = p_content ?p" by (auto simp: e tx old simp del: One_nat_def elim!: in_upd_whereE intro: text_keptI)
  then show ?thesis
    by (rule version_written[OF ok h nv _ _ e(4) _ e(3) tr M, rotated -1]) (use normalized_texts(2)[OF v] tx in simp_all)
qed

lemma RestoreHistory_texts:
  assumes run: "post_service_RestoreHistory srv clk i revision why author q = (Inr res, q')" and ok: "posts_judged Ms (rq_db q)"
    and M: "psv_moderator srv \<in> Ms"
  shows "texts_ok Ms (rq_db q')"
proof -
  let ?s = "rq_db q" and ?t = "rq_db q'"
  have rows: "post_rows_ok ?s" and tx: "texts_ok Ms ?s" using ok by (simp_all add: posts_judged_def posts_reviewed_def)
  then have d: "distinct (map p_id (posts ?s))" by (simp add: post_rows_ok_def)
  obtain post h v r S new where post: "post \<in> set (posts ?s)" "p_id post = i" "p_author_id post = author"
    and h: "h \<in> set (post_histories ?s)" "ph_post_id h = i" "ph_revision h = revision"
    and rc: "restores_content (psv_lib srv) (psv_decimal srv) ?s (ph_snapshot h) v"
    and rv: "resolves (?s\<lparr>images := mark_images S ModPass (images ?s)\<rparr>) author v r"
    and sh: "shelf ?t = (upd_where (\<lambda>p. p_id p = i) (reshown \<circ> new_content r (pcr_status res) revision (clk 1)) (posts ?s),
       filter (\<lambda>l. pi_post_id l \<noteq> i) (post_images ?s) @ image_rows i (rp_image_ids r),
       post_records ?s @ new, post_histories ?s, mark_images S ModPass (images ?s))"
    and rec: "case current_post_record ?s i revision of
       None \<Rightarrow> text_reviewed srv i revision (reviewed_text r) (np_publish v) (rp_image_assets r) (pcr_status res) new
     | Some s \<Rightarrow> new = [] \<and> aggregatePostModeration (mr_verdict s) (rp_image_assets r) = Inr (pcr_status res)"
    and "pcr_id res = i"
    by (rule post_service_RestoreHistory_Inr[OF run d])
  note e = shelf_eq[OF sh] and f = resolves_fields[OF rv]
  have "trimmed h" using tx h(1) by (simp add: texts_ok_def)
  then have v: "np_title v = ss_title (ph_snapshot h)" "np_content v = ss_content (ph_snapshot h)"
    using rc by (simp_all add: restores_content_def trimmed_def)
  have only: "g = h" if "g \<in> set (post_histories ?s)" "ph_post_id g = i" "ph_revision g = revision" for g
    using tx h that by (auto simp: texts_ok_def distinct_map dest: inj_onD)
  have vt: "reviewed_text r = version_text h" by (simp add: reviewed_text_def version_text_def v f)
  have row: "p_id (reshown (new_content r st n now p)) = p_id p" "p_current_revision (reshown (new_content r st n now p)) = n"
    "p_title (reshown (new_content r st n now p)) = np_title v" "p_content (reshown (new_content r st n now p)) = np_content v"
    for st n now p by (simp_all add: reshown_def revived_def new_content_def at_revision_def contentFields_def f)
  show ?thesis
  proof (rule texts_kept[OF ok, where hs = "[]" and new = new])
    show "\<forall>x\<in>set (posts ?t). text_kept ?s x \<or> (\<forall>g\<in>set (post_histories ?t). at_version g x \<longrightarrow> same_text g x)"
    proof
      fix x assume "x \<in> set (posts ?t)"
      then consider "x \<in> set (posts ?s)" | y where "p_id y = i" "x = reshown (new_content r (pcr_status res) revision (clk 1) y)"
        by (auto simp: e elim!: in_upd_whereE)
      then show "text_kept ?s x \<or> (\<forall>g\<in>set (post_histories ?t). at_version g x \<longrightarrow> same_text g x)"
      proof cases
        case 2
        have "same_text g x" if "g \<in> set (post_histories ?t)" "at_version g x" for g
        proof -
          have "g = h" using only[of g] that 2(1) unfolding 2(2) by (simp add: e at_version_def row del: One_nat_def)
          then show ?thesis unfolding 2(2) by (simp add: same_text_def row v del: One_nat_def)
        qed
        then show ?thesis by blast
      qed (auto intro: text_keptI)
    qed
    show "\<forall>m\<in>set new. \<forall>g\<in>set (post_histories ?t). about_version m g \<and> mr_reviewer_id m = None \<longrightarrow>
         judged Ms (mr_verdict m) (version_text g)"
    proof (intro ballI impI)
      fix m g assume m: "m \<in> set new" and g: "g \<in> set (post_histories ?t)" and a: "about_version m g \<and> mr_reviewer_id m = None"
      have tr: "text_reviewed srv i revision (version_text h) (np_publish v) (rp_image_assets r) (pcr_status res) new"
        using rec m vt by (cases "current_post_record ?s i revision") auto
      note j = text_reviewed_judged[OF tr M m]
      have "g = h" using only[of g] g a j by (simp add: about_version_def e)
      then show "judged Ms (mr_verdict m) (version_text g)" using j(3) by simp
    qed
  qed (simp_all add: e)
qed

text \<open>What keeps texts, revisions and versions keeps the invariant.\<close>

lemma texts_untouched:
  assumes ok: "posts_judged Ms s" and hs: "post_histories t = post_histories s" and ps: "\<forall>p\<in>set (posts t). text_kept s p"
    and rs: "post_records t = post_records s @ new" "\<forall>r\<in>set new. mr_reviewer_id r \<noteq> None"
  shows "texts_ok Ms t"
  by (rule texts_kept[OF ok, where hs = "[]" and new = new]) (use assms(2-) in auto)

lemma delete_texts:
  assumes run: "deletePostWithHistoryAndImages clk p actor reason now q = (Inr u, q')" and ok: "posts_judged Ms (rq_db q)"
  shows "texts_ok Ms (rq_db q')"
proof -
  obtain S where sh: "shelf (rq_db q') = (upd_where (\<lambda>x. p_id x = p_id p \<and> p_deleted_at x = None) (removed now reason actor)
        (posts (rq_db q)),
       post_images (rq_db q), post_records (rq_db q), post_histories (rq_db q), mark_images S ModBlock (images (rq_db q)))"
    by (rule deletePost_Inr[OF run])
  note e = shelf_eq[OF sh]
  show ?thesis
  proof (rule texts_untouched[OF ok, where new = "[]"])
    show "\<forall>x\<in>set (posts (rq_db q')). text_kept (rq_db q) x"
      by (auto simp: e removed_def elim!: in_upd_whereE intro: text_keptI)
  qed (simp_all add: e)
qed

lemma posts_judged_shelf:
  assumes "shelf t = shelf s"
  shows "posts_judged Ms t = posts_judged Ms s"
  using posts_reviewed_shelf[OF assms] shelf_tables[OF assms] by (simp add: posts_judged_def texts_ok_def)

lemma deletions_texts:
  "post_service_Delete clk i author q = (Inr u, q') \<Longrightarrow> posts_judged Ms (rq_db q) \<Longrightarrow> texts_ok Ms (rq_db q')"
  "admin_DeletePost clk i author q = (Inr u, q') \<Longrightarrow> posts_judged Ms (rq_db q) \<Longrightarrow> texts_ok Ms (rq_db q')"
  by (erule post_service_Delete_Inr, metis delete_texts posts_judged_shelf reads_shelf)
    (erule admin_DeletePost_Inr, metis delete_texts posts_judged_shelf reads_shelf)

lemma admin_RestorePost_texts:
  assumes run: "admin_RestorePost clk i actor q = (Inr k, q')" and ok: "posts_judged Ms (rq_db q)"
  shows "texts_ok Ms (rq_db q')"
proof -
  let ?s = "rq_db q" and ?t = "rq_db q'"
  obtain post S m where post: "post \<in> set (posts ?s)" "p_id post = i" "p_deleted_at post \<noteq> None" "p_author_id post \<noteq> actor"
    and "p_status post = PostApproved \<longrightarrow> (\<forall>a\<in>set (mark_images S ModPass (images ?s)).
        img_id a \<in> shown_by ?s i \<and> img_id a \<noteq> 0 \<longrightarrow> img_moderation a = ModPass)"
    and sh: "shelf ?t = (upd_where (\<lambda>p. p_id p = i \<and> p_deleted_at p \<noteq> None) revived (posts ?s), post_images ?s,
       post_records ?s @ [m], post_histories ?s, mark_images S ModPass (images ?s))"
    and m: "mr_id m = k" "mr_post_id m = Some i" "mr_verdict m = VerdictPass" "mr_reviewer_id m = Some actor"
      "\<exists>p\<in>set (posts ?s). p_id p = i \<and> mr_content_revision m = Some (p_current_revision p)"
    by (rule admin_RestorePost_Inr[OF run])
  note e = shelf_eq[OF sh]
  show ?thesis
  proof (rule texts_untouched[OF ok, where new = "[m]"])
    show "\<forall>x\<in>set (posts ?t). text_kept ?s x" by (auto simp: e revived_def elim!: in_upd_whereE intro: text_keptI)
  qed (use m(4) in \<open>simp_all add: e\<close>)
qed

lemma Reconcile_texts:
  assumes run: "ReconcilePendingPosts ids s = (Inr tr, s')" and ok: "posts_judged Ms s" and hs: "post_histories s' = post_histories s"
  shows "texts_ok Ms s'"
proof -
  note r = ReconcilePendingPosts_Inr[OF run]
  have sr: "same_reviews s s'" and ps: "posts s' = map (reconciled s (uniqueModerationIDs ids)) (posts s)" using r by simp_all
  show ?thesis
  proof (rule texts_untouched[OF ok hs, where new = "[]"])
    show "\<forall>x\<in>set (posts s'). text_kept s x" by (auto simp: ps reconciled_def intro: text_keptI)
  qed (use sr in \<open>simp_all add: same_reviews_def post_records_def\<close>)
qed

end
