(* ===== verification/Post_Guarantees.thy ===== *)
theory Post_Guarantees
  imports Post_Texts
begin

section \<open>What authors and readers can rely on\<close>

text \<open>
  The properties of the operations on posts: what is stored when a post is written or edited, what
  a deletion hides, what a restoration reuses, and that no sequence of them shows a post that has
  not been reviewed.
\<close>

subsection \<open>Accepted content fits the tables\<close>

lemma payload_fits:
  assumes ok: "payload_ok lib v" "validPostType (np_post_type v)" "\<forall>a. np_price v = Some a \<longrightarrow> 0 \<le> a"
    and r: "resolves s author v r" and st: "np_publish v \<or> st = PostDraft"
  shows "post_check ((newPostModel r author st)\<lparr>p_id := i, p_created_at := now, p_updated_at := now\<rparr>)"
    "\<And>p n. post_check p \<Longrightarrow> p_post_type p = np_post_type v \<Longrightarrow> 1 \<le> n \<Longrightarrow> post_check (new_content r st n now p)"
proof -
  note f = resolves_fields[OF r]
  have c: "np_window_id v \<noteq> None \<longrightarrow> rp_canteen_id r \<noteq> None" using r by (simp add: resolves_def)
  have t: "np_post_type v = TypeShare \<or> np_post_type v = TypeSeeking" using ok(2) by (simp add: validPostType_def)
  have base: "post_check ((newPostModel r author st)\<lparr>p_id := i, p_created_at := now, p_updated_at := now\<rparr>)" for author i
    using ok c st t
    by (auto simp: post_check_def payload_ok_def newPostModel_def budgetColumns_def f split: option.splits if_splits)
  then show "post_check ((newPostModel r author st)\<lparr>p_id := i, p_created_at := now, p_updated_at := now\<rparr>)" .
  show "post_check (new_content r st n now p)" if "post_check p" "p_post_type p = np_post_type v" "1 \<le> n" for p n
    using base[of 0 0] that
    unfolding post_check_def new_content_def at_revision_def contentFields_def newPostModel_def
    by (cases "np_price v") (auto simp: f)
qed

text \<open>
  C40: what the input checks accept, the tables accept.  A payload that passes
  \<open>normalizePostPayload\<close> for a known type and is resolved against the database gives a row that
  satisfies every \<open>CHECK\<close> of the table \<open>posts\<close>, as a new post and as the new content of a valid
  post of that type, provided the amount is not negative and only drafts are unpublished; it has at
  most nine images and ten tags, and each tag satisfies the \<open>CHECK\<close>s of the table \<open>tags\<close>.
\<close>

theorem accepted_posts_fit:
  assumes n: "normalizePostPayload lib payload t publish reason = Inr v" and t: "validPostType t"
    and price: "\<forall>a. py_price payload = Some a \<longrightarrow> 0 \<le> a" and r: "resolves s author v r"
    and st: "publish \<or> st = PostDraft"
  shows "post_check ((newPostModel r author st)\<lparr>p_id := i, p_created_at := now, p_updated_at := now\<rparr>) \<and>
    (\<forall>p n. post_check p \<and> p_post_type p = t \<and> 1 \<le> n \<longrightarrow> post_check (new_content r st n now p)) \<and>
    length (rp_image_ids r) \<le> 9 \<and> length (np_tags v) \<le> 10 \<and> list_all (\<lambda>x. RuneCount x \<le> 10) (np_tags v)"
proof -
  note ok = normalizePostPayload_ok[OF n]
  have "\<forall>a. np_price v = Some a \<longrightarrow> 0 \<le> a" using ok price by simp
  note fits = payload_fits[OF conjunct1[OF ok] _ this r]
  have "map img_public_url (rp_image_assets r) = np_images v" using r by (simp add: resolves_def)
  then have "length (rp_image_ids r) = length (np_images v)" using resolves_fields(12)[OF r] by (metis length_map)
  then show ?thesis using fits ok t st by (auto simp: payload_ok_def list_all_iff)
qed

subsection \<open>Writing\<close>

text \<open>
  C4: what a successful creation leaves in the database.  One row is added, under a new number, with
  the normalised content and the status the client is told; its images are exactly the resolved
  ones, each uploaded by the author for posts and not blocked.  Version 1 is added and its snapshot
  is what the new row and its relations hold.  A draft gets no review; any other post has exactly
  one new record, the moderator's verdict on this title and content for version 1, and the
  status is the one that this verdict and the images aggregate to.
\<close>

theorem post_create_reviewed:
  assumes run: "post_service_Create srv clk input author q = (Inr res, q')"
  shows "\<exists>v r p h new. normalizeCreatePost (psv_lib srv) input = Inr v \<and> resolves (rq_db q) author v r \<and>
    p = (newPostModel r author (pcr_status res))\<lparr>p_id := pcr_id res, p_created_at := clk 1, p_updated_at := clk 1\<rparr> \<and>
    (\<forall>x\<in>set (posts (rq_db q)). p_id x < pcr_id res) \<and> posts (rq_db q') = posts (rq_db q) @ [p] \<and>
    shown_by (rq_db q') (pcr_id res) = set (rp_image_ids r) \<and>
    (\<forall>a\<in>set (rp_image_assets r). a \<in> set (images (rq_db q)) \<and> usable_image author a) \<and>
    post_histories (rq_db q') = post_histories (rq_db q) @ [h] \<and> version_of (psv_lib srv) (rq_db q') p author None h \<and>
    post_records (rq_db q') = post_records (rq_db q) @ new \<and>
    text_reviewed srv (pcr_id res) 1 (np_title v @ CHR 0x0A # np_content v) (np_publish v) (rp_image_assets r) (pcr_status res) new"
proof -
  let ?s = "rq_db q" and ?t = "rq_db q'"
  obtain v r p h new where v: "normalizeCreatePost (psv_lib srv) input = Inr v" and rv: "resolves ?s author v r"
    and p: "p = (newPostModel r author (pcr_status res))\<lparr>p_id := next_id p_id (posts ?s), p_created_at := clk 1, p_updated_at := clk 1\<rparr>"
    and sh: "shelf ?t = (posts ?s @ [p],
       filter (\<lambda>l. pi_post_id l \<noteq> p_id p) (post_images ?s) @ image_rows (p_id p) (rp_image_ids r),
       post_records ?s @ new, post_histories ?s @ [h], images ?s)"
    and tr: "text_reviewed srv (p_id p) 1 (reviewed_text r) (np_publish v) (rp_image_assets r) (pcr_status res) new"
    and h: "version_of (psv_lib srv) ?t p author None h" and i: "pcr_id res = p_id p" and "post_check p"
    by (rule post_service_Create_Inr[OF run])
  note e = shelf_eq[OF sh]
  have n: "p_id p = next_id p_id (posts ?s)" by (simp add: p)
  have "\<forall>x\<in>set (posts ?s). p_id x < pcr_id res" unfolding i n by (blast intro: next_id_fresh)
  moreover have "shown_by ?t (pcr_id res) = set (rp_image_ids r)" unfolding i by (simp add: shown_by_replaced[OF e(2)])
  moreover have "\<forall>a\<in>set (rp_image_assets r). a \<in> set (images ?s) \<and> usable_image author a" using rv by (simp add: resolves_def)
  moreover have "reviewed_text r = np_title v @ CHR 0x0A # np_content v" using resolves_fields[OF rv] by (simp add: reviewed_text_def)
  moreover have "p = (newPostModel r author (pcr_status res))\<lparr>p_id := pcr_id res, p_created_at := clk 1, p_updated_at := clk 1\<rparr>"
    using p i n by simp
  ultimately show ?thesis using v rv h tr e i by metis
qed

text \<open>
  C5: what a successful edit leaves.  The post is the author's own and not deleted.  It keeps its
  number, author, type, counters and times of creation; its content and status are the new
  ones and its revision is above every earlier one of its versions; no other post changes.  The
  versions so far are kept, one is added, and its snapshot is what the row and its relations
  now hold.  The new content is reviewed as that of a new post, for the new version.
\<close>

theorem post_edit_reviewed:
  assumes run: "post_service_Update srv clk i input author q = (Inr res, q')"
  shows "\<exists>old v r n h new. old \<in> set (posts (rq_db q)) \<and> p_id old = i \<and> p_author_id old = author \<and> p_deleted_at old = None \<and>
    normalizeUpdatePost (psv_lib srv) input old = Inr v \<and> resolves (rq_db q) author v r \<and>
    posts (rq_db q') = upd_where (\<lambda>p. p_id p = i) (new_content r (pcr_status res) n (clk 1)) (posts (rq_db q)) \<and>
    (\<forall>x\<in>set (post_histories (rq_db q)). ph_post_id x = i \<longrightarrow> ph_revision x < n) \<and>
    shown_by (rq_db q') i = set (rp_image_ids r) \<and> (\<forall>j. j \<noteq> i \<longrightarrow> shown_by (rq_db q') j = shown_by (rq_db q) j) \<and>
    post_histories (rq_db q') = post_histories (rq_db q) @ [h] \<and>
    version_of (psv_lib srv) (rq_db q') (new_content r (pcr_status res) n (clk 1) old) author (np_edit_reason v) h \<and>
    post_records (rq_db q') = post_records (rq_db q) @ new \<and>
    text_reviewed srv i n (np_title v @ CHR 0x0A # np_content v) (np_publish v) (rp_image_assets r) (pcr_status res) new"
proof -
  let ?s = "rq_db q" and ?t = "rq_db q'"
  obtain old v r n h new where old: "old \<in> set (posts ?s)" "p_id old = i" "p_author_id old = author" "p_deleted_at old = None"
    and v: "normalizeUpdatePost (psv_lib srv) input old = Inr v" and rv: "resolves ?s author v r"
    and n: "n = fold max (post_revisions i ?s) 0 + 1"
    and sh: "shelf ?t = (upd_where (\<lambda>p. p_id p = i) (new_content r (pcr_status res) n (clk 1)) (posts ?s),
       filter (\<lambda>l. pi_post_id l \<noteq> i) (post_images ?s) @ image_rows i (rp_image_ids r),
       post_records ?s @ new, post_histories ?s @ [h], images ?s)"
    and tr: "text_reviewed srv i n (reviewed_text r) (np_publish v) (rp_image_assets r) (pcr_status res) new"
    and h: "version_of (psv_lib srv) ?t (new_content r (pcr_status res) n (clk 1) old) author (np_edit_reason v) h"
    and "pcr_id res = i"
    by (rule post_service_Update_Inr[OF run])
  note e = shelf_eq[OF sh]
  have rev: "\<forall>x\<in>set (post_histories ?s). ph_post_id x = i \<longrightarrow> ph_revision x < n"
  proof (intro ballI impI)
    fix x assume "x \<in> set (post_histories ?s)" "ph_post_id x = i"
    then have "ph_revision x \<in> set (post_revisions i ?s)" by (auto simp: post_revisions_def)
    then have "ph_revision x \<le> fold max (post_revisions i ?s) 0" by (rule fold_max_int(1))
    then show "ph_revision x < n" by (simp add: n)
  qed
  have links: "shown_by ?t i = set (rp_image_ids r)" "\<forall>j. j \<noteq> i \<longrightarrow> shown_by ?t j = shown_by ?s j"
    by (simp_all add: shown_by_replaced[OF e(2)])
  have tx: "reviewed_text r = np_title v @ CHR 0x0A # np_content v" using resolves_fields[OF rv] by (simp add: reviewed_text_def)
  show ?thesis
    by (rule exI[of _ old], rule exI[of _ v], rule exI[of _ r], rule exI[of _ n], rule exI[of _ h], rule exI[of _ new])
      (use old v rv e rev links h tr[unfolded tx] in blast)
qed

subsection \<open>Deleting and restoring\<close>



subsection \<open>Any sequence of operations\<close>

lemma ReconcilePendingPosts_histories:
  "ReconcilePendingPosts ids s = (Inr tr, s') \<Longrightarrow> post_histories s' = post_histories s"
  by (auto simp: ReconcilePendingPosts_def set_post_status_def bind_Inr_iff execute_run ret_def Let_def split: if_splits)

text \<open>A request that succeeds; one that fails is rolled back and changes nothing.\<close>

inductive post_step :: "ContentModerator set \<Rightarrow> db \<Rightarrow> db \<Rightarrow> bool" for Ms where
  create: "post_service_Create srv clk input author q = (Inr res, q') \<Longrightarrow> psv_moderator srv \<in> Ms \<Longrightarrow>
     post_step Ms (rq_db q) (rq_db q')"
| edit: "post_service_Update srv clk i upd author q = (Inr res, q') \<Longrightarrow> psv_moderator srv \<in> Ms \<Longrightarrow>
     post_step Ms (rq_db q) (rq_db q')"
| delete: "post_service_Delete clk i author q = (Inr u, q') \<Longrightarrow> post_step Ms (rq_db q) (rq_db q')"
| restore: "post_service_RestoreHistory srv clk i revision why author q = (Inr res, q') \<Longrightarrow> psv_moderator srv \<in> Ms \<Longrightarrow>
     post_step Ms (rq_db q) (rq_db q')"
| take_down: "admin_DeletePost clk i actor q = (Inr u, q') \<Longrightarrow> post_step Ms (rq_db q) (rq_db q')"
| reinstate: "admin_RestorePost clk i actor q = (Inr k, q') \<Longrightarrow> post_step Ms (rq_db q) (rq_db q')"
| recompute: "ReconcilePendingPosts ids s = (Inr tr, s') \<Longrightarrow> post_step Ms s s'"

lemma post_step_judged: "post_step Ms s s' \<Longrightarrow> posts_judged Ms s \<Longrightarrow> posts_judged Ms s'"
proof (induction rule: post_step.induct)
  case create
  then show ?case using Create_reviewed Create_texts unfolding posts_judged_def by blast
next
  case edit
  then show ?case using Update_reviewed Update_texts unfolding posts_judged_def by blast
next
  case delete
  then show ?case using deletions_reviewed(1) deletions_texts(1) unfolding posts_judged_def by blast
next
  case restore
  then show ?case using RestoreHistory_reviewed RestoreHistory_texts unfolding posts_judged_def by blast
next
  case take_down
  then show ?case using deletions_reviewed(2) deletions_texts(2) unfolding posts_judged_def by blast
next
  case reinstate
  then show ?case using admin_RestorePost_reviewed admin_RestorePost_texts unfolding posts_judged_def by blast
next
  case recompute
  then show ?case using Reconcile_reviewed Reconcile_texts ReconcilePendingPosts_histories unfolding posts_judged_def by blast
qed

text \<open>What the invariant says of a post that is shown.\<close>

lemma judged_post:
  assumes ok: "posts_judged Ms s" and p: "p \<in> set (posts s)" "p_status p = PostApproved"
  shows "\<exists>h r. h \<in> set (post_histories s) \<and> at_version h p \<and> same_text h p \<and>
    current_post_record s (p_id p) (p_current_revision p) = Some r \<and> mr_verdict r = VerdictPass \<and>
    (mr_reviewer_id r = None \<longrightarrow> judged Ms VerdictPass (post_text p))"
proof -
  have rows: "post_rows_ok s" and ap: "approval_reviewed s p" and tx: "texts_ok Ms s"
    using ok p by (simp_all add: posts_judged_def posts_reviewed_def approvals_reviewed_def)
  obtain r where r: "current_post_record s (p_id p) (p_current_revision p) = Some r" "mr_verdict r = VerdictPass"
    using ap by (auto simp: approval_reviewed_def latest_verdict_def)
  obtain h where h: "h \<in> set (post_histories s)" "at_version h p"
    using rows p(1) by (fastforce simp: post_rows_ok_def has_version_def at_version_def)
  have same: "same_text h p" using tx p(1) h by (simp add: texts_ok_def)
  have rr: "r \<in> set (post_records s)" "about_version r h"
    using first_by_Some(1,2)[OF r(1)[unfolded current_post_record_shelf]] h(2) by (simp_all add: about_version_def at_version_def)
  have "judged Ms VerdictPass (version_text h)" if "mr_reviewer_id r = None"
    using tx rr h(1) that r(2) unfolding texts_ok_def by metis
  moreover have "version_text h = post_text p" using same by (simp add: version_text_def post_text_def same_text_def)
  ultimately show ?thesis using h same r by auto
qed

text \<open>
  C3: no post is shown unreviewed.  In a database that satisfies its keys let every post carry the text
  of its current version, let what the machine decided on a version be decided on exactly its
  text, let every approved post have a passing latest verdict on its current version and, unless it
  is deleted, only images that passed.  Then no sequence of creations, edits, deletions and
  restorations by authors, deletions and restorations by administrators, and recomputations changes
  this, whatever the moderators in use answer.  So a post that is approved and not deleted carries
  exactly the title and content of its current version, the newest record on that version passes it,
  and either an administrator signed that record or one of the moderators passed exactly this title and
  content; and it shows only images that passed.
\<close>

theorem posts_stay_reviewed:
  assumes "(post_step Ms)\<^sup>*\<^sup>* s s'" "posts_judged Ms s"
  shows "posts_judged Ms s' \<and> (\<forall>p\<in>set (posts s'). p_status p = PostApproved \<and> p_deleted_at p = None \<longrightarrow>
    (\<exists>h r. h \<in> set (post_histories s') \<and> at_version h p \<and> same_text h p \<and>
       current_post_record s' (p_id p) (p_current_revision p) = Some r \<and> mr_verdict r = VerdictPass \<and>
       (mr_reviewer_id r = None \<longrightarrow> judged Ms VerdictPass (post_text p))) \<and>
    latest_verdict s' p = Some VerdictPass \<and> (\<forall>a\<in>set (images_of_post s' (p_id p)). img_moderation a = ModPass))"
proof -
  from assms have ok: "posts_judged Ms s'" by (induction rule: rtranclp_induct) (auto dest: post_step_judged)
  then have "approvals_reviewed s'" by (simp add: posts_judged_def posts_reviewed_def)
  then show ?thesis using ok judged_post[OF ok] by (auto simp: approvals_reviewed_def approval_reviewed_def)
qed

subsection \<open>Witnesses\<close>

definition gallery_image :: image_asset where
  "gallery_image = \<lparr>img_id = 3, img_uploader_id = Some 1, img_purpose = PurposePost, img_object_key = ''k'',
     img_public_url = ''u'', img_content_type = ''image/png'', img_size = Some 1, img_status = ImgReady,
     img_moderation = ModPass, img_created_at = 0, img_updated_at = 0\<rparr>"

definition gallery_db :: db where
  "gallery_db = empty_db\<lparr>users := [social_user 1, social_user 2], images := [gallery_image]\<rparr>"

definition passing_posts :: PostService where
  "passing_posts = NewPostServiceWithCursorSecret sample_lib sample_decimal sample_aead (Some DirectPassContentModerator) ''s''"

definition sample_payload :: "string \<Rightarrow> PostPayload" where
  "sample_payload t = \<lparr>py_title = t, py_content = ''c'', py_category = ''food'', py_share_type = Some ''recommend'',
     py_canteen_code = None, py_window_id = None, py_cuisine = None, py_price = Some 150, py_flavors = [], py_tags = [''g''],
     py_images = [''u''], py_budget = None, py_preferences = None\<rparr>"

definition first_post :: CreatePostInput where
  "first_post = \<lparr>cpi_payload = sample_payload '' t '', cpi_post_type = ''share'', cpi_status = None\<rparr>"

definition second_text :: UpdatePostInput where
  "second_text = \<lparr>upi_payload = sample_payload ''s'', upi_post_type = None, upi_status = None, upi_edit_reason = Some '' r ''\<rparr>"

definition created_req :: "ModerationAlert req" where
  "created_req = snd (post_service_Create passing_posts int first_post 1 (fresh_req gallery_db))"

definition edited_req :: "ModerationAlert req" where
  "edited_req = snd (post_service_Update passing_posts int 1 second_text 1 created_req)"

definition deleted_req :: "ModerationAlert req" where
  "deleted_req = snd (post_service_Delete int 1 1 edited_req)"

definition restored_req :: "ModerationAlert req" where
  "restored_req = snd (post_service_RestoreHistory passing_posts int 1 1 None 1 deleted_req)"

definition post_summary :: "db \<Rightarrow> (row_id \<times> string \<times> PostStatus \<times> int \<times> bool) list \<times> ModerationStatus list \<times> int list \<times> nat" where
  "post_summary s = (map (\<lambda>p. (p_id p, p_title p, p_status p, p_current_revision p, p_deleted_at p = None)) (posts s),
     map img_moderation (images s), map ph_revision (post_histories s), length (post_records s))"

lemma created_run:
  "post_service_Create passing_posts int first_post 1 (fresh_req gallery_db) =
     (Inr \<lparr>pcr_id = 1, pcr_post_type = TypeShare, pcr_status = PostApproved\<rparr>, created_req)"
proof -
  have "fst (post_service_Create passing_posts int first_post 1 (fresh_req gallery_db)) =
      Inr \<lparr>pcr_id = 1, pcr_post_type = TypeShare, pcr_status = PostApproved\<rparr>" by code_simp
  then show ?thesis by (simp add: created_req_def prod_eq_iff)
qed

lemma edited_run: "\<exists>res. post_service_Update passing_posts int 1 second_text 1 created_req = (Inr res, edited_req)"
  unfolding edited_req_def by (rule Inr_run) code_simp

lemma deleted_run: "\<exists>u. post_service_Delete int 1 1 edited_req = (Inr u, deleted_req)"
  unfolding deleted_req_def by (rule Inr_run) code_simp

lemma restored_run: "\<exists>res. post_service_RestoreHistory passing_posts int 1 1 None 1 deleted_req = (Inr res, restored_req)"
  unfolding restored_req_def by (rule Inr_run) code_simp

text \<open>A tag that was taken down: the conflict reaches the client wrapped in an internal error.\<close>

lemma taken_down_tag_is_internal:
  "fst (post_service_Create passing_posts int first_post 1 (fresh_req (gallery_db\<lparr>tags :=
      [\<lparr>tg_id = 4, tg_name = ''g'', tg_created_at = 0, tg_updated_at = 0, tg_moderation = ModBlock, tg_deleted_at = Some 0\<rparr>]\<rparr>)))
     = Inl (Internal (Conflict (Some BizContentRejected)))"
  by code_simp

theorem accepted_posts_fit_witness:
  "\<exists>v. normalizePostPayload sample_lib (sample_payload '' t '') TypeShare True None = Inr v \<and>
     post_check ((newPostModel (normalizedPostPayload.extend v \<lparr>rp_canteen_id = None, rp_cuisine_id = None, rp_flavors = [],
       rp_image_assets = [gallery_image], rp_image_ids = [3]\<rparr>) 1 PostPending)\<lparr>p_id := 1, p_created_at := 0, p_updated_at := 0\<rparr>)"
proof -
  let ?n = "normalizePostPayload sample_lib (sample_payload '' t '') TypeShare True None"
  have "case ?n of Inl _ \<Rightarrow> False | Inr v \<Rightarrow> np_images v = [''u''] \<and> np_window_id v = None" by code_simp
  then obtain v where v: "?n = Inr v" "np_images v = [''u'']" "np_window_id v = None" by (auto split: sum.splits)
  let ?r = "normalizedPostPayload.extend v \<lparr>rp_canteen_id = None, rp_cuisine_id = None, rp_flavors = [],
       rp_image_assets = [gallery_image], rp_image_ids = [3]\<rparr>"
  have "IsPurgedImageURL ''u'' = False" by code_simp
  moreover have "\<exists>fs c cu imgs. ?r = normalizedPostPayload.extend v \<lparr>rp_canteen_id = c, rp_cuisine_id = cu, rp_flavors = fs,
        rp_image_assets = imgs, rp_image_ids = map img_id imgs\<rparr>"
    by (rule exI[of _ "[]"], rule exI[of _ None], rule exI[of _ None], rule exI[of _ "[gallery_image]"]) (simp add: gallery_image_def)
  ultimately have "resolves gallery_db 1 v ?r"
    using v(2,3) unfolding resolves_def
    by (simp add: normalizedPostPayload.defs gallery_db_def empty_db_def usable_image_def gallery_image_def)
  from accepted_posts_fit[OF v(1) _ _ this, where st = PostPending and i = 1 and now = 0] v(1) show ?thesis
    by (auto simp: validPostType_def sample_payload_def)
qed

theorem post_create_reviewed_witness:
  "\<exists>p h. posts (rq_db created_req) = [p] \<and> p_status p = PostApproved \<and> post_histories (rq_db created_req) = [h] \<and>
     version_of sample_lib (rq_db created_req) p 1 None h"
proof -
  have "psv_lib passing_posts = sample_lib" by (simp add: passing_posts_def NewPostServiceWithCursorSecret_def)
  then show ?thesis
    using post_create_reviewed[OF created_run] by (auto simp: gallery_db_def empty_db_def newPostModel_def)
qed

theorem post_edit_reviewed_witness:
  "\<exists>n>1. map p_current_revision (posts (rq_db edited_req)) = [n]"
proof -
  obtain res where run: "post_service_Update passing_posts int 1 second_text 1 created_req = (Inr res, edited_req)"
    using edited_run by blast
  have c: "map p_id (posts (rq_db created_req)) = [1]"
    "map (\<lambda>h. (ph_post_id h, ph_revision h)) (post_histories (rq_db created_req)) = [(1, 1)]" by code_simp+
  then obtain p h where p: "posts (rq_db created_req) = [p]" "p_id p = 1" "post_histories (rq_db created_req) = [h]"
      "ph_post_id h = 1" "ph_revision h = 1"
    by (cases "posts (rq_db created_req)"; cases "post_histories (rq_db created_req)") auto
  show ?thesis using post_edit_reviewed[OF run] p by (auto simp: upd_where_def)
qed



theorem posts_stay_reviewed_witness:
  "map post_text (posts (rq_db restored_req)) = [''t'' @ CHR 0x0A # ''c''] \<and>
   map (latest_verdict (rq_db restored_req)) (posts (rq_db restored_req)) = [Some VerdictPass] \<and>
   judged {DirectPassContentModerator} VerdictPass (''t'' @ CHR 0x0A # ''c'')"
proof -
  let ?Ms = "{DirectPassContentModerator}"
  have M: "psv_moderator passing_posts \<in> ?Ms" by (simp add: passing_posts_def NewPostServiceWithCursorSecret_def)
  have "(post_step ?Ms)\<^sup>*\<^sup>* gallery_db (rq_db created_req)"
    using post_step.create[OF created_run M] by (simp add: r_into_rtranclp)
  moreover have "post_step ?Ms (rq_db created_req) (rq_db edited_req)" using edited_run M by (blast intro: post_step.edit)
  moreover have "post_step ?Ms (rq_db edited_req) (rq_db deleted_req)" using deleted_run by (blast intro: post_step.delete)
  moreover have "post_step ?Ms (rq_db deleted_req) (rq_db restored_req)" using restored_run M by (blast intro: post_step.restore)
  ultimately have steps: "(post_step ?Ms)\<^sup>*\<^sup>* gallery_db (rq_db restored_req)" by (meson rtranclp.rtrancl_into_rtrancl)
  have "posts_judged ?Ms gallery_db"
    by (simp add: posts_judged_def texts_ok_def posts_reviewed_def post_rows_ok_def approvals_reviewed_def gallery_db_def
        empty_db_def gallery_image_def known_status_def post_records_def)
  note safe = posts_stay_reviewed[OF steps this]
  have "map (\<lambda>p. (p_status p, p_deleted_at p, p_id p, p_current_revision p)) (posts (rq_db restored_req)) =
      [(PostApproved, None, 1, 1)]" by code_simp
  then obtain p where p: "posts (rq_db restored_req) = [p]" "p_status p = PostApproved" "p_deleted_at p = None" "p_id p = 1"
    "p_current_revision p = 1"
    by (cases "posts (rq_db restored_req)") auto
  have "map_option mr_reviewer_id (current_post_record (rq_db restored_req) 1 1) = Some None" by code_simp
  then have j: "latest_verdict (rq_db restored_req) p = Some VerdictPass" "judged ?Ms VerdictPass (post_text p)"
    using safe p by auto
  have "map post_text (posts (rq_db restored_req)) = [''t'' @ CHR 0x0A # ''c'']" by code_simp
  with j p(1) show ?thesis by simp
qed

end
