(* ===== verification/Spec2Isabelle.thy ===== *)
theory Spec2Isabelle
  imports Authz Email_Outbox Retry_Worker Manual_Review Auth_Register Comment_Review Post_Guarantees
begin

section \<open>The danshi backend\<close>

text \<open>
  A verification of the core of the danshi backend, an HTTP service in Go over PostgreSQL: posts
  and images of a campus food community, with accounts, content review and three durable
  queues.

  \<^bold>\<open>How the program works.\<close>  A request runs in one database transaction
  (\<open>middleware/uow.go\<close>): the handler calls a service, the service calls repositories, and the
  middleware commits or rolls back by the answer.  What must happen outside the database (mails,
  cache purges, reviews by a provider) is written to a queue table in the same transaction;
  workers claim rows under a lease, call the provider, and write the outcome back fenced by the
  lease token.  Review results arrive through callbacks, worker retries and administrators, and
  every one of them recomputes the posts that show the image.  An account signs in with a
  password, and from then on with tokens that name a row of \<open>user_sessions\<close>.

  \<^bold>\<open>How it is modelled.\<close>
  \<^item> \<open>Prelude\<close>: a Go function with an error result is an action \<open>'s \<Rightarrow> ('e + 'a) \<times> 's\<close>; \<open>keeps\<close>
    and \<open>triple\<close> are the rules by which invariants and error postconditions go through
    sequencing.  Tables are lists of rows with the selections that the SQL uses.
  \<^item> \<open>Errors\<close> (\<open>apierr\<close>, \<open>pkg/envelope\<close>): codes, error chains, the rendered answer.
  \<^item> \<open>Model\<close> (\<open>model\<close>): rows and enumerations; the database, in which any statement may fail, and
    in which a statement on a table with constraints is refused when it breaks one.
  \<^item> \<open>Uow\<close> (\<open>infra/db\<close>, \<open>middleware/uow.go\<close>, \<open>middleware/errors.go\<close>, \<open>httpx\<close>): the transaction of a
    request with its before- and after-commit queues, and the transactions of the workers inside
    a world where an arbitrary environment changes the database between any two of them.
  \<^item> \<open>Go_Encoding\<close>, \<open>Go_Strings\<close>, \<open>Go_Text\<close>: hex, UTF-8, \<open>strings\<close> and \<open>strconv\<close> on byte strings.
  \<^item> \<open>Lease_Queue\<close>: the locale of a claimable table, and what every instance promises: bounded and
    fair claims, exclusive while the lease runs, fenced afterwards.  \<open>Email_Outbox\<close>,
    \<open>Image_Access\<close> and \<open>Retry_Store\<close> interpret it on their tables.  \<open>Backoff\<close>: the delay loops.
  \<^item> \<open>Email_Outbox\<close> (\<open>service/email_delivery.go\<close>, \<open>repository/email_delivery.go\<close>): the mail worker.
  \<^item> \<open>Image_Access\<close> (\<open>service/image_access_*.go\<close>, \<open>repository/image_access.go\<close>): the worker that makes
    images public or private and purges caches.
  \<^item> \<open>Retry_Store\<close>, \<open>Retry_Worker\<close> (\<open>repository/\<close> and \<open>service/image_moderation_retry*.go\<close>): images
    whose review the provider did not answer.
  \<^item> \<open>Moderation\<close>, \<open>Manual_Review\<close> (\<open>service/moderation_callback.go\<close>, \<open>repository/moderation.go\<close>):
    review results, the recomputation of posts, the decision of an administrator on a post.
  \<^item> \<open>Authz\<close> (\<open>authz\<close>): roles and capabilities.
  \<^item> \<open>Auth_Input\<close> (\<open>service/auth_validation.go\<close>, \<open>pkg/jwtx\<close>, \<open>pkg/passwordx\<close>, \<open>pkg/usernamepolicy\<close>):
    request fields, tokens, passwords.  \<open>Auth_Store\<close> (\<open>repository/auth.go\<close>): users, codes and
    sessions with their constraints and the trigger on names.  \<open>Auth_Codes\<close> and \<open>Auth\<close>
    (\<open>service/auth.go\<close>): the operations of the account service.
  \<^item> \<open>Service\<close>: how a service calls a repository inside a request, shared by the services below.
  \<^item> \<open>Pagination\<close> (\<open>pkg/pagination\<close>): page parameters and encrypted cursors.  \<open>Keyset\<close>: the locale of
    a list that is read page by page after a sort key, while the table changes.
  \<^item> \<open>Notifications\<close> (\<open>repository/\<close> and \<open>service/notification.go\<close>): the table, the list, the marks.
  \<^item> \<open>Counted\<close>: the locale of a relation with a counter.  \<open>Interactions\<close> (\<open>service/post.go\<close>,
    \<open>comment.go\<close>, \<open>user.go\<close> and their repositories) interprets it for likes of posts and comments,
    favourites and follows; \<open>Interaction_Effects\<close> proves what the eight operations do.
  \<^item> \<open>Comment_Store\<close> (\<open>repository/comment*.go\<close>, the constraints of \<open>comments\<close> and the trigger of
    \<open>00009_comment_visibility.sql\<close>), \<open>Comment_Service\<close> (\<open>service/comment*.go\<close>): comments with their
    versions and mentions.  \<open>Comment_Counts\<close> counts from scratch (\<open>danshi_recount_all\<close>),
    \<open>Comment_Effects\<close> carries the counts through every operation, \<open>Comment_Review\<close> says what a
    write stores and sends and what a reader is shown.
  \<^item> \<open>Money\<close> (\<open>pkg/money\<close>) and \<open>Post_Input\<close> (\<open>service/post_validation.go\<close>): prices, and what a post may
    contain.  \<open>Post_Store\<close> (\<open>repository/post.go\<close>, \<open>post_relations.go\<close>, the constraints of \<open>posts\<close>,
    \<open>post_images\<close>, \<open>post_tags\<close>, \<open>post_flavors\<close>, \<open>post_histories\<close> and \<open>tags\<close>): the statements.
    \<open>Post_Write\<close> (\<open>service/post_write.go\<close>, posts in \<open>service/admin_content.go\<close>): creating, editing,
    deleting and restoring.  \<open>Post_Effects\<close>, \<open>Post_Service_Effects\<close> and \<open>Post_Delete_Effects\<close> describe
    each statement and operation by what it does to the tables on which it depends who sees a
    post, \<open>Post_Review\<close> carries the invariant of approved posts through them, and
    \<open>Post_Guarantees\<close> states the properties.

  \<^bold>\<open>What is shown.\<close>
  \<^item> \<open>Uow\<close>: a request is atomic, and its answer agrees with what was committed.
  \<^item> the queues: no statement of a batch breaks a constraint, under any interleaving and any
    failure; rows follow their life cycle within the attempt budget; a mail is sent for a usable
    code only, a purge after it was recorded; the delays are the capped powers of two.
  \<^item> review: a verdict is applied once, publishes a post only when its text and all images have
    passed, and the SQL recomputation agrees with \<open>aggregatePostModeration\<close>.
  \<^item> \<open>Auth_Codes\<close>, \<open>Auth_Reset\<close>, \<open>Auth_Accounts\<close>: the mails to an address are rate limited and the
    advertised waiting time suffices; a challenge takes five wrong codes and one right one over
    any sequence of requests; asking for a code does not reveal whether an account exists.
  \<^item> \<open>Auth_Sessions\<close>: a token is good exactly while its session row is; signing out and resetting a
    password end tokens at once; what a login answers is accepted afterwards.
  \<^item> \<open>Auth_Register\<close>: addresses and names stay unique on every path of a registration.
  \<^item> \<open>Pagination\<close>, \<open>Notifications\<close>: cursors survive the round trip and cannot be made up; a reader who
    follows them sees strictly older rows, none twice, and misses none that was there throughout.
  \<^item> \<open>Interaction_Effects\<close>: counters are exact on every path, notices go to the owner of the target
    once and never to the caller, repetition is without effect.
  \<^item> \<open>Comment_Effects\<close>, \<open>Comment_Review\<close>: over any requests the counters equal a fresh count; a text is
    shown to others only after the machine passed exactly this text.
  \<^item> \<open>Post_Guarantees\<close>: what the input checks accept, the tables accept; a write stores the content, a
    version whose snapshot is the stored state, and one review of exactly this text; a deletion
    blocks exactly the images that nothing else shows; a restoration reuses the review of its
    version; and over any sequence of these operations, with administrators' deletions and
    restorations and with recomputations, an approved post that is not deleted has passed
    the review of its current text and shows only images that passed.

  \<^bold>\<open>Assumptions.\<close>  SHA-256, HMAC, bcrypt, the JWT library, the address parser, Unicode tables,
  the collation functions of the server, AES-GCM and the providers are parameters.  The only laws
  used are \<open>jwt_library\<close> (a signed token parses back to its claims until it expires), where tokens
  must be accepted, and \<open>aead_library\<close> (what was sealed opens to the same bytes), where cursors must;
  statements about refusal need none.  Random bytes and clock readings are arguments.

  \<^bold>\<open>Bounds.\<close>  No definition uses fuel: loops of the source run over lists, or, in the delay
  loops and in decoding, over a measure that the termination proofs give.  Go's integers wrap
  where the source computes with them (\<open>wrap64\<close>, \<open>wrap32\<close>); times are nanoseconds as integers.

  \<^bold>\<open>Not modelled.\<close>  HTTP binding, routing and rendering (\<open>handler\<close>, \<open>router\<close>, \<open>openapi\<close>) beyond the
  error answers; logging, metrics and configuration files; the clients of the cloud providers,
  which only speak to services outside the repository; the importer of the previous system;
  full-text search, which is a query in the server's own language; the lists and views of
  posts, whose filters are text searches and whose image addresses come from the URL library
  (the relations they load and the rule who may read a post are modelled); uploads, which are
  calls of the object store; the edits of dictionaries and profiles and the lists for
  administrators; the manual review of single records.  The invariant of approved posts covers the
  operations of \<open>post_step\<close>; that an image result or a manual decision publishes nothing unreviewed
  is stated separately, in \<open>Moderation\<close> and \<open>Manual_Review\<close>.  Row locks are reads: the
  statements of one transaction see one database, and the workers' interleaving is that of whole
  transactions.  The foreign keys that are checked at the commit are invariants of \<open>Post_Review\<close>.
\<close>

end
